(* ===== verification/Dyn_Prelude.thy ===== *)
theory Dyn_Prelude
  imports Main "HOL-Library.Word"
begin

unbundle bit_operations_syntax

section \<open>Prelude: bytes, words and flat memory\<close>

text \<open>
  The C code moves values between typed variables, arrays of machine words and raw byte buffers.
  This theory fixes how the development reads those moves:
  \<^item> the names of the C integer types at their width (\<open>dyncall/dyncall/dyncall_types.h\<close>); a
    \<open>float\<close> and a \<open>double\<close> are their 32 and 64 bit patterns, since no operation of the library
    computes with them (the float to double conversion is a parameter where it occurs);
  \<^item> memory as a function from an offset to a byte, so that a write past the end of a buffer is a
    write to the memory that follows, as in C, and can be talked about;
  \<^item> the object representation of a word in little and big endian order, and reading it back.
\<close>

type_synonym u8 = "8 word"
type_synonym u16 = "16 word"
type_synonym u32 = "32 word"
type_synonym u64 = "64 word"
type_synonym byte = "8 word"
type_synonym mem = "nat \<Rightarrow> byte"

text \<open>The collections that carry the component proofs: \<open>dyn_defs\<close> unfolds the operations of the
  code, \<open>dyn_simps\<close> holds the derived equations about vectors, memory and byte order.\<close>

named_theorems dyn_defs
named_theorems dyn_simps

subsection \<open>Bytes of a word\<close>

datatype endian = LE | BE

definition le_bytes :: "nat \<Rightarrow> 'a::len word \<Rightarrow> byte list" where
  "le_bytes n w = map (\<lambda>i. ucast (drop_bit (8 * i) w)) [0..<n]"

fun le_word :: "byte list \<Rightarrow> 'a::len word" where
  "le_word [] = 0"
| "le_word (b # bs) = ucast b OR push_bit 8 (le_word bs)"

definition ord_bytes :: "endian \<Rightarrow> byte list \<Rightarrow> byte list" where
  "ord_bytes e bs = (case e of LE \<Rightarrow> bs | BE \<Rightarrow> rev bs)"

definition obj_bytes :: "endian \<Rightarrow> nat \<Rightarrow> 'a::len word \<Rightarrow> byte list" where
  "obj_bytes e n w = ord_bytes e (le_bytes n w)"

definition obj_word :: "endian \<Rightarrow> byte list \<Rightarrow> 'a::len word" where
  "obj_word e bs = le_word (ord_bytes e bs)"

lemma length_le_bytes [simp]: "length (le_bytes n w) = n"
  by (simp add: le_bytes_def)

lemma length_ord_bytes [simp]: "length (ord_bytes e bs) = length bs"
  by (simp add: ord_bytes_def split: endian.split)

lemma length_obj_bytes [simp]: "length (obj_bytes e n w) = n"
  by (simp add: obj_bytes_def)

lemma ord_bytes_idem [simp]: "ord_bytes e (ord_bytes e bs) = bs"
  by (simp add: ord_bytes_def split: endian.split)

lemma bit_le_word:
  "bit (le_word bs :: 'a::len word) i \<longleftrightarrow>
     i < LENGTH('a) \<and> i div 8 < length bs \<and> bit (bs ! (i div 8)) (i mod 8)"
proof (induction bs arbitrary: i)
  case Nil
  show ?case by simp
next
  case (Cons b bs)
  show ?case
  proof (cases "i < 8")
    case True
    then show ?thesis by (auto simp: bit_simps)
  next
    case False
    then have "i div 8 = Suc ((i - 8) div 8)" and "i mod 8 = (i - 8) mod 8"
      by (simp_all add: le_div_geq le_mod_geq)
    with False show ?thesis
      by (auto simp: bit_simps Cons.IH dest: bit_imp_le_length)
  qed
qed

lemma le_word_le_bytes:
  assumes "LENGTH('a) \<le> 8 * n"
  shows "le_word (le_bytes n w) = (w :: 'a::len word)"
proof (rule bit_word_eqI)
  fix i assume i: "i < LENGTH('a)"
  with assms have d: "i div 8 < n" by linarith
  have "8 * (i div 8) + i mod 8 = i" by simp
  with i d show "bit (le_word (le_bytes n w) :: 'a word) i \<longleftrightarrow> bit w i"
    by (simp add: bit_le_word le_bytes_def bit_simps)
qed

lemma obj_word_obj_bytes [dyn_simps]:
  "LENGTH('a) \<le> 8 * n \<Longrightarrow> obj_word e (obj_bytes e n w) = (w :: 'a::len word)"
  by (simp add: obj_word_def obj_bytes_def le_word_le_bytes)

lemma le_bytes_le_word:
  assumes "length bs = n" and "8 * n \<le> LENGTH('a)"
  shows "le_bytes n (le_word bs :: 'a::len word) = bs"
proof (rule nth_equalityI)
  fix i assume "i < length (le_bytes n (le_word bs :: 'a word))"
  then have i: "i < n" by simp
  show "le_bytes n (le_word bs :: 'a word) ! i = bs ! i"
  proof (rule bit_word_eqI)
    fix k assume k: "k < LENGTH(8)"
    then have k8: "k < 8" by simp
    then have d: "(8 * i + k) div 8 = i" "(8 * i + k) mod 8 = k" by simp_all
    from i k8 assms(2) have "8 * i + k < LENGTH('a)" by linarith
    with i k d assms(1) show "bit (le_bytes n (le_word bs :: 'a word) ! i) k \<longleftrightarrow> bit (bs ! i) k"
      by (simp add: le_bytes_def bit_simps bit_le_word del: div_mult_self4 mod_mult_self4)
  qed
qed (simp add: assms)

lemma obj_bytes_obj_word [dyn_simps]:
  "length bs = n \<Longrightarrow> 8 * n \<le> LENGTH('a) \<Longrightarrow> obj_bytes e n (obj_word e bs :: 'a::len word) = bs"
  by (simp add: obj_bytes_def obj_word_def le_bytes_le_word)

lemma take_le_bytes: "m \<le> n \<Longrightarrow> take m (le_bytes n w) = le_bytes m w"
  by (simp add: le_bytes_def take_map)

lemma le_bytes_ucast:
  "8 * n \<le> LENGTH('b) \<Longrightarrow> le_bytes n (ucast (w :: 'a::len word) :: 'b::len word) = le_bytes n w"
  by (auto simp: le_bytes_def bit_simps intro!: bit_word_eqI)

lemma obj_bytes_LE: "obj_bytes LE n w = le_bytes n w"
  by (simp add: obj_bytes_def ord_bytes_def)

text \<open>The halves of an eight byte object, in memory order.\<close>

definition lo_word :: "u64 \<Rightarrow> u32" where "lo_word x = ucast x"
definition hi_word :: "u64 \<Rightarrow> u32" where "hi_word x = ucast (drop_bit 32 x)"
definition join_words :: "u32 \<Rightarrow> u32 \<Rightarrow> u64" where "join_words hi lo = word_cat hi lo"

lemma join_words_hi_lo [simp]: "join_words (hi_word x) (lo_word x) = x"
  by (rule bit_word_eqI) (auto simp: join_words_def hi_word_def lo_word_def bit_simps bit_word_cat_iff)

lemma hi_lo_join [simp]: "hi_word (join_words h l) = h" "lo_word (join_words h l) = l"
  by (rule bit_word_eqI, auto simp: join_words_def hi_word_def lo_word_def bit_simps bit_word_cat_iff)+

lemma take_le_bytes_8: "take 4 (le_bytes 8 x) = le_bytes 4 (lo_word x)"
  by (simp add: take_le_bytes lo_word_def le_bytes_ucast)

lemma drop_le_bytes_8: "drop 4 (le_bytes 8 x) = le_bytes 4 (hi_word x)"
  by (rule nth_equalityI) (auto simp: le_bytes_def hi_word_def bit_simps add.assoc intro!: bit_word_eqI)

lemma obj_bytes_halves:
  "take 4 (obj_bytes LE 8 x) = obj_bytes LE 4 (lo_word x)"
  "drop 4 (obj_bytes LE 8 x) = obj_bytes LE 4 (hi_word x)"
  "take 4 (obj_bytes BE 8 x) = obj_bytes BE 4 (hi_word x)"
  "drop 4 (obj_bytes BE 8 x) = obj_bytes BE 4 (lo_word x)"
  by (simp_all add: obj_bytes_def ord_bytes_def take_le_bytes_8 drop_le_bytes_8
      take_rev drop_rev)

subsection \<open>Flat memory\<close>

definition write_at :: "mem \<Rightarrow> nat \<Rightarrow> byte list \<Rightarrow> mem" where
  "write_at m i bs = (\<lambda>j. if i \<le> j \<and> j < i + length bs then bs ! (j - i) else m j)"

definition read_at :: "mem \<Rightarrow> nat \<Rightarrow> nat \<Rightarrow> byte list" where
  "read_at m i n = map m [i..<i + n]"

lemma length_read_at [simp]: "length (read_at m i n) = n"
  by (simp add: read_at_def)

lemma read_at_cong:
  "(\<And>j. i \<le> j \<Longrightarrow> j < i + n \<Longrightarrow> m j = m' j) \<Longrightarrow> read_at m i n = read_at m' i n"
  by (simp add: read_at_def)

lemma read_at_shift: "read_at (\<lambda>j. m (c + j)) i n = read_at m (c + i) n"
  by (rule nth_equalityI) (auto simp: read_at_def add.assoc)

lemma read_at_part: "i + k \<le> n \<Longrightarrow> read_at m (a + i) k = take k (drop i (read_at m a n))"
  by (rule nth_equalityI) (auto simp: read_at_def add.assoc)

lemma read_at_write_at [dyn_simps]: "n = length bs \<Longrightarrow> read_at (write_at m i bs) i n = bs"
  by (auto simp: read_at_def write_at_def intro: nth_equalityI)

lemma write_at_below [simp]: "j < i \<Longrightarrow> write_at m i bs j = m j"
  by (simp add: write_at_def)

lemma write_at_above [simp]: "i + length bs \<le> j \<Longrightarrow> write_at m i bs j = m j"
  by (simp add: write_at_def)

lemma write_at_append:
  "write_at (write_at m (i + length xs) ys) i xs = write_at m i (xs @ ys)"
  by (auto simp: write_at_def fun_eq_iff nth_append)

subsection \<open>Rounding by masking\<close>

text \<open>The C idiom \<open>(n + a - 1) & -a\<close> for a power of two \<open>a\<close>.\<close>

definition mask_up :: "'a::len word \<Rightarrow> 'a word \<Rightarrow> 'a word" where
  "mask_up n a = (n + a - 1) AND (- a)"

lemma and_minus_exp: "(x::'a::len word) AND (- (2 ^ k)) = x - take_bit k x"
proof -
  have "- (2 ^ k :: 'a word) = NOT (mask k)"
    by (simp add: mask_eq_decr_exp not_eq_complement)
  moreover have "(x AND NOT (mask k)) + take_bit k x = x"
  proof -
    have "(x AND NOT (mask k)) AND take_bit k x = 0"
      by (rule bit_word_eqI) (simp add: bit_simps)
    then have "(x AND NOT (mask k)) + take_bit k x = (x AND NOT (mask k)) OR take_bit k x"
      by (rule disjunctive_add_eq_or)
    also have "\<dots> = x"
      by (rule bit_word_eqI) (auto simp: bit_simps)
    finally show ?thesis .
  qed
  ultimately show ?thesis by (simp add: eq_diff_eq)
qed

lemma unat_and_minus_exp:
  "unat ((x::'a::len word) AND (- (2 ^ k))) = unat x - unat x mod 2 ^ k"
proof -
  have t: "unat (take_bit k x) = unat x mod 2 ^ k"
    by (metis unsigned_take_bit_eq take_bit_eq_mod)
  then have "take_bit k x \<le> x"
    by (simp add: word_le_nat_alt)
  then show ?thesis
    by (simp add: and_minus_exp unat_sub t)
qed

definition round_up :: "nat \<Rightarrow> nat \<Rightarrow> nat" where
  "round_up a n = (n + a - 1) div a * a"

lemma round_up_ge: "0 < a \<Longrightarrow> n \<le> round_up a n"
proof -
  assume a: "0 < a"
  have "n + a - 1 < (n + a - 1) div a * a + a"
    using a by (metis div_mult_mod_eq mod_less_divisor add_less_cancel_left)
  with a show "n \<le> round_up a n" by (simp add: round_up_def)
qed

lemma round_up_less: "0 < a \<Longrightarrow> round_up a n < n + a"
  by (metis Suc_pred add_gr_0 div_times_less_eq_dividend le_imp_less_Suc round_up_def diff_Suc_1
      add_diff_inverse_nat One_nat_def)

lemma dvd_round_up [simp]: "a dvd round_up a n"
  by (simp add: round_up_def)

lemma round_up_dvd [simp]: "a dvd n \<Longrightarrow> round_up a n = n"
proof (cases "a = 0")
  case False
  assume "a dvd n"
  then obtain k where "n = a * k" ..
  moreover from False have "(a * k + a - 1) div a = k"
    by (intro div_nat_eqI) auto
  ultimately show ?thesis by (simp add: round_up_def mult.commute)
qed (simp add: round_up_def)

lemma unat_mask_up:
  assumes "unat n + 2 ^ k \<le> 2 ^ LENGTH('a)" and "k < LENGTH('a)"
  shows "unat (mask_up n (2 ^ k :: 'a::len word)) = round_up (2 ^ k) (unat n)"
proof -
  have p: "unat (2 ^ k :: 'a word) = 2 ^ k"
    using assms(2) by (metis unat_of_nat of_nat_numeral of_nat_power mod_less power_strict_increasing_iff one_less_numeral_iff semiring_norm(76))
  have "unat (n + (2 ^ k - 1)) = unat n + (2 ^ k - 1)"
  proof -
    have "unat (2 ^ k - 1 :: 'a word) = 2 ^ k - 1"
      using p by (subst unat_sub) (simp_all add: word_le_nat_alt)
    with assms(1) show ?thesis
      by (subst unat_plus_if') (simp add: less_le_trans)
  qed
  then have "unat (mask_up n (2 ^ k)) = (unat n + (2 ^ k - 1)) - (unat n + (2 ^ k - 1)) mod 2 ^ k"
    by (simp only: mask_up_def unat_and_minus_exp add_diff_eq)
  then show ?thesis
    by (simp add: round_up_def minus_mod_eq_div_mult)
qed


lemma unat_mask_up_ge:
  assumes "unat n + 2 ^ k \<le> 2 ^ LENGTH('a)" and "k < LENGTH('a)"
  shows "unat n \<le> unat (mask_up n (2 ^ k :: 'a::len word))"
  using assms by (simp add: unat_mask_up round_up_ge)

subsection \<open>Signed comparison of sizes\<close>

lemma sint_small:
  assumes "unat (x :: 'a::len word) < 2 ^ (LENGTH('a) - 1)"
  shows "sint x = int (unat x)"
proof -
  from assms have "int (unat x) < 2 ^ (LENGTH('a) - 1)" by (metis of_nat_less_iff of_nat_power of_nat_numeral)
  then show ?thesis by (simp add: sint_uint signed_take_bit_int_eq_self order_trans [of _ 0])
qed

lemma sle_0_small:
  "unat (x :: 'a::len word) < 2 ^ (LENGTH('a) - 1) \<Longrightarrow> x \<le>s 0 \<longleftrightarrow> x = 0"
  by (simp add: word_sle_eq sint_small uint_0_iff)

end
