(* ===== verification/Dyn_Load.thy ===== *)
theory Dyn_Load
  imports Dyn_Prelude
begin

unbundle bit_operations_syntax

section \<open>Loading of libraries and their paths\<close>

text \<open>
  \<open>dyncall/dynload/dynload_unix.c\<close> and \<open>dynload_windows.c\<close>. The state \<open>dl_state\<close> counts how often each library is open,
  and holds the mapped files, the open descriptors and the number of blocks from \<open>malloc\<close>, so that what an operation
  forgets to give back can be seen. The loader of the system is the record \<open>dl_os\<close>: which library a name stands for,
  which objects are loaded, what file and symbol an address belongs to. A handle is an address, \<open>0\<close> is
  \<open>NULL\<close>; strings are lists of bytes without the zero at their end. \<open>dlGetLibraryPath\<close> has a different implementation
  for each kind of system; the locale \<open>library_path\<close> is what they have in common.
\<close>

subsection \<open>The system\<close>

type_synonym cstr = "byte list"

record 'a dl_state =
  dl_refs :: "'a \<Rightarrow> nat"
  dl_maps :: "('a \<times> byte list) list"
  dl_fds :: "nat list"
  dl_blocks :: nat

record 'a dl_phdr_info =
  dlpi_addr :: 'a
  dlpi_name :: cstr
  dlpi_phdr :: "(u32 \<times> 'a) list"

record 'a Dl_info =
  dli_fname :: cstr
  dli_sname :: 'a
  dli_saddr :: 'a

text \<open>
  \<open>os_load\<close> is what \<open>dlopen\<close> finds for a name (\<open>None\<close>, the null pointer, is the program), \<open>os_loaded\<close> the same with
  \<open>RTLD_NOLOAD\<close>; \<open>os_objects\<close> is the list that \<open>dl_iterate_phdr\<close> walks, \<open>os_images\<close> the one of dyld, which numbers its
  images. Files have content, descriptors and places to be mapped at (\<open>None\<close>: \<open>open\<close> and \<open>mmap\<close> fail). On Windows,
  \<open>MultiByteToWideChar\<close> counts the characters of a path with the zero at the end (\<open>os_wide\<close>, 0 on an error) and writes
  them to a buffer of that size (\<open>os_wide_fill\<close>, its result is the number written); \<open>WideCharToMultiByte\<close> is \<open>os_utf8\<close>,
  \<open>None\<close> when it fails, when counting as when writing; \<open>os_module_name\<close> is the full name of a module, empty on an error.
\<close>

record 'a dl_os =
  os_load :: "cstr option \<Rightarrow> 'a"
  os_loaded :: "cstr \<Rightarrow> 'a"
  os_sym :: "'a \<Rightarrow> cstr \<Rightarrow> 'a"
  os_objects :: "'a dl_phdr_info list"
  os_images :: "cstr list"
  os_dladdr :: "'a \<Rightarrow> 'a Dl_info option"
  os_link_map :: "'a option \<Rightarrow> cstr option"
  os_file :: "cstr \<Rightarrow> byte list option"
  os_fd :: "cstr \<Rightarrow> nat list \<Rightarrow> nat option"
  os_mmap :: "nat \<Rightarrow> nat \<Rightarrow> 'a option"
  os_page :: nat
  os_malloc :: "nat \<Rightarrow> bool"
  os_program :: 'a
  os_wide :: "cstr \<Rightarrow> nat"
  os_wide_fill :: "cstr \<Rightarrow> nat \<Rightarrow> u16 list"
  os_utf8 :: "u16 list \<Rightarrow> cstr option"
  os_loadW :: "u16 list \<Rightarrow> 'a"
  os_module_name :: "'a \<Rightarrow> u16 list"

definition count_ref :: "'p::len word \<Rightarrow> 'p word dl_state \<Rightarrow> 'p word dl_state" where
  "count_ref h st = (if h = 0 then st else st\<lparr>dl_refs := (dl_refs st)(h := dl_refs st h + 1)\<rparr>)"

definition dlopen :: "'p::len word dl_os \<Rightarrow> cstr option \<Rightarrow> 'p word dl_state \<Rightarrow> 'p word \<times> 'p word dl_state" where
  "dlopen os name st = (os_load os name, count_ref (os_load os name) st)"

definition dlopen_noload :: "'p::len word dl_os \<Rightarrow> cstr \<Rightarrow> 'p word dl_state \<Rightarrow> 'p word \<times> 'p word dl_state" where
  "dlopen_noload os name st = (os_loaded os name, count_ref (os_loaded os name) st)"

definition dlclose :: "'p::len word \<Rightarrow> 'p word dl_state \<Rightarrow> 'p word dl_state" where
  "dlclose h st = st\<lparr>dl_refs := (dl_refs st)(h := dl_refs st h - 1)\<rparr>"

lemma dlclose_count_ref [simp]: "h \<noteq> 0 \<Longrightarrow> dlclose h (count_ref h st) = st"
  by (simp add: dlclose_def count_ref_def)

lemma count_ref_0 [simp]: "count_ref 0 st = st"
  by (simp add: count_ref_def)

subsection \<open>Unix\<close>

definition dlLoadLibrary_unix ::
  "'p::len word dl_os \<Rightarrow> cstr option \<Rightarrow> 'p word dl_state \<Rightarrow> 'p word \<times> 'p word dl_state" where
  "dlLoadLibrary_unix os libPath st = dlopen os libPath st"

definition dlFindSymbol_unix :: "'p::len word dl_os \<Rightarrow> 'p word \<Rightarrow> cstr \<Rightarrow> 'p word" where
  "dlFindSymbol_unix os pLib name = os_sym os pLib name"

definition dlFreeLibrary_unix :: "'p::len word \<Rightarrow> 'p word dl_state \<Rightarrow> 'p word dl_state" where
  "dlFreeLibrary_unix pLib st = (if pLib \<noteq> 0 then dlclose pLib st else st)"

text \<open>The new content of \<open>dst\<close> and the length.\<close>

definition dl_strlen_strcpy :: "byte list \<Rightarrow> cstr \<Rightarrow> int \<Rightarrow> int \<times> byte list" where
  "dl_strlen_strcpy dst src dstSize =
     (let l = int (length src)
      in (l, if l < dstSize then src @ [0] @ drop (length src + 1) dst else dst))"

text \<open>Systems with \<open>dlinfo\<close> (\<open>None\<close> is \<open>RTLD_SELF\<close>).\<close>

definition dlGetLibraryPath_dlinfo ::
  "'p::len word dl_os \<Rightarrow> 'p word \<Rightarrow> byte list \<Rightarrow> int \<Rightarrow> 'p word dl_state \<Rightarrow> int \<times> byte list \<times> 'p word dl_state" where
  "dlGetLibraryPath_dlinfo os pLib sOut bufSize st =
     (let (l, sOut) =
        (case os_link_map os (if pLib \<noteq> 0 then Some pLib else None) of
           None \<Rightarrow> (-1, sOut)
         | Some l_name \<Rightarrow> dl_strlen_strcpy sOut l_name bufSize)
      in (l + 1, sOut, st))"

text \<open>Darwin, from the last image to the first.\<close>

fun darwin_loop ::
  "'p::len word dl_os \<Rightarrow> 'p word \<Rightarrow> cstr list \<Rightarrow> byte list \<Rightarrow> int \<Rightarrow> 'p word dl_state \<Rightarrow> int \<times> byte list \<times> 'p word dl_state" where
  "darwin_loop os pLib [] sOut bufSize st = (-1, sOut, st)"
| "darwin_loop os pLib (libPath # todo) sOut bufSize st =
     (let (lib, st) = dlopen_noload os libPath st
      in if lib \<noteq> 0 then
           (let st = dlclose lib st
            in if (pLib XOR lib) < 4 then
                 (let (l, sOut) = dl_strlen_strcpy sOut libPath bufSize in (l, sOut, st))
               else darwin_loop os pLib todo sOut bufSize st)
         else darwin_loop os pLib todo sOut bufSize st)"

definition dlGetLibraryPath_darwin ::
  "'p::len word dl_os \<Rightarrow> 'p word \<Rightarrow> byte list \<Rightarrow> int \<Rightarrow> 'p word dl_state \<Rightarrow> int \<times> byte list \<times> 'p word dl_state" where
  "dlGetLibraryPath_darwin os pLib sOut bufSize st =
     (let (l, sOut, st) =
        (if pLib = 0 then
           (case os_images os of
              [] \<Rightarrow> (-1, sOut, st)
            | libPath # _ \<Rightarrow> (let (l, sOut) = dl_strlen_strcpy sOut libPath bufSize in (l, sOut, st)))
         else darwin_loop os pLib (rev (os_images os)) sOut bufSize st)
      in (l + 1, sOut, st))"

text \<open>Systems with \<open>dl_iterate_phdr\<close> (Linux, OpenBSD).\<close>

definition PT_LOAD :: u32 where "PT_LOAD = 1"

definition iter_phdr_cb ::
  "'p::len word dl_os \<Rightarrow> 'p word \<Rightarrow> int \<Rightarrow> 'p word dl_phdr_info \<Rightarrow> byte list \<Rightarrow> 'p word dl_state \<Rightarrow>
     int \<times> byte list \<times> 'p word dl_state" where
  "iter_phdr_cb os pLib bufSize info sOut st =
     (let (lib, st) =
        (if pLib \<noteq> 0 then
           (let (lib, st) = dlopen_noload os (dlpi_name info) st
            in (lib, if lib \<noteq> 0 then dlclose lib st else st))
         else (0, st));
        (l, sOut) =
        (if lib = pLib then
           (let (l, sOut) = dl_strlen_strcpy sOut (dlpi_name info) bufSize
            in if l = 0 \<and> pLib = 0 then
                 (let vladdr =
                    (case find (\<lambda>(p_type, _). p_type = PT_LOAD) (dlpi_phdr info) of
                       None \<Rightarrow> dlpi_addr info
                     | Some (_, p_vaddr) \<Rightarrow> dlpi_addr info + p_vaddr)
                  in case os_dladdr os vladdr of
                       None \<Rightarrow> (l, sOut)
                     | Some di \<Rightarrow> dl_strlen_strcpy sOut (dli_fname di) bufSize)
               else (l, sOut))
         else (-1, sOut))
      in (l + 1, sOut, st))"

text \<open>\<open>dl_iterate_phdr\<close> calls for one object after the other until the result is not zero, which it returns.\<close>

fun iterate_phdr ::
  "'p::len word dl_os \<Rightarrow> 'p word \<Rightarrow> int \<Rightarrow> 'p word dl_phdr_info list \<Rightarrow> byte list \<Rightarrow> 'p word dl_state \<Rightarrow>
     int \<times> byte list \<times> 'p word dl_state" where
  "iterate_phdr os pLib bufSize [] sOut st = (0, sOut, st)"
| "iterate_phdr os pLib bufSize (info # todo) sOut st =
     (case iter_phdr_cb os pLib bufSize info sOut st of (r, sOut, st) \<Rightarrow>
        if r \<noteq> 0 then (r, sOut, st) else iterate_phdr os pLib bufSize todo sOut st)"

definition dlGetLibraryPath_phdr ::
  "'p::len word dl_os \<Rightarrow> 'p word \<Rightarrow> byte list \<Rightarrow> int \<Rightarrow> 'p word dl_state \<Rightarrow> int \<times> byte list \<times> 'p word dl_state" where
  "dlGetLibraryPath_phdr os pLib sOut bufSize st = iterate_phdr os pLib bufSize (os_objects os) sOut st"

text \<open>All others; the name is \<open>_fini\<close>.\<close>

definition fini_name :: cstr where "fini_name = [0x5f, 0x66, 0x69, 0x6e, 0x69]"

definition dlGetLibraryPath_dladdr ::
  "'p::len word dl_os \<Rightarrow> 'p word \<Rightarrow> byte list \<Rightarrow> int \<Rightarrow> 'p word dl_state \<Rightarrow> int \<times> byte list \<times> 'p word dl_state" where
  "dlGetLibraryPath_dladdr os pLib sOut bufSize st =
     (let s = os_sym os pLib fini_name;
        (l, sOut) =
        (if s \<noteq> 0 then
           (case os_dladdr os s of None \<Rightarrow> (-1, sOut) | Some i \<Rightarrow> dl_strlen_strcpy sOut (dli_fname i) bufSize)
         else (-1, sOut))
      in (l + 1, sOut, st))"

subsection \<open>Windows\<close>

definition dl_alloc :: "'a dl_state \<Rightarrow> 'a dl_state" where "dl_alloc st = st\<lparr>dl_blocks := dl_blocks st + 1\<rparr>"
definition dl_free :: "'a dl_state \<Rightarrow> 'a dl_state" where "dl_free st = st\<lparr>dl_blocks := dl_blocks st - 1\<rparr>"

lemma dl_free_alloc [simp]: "dl_free (dl_alloc st) = st"
  by (simp add: dl_free_def dl_alloc_def)

lemma dl_free_count_ref [simp]: "dl_free (count_ref h (dl_alloc st)) = count_ref h st"
  by (simp add: dl_free_def dl_alloc_def count_ref_def)

text \<open>The zero at the end of the name is replaced by the suffix, behind which the code writes another zero.\<close>

definition dlLoadLibrary_windows ::
  "'p::len word dl_os \<Rightarrow> cstr option \<Rightarrow> 'p word dl_state \<Rightarrow> 'p word \<times> 'p word dl_state" where
  "dlLoadLibrary_windows os libPath st =
     (case libPath of
        None \<Rightarrow> (os_program os, st)
      | Some path \<Rightarrow>
          (let r = os_wide os path
           in if r = 0 then (0, st)
              else if \<not> os_malloc os ((r + 1) * 2) then (0, st)
              else (let st = dl_alloc st; ws = os_wide_fill os path r;
                      pLib = (if length ws = r then os_loadW os (ws[r - 1 := 0x2e]) else 0)
                    in (pLib, dl_free (count_ref pLib st)))))"

definition dlFindSymbol_windows :: "'p::len word dl_os \<Rightarrow> 'p word \<Rightarrow> cstr \<Rightarrow> 'p word" where
  "dlFindSymbol_windows os pLib name = os_sym os pLib name"

definition dlFreeLibrary_windows :: "'p::len word \<Rightarrow> 'p word dl_state \<Rightarrow> 'p word dl_state" where
  "dlFreeLibrary_windows pLib st = dlclose pLib st"

text \<open>\<open>GetModuleFileNameW\<close> fills a buffer of \<open>nc\<close> characters; \<open>nc\<close> is the result when it is too small.\<close>

definition module_file_name :: "'p::len word dl_os \<Rightarrow> 'p word \<Rightarrow> nat \<Rightarrow> nat" where
  "module_file_name os pLib nc =
     (if length (os_module_name os pLib) < nc then length (os_module_name os pLib) else nc)"

definition MAX_EXT_PATH :: nat where "MAX_EXT_PATH = 2 ^ 15"

partial_function (option) windows_loop ::
  "'p::len word dl_os \<Rightarrow> 'p word \<Rightarrow> byte list \<Rightarrow> int \<Rightarrow> nat \<Rightarrow> 'p word dl_state \<Rightarrow> (int \<times> byte list \<times> 'p word dl_state) option" where
  "windows_loop os pLib sOut bufSize nc st =
     (if nc \<le> MAX_EXT_PATH then
        (if \<not> os_malloc os (nc * 2) then Some (0, sOut, st)
         else
           (let st = dl_alloc st; r = module_file_name os pLib nc
            in if r = nc then windows_loop os pLib sOut bufSize (2 * nc) (dl_free st)
               else if r = 0 then Some (0, sOut, dl_free st)
               else
                 (case os_utf8 os (os_module_name os pLib) of
                    None \<Rightarrow> Some (0, sOut, dl_free st)
                  | Some s \<Rightarrow>
                      (let r = int (length s) + 1
                       in Some (r, if r \<le> bufSize then s @ [0] @ drop (length s + 1) sOut else sOut, dl_free st)))))
      else Some (0, sOut, st))"

definition dlGetLibraryPath_windows ::
  "'p::len word dl_os \<Rightarrow> 'p word \<Rightarrow> byte list \<Rightarrow> int \<Rightarrow> 'p word dl_state \<Rightarrow> (int \<times> byte list \<times> 'p word dl_state) option" where
  "dlGetLibraryPath_windows os pLib sOut bufSize st = windows_loop os pLib sOut bufSize (2 ^ 6) st"

subsection \<open>What the implementations have in common\<close>

text \<open>
  \<open>path\<close> is the path of the library, \<open>None\<close> if there is none to be found. A path that fits is copied with its zero, the
  result is its length with the zero, and the state of the system (references, memory) is what it was.
\<close>

locale library_path =
  fixes get :: "byte list \<Rightarrow> int \<Rightarrow> 's \<Rightarrow> int \<times> byte list \<times> 's" and path :: "cstr option"
  assumes unknown: "path = None \<Longrightarrow> get buf n st = (0, buf, st)"
    and known: "path = Some p \<Longrightarrow> n \<le> int (length buf) \<Longrightarrow> int (length p) < n \<Longrightarrow>
      get buf n st = (int (length p) + 1, p @ [0] @ drop (length p + 1) buf, st)"
    and too_long: "path = Some p \<Longrightarrow> n \<le> int (length buf) \<Longrightarrow> n \<le> int (length p) \<Longrightarrow>
      \<exists>buf'. get buf n st = (int (length p) + 1, buf', st) \<and> (buf' = buf \<or> buf' = 0 # drop 1 buf)"
begin

lemma state_kept: "n \<le> int (length buf) \<Longrightarrow> snd (snd (get buf n st)) = st"
proof (cases path)
  case (Some p)
  assume n: "n \<le> int (length buf)"
  show ?thesis
  proof (cases "int (length p) < n")
    case True
    from known [OF Some n True] show ?thesis by simp
  next
    case False
    then have "n \<le> int (length p)" by simp
    from too_long [OF Some n this, of st] show ?thesis by auto
  qed
qed (simp add: unknown)

lemma size_kept: "0 < n \<Longrightarrow> n \<le> int (length buf) \<Longrightarrow> length (fst (snd (get buf n st))) = length buf"
proof (cases path)
  case (Some p)
  assume n: "0 < n" "n \<le> int (length buf)"
  show ?thesis
  proof (cases "int (length p) < n")
    case True
    from known [OF Some n(2) True] True n show ?thesis by simp
  next
    case False
    then have "n \<le> int (length p)" by simp
    from too_long [OF Some n(2) this, of st] n show ?thesis by (cases buf) auto
  qed
qed (simp add: unknown)

text \<open>Asking for the size with an empty buffer, then for the path.\<close>

lemma ask_twice:
  assumes "path = Some p" and "get [] 0 st = (r, b, st')" and "length buf = nat r"
  shows "get buf r st' = (r, p @ [0], st)"
proof -
  from too_long [OF assms(1), of 0 "[]" st] assms(2) have r: "r = int (length p) + 1" and s: "st' = st" by auto
  with known [OF assms(1), of r buf st] assms(3) show ?thesis by simp
qed

text \<open>A zeroed buffer holds the path, or nothing.\<close>

lemma zeroed_buffer:
  assumes "path = Some p" and "0 \<notin> set p" and "0 < n"
  shows "\<exists>buf. get (replicate n 0) (int n) st = (int (length p) + 1, buf, st) \<and> length buf = n \<and>
    takeWhile (\<lambda>b. b \<noteq> 0) buf = (if length p < n then p else [])"
proof (cases "length p < n")
  case True
  have "takeWhile (\<lambda>b. b \<noteq> 0) (p @ [0] @ drop (length p + 1) (replicate n 0)) = p"
    using assms(2) by (subst takeWhile_append2) auto
  with True known [OF assms(1), of "int n" "replicate n 0" st] show ?thesis by simp
next
  case False
  with too_long [OF assms(1), of "int n" "replicate n 0" st] assms(3) show ?thesis
    by (cases n) auto
qed

end

lemma strcpy_fits:
  "int (length p) < n \<Longrightarrow> dl_strlen_strcpy buf p n = (int (length p), p @ [0] @ drop (length p + 1) buf)"
  by (simp add: dl_strlen_strcpy_def Let_def)

lemma strcpy_long: "n \<le> int (length p) \<Longrightarrow> dl_strlen_strcpy buf p n = (int (length p), buf)"
  by (simp add: dl_strlen_strcpy_def Let_def)

lemma strcpy_length: "fst (dl_strlen_strcpy buf p n) = int (length p)"
  by (simp add: dl_strlen_strcpy_def Let_def)

lemmas strcpy_simps = strcpy_fits strcpy_long

text \<open>With \<open>dlinfo\<close> it is the name in the link map.\<close>

definition dlinfo_path :: "'p::len word dl_os \<Rightarrow> 'p word \<Rightarrow> cstr option" where
  "dlinfo_path os h = os_link_map os (if h \<noteq> 0 then Some h else None)"

interpretation dlinfo: library_path "dlGetLibraryPath_dlinfo os h" "dlinfo_path os h" for os h
  by unfold_locales (simp_all add: dlGetLibraryPath_dlinfo_def dlinfo_path_def strcpy_simps)

text \<open>On Darwin it is the last image whose handle is the same but for the two lowest bits, for the program the first image.\<close>

definition darwin_path :: "'p::len word dl_os \<Rightarrow> 'p word \<Rightarrow> cstr option" where
  "darwin_path os h =
     (if h = 0 then (case os_images os of [] \<Rightarrow> None | p # _ \<Rightarrow> Some p)
      else find (\<lambda>p. os_loaded os p \<noteq> 0 \<and> (h XOR os_loaded os p) < 4) (rev (os_images os)))"

lemma darwin_loop_find:
  "darwin_loop os h ps buf n st =
     (case find (\<lambda>p. os_loaded os p \<noteq> 0 \<and> (h XOR os_loaded os p) < 4) ps of
        None \<Rightarrow> (-1, buf, st)
      | Some p \<Rightarrow> (fst (dl_strlen_strcpy buf p n), snd (dl_strlen_strcpy buf p n), st))"
  by (induction ps) (auto simp: dlopen_noload_def split_beta Let_def)

interpretation darwin: library_path "dlGetLibraryPath_darwin os h" "darwin_path os h" for os h
  by unfold_locales
    (auto simp: dlGetLibraryPath_darwin_def darwin_path_def darwin_loop_find strcpy_simps split: list.splits if_splits)

text \<open>
  On Linux it is the name of the first object that opens to the same handle. The program is the first object; it has no
  name, and the file that its first loaded segment comes from is taken.
\<close>

definition load_address :: "'p::len word dl_phdr_info \<Rightarrow> 'p word" where
  "load_address info =
     dlpi_addr info + (case find (\<lambda>(t, v). t = PT_LOAD) (dlpi_phdr info) of None \<Rightarrow> 0 | Some (t, v) \<Rightarrow> v)"

definition phdr_path :: "'p::len word dl_os \<Rightarrow> 'p word \<Rightarrow> cstr option" where
  "phdr_path os h =
     (if h = 0 then
        (case os_objects os of
           [] \<Rightarrow> None
         | info # _ \<Rightarrow>
             if dlpi_name info \<noteq> [] then Some (dlpi_name info)
             else (case os_dladdr os (load_address info) of None \<Rightarrow> Some [] | Some di \<Rightarrow> Some (dli_fname di)))
      else map_option dlpi_name (find (\<lambda>info. os_loaded os (dlpi_name info) = h) (os_objects os)))"

lemma phdr_cb_library:
  "h \<noteq> 0 \<Longrightarrow> iter_phdr_cb os h n info buf st =
     (if os_loaded os (dlpi_name info) = h
      then (int (length (dlpi_name info)) + 1, snd (dl_strlen_strcpy buf (dlpi_name info) n), st)
      else (0, buf, st))"
  by (auto simp: iter_phdr_cb_def dlopen_noload_def split_beta Let_def strcpy_length)

lemma iterate_phdr_library:
  "h \<noteq> 0 \<Longrightarrow> iterate_phdr os h n infos buf st =
     (case find (\<lambda>info. os_loaded os (dlpi_name info) = h) infos of
        None \<Rightarrow> (0, buf, st)
      | Some info \<Rightarrow> (int (length (dlpi_name info)) + 1, snd (dl_strlen_strcpy buf (dlpi_name info) n), st))"
  by (induction infos) (auto simp: phdr_cb_library)

lemma load_address_code:
  "(case find (\<lambda>(t, v). t = PT_LOAD) (dlpi_phdr info) of None \<Rightarrow> dlpi_addr info | Some (t, v) \<Rightarrow> dlpi_addr info + v) =
     load_address info"
  by (simp add: load_address_def split: option.split prod.split)

lemma phdr_cb_program:
  "iter_phdr_cb os 0 n info buf st =
     (let (l, b) = dl_strlen_strcpy buf (dlpi_name info) n;
        (l, b) =
        (if dlpi_name info = [] then
           (case os_dladdr os (load_address info) of
              None \<Rightarrow> (l, b)
            | Some di \<Rightarrow> dl_strlen_strcpy b (dli_fname di) n)
         else (l, b))
      in (l + 1, b, st))"
  by (simp add: iter_phdr_cb_def load_address_code dl_strlen_strcpy_def Let_def split: prod.split)

lemma iterate_phdr_program:
  "iterate_phdr os 0 n (info # infos) buf st = iter_phdr_cb os 0 n info buf st"
proof -
  have "0 < fst (iter_phdr_cb os 0 n info buf st)"
    by (simp add: phdr_cb_program dl_strlen_strcpy_def Let_def split: option.split)
  then show ?thesis by (auto split: prod.split)
qed

interpretation phdr: library_path "dlGetLibraryPath_phdr os h" "phdr_path os h" for os h
proof
  fix buf :: "byte list" and n :: int and st
  assume "phdr_path os h = None"
  then show "dlGetLibraryPath_phdr os h buf n st = (0, buf, st)"
    by (auto simp: phdr_path_def dlGetLibraryPath_phdr_def iterate_phdr_library split: if_splits list.splits option.splits)
next
  fix p buf :: "byte list" and n :: int and st
  assume p: "phdr_path os h = Some p" and n: "n \<le> int (length buf)" and l: "int (length p) < n"
  then have "0 < length buf" by linarith
  then obtain b bs where b: "buf = b # bs" by (cases buf) auto
  from p l show "dlGetLibraryPath_phdr os h buf n st = (int (length p) + 1, p @ [0] @ drop (length p + 1) buf, st)"
    by (cases "h = 0")
      (auto simp: b phdr_path_def dlGetLibraryPath_phdr_def iterate_phdr_library iterate_phdr_program phdr_cb_program
        dl_strlen_strcpy_def Let_def simp del: iterate_phdr.simps(2) split: if_splits list.splits option.splits)
next
  fix p buf :: "byte list" and n :: int and st
  assume p: "phdr_path os h = Some p" and l: "n \<le> int (length p)"
  then show "\<exists>buf'. dlGetLibraryPath_phdr os h buf n st = (int (length p) + 1, buf', st) \<and> (buf' = buf \<or> buf' = 0 # drop 1 buf)"
    by (cases "h = 0")
      (auto simp: phdr_path_def dlGetLibraryPath_phdr_def iterate_phdr_library iterate_phdr_program phdr_cb_program
        dl_strlen_strcpy_def Let_def simp del: iterate_phdr.simps(2) split: if_splits list.splits option.splits)
qed

text \<open>With \<open>dladdr\<close> only it is the file that the symbol \<open>_fini\<close> comes from.\<close>

definition dladdr_path :: "'p::len word dl_os \<Rightarrow> 'p word \<Rightarrow> cstr option" where
  "dladdr_path os h =
     (if os_sym os h fini_name = 0 then None else map_option dli_fname (os_dladdr os (os_sym os h fini_name)))"

interpretation dladdr: library_path "dlGetLibraryPath_dladdr os h" "dladdr_path os h" for os h
  by unfold_locales
    (auto simp: dlGetLibraryPath_dladdr_def dladdr_path_def strcpy_simps split: if_splits)

text \<open>
  On Windows it is the name of the module in UTF-8, when a buffer for it is found among the sizes 64, 128 up to 32768
  before memory runs out and the name can be converted.
\<close>

definition windows_path :: "'p::len word dl_os \<Rightarrow> 'p word \<Rightarrow> nat \<Rightarrow> cstr option" where
  "windows_path os h k =
     (case find (\<lambda>nc. \<not> os_malloc os (nc * 2) \<or> length (os_module_name os h) < nc) (map ((^) 2) [k..<16]) of
        None \<Rightarrow> None
      | Some nc \<Rightarrow>
          if os_malloc os (nc * 2) \<and> os_module_name os h \<noteq> [] then os_utf8 os (os_module_name os h) else None)"

lemma windows_loop_path:
  assumes "k \<le> 16"
  shows "windows_loop os h buf n (2 ^ k) st =
    (case windows_path os h k of
       None \<Rightarrow> Some (0, buf, st)
     | Some p \<Rightarrow> Some (int (length p) + 1, if int (length p) < n then p @ [0] @ drop (length p + 1) buf else buf, st))"
  using assms
proof (induction k rule: inc_induct)
  case base
  show ?case by (subst windows_loop.simps) (simp add: MAX_EXT_PATH_def windows_path_def)
next
  case (step k)
  have "(2::nat) ^ k \<le> 2 ^ 15" using step.hyps by (intro power_increasing) auto
  moreover have "windows_loop os h buf n (2 * 2 ^ k) st = windows_loop os h buf n (2 ^ Suc k) st" by simp
  moreover have "[k..<16] = k # [Suc k..<16]" using step.hyps by (simp add: upt_rec)
  ultimately show ?case
    by (subst windows_loop.simps)
      (auto simp: step.IH MAX_EXT_PATH_def windows_path_def module_file_name_def Let_def simp del: power_Suc split: option.split)
qed

lemma windows_path_returns:
  "dlGetLibraryPath_windows os h buf n st =
    (case windows_path os h 6 of
       None \<Rightarrow> Some (0, buf, st)
     | Some p \<Rightarrow> Some (int (length p) + 1, if int (length p) < n then p @ [0] @ drop (length p + 1) buf else buf, st))"
  unfolding dlGetLibraryPath_windows_def by (rule windows_loop_path) simp

interpretation windows: library_path "\<lambda>buf n st. the (dlGetLibraryPath_windows os h buf n st)" "windows_path os h 6" for os h
  by unfold_locales (simp_all add: windows_path_returns)

end
