(* ===== verification/Dyn_Elf.thy ===== *)
theory Dyn_Elf
  imports Dyn_Load
begin

unbundle bit_operations_syntax

section \<open>Symbols of an ELF file\<close>

text \<open>
  \<open>dyncall/dynload/dynload_syms_elf.c\<close>. The file is mapped and read through pointers; where its structures have their
  fields is in the system header \<open>elf.h\<close> and a parameter, \<open>elf_layout\<close>. Reads of addresses that are not mapped or
  beyond a buffer, failed assertions and divisions by zero are values of \<open>dl_fault\<close>, on the left of a sum. \<open>elf_names\<close> is the
  reference: the strings that the first table of dynamic symbols names in the first string table.
\<close>

datatype dl_fault = Dl_Assert | Dl_Segv | Dl_Fpe | Dl_Overread

subsection \<open>Mapped files\<close>

definition mapped :: "('p::len word \<times> byte list) list \<Rightarrow> 'p word \<Rightarrow> byte option" where
  "mapped maps a =
     (case find (\<lambda>(p, bs). unat (a - p) < length bs) maps of
        None \<Rightarrow> None
      | Some (p, bs) \<Rightarrow> Some (bs ! unat (a - p)))"

definition load_word :: "endian \<Rightarrow> ('p::len word \<times> byte list) list \<Rightarrow> 'p word \<Rightarrow> nat \<Rightarrow> 'a::len word option" where
  "load_word e maps a n = map_option (obj_word e) (those (map (\<lambda>i. mapped maps (a + of_nat i)) [0..<n]))"

partial_function (option) load_string :: "('p::len word \<times> byte list) list \<Rightarrow> 'p word \<Rightarrow> cstr option" where
  "load_string maps a =
     (case mapped maps a of
        None \<Rightarrow> None
      | Some b \<Rightarrow> if b = 0 then Some [] else Option.bind (load_string maps (a + 1)) (\<lambda>bs. Some (b # bs)))"

text \<open>Descriptors and mappings. The last page of a mapping is filled with zeros.\<close>

definition open_file :: "'p::len word dl_os \<Rightarrow> cstr \<Rightarrow> 'p word dl_state \<Rightarrow> (nat \<times> 'p word dl_state) option" where
  "open_file os path st =
     map_option (\<lambda>fd. (fd, st\<lparr>dl_fds := fd # dl_fds st\<rparr>)) (os_fd os path (dl_fds st))"

definition close_file :: "nat \<Rightarrow> 'p::len word dl_state \<Rightarrow> 'p word dl_state" where
  "close_file fd st = st\<lparr>dl_fds := remove1 fd (dl_fds st)\<rparr>"

definition mmap_file ::
  "'p::len word dl_os \<Rightarrow> nat \<Rightarrow> byte list \<Rightarrow> 'p word dl_state \<Rightarrow> 'p word option \<times> 'p word dl_state" where
  "mmap_file os fd content st =
     (case os_mmap os fd (length content) of
        None \<Rightarrow> (None, st)
      | Some p \<Rightarrow>
          (Some p,
           st\<lparr>dl_maps := (p, content @ replicate (round_up (os_page os) (length content) - length content) 0) # dl_maps st\<rparr>))"

definition munmap :: "'p::len word \<Rightarrow> 'p word dl_state \<Rightarrow> 'p word dl_state" where
  "munmap p st = st\<lparr>dl_maps := filter (\<lambda>(q, bs). q \<noteq> p) (dl_maps st)\<rparr>"

subsection \<open>The reader\<close>

record elf_layout =
  elf_class :: byte
  elf_ptr :: nat
  e_phoff :: nat
  e_shoff :: nat
  e_shnum :: nat
  sh_bytes :: nat
  sh_type :: nat
  sh_offset :: nat
  sh_size :: nat
  sh_entsize :: nat
  sym_bytes :: nat
  st_name :: nat

definition EI_CLASS :: nat where "EI_CLASS = 4"
definition SHT_STRTAB :: u32 where "SHT_STRTAB = 3"
definition SHT_DYNSYM :: u32 where "SHT_DYNSYM = 11"

record 'a DLSyms =
  pStrTab :: 'a
  pSymTab :: 'a
  strTabSize :: 'a
  nSymbols :: 'a
  pElf_Ehdr :: 'a
  dl_file :: nat
  fileSize :: nat

text \<open>One iteration and the loop over the sections.\<close>

definition elf_section ::
  "endian \<Rightarrow> elf_layout \<Rightarrow> ('p::len word \<times> byte list) list \<Rightarrow> 'p word \<Rightarrow> 'p word \<Rightarrow> 'p word DLSyms \<Rightarrow> dl_fault + 'p word DLSyms" where
  "elf_section e L maps pMem pSection s =
     (let word = (\<lambda>off. load_word e maps (pSection + of_nat off) (elf_ptr L))
      in case (word (sh_offset L), load_word e maps (pSection + of_nat (sh_type L)) 4) of
           (Some off, Some ty) \<Rightarrow>
             if ty = SHT_DYNSYM then
               (if pSymTab s = 0 then
                  (case (word (sh_size L), word (sh_entsize L)) of
                     (Some sz, Some ent) \<Rightarrow>
                       if ent = 0 then Inl Dl_Fpe
                       else Inr (s\<lparr>pSymTab := pMem + off, nSymbols := sz div ent\<rparr>)
                   | _ \<Rightarrow> Inl Dl_Segv)
                else Inr s)
             else if ty = SHT_STRTAB then
               (if pStrTab s = 0 then
                  (case word (sh_size L) of
                     Some sz \<Rightarrow> Inr (s\<lparr>pStrTab := pMem + off, strTabSize := sz\<rparr>)
                   | None \<Rightarrow> Inl Dl_Segv)
                else Inr s)
             else Inr s
         | _ \<Rightarrow> Inl Dl_Segv)"

fun elf_sections ::
  "endian \<Rightarrow> elf_layout \<Rightarrow> ('p::len word \<times> byte list) list \<Rightarrow> 'p word \<Rightarrow> 'p word \<Rightarrow> nat list \<Rightarrow> 'p word DLSyms \<Rightarrow>
     dl_fault + 'p word DLSyms" where
  "elf_sections e L maps pMem pS [] s = Inr s"
| "elf_sections e L maps pMem pS (i # is) s =
     (case elf_section e L maps pMem (pS + of_nat (i * sh_bytes L)) s of
        Inl f \<Rightarrow> Inl f
      | Inr s \<Rightarrow> if pSymTab s \<noteq> 0 \<and> pStrTab s \<noteq> 0 then Inr s else elf_sections e L maps pMem pS is s)"

definition elf_header ::
  "endian \<Rightarrow> elf_layout \<Rightarrow> ('p::len word \<times> byte list) list \<Rightarrow> 'p word \<Rightarrow> 'p word DLSyms \<Rightarrow> dl_fault + 'p word DLSyms" where
  "elf_header e L maps pMem s =
     (case mapped maps (pMem + of_nat EI_CLASS) of
        None \<Rightarrow> Inl Dl_Segv
      | Some cls \<Rightarrow>
          if cls \<noteq> elf_class L then Inl Dl_Assert
          else
            (case load_word e maps (pMem + of_nat (e_phoff L)) (elf_ptr L) :: 'p word option of
               None \<Rightarrow> Inl Dl_Segv
             | Some phoff \<Rightarrow>
                 if phoff = 0 then Inl Dl_Assert
                 else
                   (case load_word e maps (pMem + of_nat (e_shoff L)) (elf_ptr L) of
                      None \<Rightarrow> Inl Dl_Segv
                    | Some shoff \<Rightarrow>
                        if shoff = 0 then Inl Dl_Assert
                        else
                          (case load_word e maps (pMem + of_nat (e_shnum L)) 2 :: u16 option of
                             None \<Rightarrow> Inl Dl_Segv
                           | Some shnum \<Rightarrow> elf_sections e L maps pMem (pMem + shoff) [1..<unat shnum] s))))"

definition dlSymsInit_elf ::
  "endian \<Rightarrow> elf_layout \<Rightarrow> 'p::len word dl_os \<Rightarrow> cstr \<Rightarrow> 'p word dl_state \<Rightarrow> dl_fault + ('p word DLSyms option \<times> 'p word dl_state)" where
  "dlSymsInit_elf e L os libPath st =
     (case os_file os libPath of
        None \<Rightarrow> Inr (None, st)
      | Some content \<Rightarrow>
          (case open_file os libPath st of
             None \<Rightarrow> Inr (None, st)
           | Some (i, st) \<Rightarrow>
               if \<not> os_malloc os (7 * elf_ptr L) then Inl Dl_Segv
               else
                 (let st = dl_alloc st
                  in case mmap_file os i content st of
                       (None, st) \<Rightarrow> Inl Dl_Segv
                     | (Some pMem, st) \<Rightarrow>
                         map_sum id (\<lambda>s. (Some s, st))
                           (elf_header e L (dl_maps st) pMem
                              \<lparr>pStrTab = 0, pSymTab = 0, strTabSize = 0, nSymbols = 0, pElf_Ehdr = pMem, dl_file = i,
                               fileSize = length content\<rparr>))))"

definition dlSymsCleanup_elf :: "'p::len word DLSyms option \<Rightarrow> 'p word dl_state \<Rightarrow> 'p word dl_state" where
  "dlSymsCleanup_elf pSyms st =
     (case pSyms of None \<Rightarrow> st | Some s \<Rightarrow> dl_free (close_file (dl_file s) (munmap (pElf_Ehdr s) st)))"

text \<open>The number is cut to an \<open>int\<close>.\<close>

definition dlSymsCount_elf :: "'p::len word DLSyms option \<Rightarrow> int" where
  "dlSymsCount_elf pSyms = (case pSyms of None \<Rightarrow> 0 | Some s \<Rightarrow> sint (ucast (nSymbols s) :: u32))"

definition dlSymsName_elf ::
  "endian \<Rightarrow> elf_layout \<Rightarrow> 'p::len word DLSyms option \<Rightarrow> int \<Rightarrow> 'p word dl_state \<Rightarrow> dl_fault + 'p word" where
  "dlSymsName_elf e L pSyms index st =
     (case pSyms of
        None \<Rightarrow> Inr 0
      | Some s \<Rightarrow>
          if pSymTab s = 0 \<or> index < 0 \<or> uint (nSymbols s) \<le> index then Inr 0
          else
            (case load_word e (dl_maps st) (pSymTab s + of_nat (nat index * sym_bytes L + st_name L)) 4 :: u32 option of
               None \<Rightarrow> Inl Dl_Segv
             | Some str_index \<Rightarrow>
                 if str_index <s 0 \<or> uint (strTabSize s) \<le> uint str_index then Inr 0
                 else Inr (pStrTab s + ucast str_index)))"

definition dlSymsNameFromValue_unix :: "'p::len word dl_os \<Rightarrow> 'p word \<Rightarrow> 'p word" where
  "dlSymsNameFromValue_unix os v =
     (case os_dladdr os v of
        None \<Rightarrow> 0
      | Some info \<Rightarrow> if v = dli_saddr info then dli_sname info else 0)"

subsection \<open>Reading a mapped file\<close>

lemma those_map_Some: "those (map (\<lambda>i. Some (f i)) xs) = Some (map f xs)"
  by (induction xs) simp_all

lemma mapped_head:
  assumes "k < length bs" and "length bs \<le> 2 ^ LENGTH('p)"
  shows "mapped ((p :: 'p::len word, bs) # ms) (p + of_nat k) = Some (bs ! k)"
  using assms by (simp add: mapped_def unat_of_nat)

lemma load_word_head:
  assumes "k + n \<le> length bs" and "length bs \<le> 2 ^ LENGTH('p)"
  shows "load_word e ((p :: 'p::len word, bs) # ms) (p + of_nat k) n = Some (obj_word e (take n (drop k bs)))"
proof -
  have "map (\<lambda>i. mapped ((p, bs) # ms) (p + of_nat k + of_nat i)) [0..<n] = map (\<lambda>i. Some (bs ! (k + i))) [0..<n]"
  proof (rule map_cong [OF refl])
    fix i assume "i \<in> set [0..<n]"
    with assms mapped_head [of "k + i" bs p ms] show "mapped ((p, bs) # ms) (p + of_nat k + of_nat i) = Some (bs ! (k + i))"
      by (simp add: add.assoc)
  qed
  moreover have "map (\<lambda>i. bs ! (k + i)) [0..<n] = take n (drop k bs)"
    using assms(1) by (intro nth_equalityI) auto
  ultimately show ?thesis by (simp only: load_word_def those_map_Some option.map)
qed

lemma load_string_head:
  assumes "0 \<in> set (drop k bs)" and "length bs \<le> 2 ^ LENGTH('p)"
  shows "load_string ((p :: 'p::len word, bs) # ms) (p + of_nat k) = Some (takeWhile (\<lambda>b. b \<noteq> 0) (drop k bs))"
  using assms(1)
proof (induction "length bs - k" arbitrary: k)
  case 0
  then show ?case by simp
next
  case (Suc n)
  then have k: "k < length bs" by linarith
  then have d: "drop k bs = bs ! k # drop (Suc k) bs" by (simp add: Cons_nth_drop_Suc)
  show ?case
  proof (cases "bs ! k = 0")
    case True
    with k d assms(2) show ?thesis by (simp add: load_string.simps mapped_head)
  next
    case False
    with Suc.prems d have "0 \<in> set (drop (Suc k) bs)" by auto
    with Suc.hyps(1) [of "Suc k"] Suc.hyps(2)
    have "load_string ((p, bs) # ms) (p + of_nat k + 1) = Some (takeWhile (\<lambda>b. b \<noteq> 0) (drop (Suc k) bs))"
      by (simp add: ac_simps)
    with k d False assms(2) show ?thesis by (subst load_string.simps) (simp add: mapped_head)
  qed
qed

text \<open>A field of at most eight bytes as a number, whatever the type of the variable that it is read into.\<close>

definition elf_field :: "endian \<Rightarrow> nat \<Rightarrow> byte list \<Rightarrow> nat \<Rightarrow> nat" where
  "elf_field e n img k = unat (obj_word e (take n (drop k img)) :: u64)"

lemma unat_le_word:
  "8 * length bs \<le> LENGTH('a) \<Longrightarrow> 8 * length bs \<le> LENGTH('b) \<Longrightarrow>
   unat (le_word bs :: 'a::len word) = unat (le_word bs :: 'b::len word)"
  by (rule bit_eqI) (auto simp: bit_unsigned_iff bit_le_word)

lemma obj_word_field:
  assumes "n \<le> 8" and "8 * n \<le> LENGTH('a)"
  shows "(obj_word e (take n (drop k img)) :: 'a::len word) = of_nat (elf_field e n img k)"
proof -
  have "unat (obj_word e (take n (drop k img)) :: 'a word) = elf_field e n img k"
    using assms by (auto simp: elf_field_def obj_word_def intro!: unat_le_word)
  then show ?thesis by (metis of_nat_unat ucast_id)
qed

lemma elf_field_bound: "n \<le> 8 \<Longrightarrow> elf_field e n img k < 2 ^ (8 * n)"
proof -
  assume n: "n \<le> 8"
  define w where "w = (obj_word e (take n (drop k img)) :: u64)"
  have "take_bit (8 * n) (unat w) = unat w"
  proof (rule bit_eqI)
    fix i
    have "bit w i \<Longrightarrow> i < 8 * n"
      by (auto simp: w_def obj_word_def bit_le_word split: if_splits)
    then show "bit (take_bit (8 * n) (unat w)) i \<longleftrightarrow> bit (unat w) i"
      by (auto simp: bit_simps)
  qed
  then show ?thesis by (metis elf_field_def take_bit_nat_less_exp w_def)
qed


subsection \<open>The symbols of a file\<close>

text \<open>Fields lie within their structures.\<close>

definition elf_layout_ok :: "elf_layout \<Rightarrow> bool" where
  "elf_layout_ok L \<longleftrightarrow>
     elf_ptr L \<le> 8 \<and> sh_type L + 4 \<le> sh_bytes L \<and> sh_offset L + elf_ptr L \<le> sh_bytes L \<and>
     sh_size L + elf_ptr L \<le> sh_bytes L \<and> sh_entsize L + elf_ptr L \<le> sh_bytes L \<and> st_name L + 4 \<le> sym_bytes L"

definition elf_shoff :: "endian \<Rightarrow> elf_layout \<Rightarrow> byte list \<Rightarrow> nat" where
  "elf_shoff e L img = elf_field e (elf_ptr L) img (e_shoff L)"

definition elf_shnum :: "endian \<Rightarrow> elf_layout \<Rightarrow> byte list \<Rightarrow> nat" where
  "elf_shnum e L img = elf_field e 2 img (e_shnum L)"

definition sec_type :: "endian \<Rightarrow> elf_layout \<Rightarrow> byte list \<Rightarrow> nat \<Rightarrow> nat" where
  "sec_type e L img i = elf_field e 4 img (elf_shoff e L img + i * sh_bytes L + sh_type L)"

definition sec_field :: "endian \<Rightarrow> elf_layout \<Rightarrow> byte list \<Rightarrow> nat \<Rightarrow> nat \<Rightarrow> nat" where
  "sec_field e L img f i = elf_field e (elf_ptr L) img (elf_shoff e L img + i * sh_bytes L + f)"

definition first_section :: "endian \<Rightarrow> elf_layout \<Rightarrow> byte list \<Rightarrow> nat \<Rightarrow> nat option" where
  "first_section e L img t = find (\<lambda>i. sec_type e L img i = t) [1..<elf_shnum e L img]"

definition sym_count :: "endian \<Rightarrow> elf_layout \<Rightarrow> byte list \<Rightarrow> nat \<Rightarrow> nat" where
  "sym_count e L img d = sec_field e L img (sh_size L) d div sec_field e L img (sh_entsize L) d"

definition sym_name :: "endian \<Rightarrow> elf_layout \<Rightarrow> byte list \<Rightarrow> nat \<Rightarrow> nat \<Rightarrow> nat" where
  "sym_name e L img d j = elf_field e 4 img (sec_field e L img (sh_offset L) d + j * sym_bytes L + st_name L)"

definition elf_names :: "endian \<Rightarrow> elf_layout \<Rightarrow> byte list \<Rightarrow> cstr list" where
  "elf_names e L img =
     (case (first_section e L img 11, first_section e L img 3) of
        (Some d, Some s) \<Rightarrow>
          map (\<lambda>j. takeWhile (\<lambda>b. b \<noteq> 0) (drop (sec_field e L img (sh_offset L) s + sym_name e L img d j) img))
            [0..<sym_count e L img d]
      | _ \<Rightarrow> [])"

text \<open>
  A file that the code can read: header and sections are in the file, there are a table of symbols and one of strings
  (or no symbols), the symbols are in the file and their names are in the table of strings and end in the file.
\<close>

definition elf_header_ok :: "endian \<Rightarrow> elf_layout \<Rightarrow> byte list \<Rightarrow> bool" where
  "elf_header_ok e L img \<longleftrightarrow>
     EI_CLASS < length img \<and> img ! EI_CLASS = elf_class L \<and>
     e_phoff L + elf_ptr L \<le> length img \<and> elf_field e (elf_ptr L) img (e_phoff L) \<noteq> 0 \<and>
     e_shoff L + elf_ptr L \<le> length img \<and> elf_shoff e L img \<noteq> 0 \<and>
     e_shnum L + 2 \<le> length img \<and> elf_shoff e L img + elf_shnum e L img * sh_bytes L \<le> length img"

definition elf_symbols_ok :: "endian \<Rightarrow> elf_layout \<Rightarrow> byte list \<Rightarrow> nat \<Rightarrow> nat \<Rightarrow> bool" where
  "elf_symbols_ok e L img d s \<longleftrightarrow>
     sec_field e L img (sh_entsize L) d \<noteq> 0 \<and> sym_count e L img d < 2 ^ 31 \<and>
     sec_field e L img (sh_offset L) d + sym_count e L img d * sym_bytes L \<le> length img \<and>
     sec_field e L img (sh_offset L) s \<le> length img \<and>
     (\<forall>j < sym_count e L img d.
        sym_name e L img d j < sec_field e L img (sh_size L) s \<and> sym_name e L img d j < 2 ^ 31 \<and>
        0 \<in> set (drop (sec_field e L img (sh_offset L) s + sym_name e L img d j) img))"

definition elf_ok :: "endian \<Rightarrow> elf_layout \<Rightarrow> byte list \<Rightarrow> bool" where
  "elf_ok e L img \<longleftrightarrow> elf_header_ok e L img \<and>
     (case (first_section e L img 11, first_section e L img 3) of
        (Some d, Some s) \<Rightarrow> elf_symbols_ok e L img d s
      | (Some d, None) \<Rightarrow> False
      | (None, Some s) \<Rightarrow> sec_field e L img (sh_offset L) s \<le> length img
      | (None, None) \<Rightarrow> True)"

text \<open>The file at \<open>p\<close>, with the rest of its last page, among other mappings.\<close>

definition file_at :: "byte list \<Rightarrow> 'p::len word \<Rightarrow> ('p word \<times> byte list) list \<Rightarrow> bool" where
  "file_at img p maps \<longleftrightarrow> p \<noteq> 0 \<and> (\<exists>pad ms. maps = (p, img @ pad) # ms \<and> unat p + length (img @ pad) < 2 ^ LENGTH('p))"

lemma file_load:
  assumes "file_at img p maps" and "k + n \<le> length img" and "n \<le> 8" and "8 * n \<le> LENGTH('a)"
  shows "load_word e maps (p + of_nat k :: 'p::len word) n = Some (of_nat (elf_field e n img k) :: 'a::len word)"
proof -
  from assms(1) obtain pad ms where m: "maps = (p, img @ pad) # ms" "length (img @ pad) \<le> 2 ^ LENGTH('p)"
    by (auto simp: file_at_def)
  have "take n (drop k (img @ pad)) = take n (drop k img)" using assms(2) by simp
  moreover have "load_word e ((p, img @ pad) # ms) (p + of_nat k) n = Some (obj_word e (take n (drop k (img @ pad))) :: 'a word)"
    using m assms(2) by (intro load_word_head) simp_all
  ultimately show ?thesis by (simp only: m(1) obj_word_field [OF assms(3,4)])
qed

lemma file_byte:
  "file_at img p maps \<Longrightarrow> k < length img \<Longrightarrow> mapped maps (p + of_nat k :: 'p::len word) = Some (img ! k)"
  by (auto simp: file_at_def mapped_head nth_append)

lemma file_string:
  assumes "file_at img p maps" and "0 \<in> set (drop k img)"
  shows "load_string maps (p + of_nat k :: 'p::len word) = Some (takeWhile (\<lambda>b. b \<noteq> 0) (drop k img))"
proof -
  from assms(1) obtain pad ms where m: "maps = (p, img @ pad) # ms" "length (img @ pad) \<le> 2 ^ LENGTH('p)"
    by (auto simp: file_at_def)
  from assms(2) have "k < length img" by (metis drop_all empty_iff empty_set not_less)
  then have d: "drop k (img @ pad) = drop k img @ pad" by simp
  with assms(2) have "0 \<in> set (drop k (img @ pad))" by simp
  moreover from assms(2) d have "takeWhile (\<lambda>b. b \<noteq> 0) (drop k (img @ pad)) = takeWhile (\<lambda>b. b \<noteq> 0) (drop k img)"
    by (metis (full_types) takeWhile_append1)
  ultimately show ?thesis using load_string_head m by metis
qed

lemma file_pointer: "file_at img p maps \<Longrightarrow> k \<le> length img \<Longrightarrow> p + of_nat k \<noteq> (0 :: 'p::len word)"
proof -
  assume f: "file_at img p maps" and k: "k \<le> length img"
  then have l: "unat p + k < 2 ^ LENGTH('p)" "0 < unat p" by (auto simp: file_at_def unat_gt_0)
  then have "unat (p + of_nat k) = unat p + k" by (simp add: unat_word_ariths unat_of_nat)
  with l show ?thesis by auto
qed

lemma of_nat_u32_eq: "x < 2 ^ 32 \<Longrightarrow> y < 2 ^ 32 \<Longrightarrow> (of_nat x = (of_nat y :: u32)) = (x = y)"
  by (simp add: word_of_nat_eq_iff take_bit_nat_eq_self)

lemma of_nat_div_word:
  "a < 2 ^ LENGTH('a) \<Longrightarrow> b < 2 ^ LENGTH('a) \<Longrightarrow> (of_nat a :: 'a::len word) div of_nat b = of_nat (a div b)"
  by (simp add: word_unat_eq_iff unat_div unat_of_nat le_less_trans [OF div_le_dividend])

subsection \<open>The reader finds the symbols\<close>

lemma elf_field_ptr: "elf_layout_ok L \<Longrightarrow> 8 * elf_ptr L \<le> m \<Longrightarrow> elf_field e (elf_ptr L) img k < 2 ^ m"
  by (meson elf_field_bound elf_layout_ok_def less_le_trans one_le_numeral power_increasing)

lemma elf_section_file:
  fixes p :: "'p::len word"
  assumes f: "file_at img p maps" and L: "elf_layout_ok L" "8 * elf_ptr L \<le> LENGTH('p)"
    and k: "elf_shoff e L img + i * sh_bytes L + sh_bytes L \<le> length img"
  defines "off \<equiv> sec_field e L img (sh_offset L) i" and "ent \<equiv> sec_field e L img (sh_entsize L) i"
  shows "elf_section e L maps p (p + of_nat (elf_shoff e L img) + of_nat (i * sh_bytes L)) s =
    (if sec_type e L img i = 11 \<and> pSymTab s = 0 then
       if ent = 0 then Inl Dl_Fpe
       else Inr (s\<lparr>pSymTab := p + of_nat off, nSymbols := of_nat (sym_count e L img i)\<rparr>)
     else if sec_type e L img i = 3 \<and> pStrTab s = 0 then
       Inr (s\<lparr>pStrTab := p + of_nat off, strTabSize := of_nat (sec_field e L img (sh_size L) i)\<rparr>)
     else Inr s)"
proof -
  let ?k = "elf_shoff e L img + i * sh_bytes L"
  have p: "p + of_nat (elf_shoff e L img) + of_nat (i * sh_bytes L) + of_nat j = p + of_nat (?k + j)" for j
    by (simp add: add.assoc)
  have b: "sec_field e L img j i < 2 ^ LENGTH('p)" for j
    using L unfolding sec_field_def by (rule elf_field_ptr)
  have w: "load_word e maps (p + of_nat (?k + j)) (elf_ptr L) = Some (of_nat (sec_field e L img j i) :: 'p word)"
    if "j + elf_ptr L \<le> sh_bytes L" for j
    using f k L that by (subst file_load) (auto simp: sec_field_def elf_layout_ok_def)
  have t: "load_word e maps (p + of_nat (?k + sh_type L)) 4 = Some (of_nat (sec_type e L img i) :: u32)"
    using f k L by (subst file_load) (auto simp: sec_type_def elf_layout_ok_def)
  have tb: "sec_type e L img i < 2 ^ 32"
    using elf_field_bound [of 4 e img "?k + sh_type L"] by (simp add: sec_type_def)
  have ty: "(of_nat (sec_type e L img i) :: u32) = SHT_DYNSYM \<longleftrightarrow> sec_type e L img i = 11"
    "(of_nat (sec_type e L img i) :: u32) = SHT_STRTAB \<longleftrightarrow> sec_type e L img i = 3"
    using of_nat_u32_eq [OF tb, of 11] of_nat_u32_eq [OF tb, of 3] by (simp_all add: SHT_DYNSYM_def SHT_STRTAB_def)
  have e0: "(of_nat ent :: 'p word) = 0 \<longleftrightarrow> ent = 0"
    using b [of "sh_entsize L"] nat_dvd_not_less [of ent "2 ^ LENGTH('p)"] by (auto simp: ent_def word_of_nat_eq_0_iff)
  have o: "sh_offset L + elf_ptr L \<le> sh_bytes L" "sh_size L + elf_ptr L \<le> sh_bytes L" "sh_entsize L + elf_ptr L \<le> sh_bytes L"
    using L(1) by (simp_all add: elf_layout_ok_def)
  note w' = w [OF o(1), folded off_def] w [OF o(2)] w [OF o(3), folded ent_def]
  have "(of_nat (sec_field e L img (sh_size L) i) :: 'p word) div of_nat ent = of_nat (sym_count e L img i)"
    using b by (simp add: of_nat_div_word sym_count_def ent_def)
  then show ?thesis
    by (simp add: elf_section_def p w' t ty ty [unfolded SHT_DYNSYM_def SHT_STRTAB_def] e0 Let_def SHT_DYNSYM_def SHT_STRTAB_def del: of_nat_add of_nat_mult)
qed

definition with_symtab :: "endian \<Rightarrow> elf_layout \<Rightarrow> byte list \<Rightarrow> 'p::len word \<Rightarrow> nat list \<Rightarrow> 'p word DLSyms \<Rightarrow> 'p word DLSyms" where
  "with_symtab e L img p is s =
     (if pSymTab s \<noteq> 0 then s
      else (case find (\<lambda>i. sec_type e L img i = 11) is of
              None \<Rightarrow> s
            | Some d \<Rightarrow> s\<lparr>pSymTab := p + of_nat (sec_field e L img (sh_offset L) d), nSymbols := of_nat (sym_count e L img d)\<rparr>))"

definition with_strtab :: "endian \<Rightarrow> elf_layout \<Rightarrow> byte list \<Rightarrow> 'p::len word \<Rightarrow> nat list \<Rightarrow> 'p word DLSyms \<Rightarrow> 'p word DLSyms" where
  "with_strtab e L img p is s =
     (if pStrTab s \<noteq> 0 then s
      else (case find (\<lambda>i. sec_type e L img i = 3) is of
              None \<Rightarrow> s
            | Some d \<Rightarrow> s\<lparr>pStrTab := p + of_nat (sec_field e L img (sh_offset L) d),
                          strTabSize := of_nat (sec_field e L img (sh_size L) d)\<rparr>))"

lemma pStrTab_with_symtab [simp]: "pStrTab (with_symtab e L img p is s) = pStrTab s"
  by (simp add: with_symtab_def split: option.split)

lemma elf_sections_file:
  fixes p :: "'p::len word"
  assumes f: "file_at img p maps" and L: "elf_layout_ok L" "8 * elf_ptr L \<le> LENGTH('p)"
    and "\<forall>i\<in>set is. elf_shoff e L img + i * sh_bytes L + sh_bytes L \<le> length img"
    and "\<And>d. pSymTab s = 0 \<Longrightarrow> find (\<lambda>i. sec_type e L img i = 11) is = Some d \<Longrightarrow>
      sec_field e L img (sh_entsize L) d \<noteq> 0 \<and> sec_field e L img (sh_offset L) d \<le> length img"
    and "\<And>d. pStrTab s = 0 \<Longrightarrow> find (\<lambda>i. sec_type e L img i = 3) is = Some d \<Longrightarrow>
      sec_field e L img (sh_offset L) d \<le> length img"
  shows "elf_sections e L maps p (p + of_nat (elf_shoff e L img)) is s = Inr (with_strtab e L img p is (with_symtab e L img p is s))"
  using assms(4-6)
proof (induction "is" arbitrary: s)
  case Nil
  then show ?case by (simp add: with_strtab_def with_symtab_def)
next
  case (Cons i "is")
  have k: "elf_shoff e L img + i * sh_bytes L + sh_bytes L \<le> length img" using Cons.prems(1) by simp
  have ptr: "p + of_nat j \<noteq> 0" if "j \<le> length img" for j using f that by (rule file_pointer)
  note sec = elf_section_file [OF f L k]
  consider (sym) "sec_type e L img i = 11" "pSymTab s = 0" | (str) "sec_type e L img i = 3" "pStrTab s = 0"
    | (other) "\<not> (sec_type e L img i = 11 \<and> pSymTab s = 0)" "\<not> (sec_type e L img i = 3 \<and> pStrTab s = 0)"
    by blast
  then show ?case
  proof cases
    case sym
    let ?s = "s\<lparr>pSymTab := p + of_nat (sec_field e L img (sh_offset L) i), nSymbols := of_nat (sym_count e L img i)\<rparr>"
    from sym Cons.prems(2) [of i] have o: "sec_field e L img (sh_entsize L) i \<noteq> 0" "p + of_nat (sec_field e L img (sh_offset L) i) \<noteq> 0"
      using ptr by simp_all
    have "elf_sections e L maps p (p + of_nat (elf_shoff e L img)) is ?s = Inr (with_strtab e L img p is (with_symtab e L img p is ?s))"
      using Cons.prems sym o by (intro Cons.IH) simp_all
    with sym o show ?thesis by (simp add: sec with_strtab_def with_symtab_def del: of_nat_mult)
  next
    case str
    let ?s = "s\<lparr>pStrTab := p + of_nat (sec_field e L img (sh_offset L) i), strTabSize := of_nat (sec_field e L img (sh_size L) i)\<rparr>"
    from str Cons.prems(3) [of i] have o: "p + of_nat (sec_field e L img (sh_offset L) i) \<noteq> 0"
      using ptr by simp
    have "elf_sections e L maps p (p + of_nat (elf_shoff e L img)) is ?s = Inr (with_strtab e L img p is (with_symtab e L img p is ?s))"
      using Cons.prems str o by (intro Cons.IH) simp_all
    with str o show ?thesis by (simp add: sec with_strtab_def with_symtab_def del: of_nat_mult split: option.split)
  next
    case other
    have "elf_sections e L maps p (p + of_nat (elf_shoff e L img)) is s = Inr (with_strtab e L img p is (with_symtab e L img p is s))"
      using Cons.prems other by (intro Cons.IH) auto
    moreover have "with_symtab e L img p (i # is) s = with_symtab e L img p is s"
      using other by (auto simp: with_symtab_def)
    moreover have "with_strtab e L img p (i # is) (with_symtab e L img p is s) = with_strtab e L img p is (with_symtab e L img p is s)"
      using other by (auto simp: with_strtab_def)
    moreover have "pSymTab s \<noteq> 0 \<Longrightarrow> pStrTab s \<noteq> 0 \<Longrightarrow> with_strtab e L img p is (with_symtab e L img p is s) = s"
      by (simp add: with_strtab_def with_symtab_def)
    moreover have "elf_section e L maps p (p + of_nat (elf_shoff e L img) + of_nat (i * sh_bytes L)) s = Inr s"
      using other by (simp only: sec if_False)
    ultimately show ?thesis by (simp del: of_nat_mult)
  qed
qed

definition elf_reader :: "endian \<Rightarrow> elf_layout \<Rightarrow> byte list \<Rightarrow> 'p::len word \<Rightarrow> nat \<Rightarrow> 'p word DLSyms" where
  "elf_reader e L img p fd =
     (let is = [1..<elf_shnum e L img]
      in with_strtab e L img p is (with_symtab e L img p is
           \<lparr>pStrTab = 0, pSymTab = 0, strTabSize = 0, nSymbols = 0, pElf_Ehdr = p, dl_file = fd, fileSize = length img\<rparr>))"

lemma elf_shnum_u16: "unat (of_nat (elf_shnum e L img) :: u16) = elf_shnum e L img"
  using elf_field_bound [of 2 e img "e_shnum L"] by (simp add: elf_shnum_def unat_of_nat)

lemma elf_header_file:
  fixes p :: "'p::len word"
  assumes f: "file_at img p maps" and L: "elf_layout_ok L" "8 * elf_ptr L \<le> LENGTH('p)" and ok: "elf_ok e L img"
  shows "elf_header e L maps p
     \<lparr>pStrTab = 0, pSymTab = 0, strTabSize = 0, nSymbols = 0, pElf_Ehdr = p, dl_file = fd, fileSize = length img\<rparr> =
     Inr (elf_reader e L img p fd)"
proof -
  have h: "elf_header_ok e L img" using ok by (simp add: elf_ok_def)
  have l8: "elf_ptr L \<le> 8" using L by (simp add: elf_layout_ok_def)
  have w: "load_word e maps (p + of_nat k) (elf_ptr L) = Some (of_nat (elf_field e (elf_ptr L) img k) :: 'p word)"
    if "k + elf_ptr L \<le> length img" for k
    using f that l8 L(2) by (rule file_load)
  have b: "elf_field e (elf_ptr L) img k < 2 ^ LENGTH('p)" for k
    using L by (rule elf_field_ptr)
  have nz: "(of_nat (elf_field e (elf_ptr L) img k) :: 'p word) = 0 \<longleftrightarrow> elf_field e (elf_ptr L) img k = 0" for k
    using b [of k] nat_dvd_not_less [of "elf_field e (elf_ptr L) img k" "2 ^ LENGTH('p)"] by (auto simp: word_of_nat_eq_0_iff)
  have n: "load_word e maps (p + of_nat (e_shnum L)) 2 = Some (of_nat (elf_shnum e L img) :: u16)"
    using f h by (simp add: elf_shnum_def elf_header_ok_def file_load)
  have s: "elf_shoff e L img + i * sh_bytes L + sh_bytes L \<le> length img" if "i \<in> set [1..<elf_shnum e L img]" for i
  proof -
    from that have "Suc i * sh_bytes L \<le> elf_shnum e L img * sh_bytes L" by (intro mult_le_mono1) simp
    with h show ?thesis by (simp add: elf_header_ok_def)
  qed
  have "elf_sections e L maps p (p + of_nat (elf_shoff e L img)) [1..<elf_shnum e L img]
      \<lparr>pStrTab = 0, pSymTab = 0, strTabSize = 0, nSymbols = 0, pElf_Ehdr = p, dl_file = fd, fileSize = length img\<rparr> =
      Inr (elf_reader e L img p fd)"
    unfolding elf_reader_def Let_def using f L s ok
    by (intro elf_sections_file) (auto simp: elf_ok_def elf_symbols_ok_def first_section_def split: option.splits)
  moreover have "mapped maps (p + of_nat EI_CLASS) = Some (elf_class L)"
    using f h by (simp add: file_byte elf_header_ok_def)
  moreover have "e_phoff L + elf_ptr L \<le> length img" "e_shoff L + elf_ptr L \<le> length img"
    "elf_field e (elf_ptr L) img (e_phoff L) \<noteq> 0" "elf_shoff e L img \<noteq> 0"
    using h by (simp_all add: elf_header_ok_def)
  ultimately show ?thesis
    using w [of "e_phoff L"] w [of "e_shoff L"] nz [of "e_phoff L"] nz [of "e_shoff L"] n
    by (simp add: elf_header_def elf_shoff_def elf_shnum_u16)
qed

lemma elf_reader_tables:
  assumes "first_section e L img 11 = Some d" and "first_section e L img 3 = Some s"
  shows "elf_reader e L img p fd =
    \<lparr>pStrTab = p + of_nat (sec_field e L img (sh_offset L) s), pSymTab = p + of_nat (sec_field e L img (sh_offset L) d),
     strTabSize = of_nat (sec_field e L img (sh_size L) s), nSymbols = of_nat (sym_count e L img d), pElf_Ehdr = p,
     dl_file = fd, fileSize = length img\<rparr>"
  using assms by (simp add: elf_reader_def first_section_def with_strtab_def with_symtab_def Let_def)

lemma elf_reader_empty:
  assumes "first_section e L img 11 = None"
  shows "nSymbols (elf_reader e L img p fd) = 0"
  using assms by (simp add: elf_reader_def first_section_def with_strtab_def with_symtab_def Let_def split: option.split)

lemma elf_reader_file [simp]: "pElf_Ehdr (elf_reader e L img p fd) = p" "dl_file (elf_reader e L img p fd) = fd"
  by (simp_all add: elf_reader_def with_strtab_def with_symtab_def Let_def split: option.split)

text \<open>Number and names are those of the reference.\<close>

lemma elf_count:
  assumes "elf_ok e L img" and "31 < LENGTH('p)"
  shows "dlSymsCount_elf (Some (elf_reader e L img (p :: 'p::len word) fd)) = int (length (elf_names e L img))"
proof (cases "first_section e L img 11")
  case None
  then show ?thesis by (simp add: dlSymsCount_elf_def elf_reader_empty elf_names_def)
next
  case (Some d)
  with assms(1) obtain s where s: "first_section e L img 3 = Some s" "elf_symbols_ok e L img d s"
    by (auto simp: elf_ok_def split: option.splits)
  then have n: "sym_count e L img d < 2 ^ 31" by (simp add: elf_symbols_ok_def)
  moreover have "(2::nat) ^ 32 \<le> 2 ^ LENGTH('p)" using assms(2) by (intro power_increasing) auto
  ultimately have "unat (ucast (of_nat (sym_count e L img d) :: 'p word) :: u32) = sym_count e L img d"
    by (simp add: unsigned_ucast_eq unat_of_nat take_bit_nat_eq_self)
  with n have "sint (ucast (of_nat (sym_count e L img d) :: 'p word) :: u32) = int (sym_count e L img d)"
    by (subst sint_small) simp_all
  with Some s show ?thesis by (simp add: dlSymsCount_elf_def elf_reader_tables elf_names_def)
qed

lemma elf_name:
  fixes p :: "'p::len word"
  assumes f: "file_at img p (dl_maps st)" and L: "elf_layout_ok L" "8 * elf_ptr L \<le> LENGTH('p)" "31 < LENGTH('p)"
    and ok: "elf_ok e L img" and j: "j < length (elf_names e L img)"
  shows "\<exists>a. dlSymsName_elf e L (Some (elf_reader e L img p fd)) (int j) st = Inr a \<and> a \<noteq> 0 \<and>
    load_string (dl_maps st) a = Some (elf_names e L img ! j)"
proof -
  from j obtain d s where t: "first_section e L img 11 = Some d" "first_section e L img 3 = Some s"
    by (auto simp: elf_names_def split: option.splits)
  with ok have o: "elf_symbols_ok e L img d s" by (simp add: elf_ok_def)
  let ?off = "sec_field e L img (sh_offset L)"
  from t j have j: "j < sym_count e L img d" by (simp add: elf_names_def)
  have "Suc j * sym_bytes L \<le> sym_count e L img d * sym_bytes L" using j by (intro mult_le_mono1) simp
  then have k: "?off d + (j * sym_bytes L + st_name L) + 4 \<le> length img"
    using o L(1) by (simp add: elf_symbols_ok_def elf_layout_ok_def)
  let ?x = "sym_name e L img d j"
  from o j have x: "?x < sec_field e L img (sh_size L) s" "?x < 2 ^ 31" "0 \<in> set (drop (?off s + ?x) img)"
    "sym_count e L img d < 2 ^ 31" "?off d \<le> length img"
    by (simp_all add: elf_symbols_ok_def)
  have p32: "(2::nat) ^ 32 \<le> 2 ^ LENGTH('p)" using L(3) by (intro power_increasing) auto
  have b: "sec_field e L img g i < 2 ^ LENGTH('p)" for g i
    unfolding sec_field_def using L(1,2) by (rule elf_field_ptr)
  have sym: "load_word e (dl_maps st) (p + of_nat (?off d) + of_nat (j * sym_bytes L + st_name L)) 4 = Some (of_nat ?x :: u32)"
    using file_load [OF f k, where 'a = 32] by (simp add: sym_name_def add.assoc)
  have u: "unat (of_nat ?x :: u32) = ?x" using x(2) by (simp add: unat_of_nat)
  have "sint (of_nat ?x :: u32) = int ?x" using x(2) u by (subst sint_small) simp_all
  then have s0: "\<not> (of_nat ?x :: u32) <s 0" by (simp add: word_sless_alt)
  have un: "uint (of_nat (sym_count e L img d) :: 'p word) = int (sym_count e L img d)"
    using x(4) p32 by (simp add: uint_nat unat_of_nat)
  have us: "uint (of_nat (sec_field e L img (sh_size L) s) :: 'p word) = int (sec_field e L img (sh_size L) s)"
    using b by (simp add: uint_nat unat_of_nat)
  have ux: "uint (of_nat ?x :: u32) = int ?x" using u by (simp add: uint_nat)
  have ptr: "p + of_nat (?off d) \<noteq> 0" using f x(5) by (rule file_pointer)
  have "ucast (of_nat ?x :: u32) = (of_nat ?x :: 'p word)" by (metis of_nat_unat u)
  then have c: "p + of_nat (?off s) + ucast (of_nat ?x :: u32) = p + of_nat (?off s + ?x)" by simp
  have "dlSymsName_elf e L (Some (elf_reader e L img p fd)) (int j) st = Inr (p + of_nat (?off s + ?x))"
    using t sym s0 ptr j x(1) by (simp add: dlSymsName_elf_def elf_reader_tables un us ux c del: of_nat_add of_nat_mult)
  moreover have "?off s + ?x \<le> length img" using x(3) by (cases "length img \<le> ?off s + ?x") simp_all
  with f have "p + of_nat (?off s + ?x) \<noteq> 0" by (rule file_pointer)
  moreover have "load_string (dl_maps st) (p + of_nat (?off s + ?x)) = Some (elf_names e L img ! j)"
    using file_string [OF f x(3)] t j by (simp add: elf_names_def)
  ultimately show ?thesis by blast
qed

subsection \<open>The whole reading of a file\<close>

text \<open>
  What clients of the reader rely on, for any format of files: a reader of a good file (\<open>ok\<close>) counts the names and finds each, and
  cleaning up restores the state.
\<close>

locale symbol_reader =
  fixes init :: "cstr \<Rightarrow> 's \<Rightarrow> dl_fault + 'r \<times> 's"
    and count :: "'r \<Rightarrow> int"
    and name :: "'r \<Rightarrow> int \<Rightarrow> 's \<Rightarrow> dl_fault + 'a::zero"
    and str :: "'s \<Rightarrow> 'a \<Rightarrow> cstr option"
    and cleanup :: "'r \<Rightarrow> 's \<Rightarrow> 's"
    and ok :: "cstr \<Rightarrow> 's \<Rightarrow> bool"
    and names :: "cstr \<Rightarrow> cstr list"
  assumes reads: "ok path st \<Longrightarrow> \<exists>r st'. init path st = Inr (r, st') \<and> count r = int (length (names path)) \<and>
    (\<forall>j<length (names path). \<exists>a. name r (int j) st' = Inr a \<and> a \<noteq> 0 \<and> str st' a = Some (names path ! j)) \<and>
    cleanup r st' = st"

definition elf_readable :: "endian \<Rightarrow> elf_layout \<Rightarrow> 'p::len word dl_os \<Rightarrow> cstr \<Rightarrow> 'p word dl_state \<Rightarrow> bool" where
  "elf_readable e L os path st \<longleftrightarrow>
     (case os_file os path of
        None \<Rightarrow> True
      | Some img \<Rightarrow>
          elf_layout_ok L \<and> 8 * elf_ptr L \<le> LENGTH('p) \<and> 31 < LENGTH('p) \<and> elf_ok e L img \<and> os_malloc os (7 * elf_ptr L) \<and>
          0 < os_page os \<and>
          (case os_fd os path (dl_fds st) of
             None \<Rightarrow> False
           | Some fd \<Rightarrow>
               (case os_mmap os fd (length img) of
                  None \<Rightarrow> False
                | Some p \<Rightarrow> p \<noteq> 0 \<and> unat p + round_up (os_page os) (length img) < 2 ^ LENGTH('p) \<and>
                    p \<notin> fst ` set (dl_maps st))))"

definition elf_file_names :: "endian \<Rightarrow> elf_layout \<Rightarrow> 'p::len word dl_os \<Rightarrow> cstr \<Rightarrow> cstr list" where
  "elf_file_names e L os path = (case os_file os path of None \<Rightarrow> [] | Some img \<Rightarrow> elf_names e L img)"

lemma elf_init:
  fixes st :: "'p::len word dl_state"
  assumes r: "elf_readable e L os path st" and f: "os_file os path = Some img"
  shows "\<exists>p fd st'. dlSymsInit_elf e L os path st = Inr (Some (elf_reader e L img p fd), st') \<and> file_at img p (dl_maps st') \<and>
    dlSymsCleanup_elf (Some (elf_reader e L img p fd)) st' = st"
proof -
  from r f obtain fd p where fd: "os_fd os path (dl_fds st) = Some fd" and p: "os_mmap os fd (length img) = Some p"
    and m: "p \<noteq> 0" "unat p + round_up (os_page os) (length img) < 2 ^ LENGTH('p)" "p \<notin> fst ` set (dl_maps st)"
    by (auto simp: elf_readable_def split: option.splits)
  from r f have c: "elf_layout_ok L" "8 * elf_ptr L \<le> LENGTH('p)" "elf_ok e L img" "os_malloc os (7 * elf_ptr L)" "0 < os_page os"
    by (auto simp: elf_readable_def)
  define pad where "pad = replicate (round_up (os_page os) (length img) - length img) (0::byte)"
  define st' where "st' = st\<lparr>dl_fds := fd # dl_fds st, dl_blocks := dl_blocks st + 1, dl_maps := (p, img @ pad) # dl_maps st\<rparr>"
  have "length img \<le> round_up (os_page os) (length img)" using c(5) by (rule round_up_ge)
  then have at: "file_at img p (dl_maps st')" using m by (auto simp: file_at_def st'_def pad_def)
  have "dlSymsInit_elf e L os path st = Inr (Some (elf_reader e L img p fd), st')"
    using elf_header_file [OF at c(1-3)] f fd p c(4)
    by (simp add: dlSymsInit_elf_def open_file_def mmap_file_def dl_alloc_def st'_def pad_def)
  moreover have "filter (\<lambda>(q, bs). q \<noteq> p) (dl_maps st) = dl_maps st" using m(3) by (force intro: filter_True)
  then have "dlSymsCleanup_elf (Some (elf_reader e L img p fd)) st' = st"
    by (simp add: dlSymsCleanup_elf_def st'_def munmap_def close_file_def dl_free_def)
  ultimately show ?thesis using at by blast
qed

interpretation elf: symbol_reader "dlSymsInit_elf e L os" dlSymsCount_elf "dlSymsName_elf e L" "\<lambda>st. load_string (dl_maps st)"
  dlSymsCleanup_elf "elf_readable e L os" "elf_file_names e L os" for e L and os :: "'p::len word dl_os"
proof
  fix path and st :: "'p word dl_state"
  assume r: "elf_readable e L os path st"
  show "\<exists>r st'. dlSymsInit_elf e L os path st = Inr (r, st') \<and> dlSymsCount_elf r = int (length (elf_file_names e L os path)) \<and>
    (\<forall>j<length (elf_file_names e L os path). \<exists>a. dlSymsName_elf e L r (int j) st' = Inr a \<and> a \<noteq> 0 \<and>
       load_string (dl_maps st') a = Some (elf_file_names e L os path ! j)) \<and> dlSymsCleanup_elf r st' = st"
  proof (cases "os_file os path")
    case None
    then show ?thesis by (simp add: dlSymsInit_elf_def dlSymsCount_elf_def dlSymsCleanup_elf_def elf_file_names_def)
  next
    case (Some img)
    with r have c: "elf_layout_ok L" "8 * elf_ptr L \<le> LENGTH('p)" "31 < LENGTH('p)" "elf_ok e L img"
      by (auto simp: elf_readable_def)
    from elf_init [OF r Some] obtain p fd st' where i: "dlSymsInit_elf e L os path st = Inr (Some (elf_reader e L img p fd), st')"
      "file_at img p (dl_maps st')" "dlSymsCleanup_elf (Some (elf_reader e L img p fd)) st' = st" by blast
    have "elf_file_names e L os path = elf_names e L img" by (simp add: elf_file_names_def Some)
    with i elf_count [OF c(4,3)] elf_name [OF i(2) c] show ?thesis by auto
  qed
qed

end
