(* ===== verification/Dyn_Modules.thy ===== *)
theory Dyn_Modules
  imports Dyn_Elf
begin

unbundle bit_operations_syntax

section \<open>Symbols of loaded modules: PE and Mach-O\<close>

text \<open>
  \<open>dyncall/dynload/dynload_syms_pe.c\<close> and \<open>dynload_syms_mach-o.c\<close>. Both load the library and read the headers of the module where the
  loader put it; \<open>mods\<close> is that memory. Where the structures have their fields is in system headers and a parameter,
  \<open>pe_layout\<close> and \<open>mach_layout\<close>.
\<close>

subsection \<open>PE\<close>

record pe_layout =
  pe_e_lfanew :: nat
  pe_SizeOfOptionalHeader :: nat
  pe_OptionalHeader :: nat
  pe_NumberOfRvaAndSizes :: nat
  pe_DataDirectory :: nat
  pe_NumberOfNames :: nat
  pe_AddressOfFunctions :: nat
  pe_AddressOfNames :: nat
  pe_AddressOfNameOrdinals :: nat

definition IMAGE_DIRECTORY_ENTRY_EXPORT :: u32 where "IMAGE_DIRECTORY_ENTRY_EXPORT = 0"

record 'a DLSyms_pe =
  pe_pLib :: 'a
  pe_pBase :: 'a
  pe_pNames :: 'a
  pe_pFuncs :: 'a
  pe_pOrds :: 'a
  pe_count :: u32

text \<open>A field of two or four bytes of the module.\<close>

definition pe_u16 :: "('p::len word \<times> byte list) list \<Rightarrow> 'p word \<Rightarrow> nat \<Rightarrow> u16 option" where
  "pe_u16 mods a k = load_word LE mods (a + of_nat k) 2"

definition pe_u32 :: "('p::len word \<times> byte list) list \<Rightarrow> 'p word \<Rightarrow> nat \<Rightarrow> u32 option" where
  "pe_u32 mods a k = load_word LE mods (a + of_nat k) 4"

text \<open>The directory of exports at \<open>pExports\<close>.\<close>

definition pe_exports ::
  "pe_layout \<Rightarrow> ('p::len word \<times> byte list) list \<Rightarrow> 'p word \<Rightarrow> 'p word \<Rightarrow> dl_fault + 'p word DLSyms_pe" where
  "pe_exports L mods base pExports =
     (case (pe_u32 mods pExports (pe_AddressOfNames L), pe_u32 mods pExports (pe_AddressOfFunctions L),
            pe_u32 mods pExports (pe_AddressOfNameOrdinals L), pe_u32 mods pExports (pe_NumberOfNames L)) of
        (Some ns, Some fs, Some os, Some n) \<Rightarrow>
          Inr \<lparr>pe_pLib = base, pe_pBase = base, pe_pNames = base + ucast ns, pe_pFuncs = base + ucast fs,
            pe_pOrds = base + ucast os, pe_count = n\<rparr>
      | _ \<Rightarrow> Inl Dl_Segv)"

definition dlSymsInit_pe ::
  "pe_layout \<Rightarrow> ('p::len word \<times> byte list) list \<Rightarrow> 'p word dl_os \<Rightarrow> cstr option \<Rightarrow> 'p word dl_state \<Rightarrow>
     dl_fault + 'p word DLSyms_pe option \<times> 'p word dl_state" where
  "dlSymsInit_pe L mods os libPath st =
     (case dlLoadLibrary_windows os libPath st of (pLib, st) \<Rightarrow>
        if pLib = 0 then Inr (None, st)
        else
          (case pe_u32 mods pLib (pe_e_lfanew L) of
             None \<Rightarrow> Inl Dl_Segv
           | Some e_lfanew \<Rightarrow>
               (let pNTHeader = pLib + scast e_lfanew; opt = pe_OptionalHeader L
                in case pe_u16 mods pNTHeader (pe_SizeOfOptionalHeader L) of
                     None \<Rightarrow> Inl Dl_Segv
                   | Some sz \<Rightarrow>
                       if unat sz < pe_DataDirectory L then Inr (None, st)
                       else
                         (case pe_u32 mods pNTHeader (opt + pe_NumberOfRvaAndSizes L) of
                            None \<Rightarrow> Inl Dl_Segv
                          | Some n \<Rightarrow>
                              if n \<le> IMAGE_DIRECTORY_ENTRY_EXPORT then Inr (None, st)
                              else
                                (case pe_u32 mods pNTHeader (opt + pe_DataDirectory L) of
                                   None \<Rightarrow> Inl Dl_Segv
                                 | Some va \<Rightarrow>
                                     if va = 0 then Inr (None, st)
                                     else if \<not> os_malloc os (5 * LENGTH('p) div 8 + 8) then Inl Dl_Segv
                                     else map_sum id (\<lambda>s. (Some s, dl_alloc st)) (pe_exports L mods pLib (pLib + ucast va)))))))"

definition dlSymsCleanup_pe :: "'p::len word DLSyms_pe option \<Rightarrow> 'p word dl_state \<Rightarrow> 'p word dl_state" where
  "dlSymsCleanup_pe pSyms st =
     (case pSyms of None \<Rightarrow> st | Some s \<Rightarrow> dl_free (dlFreeLibrary_windows (pe_pLib s) st))"

definition dlSymsCount_pe :: "'p::len word DLSyms_pe option \<Rightarrow> int" where
  "dlSymsCount_pe pSyms = (case pSyms of None \<Rightarrow> 0 | Some s \<Rightarrow> sint (pe_count s))"

definition dlSymsName_pe ::
  "('p::len word \<times> byte list) list \<Rightarrow> 'p word DLSyms_pe option \<Rightarrow> int \<Rightarrow> 'p word dl_state \<Rightarrow> dl_fault + 'p word" where
  "dlSymsName_pe mods pSyms index st =
     (case pSyms of
        None \<Rightarrow> Inr 0
      | Some s \<Rightarrow>
          if index < 0 \<or> uint (pe_count s) \<le> index then Inr 0
          else
            (case pe_u32 mods (pe_pNames s) (4 * nat index) of
               None \<Rightarrow> Inl Dl_Segv
             | Some rva \<Rightarrow> Inr (pe_pBase s + ucast rva)))"

fun pe_find_value ::
  "('p::len word \<times> byte list) list \<Rightarrow> 'p word DLSyms_pe \<Rightarrow> 'p word \<Rightarrow> nat list \<Rightarrow> 'p word dl_state \<Rightarrow> dl_fault + 'p word" where
  "pe_find_value mods s v [] st = Inr 0"
| "pe_find_value mods s v (i # is) st =
     (case pe_u16 mods (pe_pOrds s) (2 * i) of
        None \<Rightarrow> Inl Dl_Segv
      | Some ord \<Rightarrow>
          (case pe_u32 mods (pe_pFuncs s) (4 * unat ord) of
             None \<Rightarrow> Inl Dl_Segv
           | Some rva \<Rightarrow>
               if pe_pBase s + ucast rva = v then dlSymsName_pe mods (Some s) (int i) st
               else pe_find_value mods s v is st))"

definition dlSymsNameFromValue_pe ::
  "('p::len word \<times> byte list) list \<Rightarrow> 'p word DLSyms_pe option \<Rightarrow> 'p word \<Rightarrow> 'p word dl_state \<Rightarrow> dl_fault + 'p word" where
  "dlSymsNameFromValue_pe mods pSyms v st =
     (case pSyms of
        None \<Rightarrow> Inr 0
      | Some s \<Rightarrow> pe_find_value mods s v [0..<nat (dlSymsCount_pe pSyms)] st)"

subsection \<open>Mach-O\<close>

record mach_layout =
  mh_bytes :: nat
  mh_MAGIC :: u32
  mh_magic :: nat
  mh_filetype :: nat
  mh_ncmds :: nat
  lc_cmd :: nat
  lc_cmdsize :: nat
  LC_SEGMENT :: u32
  seg_segname :: nat
  seg_vmaddr :: nat
  seg_fileoff :: nat
  symtab_bytes :: nat
  symtab_symoff :: nat
  symtab_nsyms :: nat
  symtab_stroff :: nat
  nlist_bytes :: nat
  n_type :: nat
  n_value :: nat

definition MH_DYLIB :: u32 where "MH_DYLIB = 6"
definition LC_SYMTAB :: u32 where "LC_SYMTAB = 2"

record 'a DLSyms_mach =
  mo_pLib :: 'a
  mo_pStringTable :: 'a
  mo_pSymbolTable :: 'a
  mo_symbolCount :: u32
  mo_symOffset :: 'a

text \<open>The first loop: the number of the image that opens to the same handle.\<close>

fun mach_find_image :: "'p::len word dl_os \<Rightarrow> 'p word \<Rightarrow> (nat \<times> cstr) list \<Rightarrow> 'p word dl_state \<Rightarrow> nat option \<times> 'p word dl_state" where
  "mach_find_image os pLib [] st = (None, st)"
| "mach_find_image os pLib ((i, name) # todo) st =
     (case dlLoadLibrary_unix os (Some name) st of (pLib', st) \<Rightarrow>
        if pLib' \<noteq> 0 then
          (let st = dlFreeLibrary_unix pLib' st
           in if pLib = pLib' then (Some i, st) else mach_find_image os pLib todo st)
        else mach_find_image os pLib todo st)"

text \<open>\<open>__TEXT\<close> and \<open>__LINKEDIT\<close>.\<close>

definition TEXT_name :: cstr where "TEXT_name = [0x5f, 0x5f, 0x54, 0x45, 0x58, 0x54]"
definition LINKEDIT_name :: cstr where
  "LINKEDIT_name = [0x5f, 0x5f, 0x4c, 0x49, 0x4e, 0x4b, 0x45, 0x44, 0x49, 0x54]"

text \<open>The second loop, over the load commands; its variables are \<open>pBase\<close>, \<open>slide\<close>, \<open>symOffset\<close> and \<open>pSyms\<close>.\<close>

record 'a mach_walk =
  mw_pBase :: 'a
  mw_slide :: 'a
  mw_symOffset :: 'a
  mw_pSyms :: "'a DLSyms_mach option"

definition mach_ptr :: "endian \<Rightarrow> ('p::len word \<times> byte list) list \<Rightarrow> 'p word \<Rightarrow> nat \<Rightarrow> 'p word option" where
  "mach_ptr e mods a k = load_word e mods (a + of_nat k) (LENGTH('p) div 8)"

definition mach_u32 :: "endian \<Rightarrow> ('p::len word \<times> byte list) list \<Rightarrow> 'p word \<Rightarrow> nat \<Rightarrow> u32 option" where
  "mach_u32 e mods a k = load_word e mods (a + of_nat k) 4"

text \<open>\<open>strcmp(a, s) == 0\<close>, which reads up to the first difference.\<close>

fun str_equal :: "('p::len word \<times> byte list) list \<Rightarrow> 'p word \<Rightarrow> cstr \<Rightarrow> bool option" where
  "str_equal mods a [] = map_option (\<lambda>b. b = 0) (mapped mods a)"
| "str_equal mods a (c # cs) =
     (case mapped mods a of None \<Rightarrow> None | Some b \<Rightarrow> if b = c then str_equal mods (a + 1) cs else Some False)"

definition mach_segment ::
  "endian \<Rightarrow> mach_layout \<Rightarrow> ('p::len word \<times> byte list) list \<Rightarrow> 'p word \<Rightarrow> 'p word \<Rightarrow> 'p word mach_walk \<Rightarrow> dl_fault + 'p word mach_walk" where
  "mach_segment e L mods pHeader cmd w =
     (let segname = cmd + of_nat (seg_segname L)
      in case str_equal mods segname TEXT_name of
           None \<Rightarrow> Inl Dl_Segv
         | Some True \<Rightarrow>
             (case mach_ptr e mods cmd (seg_vmaddr L) of
                None \<Rightarrow> Inl Dl_Segv
              | Some vmaddr \<Rightarrow> Inr (w\<lparr>mw_slide := pHeader - vmaddr\<rparr>))
         | Some False \<Rightarrow>
             (case str_equal mods segname LINKEDIT_name of
                None \<Rightarrow> Inl Dl_Segv
              | Some False \<Rightarrow> Inr w
              | Some True \<Rightarrow>
                  (case (mach_ptr e mods cmd (seg_vmaddr L), mach_ptr e mods cmd (seg_fileoff L)) of
                     (Some vmaddr, Some fileoff) \<Rightarrow>
                       Inr (w\<lparr>mw_pBase := (vmaddr - fileoff) + mw_slide w, mw_symOffset := mw_slide w\<rparr>)
                   | _ \<Rightarrow> Inl Dl_Segv)))"

fun mach_commands ::
  "endian \<Rightarrow> mach_layout \<Rightarrow> ('p::len word \<times> byte list) list \<Rightarrow> 'p word dl_os \<Rightarrow> 'p word \<Rightarrow> 'p word \<Rightarrow> nat \<Rightarrow> 'p word \<Rightarrow>
     'p word mach_walk \<Rightarrow> 'p word dl_state \<Rightarrow> dl_fault + 'p word DLSyms_mach option \<times> 'p word dl_state" where
  "mach_commands e L mods os pLib pHeader 0 cmd w st = Inr (mw_pSyms w, st)"
| "mach_commands e L mods os pLib pHeader (Suc n) cmd w st =
     (case (mach_u32 e mods cmd (lc_cmd L), mach_u32 e mods cmd (lc_cmdsize L)) of
        (Some c, Some cmdsize) \<Rightarrow>
          (let todo = mach_commands e L mods os pLib pHeader n (cmd + ucast cmdsize)
           in if c = LC_SEGMENT L then
                (case mach_segment e L mods pHeader cmd w of Inl f \<Rightarrow> Inl f | Inr w \<Rightarrow> todo w st)
              else if c = LC_SYMTAB \<and> mw_pSyms w = None then
                (if unat cmdsize \<noteq> symtab_bytes L then Inr (mw_pSyms w, st)
                 else if \<not> os_malloc os (4 * LENGTH('p) div 8 + 4) then Inl Dl_Segv
                 else
                   (case (mach_u32 e mods cmd (symtab_nsyms L), mach_u32 e mods cmd (symtab_stroff L), mach_u32 e mods cmd (symtab_symoff L)) of
                      (Some nsyms, Some stroff, Some symoff) \<Rightarrow>
                        todo (w\<lparr>mw_pSyms := Some \<lparr>mo_pLib = pLib, mo_pStringTable = mw_pBase w + ucast stroff,
                            mo_pSymbolTable = mw_pBase w + ucast symoff, mo_symbolCount = nsyms, mo_symOffset = mw_symOffset w\<rparr>\<rparr>)
                          (dl_alloc st)
                    | _ \<Rightarrow> Inl Dl_Segv))
              else todo w st)
      | _ \<Rightarrow> Inl Dl_Segv)"

text \<open>\<open>headers\<close> is \<open>_dyld_get_image_header\<close>.\<close>

definition mach_symtab ::
  "endian \<Rightarrow> mach_layout \<Rightarrow> ('p::len word \<times> byte list) list \<Rightarrow> 'p word dl_os \<Rightarrow> 'p word \<Rightarrow> 'p word \<Rightarrow> 'p word dl_state \<Rightarrow>
     dl_fault + 'p word DLSyms_mach option \<times> 'p word dl_state" where
  "mach_symtab e L mods os pLib pHeader st =
     (if pHeader = 0 then Inr (None, st)
      else
        (case mach_u32 e mods pHeader (mh_magic L) of
           None \<Rightarrow> Inl Dl_Segv
         | Some magic \<Rightarrow>
             if magic \<noteq> mh_MAGIC L then Inr (None, st)
             else
               (case (mach_u32 e mods pHeader (mh_filetype L), mach_u32 e mods pHeader (mh_ncmds L)) of
                  (Some filetype, Some ncmds) \<Rightarrow>
                    if filetype \<noteq> MH_DYLIB then Inr (None, st)
                    else mach_commands e L mods os pLib pHeader (unat ncmds) (pHeader + of_nat (mh_bytes L))
                      \<lparr>mw_pBase = pHeader, mw_slide = 0, mw_symOffset = 0, mw_pSyms = None\<rparr> st
                | _ \<Rightarrow> Inl Dl_Segv)))"

definition dlSymsInit_mach ::
  "endian \<Rightarrow> mach_layout \<Rightarrow> ('p::len word \<times> byte list) list \<Rightarrow> (nat \<Rightarrow> 'p word) \<Rightarrow> 'p word dl_os \<Rightarrow> cstr option \<Rightarrow> 'p word dl_state \<Rightarrow>
     dl_fault + 'p word DLSyms_mach option \<times> 'p word dl_state" where
  "dlSymsInit_mach e L mods headers os libPath st =
     (case dlLoadLibrary_unix os libPath st of (pLib, st) \<Rightarrow>
        if pLib = 0 then Inr (None, st)
        else
          (case mach_find_image os pLib (List.enumerate 0 (os_images os)) st of (found, st) \<Rightarrow>
             (case mach_symtab e L mods os pLib (case found of None \<Rightarrow> 0 | Some i \<Rightarrow> headers i) st of
                Inl f \<Rightarrow> Inl f
              | Inr (pSyms, st) \<Rightarrow>
                  Inr (case pSyms of None \<Rightarrow> (None, dlFreeLibrary_unix pLib st) | Some s \<Rightarrow> (Some s, st)))))"

definition dlSymsCleanup_mach :: "'p::len word DLSyms_mach option \<Rightarrow> 'p word dl_state \<Rightarrow> 'p word dl_state" where
  "dlSymsCleanup_mach pSyms st =
     (case pSyms of None \<Rightarrow> st | Some s \<Rightarrow> dl_free (dlFreeLibrary_unix (mo_pLib s) st))"

definition dlSymsCount_mach :: "'p::len word DLSyms_mach option \<Rightarrow> int" where
  "dlSymsCount_mach pSyms = (case pSyms of None \<Rightarrow> 0 | Some s \<Rightarrow> sint (mo_symbolCount s))"

definition N_STAB :: byte where "N_STAB = 0xe0"
definition N_TYPE :: byte where "N_TYPE = 0x0e"
definition N_SECT :: byte where "N_SECT = 0x0e"

definition dlSymsNameFromValue_mach :: "'p::len word dl_os \<Rightarrow> 'p word \<Rightarrow> 'p word" where
  "dlSymsNameFromValue_mach os v =
     (case os_dladdr os v of
        None \<Rightarrow> 0
      | Some info \<Rightarrow> if v \<noteq> dli_saddr info then 0 else dli_sname info)"

definition dlSymsName_mach ::
  "endian \<Rightarrow> mach_layout \<Rightarrow> ('p::len word \<times> byte list) list \<Rightarrow> 'p word dl_os \<Rightarrow> 'p word DLSyms_mach option \<Rightarrow> int \<Rightarrow> 'p word dl_state \<Rightarrow>
     dl_fault + 'p word" where
  "dlSymsName_mach e L mods os pSyms index st =
     (case pSyms of
        None \<Rightarrow> Inr 0
      | Some s \<Rightarrow>
          (let nl = mo_pSymbolTable s + word_of_int (index * int (nlist_bytes L))
           in case mapped mods (nl + of_nat (n_type L)) of
                None \<Rightarrow> Inl Dl_Segv
              | Some ty \<Rightarrow>
                  if ty AND N_TYPE = N_SECT \<and> ty AND N_STAB = 0 then
                    (case mach_ptr e mods nl (n_value L) of
                       None \<Rightarrow> Inl Dl_Segv
                     | Some v \<Rightarrow> Inr (dlSymsNameFromValue_mach os (v + mo_symOffset s)))
                  else Inr 0))"

subsection \<open>References\<close>

lemma count_ref_alloc1: "dl_alloc (count_ref h st) = count_ref h (dl_alloc st)"
  by (simp add: dl_alloc_def count_ref_def)

lemma dlclose_alloc: "dlclose h (dl_alloc st) = dl_alloc (dlclose h st)"
  by (simp add: dlclose_def dl_alloc_def)

text \<open>The reader for Mach-O gives back the reference it took when it fails, and keeps one until the clean-up when it does not.\<close>

lemma mach_find_image_state: "mach_find_image os pLib images st = (fst (mach_find_image os pLib images st), st)"
  by (induction images) (auto simp: dlLoadLibrary_unix_def dlopen_def dlFreeLibrary_unix_def split: prod.split)

lemma mach_commands_state:
  "mach_commands e L mods os pLib pHeader n cmd w st = Inr (r, st') \<Longrightarrow>
     (case mw_pSyms w of
        Some s \<Rightarrow> r = Some s \<and> st' = st
      | None \<Rightarrow> (case r of None \<Rightarrow> st' = st | Some s \<Rightarrow> mo_pLib s = pLib \<and> st' = dl_alloc st))"
proof (induction n arbitrary: cmd w st)
  case 0
  then show ?case by (auto split: option.splits)
next
  case (Suc n)
  let ?todo = "mach_commands e L mods os pLib pHeader n"
  from Suc.prems obtain c sz where r: "mach_u32 e mods cmd (lc_cmd L) = Some c" "mach_u32 e mods cmd (lc_cmdsize L) = Some sz"
    by (cases "mach_u32 e mods cmd (lc_cmd L)"; cases "mach_u32 e mods cmd (lc_cmdsize L)") simp_all
  note p = Suc.prems [unfolded mach_commands.simps r option.case prod.case Let_def]
  consider (seg) "c = LC_SEGMENT L" | (sym) "c \<noteq> LC_SEGMENT L" "c = LC_SYMTAB" "mw_pSyms w = None"
    | (other) "c \<noteq> LC_SEGMENT L" "\<not> (c = LC_SYMTAB \<and> mw_pSyms w = None)" by metis
  then show ?case
  proof cases
    case seg
    with p obtain w' where w: "mach_segment e L mods pHeader cmd w = Inr w'" and t: "?todo (cmd + ucast sz) w' st = Inr (r, st')"
      by (auto split: sum.splits)
    from w have "mw_pSyms w' = mw_pSyms w"
      by (auto simp: mach_segment_def Let_def split: option.splits bool.splits)
    with Suc.IH [OF t] show ?thesis by simp
  next
    case sym
    show ?thesis
    proof (cases "unat sz = symtab_bytes L")
      case False
      with p sym show ?thesis by auto
    next
      case True
      with p sym obtain s where t: "?todo (cmd + ucast sz) (w\<lparr>mw_pSyms := Some s\<rparr>) (dl_alloc st) = Inr (r, st')" "mo_pLib s = pLib"
        by (auto split: if_splits option.splits)
      from Suc.IH [OF t(1)] t(2) sym show ?thesis by simp
    qed
  next
    case other
    with p have "?todo (cmd + ucast sz) w st = Inr (r, st')" by (auto split: if_splits)
    from Suc.IH [OF this] show ?thesis .
  qed
qed

lemma mach_symtab_state:
  "mach_symtab e L mods os pLib pHeader st = Inr (r, st') \<Longrightarrow>
     (case r of None \<Rightarrow> st' = st | Some s \<Rightarrow> mo_pLib s = pLib \<and> st' = dl_alloc st)"
  by (auto simp: mach_symtab_def dest!: mach_commands_state split: if_splits option.splits)

text \<open>C37: the reader of Mach-O files, on any memory of modules: whenever \<open>dlSymsInit\<close> returns, the clean-up of its result restores
  references and memory exactly, although the search opens and closes every image; when it returns \<open>NULL\<close> they are restored already.\<close>

theorem mach_reader_balanced:
  assumes "dlSymsInit_mach e L mods headers os path st = Inr (r, st')"
  shows "dlSymsCleanup_mach r st' = st \<and> (r = None \<longrightarrow> st' = st)"
proof -
  obtain h st1 where l: "dlLoadLibrary_unix os path st = (h, st1)" by fastforce
  then have st1: "st1 = count_ref h st" by (auto simp: dlLoadLibrary_unix_def dlopen_def)
  show ?thesis
  proof (cases "h = 0")
    case True
    with assms l st1 show ?thesis by (auto simp: dlSymsInit_mach_def dlSymsCleanup_mach_def)
  next
    case False
    obtain found where f: "mach_find_image os h (List.enumerate 0 (os_images os)) st1 = (found, st1)"
      using mach_find_image_state by blast
    with assms l False obtain pS st2 where
      m: "mach_symtab e L mods os h (case found of None \<Rightarrow> 0 | Some i \<Rightarrow> headers i) st1 = Inr (pS, st2)" and
      r: "(r, st') = (case pS of None \<Rightarrow> (None, dlFreeLibrary_unix h st2) | Some s \<Rightarrow> (Some s, st2))"
      by (auto simp: dlSymsInit_mach_def split: sum.splits)
    from mach_symtab_state [OF m] r False st1 show ?thesis
      by (cases pS) (auto simp: dlSymsCleanup_mach_def dlFreeLibrary_unix_def count_ref_alloc1)
  qed
qed


definition mach32 :: mach_layout where
  "mach32 = \<lparr>mh_bytes = 28, mh_MAGIC = 0xfeedface, mh_magic = 0, mh_filetype = 12, mh_ncmds = 16, lc_cmd = 0, lc_cmdsize = 4,
     LC_SEGMENT = 1, seg_segname = 8, seg_vmaddr = 24, seg_fileoff = 32, symtab_bytes = 24, symtab_symoff = 8, symtab_nsyms = 12,
     symtab_stroff = 16, nlist_bytes = 12, n_type = 4, n_value = 8\<rparr>"

definition demo_mach :: "byte list" where
  "demo_mach = [206, 250, 237, 254, 0, 0, 0, 0, 0, 0, 0, 0, 6, 0, 0, 0, 1, 0, 0, 0, 0, 0, 0, 0, 0, 0, 0, 0, 2, 0, 0, 0, 24, 0, 0, 0, 100, 0, 0, 0, 5, 0, 0, 0, 200, 0, 0, 0, 0, 0, 0, 0]"

definition demo_dyld :: "u32 dl_os" where
  "demo_dyld = \<lparr>os_load = (\<lambda>n. 0x1000), os_loaded = (\<lambda>n. 0x1000), os_sym = (\<lambda>h n. 0), os_objects = [], os_images = [[97]],
     os_dladdr = (\<lambda>a. None), os_link_map = (\<lambda>h. None), os_file = (\<lambda>n. None), os_fd = (\<lambda>n fds. None),
     os_mmap = (\<lambda>fd n. None), os_page = 4096, os_malloc = (\<lambda>n. True), os_program = 0, os_wide = (\<lambda>n. 0), os_wide_fill = (\<lambda>n r. []),
     os_utf8 = (\<lambda>n. None), os_loadW = (\<lambda>n. 0), os_module_name = (\<lambda>h. [])\<rparr>"

definition demo_dyld_state :: "u32 dl_state" where
  "demo_dyld_state = \<lparr>dl_refs = (\<lambda>h. 1), dl_maps = [], dl_fds = [], dl_blocks = 0\<rparr>"

lemma mach32_fields:
  "mh_bytes mach32 = 28" "mh_MAGIC mach32 = 0xfeedface" "mh_magic mach32 = 0" "mh_filetype mach32 = 12" "mh_ncmds mach32 = 16"
  "lc_cmd mach32 = 0" "lc_cmdsize mach32 = 4" "LC_SEGMENT mach32 = 1" "symtab_bytes mach32 = 24" "symtab_symoff mach32 = 8"
  "symtab_nsyms mach32 = 12" "symtab_stroff mach32 = 16"
  by (simp_all add: mach32_def)

lemma demo_mach_u32:
  assumes "k + 4 \<le> 52" and "a \<le> k"
  shows "mach_u32 LE [(0x1000 :: u32, demo_mach)] (0x1000 + of_nat a) (k - a) = Some (obj_word LE (take 4 (drop k demo_mach)))"
proof -
  have l: "length demo_mach = 52" by (simp add: demo_mach_def)
  have "(0x1000 :: u32) + of_nat a + of_nat (k - a) = 0x1000 + of_nat k" using assms(2) by (simp add: add.assoc flip: of_nat_add)
  with load_word_head [of k 4 demo_mach, where 'p = 32 and p = "0x1000" and e = LE and ms = "[]"] assms l
  show ?thesis by (simp add: mach_u32_def)
qed

lemma demo_mach_header:
  "mach_symtab LE mach32 [(0x1000, demo_mach)] demo_dyld 0x1000 0x1000 st =
     Inr (Some \<lparr>mo_pLib = 0x1000, mo_pStringTable = 0x10c8, mo_pSymbolTable = 0x1064, mo_symbolCount = 5, mo_symOffset = 0\<rparr>, dl_alloc st)"
proof -
  let ?u = "mach_u32 LE [(0x1000 :: u32, demo_mach)]"
  have h: "?u 0x1000 0 = Some 0xfeedface" "?u 0x1000 12 = Some 6" "?u 0x1000 16 = Some 1"
    using demo_mach_u32 [of 0 0] demo_mach_u32 [of 12 0] demo_mach_u32 [of 16 0]
    by (simp_all, simp_all add: demo_mach_def obj_word_def ord_bytes_def)
  have c: "?u 0x101c 0 = Some 2" "?u 0x101c 4 = Some 24" "?u 0x101c 8 = Some 100" "?u 0x101c 12 = Some 5" "?u 0x101c 16 = Some 200"
    using demo_mach_u32 [of 28 28] demo_mach_u32 [of 32 28] demo_mach_u32 [of 36 28] demo_mach_u32 [of 40 28] demo_mach_u32 [of 44 28]
    by (simp_all, simp_all add: demo_mach_def obj_word_def ord_bytes_def)
  have "unat (1 :: u32) = Suc 0" by simp
  with h c show ?thesis
    by (simp add: mach_symtab_def mach32_fields MH_DYLIB_def LC_SYMTAB_def demo_dyld_def)
qed

theorem mach_reader_balanced_witness:
  "\<exists>s st'. dlSymsInit_mach LE mach32 [(0x1000, demo_mach)] (\<lambda>i. 0x1000) demo_dyld (Some [97]) demo_dyld_state = Inr (Some s, st') \<and>
     mo_symbolCount s = 5 \<and> dl_refs st' 0x1000 = 2 \<and> dlSymsCleanup_mach (Some s) st' = demo_dyld_state"
proof -
  let ?s = "\<lparr>mo_pLib = 0x1000, mo_pStringTable = 0x10c8, mo_pSymbolTable = 0x1064, mo_symbolCount = 5, mo_symOffset = 0 :: u32\<rparr>"
  let ?st = "dl_alloc (count_ref 0x1000 demo_dyld_state)"
  have "dlLoadLibrary_unix demo_dyld n st = (0x1000, count_ref 0x1000 st)" for n st
    by (simp add: dlLoadLibrary_unix_def dlopen_def demo_dyld_def)
  moreover have "mach_find_image demo_dyld 0x1000 (List.enumerate 0 (os_images demo_dyld)) st = (Some 0, st)" for st
    using calculation by (simp add: demo_dyld_def [THEN arg_cong [of _ _ os_images], simplified] dlFreeLibrary_unix_def)
  ultimately have i: "dlSymsInit_mach LE mach32 [(0x1000, demo_mach)] (\<lambda>i. 0x1000) demo_dyld (Some [97]) demo_dyld_state = Inr (Some ?s, ?st)"
    by (simp add: dlSymsInit_mach_def demo_mach_header)
  from mach_reader_balanced [OF i] have "dlSymsCleanup_mach (Some ?s) ?st = demo_dyld_state" ..
  moreover have "dl_refs ?st 0x1000 = 2" by (simp add: dl_alloc_def count_ref_def demo_dyld_state_def)
  ultimately show ?thesis using i by (intro exI [of _ ?s] exI [of _ ?st]) simp
qed

text \<open>That for PE keeps the reference when the module has no table of exports.\<close>

lemma load_windows_state:
  "dlLoadLibrary_windows os (Some path) st = (h, st') \<Longrightarrow> st' = count_ref h st"
  by (auto simp: dlLoadLibrary_windows_def Let_def split: if_splits option.splits)

lemma pe_init_cases:
  assumes "dlSymsInit_pe L mods os (Some path) st = Inr (r, st')" and "dlLoadLibrary_windows os (Some path) st = (h, st1)"
  shows "r = None \<and> st' = count_ref h st \<or>
    (\<exists>s. r = Some s \<and> pe_pLib s = h \<and> h \<noteq> 0 \<and> st' = dl_alloc (count_ref h st))"
proof -
  have "pe_exports L mods h x = Inr s \<Longrightarrow> pe_pLib s = h" for x s
    by (auto simp: pe_exports_def split: option.splits)
  with assms load_windows_state [OF assms(2)] show ?thesis
    by (cases "h = 0")
      (auto simp: dlSymsInit_pe_def Let_def map_sum_def split: if_splits option.splits sum.splits)
qed

lemma pe_reader_unbalanced:
  assumes "dlSymsInit_pe L mods os (Some path) st = Inr (r, st')" and "dlLoadLibrary_windows os (Some path) st = (h, st1)"
  shows "dlSymsCleanup_pe r st' = (if r = None then count_ref h st else st)"
  using pe_init_cases [OF assms]
  by (auto simp: dlSymsCleanup_pe_def dlFreeLibrary_windows_def count_ref_alloc1)

subsection \<open>The names of a PE module\<close>

text \<open>The reference and the modules that the code can read; \<open>mods\<close> begins with the module.\<close>

definition pe_nt :: "pe_layout \<Rightarrow> byte list \<Rightarrow> nat" where
  "pe_nt L img = elf_field LE 4 img (pe_e_lfanew L)"

definition pe_export_rva :: "pe_layout \<Rightarrow> byte list \<Rightarrow> nat" where
  "pe_export_rva L img = elf_field LE 4 img (pe_nt L img + (pe_OptionalHeader L + pe_DataDirectory L))"

definition pe_export_field :: "pe_layout \<Rightarrow> byte list \<Rightarrow> nat \<Rightarrow> nat" where
  "pe_export_field L img f = elf_field LE 4 img (pe_export_rva L img + f)"

definition pe_name_rva :: "pe_layout \<Rightarrow> byte list \<Rightarrow> nat \<Rightarrow> nat" where
  "pe_name_rva L img j = elf_field LE 4 img (pe_export_field L img (pe_AddressOfNames L) + 4 * j)"

definition pe_names :: "pe_layout \<Rightarrow> byte list \<Rightarrow> cstr list" where
  "pe_names L img =
     map (\<lambda>j. takeWhile (\<lambda>b. b \<noteq> 0) (drop (pe_name_rva L img j) img)) [0..<pe_export_field L img (pe_NumberOfNames L)]"

definition pe_ok :: "pe_layout \<Rightarrow> byte list \<Rightarrow> bool" where
  "pe_ok L img \<longleftrightarrow>
     pe_e_lfanew L + 4 \<le> length img \<and> pe_nt L img < 2 ^ 31 \<and>
     pe_nt L img + pe_SizeOfOptionalHeader L + 2 \<le> length img \<and>
     pe_DataDirectory L \<le> elf_field LE 2 img (pe_nt L img + pe_SizeOfOptionalHeader L) \<and>
     pe_nt L img + (pe_OptionalHeader L + pe_NumberOfRvaAndSizes L) + 4 \<le> length img \<and>
     elf_field LE 4 img (pe_nt L img + (pe_OptionalHeader L + pe_NumberOfRvaAndSizes L)) \<noteq> 0 \<and>
     pe_nt L img + (pe_OptionalHeader L + pe_DataDirectory L) + 4 \<le> length img \<and> pe_export_rva L img \<noteq> 0 \<and>
     (\<forall>f\<in>{pe_AddressOfNames L, pe_AddressOfFunctions L, pe_AddressOfNameOrdinals L, pe_NumberOfNames L}.
        pe_export_rva L img + f + 4 \<le> length img) \<and>
     pe_export_field L img (pe_NumberOfNames L) < 2 ^ 31 \<and>
     (\<forall>j < pe_export_field L img (pe_NumberOfNames L).
        pe_export_field L img (pe_AddressOfNames L) + 4 * j + 4 \<le> length img \<and> 0 \<in> set (drop (pe_name_rva L img j) img))"

definition pe_readable :: "pe_layout \<Rightarrow> ('p::len word \<times> byte list) list \<Rightarrow> 'p word dl_os \<Rightarrow> cstr \<Rightarrow> 'p word dl_state \<Rightarrow> bool" where
  "pe_readable L mods os path st \<longleftrightarrow>
     31 < LENGTH('p) \<and> os_malloc os (5 * LENGTH('p) div 8 + 8) \<and>
     (case mods of
        [] \<Rightarrow> False
      | (p, img) # ms \<Rightarrow> p \<noteq> 0 \<and> unat p + length img < 2 ^ LENGTH('p) \<and> pe_ok L img \<and>
          fst (dlLoadLibrary_windows os (Some path) st) = p)"

lemma elf_field_4: "elf_field LE 4 img k < 2 ^ 32"
  using elf_field_bound [of 4 LE img k] by simp

lemma unat_field_4: "unat (of_nat (elf_field LE 4 img k) :: u32) = elf_field LE 4 img k"
  using elf_field_4 [of img k] by (simp add: unat_of_nat)

lemma pe_u32_file:
  assumes "file_at img p mods" and "a + k + 4 \<le> length img"
  shows "pe_u32 mods (p + of_nat a :: 'p::len word) k = Some (of_nat (elf_field LE 4 img (a + k)))"
  using file_load [OF assms(1,2), where 'a = 32] by (simp add: pe_u32_def add.assoc)

lemma pe_u16_file:
  assumes "file_at img p mods" and "a + k + 2 \<le> length img"
  shows "pe_u16 mods (p + of_nat a :: 'p::len word) k = Some (of_nat (elf_field LE 2 img (a + k)))"
  using file_load [OF assms(1,2), where 'a = 16] by (simp add: pe_u16_def add.assoc)

lemma ucast_field: "ucast (of_nat (elf_field LE 4 img k) :: u32) = (of_nat (elf_field LE 4 img k) :: 'p::len word)"
  by (metis of_nat_unat unat_field_4)

lemma scast_field:
  "elf_field LE 4 img k < 2 ^ 31 \<Longrightarrow> scast (of_nat (elf_field LE 4 img k) :: u32) = (of_nat (elf_field LE 4 img k) :: 'p::len word)"
proof -
  assume "elf_field LE 4 img k < 2 ^ 31"
  then have "sint (of_nat (elf_field LE 4 img k) :: u32) = int (elf_field LE 4 img k)"
    by (subst sint_small) (simp_all add: unat_field_4)
  then show ?thesis by (metis of_int_sint of_int_of_nat_eq)
qed

lemma pe_init_file:
  fixes p :: "'p::len word"
  assumes f: "file_at img p mods" and ok: "pe_ok L img" and m: "os_malloc os (5 * LENGTH('p) div 8 + 8)"
    and l: "dlLoadLibrary_windows os (Some path) st = (p, st1)"
  shows "dlSymsInit_pe L mods os (Some path) st =
    Inr (Some \<lparr>pe_pLib = p, pe_pBase = p, pe_pNames = p + of_nat (pe_export_field L img (pe_AddressOfNames L)),
      pe_pFuncs = p + of_nat (pe_export_field L img (pe_AddressOfFunctions L)),
      pe_pOrds = p + of_nat (pe_export_field L img (pe_AddressOfNameOrdinals L)),
      pe_count = of_nat (pe_export_field L img (pe_NumberOfNames L))\<rparr>, dl_alloc st1)"
proof -
  have p0: "p \<noteq> 0" using f by (simp add: file_at_def)
  let ?nt = "pe_nt L img" and ?ex = "pe_export_rva L img"
  have e: "pe_u32 mods p (pe_e_lfanew L) = Some (of_nat ?nt)"
    using pe_u32_file [OF f, of 0 "pe_e_lfanew L"] ok by (simp add: pe_ok_def pe_nt_def)
  have nt: "scast (of_nat ?nt :: u32) = (of_nat ?nt :: 'p word)"
    using ok by (simp add: pe_ok_def pe_nt_def scast_field)
  have sz: "pe_u16 mods (p + of_nat ?nt) (pe_SizeOfOptionalHeader L) =
      Some (of_nat (elf_field LE 2 img (?nt + pe_SizeOfOptionalHeader L)))"
    using ok by (intro pe_u16_file [OF f]) (simp add: pe_ok_def)
  have szb: "unat (of_nat (elf_field LE 2 img k) :: u16) = elf_field LE 2 img k" for k
    using elf_field_bound [of 2 LE img k] by (simp add: unat_of_nat)
  have n: "pe_u32 mods (p + of_nat ?nt) (pe_OptionalHeader L + pe_NumberOfRvaAndSizes L) =
      Some (of_nat (elf_field LE 4 img (?nt + (pe_OptionalHeader L + pe_NumberOfRvaAndSizes L))))"
    using ok by (intro pe_u32_file [OF f]) (simp add: pe_ok_def)
  have va: "pe_u32 mods (p + of_nat ?nt) (pe_OptionalHeader L + pe_DataDirectory L) = Some (of_nat ?ex)"
    unfolding pe_export_rva_def using ok by (intro pe_u32_file [OF f]) (simp add: pe_ok_def)
  have nz: "(of_nat (elf_field LE 4 img k) :: u32) = 0 \<longleftrightarrow> elf_field LE 4 img k = 0" for k
    using unat_field_4 [of img k] by (simp add: unat_eq_zero [symmetric] del: unat_eq_zero)
  have ex: "pe_u32 mods (p + of_nat ?ex) k = Some (of_nat (pe_export_field L img k))"
    if "k \<in> {pe_AddressOfNames L, pe_AddressOfFunctions L, pe_AddressOfNameOrdinals L, pe_NumberOfNames L}" for k
    unfolding pe_export_field_def using ok that by (intro pe_u32_file [OF f]) (auto simp: pe_ok_def)
  have "\<not> (of_nat (elf_field LE 4 img (?nt + (pe_OptionalHeader L + pe_NumberOfRvaAndSizes L))) :: u32) \<le> IMAGE_DIRECTORY_ENTRY_EXPORT"
    using ok nz by (simp add: pe_ok_def IMAGE_DIRECTORY_ENTRY_EXPORT_def)
  moreover have "(of_nat ?ex :: u32) \<noteq> 0" using ok nz by (simp add: pe_ok_def pe_export_rva_def)
  moreover have "\<not> unat (of_nat (elf_field LE 2 img (?nt + pe_SizeOfOptionalHeader L)) :: u16) < pe_DataDirectory L"
    using ok szb by (simp add: pe_ok_def)
  moreover have "ucast (of_nat ?ex :: u32) = (of_nat ?ex :: 'p word)"
    "ucast (of_nat (pe_export_field L img k) :: u32) = (of_nat (pe_export_field L img k) :: 'p word)" for k
    by (simp_all add: pe_export_rva_def pe_export_field_def ucast_field)
  ultimately show ?thesis
    using p0 l m e nt sz n va ex by (simp add: dlSymsInit_pe_def pe_exports_def Let_def del: of_nat_add)
qed

lemma pe_name_file:
  fixes p :: "'p::len word"
  assumes f: "file_at img p mods" and ok: "pe_ok L img" and j: "j < pe_export_field L img (pe_NumberOfNames L)"
    and s: "pe_pBase s = p" "pe_pNames s = p + of_nat (pe_export_field L img (pe_AddressOfNames L))"
      "pe_count s = of_nat (pe_export_field L img (pe_NumberOfNames L))"
  shows "\<exists>a. dlSymsName_pe mods (Some s) (int j) st = Inr a \<and> a \<noteq> 0 \<and>
    load_string mods a = Some (takeWhile (\<lambda>b. b \<noteq> 0) (drop (pe_name_rva L img j) img))"
proof -
  have n: "pe_u32 mods (pe_pNames s) (4 * j) = Some (of_nat (pe_name_rva L img j))"
    unfolding s pe_name_rva_def using ok j by (intro pe_u32_file [OF f]) (auto simp: pe_ok_def)
  have c: "uint (of_nat (pe_export_field L img (pe_NumberOfNames L)) :: u32) = int (pe_export_field L img (pe_NumberOfNames L))"
    unfolding pe_export_field_def by (simp only: uint_nat unat_field_4)
  have r: "ucast (of_nat (pe_name_rva L img j) :: u32) = (of_nat (pe_name_rva L img j) :: 'p word)"
    by (simp add: pe_name_rva_def ucast_field)
  have z: "0 \<in> set (drop (pe_name_rva L img j) img)" using ok j by (simp add: pe_ok_def)
  then have "pe_name_rva L img j \<le> length img" by (cases "length img \<le> pe_name_rva L img j") simp_all
  with f have "p + of_nat (pe_name_rva L img j) \<noteq> 0" by (rule file_pointer)
  moreover have "dlSymsName_pe mods (Some s) (int j) st = Inr (p + of_nat (pe_name_rva L img j))"
    using n j by (simp add: dlSymsName_pe_def s(1,3) c r)
  ultimately show ?thesis using file_string [OF f z] by simp
qed

interpretation pe: symbol_reader "\<lambda>path. dlSymsInit_pe L mods os (Some path)" dlSymsCount_pe "dlSymsName_pe mods" "\<lambda>st. load_string mods"
  dlSymsCleanup_pe "pe_readable L mods os" "\<lambda>path. pe_names L (snd (hd mods))"
  for L and mods :: "('p::len word \<times> byte list) list" and os
proof
  fix path and st :: "'p word dl_state"
  assume "pe_readable L mods os path st"
  then obtain p img ms where mods: "mods = (p, img) # ms" and p: "p \<noteq> 0" "unat p + length img < 2 ^ LENGTH('p)"
    and ok: "pe_ok L img" and m: "os_malloc os (5 * LENGTH('p) div 8 + 8)" and h: "fst (dlLoadLibrary_windows os (Some path) st) = p"
    by (auto simp: pe_readable_def split: list.splits)
  from mods p have f: "file_at img p mods" by (auto simp: file_at_def)
  from h obtain st1 where l: "dlLoadLibrary_windows os (Some path) st = (p, st1)" by (metis prod.collapse)
  let ?n = "pe_export_field L img (pe_NumberOfNames L)"
  define s where "s = \<lparr>pe_pLib = p, pe_pBase = p, pe_pNames = p + of_nat (pe_export_field L img (pe_AddressOfNames L)),
      pe_pFuncs = p + of_nat (pe_export_field L img (pe_AddressOfFunctions L)),
      pe_pOrds = p + of_nat (pe_export_field L img (pe_AddressOfNameOrdinals L)), pe_count = (of_nat ?n :: u32)\<rparr>"
  have i: "dlSymsInit_pe L mods os (Some path) st = Inr (Some s, dl_alloc st1)"
    unfolding s_def using f ok m l by (rule pe_init_file)
  have "?n < 2 ^ 31" using ok by (simp add: pe_ok_def)
  then have "sint (of_nat ?n :: u32) = int ?n" unfolding pe_export_field_def
    by (subst sint_small) (simp_all add: unat_field_4)
  then have c: "dlSymsCount_pe (Some s) = int (length (pe_names L img))"
    by (simp add: dlSymsCount_pe_def s_def pe_names_def)
  have n: "\<exists>a. dlSymsName_pe mods (Some s) (int j) (dl_alloc st1) = Inr a \<and> a \<noteq> 0 \<and> load_string mods a = Some (pe_names L img ! j)"
    if "j < length (pe_names L img)" for j
    using pe_name_file [OF f ok, of j s "dl_alloc st1"] that by (simp add: pe_names_def s_def)
  have "dlSymsCleanup_pe (Some s) (dl_alloc st1) = st" using pe_reader_unbalanced [OF i l] by simp
  with i c n mods show "\<exists>r st'. dlSymsInit_pe L mods os (Some path) st = Inr (r, st') \<and>
    dlSymsCount_pe r = int (length (pe_names L (snd (hd mods)))) \<and>
    (\<forall>j<length (pe_names L (snd (hd mods))). \<exists>a. dlSymsName_pe mods r (int j) st' = Inr a \<and> a \<noteq> 0 \<and>
       load_string mods a = Some (pe_names L (snd (hd mods)) ! j)) \<and> dlSymsCleanup_pe r st' = st"
    by auto
qed

end
