(* ===== verification/Affix_Lib.thy ===== *)
theory Affix_Lib
  imports Dyn_Modules
begin

section \<open>Libraries in Perl\<close>

text \<open>
  The functions of \<open>Affix\<close> and \<open>Affix::Lib\<close> over libraries (\<open>Affix.cxx\<close>, \<open>Affix/Lib.cxx\<close>) on top of \<open>Dyn_Load\<close>, \<open>Dyn_Elf\<close> and \<open>Dyn_Modules\<close>. \<open>dl_target\<close> is the
  choice of an implementation at compile time. What Perl passes is \<open>lib_arg\<close>; an object has a class, the integer in its
  referent and the string that \<open>SvPV_nolen\<close> makes of it. The result is \<open>xs\<close>, with \<open>croak\<close> as one of its values; what
  the C language leaves undefined is a \<open>dl_fault\<close>.
\<close>

subsection \<open>The library of the platform\<close>

datatype dl_target = Dl_dlinfo | Dl_Darwin | Dl_phdr | Dl_dladdr | Dl_Windows

definition dlLoadLibrary ::
  "dl_target \<Rightarrow> 'p::len word dl_os \<Rightarrow> cstr option \<Rightarrow> 'p word dl_state \<Rightarrow> 'p word \<times> 'p word dl_state" where
  "dlLoadLibrary t = (if t = Dl_Windows then dlLoadLibrary_windows else dlLoadLibrary_unix)"

definition dlFindSymbol :: "dl_target \<Rightarrow> 'p::len word dl_os \<Rightarrow> 'p word \<Rightarrow> cstr \<Rightarrow> 'p word" where
  "dlFindSymbol t = (if t = Dl_Windows then dlFindSymbol_windows else dlFindSymbol_unix)"

definition dlFreeLibrary :: "dl_target \<Rightarrow> 'p::len word \<Rightarrow> 'p word dl_state \<Rightarrow> 'p word dl_state" where
  "dlFreeLibrary t = (if t = Dl_Windows then dlFreeLibrary_windows else dlFreeLibrary_unix)"

fun dlGetLibraryPath ::
  "dl_target \<Rightarrow> 'p::len word dl_os \<Rightarrow> 'p word \<Rightarrow> byte list \<Rightarrow> int \<Rightarrow> 'p word dl_state \<Rightarrow> int \<times> byte list \<times> 'p word dl_state" where
  "dlGetLibraryPath Dl_dlinfo os h buf n st = dlGetLibraryPath_dlinfo os h buf n st"
| "dlGetLibraryPath Dl_Darwin os h buf n st = dlGetLibraryPath_darwin os h buf n st"
| "dlGetLibraryPath Dl_phdr os h buf n st = dlGetLibraryPath_phdr os h buf n st"
| "dlGetLibraryPath Dl_dladdr os h buf n st = dlGetLibraryPath_dladdr os h buf n st"
| "dlGetLibraryPath Dl_Windows os h buf n st = the (dlGetLibraryPath_windows os h buf n st)"

fun path_of_library :: "dl_target \<Rightarrow> 'p::len word dl_os \<Rightarrow> 'p word \<Rightarrow> cstr option" where
  "path_of_library Dl_dlinfo os h = dlinfo_path os h"
| "path_of_library Dl_Darwin os h = darwin_path os h"
| "path_of_library Dl_phdr os h = phdr_path os h"
| "path_of_library Dl_dladdr os h = dladdr_path os h"
| "path_of_library Dl_Windows os h = windows_path os h 6"

interpretation lib: library_path "dlGetLibraryPath t os h" "path_of_library t os h" for t and os :: "'p::len word dl_os" and h
proof
  fix buf :: "byte list" and n :: int and st
  show "path_of_library t os h = None \<Longrightarrow> dlGetLibraryPath t os h buf n st = (0, buf, st)"
    using dlinfo.unknown darwin.unknown phdr.unknown dladdr.unknown windows.unknown by (cases t) simp_all
next
  fix p buf :: "byte list" and n :: int and st
  assume "path_of_library t os h = Some p" and "n \<le> int (length buf)" and "int (length p) < n"
  then show "dlGetLibraryPath t os h buf n st = (int (length p) + 1, p @ [0] @ drop (length p + 1) buf, st)"
    using dlinfo.known darwin.known phdr.known dladdr.known windows.known by (cases t) simp_all
next
  fix p buf :: "byte list" and n :: int and st
  assume "path_of_library t os h = Some p" and "n \<le> int (length buf)" and "n \<le> int (length p)"
  then show "\<exists>buf'. dlGetLibraryPath t os h buf n st = (int (length p) + 1, buf', st) \<and> (buf' = buf \<or> buf' = 0 # drop 1 buf)"
    using dlinfo.too_long darwin.too_long phdr.too_long dladdr.too_long windows.too_long
    by (cases t) (simp_all only: dlGetLibraryPath.simps path_of_library.simps)
qed

subsection \<open>The functions\<close>

datatype perl_class = Affix_Lib | Path_Tiny | OtherClass

datatype 'a lib_arg = Lib_undef (readonly: bool) | Lib_str cstr | Lib_ref perl_class 'a cstr

fun lib_string :: "'a lib_arg \<Rightarrow> cstr" where
  "lib_string (Lib_undef _) = []"
| "lib_string (Lib_str s) = s"
| "lib_string (Lib_ref _ _ s) = s"

datatype 'a xs =
    Xs_croak string
  | Xs_undef
  | Xs_empty
  | Xs_library 'a
  | Xs_pointer 'a
  | Xs_string cstr
  | Xs_list "cstr list"

text \<open>\<open>mac\<close> is \<open>DC__OS_MacOSX\<close>.\<close>

definition load_library ::
  "dl_target \<Rightarrow> bool \<Rightarrow> 'p::len word dl_os \<Rightarrow> cstr option \<Rightarrow> 'p word dl_state \<Rightarrow> 'p word \<times> 'p word dl_state" where
  "load_library t mac os lib st =
     (if t = Dl_Windows \<or> mac then dlLoadLibrary t os lib st else dlopen os lib st)"

definition free_library :: "dl_target \<Rightarrow> 'p::len word \<Rightarrow> 'p word dl_state \<Rightarrow> 'p word dl_state" where
  "free_library t lib st = dlFreeLibrary t lib st"

definition find_symbol :: "dl_target \<Rightarrow> 'p::len word dl_os \<Rightarrow> 'p word \<Rightarrow> cstr \<Rightarrow> 'p word" where
  "find_symbol t os lib name = dlFindSymbol t os lib name"

definition Affix_load_library ::
  "dl_target \<Rightarrow> bool \<Rightarrow> 'p::len word dl_os \<Rightarrow> 'p word lib_arg \<Rightarrow> 'p word dl_state \<Rightarrow> 'p word xs \<times> 'p word dl_state" where
  "Affix_load_library t mac os a st =
     (let (lib, st) = load_library t mac os (if a = Lib_undef True then None else Some (lib_string a)) st
      in if lib = 0 then (Xs_undef, st) else (Xs_library lib, st))"

definition Affix_free_library ::
  "dl_target \<Rightarrow> 'p::len word lib_arg \<Rightarrow> 'p word dl_state \<Rightarrow> 'p word xs \<times> 'p word dl_state" where
  "Affix_free_library t a st =
     (case a of
        Lib_ref _ lib _ \<Rightarrow> (Xs_empty, if lib \<noteq> 0 then free_library t lib st else st)
      | _ \<Rightarrow> (Xs_croak ''lib is not of type Affix::Lib'', st))"

definition Affix_find_symbol ::
  "dl_target \<Rightarrow> bool \<Rightarrow> 'p::len word dl_os \<Rightarrow> 'p word lib_arg \<Rightarrow> cstr \<Rightarrow> 'p word dl_state \<Rightarrow> 'p word xs \<times> 'p word dl_state" where
  "Affix_find_symbol t mac os a symbol st =
     (let (lib, st) =
        (case a of
           Lib_undef True \<Rightarrow> load_library t mac os None st
         | Lib_undef False \<Rightarrow> (0, st)
         | Lib_str s \<Rightarrow> load_library t mac os (Some s) st
         | Lib_ref c lib s \<Rightarrow>
             (case c of
                Affix_Lib \<Rightarrow> (lib, st)
              | Path_Tiny \<Rightarrow> load_library t mac os (Some s) st
              | OtherClass \<Rightarrow> (0, st)))
      in if lib = 0 then (Xs_undef, st)
         else
           (let st = dl_alloc st; lib_handle = find_symbol t os lib symbol
            in if lib_handle = 0 then (Xs_croak ''Failed to load lib'', st) else (Xs_pointer lib_handle, st)))"

text \<open>The names in the loop over the symbols; \<open>strlen\<close> gets what \<open>dlSymsName\<close> returns, \<open>NULL\<close> or not.\<close>

fun symbol_loop :: "(int \<Rightarrow> dl_fault + 'a::zero) \<Rightarrow> ('a \<Rightarrow> cstr option) \<Rightarrow> nat list \<Rightarrow> dl_fault + cstr list" where
  "symbol_loop name str [] = Inr []"
| "symbol_loop name str (i # is) =
     (case name (int i) of
        Inl f \<Rightarrow> Inl f
      | Inr symbolName \<Rightarrow>
          if symbolName = 0 then Inl Dl_Segv
          else
            (case str symbolName of
               None \<Rightarrow> Inl Dl_Segv
             | Some s \<Rightarrow> map_sum id (\<lambda>ss. if s \<noteq> [] then s # ss else ss) (symbol_loop name str is)))"

definition Affix_list_symbols ::
  "dl_target \<Rightarrow> (cstr \<Rightarrow> 'p::len word dl_state \<Rightarrow> dl_fault + 'r \<times> 'p word dl_state) \<Rightarrow> ('r \<Rightarrow> int) \<Rightarrow>
     ('r \<Rightarrow> int \<Rightarrow> 'p word dl_state \<Rightarrow> dl_fault + 'p word) \<Rightarrow> ('p word dl_state \<Rightarrow> 'p word \<Rightarrow> cstr option) \<Rightarrow>
     ('r \<Rightarrow> 'p word dl_state \<Rightarrow> 'p word dl_state) \<Rightarrow> 'p word dl_os \<Rightarrow> 'p word lib_arg \<Rightarrow> 'p word dl_state \<Rightarrow>
     dl_fault + 'p word xs \<times> 'p word dl_state" where
  "Affix_list_symbols t dlSymsInit dlSymsCount dlSymsName str dlSymsCleanup os a st =
     (case a of
        Lib_ref _ lib _ \<Rightarrow>
          (let st = dl_alloc st;
             (len, name, st) = dlGetLibraryPath t os lib (replicate 1024 0) 1024 st
           in if len = 0 then Inr (Xs_croak ''Failed to get library name'', st)
              else
                (case dlSymsInit (takeWhile (\<lambda>b. b \<noteq> 0) name) st of
                   Inl f \<Rightarrow> Inl f
                 | Inr (syms, st) \<Rightarrow>
                     map_sum id (\<lambda>ss. (Xs_list ss, dl_free (dlSymsCleanup syms st)))
                       (symbol_loop (\<lambda>i. dlSymsName syms i st) (str st) [0..<nat (dlSymsCount syms)])))
      | _ \<Rightarrow> Inr (Xs_croak ''lib is not of type Affix::Lib'', st))"

text \<open>\<open>newSVpv\<close> takes the length from \<open>strlen\<close> when it is zero, otherwise it copies that many bytes of the buffer.\<close>

definition Affix_Lib_path ::
  "dl_target \<Rightarrow> 'p::len word dl_os \<Rightarrow> 'p word lib_arg \<Rightarrow> 'p word dl_state \<Rightarrow> dl_fault + 'p word xs \<times> 'p word dl_state" where
  "Affix_Lib_path t os a st =
     (case a of
        Lib_ref Affix_Lib lib _ \<Rightarrow>
          (let st = dl_alloc st;
             (len, name, st) = dlGetLibraryPath t os lib (replicate 1024 0) 1024 st
           in if len = 0 then Inr (Xs_croak ''Failed to get library name'', st)
              else if int (length name) < len - 1 then Inl Dl_Overread
              else Inr (Xs_string (if len - 1 = 0 then takeWhile (\<lambda>b. b \<noteq> 0) name else take (nat (len - 1)) name), dl_free st))
      | _ \<Rightarrow> Inr (Xs_croak ''lib is not of type Affix::Lib'', st))"

text \<open>\<open>cache\<close> is the hash \<open>Affix::Cache::Symbol::<path>\<close> of Perl, which nothing in Affix fills; \<open>hv_iternext\<close> without a hash
  is an access to \<open>NULL\<close>.\<close>

definition Affix_Lib_list_unmangled_symbols ::
  "dl_target \<Rightarrow> (cstr \<Rightarrow> cstr list option) \<Rightarrow> 'p::len word dl_os \<Rightarrow> 'p word lib_arg \<Rightarrow> 'p word dl_state \<Rightarrow>
     dl_fault + 'p word xs \<times> 'p word dl_state" where
  "Affix_Lib_list_unmangled_symbols t cache os a st =
     (case a of
        Lib_ref Affix_Lib lib _ \<Rightarrow>
          (let st = dl_alloc st;
             (len, name, st) = dlGetLibraryPath t os lib (replicate 1024 0) 1024 st
           in if len = 0 then Inr (Xs_croak ''Failed to get library name'', st)
              else
                (case cache (takeWhile (\<lambda>b. b \<noteq> 0) name) of
                   None \<Rightarrow> Inl Dl_Segv
                 | Some syms \<Rightarrow> Inr (Xs_list syms, st)))
      | _ \<Rightarrow> Inr (Xs_croak ''lib is not of type Affix::Lib'', st))"

subsection \<open>Paths\<close>

text \<open>C39: \<open>Affix::Lib::path\<close> on every platform: the path of the library when the buffer of 1024 bytes holds it with its zero, and then
  nothing has changed; an exception, with the buffer lost, when there is no path; a string of zeros for a path of exactly 1024
  bytes, and a read beyond the buffer for a longer one.\<close>

theorem lib_path_complete:
  "Affix_Lib_path t os (Lib_ref Affix_Lib h s) st =
     (case path_of_library t os h of
        None \<Rightarrow> Inr (Xs_croak ''Failed to get library name'', dl_alloc st)
      | Some p \<Rightarrow>
          if length p < 1024 then Inr (Xs_string p, st)
          else if length p = 1024 then Inr (Xs_string (replicate 1024 0), st)
          else Inl Dl_Overread)"
proof (cases "path_of_library t os h")
  case None
  then show ?thesis by (simp add: Affix_Lib_path_def lib.unknown)
next
  case (Some p)
  show ?thesis
  proof (cases "length p < 1024")
    case True
    with lib.known [OF Some, where n = 1024 and buf = "replicate 1024 0"] Some show ?thesis
      by (cases "p = []") (auto simp: Affix_Lib_path_def)
  next
    case False
    with lib.too_long [OF Some, of 1024 "replicate 1024 0" "dl_alloc st"]
    obtain buf where b: "dlGetLibraryPath t os h (replicate 1024 0) 1024 (dl_alloc st) = (int (length p) + 1, buf, dl_alloc st)"
      "buf = replicate 1024 0 \<or> buf = 0 # drop 1 (replicate 1024 0)"
      by (auto)
    have "0 # drop 1 (replicate 1024 (0::byte)) = replicate 1024 0"
      using replicate_Suc [of 1023 "0::byte"] by (simp add: drop_replicate)
    with b(2) have "buf = replicate 1024 0" by auto
    with b(1) Some False show ?thesis
      by (auto simp: Affix_Lib_path_def)
  qed
qed


subsection \<open>Symbols\<close>

lemma symbol_loop_names:
  assumes "\<forall>i\<in>set is. \<exists>a. g (int i) = Inr a \<and> a \<noteq> 0 \<and> s a = Some (ns ! i)"
  shows "symbol_loop g s is = Inr (filter (\<lambda>x. x \<noteq> []) (map ((!) ns) is))"
  using assms by (induction "is") auto

context symbol_reader begin

lemma list_all_symbols:
  assumes "ok path st"
  shows "\<exists>r st'. init path st = Inr (r, st') \<and> cleanup r st' = st \<and>
    symbol_loop (\<lambda>i. name r i st') (str st') [0..<nat (count r)] = Inr (filter (\<lambda>x. x \<noteq> []) (names path))"
proof -
  from reads [OF assms] obtain r st' where r: "init path st = Inr (r, st')" "count r = int (length (names path))"
    "\<forall>j<length (names path). \<exists>a. name r (int j) st' = Inr a \<and> a \<noteq> 0 \<and> str st' a = Some (names path ! j)"
    "cleanup r st' = st" by blast
  from r(3) symbol_loop_names [of "[0..<length (names path)]" "\<lambda>i. name r i st'" "str st'" "names path"]
  have "symbol_loop (\<lambda>i. name r i st') (str st') [0..<length (names path)] = Inr (filter (\<lambda>x. x \<noteq> []) (names path))"
    by (simp add: map_nth)
  with r show ?thesis by auto
qed

end

abbreviation list_elf_symbols ::
  "dl_target \<Rightarrow> endian \<Rightarrow> elf_layout \<Rightarrow> 'p::len word dl_os \<Rightarrow> 'p word lib_arg \<Rightarrow> 'p word dl_state \<Rightarrow>
     dl_fault + 'p word xs \<times> 'p word dl_state" where
  "list_elf_symbols t e L os \<equiv>
     Affix_list_symbols t (dlSymsInit_elf e L os) dlSymsCount_elf (dlSymsName_elf e L) (\<lambda>st. load_string (dl_maps st)) dlSymsCleanup_elf os"

lemma list_symbols_from:
  assumes "path_of_library t os h = Some p" and "length p < 1024" and "0 \<notin> set p"
    and "dlSymsInit p (dl_alloc st) = Inr (r, st')" and "dlSymsCleanup r st' = dl_alloc st"
    and "symbol_loop (\<lambda>i. dlSymsName r i st') (str st') [0..<nat (dlSymsCount r)] = Inr ns"
  shows "Affix_list_symbols t dlSymsInit dlSymsCount dlSymsName str dlSymsCleanup os (Lib_ref c h s) st = Inr (Xs_list ns, st)"
proof -
  from lib.zeroed_buffer [OF assms(1,3), of 1024] assms(2) obtain buf where
    b: "dlGetLibraryPath t os h (replicate 1024 0) 1024 (dl_alloc st) = (int (length p) + 1, buf, dl_alloc st)"
      "takeWhile (\<lambda>b. b \<noteq> 0) buf = p"
    by force
  then show ?thesis by (simp add: Affix_list_symbols_def assms(4-6))
qed

text \<open>C38: \<open>Affix::list_symbols\<close> of a library with a path of less than 1024 bytes whose file is a readable ELF file gives exactly
  the nonempty names of its first table of dynamic symbols, in their order, and leaves references, descriptors, mappings
  and memory as they were.\<close>

theorem lists_elf_symbols:
  assumes "path_of_library t os h = Some p" and "length p < 1024" and "0 \<notin> set p"
    and "elf_readable e L os p (dl_alloc st)"
  shows "list_elf_symbols t e L os (Lib_ref c h s) st =
    Inr (Xs_list (filter (\<lambda>x. x \<noteq> []) (elf_file_names e L os p)), st)"
proof -
  from elf.list_all_symbols [OF assms(4)] obtain r st' where r: "dlSymsInit_elf e L os p (dl_alloc st) = Inr (r, st')"
    "dlSymsCleanup_elf r st' = dl_alloc st"
    "symbol_loop (\<lambda>i. dlSymsName_elf e L r i st') (load_string (dl_maps st')) [0..<nat (dlSymsCount_elf r)] =
      Inr (filter (\<lambda>x. x \<noteq> []) (elf_file_names e L os p))" by blast
  with assms(1-3) show ?thesis by (intro list_symbols_from)
qed

text \<open>The same on Windows, where the library is loaded for the time of the call.\<close>

lemma lists_pe_symbols:
  assumes "path_of_library t os h = Some p" and "length p < 1024" and "0 \<notin> set p"
    and "pe_readable L mods os p (dl_alloc st)"
  shows "Affix_list_symbols t (\<lambda>path. dlSymsInit_pe L mods os (Some path)) dlSymsCount_pe (dlSymsName_pe mods) (\<lambda>st. load_string mods)
      dlSymsCleanup_pe os (Lib_ref c h s) st =
    Inr (Xs_list (filter (\<lambda>x. x \<noteq> []) (pe_names L (snd (hd mods)))), st)"
proof -
  from pe.list_all_symbols [OF assms(4)] obtain r st' where "dlSymsInit_pe L mods os (Some p) (dl_alloc st) = Inr (r, st')"
    "dlSymsCleanup_pe r st' = dl_alloc st"
    "symbol_loop (\<lambda>i. dlSymsName_pe mods r i st') (load_string mods) [0..<nat (dlSymsCount_pe r)] =
      Inr (filter (\<lambda>x. x \<noteq> []) (pe_names L (snd (hd mods))))" by blast
  with assms(1-3) show ?thesis by (intro list_symbols_from)
qed


text \<open>A small 32-bit file with three symbols (the first has no name, as always), and a system that has it loaded at \<open>h = 0x1000\<close>.\<close>

definition elf32 :: elf_layout where
  "elf32 = \<lparr>elf_class = 1, elf_ptr = 4, e_phoff = 28, e_shoff = 32, e_shnum = 48, sh_bytes = 40, sh_type = 4, sh_offset = 16,
     sh_size = 20, sh_entsize = 36, sym_bytes = 16, st_name = 0\<rparr>"

definition demo_elf :: "byte list" where
  "demo_elf =
  [127, 69, 76, 70, 1, 0, 0, 0, 0, 0, 0, 0, 0, 0, 0, 0, 0, 0, 0, 0,
   0, 0, 0, 0, 0, 0, 0, 0, 52, 0, 0, 0, 52, 0, 0, 0, 0, 0, 0, 0,
   0, 0, 0, 0, 0, 0, 0, 0, 3, 0, 0, 0, 0, 0, 0, 0, 0, 0, 0, 0,
   0, 0, 0, 0, 0, 0, 0, 0, 0, 0, 0, 0, 0, 0, 0, 0, 0, 0, 0, 0,
   0, 0, 0, 0, 0, 0, 0, 0, 0, 0, 0, 0, 0, 0, 0, 0, 3, 0, 0, 0,
   0, 0, 0, 0, 0, 0, 0, 0, 172, 0, 0, 0, 8, 0, 0, 0, 0, 0, 0, 0,
   0, 0, 0, 0, 0, 0, 0, 0, 0, 0, 0, 0, 0, 0, 0, 0, 11, 0, 0, 0,
   0, 0, 0, 0, 0, 0, 0, 0, 180, 0, 0, 0, 48, 0, 0, 0, 0, 0, 0, 0,
   0, 0, 0, 0, 0, 0, 0, 0, 16, 0, 0, 0, 0, 102, 111, 111, 0, 98, 97, 0,
   0, 0, 0, 0, 0, 0, 0, 0, 0, 0, 0, 0, 0, 0, 0, 0, 1, 0, 0, 0,
   0, 0, 0, 0, 0, 0, 0, 0, 0, 0, 0, 0, 5, 0, 0, 0, 0, 0, 0, 0,
   0, 0, 0, 0, 0, 0, 0, 0]"

definition demo_dl :: "u32 dl_os" where
  "demo_dl = \<lparr>os_load = (\<lambda>n. 0x1000), os_loaded = (\<lambda>n. if n = [97] then 0x1000 else 0x2000), os_sym = (\<lambda>h n. 0x1234),
     os_objects = [\<lparr>dlpi_addr = 0, dlpi_name = [], dlpi_phdr = []\<rparr>, \<lparr>dlpi_addr = 0x1000, dlpi_name = [97], dlpi_phdr = []\<rparr>],
     os_images = [], os_dladdr = (\<lambda>a. None), os_link_map = (\<lambda>h. None),
     os_file = (\<lambda>n. if n = [97] then Some demo_elf else None), os_fd = (\<lambda>n fds. Some (length fds + 3)),
     os_mmap = (\<lambda>fd n. Some 0x7000), os_page = 4096, os_malloc = (\<lambda>n. True), os_program = 0x400, os_wide = (\<lambda>n. 0), os_wide_fill = (\<lambda>n r. []),
     os_utf8 = (\<lambda>n. None), os_loadW = (\<lambda>n. 0), os_module_name = (\<lambda>h. [])\<rparr>"

definition demo_dl_state :: "u32 dl_state" where
  "demo_dl_state = \<lparr>dl_refs = (\<lambda>h. 1), dl_maps = [], dl_fds = [], dl_blocks = 0\<rparr>"

lemma elf32_fields:
  "elf_class elf32 = 1" "elf_ptr elf32 = 4" "e_phoff elf32 = 28" "e_shoff elf32 = 32" "e_shnum elf32 = 48" "sh_bytes elf32 = 40"
  "sh_type elf32 = 4" "sh_offset elf32 = 16" "sh_size elf32 = 20" "sh_entsize elf32 = 36" "sym_bytes elf32 = 16" "st_name elf32 = 0"
  by (simp_all add: elf32_def)

lemmas demo_elf_eval = elf_field_def elf32_fields demo_elf_def obj_word_def ord_bytes_def

lemma demo_elf_length: "length demo_elf = 228"
  by (simp add: demo_elf_def)

lemma demo_elf_header: "elf_shoff LE elf32 demo_elf = 52" "elf_shnum LE elf32 demo_elf = 3"
  by (simp_all add: elf_shoff_def elf_shnum_def demo_elf_eval)

lemma demo_elf_types: "sec_type LE elf32 demo_elf 1 = 3" "sec_type LE elf32 demo_elf 2 = 11"
  by (simp_all only: sec_type_def demo_elf_header elf32_fields, simp_all add: demo_elf_eval)

lemma demo_elf_sections:
  "first_section LE elf32 demo_elf 11 = Some 2" "first_section LE elf32 demo_elf 3 = Some 1"
proof -
  have "[1..<3] = [1, 2 :: nat]" by (simp add: upt_rec)
  then show "first_section LE elf32 demo_elf 11 = Some 2" "first_section LE elf32 demo_elf 3 = Some 1"
    using demo_elf_types by (simp_all only: first_section_def demo_elf_header find.simps) simp_all
qed

lemma demo_elf_fields:
  "sec_field LE elf32 demo_elf 36 2 = 16" "sec_field LE elf32 demo_elf 20 2 = 48" "sec_field LE elf32 demo_elf 16 2 = 180"
  "sec_field LE elf32 demo_elf 16 1 = 172" "sec_field LE elf32 demo_elf 20 1 = 8"
  by (simp_all only: sec_field_def demo_elf_header elf32_fields, simp_all add: demo_elf_eval)

lemma demo_elf_symbols:
  "sym_name LE elf32 demo_elf 2 0 = 0" "sym_name LE elf32 demo_elf 2 1 = 1" "sym_name LE elf32 demo_elf 2 2 = 5"
  by (simp_all only: sym_name_def demo_elf_fields elf32_fields, simp_all add: demo_elf_eval)

lemma demo_elf_names: "elf_names LE elf32 demo_elf = [[], [102, 111, 111], [98, 97]]"
proof -
  have "sym_count LE elf32 demo_elf 2 = 3" by (simp add: sym_count_def demo_elf_fields elf32_fields)
  moreover have "[0..<3] = [0, 1, 2 :: nat]" by (simp add: upt_rec)
  ultimately have "elf_names LE elf32 demo_elf = map (\<lambda>k. takeWhile (\<lambda>b. b \<noteq> 0) (drop k demo_elf)) [172, 173, 177]"
    by (simp only: elf_names_def demo_elf_sections demo_elf_fields demo_elf_symbols elf32_fields option.case prod.case list.map) simp
  then show ?thesis by (simp add: demo_elf_def)
qed

lemma demo_elf_ok: "elf_ok LE elf32 demo_elf"
proof -
  have "elf_header_ok LE elf32 demo_elf"
    by (simp add: elf_header_ok_def demo_elf_header demo_elf_length EI_CLASS_def) (simp add: demo_elf_eval)
  moreover have c: "sym_count LE elf32 demo_elf 2 = 3"
    by (simp add: sym_count_def demo_elf_fields elf32_fields)
  moreover have "0 \<in> set (drop (172 + sym_name LE elf32 demo_elf 2 j) demo_elf) \<and> sym_name LE elf32 demo_elf 2 j < 8 \<and>
      sym_name LE elf32 demo_elf 2 j < 2 ^ 31"
    if "j < 3" for j
  proof -
    from that consider "j = 0" | "j = 1" | "j = 2" by linarith
    then show ?thesis by cases (simp_all only: demo_elf_symbols, simp_all add: demo_elf_def)
  qed
  ultimately show ?thesis
    by (simp add: elf_ok_def elf_symbols_ok_def demo_elf_sections demo_elf_fields demo_elf_fields [unfolded One_nat_def] demo_elf_length elf32_fields)
qed

lemma demo_elf_readable: "elf_readable LE elf32 demo_dl [97] (dl_alloc demo_dl_state)"
  using demo_elf_ok
  by (simp add: elf_readable_def demo_dl_def dl_alloc_def demo_dl_state_def elf_layout_ok_def elf32_fields demo_elf_length round_up_def)

theorem lists_elf_symbols_witness:
  "list_elf_symbols Dl_phdr LE elf32 demo_dl (Lib_ref Affix_Lib 0x1000 []) demo_dl_state =
    Inr (Xs_list [[102, 111, 111], [98, 97]], demo_dl_state)"
proof -
  have "path_of_library Dl_phdr demo_dl 0x1000 = Some [97]" by (simp add: phdr_path_def demo_dl_def)
  from lists_elf_symbols [OF this _ _ demo_elf_readable, of Affix_Lib "[]"] show ?thesis
    by (simp add: elf_file_names_def demo_dl_def demo_elf_names)
qed

subsection \<open>Loading, looking up and freeing\<close>

lemma load_library_state:
  assumes "load_library t mac os (Some path) st = (h, st')"
  shows "st' = count_ref h st"
  using assms
  by (auto simp: load_library_def dlLoadLibrary_def dlLoadLibrary_unix_def dlopen_def dlLoadLibrary_windows_def Let_def
      split: if_splits option.splits)

lemma free_library_count: "h \<noteq> 0 \<Longrightarrow> free_library t h (count_ref h st) = st"
  by (simp add: free_library_def dlFreeLibrary_def dlFreeLibrary_windows_def dlFreeLibrary_unix_def)

lemma find_symbol_state:
  "h \<noteq> 0 \<Longrightarrow> snd (Affix_find_symbol t mac os (Lib_ref Affix_Lib h s) n st) = dl_alloc st"
  by (simp add: Affix_find_symbol_def Let_def)

lemma dl_alloc_pow: "(dl_alloc ^^ n) st = st\<lparr>dl_blocks := dl_blocks st + n\<rparr>"
  by (induction n) (simp_all add: dl_alloc_def)

lemma count_ref_alloc: "(dl_alloc ^^ n) (count_ref h st) = count_ref h ((dl_alloc ^^ n) st)"
  by (simp add: dl_alloc_pow count_ref_def)

text \<open>C40: the life of a library, on every platform: when \<open>Affix::load_library\<close> gives an object for a path, any number of lookups of symbols
  and a \<open>free_library\<close> leave the references as they were before (the handle is released once); but every lookup, whether it finds its
  symbol or dies, leaves a block of memory behind.\<close>

theorem library_life:
  assumes "Affix_load_library t mac os (Lib_str path) st = (Xs_library h, st1)"
  shows "Affix_free_library t (Lib_ref Affix_Lib h s)
      (fold (\<lambda>n st. snd (Affix_find_symbol t mac os (Lib_ref Affix_Lib h s) n st)) symbols st1) =
    (Xs_empty, st\<lparr>dl_blocks := dl_blocks st + length symbols\<rparr>)"
proof -
  obtain h' st' where l: "load_library t mac os (Some path) st = (h', st')" by fastforce
  with assms have h: "h' = h" "st1 = st'" "h \<noteq> 0" by (auto simp: Affix_load_library_def split: if_splits)
  with load_library_state [OF l] have "st1 = count_ref h st" by simp
  moreover have "fold (\<lambda>n st. snd (Affix_find_symbol t mac os (Lib_ref Affix_Lib h s) n st)) symbols x =
      (dl_alloc ^^ length symbols) x" for x
    using h(3) by (induction symbols arbitrary: x) (simp_all add: find_symbol_state funpow_swap1)
  ultimately show ?thesis
    using h(3) by (simp add: Affix_free_library_def free_library_count count_ref_alloc) (simp add: dl_alloc_pow)
qed

theorem library_life_witness:
  "snd (Affix_free_library Dl_phdr (Lib_ref Affix_Lib 0x1000 [])
      (fold (\<lambda>n st. snd (Affix_find_symbol Dl_phdr False demo_dl (Lib_ref Affix_Lib 0x1000 []) n st)) [[102], [98]]
        (snd (Affix_load_library Dl_phdr False demo_dl (Lib_str [97]) demo_dl_state)))) = demo_dl_state\<lparr>dl_blocks := 2\<rparr>"
proof -
  have "Affix_load_library Dl_phdr False demo_dl (Lib_str [97]) demo_dl_state =
      (Xs_library 0x1000, count_ref 0x1000 demo_dl_state)"
    by (simp add: Affix_load_library_def load_library_def dlopen_def demo_dl_def)
  from library_life [OF this, of "[]" "[[102], [98]]"] show ?thesis
    by (simp add: \<open>Affix_load_library _ _ _ _ _ = _\<close>) (simp add: demo_dl_state_def)
qed

text \<open>What the code does with a symbol without a name in the table of strings: \<open>strlen\<close> of \<open>NULL\<close>.\<close>

lemma nameless_symbol_crashes:
  assumes "i \<in> set is" and "name (int i) = Inr 0" and "\<forall>j\<in>set is. \<exists>a. name (int j) = Inr a"
  shows "symbol_loop name str is = Inl Dl_Segv"
  using assms by (induction "is") (auto split: option.splits)

end
