(* ===== verification/Dyn_Signature.thy ===== *)
theory Dyn_Signature
  imports Dyn_Prelude
begin

section \<open>Signature characters and calling convention modes\<close>

text \<open>
  The constants of \<open>dyncall/dyncall/dyncall_signature.h\<close> and the mode numbers of
  \<open>dyncall/dyncall/dyncall.h\<close>, as abbreviations, and the one function between them,
  \<open>dcGetModeFromCCSigChar\<close> of \<open>dyncall_api.c\<close>. A C string is the list of its characters before
  the terminating NUL.
\<close>

abbreviation DC_SIGCHAR_VOID :: char where "DC_SIGCHAR_VOID \<equiv> CHR ''v''"
abbreviation DC_SIGCHAR_BOOL :: char where "DC_SIGCHAR_BOOL \<equiv> CHR ''B''"
abbreviation DC_SIGCHAR_CHAR :: char where "DC_SIGCHAR_CHAR \<equiv> CHR ''c''"
abbreviation DC_SIGCHAR_UCHAR :: char where "DC_SIGCHAR_UCHAR \<equiv> CHR ''C''"
abbreviation DC_SIGCHAR_SHORT :: char where "DC_SIGCHAR_SHORT \<equiv> CHR ''s''"
abbreviation DC_SIGCHAR_USHORT :: char where "DC_SIGCHAR_USHORT \<equiv> CHR ''S''"
abbreviation DC_SIGCHAR_INT :: char where "DC_SIGCHAR_INT \<equiv> CHR ''i''"
abbreviation DC_SIGCHAR_UINT :: char where "DC_SIGCHAR_UINT \<equiv> CHR ''I''"
abbreviation DC_SIGCHAR_LONG :: char where "DC_SIGCHAR_LONG \<equiv> CHR ''j''"
abbreviation DC_SIGCHAR_ULONG :: char where "DC_SIGCHAR_ULONG \<equiv> CHR ''J''"
abbreviation DC_SIGCHAR_LONGLONG :: char where "DC_SIGCHAR_LONGLONG \<equiv> CHR ''l''"
abbreviation DC_SIGCHAR_ULONGLONG :: char where "DC_SIGCHAR_ULONGLONG \<equiv> CHR ''L''"
abbreviation DC_SIGCHAR_FLOAT :: char where "DC_SIGCHAR_FLOAT \<equiv> CHR ''f''"
abbreviation DC_SIGCHAR_DOUBLE :: char where "DC_SIGCHAR_DOUBLE \<equiv> CHR ''d''"
abbreviation DC_SIGCHAR_POINTER :: char where "DC_SIGCHAR_POINTER \<equiv> CHR ''p''"
abbreviation DC_SIGCHAR_STRING :: char where "DC_SIGCHAR_STRING \<equiv> CHR ''Z''"
abbreviation DC_SIGCHAR_AGGREGATE :: char where "DC_SIGCHAR_AGGREGATE \<equiv> CHR ''A''"
abbreviation DC_SIGCHAR_ENDARG :: char where "DC_SIGCHAR_ENDARG \<equiv> CHR '')''"

abbreviation DC_SIGCHAR_CC_PREFIX :: char where "DC_SIGCHAR_CC_PREFIX \<equiv> CHR ''_''"
abbreviation DC_SIGCHAR_CC_DEFAULT :: char where "DC_SIGCHAR_CC_DEFAULT \<equiv> CHR '':''"
abbreviation DC_SIGCHAR_CC_THISCALL :: char where "DC_SIGCHAR_CC_THISCALL \<equiv> CHR ''*''"
abbreviation DC_SIGCHAR_CC_ELLIPSIS :: char where "DC_SIGCHAR_CC_ELLIPSIS \<equiv> CHR ''e''"
abbreviation DC_SIGCHAR_CC_ELLIPSIS_VARARGS :: char where
  "DC_SIGCHAR_CC_ELLIPSIS_VARARGS \<equiv> CHR ''.''"
abbreviation DC_SIGCHAR_CC_CDECL :: char where "DC_SIGCHAR_CC_CDECL \<equiv> CHR ''c''"
abbreviation DC_SIGCHAR_CC_STDCALL :: char where "DC_SIGCHAR_CC_STDCALL \<equiv> CHR ''s''"
abbreviation DC_SIGCHAR_CC_FASTCALL_MS :: char where "DC_SIGCHAR_CC_FASTCALL_MS \<equiv> CHR ''F''"
abbreviation DC_SIGCHAR_CC_FASTCALL_GNU :: char where "DC_SIGCHAR_CC_FASTCALL_GNU \<equiv> CHR ''f''"
abbreviation DC_SIGCHAR_CC_THISCALL_MS :: char where "DC_SIGCHAR_CC_THISCALL_MS \<equiv> CHR ''+''"
abbreviation DC_SIGCHAR_CC_THISCALL_GNU :: char where "DC_SIGCHAR_CC_THISCALL_GNU \<equiv> CHR ''#''"
abbreviation DC_SIGCHAR_CC_ARM_ARM :: char where "DC_SIGCHAR_CC_ARM_ARM \<equiv> CHR ''A''"
abbreviation DC_SIGCHAR_CC_ARM_THUMB :: char where "DC_SIGCHAR_CC_ARM_THUMB \<equiv> CHR ''a''"
abbreviation DC_SIGCHAR_CC_SYSCALL :: char where "DC_SIGCHAR_CC_SYSCALL \<equiv> CHR ''$''"

text \<open>Modes (\<open>dyncall.h\<close>); the names that are aliases there are aliases here.\<close>

abbreviation DC_CALL_C_DEFAULT :: u32 where "DC_CALL_C_DEFAULT \<equiv> 0"
abbreviation DC_CALL_C_DEFAULT_THIS :: u32 where "DC_CALL_C_DEFAULT_THIS \<equiv> 99"
abbreviation DC_CALL_C_ELLIPSIS :: u32 where "DC_CALL_C_ELLIPSIS \<equiv> 100"
abbreviation DC_CALL_C_ELLIPSIS_VARARGS :: u32 where "DC_CALL_C_ELLIPSIS_VARARGS \<equiv> 101"
abbreviation DC_CALL_C_X86_CDECL :: u32 where "DC_CALL_C_X86_CDECL \<equiv> 1"
abbreviation DC_CALL_C_X86_WIN32_STD :: u32 where "DC_CALL_C_X86_WIN32_STD \<equiv> 2"
abbreviation DC_CALL_C_X86_WIN32_FAST_MS :: u32 where "DC_CALL_C_X86_WIN32_FAST_MS \<equiv> 3"
abbreviation DC_CALL_C_X86_WIN32_FAST_GNU :: u32 where "DC_CALL_C_X86_WIN32_FAST_GNU \<equiv> 4"
abbreviation DC_CALL_C_X86_WIN32_THIS_MS :: u32 where "DC_CALL_C_X86_WIN32_THIS_MS \<equiv> 5"
abbreviation DC_CALL_C_X86_WIN32_THIS_GNU :: u32 where
  "DC_CALL_C_X86_WIN32_THIS_GNU \<equiv> DC_CALL_C_X86_CDECL"
abbreviation DC_CALL_C_X64_WIN64 :: u32 where "DC_CALL_C_X64_WIN64 \<equiv> 7"
abbreviation DC_CALL_C_X64_WIN64_THIS :: u32 where "DC_CALL_C_X64_WIN64_THIS \<equiv> 70"
abbreviation DC_CALL_C_X64_SYSV :: u32 where "DC_CALL_C_X64_SYSV \<equiv> 8"
abbreviation DC_CALL_C_PPC32_OSX :: u32 where "DC_CALL_C_PPC32_OSX \<equiv> 9"
abbreviation DC_CALL_C_ARM_ARM_EABI :: u32 where "DC_CALL_C_ARM_ARM_EABI \<equiv> 10"
abbreviation DC_CALL_C_ARM_THUMB_EABI :: u32 where "DC_CALL_C_ARM_THUMB_EABI \<equiv> 11"
abbreviation DC_CALL_C_ARM_ARMHF :: u32 where "DC_CALL_C_ARM_ARMHF \<equiv> 30"
abbreviation DC_CALL_C_MIPS32_EABI :: u32 where "DC_CALL_C_MIPS32_EABI \<equiv> 12"
abbreviation DC_CALL_C_PPC32_SYSV :: u32 where "DC_CALL_C_PPC32_SYSV \<equiv> 13"
abbreviation DC_CALL_C_ARM_ARM :: u32 where "DC_CALL_C_ARM_ARM \<equiv> 14"
abbreviation DC_CALL_C_ARM_THUMB :: u32 where "DC_CALL_C_ARM_THUMB \<equiv> 15"
abbreviation DC_CALL_C_MIPS32_O32 :: u32 where "DC_CALL_C_MIPS32_O32 \<equiv> 16"
abbreviation DC_CALL_C_MIPS64_N32 :: u32 where "DC_CALL_C_MIPS64_N32 \<equiv> 17"
abbreviation DC_CALL_C_MIPS64_N64 :: u32 where "DC_CALL_C_MIPS64_N64 \<equiv> 18"
abbreviation DC_CALL_C_X86_PLAN9 :: u32 where "DC_CALL_C_X86_PLAN9 \<equiv> 19"
abbreviation DC_CALL_C_SPARC32 :: u32 where "DC_CALL_C_SPARC32 \<equiv> 20"
abbreviation DC_CALL_C_SPARC64 :: u32 where "DC_CALL_C_SPARC64 \<equiv> 21"
abbreviation DC_CALL_C_ARM64 :: u32 where "DC_CALL_C_ARM64 \<equiv> 22"
abbreviation DC_CALL_C_PPC64 :: u32 where "DC_CALL_C_PPC64 \<equiv> 23"
abbreviation DC_CALL_SYS_DEFAULT :: u32 where "DC_CALL_SYS_DEFAULT \<equiv> 200"
abbreviation DC_CALL_SYS_X86_INT80H_LINUX :: u32 where "DC_CALL_SYS_X86_INT80H_LINUX \<equiv> 201"
abbreviation DC_CALL_SYS_X86_INT80H_BSD :: u32 where "DC_CALL_SYS_X86_INT80H_BSD \<equiv> 202"
abbreviation DC_CALL_SYS_X64_SYSCALL_SYSV :: u32 where "DC_CALL_SYS_X64_SYSCALL_SYSV \<equiv> 204"
abbreviation DC_CALL_SYS_PPC32 :: u32 where "DC_CALL_SYS_PPC32 \<equiv> 210"
abbreviation DC_CALL_SYS_PPC64 :: u32 where "DC_CALL_SYS_PPC64 \<equiv> 211"

abbreviation DC_ERROR_NONE :: u32 where "DC_ERROR_NONE \<equiv> 0"
abbreviation DC_ERROR_UNSUPPORTED_MODE :: u32 where "DC_ERROR_UNSUPPORTED_MODE \<equiv> - 1"

definition dcGetModeFromCCSigChar :: "char \<Rightarrow> u32" where
  "dcGetModeFromCCSigChar sig_char =
     (if sig_char = DC_SIGCHAR_CC_DEFAULT then DC_CALL_C_DEFAULT
      else if sig_char = DC_SIGCHAR_CC_THISCALL then DC_CALL_C_DEFAULT_THIS
      else if sig_char = DC_SIGCHAR_CC_ELLIPSIS then DC_CALL_C_ELLIPSIS
      else if sig_char = DC_SIGCHAR_CC_ELLIPSIS_VARARGS then DC_CALL_C_ELLIPSIS_VARARGS
      else if sig_char = DC_SIGCHAR_CC_CDECL then DC_CALL_C_X86_CDECL
      else if sig_char = DC_SIGCHAR_CC_STDCALL then DC_CALL_C_X86_WIN32_STD
      else if sig_char = DC_SIGCHAR_CC_FASTCALL_MS then DC_CALL_C_X86_WIN32_FAST_MS
      else if sig_char = DC_SIGCHAR_CC_FASTCALL_GNU then DC_CALL_C_X86_WIN32_FAST_GNU
      else if sig_char = DC_SIGCHAR_CC_THISCALL_MS then DC_CALL_C_X86_WIN32_THIS_MS
      else if sig_char = DC_SIGCHAR_CC_THISCALL_GNU then DC_CALL_C_X86_WIN32_THIS_GNU
      else if sig_char = DC_SIGCHAR_CC_ARM_ARM then DC_CALL_C_ARM_ARM
      else if sig_char = DC_SIGCHAR_CC_ARM_THUMB then DC_CALL_C_ARM_THUMB
      else if sig_char = DC_SIGCHAR_CC_SYSCALL then DC_CALL_SYS_DEFAULT
      else DC_ERROR_UNSUPPORTED_MODE)"

end
