(* ===== verification/Dyn_Aggregate.thy ===== *)
theory Dyn_Aggregate
  imports Dyn_Signature
begin

unbundle bit_operations_syntax

section \<open>Aggregate descriptions and their System V classification\<close>

text \<open>
  \<open>dyncall/dyncall/dyncall_aggregate.{h,c}\<close>: the description of a struct or union that a client
  builds field by field, and \<open>dyncall_aggregate_x64.c\<close>: the classification of its eightbytes that
  decides how the System V x64 call VM passes it. All sizes and offsets are \<open>size_t\<close> words, the
  indices of the classification loops C \<open>int\<close>s, with the conversions between the two written out:
  the loop over the elements of a nested aggregate computes with both.
\<close>

datatype DCaggr =
  DCaggr (ag_size: u64) (ag_alignment: u64) (sysv_classes: "u8 list") (ag_fields: "DCfield list")
and DCfield =
  DCfield (f_offset: u64) (f_size: u64) (f_alignment: u64) (f_array_len: u64) (f_type: char)
    (f_sub: "DCaggr option")

subsection \<open>Building a description\<close>

text \<open>
  \<open>dcNewAggr\<close> allocates room for \<open>maxFieldCount\<close> fields and does not store that number;
  \<open>dcAggrField\<close> appends without a check, so a field too many is a heap overflow. The capacity is a
  ghost field of the builder, an overflow and a failed \<open>assert\<close> are errors. The memory for the
  classes is not initialised: \<open>junk\<close>.
\<close>

record aggr_builder =
  ab_cap :: u64
  ab_aggr :: DCaggr

datatype aggr_error = HeapOverflow | AssertFailed | NullDeref

definition dcNewAggr :: "u8 list \<Rightarrow> u64 \<Rightarrow> u64 \<Rightarrow> aggr_builder" where
  "dcNewAggr junk maxFieldCount sz =
     \<lparr>ab_cap = maxFieldCount, ab_aggr = DCaggr sz 0 junk []\<rparr>"

text \<open>\<open>sizeof\<close> of the C types behind the signature characters, on an AMD64 platform; that of
  \<open>DClong\<close> (8 on Unix, 4 on Windows) is the first argument.\<close>

definition sizeof_sigchar :: "u64 \<Rightarrow> char \<Rightarrow> u64 option" where
  "sizeof_sigchar sizeof_long ty =
     (if ty = DC_SIGCHAR_BOOL then Some 4
      else if ty \<in> {DC_SIGCHAR_CHAR, DC_SIGCHAR_UCHAR} then Some 1
      else if ty \<in> {DC_SIGCHAR_SHORT, DC_SIGCHAR_USHORT} then Some 2
      else if ty \<in> {DC_SIGCHAR_INT, DC_SIGCHAR_UINT} then Some 4
      else if ty \<in> {DC_SIGCHAR_LONG, DC_SIGCHAR_ULONG} then Some sizeof_long
      else if ty \<in> {DC_SIGCHAR_LONGLONG, DC_SIGCHAR_ULONGLONG} then Some 8
      else if ty = DC_SIGCHAR_FLOAT then Some 4
      else if ty = DC_SIGCHAR_DOUBLE then Some 8
      else if ty \<in> {DC_SIGCHAR_POINTER, DC_SIGCHAR_STRING} then Some 8
      else None)"

definition dcAggrField ::
  "u64 \<Rightarrow> aggr_builder \<Rightarrow> char \<Rightarrow> u32 \<Rightarrow> u64 \<Rightarrow> DCaggr option \<Rightarrow> aggr_error + aggr_builder" where
  "dcAggrField sizeof_long b ty offset array_len sub_arg =
     (let ag = ab_aggr b;
          add = (\<lambda>sz al sub.
            b\<lparr>ab_aggr := DCaggr (ag_size ag)
               (if ag_alignment ag < al then al else ag_alignment ag)
               (sysv_classes ag)
               (ag_fields ag @ [DCfield (scast offset) sz al array_len ty sub])\<rparr>)
      in if \<not> length (ag_fields ag) < unat (ab_cap b) then Inl HeapOverflow
         else if ty = DC_SIGCHAR_AGGREGATE then
           (case sub_arg of
              None \<Rightarrow> Inl NullDeref
            | Some sa \<Rightarrow> Inr (add (ag_size sa) (ag_alignment sa) (Some sa)))
         else
           (case sizeof_sigchar sizeof_long ty of
              None \<Rightarrow> Inl AssertFailed
            | Some sz \<Rightarrow> Inr (add sz sz None)))"

subsection \<open>Classes of an eightbyte\<close>

abbreviation SYSVC_NONE :: u8 where "SYSVC_NONE \<equiv> 0"
abbreviation SYSVC_INTEGER :: u8 where "SYSVC_INTEGER \<equiv> 1"
abbreviation SYSVC_SSE :: u8 where "SYSVC_SSE \<equiv> 2"
abbreviation SYSVC_MEMORY :: u8 where "SYSVC_MEMORY \<equiv> 64"
abbreviation DC_SYSV_MAX_NUM_CLASSES :: nat where "DC_SYSV_MAX_NUM_CLASSES \<equiv> 8"

definition dc_merge_sysv_classes :: "u8 \<Rightarrow> u8 \<Rightarrow> u8" where
  "dc_merge_sysv_classes clz new_class =
     (if clz = SYSVC_NONE then new_class
      else if new_class = SYSVC_NONE then clz
      else if clz = SYSVC_MEMORY \<or> new_class = SYSVC_MEMORY then SYSVC_MEMORY
      else if clz = SYSVC_INTEGER \<or> new_class = SYSVC_INTEGER then SYSVC_INTEGER
      else SYSVC_SSE)"

definition scalar_class :: "char \<Rightarrow> u8" where
  "scalar_class ty =
     (if ty \<in> {DC_SIGCHAR_BOOL, DC_SIGCHAR_CHAR, DC_SIGCHAR_UCHAR, DC_SIGCHAR_SHORT,
               DC_SIGCHAR_USHORT, DC_SIGCHAR_INT, DC_SIGCHAR_UINT, DC_SIGCHAR_LONG,
               DC_SIGCHAR_ULONG, DC_SIGCHAR_LONGLONG, DC_SIGCHAR_ULONGLONG, DC_SIGCHAR_STRING,
               DC_SIGCHAR_POINTER} then SYSVC_INTEGER
      else if ty \<in> {DC_SIGCHAR_FLOAT, DC_SIGCHAR_DOUBLE} then SYSVC_SSE
      else SYSVC_NONE)"

text \<open>
  \<open>int j = (qword_offset - offset) / f->size\<close> and \<open>int k\<close>, its bound clipped to the array length:
  \<open>offset\<close> and \<open>f->size\<close> are \<open>size_t\<close>, so the difference wraps when the field starts inside the
  eightbyte, and the quotient is truncated to 32 bits (as the supported compilers do).
\<close>

definition elem_from :: "u32 \<Rightarrow> u64 \<Rightarrow> u64 \<Rightarrow> u32" where
  "elem_from qword_offset offset fsize = ucast ((scast qword_offset - offset) div fsize)"

definition elem_to :: "u32 \<Rightarrow> u64 \<Rightarrow> u64 \<Rightarrow> u32" where
  "elem_to j fsize array_len =
     (let k = (ucast (8 div fsize + scast j + 1) :: u32)
      in if array_len < scast k then ucast array_len else k)"

fun dc_get_sysv_class_for_8byte :: "DCaggr \<Rightarrow> u32 \<Rightarrow> u32 \<Rightarrow> u8"
and class_of_fields :: "DCfield list \<Rightarrow> u32 \<Rightarrow> u32 \<Rightarrow> u8 \<Rightarrow> u8" where
  "dc_get_sysv_class_for_8byte (DCaggr sz al cls fs) index base_offset =
     class_of_fields fs index base_offset SYSVC_NONE"
| "class_of_fields [] index base_offset clz = clz"
| "class_of_fields (DCfield fo fsize falign alen ty sub # fs) index base_offset clz =
     (let qword_offset = index * 8;
          offset = scast base_offset + fo
      in if scast (qword_offset + 8) \<le> offset \<or> offset + fsize * alen \<le> scast qword_offset
         then class_of_fields fs index base_offset clz
         else if falign \<noteq> 0 \<and> offset AND (falign - 1) \<noteq> 0 then SYSVC_MEMORY
         else
           (let new_class =
              (if ty = DC_SIGCHAR_AGGREGATE then
                 (if fsize \<noteq> 0 then
                    (case sub of
                       None \<Rightarrow> SYSVC_NONE
                     | Some sa \<Rightarrow>
                         (let j = elem_from qword_offset offset fsize;
                              k = elem_to j fsize alen
                          in foldl (\<lambda>c e. dc_merge_sysv_classes c
                                 (dc_get_sysv_class_for_8byte sa index
                                    (ucast (offset + fsize * word_of_int e))))
                               SYSVC_NONE [sint j..sint k - 1]))
                  else SYSVC_NONE)
               else scalar_class ty)
            in class_of_fields fs index base_offset
                 (if clz = new_class then clz else dc_merge_sysv_classes clz new_class)))"

definition dc_get_sysv_classes_for_aggr :: "DCaggr \<Rightarrow> u8 list \<Rightarrow> u8 list" where
  "dc_get_sysv_classes_for_aggr ag classes =
     (if 2 * 8 < ag_size ag then classes[0 := SYSVC_MEMORY]
      else
        (let classes = classes[0 := dc_get_sysv_class_for_8byte ag 0 0] in
         if classes ! 0 \<noteq> SYSVC_MEMORY then
           (let classes = classes[1 := dc_get_sysv_class_for_8byte ag 1 0] in
            if classes ! 1 = SYSVC_MEMORY then classes[0 := SYSVC_MEMORY]
            else classes[2 := SYSVC_NONE])
         else classes))"

definition dcFinishAggr :: "DCaggr \<Rightarrow> DCaggr" where
  "dcFinishAggr ag =
     DCaggr (ag_size ag) (ag_alignment ag) (dc_get_sysv_classes_for_aggr ag (sysv_classes ag))
       (ag_fields ag)"

definition dcCloseAggr :: "aggr_builder \<Rightarrow> DCaggr" where
  "dcCloseAggr b = dcFinishAggr (ab_aggr b)"


subsection \<open>What the builder keeps\<close>

text \<open>The classification asserts that every alignment is a power of two (or 0); the alignment of a
  description is the largest of its fields.\<close>

fun aggr_wf :: "DCaggr \<Rightarrow> bool" and field_wf :: "DCfield \<Rightarrow> bool" where
  "aggr_wf (DCaggr sz al cls fs) \<longleftrightarrow>
     al \<in> {0, 1, 2, 4, 8} \<and> (\<forall>f \<in> set fs. field_wf f \<and> f_alignment f \<le> al) \<and>
     (al \<noteq> 0 \<longrightarrow> (\<exists>f \<in> set fs. f_alignment f = al))"
| "field_wf (DCfield fo fsize fal alen ty sub) \<longleftrightarrow>
     fal \<in> {0, 1, 2, 4, 8} \<and>
     (if ty = DC_SIGCHAR_AGGREGATE
      then (case sub of None \<Rightarrow> False | Some sa \<Rightarrow> aggr_wf sa \<and> fsize = ag_size sa \<and> fal = ag_alignment sa)
      else sizeof_sigchar 8 ty = Some fsize \<and> fal = fsize)"

definition builder_wf :: "aggr_builder \<Rightarrow> bool" where
  "builder_wf b \<longleftrightarrow> aggr_wf (ab_aggr b) \<and> length (ag_fields (ab_aggr b)) \<le> unat (ab_cap b)"

lemma builder_wf_new: "builder_wf (dcNewAggr junk n sz)"
  by (simp add: builder_wf_def dcNewAggr_def)

lemma aggr_wf_add:
  assumes "aggr_wf ag" and "field_wf f"
  shows "aggr_wf (DCaggr (ag_size ag) (if ag_alignment ag < f_alignment f then f_alignment f else ag_alignment ag)
           cls (ag_fields ag @ [f]))"
proof -
  have "f_alignment f \<in> {0, 1, 2, 4, 8}" using assms(2) by (cases f) simp
  with assms show ?thesis by (cases ag) (auto simp: not_less intro: order.trans less_imp_le)
qed

lemma aggr_wf_alignment: "aggr_wf ag \<Longrightarrow> ag_alignment ag \<in> {0, 1, 2, 4, 8}"
  by (cases ag) simp

lemma sizeof_sigchar_range: "sizeof_sigchar 8 ty = Some n \<Longrightarrow> n \<in> {1, 2, 4, 8}"
  unfolding sizeof_sigchar_def by (simp split: if_split_asm)

text \<open>A description with one more field, as \<open>dcAggrField\<close> stores it.\<close>

definition with_field :: "DCaggr \<Rightarrow> DCfield \<Rightarrow> DCaggr" where
  "with_field ag f =
     DCaggr (ag_size ag) (if ag_alignment ag < f_alignment f then f_alignment f else ag_alignment ag)
       (sysv_classes ag) (ag_fields ag @ [f])"

lemma with_field_simps [simp]:
  "ag_size (with_field ag f) = ag_size ag" "ag_fields (with_field ag f) = ag_fields ag @ [f]"
  "sysv_classes (with_field ag f) = sysv_classes ag"
  by (simp_all add: with_field_def)

lemma builder_wf_with_field:
  assumes "builder_wf b" and "field_wf f" and "length (ag_fields (ab_aggr b)) < unat (ab_cap b)"
  shows "builder_wf (b\<lparr>ab_aggr := with_field (ab_aggr b) f\<rparr>)"
  using aggr_wf_add [of "ab_aggr b" f "sysv_classes (ab_aggr b)"] assms
  by (simp add: builder_wf_def with_field_def del: aggr_wf.simps field_wf.simps split del: if_split)

lemma dcAggrField_aggregate:
  assumes "length (ag_fields (ab_aggr b)) < unat (ab_cap b)"
  shows "dcAggrField 8 b DC_SIGCHAR_AGGREGATE offset n (Some sa) =
    Inr (b\<lparr>ab_aggr := with_field (ab_aggr b)
      (DCfield (scast offset) (ag_size sa) (ag_alignment sa) n DC_SIGCHAR_AGGREGATE (Some sa))\<rparr>)"
  using assms by (simp add: dcAggrField_def with_field_def Let_def)

lemma dcAggrField_scalar:
  assumes "length (ag_fields (ab_aggr b)) < unat (ab_cap b)" and "ty \<noteq> DC_SIGCHAR_AGGREGATE"
    and "sizeof_sigchar 8 ty = Some sz"
  shows "dcAggrField 8 b ty offset n sub =
    Inr (b\<lparr>ab_aggr := with_field (ab_aggr b) (DCfield (scast offset) sz sz n ty None)\<rparr>)"
  using assms by (simp add: dcAggrField_def with_field_def Let_def)

lemma field_wf_aggregate:
  "aggr_wf sa \<Longrightarrow> field_wf (DCfield off (ag_size sa) (ag_alignment sa) n DC_SIGCHAR_AGGREGATE (Some sa))"
  using aggr_wf_alignment [of sa] by simp

lemma field_wf_scalar:
  "ty \<noteq> DC_SIGCHAR_AGGREGATE \<Longrightarrow> sizeof_sigchar 8 ty = Some sz \<Longrightarrow> field_wf (DCfield off sz sz n ty None)"
  using sizeof_sigchar_range [of ty sz] by simp

text \<open>C17: \<open>dcAggrField\<close> succeeds exactly when there is room for the field and its type is known (for a
  nested aggregate: its description is given), and then it keeps a description well formed: the
  alignment is the largest alignment of a field and a power of two, which the
  classification asserts.\<close>

theorem dcAggrField_wf:
  assumes "builder_wf b" and "\<forall>sa. sub = Some sa \<longrightarrow> aggr_wf sa"
  shows "(\<exists>b'. dcAggrField 8 b ty offset n sub = Inr b' \<and> builder_wf b' \<and>
            length (ag_fields (ab_aggr b')) = Suc (length (ag_fields (ab_aggr b))))
       \<or> dcAggrField 8 b ty offset n sub = Inl HeapOverflow \<and> length (ag_fields (ab_aggr b)) = unat (ab_cap b)
       \<or> dcAggrField 8 b ty offset n sub = Inl AssertFailed \<and> sizeof_sigchar 8 ty = None \<and> ty \<noteq> DC_SIGCHAR_AGGREGATE
       \<or> dcAggrField 8 b ty offset n sub = Inl NullDeref \<and> ty = DC_SIGCHAR_AGGREGATE \<and> sub = None"
proof (cases "length (ag_fields (ab_aggr b)) < unat (ab_cap b)")
  case False
  with assms(1) show ?thesis by (simp add: dcAggrField_def Let_def builder_wf_def)
next
  case room: True
  show ?thesis
  proof (cases "ty = DC_SIGCHAR_AGGREGATE")
    case agg: True
    show ?thesis
    proof (cases sub)
      case None
      with room agg show ?thesis by (simp add: dcAggrField_def Let_def)
    next
      case (Some sa)
      with assms(2) have "aggr_wf sa" by simp
      from builder_wf_with_field [OF assms(1) field_wf_aggregate [OF this] room] show ?thesis
        by (simp add: agg Some dcAggrField_aggregate [OF room])
    qed
  next
    case scalar: False
    show ?thesis
    proof (cases "sizeof_sigchar 8 ty")
      case None
      with room scalar show ?thesis by (simp add: dcAggrField_def Let_def)
    next
      case (Some sz)
      from builder_wf_with_field [OF assms(1) field_wf_scalar [OF scalar Some] room] show ?thesis
        by (simp add: dcAggrField_scalar [OF room scalar Some])
    qed
  qed
qed

lemma dcAggrField_wf_witness:
  "\<exists>b'. dcAggrField 8 (dcNewAggr [] 1 8) DC_SIGCHAR_DOUBLE 0 1 None = Inr b' \<and> builder_wf b' \<and>
     length (ag_fields (ab_aggr b')) = 1"
  using dcAggrField_wf [OF builder_wf_new [of "[]" 1 8], of None DC_SIGCHAR_DOUBLE 0 1]
  by (simp add: dcAggrField_def dcNewAggr_def sizeof_sigchar_def)

end
