(* ===== verification/Dyn_Vector.thy ===== *)
theory Dyn_Vector
  imports Dyn_Prelude
begin

unbundle bit_operations_syntax

section \<open>The argument vector\<close>

text \<open>
  \<open>dyncall/dyncall/dyncall_vector.h\<close> and \<open>.c\<close>: the byte buffer of fixed capacity behind every
  call VM, into which the argument operations serialise what goes to the stack of the callee.
  \<open>mTotal\<close> and \<open>mSize\<close> are \<open>size_t\<close> words (32 or 64 bits, by the platform: the type of a size is the
  parameter), so the size arithmetic wraps as in C; \<open>mData\<close> is the memory at \<open>dcVecData\<close>.
\<close>

record 'w vec =
  mTotal :: 'w
  mSize :: 'w
  mData :: mem

definition dcVecInit :: "'w::len word vec \<Rightarrow> 'w word \<Rightarrow> 'w word vec" where
  "dcVecInit p sz = p\<lparr>mTotal := sz, mSize := 0\<rparr>"

definition dcVecReset :: "'w::len word vec \<Rightarrow> 'w word vec" where
  "dcVecReset p = p\<lparr>mSize := 0\<rparr>"

definition dcVecResize :: "'w::len word vec \<Rightarrow> 'w word \<Rightarrow> 'w word vec" where
  "dcVecResize p sz = p\<lparr>mSize := sz\<rparr>"

definition dcVecSkip :: "'w::len word vec \<Rightarrow> 'w word \<Rightarrow> 'w word vec" where
  "dcVecSkip p sz = p\<lparr>mSize := mSize p + sz\<rparr>"

definition dcVecAlign :: "'w::len word vec \<Rightarrow> 'w word \<Rightarrow> 'w word vec" where
  "dcVecAlign p al = p\<lparr>mSize := (mSize p + al - 1) AND (- al)\<rparr>"

text \<open>A store through \<open>dcVecAt(p, index)\<close>: no check against the capacity.\<close>

definition dcVecAt_store :: "'w::len word vec \<Rightarrow> nat \<Rightarrow> byte list \<Rightarrow> 'w word vec" where
  "dcVecAt_store p index bs = p\<lparr>mData := write_at (mData p) index bs\<rparr>"

text \<open>
  \<open>dcVecAppend\<close>. The \<open>switch\<close> on the size stores 1, 2 and 4 bytes in one assignment, 8 bytes as
  two \<open>DCint\<close> stores (the upper half first), anything else with \<open>memcpy\<close>; a value that does
  not fit is dropped without an error.
\<close>

definition dcVecAppend :: "'w::len word vec \<Rightarrow> byte list \<Rightarrow> 'w word vec" where
  "dcVecAppend p bs =
     (let newSize = mSize p + of_nat (length bs) in
      if newSize \<le> mTotal p then
        (let dst = unat (mSize p) in
         p\<lparr>mData :=
             (if length bs = 8
              then write_at (write_at (mData p) (dst + 4) (drop 4 bs)) dst (take 4 bs)
              else write_at (mData p) dst bs),
           mSize := newSize\<rparr>)
      else p)"

subsection \<open>What the operations do to the size and the contents\<close>

definition vec_ok :: "'w::len word vec \<Rightarrow> bool" where
  "vec_ok p \<longleftrightarrow> mSize p \<le> mTotal p"

definition vec_fits :: "'w::len word vec \<Rightarrow> nat \<Rightarrow> bool" where
  "vec_fits p n \<longleftrightarrow> unat (mSize p) + n \<le> unat (mTotal p)"

lemma write_at_halves:
  "length bs = 8 \<Longrightarrow> write_at (write_at m (i + 4) (drop 4 bs)) i (take 4 bs) = write_at m i bs"
  using write_at_append [of m i "take 4 bs" "drop 4 bs"] by simp

text \<open>The \<open>switch\<close> is an optimisation of one block copy.\<close>

lemma dcVecAppend_memcpy:
  "dcVecAppend p bs =
     (if mSize p + of_nat (length bs) \<le> mTotal p
      then p\<lparr>mData := write_at (mData p) (unat (mSize p)) bs, mSize := mSize p + of_nat (length bs)\<rparr>
      else p)"
  by (simp add: dcVecAppend_def Let_def write_at_halves)

lemma unat_add_small:
  "unat (x :: 'a::len word) + n < 2 ^ LENGTH('a) \<Longrightarrow> unat (x + of_nat n) = unat x + n"
  by (simp add: unat_plus_if' unat_of_nat)

lemma vec_fits_size:
  assumes "vec_fits (p :: 'w::len word vec) n"
  shows "unat (mSize p + of_nat n) = unat (mSize p) + n"
proof (rule unat_add_small)
  have "unat (mTotal p) < 2 ^ LENGTH('w)" by (rule unsigned_less)
  with assms show "unat (mSize p) + n < 2 ^ LENGTH('w)"
    unfolding vec_fits_def by (rule le_less_trans)
qed

lemma dcVecAppend_fits [dyn_simps]:
  "vec_fits p (length bs) \<Longrightarrow>
     dcVecAppend p bs =
       p\<lparr>mData := write_at (mData p) (unat (mSize p)) bs, mSize := mSize p + of_nat (length bs)\<rparr>"
  by (simp add: dcVecAppend_memcpy word_le_nat_alt vec_fits_size) (simp add: vec_fits_def)

lemma dcVecAppend_full:
  assumes "\<not> vec_fits p (length bs)" and "unat (mSize p) + length bs < 2 ^ LENGTH('w)"
  shows "dcVecAppend p bs = (p :: 'w::len word vec)"
  using assms by (simp add: dcVecAppend_memcpy word_le_nat_alt unat_add_small vec_fits_def)

lemma dcVecAppend_total [simp]: "mTotal (dcVecAppend p bs) = mTotal p"
  by (simp add: dcVecAppend_def Let_def)

lemma dcVecAt_store_simps [simp]:
  "mTotal (dcVecAt_store p i bs) = mTotal p" "mSize (dcVecAt_store p i bs) = mSize p"
  "mData (dcVecAt_store p i bs) = write_at (mData p) i bs"
  by (simp_all add: dcVecAt_store_def)

lemma dcVecAppend_below [simp]: "j < unat (mSize p) \<Longrightarrow> mData (dcVecAppend p bs) j = mData p j"
  by (simp add: dcVecAppend_memcpy)

lemma dcVecSkip_total [simp]: "mTotal (dcVecSkip p n) = mTotal p"
  by (simp add: dcVecSkip_def)

lemma vec_ok_append: "vec_ok p \<Longrightarrow> vec_ok (dcVecAppend p bs)"
  by (simp add: dcVecAppend_def Let_def vec_ok_def)

lemma vec_ok_store [simp]: "vec_ok (dcVecAt_store p i bs) = vec_ok p"
  by (simp add: vec_ok_def)

lemma vec_ok_reset [simp]: "vec_ok (dcVecReset p)"
  by (simp add: dcVecReset_def vec_ok_def)

lemma vec_fits_ok: "vec_fits p n \<Longrightarrow> vec_ok p"
  by (simp add: vec_fits_def vec_ok_def word_le_nat_alt)

lemma vec_fits_mono: "vec_fits p n \<Longrightarrow> m \<le> n \<Longrightarrow> vec_fits p m"
  by (simp add: vec_fits_def)

lemma vec_fits_add_ok [dyn_simps]:
  "vec_fits p n \<Longrightarrow> vec_ok (p\<lparr>mData := d, mSize := mSize p + of_nat n\<rparr>)"
  by (simp add: vec_ok_def word_le_nat_alt vec_fits_size) (simp add: vec_fits_def)

subsection \<open>Committed contents\<close>

text \<open>A later state of a vector keeps what an earlier one had below its size.\<close>

definition vec_keeps :: "'w::len word vec \<Rightarrow> 'w word vec \<Rightarrow> bool" where
  "vec_keeps p q \<longleftrightarrow>
     mTotal q = mTotal p \<and> unat (mSize p) \<le> unat (mSize q) \<and>
     (\<forall>j < unat (mSize p). mData q j = mData p j)"

lemma vec_keeps_refl [simp]: "vec_keeps p p"
  by (simp add: vec_keeps_def)

lemma vec_keeps_trans: "vec_keeps p q \<Longrightarrow> vec_keeps q r \<Longrightarrow> vec_keeps p r"
  by (auto simp: vec_keeps_def)

lemma vec_keeps_append [dyn_simps]:
  "vec_fits p (length bs) \<Longrightarrow> vec_keeps p (dcVecAppend p bs)"
  by (simp add: dcVecAppend_fits vec_keeps_def vec_fits_size)

lemma vec_keeps_skip:
  "vec_fits p n \<Longrightarrow> vec_keeps p (dcVecSkip p (of_nat n))"
  by (simp add: vec_keeps_def dcVecSkip_def vec_fits_size)

text \<open>What was appended is read back from any later state.\<close>

lemma read_appended:
  assumes "vec_fits p n" and "n = length bs" and "vec_keeps (dcVecAppend p bs) q"
  shows "read_at (mData q) (unat (mSize p)) n = bs"
proof -
  from assms have "\<forall>j < unat (mSize p) + n. mData q j = write_at (mData p) (unat (mSize p)) bs j"
    by (auto simp: vec_keeps_def dcVecAppend_fits vec_fits_size)
  then have "read_at (mData q) (unat (mSize p)) n
      = read_at (write_at (mData p) (unat (mSize p)) bs) (unat (mSize p)) n"
    by (intro read_at_cong) simp
  with assms(2) show ?thesis by (simp add: read_at_write_at)
qed

lemma read_appended_part:
  assumes "vec_fits p n" and "n = length bs" and "vec_keeps (dcVecAppend p bs) q" and "i + k \<le> n"
  shows "read_at (mData q) (unat (mSize p) + i) k = take k (drop i bs)"
  using read_at_part [OF assms(4), of "mData q" "unat (mSize p)"] read_appended [OF assms(1-3)] by simp

lemma read_appended_word [dyn_simps]:
  assumes "vec_fits p n" and "vec_keeps (dcVecAppend p (obj_bytes e n w)) q"
    and "LENGTH('a) \<le> 8 * n"
  shows "obj_word e (read_at (mData q) (unat (mSize p)) n) = (w :: 'a::len word)"
  using read_appended [OF assms(1) _ assms(2)] assms(3) by (simp add: obj_word_obj_bytes)

subsection \<open>Capacity\<close>

lemma vec_append_used [dyn_simps]:
  "vec_fits p (length bs) \<Longrightarrow> unat (mSize (dcVecAppend p bs)) = unat (mSize p) + length bs"
  by (simp add: dcVecAppend_fits vec_fits_size)


text \<open>Appending and skipping the rest of a slot.\<close>

lemma append_skip:
  assumes "vec_fits p r" and "length bs \<le> r" and "unat k = r - length bs"
  defines "q \<equiv> dcVecSkip (dcVecAppend p bs) k"
  shows "unat (mSize q) = unat (mSize p) + r" and "mTotal q = mTotal p" and "vec_ok q"
    and "vec_keeps p q" and "vec_keeps (dcVecAppend p bs) q"
proof -
  have f: "vec_fits p (length bs)" using assms(1,2) by (rule vec_fits_mono)
  have f': "vec_fits (dcVecAppend p bs) (unat k)"
    using assms(1-3) by (simp add: vec_fits_def vec_append_used [OF f])
  have k: "of_nat (unat k) = k" by simp
  show u: "unat (mSize q) = unat (mSize p) + r"
    using vec_fits_size [OF f', unfolded k] vec_append_used [OF f] assms(2,3)
    by (simp add: q_def dcVecSkip_def)
  show t: "mTotal q = mTotal p" by (simp add: q_def dcVecSkip_def)
  show "vec_ok q" using u t assms(1) by (simp add: vec_ok_def vec_fits_def word_le_nat_alt)
  show 1: "vec_keeps (dcVecAppend p bs) q"
    using vec_keeps_skip [OF f'] by (simp add: q_def k)
  show "vec_keeps p q" using vec_keeps_append [OF f] 1 by (rule vec_keeps_trans)
qed


subsection \<open>Alignment and what the callee finds on its stack\<close>

lemma dcVecAlign_size:
  assumes "unat (mSize p) + 2 ^ k \<le> 2 ^ LENGTH('w)" and "k < LENGTH('w)"
  shows "unat (mSize (dcVecAlign (p :: 'w::len word vec) (2 ^ k))) = round_up (2 ^ k) (unat (mSize p))"
  using unat_mask_up [OF assms] by (simp add: dcVecAlign_def mask_up_def)

lemma dcVecAlign_same [simp]:
  "mTotal (dcVecAlign p a) = mTotal p" "mData (dcVecAlign p a) = mData p"
  by (simp_all add: dcVecAlign_def)

lemma vec_keeps_align:
  assumes "unat (mSize p) + 2 ^ k \<le> 2 ^ LENGTH('w)" and "k < LENGTH('w)"
  shows "vec_keeps (p :: 'w::len word vec) (dcVecAlign p (2 ^ k))"
  by (simp add: vec_keeps_def dcVecAlign_size [OF assms] round_up_ge)

lemma vec_size_small: "vec_ok p \<Longrightarrow> unat (mTotal p) < b \<Longrightarrow> unat (mSize p) < b"
  by (simp add: vec_ok_def word_le_nat_alt)

lemma vec_size_pad16:
  assumes "vec_ok v" and "unat (mTotal (v :: u64 vec)) < 2 ^ 63"
  shows "unat (mSize v) \<le> unat ((mSize v + 15) AND (- 16))"
proof -
  have e: "(mSize v + 15) AND (- 16) = mask_up (mSize v) (2 ^ 4)"
    by (simp add: mask_up_def add.commute)
  have "unat (mSize v) < 2 ^ 63" using assms by (rule vec_size_small)
  then show ?thesis unfolding e by (intro unat_mask_up_ge) simp_all
qed

text \<open>A kernel copies the vector, in units of its own, to the top of the stack: the callee sees the data up
  to some limit, the frame of the caller behind it.\<close>

definition stack_copy :: "mem \<Rightarrow> nat \<Rightarrow> mem \<Rightarrow> mem" where
  "stack_copy caller limit dat = (\<lambda>j. if j < limit then dat j else caller j)"

lemma stack_copy_read:
  "i + n \<le> limit \<Longrightarrow> read_at (stack_copy caller limit d) i n = read_at d i n"
  by (rule read_at_cong) (simp add: stack_copy_def)

lemma stack_copy_word:
  assumes "vec_fits p n" and "vec_keeps (dcVecAppend p (obj_bytes e n w)) q"
    and "unat (mSize q) \<le> limit" and "LENGTH('a) \<le> 8 * n"
  shows "obj_word e (read_at (stack_copy caller limit (mData q)) (unat (mSize p)) n) = (w :: 'a::len word)"
proof -
  have "unat (mSize p) + n \<le> unat (mSize q)"
    using assms(1,2) vec_append_used [of p "obj_bytes e n w"] by (simp add: vec_keeps_def)
  with assms show ?thesis by (simp add: stack_copy_read read_appended_word)
qed

subsection \<open>The bounds of the buffer\<close>

text \<open>C13: \<open>dcVecAppend\<close> never writes outside of the buffer and never changes what was appended before: a
  value that fits is stored behind the earlier ones and is read back from there, one
  that does not fit leaves the vector as it was. (The sum of the sizes must not wrap.)\<close>

theorem dcVecAppend_bounds:
  assumes "vec_ok p" and "unat (mSize p) + length bs < 2 ^ LENGTH('w)"
  shows "vec_ok (dcVecAppend (p :: 'w::len word vec) bs) \<and>
    (\<forall>j. j < unat (mSize p) \<or> unat (mTotal p) \<le> j \<longrightarrow> mData (dcVecAppend p bs) j = mData p j) \<and>
    (if unat (mSize p) + length bs \<le> unat (mTotal p)
     then read_at (mData (dcVecAppend p bs)) (unat (mSize p)) (length bs) = bs \<and>
          unat (mSize (dcVecAppend p bs)) = unat (mSize p) + length bs
     else dcVecAppend p bs = p)"
proof (cases "vec_fits p (length bs)")
  case True
  with vec_ok_append [OF assms(1), of bs] show ?thesis
    by (auto simp: dcVecAppend_fits vec_fits_size vec_fits_def read_at_write_at)
next
  case False
  with dcVecAppend_full [OF False assms(2)] assms(1) show ?thesis by (simp add: vec_fits_def)
qed

lemma dcVecAppend_bounds_witness:
  "read_at (mData (dcVecAppend \<lparr>mTotal = 16 :: u64, mSize = 4, mData = (\<lambda>_. 0)\<rparr> [1, 2, 3])) 4 3 = [1, 2, 3] \<and>
   dcVecAppend \<lparr>mTotal = 6 :: u64, mSize = 4, mData = (\<lambda>_. 0)\<rparr> [1, 2, 3] = \<lparr>mTotal = 6, mSize = 4, mData = (\<lambda>_. 0)\<rparr>"
  using dcVecAppend_bounds [of "\<lparr>mTotal = 16 :: u64, mSize = 4, mData = (\<lambda>_. 0)\<rparr>" "[1, 2, 3]"]
    dcVecAppend_bounds [of "\<lparr>mTotal = 6 :: u64, mSize = 4, mData = (\<lambda>_. 0)\<rparr>" "[1, 2, 3]"]
  by (simp add: vec_ok_def numeral_3_eq_3 [symmetric])

end
