(* ===== verification/Dyn_Callvm.thy ===== *)
theory Dyn_Callvm
  imports Dyn_Aggregate Dyn_Vector
begin

section \<open>The call VM interface\<close>

text \<open>
  \<open>dyncall/dyncall/dyncall_callvm.h\<close>, \<open>dyncall_callvm_base.c\<close> and the dispatching functions of
  \<open>dyncall_api.c\<close>. A call VM is a structure whose first member is this interface; the record of a
  back end extends \<open>DCCallVM\<close>, as the C structures embed it. \<open>mVTpointer\<close> is the name of a table
  of the back end and \<open>vtab\<close>, an argument of the dispatching functions, the table with that name.

  A table holds the functions of a back end over its VM \<open>'vm\<close>, the word \<open>'l\<close> for a \<open>DClong\<close>, the
  word \<open>'p\<close> for a pointer and the type \<open>'k\<close> of what its assembly kernel is called with. The ten
  entries for the return types of a call are one function of the entry's name. An entry that is
  \<open>NULL\<close> in C is \<open>None\<close> here, and calling it is the value \<open>None\<close>.
\<close>

record 'id DCCallVM =
  mVTpointer :: 'id
  mError :: u32

definition dc_callvm_base_init :: "('id, 'm) DCCallVM_scheme \<Rightarrow> 'id \<Rightarrow> ('id, 'm) DCCallVM_scheme" where
  "dc_callvm_base_init pInstance pVTable = pInstance\<lparr>mVTpointer := pVTable, mError := DC_ERROR_NONE\<rparr>"

text \<open>What a client can pass, one constructor for each \<open>dcArg\<close> function but that for aggregates,
  and the types it can read in a callback. \<open>DCfloat\<close> and \<open>DCdouble\<close> are bit patterns.\<close>

datatype ('l, 'p) dcarg =
    ABool u32 | AChar u8 | AShort u16 | AInt u32 | ALong 'l | ALongLong u64
  | AFloat u32 | ADouble u64 | APointer 'p

datatype dcty = TBool | TChar | TShort | TInt | TLong | TLongLong | TFloat | TDouble | TPointer

fun is_fp :: "('l, 'p) dcarg \<Rightarrow> bool" where
  "is_fp (AFloat _) = True"
| "is_fp (ADouble _) = True"
| "is_fp _ = False"

fun arg_ty :: "('l, 'p) dcarg \<Rightarrow> dcty" where
  "arg_ty (ABool _) = TBool"
| "arg_ty (AChar _) = TChar"
| "arg_ty (AShort _) = TShort"
| "arg_ty (AInt _) = TInt"
| "arg_ty (ALong _) = TLong"
| "arg_ty (ALongLong _) = TLongLong"
| "arg_ty (AFloat _) = TFloat"
| "arg_ty (ADouble _) = TDouble"
| "arg_ty (APointer _) = TPointer"

text \<open>Names of the call entries of a table.\<close>

datatype dccall =
    callVoid | callBool | callChar | callShort | callInt | callLong | callLongLong
  | callFloat | callDouble | callPointer

text \<open>A VM that was allocated, or was given back to the allocator.\<close>

datatype 'vm handle = Alive 'vm | Freed

text \<open>The memory of the client, for what the aggregate functions read and write through pointers.\<close>

type_synonym 'p heap = "'p \<Rightarrow> byte"

definition heap_read :: "'p::len word heap \<Rightarrow> 'p word \<Rightarrow> nat \<Rightarrow> byte list" where
  "heap_read h a n = map (\<lambda>i. h (a + of_nat i)) [0..<n]"

definition heap_write :: "'p::len word heap \<Rightarrow> 'p word \<Rightarrow> byte list \<Rightarrow> 'p word heap" where
  "heap_write h a bs = (\<lambda>b. if unat (b - a) < length bs then bs ! unat (b - a) else h b)"

lemma length_heap_read [simp]: "length (heap_read h a n) = n"
  by (simp add: heap_read_def)

lemma heap_read_write [dyn_simps]:
  "length bs < 2 ^ LENGTH('p) \<Longrightarrow> n = length bs \<Longrightarrow> heap_read (heap_write h (a :: 'p::len word) bs) a n = bs"
  by (auto simp: heap_read_def heap_write_def unat_of_nat intro!: nth_equalityI)

lemma take_heap_read: "m \<le> n \<Longrightarrow> take m (heap_read h a n) = heap_read h a m"
  by (simp add: heap_read_def take_map)

lemma heap_read_append:
  "heap_read h a (m + n) = heap_read h a m @ heap_read h (a + of_nat m) n"
  by (rule nth_equalityI) (auto simp: heap_read_def nth_append algebra_simps simp flip: of_nat_add)

lemma heap_read_0 [simp]: "heap_read h a 0 = []"
  by (simp add: heap_read_def)

lemma heap_write_Nil [simp]: "heap_write h a [] = h"
  by (simp add: heap_write_def)

lemma heap_write_append:
  assumes "length xs + length ys < 2 ^ LENGTH('p)"
  shows "heap_write (heap_write h a xs) (a + of_nat (length xs)) ys = heap_write h (a :: 'p::len word) (xs @ ys)"
proof
  fix b :: "'p word"
  define k where "k = unat (b - a)"
  have k: "b = a + of_nat k" and kl: "k < 2 ^ LENGTH('p)"
    by (simp_all add: k_def unsigned_less)
  have u: "unat (b - a) = k" using k kl by (simp add: unat_of_nat)
  show "heap_write (heap_write h a xs) (a + of_nat (length xs)) ys b = heap_write h a (xs @ ys) b"
  proof (cases "length xs \<le> k")
    case True
    then have "b - (a + of_nat (length xs)) = of_nat (k - length xs)" using k by simp
    then have "unat (b - (a + of_nat (length xs))) = k - length xs"
      using kl by (simp add: unat_of_nat)
    with True u show ?thesis by (auto simp: heap_write_def nth_append)
  next
    case False
    have "unat (b - (a + of_nat (length xs))) = 2 ^ LENGTH('p) + k - length xs"
    proof -
      have "b - (a + of_nat (length xs)) = of_nat k - of_nat (length xs)" using k by simp
      moreover have "unat (of_nat k - of_nat (length xs) :: 'p word) = 2 ^ LENGTH('p) + k - length xs"
        using False kl assms by (simp add: unat_sub_if' unat_of_nat)
      ultimately show ?thesis by (simp only:)
    qed
    moreover have "\<not> 2 ^ LENGTH('p) + k - length xs < length ys"
      using assms by linarith
    ultimately show ?thesis using False u by (simp add: heap_write_def nth_append)
  qed
qed

record ('vm, 'l, 'p, 'k) DCCallVM_vt =
  vt_free :: "'vm \<Rightarrow> 'vm handle"
  vt_reset :: "'vm \<Rightarrow> 'vm"
  vt_mode :: "'vm \<Rightarrow> u32 \<Rightarrow> 'vm"
  vt_argBool :: "'vm \<Rightarrow> u32 \<Rightarrow> 'vm"
  vt_argChar :: "'vm \<Rightarrow> u8 \<Rightarrow> 'vm"
  vt_argShort :: "'vm \<Rightarrow> u16 \<Rightarrow> 'vm"
  vt_argInt :: "'vm \<Rightarrow> u32 \<Rightarrow> 'vm"
  vt_argLong :: "'vm \<Rightarrow> 'l \<Rightarrow> 'vm"
  vt_argLongLong :: "'vm \<Rightarrow> u64 \<Rightarrow> 'vm"
  vt_argFloat :: "'vm \<Rightarrow> u32 \<Rightarrow> 'vm"
  vt_argDouble :: "'vm \<Rightarrow> u64 \<Rightarrow> 'vm"
  vt_argPointer :: "'vm \<Rightarrow> 'p \<Rightarrow> 'vm"
  vt_argAggr :: "('p heap \<Rightarrow> 'vm \<Rightarrow> DCaggr option \<Rightarrow> 'p \<Rightarrow> 'vm) option"
  vt_call :: "dccall \<Rightarrow> 'vm \<Rightarrow> 'p \<Rightarrow> 'vm \<times> 'k"
  vt_callAggr ::
    "('p heap \<Rightarrow> 'vm \<Rightarrow> 'p \<Rightarrow> DCaggr option \<Rightarrow> 'p \<Rightarrow> ('vm \<times> 'p heap) option) option"
  vt_beginAggr :: "('vm \<Rightarrow> DCaggr option \<Rightarrow> 'vm option) option"

subsection \<open>The functions of the public interface\<close>

definition dcReset ::
  "('id \<Rightarrow> (('id, 'm) DCCallVM_scheme, 'l, 'p, 'k) DCCallVM_vt) \<Rightarrow>
   ('id, 'm) DCCallVM_scheme \<Rightarrow> ('id, 'm) DCCallVM_scheme" where
  "dcReset vtab vm = vt_reset (vtab (mVTpointer vm)) vm"

definition dcFree ::
  "('id \<Rightarrow> (('id, 'm) DCCallVM_scheme, 'l, 'p, 'k) DCCallVM_vt) \<Rightarrow>
   ('id, 'm) DCCallVM_scheme \<Rightarrow> ('id, 'm) DCCallVM_scheme handle" where
  "dcFree vtab vm = vt_free (vtab (mVTpointer vm)) vm"

definition dcMode ::
  "('id \<Rightarrow> (('id, 'm) DCCallVM_scheme, 'l, 'p, 'k) DCCallVM_vt) \<Rightarrow>
   ('id, 'm) DCCallVM_scheme \<Rightarrow> u32 \<Rightarrow> ('id, 'm) DCCallVM_scheme" where
  "dcMode vtab vm mode = vt_mode (vtab (mVTpointer vm)) vm mode"

text \<open>\<open>dcArgBool\<close> to \<open>dcArgPointer\<close>.\<close>

fun dcArg ::
  "('id \<Rightarrow> (('id, 'm) DCCallVM_scheme, 'l, 'p, 'k) DCCallVM_vt) \<Rightarrow>
   ('id, 'm) DCCallVM_scheme \<Rightarrow> ('l, 'p) dcarg \<Rightarrow> ('id, 'm) DCCallVM_scheme" where
  "dcArg vtab vm (ABool x) = vt_argBool (vtab (mVTpointer vm)) vm x"
| "dcArg vtab vm (AChar x) = vt_argChar (vtab (mVTpointer vm)) vm x"
| "dcArg vtab vm (AShort x) = vt_argShort (vtab (mVTpointer vm)) vm x"
| "dcArg vtab vm (AInt x) = vt_argInt (vtab (mVTpointer vm)) vm x"
| "dcArg vtab vm (ALong x) = vt_argLong (vtab (mVTpointer vm)) vm x"
| "dcArg vtab vm (ALongLong x) = vt_argLongLong (vtab (mVTpointer vm)) vm x"
| "dcArg vtab vm (AFloat x) = vt_argFloat (vtab (mVTpointer vm)) vm x"
| "dcArg vtab vm (ADouble x) = vt_argDouble (vtab (mVTpointer vm)) vm x"
| "dcArg vtab vm (APointer x) = vt_argPointer (vtab (mVTpointer vm)) vm x"

text \<open>The calls of a client, in order.\<close>

fun dcArgs ::
  "('id \<Rightarrow> (('id, 'm) DCCallVM_scheme, 'l, 'p, 'k) DCCallVM_vt) \<Rightarrow>
   ('id, 'm) DCCallVM_scheme \<Rightarrow> ('l, 'p) dcarg list \<Rightarrow> ('id, 'm) DCCallVM_scheme" where
  "dcArgs vtab vm [] = vm"
| "dcArgs vtab vm (x # xs) = dcArgs vtab (dcArg vtab vm x) xs"

definition dcArgAggr ::
  "('id \<Rightarrow> (('id, 'm) DCCallVM_scheme, 'l, 'p, 'k) DCCallVM_vt) \<Rightarrow> 'p heap \<Rightarrow>
   ('id, 'm) DCCallVM_scheme \<Rightarrow> DCaggr option \<Rightarrow> 'p \<Rightarrow> ('id, 'm) DCCallVM_scheme option" where
  "dcArgAggr vtab h vm ag x =
     map_option (\<lambda>f. f h vm ag x) (vt_argAggr (vtab (mVTpointer vm)))"

text \<open>\<open>dcCallVoid\<close> to \<open>dcCallPointer\<close>: what the kernel is called with.\<close>

definition dcCall ::
  "('id \<Rightarrow> (('id, 'm) DCCallVM_scheme, 'l, 'p, 'k) DCCallVM_vt) \<Rightarrow> dccall \<Rightarrow>
   ('id, 'm) DCCallVM_scheme \<Rightarrow> 'p \<Rightarrow> ('id, 'm) DCCallVM_scheme \<times> 'k" where
  "dcCall vtab c vm funcptr = vt_call (vtab (mVTpointer vm)) c vm funcptr"

definition dcBeginCallAggr ::
  "('id \<Rightarrow> (('id, 'm) DCCallVM_scheme, 'l, 'p, 'k) DCCallVM_vt) \<Rightarrow>
   ('id, 'm) DCCallVM_scheme \<Rightarrow> DCaggr option \<Rightarrow> ('id, 'm) DCCallVM_scheme option" where
  "dcBeginCallAggr vtab vm ag =
     (case vt_beginAggr (vtab (mVTpointer vm)) of None \<Rightarrow> Some vm | Some f \<Rightarrow> f vm ag)"

definition dcCallAggr ::
  "('id \<Rightarrow> (('id, 'm) DCCallVM_scheme, 'l, 'p, 'k) DCCallVM_vt) \<Rightarrow> 'p heap \<Rightarrow>
   ('id, 'm) DCCallVM_scheme \<Rightarrow> 'p \<Rightarrow> DCaggr option \<Rightarrow> 'p \<Rightarrow>
   (('id, 'm) DCCallVM_scheme \<times> 'p heap) option" where
  "dcCallAggr vtab h vm funcptr ag ret =
     Option.bind (vt_callAggr (vtab (mVTpointer vm))) (\<lambda>f. f h vm funcptr ag ret)"

definition dcGetError :: "('id, 'm) DCCallVM_scheme \<Rightarrow> u32" where
  "dcGetError vm = mError vm"

lemma dcArgs_append: "dcArgs vtab vm (xs @ ys) = dcArgs vtab (dcArgs vtab vm xs) ys"
  by (induction xs arbitrary: vm) simp_all


subsection \<open>Truncating what was extended\<close>

lemma ucast_scast_trunc [dyn_simps]:
  "LENGTH('a) \<le> LENGTH('b) \<Longrightarrow> ucast (scast (x :: 'a::len word) :: 'b::len word) = x"
  by (rule bit_word_eqI) (auto simp: bit_simps)

lemma ucast_ucast_trunc [dyn_simps]:
  "LENGTH('a) \<le> LENGTH('b) \<Longrightarrow> ucast (ucast (x :: 'a::len word) :: 'b::len word) = x"
  by (rule bit_word_eqI) (auto simp: bit_simps)

lemma ucast_word_cat_low [dyn_simps]:
  "LENGTH('a) \<le> LENGTH('b) \<Longrightarrow> ucast (word_cat (y :: 'c::len word) (x :: 'a::len word) :: 'b::len word) = x"
  by (rule bit_word_eqI) (auto simp: bit_simps bit_word_cat_iff)

lemma ucast_sint_trunc [dyn_simps]:
  "LENGTH('a) \<le> LENGTH('b) \<Longrightarrow> ucast (word_of_int (sint (x :: 'a::len word)) :: 'b::len word) = x"
  by (metis ucast_scast_trunc scast_eq)

end
