(* ===== verification/Dyn_Transport.thy ===== *)
theory Dyn_Transport
  imports Dyn_Callvm
begin

section \<open>The contract between the writer and the reader of arguments\<close>

text \<open>
  The two halves of the library meet at a calling convention: a call VM (\<open>dyncall\<close>) writes the
  arguments of a call into registers and stack, and the argument reader (\<open>dyncallback\<close>) takes them
  back one by one in the function that is called. Each convention has its own writer and its own
  reader; what makes the pair correct is the same. The locale \<open>arg_transport\<close> states it: a push
  appends its value, a later push keeps it (\<open>keeps\<close>), and the reader that stands where the push
  began finds the value and stands where the push ended. \<open>view F s\<close> is the reader over the
  final state \<open>F\<close> at the position that \<open>s\<close> had reached.
\<close>

fun push_all :: "('s \<Rightarrow> 'a \<Rightarrow> 's) \<Rightarrow> 's \<Rightarrow> 'a list \<Rightarrow> 's" where
  "push_all push s [] = s"
| "push_all push s (a # as) = push_all push (push s a) as"

fun pop_all :: "('r \<Rightarrow> 't \<Rightarrow> 'v \<times> 'r) \<Rightarrow> 'r \<Rightarrow> 't list \<Rightarrow> 'v list \<times> 'r" where
  "pop_all pop r [] = ([], r)"
| "pop_all pop r (t # ts) =
     (case pop r t of (v, r') \<Rightarrow> (case pop_all pop r' ts of (vs, r'') \<Rightarrow> (v # vs, r'')))"

fun fits_all :: "('s \<Rightarrow> 'a \<Rightarrow> 's) \<Rightarrow> ('s \<Rightarrow> 'a \<Rightarrow> bool) \<Rightarrow> 's \<Rightarrow> 'a list \<Rightarrow> bool" where
  "fits_all push fits s [] \<longleftrightarrow> True"
| "fits_all push fits s (a # as) \<longleftrightarrow> fits s a \<and> fits_all push fits (push s a) as"

lemma push_all_dcArgs: "push_all (dcArg vtab) vm xs = dcArgs vtab vm xs"
  by (induction xs arbitrary: vm) simp_all

lemma pop_all_append:
  "pop_all pop r (ts @ us) =
     (case pop_all pop r ts of (vs, r) \<Rightarrow> (case pop_all pop r us of (ws, r) \<Rightarrow> (vs @ ws, r)))"
  by (induction ts arbitrary: r) (auto split: prod.splits)

lemma push_all_append: "push_all push s (as @ bs) = push_all push (push_all push s as) bs"
  by (induction as arbitrary: s) simp_all

locale arg_transport =
  fixes push :: "'s \<Rightarrow> 'a \<Rightarrow> 's"
    and fits :: "'s \<Rightarrow> 'a \<Rightarrow> bool"
    and inv :: "'s \<Rightarrow> bool"
    and keeps :: "'s \<Rightarrow> 's \<Rightarrow> bool"
    and view :: "'s \<Rightarrow> 's \<Rightarrow> 'r"
    and pop :: "'r \<Rightarrow> 't \<Rightarrow> 'v \<times> 'r"
    and ty :: "'a \<Rightarrow> 't"
    and val :: "'a \<Rightarrow> 'v"
  assumes keeps_refl: "inv s \<Longrightarrow> keeps s s"
    and keeps_trans: "keeps s t \<Longrightarrow> keeps t u \<Longrightarrow> keeps s u"
    and inv_push: "inv s \<Longrightarrow> fits s a \<Longrightarrow> inv (push s a)"
    and keeps_push: "inv s \<Longrightarrow> fits s a \<Longrightarrow> keeps s (push s a)"
    and pop_push:
      "inv s \<Longrightarrow> fits s a \<Longrightarrow> keeps (push s a) F \<Longrightarrow> pop (view F s) (ty a) = (val a, view F (push s a))"
begin

lemma inv_push_all: "inv s \<Longrightarrow> fits_all push fits s as \<Longrightarrow> inv (push_all push s as)"
  by (induction as arbitrary: s) (simp_all add: inv_push)

lemma keeps_push_all: "inv s \<Longrightarrow> fits_all push fits s as \<Longrightarrow> keeps s (push_all push s as)"
proof (induction as arbitrary: s)
  case Nil
  then show ?case by (simp add: keeps_refl)
next
  case (Cons a as)
  then have "keeps (push s a) (push_all push (push s a) as)"
    by (simp add: inv_push)
  with Cons.prems show ?case
    by (auto intro: keeps_trans [OF keeps_push])
qed

lemma read_back:
  "inv s \<Longrightarrow> fits_all push fits s as \<Longrightarrow> keeps (push_all push s as) F \<Longrightarrow>
     pop_all pop (view F s) (map ty as) = (map val as, view F (push_all push s as))"
proof (induction as arbitrary: s)
  case Nil
  then show ?case by simp
next
  case (Cons a as)
  from Cons.prems have 1: "inv (push s a)" "fits_all push fits (push s a) as"
    by (simp_all add: inv_push)
  with Cons.prems have "keeps (push s a) F"
    by (auto intro: keeps_trans [OF keeps_push_all])
  with Cons.prems Cons.IH [OF 1] show ?case
    by (simp add: pop_push)
qed

text \<open>Reading all arguments of a call in the order they were passed gives their values.\<close>

lemma round_trip:
  "inv s \<Longrightarrow> fits_all push fits s as \<Longrightarrow>
     fst (pop_all pop (view (push_all push s as) s) (map ty as)) = map val as"
  by (simp add: read_back keeps_refl inv_push_all)

end

text \<open>
  Where the state of the reader is not a function of the position (a reader that updates its counters
  later than the writer), a relation takes the place of \<open>view\<close>. The functional contract is an instance.
\<close>

locale arg_transport_rel =
  fixes push :: "'s \<Rightarrow> 'a \<Rightarrow> 's"
    and fits :: "'s \<Rightarrow> 'a \<Rightarrow> bool"
    and inv :: "'s \<Rightarrow> bool"
    and keeps :: "'s \<Rightarrow> 's \<Rightarrow> bool"
    and reads :: "'r \<Rightarrow> 's \<Rightarrow> 's \<Rightarrow> bool"
    and pop :: "'r \<Rightarrow> 't \<Rightarrow> 'v \<times> 'r"
    and ty :: "'a \<Rightarrow> 't"
    and val :: "'a \<Rightarrow> 'v"
  assumes rel_keeps_refl: "inv s \<Longrightarrow> keeps s s"
    and rel_keeps_trans: "keeps s t \<Longrightarrow> keeps t u \<Longrightarrow> keeps s u"
    and rel_inv_push: "inv s \<Longrightarrow> fits s a \<Longrightarrow> inv (push s a)"
    and rel_keeps_push: "inv s \<Longrightarrow> fits s a \<Longrightarrow> keeps s (push s a)"
    and rel_pop_push:
      "inv s \<Longrightarrow> fits s a \<Longrightarrow> keeps (push s a) F \<Longrightarrow> reads r F s \<Longrightarrow>
         fst (pop r (ty a)) = val a \<and> reads (snd (pop r (ty a))) F (push s a)"
begin

lemma rel_inv_push_all: "inv s \<Longrightarrow> fits_all push fits s as \<Longrightarrow> inv (push_all push s as)"
  by (induction as arbitrary: s) (simp_all add: rel_inv_push)

lemma rel_keeps_push_all: "inv s \<Longrightarrow> fits_all push fits s as \<Longrightarrow> keeps s (push_all push s as)"
proof (induction as arbitrary: s)
  case Nil
  then show ?case by (simp add: rel_keeps_refl)
next
  case (Cons a as)
  then have "keeps (push s a) (push_all push (push s a) as)"
    by (simp add: rel_inv_push)
  with Cons.prems show ?case
    by (auto intro: rel_keeps_trans [OF rel_keeps_push])
qed

lemma rel_read_back:
  "inv s \<Longrightarrow> fits_all push fits s as \<Longrightarrow> keeps (push_all push s as) F \<Longrightarrow> reads r F s \<Longrightarrow>
     fst (pop_all pop r (map ty as)) = map val as"
proof (induction as arbitrary: s r)
  case Nil
  then show ?case by simp
next
  case (Cons a as)
  from Cons.prems have 1: "inv (push s a)" "fits_all push fits (push s a) as"
    by (simp_all add: rel_inv_push)
  with Cons.prems have "keeps (push s a) F"
    by (auto intro: rel_keeps_trans [OF rel_keeps_push_all])
  with Cons.prems have p: "fst (pop r (ty a)) = val a" "reads (snd (pop r (ty a))) F (push s a)"
    by (simp_all add: rel_pop_push)
  from Cons.IH [OF 1 _ p(2)] Cons.prems p(1) show ?case
    by (simp add: case_prod_beta)
qed

lemma rel_round_trip:
  "inv s \<Longrightarrow> fits_all push fits s as \<Longrightarrow> reads r (push_all push s as) s \<Longrightarrow>
     fst (pop_all pop r (map ty as)) = map val as"
  by (rule rel_read_back) (simp_all add: rel_keeps_refl rel_inv_push_all)

end

sublocale arg_transport \<subseteq> rel: arg_transport_rel push fits inv keeps "\<lambda>r F s. r = view F s" pop ty val
  by unfold_locales (auto simp: keeps_refl inv_push keeps_push pop_push intro: keeps_trans)

text \<open>
  Whether an argument fits is a matter of the bytes left in the vector. The locales with \<open>cap\<close> add
  what is used and a bound of what one argument can take, so that a VM that was
  allocated large enough never drops an argument.
\<close>

locale arg_transport_rel_cap = arg_transport_rel +
  fixes used :: "'a \<Rightarrow> nat"
    and cap :: "'a \<Rightarrow> nat"
    and cost :: "'b \<Rightarrow> nat"
  assumes rel_fits_if: "inv s \<Longrightarrow> used s + cost a \<le> cap s \<Longrightarrow> fits s a"
    and rel_used_push: "inv s \<Longrightarrow> fits s a \<Longrightarrow> used (push s a) \<le> used s + cost a"
    and rel_cap_push: "inv s \<Longrightarrow> fits s a \<Longrightarrow> cap (push s a) = cap s"
begin

lemma rel_fits_all_if:
  "inv s \<Longrightarrow> used s + sum_list (map cost as) \<le> cap s \<Longrightarrow> fits_all push fits s as"
proof (induction as arbitrary: s)
  case (Cons a as)
  then have f: "fits s a" by (intro rel_fits_if) simp_all
  with Cons.prems have "used (push s a) + sum_list (map cost as) \<le> cap (push s a)"
    using rel_used_push [of s a] by (simp add: rel_cap_push)
  with Cons f show ?case by (simp add: rel_inv_push)
qed simp

lemma rel_call_round_trip:
  "inv s \<Longrightarrow> used s + sum_list (map cost as) \<le> cap s \<Longrightarrow> reads r (push_all push s as) s \<Longrightarrow>
     fst (pop_all pop r (map ty as)) = map val as"
  by (rule rel_round_trip) (auto intro: rel_fits_all_if)

end

locale arg_transport_cap = arg_transport +
  fixes used :: "'a \<Rightarrow> nat"
    and cap :: "'a \<Rightarrow> nat"
    and cost :: "'b \<Rightarrow> nat"
  assumes fits_if: "inv s \<Longrightarrow> used s + cost a \<le> cap s \<Longrightarrow> fits s a"
    and used_push: "inv s \<Longrightarrow> fits s a \<Longrightarrow> used (push s a) \<le> used s + cost a"
    and cap_push: "inv s \<Longrightarrow> fits s a \<Longrightarrow> cap (push s a) = cap s"

sublocale arg_transport_cap \<subseteq> relc: arg_transport_rel_cap push fits inv keeps "\<lambda>r F s. r = view F s" pop ty val
  used cap cost
  by unfold_locales (auto simp: fits_if used_push cap_push)

context arg_transport_cap
begin

lemmas fits_all_if = relc.rel_fits_all_if

lemma cap_push_all: "inv s \<Longrightarrow> fits_all push fits s as \<Longrightarrow> cap (push_all push s as) = cap s"
  by (induction as arbitrary: s) (simp_all add: cap_push inv_push)

lemma used_push_all:
  "inv s \<Longrightarrow> fits_all push fits s as \<Longrightarrow> used (push_all push s as) \<le> used s + sum_list (map cost as)"
proof (induction as arbitrary: s)
  case (Cons a as)
  then have "used (push_all push (push s a) as) \<le> used (push s a) + sum_list (map cost as)"
    and "used (push s a) \<le> used s + cost a"
    by (simp_all add: inv_push used_push)
  then show ?case by simp
qed simp

text \<open>A call whose reader starts over the final state.\<close>

lemma call_round_trip:
  "inv s \<Longrightarrow> used s + sum_list (map cost as) \<le> cap s \<Longrightarrow> start = view (push_all push s as) s \<Longrightarrow>
     fst (pop_all pop start (map ty as)) = map val as"
  by (rule relc.rel_call_round_trip)

lemma inv_push_all_cap:
  "inv s \<Longrightarrow> used s + sum_list (map cost as) \<le> cap s \<Longrightarrow> inv (push_all push s as)"
  by (rule inv_push_all) (auto intro: fits_all_if)

lemma keeps_push_all_cap:
  "inv s \<Longrightarrow> used s + sum_list (map cost as) \<le> cap s \<Longrightarrow> keeps s (push_all push s as)"
  by (rule keeps_push_all) (auto intro: fits_all_if)

end

end
