(* ===== verification/Vm_X64.thy ===== *)
theory Vm_X64
  imports Dyn_Transport
begin

unbundle bit_operations_syntax

section \<open>The x64 call VM, System V\<close>

text \<open>
  \<open>dyncall/dyncall/dyncall_callvm_x64.{h,c}\<close> as compiled with \<open>DC_UNIX\<close>, and the part of the
  kernel \<open>dyncall_call_x64.S\<close> that builds the frame of the callee. Six integer and eight
  floating point registers are filled first, everything else goes to the vector. The registers are
  arrays indexed by \<open>nat\<close>, the counters are numbers: that they stay within the arrays is the
  invariant \<open>x64_inv\<close>.
\<close>

datatype vt_x64 = gVT_x64 | gVT_x64_syscall_sysv

abbreviation numIntRegs :: nat where "numIntRegs \<equiv> 6"
abbreviation numFloatRegs :: nat where "numFloatRegs \<equiv> 8"

record DCCallVM_x64 = "vt_x64 DCCallVM" +
  mpCallFunc :: u64
  mAggrReturnReg :: int
  rc_i :: nat
  rc_f :: nat
  rd_i :: "nat \<Rightarrow> u64"
  rd_f :: "nat \<Rightarrow> u64"
  mVecHead :: "u64 vec"

text \<open>What the kernels are called with.\<close>

record sysv_args =
  sa_stacksize :: u64
  sa_stackdata :: mem
  sa_regdata_i :: "nat \<Rightarrow> u64"
  sa_regdata_f :: "nat \<Rightarrow> u64"
  sa_target :: u64

datatype x64_kernel = dcCall_x64_sysv sysv_args | dcCall_x64_syscall_sysv "nat \<Rightarrow> u64" u64

subsection \<open>Arguments\<close>

definition dc_callvm_free_x64 :: "DCCallVM_x64 \<Rightarrow> DCCallVM_x64 handle" where
  "dc_callvm_free_x64 self = Freed"

definition dc_callvm_reset_x64 :: "DCCallVM_x64 \<Rightarrow> DCCallVM_x64" where
  "dc_callvm_reset_x64 self =
     self\<lparr>mVecHead := dcVecReset (mVecHead self), rc_i := 0, rc_f := 0, mAggrReturnReg := -1\<rparr>"

definition dc_callvm_argLongLong_x64 :: "DCCallVM_x64 \<Rightarrow> u64 \<Rightarrow> DCCallVM_x64" where
  "dc_callvm_argLongLong_x64 self x =
     (let i = rc_i self + (if int (rc_i self) = mAggrReturnReg self then 1 else 0) in
      if i < numIntRegs then self\<lparr>rd_i := (rd_i self)(i := x), rc_i := Suc i\<rparr>
      else self\<lparr>rc_i := i, mVecHead := dcVecAppend (mVecHead self) (obj_bytes LE 8 x)\<rparr>)"

definition dc_callvm_argBool_x64 :: "DCCallVM_x64 \<Rightarrow> u32 \<Rightarrow> DCCallVM_x64" where
  "dc_callvm_argBool_x64 self x = dc_callvm_argLongLong_x64 self (scast x)"

definition dc_callvm_argChar_x64 :: "DCCallVM_x64 \<Rightarrow> u8 \<Rightarrow> DCCallVM_x64" where
  "dc_callvm_argChar_x64 self x = dc_callvm_argLongLong_x64 self (scast x)"

definition dc_callvm_argShort_x64 :: "DCCallVM_x64 \<Rightarrow> u16 \<Rightarrow> DCCallVM_x64" where
  "dc_callvm_argShort_x64 self x = dc_callvm_argLongLong_x64 self (scast x)"

definition dc_callvm_argInt_x64 :: "DCCallVM_x64 \<Rightarrow> u32 \<Rightarrow> DCCallVM_x64" where
  "dc_callvm_argInt_x64 self x = dc_callvm_argLongLong_x64 self (scast x)"

definition dc_callvm_argLong_x64 :: "DCCallVM_x64 \<Rightarrow> u64 \<Rightarrow> DCCallVM_x64" where
  "dc_callvm_argLong_x64 self x = dc_callvm_argLongLong_x64 self x"

definition dc_callvm_argDouble_x64 :: "DCCallVM_x64 \<Rightarrow> u64 \<Rightarrow> DCCallVM_x64" where
  "dc_callvm_argDouble_x64 self x =
     (if rc_f self < numFloatRegs
      then self\<lparr>rd_f := (rd_f self)(rc_f self := x), rc_f := Suc (rc_f self)\<rparr>
      else self\<lparr>mVecHead := dcVecAppend (mVecHead self) (obj_bytes LE 8 x)\<rparr>)"

text \<open>The float is written to a union whose other half keeps what was on the stack: \<open>pad\<close>.\<close>

definition dc_callvm_argFloat_x64 :: "u32 \<Rightarrow> DCCallVM_x64 \<Rightarrow> u32 \<Rightarrow> DCCallVM_x64" where
  "dc_callvm_argFloat_x64 pad self x = dc_callvm_argDouble_x64 self (word_cat pad x)"

definition dc_callvm_argPointer_x64 :: "DCCallVM_x64 \<Rightarrow> u64 \<Rightarrow> DCCallVM_x64" where
  "dc_callvm_argPointer_x64 self x =
     (let i = rc_i self + (if int (rc_i self) = mAggrReturnReg self then 1 else 0) in
      if i < numIntRegs then self\<lparr>rd_i := (rd_i self)(i := x), rc_i := Suc i\<rparr>
      else self\<lparr>rc_i := i, mVecHead := dcVecAppend (mVecHead self) (obj_bytes LE 8 x)\<rparr>)"

text \<open>The classes a loop \<open>for(i=0; ag->sysv_classes[i] && i<DC_SYSV_MAX_NUM_CLASSES; ++i)\<close> visits.\<close>

definition live_classes :: "DCaggr \<Rightarrow> u8 list" where
  "live_classes ag = takeWhile (\<lambda>c. c \<noteq> SYSVC_NONE) (take DC_SYSV_MAX_NUM_CLASSES (sysv_classes ag))"

text \<open>Whether an aggregate goes to the stack as a whole, with \<open>i\<close> and \<open>f\<close> registers in use: its class is
  MEMORY, or the registers that are left do not hold all of it. The writer and the reader
  (\<open>dyncall_args_x64.c\<close>) both contain this computation.\<close>

definition aggr_via_stack :: "DCaggr \<Rightarrow> nat \<Rightarrow> nat \<Rightarrow> bool" where
  "aggr_via_stack ag i f =
     (let mm = (sysv_classes ag ! 0 = SYSVC_MEMORY);
          n_i = (if mm then i else i + count_list (live_classes ag) SYSVC_INTEGER);
          n_f = (if mm then f else f + count_list (live_classes ag) SYSVC_SSE)
      in mm \<or> numIntRegs < n_i \<or> numFloatRegs < n_f)"

definition heap_qword :: "u64 heap \<Rightarrow> u64 \<Rightarrow> nat \<Rightarrow> u64" where
  "heap_qword h x i = obj_word LE (heap_read h (x + of_nat (8 * i)) 8)"

fun pass_qwords :: "u64 heap \<Rightarrow> u64 \<Rightarrow> nat \<Rightarrow> u8 list \<Rightarrow> DCCallVM_x64 \<Rightarrow> DCCallVM_x64" where
  "pass_qwords h x i [] self = self"
| "pass_qwords h x i (c # cs) self =
     pass_qwords h x (Suc i) cs
       (if c = SYSVC_INTEGER then dc_callvm_argLongLong_x64 self (heap_qword h x i)
        else if c = SYSVC_SSE then dc_callvm_argDouble_x64 self (heap_qword h x i)
        else self)"

definition dc_callvm_argAggr_x64 ::
  "u64 heap \<Rightarrow> DCCallVM_x64 \<Rightarrow> DCaggr option \<Rightarrow> u64 \<Rightarrow> DCCallVM_x64" where
  "dc_callvm_argAggr_x64 h self ag x =
     (case ag of
        None \<Rightarrow> dc_callvm_argPointer_x64 self x
      | Some ag \<Rightarrow>
          if aggr_via_stack ag (rc_i self) (rc_f self) then
            self\<lparr>mVecHead :=
              dcVecSkip (dcVecAppend (mVecHead self) (heap_read h x (unat (ag_size ag))))
                (((ag_size ag + (8 - 1)) AND (- 8)) - ag_size ag)\<rparr>
          else pass_qwords h x 0 (live_classes ag) self)"

subsection \<open>Calls\<close>

definition sysv_args_of :: "DCCallVM_x64 \<Rightarrow> u64 \<Rightarrow> sysv_args" where
  "sysv_args_of self target =
     \<lparr>sa_stacksize = mSize (mVecHead self), sa_stackdata = mData (mVecHead self),
      sa_regdata_i = rd_i self, sa_regdata_f = rd_f self, sa_target = target\<rparr>"

definition dc_callvm_call_x64 :: "DCCallVM_x64 \<Rightarrow> u64 \<Rightarrow> DCCallVM_x64 \<times> x64_kernel" where
  "dc_callvm_call_x64 self target = (self, dcCall_x64_sysv (sysv_args_of self target))"

definition dc_callvm_call_x64_syscall_sysv :: "DCCallVM_x64 \<Rightarrow> u64 \<Rightarrow> DCCallVM_x64 \<times> x64_kernel" where
  "dc_callvm_call_x64_syscall_sysv self target = (self, dcCall_x64_syscall_sysv (rd_i self) target)"

text \<open>\<open>None\<close> is the failed assertion.\<close>

definition dc_callvm_begin_aggr_x64 :: "DCCallVM_x64 \<Rightarrow> DCaggr option \<Rightarrow> DCCallVM_x64 option" where
  "dc_callvm_begin_aggr_x64 self ag =
     (if \<not> (rc_i self = 0 \<and> rc_f self = 0) then None
      else Some
        (case ag of
           None \<Rightarrow> self\<lparr>mAggrReturnReg := 0\<rparr>
         | Some a \<Rightarrow>
             if sysv_classes a ! 0 = SYSVC_MEMORY then self\<lparr>mAggrReturnReg := 0\<rparr> else self))"

text \<open>
  The loop \<open>while(ll-- && st_size--)\<close> that copies one eightbyte of the result: the bytes it copies
  and the count it leaves in \<open>st_size\<close>, which wraps when the test fails on it.
\<close>

fun copy_ll :: "nat \<Rightarrow> u64 \<Rightarrow> nat \<times> u64" where
  "copy_ll 0 st_size = (0, st_size)"
| "copy_ll (Suc ll) st_size =
     (if st_size = 0 then (0, - 1)
      else (case copy_ll ll (st_size - 1) of (n, st) \<Rightarrow> (Suc n, st)))"

text \<open>The bytes put together from the four result registers (at 0, 8 the integer, at 16, 24 the SSE
  registers); \<open>None\<close> where the source pointer was never set.\<close>

fun reassemble :: "mem \<Rightarrow> nat \<Rightarrow> nat \<Rightarrow> u8 list \<Rightarrow> u64 \<Rightarrow> byte list option" where
  "reassemble regs si sf [] st_size = Some []"
| "reassemble regs si sf (c # cs) st_size =
     (case copy_ll 8 st_size of (n, st) \<Rightarrow>
        if c = SYSVC_INTEGER then
          map_option (\<lambda>bs. read_at regs si n @ bs) (reassemble regs (si + n) sf cs st)
        else if c = SYSVC_SSE then
          map_option (\<lambda>bs. read_at regs sf n @ bs) (reassemble regs si (sf + n) cs st)
        else None)"

text \<open>\<open>run\<close> and \<open>run_aggr\<close> are the effects of the two kernels on the memory of the client, the
  second with the result registers that it stores.\<close>

definition dc_callvm_call_x64_aggr ::
  "(sysv_args \<Rightarrow> u64 heap \<Rightarrow> u64 heap) \<Rightarrow> (sysv_args \<Rightarrow> u64 heap \<Rightarrow> u64 heap \<times> mem) \<Rightarrow>
   u64 heap \<Rightarrow> DCCallVM_x64 \<Rightarrow> u64 \<Rightarrow> DCaggr option \<Rightarrow> u64 \<Rightarrow> (DCCallVM_x64 \<times> u64 heap) option" where
  "dc_callvm_call_x64_aggr run run_aggr h self target ag ret =
     (if mAggrReturnReg self \<noteq> -1 then
        (let self = self\<lparr>rd_i := (rd_i self)(nat (mAggrReturnReg self) := ret)\<rparr> in
         Some (self, run (sysv_args_of self target) h))
      else
        (case ag of
           None \<Rightarrow> None
         | Some a \<Rightarrow>
             (case run_aggr (sysv_args_of self target) h of (h', ret_regs) \<Rightarrow>
                map_option (\<lambda>bs. (self, heap_write h' ret bs))
                  (reassemble ret_regs 0 16 (live_classes a) (ag_size a)))))"

subsection \<open>Tables, modes and creation\<close>

definition dc_callvm_mode_x64 :: "DCCallVM_x64 \<Rightarrow> u32 \<Rightarrow> DCCallVM_x64" where
  "dc_callvm_mode_x64 self mode =
     (if mode \<in> {DC_CALL_C_DEFAULT, DC_CALL_C_DEFAULT_THIS, DC_CALL_C_X64_SYSV,
                 DC_CALL_C_ELLIPSIS, DC_CALL_C_ELLIPSIS_VARARGS}
      then dc_callvm_base_init self gVT_x64
      else if mode \<in> {DC_CALL_SYS_DEFAULT, DC_CALL_SYS_X64_SYSCALL_SYSV}
      then dc_callvm_base_init self gVT_x64_syscall_sysv
      else self\<lparr>mError := DC_ERROR_UNSUPPORTED_MODE\<rparr>)"

definition vt_x64_c ::
  "(sysv_args \<Rightarrow> u64 heap \<Rightarrow> u64 heap) \<Rightarrow> (sysv_args \<Rightarrow> u64 heap \<Rightarrow> u64 heap \<times> mem) \<Rightarrow> u32 \<Rightarrow>
   (DCCallVM_x64, u64, u64, x64_kernel) DCCallVM_vt" where
  "vt_x64_c run run_aggr pad =
     \<lparr>vt_free = dc_callvm_free_x64, vt_reset = dc_callvm_reset_x64, vt_mode = dc_callvm_mode_x64,
      vt_argBool = dc_callvm_argBool_x64, vt_argChar = dc_callvm_argChar_x64,
      vt_argShort = dc_callvm_argShort_x64, vt_argInt = dc_callvm_argInt_x64,
      vt_argLong = dc_callvm_argLong_x64, vt_argLongLong = dc_callvm_argLongLong_x64,
      vt_argFloat = dc_callvm_argFloat_x64 pad, vt_argDouble = dc_callvm_argDouble_x64,
      vt_argPointer = dc_callvm_argPointer_x64, vt_argAggr = Some dc_callvm_argAggr_x64,
      vt_call = (\<lambda>_. dc_callvm_call_x64),
      vt_callAggr = Some (dc_callvm_call_x64_aggr run run_aggr),
      vt_beginAggr = Some dc_callvm_begin_aggr_x64\<rparr>"

definition vt_x64_syscall ::
  "u32 \<Rightarrow> (DCCallVM_x64, u64, u64, x64_kernel) DCCallVM_vt" where
  "vt_x64_syscall pad =
     \<lparr>vt_free = dc_callvm_free_x64, vt_reset = dc_callvm_reset_x64, vt_mode = dc_callvm_mode_x64,
      vt_argBool = dc_callvm_argBool_x64, vt_argChar = dc_callvm_argChar_x64,
      vt_argShort = dc_callvm_argShort_x64, vt_argInt = dc_callvm_argInt_x64,
      vt_argLong = dc_callvm_argLong_x64, vt_argLongLong = dc_callvm_argLongLong_x64,
      vt_argFloat = dc_callvm_argFloat_x64 pad, vt_argDouble = dc_callvm_argDouble_x64,
      vt_argPointer = dc_callvm_argPointer_x64, vt_argAggr = None,
      vt_call = (\<lambda>_. dc_callvm_call_x64_syscall_sysv),
      vt_callAggr = None, vt_beginAggr = None\<rparr>"

fun vtab_x64 ::
  "(sysv_args \<Rightarrow> u64 heap \<Rightarrow> u64 heap) \<Rightarrow> (sysv_args \<Rightarrow> u64 heap \<Rightarrow> u64 heap \<times> mem) \<Rightarrow> u32 \<Rightarrow>
   vt_x64 \<Rightarrow> (DCCallVM_x64, u64, u64, x64_kernel) DCCallVM_vt" where
  "vtab_x64 run run_aggr pad gVT_x64 = vt_x64_c run run_aggr pad"
| "vtab_x64 run run_aggr pad gVT_x64_syscall_sysv = vt_x64_syscall pad"

text \<open>\<open>dcNewCallVM\<close> on memory with the contents \<open>p\<close>; \<open>sizeof(DCRegData_x64)\<close> is 112.\<close>

definition dcNewCallVM_x64 :: "DCCallVM_x64 \<Rightarrow> u64 \<Rightarrow> DCCallVM_x64" where
  "dcNewCallVM_x64 p sz =
     (let p = dc_callvm_mode_x64 p DC_CALL_C_DEFAULT;
          sz = sz - 112;
          sz = (if sz <s 0 then 0 else sz)
      in dc_callvm_reset_x64 (p\<lparr>mVecHead := dcVecInit (mVecHead p) sz\<rparr>))"

subsection \<open>The frame the kernel builds\<close>

text \<open>
  \<open>dcCall_x64_sysv\<close> of \<open>dyncall_call_x64.S\<close>: it makes room for the size rounded up to 32
  bytes plus 8, copies that many bytes of the vector to the top of the stack, loads the registers
  and calls. \<open>fr_stack\<close> is the memory from the first stack argument of the callee; beyond the copied
  bytes it is the frame of the caller, \<open>caller\<close>.
\<close>

record x64_frame =
  fr_int :: "nat \<Rightarrow> u64"
  fr_float :: "nat \<Rightarrow> u64"
  fr_stack :: mem

definition copied_bytes :: "u64 \<Rightarrow> u64" where
  "copied_bytes stacksize = ((stacksize + 31) AND (- 32)) + 8"

definition sysv_frame :: "mem \<Rightarrow> sysv_args \<Rightarrow> x64_frame" where
  "sysv_frame caller a =
     \<lparr>fr_int = sa_regdata_i a, fr_float = sa_regdata_f a,
      fr_stack = (\<lambda>j. if j < unat (copied_bytes (sa_stacksize a)) then sa_stackdata a j else caller j)\<rparr>"

end
