(* ===== verification/Args_X64.thy ===== *)
theory Args_X64
  imports Vm_X64
begin

unbundle bit_operations_syntax

section \<open>The x64 argument reader, System V, and the round trip\<close>

text \<open>
  \<open>dyncall/dyncallback/dyncall_args_x64.{h,c}\<close> as compiled with \<open>DC_UNIX\<close>, the initialisation of its
  state in \<open>dyncall_callback_x64.S\<close> and \<open>dcbInitCallback2\<close> of \<open>dyncall_callback_x64.c\<close>; then the
  proof that it reads what the call VM of \<open>Vm_X64\<close> wrote. \<open>stack_ptr\<close> is a byte offset in the memory
  \<open>arg_stack\<close> of the frame, the array \<open>aggrs\<close> the list of the descriptions that are left.
\<close>

record DCArgs_x64 =
  stack_ptr :: nat
  reg_count_i :: nat
  reg_count_f :: nat
  aggr_return_register :: int
  aggrs :: "DCaggr option list"
  reg_data_i :: "nat \<Rightarrow> u64"
  reg_data_f :: "nat \<Rightarrow> u64"
  arg_stack :: mem

definition arg_i64 :: "DCArgs_x64 \<Rightarrow> u64 \<times> DCArgs_x64" where
  "arg_i64 args =
     (let i = reg_count_i args + (if int (reg_count_i args) = aggr_return_register args then 1 else 0) in
      if i < numIntRegs then (reg_data_i args i, args\<lparr>reg_count_i := Suc i\<rparr>)
      else (obj_word LE (read_at (arg_stack args) (stack_ptr args) 8),
            args\<lparr>reg_count_i := i, stack_ptr := stack_ptr args + 8\<rparr>))"

definition arg_f64 :: "DCArgs_x64 \<Rightarrow> u64 \<times> DCArgs_x64" where
  "arg_f64 args =
     (if reg_count_f args < numFloatRegs
      then (reg_data_f args (reg_count_f args), args\<lparr>reg_count_f := Suc (reg_count_f args)\<rparr>)
      else (obj_word LE (read_at (arg_stack args) (stack_ptr args) 8),
            args\<lparr>stack_ptr := stack_ptr args + 8\<rparr>))"

definition dcbArgLongLong_x64 :: "DCArgs_x64 \<Rightarrow> u64 \<times> DCArgs_x64" where
  "dcbArgLongLong_x64 p = arg_i64 p"

definition dcbArgInt_x64 :: "DCArgs_x64 \<Rightarrow> u32 \<times> DCArgs_x64" where
  "dcbArgInt_x64 p = map_prod ucast id (dcbArgLongLong_x64 p)"

definition dcbArgLong_x64 :: "DCArgs_x64 \<Rightarrow> u64 \<times> DCArgs_x64" where
  "dcbArgLong_x64 p = dcbArgLongLong_x64 p"

definition dcbArgChar_x64 :: "DCArgs_x64 \<Rightarrow> u8 \<times> DCArgs_x64" where
  "dcbArgChar_x64 p = map_prod ucast id (dcbArgLongLong_x64 p)"

definition dcbArgShort_x64 :: "DCArgs_x64 \<Rightarrow> u16 \<times> DCArgs_x64" where
  "dcbArgShort_x64 p = map_prod ucast id (dcbArgLongLong_x64 p)"

definition dcbArgBool_x64 :: "DCArgs_x64 \<Rightarrow> u32 \<times> DCArgs_x64" where
  "dcbArgBool_x64 p = map_prod (\<lambda>i. if i \<noteq> 0 then 1 else 0) id (dcbArgInt_x64 p)"

definition dcbArgPointer_x64 :: "DCArgs_x64 \<Rightarrow> u64 \<times> DCArgs_x64" where
  "dcbArgPointer_x64 p = dcbArgLongLong_x64 p"

definition dcbArgDouble_x64 :: "DCArgs_x64 \<Rightarrow> u64 \<times> DCArgs_x64" where
  "dcbArgDouble_x64 p = arg_f64 p"

definition dcbArgFloat_x64 :: "DCArgs_x64 \<Rightarrow> u32 \<times> DCArgs_x64" where
  "dcbArgFloat_x64 p = map_prod ucast id (arg_f64 p)"

text \<open>The readers of the unsigned types return the same bits. A client's read by type:\<close>

fun dcbArg_x64 :: "DCArgs_x64 \<Rightarrow> dcty \<Rightarrow> (u64, u64) dcarg \<times> DCArgs_x64" where
  "dcbArg_x64 p TBool = map_prod ABool id (dcbArgBool_x64 p)"
| "dcbArg_x64 p TChar = map_prod AChar id (dcbArgChar_x64 p)"
| "dcbArg_x64 p TShort = map_prod AShort id (dcbArgShort_x64 p)"
| "dcbArg_x64 p TInt = map_prod AInt id (dcbArgInt_x64 p)"
| "dcbArg_x64 p TLong = map_prod ALong id (dcbArgLong_x64 p)"
| "dcbArg_x64 p TLongLong = map_prod ALongLong id (dcbArgLongLong_x64 p)"
| "dcbArg_x64 p TFloat = map_prod AFloat id (dcbArgFloat_x64 p)"
| "dcbArg_x64 p TDouble = map_prod ADouble id (dcbArgDouble_x64 p)"
| "dcbArg_x64 p TPointer = map_prod APointer id (dcbArgPointer_x64 p)"

text \<open>
  \<open>dcbArgAggr\<close> with the memory of the client: \<open>None\<close> where it asserts or dereferences a null
  pointer. \<open>s\<close> is the number of bytes of the aggregate in eightbyte \<open>i\<close>.
\<close>

fun read_qwords ::
  "u64 \<Rightarrow> u64 \<Rightarrow> nat \<Rightarrow> u8 list \<Rightarrow> u64 heap \<Rightarrow> DCArgs_x64 \<Rightarrow> (u64 heap \<times> DCArgs_x64) option" where
  "read_qwords asize target i [] h p = Some (h, p)"
| "read_qwords asize target i (c # cs) h p =
     (let s = asize - of_nat (8 * i);
          s = (if s < 8 then unat s else 8);
          dst = target + of_nat (8 * i)
      in if c = SYSVC_INTEGER then
           (case dcbArgLongLong_x64 p of (l, p') \<Rightarrow>
              read_qwords asize target (Suc i) cs (heap_write h dst (take s (obj_bytes LE 8 l))) p')
         else if c = SYSVC_SSE then
           (if s = 8 then
              (case dcbArgDouble_x64 p of (d, p') \<Rightarrow>
                 read_qwords asize target (Suc i) cs (heap_write h dst (obj_bytes LE 8 d)) p')
            else if s = 4 then
              (case dcbArgFloat_x64 p of (f, p') \<Rightarrow>
                 read_qwords asize target (Suc i) cs (heap_write h dst (obj_bytes LE 4 f)) p')
            else None)
         else None)"

definition dcbArgAggr_x64 ::
  "u64 heap \<Rightarrow> DCArgs_x64 \<Rightarrow> u64 \<Rightarrow> (u64 \<times> u64 heap \<times> DCArgs_x64) option" where
  "dcbArgAggr_x64 h p target =
     (case aggrs p of
        [] \<Rightarrow> None
      | ag # rest \<Rightarrow>
          let p = p\<lparr>aggrs := rest\<rparr> in
          (case ag of
             None \<Rightarrow> (case dcbArgPointer_x64 p of (ptr, p') \<Rightarrow> Some (ptr, h, p'))
           | Some ag \<Rightarrow>
               if aggr_via_stack ag (reg_count_i p) (reg_count_f p) then
                 Some (target, heap_write h target (read_at (arg_stack p) (stack_ptr p) (unat (ag_size ag))),
                       p\<lparr>stack_ptr := stack_ptr p + 8 * unat (drop_bit 3 (ag_size ag + (8 - 1)))\<rparr>)
               else
                 map_option (\<lambda>(h', p'). (target, h', p'))
                   (read_qwords (ag_size ag) target 0 (live_classes ag) h p)))"

text \<open>
  \<open>dcbReturnAggr\<close>: the result goes to the memory behind the hidden pointer, or to four quadwords for
  the result registers, two integer and two SSE, that are given and returned as a memory of 32 bytes.
\<close>

fun return_qwords :: "u64 heap \<Rightarrow> u64 \<Rightarrow> nat \<Rightarrow> nat \<Rightarrow> nat \<Rightarrow> u8 list \<Rightarrow> mem \<Rightarrow> mem option" where
  "return_qwords h ret i ir fr [] regs = Some regs"
| "return_qwords h ret i ir fr (c # cs) regs =
     (if c = SYSVC_INTEGER then
        return_qwords h ret (Suc i) (ir + 8) fr cs (write_at regs ir (heap_read h (ret + of_nat (8 * i)) 8))
      else if c = SYSVC_SSE then
        return_qwords h ret (Suc i) ir (fr + 8) cs (write_at regs fr (heap_read h (ret + of_nat (8 * i)) 8))
      else None)"

definition dcbReturnAggr_x64 ::
  "u64 heap \<Rightarrow> DCArgs_x64 \<Rightarrow> mem \<Rightarrow> u64 \<Rightarrow> (u64 heap \<times> mem \<times> DCArgs_x64) option" where
  "dcbReturnAggr_x64 h args result ret =
     (case aggrs args of
        [] \<Rightarrow> None
      | ag # rest \<Rightarrow>
          let p = args\<lparr>aggrs := rest\<rparr> in
          if 0 \<le> aggr_return_register args then
            (let dest = reg_data_i args (nat (aggr_return_register args));
                 h' = (case ag of
                         None \<Rightarrow> h
                       | Some a \<Rightarrow> heap_write h dest (heap_read h ret (unat (ag_size a))))
             in Some (h', write_at result 0 (obj_bytes LE 8 dest), p))
          else
            (case ag of
               None \<Rightarrow> None
             | Some a \<Rightarrow>
                 map_option (\<lambda>r. (h, r, p))
                   (return_qwords h ret 0 0 16 (take 2 (live_classes a)) result)))"


subsection \<open>The state at the entry of a callback\<close>

text \<open>\<open>dcCallback_x64_sysv\<close> of \<open>dyncall_callback_x64.S\<close> spills the argument registers into
  \<open>DCArgs\<close>, clears the counters and points to the first stack argument; \<open>ar\<close> and \<open>ags\<close> come from
  the \<open>DCCallback\<close>.\<close>

definition dcCallback_x64_sysv :: "int \<Rightarrow> DCaggr option list \<Rightarrow> x64_frame \<Rightarrow> DCArgs_x64" where
  "dcCallback_x64_sysv ar ags fr =
     \<lparr>stack_ptr = 0, reg_count_i = 0, reg_count_f = 0, aggr_return_register = ar, aggrs = ags,
      reg_data_i = fr_int fr, reg_data_f = fr_float fr, arg_stack = fr_stack fr\<rparr>"

subsection \<open>Invariant, fitting and keeping\<close>

definition x64_inv :: "DCCallVM_x64 \<Rightarrow> bool" where
  "x64_inv s \<longleftrightarrow> rc_i s \<le> numIntRegs \<and> rc_f s \<le> numFloatRegs \<and> mAggrReturnReg s \<in> {-1, 0} \<and>
     vec_ok (mVecHead s) \<and> unat (mTotal (mVecHead s)) < 2 ^ 63"

definition x64_int_fits :: "DCCallVM_x64 \<Rightarrow> bool" where
  "x64_int_fits s \<longleftrightarrow>
     rc_i s + (if int (rc_i s) = mAggrReturnReg s then 1 else 0) < numIntRegs \<or> vec_fits (mVecHead s) 8"

definition x64_float_fits :: "DCCallVM_x64 \<Rightarrow> bool" where
  "x64_float_fits s \<longleftrightarrow> rc_f s < numFloatRegs \<or> vec_fits (mVecHead s) 8"

definition x64_fits :: "DCCallVM_x64 \<Rightarrow> ('l, 'p) dcarg \<Rightarrow> bool" where
  "x64_fits s a = (if is_fp a then x64_float_fits s else x64_int_fits s)"

definition x64_keeps :: "DCCallVM_x64 \<Rightarrow> DCCallVM_x64 \<Rightarrow> bool" where
  "x64_keeps s t \<longleftrightarrow>
     rc_i s \<le> rc_i t \<and> rc_f s \<le> rc_f t \<and> mAggrReturnReg t = mAggrReturnReg s \<and>
     (\<forall>j < rc_i s. int j \<noteq> mAggrReturnReg s \<longrightarrow> rd_i t j = rd_i s j) \<and>
     (\<forall>j < rc_f s. rd_f t j = rd_f s j) \<and>
     vec_keeps (mVecHead s) (mVecHead t) \<and> vec_ok (mVecHead t)"

text \<open>The values that come back: a \<open>DCbool\<close> is normalised to 0 or 1 by the reader.\<close>

fun x64_val :: "('l, 'p) dcarg \<Rightarrow> ('l, 'p) dcarg" where
  "x64_val (ABool b) = ABool (if b \<noteq> 0 then 1 else 0)"
| "x64_val a = a"

text \<open>The reader over the frame that a call in state \<open>F\<close> builds, at the position of \<open>s\<close>. A callback
  whose VM returns no hidden aggregate has a negative register number, which one does not matter.\<close>

definition x64_view ::
  "mem \<Rightarrow> u64 \<Rightarrow> nat \<Rightarrow> DCaggr option list \<Rightarrow> DCCallVM_x64 \<Rightarrow> DCCallVM_x64 \<Rightarrow> DCArgs_x64" where
  "x64_view caller target neg ags F s =
     (dcCallback_x64_sysv (if mAggrReturnReg F = -1 then - int (Suc neg) else mAggrReturnReg F) ags
        (sysv_frame caller (sysv_args_of F target)))
     \<lparr>stack_ptr := unat (mSize (mVecHead s)), reg_count_i := rc_i s, reg_count_f := rc_f s\<rparr>"

lemma x64_keeps_refl: "x64_inv s \<Longrightarrow> x64_keeps s s"
  by (simp add: x64_keeps_def x64_inv_def)

lemma x64_keeps_trans: "x64_keeps s t \<Longrightarrow> x64_keeps t u \<Longrightarrow> x64_keeps s u"
  by (auto simp: x64_keeps_def intro: vec_keeps_trans)

text \<open>The kernel copies at least the bytes of the vector.\<close>

lemma copied_bytes_ge:
  assumes "unat n < 2 ^ 63"
  shows "unat n \<le> unat (copied_bytes n)"
proof -
  have e: "(n + 31) AND (- 32) = mask_up n (2 ^ 5)"
    by (simp add: mask_up_def add.commute)
  from assms have r: "unat (mask_up n (2 ^ 5)) = round_up (2 ^ 5) (unat n)"
    by (intro unat_mask_up) simp_all
  have "round_up (2 ^ 5) (unat n) < unat n + 2 ^ 5" and ge: "unat n \<le> round_up (2 ^ 5) (unat n)"
    by (simp_all only: round_up_less round_up_ge zero_less_power zero_less_numeral)
  with assms have "unat (mask_up n (2 ^ 5) + 8) = round_up (2 ^ 5) (unat n) + 8"
    unfolding r [symmetric] by (simp add: unat_plus_if')
  with ge show ?thesis by (simp add: copied_bytes_def e)
qed

text \<open>So the reader finds on the stack what the vector holds below its size.\<close>

lemma frame_stack_read:
  assumes "vec_ok (mVecHead F)" and "unat (mTotal (mVecHead F)) < 2 ^ 63"
    and "i + n \<le> unat (mSize (mVecHead F))"
  shows "read_at (fr_stack (sysv_frame caller (sysv_args_of F target))) i n
       = read_at (mData (mVecHead F)) i n"
proof (rule read_at_cong)
  fix j assume "j < i + n"
  with assms(3) have "j < unat (mSize (mVecHead F))" by simp
  also have "\<dots> \<le> unat (copied_bytes (mSize (mVecHead F)))"
    using assms(1,2) by (intro copied_bytes_ge vec_size_small)
  finally show "fr_stack (sysv_frame caller (sysv_args_of F target)) j = mData (mVecHead F) j"
    by (simp add: sysv_frame_def sysv_args_of_def)
qed


subsection \<open>One argument\<close>

lemmas x64_arg_defs = dc_callvm_argBool_x64_def dc_callvm_argChar_x64_def dc_callvm_argShort_x64_def
  dc_callvm_argInt_x64_def dc_callvm_argLong_x64_def dc_callvm_argFloat_x64_def

lemmas x64_read_defs = dcbArgLongLong_x64_def dcbArgInt_x64_def dcbArgLong_x64_def
  dcbArgChar_x64_def dcbArgShort_x64_def dcbArgBool_x64_def dcbArgPointer_x64_def
  dcbArgDouble_x64_def dcbArgFloat_x64_def

lemma argPointer_x64_eq: "dc_callvm_argPointer_x64 = dc_callvm_argLongLong_x64"
  by (simp add: fun_eq_iff dc_callvm_argPointer_x64_def dc_callvm_argLongLong_x64_def)

lemma x64_inv_push_int: "x64_inv s \<Longrightarrow> x64_inv (dc_callvm_argLongLong_x64 s x)"
  by (auto simp: x64_inv_def dc_callvm_argLongLong_x64_def Let_def vec_ok_append)

lemma x64_inv_push_float: "x64_inv s \<Longrightarrow> x64_inv (dc_callvm_argDouble_x64 s x)"
  by (auto simp: x64_inv_def dc_callvm_argDouble_x64_def vec_ok_append)

lemma x64_keeps_push_int:
  "x64_inv s \<Longrightarrow> x64_int_fits s \<Longrightarrow> x64_keeps s (dc_callvm_argLongLong_x64 s x)"
  by (auto simp: x64_inv_def x64_int_fits_def x64_keeps_def dc_callvm_argLongLong_x64_def Let_def
      vec_ok_append vec_keeps_append)

lemma x64_keeps_push_float:
  "x64_inv s \<Longrightarrow> x64_float_fits s \<Longrightarrow> x64_keeps s (dc_callvm_argDouble_x64 s x)"
  by (auto simp: x64_inv_def x64_float_fits_def x64_keeps_def dc_callvm_argDouble_x64_def
      vec_ok_append vec_keeps_append)

text \<open>A quadword of the vector that a later state keeps is read from the frame.\<close>

lemma x64_stack_qword:
  assumes "x64_inv s" and "vec_fits (mVecHead s) 8"
    and "vec_keeps (dcVecAppend (mVecHead s) (obj_bytes LE 8 x)) (mVecHead F)" and "vec_ok (mVecHead F)"
  shows "obj_word LE (read_at (fr_stack (sysv_frame caller (sysv_args_of F target)))
           (unat (mSize (mVecHead s))) 8) = (x :: u64)"
proof -
  have "unat (mSize (mVecHead s)) + 8 \<le> unat (mSize (mVecHead F))"
    using assms(2,3) vec_append_used [of "mVecHead s" "obj_bytes LE 8 x"] by (simp add: vec_keeps_def)
  moreover have "unat (mTotal (mVecHead F)) < 2 ^ 63"
    using assms(1,3) by (simp add: x64_inv_def vec_keeps_def)
  ultimately show ?thesis
    using assms by (subst frame_stack_read) (simp_all add: read_appended_word)
qed

lemma x64_pop_int:
  assumes "x64_inv s" and "x64_int_fits s" and "x64_keeps (dc_callvm_argLongLong_x64 s x) F"
  shows "arg_i64 (x64_view caller target neg ags F s)
       = (x, x64_view caller target neg ags F (dc_callvm_argLongLong_x64 s x))"
proof -
  let ?i = "rc_i s + (if int (rc_i s) = mAggrReturnReg s then 1 else 0)"
  have ret: "(int (rc_i s) = (if mAggrReturnReg F = -1 then - int (Suc neg) else mAggrReturnReg F)) \<longleftrightarrow>
             (int (rc_i s) = mAggrReturnReg s)"
    using assms(1,3)
    by (auto simp: x64_keeps_def x64_inv_def dc_callvm_argLongLong_x64_def Let_def split: if_splits)
  show ?thesis
  proof (cases "?i < numIntRegs")
    case True
    moreover have "int ?i \<noteq> mAggrReturnReg s"
      using assms(1) by (auto simp: x64_inv_def)
    ultimately have "rd_i F ?i = x"
      using assms(3) by (auto simp: x64_keeps_def dc_callvm_argLongLong_x64_def Let_def split: if_splits)
    with True show ?thesis
      using ret by (simp add: arg_i64_def x64_view_def dcCallback_x64_sysv_def Let_def
          dc_callvm_argLongLong_x64_def sysv_frame_def sysv_args_of_def)
  next
    case False
    with assms(2) have f: "vec_fits (mVecHead s) 8" by (simp add: x64_int_fits_def)
    with False assms(3) have k: "vec_keeps (dcVecAppend (mVecHead s) (obj_bytes LE 8 x)) (mVecHead F)"
        "vec_ok (mVecHead F)"
      by (auto simp: x64_keeps_def dc_callvm_argLongLong_x64_def Let_def)
    from False f show ?thesis
      using ret x64_stack_qword [OF assms(1) f k, of caller target]
      by (simp add: arg_i64_def x64_view_def dcCallback_x64_sysv_def Let_def
          dc_callvm_argLongLong_x64_def vec_append_used)
  qed
qed

lemma x64_pop_float:
  assumes "x64_inv s" and "x64_float_fits s" and "x64_keeps (dc_callvm_argDouble_x64 s x) F"
  shows "arg_f64 (x64_view caller target neg ags F s)
       = (x, x64_view caller target neg ags F (dc_callvm_argDouble_x64 s x))"
proof (cases "rc_f s < numFloatRegs")
  case True
  with assms(3) have "rd_f F (rc_f s) = x"
    by (simp add: x64_keeps_def dc_callvm_argDouble_x64_def)
  with True show ?thesis
    by (simp add: arg_f64_def x64_view_def dcCallback_x64_sysv_def dc_callvm_argDouble_x64_def
        sysv_frame_def sysv_args_of_def)
next
  case False
  with assms(2) have f: "vec_fits (mVecHead s) 8" by (simp add: x64_float_fits_def)
  with False assms(3) have k: "vec_keeps (dcVecAppend (mVecHead s) (obj_bytes LE 8 x)) (mVecHead F)"
      "vec_ok (mVecHead F)"
    by (auto simp: x64_keeps_def dc_callvm_argDouble_x64_def)
  from False f show ?thesis
    using x64_stack_qword [OF assms(1) f k, of caller target]
    by (simp add: arg_f64_def x64_view_def dcCallback_x64_sysv_def
        dc_callvm_argDouble_x64_def vec_append_used)
qed


subsection \<open>The contract holds\<close>

lemma vtab_x64_args:
  "vt_argBool (vtab_x64 run run_aggr pad i) = dc_callvm_argBool_x64"
  "vt_argChar (vtab_x64 run run_aggr pad i) = dc_callvm_argChar_x64"
  "vt_argShort (vtab_x64 run run_aggr pad i) = dc_callvm_argShort_x64"
  "vt_argInt (vtab_x64 run run_aggr pad i) = dc_callvm_argInt_x64"
  "vt_argLong (vtab_x64 run run_aggr pad i) = dc_callvm_argLong_x64"
  "vt_argLongLong (vtab_x64 run run_aggr pad i) = dc_callvm_argLongLong_x64"
  "vt_argFloat (vtab_x64 run run_aggr pad i) = dc_callvm_argFloat_x64 pad"
  "vt_argDouble (vtab_x64 run run_aggr pad i) = dc_callvm_argDouble_x64"
  "vt_argPointer (vtab_x64 run run_aggr pad i) = dc_callvm_argLongLong_x64"
  by (cases i; simp add: vt_x64_c_def vt_x64_syscall_def argPointer_x64_eq)+

lemma x64_inv_dcArg: "x64_inv s \<Longrightarrow> x64_inv (dcArg (vtab_x64 run run_aggr pad) s a)"
  by (cases a) (simp_all add: vtab_x64_args x64_arg_defs x64_inv_push_int x64_inv_push_float)

lemma x64_keeps_dcArg:
  "x64_inv s \<Longrightarrow> x64_fits s a \<Longrightarrow> x64_keeps s (dcArg (vtab_x64 run run_aggr pad) s a)"
  by (cases a) (simp_all add: vtab_x64_args x64_arg_defs x64_fits_def x64_keeps_push_int x64_keeps_push_float)

lemma x64_pop_dcArg:
  assumes "x64_inv s" and "x64_fits s a" and "x64_keeps (dcArg (vtab_x64 run run_aggr pad) s a) F"
  shows "dcbArg_x64 (x64_view caller target neg ags F s) (arg_ty a)
       = (x64_val a, x64_view caller target neg ags F (dcArg (vtab_x64 run run_aggr pad) s a))"
  using assms
  by (cases a)
    (simp_all add: vtab_x64_args x64_arg_defs x64_read_defs x64_fits_def x64_pop_int x64_pop_float
      ucast_scast_trunc ucast_word_cat_low)

interpretation x64: arg_transport "dcArg (vtab_x64 run run_aggr pad)" x64_fits x64_inv x64_keeps
  "x64_view caller target neg ags" dcbArg_x64 arg_ty x64_val
  for run run_aggr pad caller target neg ags
  by unfold_locales
    (auto simp: x64_keeps_refl x64_inv_dcArg x64_keeps_dcArg x64_pop_dcArg intro: x64_keeps_trans)

text \<open>Every argument takes at most eight bytes of the vector.\<close>

definition x64_used :: "DCCallVM_x64 \<Rightarrow> nat" where
  "x64_used s = unat (mSize (mVecHead s))"

definition x64_cap :: "DCCallVM_x64 \<Rightarrow> nat" where
  "x64_cap s = unat (mTotal (mVecHead s))"

lemma x64_used_push_int:
  "x64_int_fits s \<Longrightarrow> x64_used (dc_callvm_argLongLong_x64 s x) \<le> x64_used s + 8"
  by (auto simp: x64_used_def x64_int_fits_def dc_callvm_argLongLong_x64_def Let_def vec_append_used)

lemma x64_used_push_float:
  "x64_float_fits s \<Longrightarrow> x64_used (dc_callvm_argDouble_x64 s x) \<le> x64_used s + 8"
  by (auto simp: x64_used_def x64_float_fits_def dc_callvm_argDouble_x64_def vec_append_used)

lemma x64_cap_push [simp]:
  "x64_cap (dc_callvm_argLongLong_x64 s x) = x64_cap s"
  "x64_cap (dc_callvm_argDouble_x64 s x) = x64_cap s"
  by (simp_all add: x64_cap_def dc_callvm_argLongLong_x64_def dc_callvm_argDouble_x64_def Let_def)

lemma x64_fits_if: "x64_used s + 8 \<le> x64_cap s \<Longrightarrow> x64_fits s a"
  by (simp add: x64_fits_def x64_float_fits_def x64_int_fits_def vec_fits_def x64_used_def x64_cap_def)

lemma x64_used_dcArg:
  "x64_fits s a \<Longrightarrow> x64_used (dcArg (vtab_x64 run run_aggr pad) s a) \<le> x64_used s + 8"
  by (cases a) (simp_all add: vtab_x64_args x64_arg_defs x64_fits_def x64_used_push_int x64_used_push_float)

lemma x64_cap_dcArg: "x64_cap (dcArg (vtab_x64 run run_aggr pad) s a) = x64_cap s"
  by (cases a) (simp_all add: vtab_x64_args x64_arg_defs)

interpretation x64c: arg_transport_cap "dcArg (vtab_x64 run run_aggr pad)" x64_fits x64_inv x64_keeps
  "x64_view caller target neg ags" dcbArg_x64 arg_ty x64_val x64_used x64_cap "\<lambda>_. 8"
  for run run_aggr pad caller target neg ags
  by unfold_locales
    (simp_all add: x64_used_dcArg x64_cap_dcArg x64_fits_if)


subsection \<open>A whole call\<close>

lemma mVTpointer_dcArg_x64: "mVTpointer (dcArg (vtab_x64 run run_aggr pad) s a) = mVTpointer s"
  by (cases a) (simp_all add: vtab_x64_args x64_arg_defs dc_callvm_argLongLong_x64_def
      dc_callvm_argDouble_x64_def Let_def)

lemma mVTpointer_dcArgs_x64: "mVTpointer (dcArgs (vtab_x64 run run_aggr pad) s xs) = mVTpointer s"
  by (induction xs arbitrary: s) (simp_all add: mVTpointer_dcArg_x64)

lemma vt_reset_x64 [simp]: "dcReset (vtab_x64 run run_aggr pad) s = dc_callvm_reset_x64 s"
  by (cases "mVTpointer s") (simp_all add: dcReset_def vt_x64_c_def vt_x64_syscall_def)

lemma x64_inv_reset: "unat (mTotal (mVecHead s)) < 2 ^ 63 \<Longrightarrow> x64_inv (dc_callvm_reset_x64 s)"
  by (simp add: x64_inv_def dc_callvm_reset_x64_def dcVecReset_def vec_ok_def)

lemma neg_reg: "ar < 0 \<Longrightarrow> - int (Suc (nat (- ar - 1))) = ar"
  by simp

text \<open>The round trip of a scalar call, for the properties that build on it.\<close>

lemma x64_call_read_back:
  assumes "unat (mTotal (mVecHead vm)) < 2 ^ 63"
    and "8 * length xs \<le> unat (mTotal (mVecHead vm))"
    and "mVTpointer vm = gVT_x64" and "ar < 0"
  shows "\<exists>a. snd (dcCall (vtab_x64 run run_aggr pad) c
                 (dcArgs (vtab_x64 run run_aggr pad) (dcReset (vtab_x64 run run_aggr pad) vm) xs) target)
             = dcCall_x64_sysv a \<and>
           fst (pop_all dcbArg_x64 (dcCallback_x64_sysv ar ags (sysv_frame caller a)) (map arg_ty xs))
             = map x64_val xs"
proof -
  let ?V = "vtab_x64 run run_aggr pad"
  let ?s = "dc_callvm_reset_x64 vm"
  let ?F = "dcArgs ?V ?s xs"
  have inv: "x64_inv ?s" using assms(1) by (rule x64_inv_reset)
  have z: "rc_i ?s = 0" "rc_f ?s = 0" "mSize (mVecHead ?s) = 0" "mAggrReturnReg ?s = -1"
      "mVTpointer ?s = gVT_x64" "mTotal (mVecHead ?s) = mTotal (mVecHead vm)"
    using assms(3) by (simp_all add: dc_callvm_reset_x64_def dcVecReset_def)
  have cap: "x64_used ?s + sum_list (map (\<lambda>_. 8) xs) \<le> x64_cap ?s"
    using assms(2) z by (simp add: x64_used_def x64_cap_def sum_list_triv mult.commute)
  have "x64_keeps ?s ?F"
    using x64.keeps_push_all [OF inv x64c.fits_all_if [OF inv cap]] by (simp add: push_all_dcArgs)
  with z have m: "mAggrReturnReg ?F = -1" by (simp add: x64_keeps_def)
  have "x64_view caller target (nat (- ar - 1)) ags ?F ?s
      = dcCallback_x64_sysv ar ags (sysv_frame caller (sysv_args_of ?F target))"
    using z m neg_reg [OF assms(4)] by (simp add: x64_view_def dcCallback_x64_sysv_def)
  with x64c.call_round_trip [OF inv cap refl, where run = run and run_aggr = run_aggr and pad = pad
      and caller = caller and target = target and neg = "nat (- ar - 1)" and ags = ags]
  have "fst (pop_all dcbArg_x64 (dcCallback_x64_sysv ar ags (sysv_frame caller (sysv_args_of ?F target)))
          (map arg_ty xs)) = map x64_val xs"
    by (simp add: push_all_dcArgs)
  moreover have "snd (dcCall ?V c ?F target) = dcCall_x64_sysv (sysv_args_of ?F target)"
    using z by (simp add: dcCall_def mVTpointer_dcArgs_x64 vt_x64_c_def dc_callvm_call_x64_def)
  ultimately show ?thesis by auto
qed

text \<open>C1: A program that resets a System V x64 call VM, passes any list of arguments through the public
  interface and calls a callback gives its handler exactly these arguments: the frame the kernel
  builds, spilled by the callback entry, read by \<open>dcbArg\<close> functions of the same types, gives
  back every value in order (a \<open>DCbool\<close> as 0 or 1), if eight bytes of the vector are there for each.\<close>

theorem x64_arguments_arrive:
  assumes "unat (mTotal (mVecHead vm)) < 2 ^ 63"
    and "8 * length xs \<le> unat (mTotal (mVecHead vm))"
    and "mVTpointer vm = gVT_x64" and "ar < 0"
  shows "\<exists>a. snd (dcCall (vtab_x64 run run_aggr pad) c
                 (dcArgs (vtab_x64 run run_aggr pad) (dcReset (vtab_x64 run run_aggr pad) vm) xs) target)
             = dcCall_x64_sysv a \<and>
           fst (pop_all dcbArg_x64 (dcCallback_x64_sysv ar ags (sysv_frame caller a)) (map arg_ty xs))
             = map x64_val xs"
  by (rule x64_call_read_back [OF assms])


text \<open>A fresh VM with room for \<open>cap\<close> bytes, for the concrete instances.\<close>

definition x64_blank :: "u64 \<Rightarrow> DCCallVM_x64" where
  "x64_blank cap =
     \<lparr>mVTpointer = gVT_x64, mError = 0, mpCallFunc = 0, mAggrReturnReg = - 1, rc_i = 0, rc_f = 0,
      rd_i = (\<lambda>_. 0), rd_f = (\<lambda>_. 0), mVecHead = \<lparr>mTotal = cap, mSize = 0, mData = (\<lambda>_. 0)\<rparr>\<rparr>"

lemma x64_arguments_arrive_witness:
  "\<exists>a. snd (dcCall (vtab_x64 (\<lambda>_ h. h) (\<lambda>_ h. (h, \<lambda>_. 0)) 0) callInt
          (dcArgs (vtab_x64 (\<lambda>_ h. h) (\<lambda>_ h. (h, \<lambda>_. 0)) 0)
             (dcReset (vtab_x64 (\<lambda>_ h. h) (\<lambda>_ h. (h, \<lambda>_. 0)) 0) (x64_blank 64))
             [AInt 7, ADouble 9, ABool 2]) 4096)
        = dcCall_x64_sysv a \<and>
       fst (pop_all dcbArg_x64 (dcCallback_x64_sysv (- 2) [] (sysv_frame (\<lambda>_. 0) a)) [TInt, TDouble, TBool])
        = [AInt 7, ADouble 9, ABool 1]"
  using x64_arguments_arrive [of "x64_blank 64" "[AInt 7, ADouble 9, ABool 2]" "- 2"
      "\<lambda>_ h. h" "\<lambda>_ h. (h, \<lambda>_. 0)" 0 callInt 4096 "[]" "\<lambda>_. 0"]
  by (simp add: x64_blank_def)

end
