(* ===== verification/Aggr_X64.thy ===== *)
theory Aggr_X64
  imports Args_X64
begin

unbundle bit_operations_syntax

section \<open>Aggregates by value on System V x64\<close>

text \<open>
  The path of a struct passed by value: \<open>dc_callvm_argAggr_x64\<close> splits it over registers or copies it
  to the stack, \<open>dcbArgAggr\<close> puts it together again. Both decide with the same computation
  (\<open>aggr_via_stack\<close>) from the classes of the description, so any mix of scalars and aggregates
  arrives unchanged. The way back is \<open>dcbReturnAggr\<close> in the callback and
  \<open>dc_callvm_call_x64_aggr\<close> in the caller.
\<close>

subsection \<open>Aggregates\<close>

text \<open>The descriptions for which writer and reader agree byte for byte, as \<open>dcCloseAggr\<close> makes them:
  an aggregate in registers has one class, INTEGER or SSE, for every eightbyte it
  reaches into, and the part in an SSE eightbyte is a float or the full eight bytes.\<close>

fun qwords_ok :: "nat \<Rightarrow> u8 list \<Rightarrow> bool" where
  "qwords_ok n [] \<longleftrightarrow> n = 0"
| "qwords_ok n (c # cs) \<longleftrightarrow>
     0 < n \<and> (c = SYSVC_INTEGER \<or> c = SYSVC_SSE \<and> (n = 4 \<or> 8 \<le> n)) \<and> qwords_ok (n - 8) cs"

definition aggr_ok :: "DCaggr \<Rightarrow> bool" where
  "aggr_ok ag \<longleftrightarrow> unat (ag_size ag) < 2 ^ 62 \<and>
     (sysv_classes ag ! 0 \<noteq> SYSVC_MEMORY \<longrightarrow> qwords_ok (unat (ag_size ag)) (live_classes ag))"

text \<open>An aggregate in registers is passed as these scalars.\<close>

fun qword_args :: "u64 heap \<Rightarrow> u64 \<Rightarrow> nat \<Rightarrow> u8 list \<Rightarrow> (u64, u64) dcarg list" where
  "qword_args h x i [] = []"
| "qword_args h x i (c # cs) =
     (if c = SYSVC_INTEGER then ALongLong (heap_qword h x i) else ADouble (heap_qword h x i)) #
     qword_args h x (Suc i) cs"

lemma length_qword_args [simp]: "length (qword_args h x i cs) = length cs"
  by (induction cs arbitrary: i) simp_all

lemma pass_qwords_eq:
  "qwords_ok n cs \<Longrightarrow> pass_qwords h x i cs s = dcArgs (vtab_x64 run run_aggr pad) s (qword_args h x i cs)"
  by (induction cs arbitrary: n i s) (auto simp: vtab_x64_args)

lemma qwords_ok_length: "qwords_ok n cs \<Longrightarrow> 8 * length cs < n + 8 \<and> n \<le> 8 * length cs"
proof (induction cs arbitrary: n)
  case (Cons c cs)
  then have "8 * length cs < n - 8 + 8 \<and> n - 8 \<le> 8 * length cs" and "0 < n" by auto
  then show ?case by (cases "n < 8") auto
qed simp

lemma obj_qword [simp]: "obj_bytes LE 8 (heap_qword h x i) = heap_read h (x + of_nat (8 * i)) 8"
  unfolding heap_qword_def by (rule obj_bytes_obj_word) simp_all

lemma obj_float [simp]:
  "obj_bytes LE 4 (ucast (heap_qword h x i) :: u32) = heap_read h (x + of_nat (8 * i)) 4"
proof -
  have "obj_bytes LE 4 (ucast (heap_qword h x i) :: u32) = take 4 (obj_bytes LE 8 (heap_qword h x i))"
    by (simp add: obj_bytes_LE le_bytes_ucast take_le_bytes)
  then show ?thesis by (simp only: obj_qword) (simp add: take_heap_read)
qed


lemma heap_copy_split:
  assumes "8 \<le> n" and "n < 2 ^ 62"
  shows "heap_write (heap_write h' (t :: u64) (heap_read h x 8)) (t + 8) (heap_read h (x + 8) (n - 8))
       = heap_write h' t (heap_read h x n)"
proof -
  have "heap_read h x n = heap_read h x 8 @ heap_read h (x + 8) (n - 8)"
    using heap_read_append [of h x 8 "n - 8"] assms(1) by simp
  then show ?thesis
    using heap_write_append [of "heap_read h x 8" "heap_read h (x + 8) (n - 8)" h' t] assms by simp
qed

lemma qwords_ok_0: "qwords_ok 0 cs \<Longrightarrow> cs = []"
  by (cases cs) simp_all

lemma read_qwords_pass:
  assumes "x64_inv s" and "fits_all (dcArg (vtab_x64 run run_aggr pad)) x64_fits s (qword_args h x i cs)"
    and "x64_keeps (dcArgs (vtab_x64 run run_aggr pad) s (qword_args h x i cs)) F"
    and "qwords_ok n cs" and "unat asize = 8 * i + n" and "unat asize < 2 ^ 62"
  shows "read_qwords asize target i cs h' (x64_view caller t neg ags F s)
       = Some (heap_write h' (target + of_nat (8 * i)) (heap_read h (x + of_nat (8 * i)) n),
               x64_view caller t neg ags F (dcArgs (vtab_x64 run run_aggr pad) s (qword_args h x i cs)))"
  using assms
proof (induction cs arbitrary: i n s h')
  case Nil
  then show ?case by simp
next
  case (Cons c cs)
  let ?V = "vtab_x64 run run_aggr pad"
  let ?a = "hd (qword_args h x i (c # cs))"
  let ?s = "dcArg ?V s ?a"
  have args: "qword_args h x i (c # cs) = ?a # qword_args h x (Suc i) cs" by simp
  have fits: "x64_fits s ?a" "fits_all (dcArg ?V) x64_fits ?s (qword_args h x (Suc i) cs)"
    using Cons.prems(2) by (simp_all split: if_splits)
  have inv: "x64_inv ?s" using Cons.prems(1) by (rule x64_inv_dcArg)
  have kF: "x64_keeps (dcArgs ?V ?s (qword_args h x (Suc i) cs)) F"
    using Cons.prems(3) by simp
  have ks: "x64_keeps ?s F"
    using x64.keeps_push_all [OF inv fits(2)] kF by (auto simp: push_all_dcArgs intro: x64_keeps_trans)
  have n: "0 < n" and c: "c = SYSVC_INTEGER \<or> c = SYSVC_SSE \<and> (n = 4 \<or> 8 \<le> n)" and ok: "qwords_ok (n - 8) cs"
    using Cons.prems(4) by auto
  have s8: "unat (asize - of_nat (8 * i)) = n"
  proof -
    have "unat (of_nat (8 * i) :: u64) = 8 * i"
      using Cons.prems(5,6) by (simp only: unat_of_nat) simp
    then show ?thesis
      using Cons.prems(5) by (simp only: unat_sub_if') simp
  qed
  have sz: "(if asize - of_nat (8 * i) < 8 then unat (asize - of_nat (8 * i)) else 8) = min n 8"
    using s8 by (simp add: word_less_nat_alt min_def)
  have step: "read_qwords asize target i (c # cs) h' (x64_view caller t neg ags F s)
      = read_qwords asize target (Suc i) cs
          (heap_write h' (target + of_nat (8 * i)) (heap_read h (x + of_nat (8 * i)) (min n 8)))
          (x64_view caller t neg ags F ?s)"
    unfolding read_qwords.simps Let_def sz
    using c ks fits(1) Cons.prems(1) n
    by (auto simp: dcbArgLongLong_x64_def dcbArgDouble_x64_def dcbArgFloat_x64_def min_def
        vtab_x64_args x64_fits_def x64_pop_int x64_pop_float take_heap_read
        simp del: of_nat_mult of_nat_numeral)
  show ?case
  proof (cases "n < 8")
    case True
    then have "cs = []" using ok qwords_ok_0 by simp
    with True step show ?thesis by (simp add: min_def)
  next
    case False
    then have "unat asize = 8 * Suc i + (n - 8)" using Cons.prems(5) by simp
    note ih = Cons.IH [OF inv fits(2) kF ok this Cons.prems(6)]
    have "n < 2 ^ 62" using Cons.prems(5,6) by simp
    with False heap_copy_split [of n h' "target + of_nat (8 * i)" h "x + of_nat (8 * i)"]
    show ?thesis by (simp only: step ih) (simp add: min_def algebra_simps)
  qed
qed


definition x64_aggr_fits :: "DCCallVM_x64 \<Rightarrow> DCaggr \<Rightarrow> bool" where
  "x64_aggr_fits s ag \<longleftrightarrow> aggr_ok ag \<and> vec_fits (mVecHead s) (round_up 8 (unat (ag_size ag)))"

lemma pad_qword:
  assumes "unat (n :: u64) < 2 ^ 62"
  shows "unat (((n + (8 - 1)) AND (- 8)) - n) = round_up 8 (unat n) - unat n"
    and "8 * unat (drop_bit 3 (n + (8 - 1))) = round_up 8 (unat n)"
proof -
  have e: "(n + (8 - 1)) AND (- 8) = mask_up n (2 ^ 3)"
    by (simp add: mask_up_def add.commute)
  have u: "unat (mask_up n (2 ^ 3)) = round_up 8 (unat n)"
    using assms by (subst unat_mask_up) simp_all
  then have "n \<le> mask_up n (2 ^ 3)"
    by (simp add: word_le_nat_alt round_up_ge)
  then show "unat (((n + (8 - 1)) AND (- 8)) - n) = round_up 8 (unat n) - unat n"
    by (simp only: e unat_sub u)
  have "unat (n + 7) = unat n + 7"
    using assms by (simp add: unat_plus_if')
  then show "8 * unat (drop_bit 3 (n + (8 - 1))) = round_up 8 (unat n)"
    by (simp only: round_up_def unat_drop_bit_eq drop_bit_eq_div) (simp add: unat_div_distrib mult.commute)
qed

lemma qwords_ok_round_up: "qwords_ok n cs \<Longrightarrow> 8 * length cs = round_up 8 n"
proof -
  assume "qwords_ok n cs"
  from qwords_ok_length [OF this] have "(n + 8 - 1) div 8 = length cs"
    by (intro div_nat_eqI) auto
  then show ?thesis by (simp add: round_up_def mult.commute)
qed

lemma x64_aggr_fits_qwords:
  assumes "x64_inv s" and "x64_aggr_fits s ag" and "\<not> aggr_via_stack ag (rc_i s) (rc_f s)"
  shows "qwords_ok (unat (ag_size ag)) (live_classes ag)"
    and "fits_all (dcArg (vtab_x64 run run_aggr pad)) x64_fits s (qword_args h x 0 (live_classes ag))"
proof -
  show ok: "qwords_ok (unat (ag_size ag)) (live_classes ag)"
    using assms(2,3) by (simp add: x64_aggr_fits_def aggr_ok_def aggr_via_stack_def Let_def)
  have "x64_used s + sum_list (map (\<lambda>_. 8) (qword_args h x 0 (live_classes ag))) \<le> x64_cap s"
    using assms(2) qwords_ok_round_up [OF ok]
    by (simp add: x64_aggr_fits_def vec_fits_def x64_used_def x64_cap_def sum_list_triv mult.commute)
  with assms(1) show "fits_all (dcArg (vtab_x64 run run_aggr pad)) x64_fits s (qword_args h x 0 (live_classes ag))"
    by (rule x64c.fits_all_if)
qed

lemma argAggr_x64_regs:
  assumes "x64_inv s" and "x64_aggr_fits s ag" and "\<not> aggr_via_stack ag (rc_i s) (rc_f s)"
  shows "dc_callvm_argAggr_x64 h s (Some ag) x
       = dcArgs (vtab_x64 run run_aggr pad) s (qword_args h x 0 (live_classes ag))"
  using assms(3) pass_qwords_eq [OF x64_aggr_fits_qwords(1) [OF assms]]
  by (simp add: dc_callvm_argAggr_x64_def)

lemma argAggr_x64_stack:
  assumes "x64_aggr_fits s ag" and "aggr_via_stack ag (rc_i s) (rc_f s)"
  obtains v where "dc_callvm_argAggr_x64 h s (Some ag) x = s\<lparr>mVecHead := v\<rparr>"
    and "unat (mSize v) = unat (mSize (mVecHead s)) + round_up 8 (unat (ag_size ag))"
    and "mTotal v = mTotal (mVecHead s)" and "vec_ok v" and "vec_keeps (mVecHead s) v"
    and "vec_keeps (dcVecAppend (mVecHead s) (heap_read h x (unat (ag_size ag)))) v"
proof -
  let ?bs = "heap_read h x (unat (ag_size ag))"
  let ?v = "dcVecSkip (dcVecAppend (mVecHead s) ?bs) (((ag_size ag + (8 - 1)) AND (- 8)) - ag_size ag)"
  have f: "vec_fits (mVecHead s) (round_up 8 (unat (ag_size ag)))" and sz: "unat (ag_size ag) < 2 ^ 62"
    using assms(1) by (simp_all add: x64_aggr_fits_def aggr_ok_def)
  have le: "length ?bs \<le> round_up 8 (unat (ag_size ag))" by (simp add: round_up_ge)
  have k: "unat (((ag_size ag + (8 - 1)) AND (- 8)) - ag_size ag) = round_up 8 (unat (ag_size ag)) - length ?bs"
    by (simp only: pad_qword(1) [OF sz] length_heap_read)
  show thesis
  proof (rule that)
    show "dc_callvm_argAggr_x64 h s (Some ag) x = s\<lparr>mVecHead := ?v\<rparr>"
      using assms(2) by (simp add: dc_callvm_argAggr_x64_def)
  qed (fact append_skip [OF f le k])+
qed

lemma x64_inv_argAggr:
  "x64_inv s \<Longrightarrow> x64_aggr_fits s ag \<Longrightarrow> x64_inv (dc_callvm_argAggr_x64 h s (Some ag) x)"
proof (cases "aggr_via_stack ag (rc_i s) (rc_f s)")
  case True
  assume a: "x64_inv s" "x64_aggr_fits s ag"
  obtain v where "dc_callvm_argAggr_x64 h s (Some ag) x = s\<lparr>mVecHead := v\<rparr>"
      "mTotal v = mTotal (mVecHead s)" "vec_ok v"
    using argAggr_x64_stack [OF a(2) True] by metis
  with a(1) show ?thesis by (simp add: x64_inv_def)
next
  case False
  assume a: "x64_inv s" "x64_aggr_fits s ag"
  show ?thesis
    using x64.inv_push_all [OF a(1) x64_aggr_fits_qwords(2) [OF a False, of undefined undefined 0 h x]]
    by (simp add: argAggr_x64_regs [OF a False, of h x undefined undefined 0] push_all_dcArgs)
qed

lemma x64_keeps_argAggr:
  "x64_inv s \<Longrightarrow> x64_aggr_fits s ag \<Longrightarrow> x64_keeps s (dc_callvm_argAggr_x64 h s (Some ag) x)"
proof (cases "aggr_via_stack ag (rc_i s) (rc_f s)")
  case True
  assume a: "x64_inv s" "x64_aggr_fits s ag"
  obtain v where "dc_callvm_argAggr_x64 h s (Some ag) x = s\<lparr>mVecHead := v\<rparr>"
      "vec_keeps (mVecHead s) v" "vec_ok v"
    using argAggr_x64_stack [OF a(2) True] by metis
  then show ?thesis by (simp add: x64_keeps_def)
next
  case False
  assume a: "x64_inv s" "x64_aggr_fits s ag"
  show ?thesis
    using x64.keeps_push_all [OF a(1) x64_aggr_fits_qwords(2) [OF a False, of undefined undefined 0 h x]]
    by (simp add: argAggr_x64_regs [OF a False, of h x undefined undefined 0] push_all_dcArgs)
qed


lemma x64_pop_argAggr:
  assumes "x64_inv s" and "x64_aggr_fits s ag"
    and "x64_keeps (dc_callvm_argAggr_x64 h s (Some ag) x) F"
  shows "dcbArgAggr_x64 h' (x64_view caller t neg (Some ag # ags) F s) target
       = Some (target, heap_write h' target (heap_read h x (unat (ag_size ag))),
               x64_view caller t neg ags F (dc_callvm_argAggr_x64 h s (Some ag) x))"
proof -
  have v: "(x64_view caller t neg (Some ag # ags) F s)\<lparr>aggrs := ags\<rparr> = x64_view caller t neg ags F s"
    "aggrs (x64_view caller t neg (Some ag # ags) F s) = Some ag # ags"
    "reg_count_i (x64_view caller t neg ags F s) = rc_i s"
    "reg_count_f (x64_view caller t neg ags F s) = rc_f s"
    "stack_ptr (x64_view caller t neg ags F s) = unat (mSize (mVecHead s))"
    by (simp_all add: x64_view_def dcCallback_x64_sysv_def)
  have sz: "unat (ag_size ag) < 2 ^ 62"
    using assms(2) by (simp add: x64_aggr_fits_def aggr_ok_def)
  show ?thesis
  proof (cases "aggr_via_stack ag (rc_i s) (rc_f s)")
    case True
    let ?bs = "heap_read h x (unat (ag_size ag))"
    obtain w where w: "dc_callvm_argAggr_x64 h s (Some ag) x = s\<lparr>mVecHead := w\<rparr>"
        "unat (mSize w) = unat (mSize (mVecHead s)) + round_up 8 (unat (ag_size ag))"
        "mTotal w = mTotal (mVecHead s)" "vec_keeps (dcVecAppend (mVecHead s) ?bs) w"
      using argAggr_x64_stack [OF assms(2) True] by metis
    have kF: "vec_keeps w (mVecHead F)" "vec_ok (mVecHead F)"
      using assms(3) by (simp_all add: w x64_keeps_def)
    have "round_up 8 (unat (ag_size ag)) \<ge> unat (ag_size ag)" by (simp add: round_up_ge)
    then have le: "unat (mSize (mVecHead s)) + unat (ag_size ag) \<le> unat (mSize (mVecHead F))"
      using kF(1) w(2) by (simp add: vec_keeps_def)
    have tot: "unat (mTotal (mVecHead F)) < 2 ^ 63"
      using assms(1) kF(1) w(3) by (simp add: x64_inv_def vec_keeps_def)
    have "read_at (arg_stack (x64_view caller t neg ags F s)) (unat (mSize (mVecHead s))) (unat (ag_size ag))
        = read_at (mData (mVecHead F)) (unat (mSize (mVecHead s))) (unat (ag_size ag))"
      using frame_stack_read [OF kF(2) tot le] by (simp add: x64_view_def dcCallback_x64_sysv_def)
    also have "\<dots> = ?bs"
      using assms(2) vec_keeps_trans [OF w(4) kF(1)]
      by (intro read_appended)
        (auto simp: x64_aggr_fits_def intro: vec_fits_mono [OF _ round_up_ge [of 8]])
    finally have r: "read_at (arg_stack (x64_view caller t neg ags F s)) (unat (mSize (mVecHead s)))
        (unat (ag_size ag)) = ?bs" .
    have p: "8 * unat (drop_bit 3 (ag_size ag + (8 - 1))) = round_up 8 (unat (ag_size ag))"
      by (rule pad_qword(2) [OF sz])
    have u: "(x64_view caller t neg ags F s)\<lparr>stack_ptr := unat (mSize (mVecHead s)) + round_up 8 (unat (ag_size ag))\<rparr>
        = x64_view caller t neg ags F (dc_callvm_argAggr_x64 h s (Some ag) x)"
      by (simp add: w x64_view_def)
    show ?thesis
      unfolding dcbArgAggr_x64_def v Let_def list.case option.case using True
      by (simp only: v r p u if_True)
  next
    case False
    note q = x64_aggr_fits_qwords [OF assms(1,2) False]
    note e = argAggr_x64_regs [OF assms(1,2) False, of h x undefined undefined 0]
    have "read_qwords (ag_size ag) target 0 (live_classes ag) h' (x64_view caller t neg ags F s)
        = Some (heap_write h' target (heap_read h x (unat (ag_size ag))),
                x64_view caller t neg ags F (dc_callvm_argAggr_x64 h s (Some ag) x))"
      using read_qwords_pass [OF assms(1) q(2) assms(3) [unfolded e] q(1) _ sz] by (simp add: e)
    then show ?thesis
      unfolding dcbArgAggr_x64_def v Let_def list.case option.case using False
      by (simp add: v)
  qed
qed


subsection \<open>Scalars and aggregates in any order\<close>

text \<open>
  What a program passes and a handler reads. \<open>Aggregate h ag x\<close> is \<open>dcArgAggr(vm, ag, x)\<close> with the
  memory \<open>h\<close>; the position of the transport carries the descriptions that the callback has left in
  its array. The handler has \<open>dcbArgAggr\<close> write to a buffer and looks at its bytes.
\<close>

datatype x64_item = Scalar "(u64, u64) dcarg" | Aggregate "u64 heap" DCaggr u64
datatype x64_ity = TScalar dcty | TAggregate nat
datatype x64_ival = VScalar "(u64, u64) dcarg" | VAggregate "byte list" | VFailed

fun item_ty :: "x64_item \<Rightarrow> x64_ity" where
  "item_ty (Scalar a) = TScalar (arg_ty a)"
| "item_ty (Aggregate h ag x) = TAggregate (unat (ag_size ag))"

fun item_val :: "x64_item \<Rightarrow> x64_ival" where
  "item_val (Scalar a) = VScalar (x64_val a)"
| "item_val (Aggregate h ag x) = VAggregate (heap_read h x (unat (ag_size ag)))"

fun item_aggrs :: "x64_item list \<Rightarrow> DCaggr option list" where
  "item_aggrs [] = []"
| "item_aggrs (Scalar a # is) = item_aggrs is"
| "item_aggrs (Aggregate h ag x # is) = Some ag # item_aggrs is"

fun item_cost :: "x64_item \<Rightarrow> nat" where
  "item_cost (Scalar a) = 8"
| "item_cost (Aggregate h ag x) = round_up 8 (unat (ag_size ag))"

text \<open>The client's calls; the system call table has no entry for aggregates.\<close>

fun dcArg_item ::
  "(vt_x64 \<Rightarrow> (DCCallVM_x64, u64, u64, x64_kernel) DCCallVM_vt) \<Rightarrow> DCCallVM_x64 \<Rightarrow> x64_item \<Rightarrow>
   DCCallVM_x64 option" where
  "dcArg_item V s (Scalar a) = Some (dcArg V s a)"
| "dcArg_item V s (Aggregate h ag x) = dcArgAggr V h s (Some ag) x"

fun dcArg_items ::
  "(vt_x64 \<Rightarrow> (DCCallVM_x64, u64, u64, x64_kernel) DCCallVM_vt) \<Rightarrow> DCCallVM_x64 \<Rightarrow> x64_item list \<Rightarrow>
   DCCallVM_x64 option" where
  "dcArg_items V s [] = Some s"
| "dcArg_items V s (i # is) = Option.bind (dcArg_item V s i) (\<lambda>s'. dcArg_items V s' is)"

fun dcbArg_item :: "DCArgs_x64 \<Rightarrow> x64_ity \<Rightarrow> x64_ival \<times> DCArgs_x64" where
  "dcbArg_item r (TScalar t) = map_prod VScalar id (dcbArg_x64 r t)"
| "dcbArg_item r (TAggregate n) =
     (case dcbArgAggr_x64 (\<lambda>_. 0) r 0 of
        None \<Rightarrow> (VFailed, r)
      | Some (ptr, h, r') \<Rightarrow> (VAggregate (heap_read h ptr n), r'))"

fun push_item ::
  "(vt_x64 \<Rightarrow> (DCCallVM_x64, u64, u64, x64_kernel) DCCallVM_vt) \<Rightarrow>
   DCCallVM_x64 \<times> DCaggr option list \<Rightarrow> x64_item \<Rightarrow> DCCallVM_x64 \<times> DCaggr option list" where
  "push_item V (s, ags) i =
     (case dcArg_item V s i of None \<Rightarrow> s | Some s' \<Rightarrow> s',
      case i of Scalar a \<Rightarrow> ags | Aggregate h ag x \<Rightarrow> tl ags)"

fun item_fits :: "DCCallVM_x64 \<times> DCaggr option list \<Rightarrow> x64_item \<Rightarrow> bool" where
  "item_fits (s, ags) (Scalar a) \<longleftrightarrow> x64_fits s a"
| "item_fits (s, ags) (Aggregate h ag x) \<longleftrightarrow> x64_aggr_fits s ag \<and> ags \<noteq> [] \<and> hd ags = Some ag"

fun item_inv :: "DCCallVM_x64 \<times> DCaggr option list \<Rightarrow> bool" where
  "item_inv (s, ags) \<longleftrightarrow> x64_inv s \<and> mVTpointer s = gVT_x64"

fun item_keeps :: "DCCallVM_x64 \<times> DCaggr option list \<Rightarrow> DCCallVM_x64 \<times> DCaggr option list \<Rightarrow> bool" where
  "item_keeps (s, _) (t, _) \<longleftrightarrow> x64_keeps s t"

fun item_view ::
  "mem \<Rightarrow> u64 \<Rightarrow> nat \<Rightarrow> DCCallVM_x64 \<times> DCaggr option list \<Rightarrow>
   DCCallVM_x64 \<times> DCaggr option list \<Rightarrow> DCArgs_x64" where
  "item_view caller target neg (F, _) (s, ags) = x64_view caller target neg ags F s"

lemma dcArgAggr_x64_c:
  "mVTpointer s = gVT_x64 \<Longrightarrow>
     dcArgAggr (vtab_x64 run run_aggr pad) h s (Some ag) x = Some (dc_callvm_argAggr_x64 h s (Some ag) x)"
  by (simp add: dcArgAggr_def vt_x64_c_def)

lemma mVTpointer_argAggr_x64:
  "x64_inv s \<Longrightarrow> x64_aggr_fits s ag \<Longrightarrow>
     mVTpointer (dc_callvm_argAggr_x64 h s (Some ag) x) = mVTpointer s"
proof (cases "aggr_via_stack ag (rc_i s) (rc_f s)")
  case True
  then show ?thesis by (simp add: dc_callvm_argAggr_x64_def)
next
  case False
  assume a: "x64_inv s" "x64_aggr_fits s ag"
  show ?thesis
    by (simp add: argAggr_x64_regs [OF a False, of h x undefined undefined 0] mVTpointer_dcArgs_x64)
qed

lemma item_inv_push: "item_inv s \<Longrightarrow> item_fits s i \<Longrightarrow> item_inv (push_item (vtab_x64 run run_aggr pad) s i)"
  by (cases s; cases i)
    (auto simp: x64_inv_dcArg mVTpointer_dcArg_x64 dcArgAggr_x64_c x64_inv_argAggr mVTpointer_argAggr_x64)

lemma item_keeps_push:
  "item_inv s \<Longrightarrow> item_fits s i \<Longrightarrow> item_keeps s (push_item (vtab_x64 run run_aggr pad) s i)"
  by (cases s; cases i) (auto simp: x64_keeps_dcArg dcArgAggr_x64_c x64_keeps_argAggr)

lemma aggr_size_small: "x64_aggr_fits s ag \<Longrightarrow> unat (ag_size ag) < 2 ^ LENGTH(64)"
  by (simp add: x64_aggr_fits_def aggr_ok_def)

lemma item_pop_push:
  assumes "item_inv s" and "item_fits s i" and "item_keeps (push_item (vtab_x64 run run_aggr pad) s i) F"
  shows "dcbArg_item (item_view caller target neg F s) (item_ty i)
       = (item_val i, item_view caller target neg F (push_item (vtab_x64 run run_aggr pad) s i))"
proof (cases i)
  case (Scalar a)
  with assms show ?thesis by (cases s; cases F) (auto simp: x64_pop_dcArg)
next
  case (Aggregate h ag x)
  obtain vm ags FV FA where s: "s = (vm, ags)" "F = (FV, FA)" by (cases s, cases F)
  have ags: "ags = Some ag # tl ags"
    using assms(2) by (cases ags) (auto simp: Aggregate s)
  have f: "x64_aggr_fits vm ag"
    using assms(2) by (simp add: Aggregate s)
  have "dcbArgAggr_x64 (\<lambda>_. 0) (x64_view caller target neg ags FV vm) 0
      = Some (0, heap_write (\<lambda>_. 0) 0 (heap_read h x (unat (ag_size ag))),
              x64_view caller target neg (tl ags) FV (dc_callvm_argAggr_x64 h vm (Some ag) x))"
    using assms ags by (subst ags, intro x64_pop_argAggr) (auto simp: Aggregate s dcArgAggr_x64_c)
  with assms(1) aggr_size_small [OF f] show ?thesis
    by (simp add: Aggregate s dcArgAggr_x64_c heap_read_write)
qed

interpretation x64m: arg_transport "push_item (vtab_x64 run run_aggr pad)" item_fits item_inv item_keeps
  "item_view caller target neg" dcbArg_item item_ty item_val
  for run run_aggr pad caller target neg
proof unfold_locales
  fix s t u assume "item_keeps s t" "item_keeps t u"
  then show "item_keeps s u" by (cases s; cases t; cases u) (auto intro: x64_keeps_trans)
next
  fix s assume "item_inv s"
  then show "item_keeps s s" by (cases s) (simp add: x64_keeps_refl)
qed (simp_all add: item_inv_push item_keeps_push item_pop_push)


subsection \<open>Whole calls\<close>

fun item_ok :: "x64_item \<Rightarrow> bool" where
  "item_ok (Scalar a) \<longleftrightarrow> True"
| "item_ok (Aggregate h ag x) \<longleftrightarrow> aggr_ok ag"

lemma x64_used_argAggr:
  "x64_inv s \<Longrightarrow> x64_aggr_fits s ag \<Longrightarrow>
     x64_used (dc_callvm_argAggr_x64 h s (Some ag) x) \<le> x64_used s + round_up 8 (unat (ag_size ag)) \<and>
     x64_cap (dc_callvm_argAggr_x64 h s (Some ag) x) = x64_cap s"
proof (cases "aggr_via_stack ag (rc_i s) (rc_f s)")
  case True
  assume a: "x64_inv s" "x64_aggr_fits s ag"
  obtain v where "dc_callvm_argAggr_x64 h s (Some ag) x = s\<lparr>mVecHead := v\<rparr>"
      "mTotal v = mTotal (mVecHead s)"
      "unat (mSize v) = unat (mSize (mVecHead s)) + round_up 8 (unat (ag_size ag))"
    using argAggr_x64_stack [OF a(2) True] by metis
  then show ?thesis by (simp add: x64_used_def x64_cap_def)
next
  case False
  assume a: "x64_inv s" "x64_aggr_fits s ag"
  note q = x64_aggr_fits_qwords [OF a False]
  from x64c.used_push_all [OF a(1) q(2) [of undefined undefined 0 h x]]
    x64c.cap_push_all [OF a(1) q(2) [of undefined undefined 0 h x]]
    qwords_ok_round_up [OF q(1)]
  show ?thesis
    by (simp add: argAggr_x64_regs [OF a False, of h x undefined undefined 0] push_all_dcArgs
        sum_list_triv mult.commute)
qed

lemma items_fit:
  assumes "item_inv (s, ags)" and "ags = item_aggrs is @ rest" and "\<forall>i \<in> set is. item_ok i"
    and "x64_used s + sum_list (map item_cost is) \<le> x64_cap s"
  shows "fits_all (push_item (vtab_x64 run run_aggr pad)) item_fits (s, ags) is"
  using assms
proof (induction "is" arbitrary: s ags)
  case (Cons i "is")
  let ?V = "vtab_x64 run run_aggr pad"
  show ?case
  proof (cases i)
    case (Scalar a)
    have f: "x64_fits s a" using Cons.prems(4) by (intro x64_fits_if) (simp add: Scalar)
    then have "fits_all (push_item ?V) item_fits (dcArg ?V s a, ags) is"
      using Cons.prems x64_used_dcArg [OF f, of run run_aggr pad]
      by (intro Cons.IH) (simp_all add: Scalar x64_inv_dcArg mVTpointer_dcArg_x64 x64_cap_dcArg)
    with f show ?thesis by (simp add: Scalar)
  next
    case (Aggregate h ag x)
    have inv: "x64_inv s" and vt: "mVTpointer s = gVT_x64" using Cons.prems(1) by simp_all
    have f: "x64_aggr_fits s ag"
      using Cons.prems(3,4) by (simp add: Aggregate x64_aggr_fits_def vec_fits_def x64_used_def x64_cap_def)
    have "fits_all (push_item ?V) item_fits (dc_callvm_argAggr_x64 h s (Some ag) x, tl ags) is"
      using Cons.prems x64_used_argAggr [OF inv f, of h x]
      by (intro Cons.IH) (simp_all add: Aggregate x64_inv_argAggr [OF inv f] mVTpointer_argAggr_x64 [OF inv f])
    with f Cons.prems(2) show ?thesis by (simp add: Aggregate dcArgAggr_x64_c [OF vt])
  qed
qed simp

lemma push_item_dcArg_items:
  assumes "item_inv (s, ags)" and "fits_all (push_item (vtab_x64 run run_aggr pad)) item_fits (s, ags) is"
  shows "dcArg_items (vtab_x64 run run_aggr pad) s is
       = Some (fst (push_all (push_item (vtab_x64 run run_aggr pad)) (s, ags) is))"
  using assms
proof (induction "is" arbitrary: s ags)
  case (Cons i "is")
  let ?V = "vtab_x64 run run_aggr pad"
  have inv: "item_inv (push_item ?V (s, ags) i)"
    using Cons.prems by (intro item_inv_push) simp_all
  obtain s' where s': "dcArg_item ?V s i = Some s'"
    using Cons.prems(1) by (cases i) (simp_all add: dcArgAggr_x64_c)
  then have p: "push_item ?V (s, ags) i = (s', snd (push_item ?V (s, ags) i))" by simp
  from Cons.IH [of s' "snd (push_item ?V (s, ags) i)"] inv Cons.prems(2) s' show ?case
    by (simp add: p [symmetric])
qed simp

lemma items_arrive:
  assumes "item_inv (s, ags)" and "fits_all (push_item (vtab_x64 run run_aggr pad)) item_fits (s, ags) is"
    and "dcArg_items (vtab_x64 run run_aggr pad) s is = Some F" and "x64_keeps F G"
  shows "fst (pop_all dcbArg_item (x64_view caller target neg ags G s) (map item_ty is)) = map item_val is"
proof -
  let ?P = "push_all (push_item (vtab_x64 run run_aggr pad)) (s, ags) is"
  have "F = fst ?P" using push_item_dcArg_items [OF assms(1,2)] assms(3) by simp
  with assms(4) have "item_keeps ?P (G, [])" by (cases ?P) simp
  from x64m.read_back [OF assms(1,2) this, of caller target neg] show ?thesis by simp
qed


lemma begin_aggr_x64:
  assumes "mVTpointer vm = gVT_x64"
  shows "dcBeginCallAggr (vtab_x64 run run_aggr pad) (dc_callvm_reset_x64 vm) ag
       = Some ((dc_callvm_reset_x64 vm)
           \<lparr>mAggrReturnReg := (case ag of None \<Rightarrow> 0
              | Some a \<Rightarrow> if sysv_classes a ! 0 = SYSVC_MEMORY then 0 else - 1)\<rparr>)"
  using assms
  by (cases ag)
    (simp_all add: dcBeginCallAggr_def vt_x64_c_def dc_callvm_begin_aggr_x64_def dc_callvm_reset_x64_def)

lemma x64_inv_start:
  assumes "unat (mTotal (mVecHead vm)) < 2 ^ 63" and "r \<in> {- 1, 0}"
  shows "x64_inv ((dc_callvm_reset_x64 vm)\<lparr>mAggrReturnReg := r\<rparr>)"
  using x64_inv_reset [OF assms(1)] assms(2) by (simp add: x64_inv_def)

lemma mVTpointer_dcArg_items:
  assumes "item_inv (s, ags)" and "fits_all (push_item (vtab_x64 run run_aggr pad)) item_fits (s, ags) is"
    and "dcArg_items (vtab_x64 run run_aggr pad) s is = Some F"
  shows "x64_inv F" and "mVTpointer F = gVT_x64" and "x64_keeps s F"
proof -
  let ?P = "push_all (push_item (vtab_x64 run run_aggr pad)) (s, ags) is"
  have F: "F = fst ?P" using push_item_dcArg_items [OF assms(1,2)] assms(3) by simp
  from x64m.inv_push_all [OF assms(1,2)] show "x64_inv F" and "mVTpointer F = gVT_x64"
    by (cases ?P, simp add: F)+
  from x64m.keeps_push_all [OF assms(1,2)] show "x64_keeps s F" by (cases ?P) (simp add: F)
qed

text \<open>C3: Scalars and structs in any order, with a result that is a struct in memory: after
  \<open>dcReset\<close> and \<open>dcBeginCallAggr\<close> every \<open>dcArg\<close> and \<open>dcArgAggr\<close> call of a client succeeds,
  \<open>dcCallAggr\<close> runs the kernel once, and a callback that was created for such a signature
  (hidden return register 0) finds the client's return buffer in that register, every
  scalar and the bytes of every struct.\<close>

theorem x64_aggregates_arrive:
  assumes "unat (mTotal (mVecHead vm)) < 2 ^ 63" and "mVTpointer vm = gVT_x64"
    and "\<forall>i \<in> set is. item_ok i" and "sum_list (map item_cost is) \<le> unat (mTotal (mVecHead vm))"
    and "rag = None \<or> sysv_classes (the rag) ! 0 = SYSVC_MEMORY"
  shows "\<exists>s F G a.
    dcBeginCallAggr (vtab_x64 run run_aggr pad) (dcReset (vtab_x64 run run_aggr pad) vm) rag = Some s \<and>
    dcArg_items (vtab_x64 run run_aggr pad) s is = Some F \<and>
    dcCallAggr (vtab_x64 run run_aggr pad) h F target rag ret = Some (G, run a h) \<and>
    reg_data_i (dcCallback_x64_sysv 0 (item_aggrs is @ rest) (sysv_frame caller a)) 0 = ret \<and>
    fst (pop_all dcbArg_item (dcCallback_x64_sysv 0 (item_aggrs is @ rest) (sysv_frame caller a))
           (map item_ty is)) = map item_val is"
proof -
  let ?V = "vtab_x64 run run_aggr pad"
  let ?s = "(dc_callvm_reset_x64 vm)\<lparr>mAggrReturnReg := 0\<rparr>"
  let ?ags = "item_aggrs is @ rest"
  have b: "dcBeginCallAggr ?V (dcReset ?V vm) rag = Some ?s"
    using assms(5) by (cases rag) (simp_all add: begin_aggr_x64 [OF assms(2)])
  have z: "rc_i ?s = 0" "rc_f ?s = 0" "mSize (mVecHead ?s) = 0" "mVTpointer ?s = gVT_x64"
      "mTotal (mVecHead ?s) = mTotal (mVecHead vm)"
    using assms(2) by (simp_all add: dc_callvm_reset_x64_def dcVecReset_def)
  have inv: "item_inv (?s, ?ags)"
    using x64_inv_start [OF assms(1), of 0] z by simp
  have fit: "fits_all (push_item ?V) item_fits (?s, ?ags) is"
    using assms(4) z by (intro items_fit [OF inv refl assms(3)]) (simp add: x64_used_def x64_cap_def)
  obtain F where F: "dcArg_items ?V ?s is = Some F"
    using push_item_dcArg_items [OF inv fit] by blast
  note iF = mVTpointer_dcArg_items [OF inv fit F]
  have m: "mAggrReturnReg F = 0" using iF(3) by (simp add: x64_keeps_def)
  let ?G = "F\<lparr>rd_i := (rd_i F)(0 := ret)\<rparr>"
  let ?a = "sysv_args_of ?G target"
  have kG: "x64_keeps F ?G"
    using x64_keeps_refl [OF iF(1)] by (simp add: x64_keeps_def m)
  have c: "dcCallAggr ?V h F target rag ret = Some (?G, run ?a h)"
    using m iF(2) by (simp add: dcCallAggr_def vt_x64_c_def dc_callvm_call_x64_aggr_def Let_def)
  have v: "x64_view caller target 0 ?ags ?G ?s = dcCallback_x64_sysv 0 ?ags (sysv_frame caller ?a)"
    using z m by (simp add: x64_view_def dcCallback_x64_sysv_def)
  from items_arrive [OF inv fit F kG, of caller target 0]
  have p: "fst (pop_all dcbArg_item (dcCallback_x64_sysv 0 ?ags (sysv_frame caller ?a)) (map item_ty is))
      = map item_val is"
    by (simp only: v)
  have r: "reg_data_i (dcCallback_x64_sysv 0 ?ags (sysv_frame caller ?a)) 0 = ret"
    by (simp add: dcCallback_x64_sysv_def sysv_frame_def sysv_args_of_def)
  show ?thesis
    by (intro exI [of _ ?s] exI [of _ F] exI [of _ ?G] exI [of _ ?a] conjI b F c r p)
qed


text \<open>A description of \<open>struct { int a; int b; }\<close> and one that is passed in memory.\<close>

definition two_ints :: DCaggr where
  "two_ints = DCaggr 8 4 [1, 0, 0, 0, 0, 0, 0, 0]
     [DCfield 0 4 4 1 (CHR ''i'') None, DCfield 4 4 4 1 (CHR ''i'') None]"

definition three_longs :: DCaggr where
  "three_longs = DCaggr 24 8 [64, 0, 0, 0, 0, 0, 0, 0] [DCfield 0 8 8 3 (CHR ''l'') None]"

lemma x64_aggregates_arrive_witness:
  "\<exists>s F G a.
    dcBeginCallAggr (vtab_x64 (\<lambda>_ h. h) (\<lambda>_ h. (h, \<lambda>_. 0)) 0)
      (dcReset (vtab_x64 (\<lambda>_ h. h) (\<lambda>_ h. (h, \<lambda>_. 0)) 0) (x64_blank 64)) (Some three_longs) = Some s \<and>
    dcArg_items (vtab_x64 (\<lambda>_ h. h) (\<lambda>_ h. (h, \<lambda>_. 0)) 0) s
      [Scalar (AInt 7), Aggregate ucast two_ints 16, Aggregate ucast three_longs 32] = Some F \<and>
    dcCallAggr (vtab_x64 (\<lambda>_ h. h) (\<lambda>_ h. (h, \<lambda>_. 0)) 0) ucast F 4096 (Some three_longs) 512 = Some (G, ucast) \<and>
    reg_data_i (dcCallback_x64_sysv 0
      (item_aggrs [Scalar (AInt 7), Aggregate ucast two_ints 16, Aggregate ucast three_longs 32] @ [Some three_longs])
      (sysv_frame (\<lambda>_. 0) a)) 0 = 512 \<and>
    fst (pop_all dcbArg_item (dcCallback_x64_sysv 0
      (item_aggrs [Scalar (AInt 7), Aggregate ucast two_ints 16, Aggregate ucast three_longs 32] @ [Some three_longs])
      (sysv_frame (\<lambda>_. 0) a))
      (map item_ty [Scalar (AInt 7), Aggregate ucast two_ints 16, Aggregate ucast three_longs 32]))
      = map item_val [Scalar (AInt 7), Aggregate ucast two_ints 16, Aggregate ucast three_longs 32]"
  by (rule x64_aggregates_arrive)
    (simp_all add: x64_blank_def two_ints_def three_longs_def aggr_ok_def live_classes_def round_up_def)

subsection \<open>Returning a small aggregate\<close>

lemma copy_ll_eq:
  "copy_ll ll st = (if ll \<le> unat st then (ll, st - of_nat ll) else (unat st, - 1))"
proof (induction ll arbitrary: st)
  case (Suc ll)
  show ?case
  proof (cases "st = 0")
    case False
    then have u: "unat (st - 1) = unat st - 1" and p: "0 < unat st"
      by (simp_all add: unat_minus_one unat_gt_0)
    show ?thesis
      by (simp only: copy_ll.simps False if_False Suc.IH u) (use p in \<open>auto simp: algebra_simps\<close>)
  qed simp
qed simp

lemma copy_ll_of_nat:
  "n < 2 ^ 62 \<Longrightarrow> copy_ll 8 (of_nat n) = (if 8 \<le> n then (8, of_nat (n - 8)) else (n, - 1))"
  by (simp add: copy_ll_eq unat_of_nat)

lemma read_write_prefix:
  "m \<le> 8 \<Longrightarrow> read_at (write_at regs i (heap_read h a 8)) i m = heap_read h a m"
  by (auto simp: read_at_def write_at_def heap_read_def intro!: nth_equalityI)

lemma read_write_other:
  "i + m \<le> j \<or> j + 8 \<le> i \<Longrightarrow>
     read_at (write_at regs j (heap_read h a 8)) i m = read_at regs i m"
  by (rule read_at_cong) auto

lemma return_reassemble:
  assumes "qwords_ok n cs" and "n \<le> 16" and "0 < n"
  shows "\<exists>regs'. return_qwords h r 0 0 16 cs regs = Some regs' \<and>
    reassemble regs' 0 16 cs (of_nat n) = Some (heap_read h r n)"
proof -
  from assms obtain c cs' where cs: "cs = c # cs'" and c: "c = SYSVC_INTEGER \<or> c = SYSVC_SSE"
    and ok: "qwords_ok (n - 8) cs'"
    by (cases cs) auto
  show ?thesis
  proof (cases "n \<le> 8")
    case True
    then have "cs' = []" using ok qwords_ok_0 by simp
    with True c cs show ?thesis
      by (auto simp: copy_ll_of_nat read_write_prefix)
  next
    case False
    with ok assms(2) obtain d where cs': "cs' = [d]" and d: "d = SYSVC_INTEGER \<or> d = SYSVC_SSE"
      by (cases cs'; cases "tl cs'") auto
    have sp: "heap_read h r n = heap_read h r 8 @ heap_read h (r + 8) (n - 8)"
      using heap_read_append [of h r 8 "n - 8"] False by simp
    have nd: "copy_ll 8 (word_of_nat (n - 8)) = (n - 8, if 8 \<le> n - 8 then 0 else - 1)"
      using False assms(2) by (subst copy_ll_of_nat) auto
    from False assms(2) c d show ?thesis
      by (elim disjE) (simp_all add: cs cs' copy_ll_of_nat nd sp read_write_prefix read_write_other
          del: of_nat_diff)
  qed
qed


text \<open>C6: A struct of at most two eightbytes returned by value: what \<open>dcbReturnAggr\<close> puts into the four
  result registers of a callback is put together by \<open>dcCallAggr\<close> to the bytes that the
  handler returned, in the buffer of the caller.\<close>

theorem x64_aggregate_returns:
  assumes "aggr_ok ag" and "sysv_classes ag ! 0 \<noteq> SYSVC_MEMORY"
    and "0 < unat (ag_size ag)" and "unat (ag_size ag) \<le> 16"
    and "aggr_return_register args < 0" and "aggrs args = Some ag # rest"
    and "mVTpointer vm = gVT_x64" and "mAggrReturnReg vm = - 1"
  shows "\<exists>regs. dcbReturnAggr_x64 h args result r = Some (h, regs, args\<lparr>aggrs := rest\<rparr>) \<and>
    dcCallAggr (vtab_x64 run (\<lambda>_ h. (h', regs)) pad) h2 vm target (Some ag) ret
      = Some (vm, heap_write h' ret (heap_read h r (unat (ag_size ag))))"
proof -
  from assms(1,2) have ok: "qwords_ok (unat (ag_size ag)) (live_classes ag)"
    by (simp add: aggr_ok_def)
  obtain regs where r: "return_qwords h r 0 0 16 (live_classes ag) result = Some regs"
      "reassemble regs 0 16 (live_classes ag) (of_nat (unat (ag_size ag)))
        = Some (heap_read h r (unat (ag_size ag)))"
    using return_reassemble [OF ok assms(4,3)] by blast
  have "length (live_classes ag) \<le> 2"
    using qwords_ok_length [OF ok] assms(4) by linarith
  then have "dcbReturnAggr_x64 h args result r = Some (h, regs, args\<lparr>aggrs := rest\<rparr>)"
    using assms(5,6) r(1) by (simp add: dcbReturnAggr_x64_def)
  moreover have "dcCallAggr (vtab_x64 run (\<lambda>_ h. (h', regs)) pad) h2 vm target (Some ag) ret
      = Some (vm, heap_write h' ret (heap_read h r (unat (ag_size ag))))"
    using assms(7,8) r(2) by (simp add: dcCallAggr_def vt_x64_c_def dc_callvm_call_x64_aggr_def)
  ultimately show ?thesis by blast
qed


definition returning_args :: DCArgs_x64 where
  "returning_args =
     \<lparr>stack_ptr = 0, reg_count_i = 0, reg_count_f = 0, aggr_return_register = - 1, aggrs = [Some two_ints],
      reg_data_i = (\<lambda>_. 0), reg_data_f = (\<lambda>_. 0), arg_stack = (\<lambda>_. 0)\<rparr>"

lemma x64_aggregate_returns_witness:
  "\<exists>regs. dcbReturnAggr_x64 ucast returning_args (\<lambda>_. 0) 40
      = Some (ucast, regs, returning_args\<lparr>aggrs := []\<rparr>) \<and>
    dcCallAggr (vtab_x64 (\<lambda>_ h. h) (\<lambda>_ h. (ucast, regs)) 0) ucast (x64_blank 64) 4096 (Some two_ints) 512
      = Some (x64_blank 64, heap_write ucast 512 (heap_read ucast (40 :: u64) (unat (ag_size two_ints))))"
  by (rule x64_aggregate_returns)
    (simp_all add: returning_args_def x64_blank_def two_ints_def aggr_ok_def live_classes_def)

end
