(* ===== verification/Aggr_Classes.thy ===== *)
theory Aggr_Classes
  imports Aggr_X64
begin

unbundle bit_operations_syntax

section \<open>What the classification computes\<close>

text \<open>
  A description without nested aggregates is classified by the rule of the ABI: an eightbyte that
  an unaligned field reaches into is MEMORY, else it is INTEGER if an integer or a pointer
  reaches into it, else SSE if a field does. The reference works with natural numbers, the code
  with wrapping words; then a description that \<open>dcCloseAggr\<close> makes of aligned fields without gaps is
  one that travels unchanged (\<open>aggr_ok\<close>). Nested aggregates are classified
  wrongly where they start inside an eightbyte: the last section computes two of them.
\<close>

subsection \<open>Merging classes\<close>

definition known_class :: "u8 \<Rightarrow> bool" where
  "known_class c \<longleftrightarrow> c \<in> {SYSVC_NONE, SYSVC_INTEGER, SYSVC_SSE, SYSVC_MEMORY}"

lemma merge_none [simp]:
  "dc_merge_sysv_classes SYSVC_NONE c = c" "dc_merge_sysv_classes c SYSVC_NONE = c"
  by (simp_all add: dc_merge_sysv_classes_def)

lemma merge_same: "known_class c \<Longrightarrow> dc_merge_sysv_classes c c = c"
  by (auto simp: dc_merge_sysv_classes_def known_class_def)

lemma merge_commute: "dc_merge_sysv_classes c d = dc_merge_sysv_classes d c"
  by (auto simp: dc_merge_sysv_classes_def)

lemma merge_assoc:
  "dc_merge_sysv_classes (dc_merge_sysv_classes c d) e = dc_merge_sysv_classes c (dc_merge_sysv_classes d e)"
  by (auto simp: dc_merge_sysv_classes_def)

lemma scalar_class_cases: "scalar_class ty \<in> {SYSVC_NONE, SYSVC_INTEGER, SYSVC_SSE}"
  by (simp add: scalar_class_def)

subsection \<open>The reference for flat descriptions\<close>

definition flat_field :: "DCfield \<Rightarrow> bool" where
  "flat_field f \<longleftrightarrow>
     sizeof_sigchar 8 (f_type f) = Some (f_size f) \<and> f_alignment f = f_size f \<and>
     unat (f_offset f) + unat (f_size f) * unat (f_array_len f) \<le> 16"

definition overlaps :: "DCfield \<Rightarrow> nat \<Rightarrow> bool" where
  "overlaps f q \<longleftrightarrow>
     unat (f_offset f) < 8 * q + 8 \<and> 8 * q < unat (f_offset f) + unat (f_size f) * unat (f_array_len f)"

definition aligned_field :: "DCfield \<Rightarrow> bool" where
  "aligned_field f \<longleftrightarrow> unat (f_alignment f) dvd unat (f_offset f)"

definition flat_class :: "DCfield list \<Rightarrow> nat \<Rightarrow> u8" where
  "flat_class fs q =
     (let fs = filter (\<lambda>f. overlaps f q) fs in
      if \<exists>f \<in> set fs. \<not> aligned_field f then SYSVC_MEMORY
      else if \<exists>f \<in> set fs. scalar_class (f_type f) = SYSVC_INTEGER then SYSVC_INTEGER
      else if fs = [] then SYSVC_NONE else SYSVC_SSE)"

lemma sizeof_sigchar_cases:
  "sizeof_sigchar 8 ty = Some n \<Longrightarrow> n \<in> {2 ^ 0, 2 ^ 1, 2 ^ 2, 2 ^ 3} \<and> ty \<noteq> DC_SIGCHAR_AGGREGATE \<and>
     scalar_class ty \<in> {SYSVC_INTEGER, SYSVC_SSE}"
  by (auto simp: sizeof_sigchar_def scalar_class_def split: if_splits)

lemma and_mask_dvd: "(x :: 'a::len word) AND (2 ^ k - 1) = 0 \<longleftrightarrow> 2 ^ k dvd unat x"
proof -
  have "x AND (2 ^ k - 1) = take_bit k x"
    by (simp add: take_bit_eq_mask mask_eq_decr_exp)
  moreover have "unat (take_bit k x) = unat x mod 2 ^ k"
    by (metis unsigned_take_bit_eq take_bit_eq_mod)
  ultimately show ?thesis
    by (metis dvd_eq_mod_eq_0 unat_eq_0)
qed

lemma flat_field_aligned:
  assumes "flat_field f"
  shows "(f_alignment f \<noteq> 0 \<and> f_offset f AND (f_alignment f - 1) \<noteq> 0) \<longleftrightarrow> \<not> aligned_field f"
proof -
  have "\<exists>k < 4. f_alignment f = 2 ^ k"
    using assms sizeof_sigchar_cases [of "f_type f" "f_size f"] unfolding flat_field_def
    by (auto intro: exI [of _ "0::nat"] exI [of _ "1::nat"] exI [of _ "2::nat"] exI [of _ "3::nat"])
  then obtain k where k: "k < 4" "f_alignment f = 2 ^ k" by blast
  from k(1) consider "k = 0" | "k = 1" | "k = 2" | "k = 3" by linarith
  then have "unat (f_alignment f) = 2 ^ k" and "f_alignment f \<noteq> 0"
    by (cases; simp add: k)+
  then show ?thesis
    using k by (simp add: and_mask_dvd aligned_field_def)
qed

lemma flat_field_overlaps:
  assumes "flat_field f" and "q \<le> 1"
  shows "scast (of_nat q * 8 + 8 :: u32) \<le> f_offset f \<or>
         f_offset f + f_size f * f_array_len f \<le> scast (of_nat q * 8 :: u32) \<longleftrightarrow> \<not> overlaps f q"
proof -
  have n: "unat (f_offset f) + unat (f_size f) * unat (f_array_len f) \<le> 16"
    using assms(1) by (simp add: flat_field_def)
  then have "unat (f_size f * f_array_len f) = unat (f_size f) * unat (f_array_len f)"
    by (intro unat_mult_lem [THEN iffD1]) simp
  with n have u: "unat (f_offset f + f_size f * f_array_len f)
      = unat (f_offset f) + unat (f_size f) * unat (f_array_len f)"
    by (simp add: unat_plus_if')
  from assms(2) consider "q = 0" | "q = 1" by linarith
  then show ?thesis
    by cases (auto simp: overlaps_def word_le_nat_alt u not_less)
qed

lemma class_of_fields_flat:
  assumes "\<forall>f \<in> set fs. flat_field f" and "q \<le> 1"
    and "clz \<in> {SYSVC_NONE, SYSVC_INTEGER, SYSVC_SSE}"
  shows "class_of_fields fs (of_nat q) 0 clz = dc_merge_sysv_classes clz (flat_class fs q)"
  using assms(1,3)
proof (induction fs arbitrary: clz)
  case Nil
  then show ?case by (simp add: flat_class_def)
next
  case (Cons f fs)
  obtain fo fsize fal alen ty sub where f: "f = DCfield fo fsize fal alen ty sub"
    by (cases f)
  have flat: "flat_field f" "\<forall>f \<in> set fs. flat_field f" using Cons.prems(1) by simp_all
  have sc: "scalar_class ty \<in> {SYSVC_INTEGER, SYSVC_SSE}" "ty \<noteq> DC_SIGCHAR_AGGREGATE"
    using sizeof_sigchar_cases [of ty fsize] flat(1) by (simp_all add: f flat_field_def)
  note ov = flat_field_overlaps [OF flat(1) assms(2), unfolded f, simplified DCfield.sel]
  note al = flat_field_aligned [OF flat(1), unfolded f, simplified DCfield.sel]
  show ?case
  proof (cases "overlaps f q")
    case False
    then have "flat_class (f # fs) q = flat_class fs q" by (simp add: flat_class_def)
    with False ov Cons.IH [OF flat(2) Cons.prems(2)] show ?thesis
      by (simp add: f Let_def)
  next
    case True
    note ovT = True
    show ?thesis
    proof (cases "aligned_field f")
      case False
      then have "flat_class (f # fs) q = SYSVC_MEMORY" using ovT by (simp add: flat_class_def Let_def)
      with False ovT ov al Cons.prems(2) show ?thesis
        by (auto simp: f Let_def dc_merge_sysv_classes_def)
    next
      case True
      let ?m = "if clz = scalar_class ty then clz else dc_merge_sysv_classes clz (scalar_class ty)"
      have m: "?m = dc_merge_sysv_classes clz (scalar_class ty)"
        using sc by (auto simp: dc_merge_sysv_classes_def)
      have "?m \<in> {SYSVC_NONE, SYSVC_INTEGER, SYSVC_SSE}"
        using sc Cons.prems(2) by (auto simp: dc_merge_sysv_classes_def)
      note ih = Cons.IH [OF flat(2) this]
      have "flat_class (f # fs) q = dc_merge_sysv_classes (scalar_class ty) (flat_class fs q)"
        using True ovT sc by (auto simp: flat_class_def Let_def f dc_merge_sysv_classes_def)
      with True ovT ov al sc(2) ih show ?thesis
        by (auto simp: f Let_def m merge_assoc)
    qed
  qed
qed


subsection \<open>Closed descriptions\<close>

lemma class_8byte_flat:
  assumes "\<forall>f \<in> set (ag_fields ag). flat_field f" and "q \<le> 1"
  shows "dc_get_sysv_class_for_8byte ag (of_nat q) 0 = flat_class (ag_fields ag) q"
  using class_of_fields_flat [OF assms, of SYSVC_NONE] by (cases ag) simp

text \<open>C7: The classes that \<open>dcCloseAggr\<close> stores for a struct or union of scalars and scalar arrays of at
  most 16 bytes are those of the ABI's rule, computed over natural numbers: the first is MEMORY if a field
  that reaches into either eightbyte is unaligned; otherwise the loops over the classes see,
  for each eightbyte up to the first that is padding, INTEGER if an integer or pointer reaches into it
  and SSE if only floats and doubles do.\<close>

theorem flat_classification:
  assumes "\<forall>f \<in> set (ag_fields ag). flat_field f" and "unat (ag_size ag) \<le> 16"
    and "length (sysv_classes ag) = 8"
  shows "sysv_classes (dcFinishAggr ag) ! 0 =
      (if flat_class (ag_fields ag) 0 = SYSVC_MEMORY \<or> flat_class (ag_fields ag) 1 = SYSVC_MEMORY
       then SYSVC_MEMORY else flat_class (ag_fields ag) 0)
    \<and> (sysv_classes (dcFinishAggr ag) ! 0 \<noteq> SYSVC_MEMORY \<longrightarrow>
         live_classes (dcFinishAggr ag) =
           takeWhile (\<lambda>c. c \<noteq> SYSVC_NONE) [flat_class (ag_fields ag) 0, flat_class (ag_fields ag) 1])"
proof -
  from assms(3) obtain a b c d e f g h where cl: "sysv_classes ag = [a, b, c, d, e, f, g, h]"
    by (auto simp: length_Suc_conv numeral_eq_Suc)
  have sz: "\<not> 2 * 8 < ag_size ag"
    using assms(2) by (simp add: word_less_nat_alt not_less)
  show ?thesis
    using class_8byte_flat [OF assms(1), of 0] class_8byte_flat [OF assms(1), of 1] sz
    by (simp add: dcFinishAggr_def dc_get_sysv_classes_for_aggr_def Let_def cl live_classes_def)
qed

text \<open>\<open>struct { float x; char c; double d; }\<close>, with room for the classes.\<close>

definition float_char_double :: DCaggr where
  "float_char_double = DCaggr 16 8 [0, 0, 0, 0, 0, 0, 0, 0]
     [DCfield 0 4 4 1 (CHR ''f'') None, DCfield 4 1 1 1 (CHR ''c'') None, DCfield 8 8 8 1 (CHR ''d'') None]"

lemma flat_classification_witness:
  "sysv_classes (dcFinishAggr float_char_double) ! 0 = SYSVC_INTEGER \<and>
   live_classes (dcFinishAggr float_char_double) = [SYSVC_INTEGER, SYSVC_SSE]"
  using flat_classification [of float_char_double]
  by (simp add: float_char_double_def flat_field_def sizeof_sigchar_def flat_class_def overlaps_def
      aligned_field_def scalar_class_def Let_def)

text \<open>A struct as a compiler lays it out: fields inside, a size that is a multiple of their alignments,
  no eightbyte of only padding.\<close>

definition well_laid_out :: "DCaggr \<Rightarrow> bool" where
  "well_laid_out ag \<longleftrightarrow>
     0 < unat (ag_size ag) \<and> unat (ag_size ag) \<le> 16 \<and>
     (\<forall>f \<in> set (ag_fields ag). flat_field f \<and> aligned_field f \<and>
        unat (f_alignment f) dvd unat (ag_size ag) \<and>
        unat (f_offset f) + unat (f_size f) * unat (f_array_len f) \<le> unat (ag_size ag)) \<and>
     (\<forall>q \<in> {0, 1}. 8 * q < unat (ag_size ag) \<longrightarrow> (\<exists>f \<in> set (ag_fields ag). overlaps f q))"

lemma flat_class_sse:
  assumes "\<forall>f \<in> set fs. flat_field f \<and> aligned_field f \<and> unat (f_alignment f) dvd n"
    and "\<exists>f \<in> set fs. overlaps f q"
  shows "flat_class fs q = SYSVC_INTEGER \<or> flat_class fs q = SYSVC_SSE \<and> 4 dvd n"
proof -
  from assms(2) obtain f where f: "f \<in> set fs" "overlaps f q" by blast
  have "4 dvd n" if "scalar_class (f_type f) \<noteq> SYSVC_INTEGER"
  proof -
    have "sizeof_sigchar 8 (f_type f) = Some (f_size f)" and "f_alignment f = f_size f"
      using assms(1) f(1) by (auto simp: flat_field_def)
    with that have "f_alignment f \<in> {4, 8}"
      by (auto simp: sizeof_sigchar_def scalar_class_def split: if_splits)
    then have "(4::nat) dvd unat (f_alignment f)" by auto
    with assms(1) f(1) show ?thesis by (blast intro: dvd_trans)
  qed
  with assms(1) f show ?thesis
    by (auto simp: flat_class_def Let_def filter_empty_conv)
qed

text \<open>C16: Closing a well laid out struct of scalars makes a description that writer and reader of
  aggregates agree on (the hypothesis of the transport).\<close>

theorem close_aggr_ok:
  assumes "well_laid_out ag" and "length (sysv_classes ag) = 8"
  shows "aggr_ok (dcFinishAggr ag)"
proof -
  let ?n = "unat (ag_size ag)" and ?c = "flat_class (ag_fields ag)"
  have n: "0 < ?n" "?n \<le> 16" and flat: "\<forall>f \<in> set (ag_fields ag). flat_field f"
    and al: "\<forall>f \<in> set (ag_fields ag). flat_field f \<and> aligned_field f \<and> unat (f_alignment f) dvd ?n"
    and ins: "\<forall>f \<in> set (ag_fields ag). unat (f_offset f) + unat (f_size f) * unat (f_array_len f) \<le> ?n"
    and ov: "\<And>q. q \<in> {0, 1} \<Longrightarrow> 8 * q < ?n \<Longrightarrow> \<exists>f \<in> set (ag_fields ag). overlaps f q"
    using assms(1) by (auto simp: well_laid_out_def)
  have c0: "?c 0 = SYSVC_INTEGER \<or> ?c 0 = SYSVC_SSE \<and> 4 dvd ?n"
    using n(1) by (intro flat_class_sse [OF al] ov) simp_all
  have c1: "if 8 < ?n then ?c 1 = SYSVC_INTEGER \<or> ?c 1 = SYSVC_SSE \<and> 4 dvd ?n else ?c 1 = SYSVC_NONE"
  proof (cases "8 < ?n")
    case True
    then show ?thesis using flat_class_sse [OF al ov [of 1]] by simp
  next
    case False
    then have "filter (\<lambda>f. overlaps f 1) (ag_fields ag) = []"
      using ins by (auto simp: overlaps_def filter_empty_conv)
    with False show ?thesis by (simp add: flat_class_def Let_def)
  qed
  have m: "?c 0 \<noteq> SYSVC_MEMORY" "?c 1 \<noteq> SYSVC_MEMORY" using c0 c1 by (auto split: if_splits)
  from flat_classification [OF flat n(2) assms(2)] m c0 c1
  have live: "live_classes (dcFinishAggr ag) = (if 8 < ?n then [?c 0, ?c 1] else [?c 0])"
    by (auto split: if_splits)
  have d: "4 dvd ?n \<Longrightarrow> ?n = 4 \<or> ?n = 8 \<or> ?n = 12 \<or> ?n = 16"
    using n by presburger
  have "qwords_ok ?n (if 8 < ?n then [?c 0, ?c 1] else [?c 0])"
    using c0 c1 n d by (cases "8 < ?n") auto
  with live n(2) show ?thesis
    by (simp add: aggr_ok_def dcFinishAggr_def)
qed


lemma close_aggr_ok_witness: "aggr_ok (dcFinishAggr float_char_double)"
  by (rule close_aggr_ok)
    (simp_all add: well_laid_out_def float_char_double_def flat_field_def sizeof_sigchar_def overlaps_def
      aligned_field_def)

subsection \<open>Nested aggregates inside an eightbyte\<close>

text \<open>
  \<open>struct { float x; struct { int a, b, c; } s; }\<close>: the first eightbyte holds a float and an int, so it
  is INTEGER. The nested struct starts at offset 4 inside that eightbyte, where \<open>(qword_offset -
  offset) / f->size\<close> wraps to a large number, no element is visited and the class is SSE. The same
  fields without nesting are classified as the ABI says.
\<close>

definition nested_ints :: DCaggr where
  "nested_ints =
     (let inner = dcFinishAggr (DCaggr 12 4 (replicate 8 0)
        [DCfield 0 4 4 1 (CHR ''i'') None, DCfield 4 4 4 1 (CHR ''i'') None, DCfield 8 4 4 1 (CHR ''i'') None])
      in dcFinishAggr (DCaggr 16 4 (replicate 8 0)
        [DCfield 0 4 4 1 (CHR ''f'') None, DCfield 4 12 4 1 (CHR ''A'') (Some inner)]))"

definition flattened_ints :: DCaggr where
  "flattened_ints = dcFinishAggr (DCaggr 16 4 (replicate 8 0)
     [DCfield 0 4 4 1 (CHR ''f'') None, DCfield 4 4 4 1 (CHR ''i'') None,
      DCfield 8 4 4 1 (CHR ''i'') None, DCfield 12 4 4 1 (CHR ''i'') None])"

text \<open>\<open>struct { float x; struct { float a; int b; } s; }\<close>: here the index is -1, the element before
  the array is looked at, and its \<open>int\<close> makes the first eightbyte INTEGER instead of SSE.\<close>

definition nested_mixed :: DCaggr where
  "nested_mixed =
     (let inner = dcFinishAggr (DCaggr 8 4 (replicate 8 0)
        [DCfield 0 4 4 1 (CHR ''f'') None, DCfield 4 4 4 1 (CHR ''i'') None])
      in dcFinishAggr (DCaggr 12 4 (replicate 8 0)
        [DCfield 0 4 4 1 (CHR ''f'') None, DCfield 4 8 4 1 (CHR ''A'') (Some inner)]))"

definition flattened_mixed :: DCaggr where
  "flattened_mixed = dcFinishAggr (DCaggr 12 4 (replicate 8 0)
     [DCfield 0 4 4 1 (CHR ''f'') None, DCfield 4 4 4 1 (CHR ''f'') None, DCfield 8 4 4 1 (CHR ''i'') None])"

lemma nested_ints_class: "sysv_classes nested_ints ! 0 = SYSVC_SSE"
  by code_simp

lemma flattened_ints_class: "sysv_classes flattened_ints ! 0 = SYSVC_INTEGER"
  by code_simp

lemma nested_mixed_class: "sysv_classes nested_mixed ! 0 = SYSVC_INTEGER"
  by code_simp

lemma flattened_mixed_class: "sysv_classes flattened_mixed ! 0 = SYSVC_SSE"
  by code_simp


text \<open>The two structs above are classified differently from the structs with the same fields at
  the same offsets, so a callee compiled by a C compiler looks for their first eightbyte in the
  wrong kind of register.\<close>

lemma nested_start_misclassified:
  "sysv_classes nested_ints ! 0 \<noteq> sysv_classes flattened_ints ! 0 \<and>
   sysv_classes nested_mixed ! 0 \<noteq> sysv_classes flattened_mixed ! 0"
  by (simp add: nested_ints_class flattened_ints_class nested_mixed_class flattened_mixed_class)

end
