(* ===== verification/Dyn_Thunk.thy ===== *)
theory Dyn_Thunk
  imports Dyn_Callvm
begin

unbundle bit_operations_syntax

section \<open>Thunks\<close>

text \<open>
  \<open>dyncall/dyncallback/dyncall_thunk_*.{h,c}\<close>. A callback starts with a \<^emph>\<open>thunk\<close>, a few instructions that \<open>dcbInitThunk\<close>
  writes as data: they load the address of the thunk into a register and jump to the entry of dyncallback. Each
  \<open>struct DCThunk_\<close> is a record with its bytes in memory, each \<open>dcbInitThunk\<close> a function on it. What the bytes do is the
  documented meaning of the instructions they encode: \<open>insn\<close> has the operations that occur, a decoder for each
  processor reads them from memory, \<open>steps\<close> runs them. A thunk is right when from its first instruction, whatever the
  registers hold, the processor gets to the entry with the address of the thunk in the context register and all other
  registers but a few scratch registers as they were, so that the arguments of the call are still in their place.
\<close>

subsection \<open>Instructions\<close>

datatype 'w insn =
    Nop
  | Set nat 'w
  | OrI nat nat 'w
  | Shl nat nat nat
  | AddR nat nat nat
  | AdrPc nat 'w
  | Ld nat nat 'w
  | LdPc nat 'w
  | ToCtr nat
  | JmpCtr
  | Jmp nat
  | JmpDelay nat
  | JmpMem nat 'w
  | JmpMemPc 'w

text \<open>\<open>c_slot\<close> is the target of a jump that takes effect behind the next instruction (the delay slot).\<close>

record 'w cpu =
  c_pc :: 'w
  c_reg :: "nat \<Rightarrow> 'w"
  c_ctr :: 'w
  c_slot :: "'w option"

definition load_ptr :: "endian \<Rightarrow> 'l::len word heap \<Rightarrow> 'l word \<Rightarrow> 'l word" where
  "load_ptr e h a = obj_word e (heap_read h a (LENGTH('l) div 8))"

definition advance :: "nat \<Rightarrow> 'l::len word cpu \<Rightarrow> 'l word cpu" where
  "advance n c =
     (case c_slot c of
        None \<Rightarrow> c\<lparr>c_pc := c_pc c + of_nat n\<rparr>
      | Some t \<Rightarrow> c\<lparr>c_pc := t, c_slot := None\<rparr>)"

definition set_reg :: "nat \<Rightarrow> 'l::len word \<Rightarrow> 'l word cpu \<Rightarrow> 'l word cpu" where
  "set_reg r x c = c\<lparr>c_reg := (c_reg c)(r := x)\<rparr>"

text \<open>\<open>n\<close> is the length of the instruction; offsets from the program counter count from its first byte.\<close>

fun exec :: "endian \<Rightarrow> 'l::len word heap \<Rightarrow> nat \<Rightarrow> 'l word insn \<Rightarrow> 'l word cpu \<Rightarrow> 'l word cpu" where
  "exec e h n Nop c = advance n c"
| "exec e h n (Set r x) c = advance n (set_reg r x c)"
| "exec e h n (OrI r s x) c = advance n (set_reg r (c_reg c s OR x) c)"
| "exec e h n (Shl r s k) c = advance n (set_reg r (push_bit k (c_reg c s)) c)"
| "exec e h n (AddR r s t) c = advance n (set_reg r (c_reg c s + c_reg c t) c)"
| "exec e h n (AdrPc r x) c = advance n (set_reg r (c_pc c + x) c)"
| "exec e h n (Ld r s x) c = advance n (set_reg r (load_ptr e h (c_reg c s + x)) c)"
| "exec e h n (LdPc r x) c = advance n (set_reg r (load_ptr e h (c_pc c + x)) c)"
| "exec e h n (ToCtr s) c = advance n (c\<lparr>c_ctr := c_reg c s\<rparr>)"
| "exec e h n JmpCtr c = c\<lparr>c_pc := c_ctr c\<rparr>"
| "exec e h n (Jmp s) c = c\<lparr>c_pc := c_reg c s\<rparr>"
| "exec e h n (JmpDelay s) c = (advance n c)\<lparr>c_slot := Some (c_reg c s)\<rparr>"
| "exec e h n (JmpMem s x) c = c\<lparr>c_pc := load_ptr e h (c_reg c s + x)\<rparr>"
| "exec e h n (JmpMemPc x) c = c\<lparr>c_pc := load_ptr e h (c_pc c + x)\<rparr>"

text \<open>A decoder gets the bytes from the program counter on, as many as it asks for.\<close>

type_synonym 'w decoder = "(nat \<Rightarrow> byte list) \<Rightarrow> ('w insn \<times> nat) option"

definition step :: "endian \<Rightarrow> 'l::len word decoder \<Rightarrow> 'l word heap \<Rightarrow> 'l word cpu \<Rightarrow> 'l word cpu option" where
  "step e dec h c = map_option (\<lambda>(i, n). exec e h n i c) (dec (heap_read h (c_pc c)))"

fun steps :: "endian \<Rightarrow> 'l::len word decoder \<Rightarrow> 'l word heap \<Rightarrow> nat \<Rightarrow> 'l word cpu \<Rightarrow> 'l word cpu option" where
  "steps e dec h 0 c = Some c"
| "steps e dec h (Suc n) c = Option.bind (step e dec h c) (steps e dec h n)"

subsection \<open>Decoders\<close>

definition fld :: "u32 \<Rightarrow> nat \<Rightarrow> nat \<Rightarrow> nat" where
  "fld w lo n = unat (take_bit n (drop_bit lo w))"

lemma fld_const: "fld (numeral k) lo n = unat (take_bit n (drop_bit lo (numeral k :: u32)))"
  by (simp add: fld_def)

definition sx :: "nat \<Rightarrow> nat \<Rightarrow> 'l::len word" where
  "sx n x = (if x < 2 ^ (n - 1) then of_nat x else of_nat x - 2 ^ n)"

definition fixed4 :: "endian \<Rightarrow> (u32 \<Rightarrow> 'w insn option) \<Rightarrow> 'w decoder" where
  "fixed4 e dec rd = map_option (\<lambda>i. (i, 4)) (dec (obj_word e (rd 4)))"

text \<open>x86: \<open>nop\<close>, \<open>mov r, imm32\<close>, \<open>jmp [r + disp8]\<close>; x64: \<open>lea r, [rip + disp32]\<close>, \<open>jmp [rip + disp32]\<close>.\<close>

definition decode_x86 :: "u32 decoder" where
  "decode_x86 rd =
     (let b = unat (hd (rd 1)) in
      if b = 0x90 then Some (Nop, 1)
      else if 0xb8 \<le> b \<and> b < 0xc0 then Some (Set (b - 0xb8) (obj_word LE (drop 1 (rd 5))), 5)
      else if b = 0xff then
        (let m = unat (rd 2 ! 1) in
         if m div 64 = 1 \<and> m div 8 mod 8 = 4 \<and> m mod 8 \<noteq> 4 then Some (JmpMem (m mod 8) (scast (rd 3 ! 2)), 3)
         else None)
      else None)"

definition decode_x64 :: "u64 decoder" where
  "decode_x64 rd =
     (if rd 2 = [0x48, 0x8d] \<and> unat (rd 3 ! 2) div 64 = 0 \<and> unat (rd 3 ! 2) mod 8 = 5
      then Some (AdrPc (unat (rd 3 ! 2) div 8) (7 + scast (obj_word LE (drop 3 (rd 7)) :: u32)), 7)
      else if rd 2 = [0xff, 0x25] then Some (JmpMemPc (6 + scast (obj_word LE (drop 2 (rd 6)) :: u32)), 6)
      else if rd 1 = [0x90] then Some (Nop, 1)
      else None)"

text \<open>ARM: the program counter reads as the address of the instruction plus 8.\<close>

definition decode_arm32 :: "u32 \<Rightarrow> u32 insn option" where
  "decode_arm32 w =
     (if fld w 28 4 \<noteq> 14 then None
      else if fld w 20 8 = 0x24 \<and> fld w 16 4 = 15 \<and> fld w 8 4 = 0 \<and> fld w 12 4 \<noteq> 15
      then Some (AdrPc (fld w 12 4) (8 - of_nat (fld w 0 8)))
      else if fld w 24 4 = 5 \<and> fld w 20 3 = 1 \<and> fld w 16 4 = 15
      then (let off = 8 + (if fld w 23 1 = 1 then of_nat (fld w 0 12) else - of_nat (fld w 0 12)) in
            Some (if fld w 12 4 = 15 then JmpMemPc off else LdPc (fld w 12 4) off))
      else None)"

definition decode_arm64 :: "u32 \<Rightarrow> u64 insn option" where
  "decode_arm64 w =
     (if fld w 31 1 = 0 \<and> fld w 24 5 = 16 then Some (AdrPc (fld w 0 5) (sx 21 (4 * fld w 5 19 + fld w 29 2)))
      else if fld w 24 8 = 0x58 then Some (LdPc (fld w 0 5) (4 * sx 19 (fld w 5 19)))
      else if fld w 10 22 = 0x3587c0 \<and> fld w 0 5 = 0 then Some (Jmp (fld w 5 5))
      else if w = 0xd503201f then Some Nop
      else None)"

text \<open>MIPS: \<open>lui\<close>, \<open>ori\<close>, \<open>dsll\<close>, \<open>jr\<close>.\<close>

definition decode_mips :: "u32 \<Rightarrow> 'l::len word insn option" where
  "decode_mips w =
     (let op = fld w 26 6; rs = fld w 21 5; rt = fld w 16 5 in
      if op = 15 \<and> rs = 0 then Some (Set rt (scast (push_bit 16 (take_bit 16 w))))
      else if op = 13 then Some (OrI rt rs (ucast (take_bit 16 w)))
      else if op = 0 \<and> fld w 0 6 = 0x38 then Some (Shl (fld w 11 5) rt (fld w 6 5))
      else if op = 0 \<and> fld w 0 6 = 8 then Some (JmpDelay rs)
      else None)"

text \<open>PowerPC: \<open>lis\<close>, \<open>ori\<close>, \<open>oris\<close>, \<open>lwz\<close>, \<open>ld\<close>, \<open>rldicr\<close> as a shift, \<open>mtctr\<close>, \<open>bctr\<close>.\<close>

definition decode_ppc :: "u32 \<Rightarrow> 'l::len word insn option" where
  "decode_ppc w =
     (let op = fld w 26 6; rt = fld w 21 5; ra = fld w 16 5; imm = take_bit 16 w;
          sh = fld w 11 5 + 32 * fld w 1 1; me = fld w 6 5 + 32 * fld w 5 1 in
      if op = 15 \<and> ra = 0 then Some (Set rt (scast (push_bit 16 imm)))
      else if op = 24 then Some (OrI ra rt (ucast imm))
      else if op = 25 then Some (OrI ra rt (push_bit 16 (ucast imm)))
      else if op = 32 \<and> ra \<noteq> 0 \<and> LENGTH('l) = 32 then Some (Ld rt ra (sx 16 (fld w 0 16)))
      else if op = 58 \<and> ra \<noteq> 0 \<and> fld w 0 2 = 0 \<and> LENGTH('l) = 64 then Some (Ld rt ra (sx 16 (fld w 0 16)))
      else if op = 30 \<and> fld w 2 3 = 1 \<and> fld w 0 1 = 0 \<and> me = 63 - sh then Some (Shl ra rt sh)
      else if op = 31 \<and> fld w 11 10 = 288 \<and> fld w 0 11 = 934 then Some (ToCtr rt)
      else if w = 0x4e800420 then Some JmpCtr
      else None)"

text \<open>SPARC: \<open>sethi\<close> (\<open>nop\<close> with register 0), \<open>or\<close>, \<open>sllx\<close>, \<open>add\<close>, \<open>jmpl r, %g0\<close>.\<close>

definition decode_sparc :: "u32 \<Rightarrow> 'l::len word insn option" where
  "decode_sparc w =
     (let op = fld w 30 2; rd = fld w 25 5; op3 = fld w 19 6; rs1 = fld w 14 5; i = fld w 13 1 in
      if op = 0 \<and> fld w 22 3 = 4 then Some (if rd = 0 then Nop else Set rd (ucast (push_bit 10 (take_bit 22 w))))
      else if op = 2 \<and> op3 = 2 \<and> i = 1 \<and> fld w 12 1 = 0 \<and> rd \<noteq> 0 \<and> rs1 \<noteq> 0
      then Some (OrI rd rs1 (ucast (take_bit 12 w)))
      else if op = 2 \<and> op3 = 0x25 \<and> i = 1 \<and> fld w 12 1 = 1 \<and> rd \<noteq> 0 \<and> rs1 \<noteq> 0 then Some (Shl rd rs1 (fld w 0 6))
      else if op = 2 \<and> op3 = 0 \<and> i = 0 \<and> rd \<noteq> 0 \<and> rs1 \<noteq> 0 \<and> fld w 0 5 \<noteq> 0 then Some (AddR rd rs1 (fld w 0 5))
      else if op = 2 \<and> op3 = 0x38 \<and> i = 0 \<and> rd = 0 \<and> fld w 0 5 = 0 then Some (JmpDelay rs1)
      else None)"

subsection \<open>What a thunk must do\<close>

definition thunk_enters ::
  "endian \<Rightarrow> 'l::len word decoder \<Rightarrow> 'l word \<Rightarrow> byte list \<Rightarrow> 'l word \<Rightarrow> nat \<Rightarrow> nat set \<Rightarrow> bool" where
  "thunk_enters e dec p bytes entry ctx scratch \<longleftrightarrow>
     (\<forall>h c. heap_read h p (length bytes) = bytes \<longrightarrow> c_pc c = p \<longrightarrow> c_slot c = None \<longrightarrow>
        (\<exists>n c'. steps e dec h n c = Some c' \<and> c_pc c' = entry \<and> c_slot c' = None \<and> c_reg c' ctx = p \<and>
           (\<forall>r. r \<notin> scratch \<longrightarrow> c_reg c' r = c_reg c r)))"

lemma code_read:
  assumes "heap_read h (p :: 'l::len word) (length bytes) = bytes" and "unat (a - p) + n \<le> length bytes"
  shows "heap_read h a n = take n (drop (unat (a - p)) bytes)"
proof (rule nth_equalityI)
  fix i assume "i < length (heap_read h a n)"
  then have i: "i < n" by simp
  from arg_cong [OF assms(1), where f = "\<lambda>l. l ! (unat (a - p) + i)"] i assms(2)
  have "h (p + of_nat (unat (a - p) + i)) = bytes ! (unat (a - p) + i)" by (simp add: heap_read_def)
  with i assms(2) show "heap_read h a n ! i = take n (drop (unat (a - p)) bytes) ! i" by (simp add: heap_read_def)
qed (use assms(2) in simp)

lemma steps_numeral:
  "steps e dec h (numeral k) c = Option.bind (step e dec h c) (steps e dec h (pred_numeral k))"
  by (simp add: numeral_eq_Suc)

definition words :: "endian \<Rightarrow> (nat \<Rightarrow> u32) \<Rightarrow> nat \<Rightarrow> byte list" where
  "words e f n = concat (map (\<lambda>i. obj_bytes e 4 (f i)) [0..<n])"

lemma words_0 [simp]: "words e f 0 = []"
  by (simp add: words_def)

lemma words_Suc: "words e f (Suc n) = words e f n @ obj_bytes e 4 (f n)"
  by (simp add: words_def)

lemma words_numeral [simp]:
  "words e f (numeral k) = words e f (pred_numeral k) @ obj_bytes e 4 (f (pred_numeral k))"
  by (simp add: numeral_eq_Suc words_Suc)

lemma words_1 [simp]: "words e f (Suc 0) = obj_bytes e 4 (f 0)"
  by (simp add: words_Suc)

subsection \<open>x86 and x64\<close>

record DCThunk_x86 =
  x86_code_load :: u32
  x86_addr_self :: u32
  x86_code_jump :: u32
  x86_addr_entry :: u32

definition thunk_x86_bytes :: "DCThunk_x86 \<Rightarrow> byte list" where
  "thunk_x86_bytes t =
     obj_bytes LE 4 (x86_code_load t) @ obj_bytes LE 4 (x86_addr_self t) @ obj_bytes LE 4 (x86_code_jump t) @
     obj_bytes LE 4 (x86_addr_entry t)"

definition dcbInitThunk_x86 :: "u32 \<Rightarrow> u32 \<Rightarrow> DCThunk_x86 \<Rightarrow> DCThunk_x86" where
  "dcbInitThunk_x86 p entry t =
     t\<lparr>x86_code_load := 0xb8909090, x86_addr_self := p, x86_code_jump := 0x900C60ff, x86_addr_entry := entry\<rparr>"

record DCThunk_x64 =
  x64_code :: "nat \<Rightarrow> u64"
  x64_entry :: u64

definition thunk_x64_bytes :: "DCThunk_x64 \<Rightarrow> byte list" where
  "thunk_x64_bytes t = obj_bytes LE 8 (x64_code t 0) @ obj_bytes LE 8 (x64_code t 1) @ obj_bytes LE 8 (x64_entry t)"

definition dcbInitThunk_x64 :: "u64 \<Rightarrow> u64 \<Rightarrow> DCThunk_x64 \<Rightarrow> DCThunk_x64" where
  "dcbInitThunk_x64 p entry t =
     t\<lparr>x64_code := (x64_code t)(0 := 0xfffffffff9058d48, 1 := 0x9090900000000325), x64_entry := entry\<rparr>"

lemma obj_bytes_LE_eval: "obj_bytes LE n w = map (\<lambda>i. ucast (drop_bit (8 * i) w)) [0..<n]"
  by (simp add: obj_bytes_LE le_bytes_def)

lemma x64_code_bytes:
  "obj_bytes LE 8 (0xfffffffff9058d48 :: u64) = [0x48, 0x8d, 0x05, 0xf9, 0xff, 0xff, 0xff, 0xff]"
  "obj_bytes LE 8 (0x9090900000000325 :: u64) = [0x25, 0x03, 0, 0, 0, 0x90, 0x90, 0x90]"
  by (simp_all add: obj_bytes_LE_eval upt_rec)

lemma x86_code_bytes:
  "obj_bytes LE 4 (0xb8909090 :: u32) = [0x90, 0x90, 0x90, 0xb8]"
  "obj_bytes LE 4 (0x900C60ff :: u32) = [0xff, 0x60, 0x0c, 0x90]"
  by (simp_all add: obj_bytes_LE_eval upt_rec)

lemma obj_word_ptr: "LENGTH('l) = 8 * n \<Longrightarrow> obj_word e (obj_bytes e n x) = (x :: 'l::len word)"
  by (rule obj_word_obj_bytes) simp

lemma thunk_entersI:
  assumes "\<And>h c. heap_read h p (length bytes) = bytes \<Longrightarrow> c_pc c = p \<Longrightarrow> c_slot c = None \<Longrightarrow>
      \<exists>c'. steps e dec h n c = Some c' \<and> c_pc c' = entry \<and> c_slot c' = None \<and> c_reg c' ctx = p \<and>
        (\<forall>r. r \<notin> scratch \<longrightarrow> c_reg c' r = c_reg c r)"
  shows "thunk_enters e dec p bytes entry ctx scratch"
  unfolding thunk_enters_def using assms by blast

lemmas exec_simps = step_def steps_numeral advance_def set_reg_def load_ptr_def

lemma thunk_x86_enters: "thunk_enters LE decode_x86 p (thunk_x86_bytes (dcbInitThunk_x86 p entry t)) entry 0 {0}"
proof (rule thunk_entersI)
  let ?bs = "thunk_x86_bytes (dcbInitThunk_x86 p entry t)"
  fix h and c :: "u32 cpu"
  assume r: "heap_read h p (length ?bs) = ?bs" and pc: "c_pc c = p" and sl: "c_slot c = None"
  have b: "?bs = [0x90, 0x90, 0x90, 0xb8] @ obj_bytes LE 4 p @ [0xff, 0x60, 0x0c, 0x90] @ obj_bytes LE 4 entry"
    by (simp add: thunk_x86_bytes_def dcbInitThunk_x86_def x86_code_bytes)
  note rd = code_read [OF r, unfolded b]
  show "\<exists>c'. steps LE decode_x86 h 5 c = Some c' \<and> c_pc c' = entry \<and> c_slot c' = None \<and> c_reg c' 0 = p \<and>
      (\<forall>r. r \<notin> {0} \<longrightarrow> c_reg c' r = c_reg c r)"
    by (simp add: exec_simps decode_x86_def pc sl rd obj_word_ptr Let_def)
qed

lemma thunk_x64_enters: "thunk_enters LE decode_x64 p (thunk_x64_bytes (dcbInitThunk_x64 p entry t)) entry 0 {0}"
proof (rule thunk_entersI)
  let ?bs = "thunk_x64_bytes (dcbInitThunk_x64 p entry t)"
  fix h and c :: "u64 cpu"
  assume r: "heap_read h p (length ?bs) = ?bs" and pc: "c_pc c = p" and sl: "c_slot c = None"
  have b: "?bs = [0x48, 0x8d, 0x05, 0xf9, 0xff, 0xff, 0xff, 0xff, 0x25, 0x03, 0, 0, 0, 0x90, 0x90, 0x90] @
      obj_bytes LE 8 entry"
    by (simp add: thunk_x64_bytes_def dcbInitThunk_x64_def x64_code_bytes)
  note rd = code_read [OF r, unfolded b]
  have d: "scast (obj_word LE [0xf9, 0xff, 0xff, 0xff] :: u32) = (- 7 :: u64)" "scast (obj_word LE [3, 0, 0, 0] :: u32) = (3 :: u64)"
    by (simp_all add: obj_word_def ord_bytes_def)
  show "\<exists>c'. steps LE decode_x64 h 2 c = Some c' \<and> c_pc c' = entry \<and> c_slot c' = None \<and> c_reg c' 0 = p \<and>
      (\<forall>r. r \<notin> {0} \<longrightarrow> c_reg c' r = c_reg c r)"
    by (simp add: exec_simps decode_x64_def pc sl rd obj_word_ptr d)
qed

subsection \<open>ARM\<close>

text \<open>Instructions and data are in little endian order here; a processor with big endian data still reads its instructions
  in little endian order (ARM64) or may do so (ARM32).\<close>

record DCThunk_arm32 =
  arm32_code :: "nat \<Rightarrow> u32"
  arm32_entry :: u32

definition thunk_arm32_bytes :: "DCThunk_arm32 \<Rightarrow> byte list" where
  "thunk_arm32_bytes t = words LE (arm32_code t) 2 @ obj_bytes LE 4 (arm32_entry t)"

definition dcbInitThunk_arm32 :: "u32 \<Rightarrow> u32 \<Rightarrow> DCThunk_arm32 \<Rightarrow> DCThunk_arm32" where
  "dcbInitThunk_arm32 p entry t =
     t\<lparr>arm32_code := (arm32_code t)(0 := 0xe24fc008, 1 := 0xe51ff004), arm32_entry := entry\<rparr>"

record DCThunk_arm64 =
  arm64_code :: "nat \<Rightarrow> u32"
  arm64_entry :: u64
  arm64_reserved :: u64

definition thunk_arm64_bytes :: "DCThunk_arm64 \<Rightarrow> byte list" where
  "thunk_arm64_bytes t =
     words LE (arm64_code t) 4 @ obj_bytes LE 8 (arm64_entry t) @ obj_bytes LE 8 (arm64_reserved t)"

definition dcbInitThunk_arm64 :: "u64 \<Rightarrow> u64 \<Rightarrow> DCThunk_arm64 \<Rightarrow> DCThunk_arm64" where
  "dcbInitThunk_arm64 p entry t =
     t\<lparr>arm64_code := (arm64_code t)(0 := 0x10000009, 1 := 0x5800006a, 2 := 0xd61f0140, 3 := 0xd503201f),
       arm64_entry := entry\<rparr>"

lemma thunk_arm32_enters:
  "thunk_enters LE (fixed4 LE decode_arm32) p (thunk_arm32_bytes (dcbInitThunk_arm32 p entry t)) entry 12 {12}"
proof (rule thunk_entersI)
  let ?bs = "thunk_arm32_bytes (dcbInitThunk_arm32 p entry t)"
  fix h and c :: "u32 cpu"
  assume r: "heap_read h p (length ?bs) = ?bs" and pc: "c_pc c = p" and sl: "c_slot c = None"
  have b: "?bs = obj_bytes LE 4 (0xe24fc008 :: u32) @ obj_bytes LE 4 (0xe51ff004 :: u32) @ obj_bytes LE 4 entry"
    by (simp add: thunk_arm32_bytes_def dcbInitThunk_arm32_def)
  have d: "decode_arm32 0xe24fc008 = Some (AdrPc 12 0)" "decode_arm32 0xe51ff004 = Some (JmpMemPc 4)"
    by (simp_all add: decode_arm32_def fld_def)
  note rd = code_read [OF r, unfolded b]
  show "\<exists>c'. steps LE (fixed4 LE decode_arm32) h 2 c = Some c' \<and> c_pc c' = entry \<and> c_slot c' = None \<and>
      c_reg c' 12 = p \<and> (\<forall>r. r \<notin> {12} \<longrightarrow> c_reg c' r = c_reg c r)"
    by (simp add: exec_simps fixed4_def d pc sl rd obj_word_ptr)
qed

lemma thunk_arm64_enters:
  "thunk_enters LE (fixed4 LE decode_arm64) p (thunk_arm64_bytes (dcbInitThunk_arm64 p entry t)) entry 9 {9, 10}"
proof (rule thunk_entersI)
  let ?bs = "thunk_arm64_bytes (dcbInitThunk_arm64 p entry t)"
  fix h and c :: "u64 cpu"
  assume r: "heap_read h p (length ?bs) = ?bs" and pc: "c_pc c = p" and sl: "c_slot c = None"
  have b: "?bs = obj_bytes LE 4 (0x10000009 :: u32) @ obj_bytes LE 4 (0x5800006a :: u32) @
      obj_bytes LE 4 (0xd61f0140 :: u32) @ obj_bytes LE 4 (0xd503201f :: u32) @ obj_bytes LE 8 entry @
      obj_bytes LE 8 (arm64_reserved t)"
    by (simp add: thunk_arm64_bytes_def dcbInitThunk_arm64_def)
  have d: "decode_arm64 0x10000009 = Some (AdrPc 9 0)" "decode_arm64 0x5800006a = Some (LdPc 10 12)"
    "decode_arm64 0xd61f0140 = Some (Jmp 10)"
    by (simp_all add: decode_arm64_def fld_def sx_def)
  note rd = code_read [OF r, unfolded b]
  show "\<exists>c'. steps LE (fixed4 LE decode_arm64) h 3 c = Some c' \<and> c_pc c' = entry \<and> c_slot c' = None \<and>
      c_reg c' 9 = p \<and> (\<forall>r. r \<notin> {9, 10} \<longrightarrow> c_reg c' r = c_reg c r)"
    by (simp add: exec_simps fixed4_def d pc sl rd obj_word_ptr)
qed

subsection \<open>Halves of instructions\<close>

text \<open>Several thunks store an instruction as two \<open>unsigned short\<close>s, the lower of which is a part of an address.\<close>

definition hi16 :: "u32 \<Rightarrow> u16" where "hi16 x = ucast (drop_bit 16 x)"
definition lo16 :: "u32 \<Rightarrow> u16" where "lo16 x = ucast x"

definition part16 :: "nat \<Rightarrow> u64 \<Rightarrow> u16" where "part16 k x = ucast (drop_bit k x)"

lemma le_bytes_cat: "le_bytes 4 (word_cat (a :: u16) (b :: u16) :: u32) = le_bytes 2 b @ le_bytes 2 a"
proof -
  have b: "ucast (drop_bit k (word_cat a b :: u32)) = (ucast (drop_bit k b) :: u8)" if "k \<le> 8" for k
    using that by (intro bit_word_eqI) (auto simp: bit_simps bit_word_cat_iff)
  have a: "ucast (drop_bit (16 + k) (word_cat a b :: u32)) = (ucast (drop_bit k a) :: u8)" for k
    by (intro bit_word_eqI) (auto simp: bit_simps bit_word_cat_iff dest: bit_imp_le_length)
  from b [of 0] b [of 8] a [of 0] a [of 8] show ?thesis by (simp add: le_bytes_def upt_rec)
qed

lemma obj_halves:
  "obj_word BE (obj_bytes BE 2 (a :: u16) @ obj_bytes BE 2 (b :: u16)) = (word_cat a b :: u32)"
  "obj_word LE (obj_bytes LE 2 (b :: u16) @ obj_bytes LE 2 (a :: u16)) = (word_cat a b :: u32)"
  using le_word_le_bytes [of 4 "word_cat a b :: u32"]
  by (simp_all add: obj_word_def ord_bytes_def obj_bytes_def le_bytes_cat)

lemma fld_cat: "16 \<le> lo \<Longrightarrow> fld (word_cat (a :: u16) (b :: u16)) lo n = unat (take_bit n (drop_bit (lo - 16) a))"
proof -
  assume "16 \<le> lo"
  then have "take_bit n (drop_bit lo (word_cat a b :: u32)) = ucast (take_bit n (drop_bit (lo - 16) a))"
    by (intro bit_word_eqI) (auto simp: bit_simps bit_word_cat_iff dest: bit_imp_le_length)
  then show ?thesis by (simp add: fld_def unsigned_ucast_eq take_bit_nat_eq_self order.strict_trans [OF unsigned_less])
qed

lemma imm_cat: "take_bit 16 (word_cat (a :: u16) (b :: u16) :: u32) = ucast b"
  by (rule bit_word_eqI) (auto simp: bit_simps bit_word_cat_iff dest: bit_imp_le_length)

lemma hi_lo_16: "push_bit 16 (ucast (hi16 x)) OR ucast (lo16 x) = (x :: u32)"
  by (rule bit_word_eqI) (auto simp: bit_simps hi16_def lo16_def)

lemma word_cat_hi_lo16: "word_cat (hi16 w) (lo16 w) = w"
  by (rule bit_word_eqI) (auto simp: bit_word_cat_iff hi16_def lo16_def bit_simps)

lemma scast_same [simp]: "scast (x :: 'a::len word) = x"
  by (rule bit_word_eqI) (simp add: bit_simps)

subsection \<open>MIPS\<close>

record DCThunk_mips =
  mips_data :: "nat \<Rightarrow> u16"
  mips_jump :: u32
  mips_bddt :: "nat \<Rightarrow> u16"

definition halves :: "endian \<Rightarrow> (nat \<Rightarrow> u16) \<Rightarrow> nat \<Rightarrow> byte list" where
  "halves e f n = concat (map (\<lambda>i. obj_bytes e 2 (f i)) [0..<n])"

definition thunk_mips_bytes :: "endian \<Rightarrow> DCThunk_mips \<Rightarrow> byte list" where
  "thunk_mips_bytes e t = halves e (mips_data t) 6 @ obj_bytes e 4 (mips_jump t) @ halves e (mips_bddt t) 2"

fun dcbInitThunk_mips :: "endian \<Rightarrow> u32 \<Rightarrow> u32 \<Rightarrow> DCThunk_mips \<Rightarrow> DCThunk_mips" where
  "dcbInitThunk_mips BE p entry t =
     t\<lparr>mips_data := (mips_data t)(0 := 0x3c0c, 1 := hi16 p, 2 := 0x3c19, 3 := hi16 entry, 4 := 0x3739, 5 := lo16 entry),
       mips_jump := 0x03200008,
       mips_bddt := (mips_bddt t)(0 := 0x358c, 1 := lo16 p)\<rparr>"
| "dcbInitThunk_mips LE p entry t =
     t\<lparr>mips_data := (mips_data t)(1 := 0x3c0c, 0 := hi16 p, 3 := 0x3c19, 2 := hi16 entry, 5 := 0x3739, 4 := lo16 entry),
       mips_jump := 0x03200008,
       mips_bddt := (mips_bddt t)(1 := 0x358c, 0 := lo16 p)\<rparr>"

text \<open>The union of 16-bit and 32-bit units: a store to \<open>i[k]\<close> stores two halves.\<close>

record DCThunk_mips64 =
  mips64_s :: "nat \<Rightarrow> u16"
  mips64_padding :: u32

definition set_i :: "endian \<Rightarrow> nat \<Rightarrow> u32 \<Rightarrow> (nat \<Rightarrow> u16) \<Rightarrow> nat \<Rightarrow> u16" where
  "set_i e k w s =
     (case e of BE \<Rightarrow> s(2 * k := hi16 w, 2 * k + 1 := lo16 w) | LE \<Rightarrow> s(2 * k := lo16 w, 2 * k + 1 := hi16 w))"

definition thunk_mips64_bytes :: "endian \<Rightarrow> DCThunk_mips64 \<Rightarrow> byte list" where
  "thunk_mips64_bytes e t = halves e (mips64_s t) 26 @ obj_bytes e 4 (mips64_padding t)"

fun mips64_shorts :: "endian \<Rightarrow> u64 \<Rightarrow> u64 \<Rightarrow> (nat \<Rightarrow> u16) \<Rightarrow> nat \<Rightarrow> u16" where
  "mips64_shorts BE p entry s =
     s(0 := 0x3c18, 1 := part16 48 p, 2 := 0x3718, 3 := part16 32 p, 6 := 0x3718, 7 := part16 16 p,
       10 := 0x3c19, 11 := part16 48 entry, 12 := 0x3739, 13 := part16 32 entry, 16 := 0x3739, 17 := part16 16 entry,
       20 := 0x3739, 21 := part16 0 entry, 24 := 0x3718, 25 := part16 0 p)"
| "mips64_shorts LE p entry s =
     s(1 := 0x3c18, 0 := part16 48 p, 3 := 0x3718, 2 := part16 32 p, 7 := 0x3718, 6 := part16 16 p,
       11 := 0x3c19, 10 := part16 48 entry, 13 := 0x3739, 12 := part16 32 entry, 17 := 0x3739, 16 := part16 16 entry,
       21 := 0x3739, 20 := part16 0 entry, 25 := 0x3718, 24 := part16 0 p)"

definition dcbInitThunk_mips64 :: "endian \<Rightarrow> u64 \<Rightarrow> u64 \<Rightarrow> DCThunk_mips64 \<Rightarrow> DCThunk_mips64" where
  "dcbInitThunk_mips64 e p entry t =
     t\<lparr>mips64_s :=
         set_i e 11 0x03200008 (set_i e 9 0x0019cc38 (set_i e 7 0x0019cc38 (set_i e 4 0x0018c438 (set_i e 2 0x0018c438
           (mips64_shorts e p entry (mips64_s t))))))\<rparr>"

definition half2 :: "endian \<Rightarrow> u16 \<Rightarrow> u16 \<Rightarrow> byte list" where
  "half2 e a b = (case e of BE \<Rightarrow> obj_bytes BE 2 a @ obj_bytes BE 2 b | LE \<Rightarrow> obj_bytes LE 2 b @ obj_bytes LE 2 a)"

lemma obj_half2 [simp]: "obj_word e (half2 e a b) = (word_cat a b :: u32)"
  by (cases e) (simp_all add: half2_def obj_halves)

lemma length_half2 [simp]: "length (half2 e a b) = 4"
  by (cases e) (simp_all add: half2_def)

lemma halves_0 [simp]: "halves e f 0 = []"
  by (simp add: halves_def)

lemma halves_two: "halves e f (Suc (Suc n)) = halves e f n @ obj_bytes e 2 (f n) @ obj_bytes e 2 (f (Suc n))"
  by (simp add: halves_def)

lemma ucast_u16 [simp]: "ucast (ucast (b :: u16) :: u32) = (ucast b :: 'l::len word)"
  by (rule bit_word_eqI) (auto simp: bit_simps dest: bit_imp_le_length)

lemma mips_decode:
  "decode_mips (word_cat (0x3c0c :: u16) (b :: u16)) = Some (Set 12 (push_bit 16 (ucast b)) :: u32 insn)"
  "decode_mips (word_cat (0x3c19 :: u16) b) = Some (Set 25 (push_bit 16 (ucast b)) :: u32 insn)"
  "decode_mips (word_cat (0x3739 :: u16) b) = Some (OrI 25 25 (ucast b) :: 'l::len word insn)"
  "decode_mips (word_cat (0x358c :: u16) b) = Some (OrI 12 12 (ucast b) :: 'l word insn)"
  "decode_mips (word_cat (0x3718 :: u16) b) = Some (OrI 24 24 (ucast b) :: 'l word insn)"
  "decode_mips 0x03200008 = Some (JmpDelay 25 :: 'l word insn)"
  "decode_mips 0x0018c438 = Some (Shl 24 24 16 :: 'l word insn)"
  "decode_mips 0x0019cc38 = Some (Shl 25 25 16 :: 'l word insn)"
  "decode_mips (word_cat (0x3c18 :: u16) b) = Some (Set 24 (scast (push_bit 16 (ucast b) :: u32)) :: u64 insn)"
  "decode_mips (word_cat (0x3c19 :: u16) b) = Some (Set 25 (scast (push_bit 16 (ucast b) :: u32)) :: u64 insn)"
  by (simp_all add: decode_mips_def Let_def fld_cat imm_cat fld_const)

lemma thunk_mips_enters:
  "thunk_enters e (fixed4 e decode_mips) p (thunk_mips_bytes e (dcbInitThunk_mips e p entry t)) entry 12 {12, 25}"
proof (rule thunk_entersI)
  let ?bs = "thunk_mips_bytes e (dcbInitThunk_mips e p entry t)"
  fix h and c :: "u32 cpu"
  assume r: "heap_read h p (length ?bs) = ?bs" and pc: "c_pc c = p" and sl: "c_slot c = None"
  have b: "?bs = half2 e 0x3c0c (hi16 p) @ half2 e 0x3c19 (hi16 entry) @ half2 e 0x3739 (lo16 entry) @
      obj_bytes e 4 (0x03200008 :: u32) @ half2 e 0x358c (lo16 p)"
    by (cases e) (simp_all add: thunk_mips_bytes_def half2_def numeral_eq_Suc halves_two)
  note rd = code_read [OF r, unfolded b]
  show "\<exists>c'. steps e (fixed4 e decode_mips) h 5 c = Some c' \<and> c_pc c' = entry \<and> c_slot c' = None \<and>
      c_reg c' 12 = p \<and> (\<forall>r. r \<notin> {12, 25} \<longrightarrow> c_reg c' r = c_reg c r)"
    by (simp add: exec_simps fixed4_def mips_decode pc sl rd obj_word_ptr hi_lo_16)
qed

lemma lui_parts:
  "((push_bit 32 (scast (push_bit 16 (ucast (part16 48 x)) :: u32)) OR push_bit 32 (ucast (part16 32 x))) OR
     push_bit 16 (ucast (part16 16 x))) OR ucast (part16 0 x) = (x :: u64)" (is "?l = x")
proof (rule bit_word_eqI)
  fix n assume n: "n < LENGTH(64)"
  define m q where "m = n mod 16" and "q = n div 16"
  then have m: "m < 16" and nq: "n = 16 * q + m" and "q < 4" using n by (simp_all add: less_mult_imp_div_less)
  then have "q = 0 \<or> q = 1 \<or> q = 2 \<or> q = 3" by linarith
  then have "n = m \<or> n = 16 + m \<or> n = 32 + m \<or> n = 48 + m" using nq by auto
  then show "bit ?l n = bit x n" using m by (elim disjE) (auto simp: bit_simps part16_def)
qed

lemma thunk_mips64_enters:
  "thunk_enters e (fixed4 e decode_mips) p (thunk_mips64_bytes e (dcbInitThunk_mips64 e p entry t)) entry 24 {24, 25}"
proof (rule thunk_entersI)
  let ?bs = "thunk_mips64_bytes e (dcbInitThunk_mips64 e p entry t)"
  fix h and c :: "u64 cpu"
  assume r: "heap_read h p (length ?bs) = ?bs" and pc: "c_pc c = p" and sl: "c_slot c = None"
  have i: "obj_bytes e 4 (w :: u32) = half2 e (hi16 w) (lo16 w)" for w
    using le_bytes_cat [of "hi16 w" "lo16 w"]
    by (cases e) (simp_all add: half2_def obj_bytes_def ord_bytes_def word_cat_hi_lo16)
  have b: "?bs = half2 e 0x3c18 (part16 48 p) @ half2 e 0x3718 (part16 32 p) @ obj_bytes e 4 (0x0018c438 :: u32) @
      half2 e 0x3718 (part16 16 p) @ obj_bytes e 4 (0x0018c438 :: u32) @ half2 e 0x3c19 (part16 48 entry) @
      half2 e 0x3739 (part16 32 entry) @ obj_bytes e 4 (0x0019cc38 :: u32) @ half2 e 0x3739 (part16 16 entry) @
      obj_bytes e 4 (0x0019cc38 :: u32) @ half2 e 0x3739 (part16 0 entry) @ obj_bytes e 4 (0x03200008 :: u32) @
      half2 e 0x3718 (part16 0 p) @ obj_bytes e 4 (mips64_padding t)"
    unfolding i [of "0x0018c438"] i [of "0x0019cc38"] i [of "0x03200008"]
    by (cases e) (simp_all add: thunk_mips64_bytes_def dcbInitThunk_mips64_def set_i_def half2_def numeral_eq_Suc halves_two)
  note rd = code_read [OF r, unfolded b]
  show "\<exists>c'. steps e (fixed4 e decode_mips) h 13 c = Some c' \<and> c_pc c' = entry \<and> c_slot c' = None \<and>
      c_reg c' 24 = p \<and> (\<forall>r. r \<notin> {24, 25} \<longrightarrow> c_reg c' r = c_reg c r)"
    by (simp add: exec_simps fixed4_def mips_decode pc sl rd obj_word_ptr lui_parts)
qed

subsection \<open>PowerPC\<close>

record DCThunk_ppc32 =
  ppc32_code_load_hi :: u16
  ppc32_addr_self_hi :: u16
  ppc32_code_load_lo :: u16
  ppc32_addr_self_lo :: u16
  ppc32_code_jump :: "nat \<Rightarrow> u32"
  ppc32_addr_entry :: u32

definition thunk_ppc32_bytes :: "DCThunk_ppc32 \<Rightarrow> byte list" where
  "thunk_ppc32_bytes t =
     obj_bytes BE 2 (ppc32_code_load_hi t) @ obj_bytes BE 2 (ppc32_addr_self_hi t) @
     obj_bytes BE 2 (ppc32_code_load_lo t) @ obj_bytes BE 2 (ppc32_addr_self_lo t) @
     words BE (ppc32_code_jump t) 3 @ obj_bytes BE 4 (ppc32_addr_entry t)"

definition dcbInitThunk_ppc32 :: "u32 \<Rightarrow> u32 \<Rightarrow> DCThunk_ppc32 \<Rightarrow> DCThunk_ppc32" where
  "dcbInitThunk_ppc32 p entry t =
     t\<lparr>ppc32_code_load_hi := 0x3c40, ppc32_addr_self_hi := hi16 p, ppc32_code_load_lo := 0x6042,
       ppc32_addr_self_lo := lo16 p,
       ppc32_code_jump := (ppc32_code_jump t)(0 := 0x81820014, 1 := 0x7d8903a6, 2 := 0x4e800420),
       ppc32_addr_entry := entry\<rparr>"

definition dcbInitThunk_ppc32_sysv :: "u32 \<Rightarrow> u32 \<Rightarrow> DCThunk_ppc32 \<Rightarrow> DCThunk_ppc32" where
  "dcbInitThunk_ppc32_sysv p entry t =
     t\<lparr>ppc32_code_load_hi := 0x3d60, ppc32_addr_self_hi := hi16 p, ppc32_code_load_lo := 0x616b,
       ppc32_addr_self_lo := lo16 p,
       ppc32_code_jump := (ppc32_code_jump t)(0 := 0x818b0014, 1 := 0x7d8903a6, 2 := 0x4e800420),
       ppc32_addr_entry := entry\<rparr>"

text \<open>ELF version 1: a function pointer is the address of two words, the code and the TOC, and a call through it loads
  both. The thunk starts with such a descriptor of itself. \<open>mem\<close> is memory when the thunk is made, for the descriptor of the entry.\<close>

record DCThunk_ppc64_v1 =
  v1_thunk_entry :: u64
  v1_toc_thunk :: u64
  v1_code_load_hi :: u16
  v1_addr_self_hi :: u16
  v1_code_load_lo :: u16
  v1_addr_self_lo :: u16
  v1_code_jump :: "nat \<Rightarrow> u32"
  v1_addr_entry :: u64
  v1_toc_entry :: u64

definition thunk_ppc64_v1_bytes :: "DCThunk_ppc64_v1 \<Rightarrow> byte list" where
  "thunk_ppc64_v1_bytes t =
     obj_bytes BE 8 (v1_thunk_entry t) @ obj_bytes BE 8 (v1_toc_thunk t) @
     obj_bytes BE 2 (v1_code_load_hi t) @ obj_bytes BE 2 (v1_addr_self_hi t) @
     obj_bytes BE 2 (v1_code_load_lo t) @ obj_bytes BE 2 (v1_addr_self_lo t) @
     words BE (v1_code_jump t) 6 @ obj_bytes BE 8 (v1_addr_entry t) @ obj_bytes BE 8 (v1_toc_entry t)"

definition dcbInitThunk_ppc64_v1 :: "u64 heap \<Rightarrow> u64 \<Rightarrow> u64 \<Rightarrow> DCThunk_ppc64_v1 \<Rightarrow> DCThunk_ppc64_v1" where
  "dcbInitThunk_ppc64_v1 mem p entry t =
     t\<lparr>v1_thunk_entry := p + 16, v1_toc_thunk := (p + 16) AND 0xffffffff00000000,
       v1_code_load_hi := 0x644b, v1_addr_self_hi := part16 16 p, v1_code_load_lo := 0x616b, v1_addr_self_lo := part16 0 p,
       v1_code_jump := (v1_code_jump t)(0 := 0xe98b0030, 1 := 0xe84b0038, 2 := 0x7d8903a6, 3 := 0x4e800420),
       v1_addr_entry := load_ptr BE mem entry, v1_toc_entry := load_ptr BE mem (entry + 8)\<rparr>"

text \<open>ELF version 2, little endian: the order of the fields is that of the halves in memory.\<close>

record DCThunk_ppc64_v2 =
  v2_addr_self_hist :: u16
  v2_code_load_hist :: u16
  v2_addr_self_hier :: u16
  v2_code_load_hier :: u16
  v2_code_rot :: u32
  v2_addr_self_hi :: u16
  v2_code_load_hi :: u16
  v2_addr_self_lo :: u16
  v2_code_load_lo :: u16
  v2_code_jump :: "nat \<Rightarrow> u32"
  v2_addr_entry :: u64

definition thunk_ppc64_v2_bytes :: "endian \<Rightarrow> DCThunk_ppc64_v2 \<Rightarrow> byte list" where
  "thunk_ppc64_v2_bytes e t =
     obj_bytes e 2 (v2_addr_self_hist t) @ obj_bytes e 2 (v2_code_load_hist t) @
     obj_bytes e 2 (v2_addr_self_hier t) @ obj_bytes e 2 (v2_code_load_hier t) @ obj_bytes e 4 (v2_code_rot t) @
     obj_bytes e 2 (v2_addr_self_hi t) @ obj_bytes e 2 (v2_code_load_hi t) @
     obj_bytes e 2 (v2_addr_self_lo t) @ obj_bytes e 2 (v2_code_load_lo t) @
     words e (v2_code_jump t) 5 @ obj_bytes e 8 (v2_addr_entry t)"

definition dcbInitThunk_ppc64_v2 :: "u64 \<Rightarrow> u64 \<Rightarrow> DCThunk_ppc64_v2 \<Rightarrow> DCThunk_ppc64_v2" where
  "dcbInitThunk_ppc64_v2 p entry t =
     t\<lparr>v2_code_load_hist := 0x3d60, v2_addr_self_hist := part16 48 p, v2_code_load_hier := 0x616b,
       v2_addr_self_hier := part16 32 p, v2_code_rot := 0x796b07c6, v2_code_load_hi := 0x656b,
       v2_addr_self_hi := part16 16 p, v2_code_load_lo := 0x616b, v2_addr_self_lo := part16 0 p,
       v2_code_jump := (v2_code_jump t)(0 := 0xe98b0028, 1 := 0x7d8903a6, 2 := 0x4e800420), v2_addr_entry := entry\<rparr>"

lemma ppc_decode:
  "decode_ppc (word_cat (0x3c40 :: u16) (b :: u16)) = Some (Set 2 (push_bit 16 (ucast b)) :: u32 insn)"
  "decode_ppc (word_cat (0x6042 :: u16) b) = Some (OrI 2 2 (ucast b) :: u32 insn)"
  "decode_ppc 0x81820014 = Some (Ld 12 2 20 :: u32 insn)"
  "decode_ppc (word_cat (0x3d60 :: u16) b) = Some (Set 11 (push_bit 16 (ucast b)) :: u32 insn)"
  "decode_ppc (word_cat (0x616b :: u16) b) = Some (OrI 11 11 (ucast b) :: 'l::len word insn)"
  "decode_ppc 0x818b0014 = Some (Ld 12 11 20 :: u32 insn)"
  "decode_ppc 0x7d8903a6 = Some (ToCtr 12 :: 'l word insn)"
  "decode_ppc 0x4e800420 = Some (JmpCtr :: 'l word insn)"
  "decode_ppc (word_cat (0x644b :: u16) b) = Some (OrI 11 2 (push_bit 16 (ucast b)) :: u64 insn)"
  "decode_ppc 0xe98b0030 = Some (Ld 12 11 48 :: u64 insn)"
  "decode_ppc 0xe84b0038 = Some (Ld 2 11 56 :: u64 insn)"
  "decode_ppc (word_cat (0x3d60 :: u16) b) = Some (Set 11 (scast (push_bit 16 (ucast b) :: u32)) :: u64 insn)"
  "decode_ppc (word_cat (0x656b :: u16) b) = Some (OrI 11 11 (push_bit 16 (ucast b)) :: u64 insn)"
  "decode_ppc 0x796b07c6 = Some (Shl 11 11 32 :: u64 insn)"
  "decode_ppc 0xe98b0028 = Some (Ld 12 11 40 :: u64 insn)"
  by (simp_all add: decode_ppc_def Let_def fld_cat imm_cat fld_const sx_def)

lemma thunk_ppc32_enters:
  "thunk_enters BE (fixed4 BE decode_ppc) p (thunk_ppc32_bytes (dcbInitThunk_ppc32 p entry t)) entry 2 {2, 12}"
proof (rule thunk_entersI)
  let ?bs = "thunk_ppc32_bytes (dcbInitThunk_ppc32 p entry t)"
  fix h and c :: "u32 cpu"
  assume r: "heap_read h p (length ?bs) = ?bs" and pc: "c_pc c = p" and sl: "c_slot c = None"
  have b: "?bs = half2 BE 0x3c40 (hi16 p) @ half2 BE 0x6042 (lo16 p) @ obj_bytes BE 4 (0x81820014 :: u32) @
      obj_bytes BE 4 (0x7d8903a6 :: u32) @ obj_bytes BE 4 (0x4e800420 :: u32) @ obj_bytes BE 4 entry"
    by (simp add: thunk_ppc32_bytes_def dcbInitThunk_ppc32_def half2_def)
  note rd = code_read [OF r, unfolded b]
  show "\<exists>c'. steps BE (fixed4 BE decode_ppc) h 5 c = Some c' \<and> c_pc c' = entry \<and> c_slot c' = None \<and>
      c_reg c' 2 = p \<and> (\<forall>r. r \<notin> {2, 12} \<longrightarrow> c_reg c' r = c_reg c r)"
    by (simp add: exec_simps fixed4_def ppc_decode pc sl rd obj_word_ptr hi_lo_16)
qed

lemma thunk_ppc32_sysv_enters:
  "thunk_enters BE (fixed4 BE decode_ppc) p (thunk_ppc32_bytes (dcbInitThunk_ppc32_sysv p entry t)) entry 11 {11, 12}"
proof (rule thunk_entersI)
  let ?bs = "thunk_ppc32_bytes (dcbInitThunk_ppc32_sysv p entry t)"
  fix h and c :: "u32 cpu"
  assume r: "heap_read h p (length ?bs) = ?bs" and pc: "c_pc c = p" and sl: "c_slot c = None"
  have b: "?bs = half2 BE 0x3d60 (hi16 p) @ half2 BE 0x616b (lo16 p) @ obj_bytes BE 4 (0x818b0014 :: u32) @
      obj_bytes BE 4 (0x7d8903a6 :: u32) @ obj_bytes BE 4 (0x4e800420 :: u32) @ obj_bytes BE 4 entry"
    by (simp add: thunk_ppc32_bytes_def dcbInitThunk_ppc32_sysv_def half2_def)
  note rd = code_read [OF r, unfolded b]
  show "\<exists>c'. steps BE (fixed4 BE decode_ppc) h 5 c = Some c' \<and> c_pc c' = entry \<and> c_slot c' = None \<and>
      c_reg c' 11 = p \<and> (\<forall>r. r \<notin> {11, 12} \<longrightarrow> c_reg c' r = c_reg c r)"
    by (simp add: exec_simps fixed4_def ppc_decode pc sl rd obj_word_ptr hi_lo_16)
qed

lemma thunk_ppc64_v2_enters:
  "thunk_enters LE (fixed4 LE decode_ppc) p (thunk_ppc64_v2_bytes LE (dcbInitThunk_ppc64_v2 p entry t)) entry 11 {11, 12}"
proof (rule thunk_entersI)
  let ?bs = "thunk_ppc64_v2_bytes LE (dcbInitThunk_ppc64_v2 p entry t)"
  fix h and c :: "u64 cpu"
  assume r: "heap_read h p (length ?bs) = ?bs" and pc: "c_pc c = p" and sl: "c_slot c = None"
  have b: "?bs = half2 LE 0x3d60 (part16 48 p) @ half2 LE 0x616b (part16 32 p) @ obj_bytes LE 4 (0x796b07c6 :: u32) @
      half2 LE 0x656b (part16 16 p) @ half2 LE 0x616b (part16 0 p) @ obj_bytes LE 4 (0xe98b0028 :: u32) @
      obj_bytes LE 4 (0x7d8903a6 :: u32) @ obj_bytes LE 4 (0x4e800420 :: u32) @ obj_bytes LE 4 (v2_code_jump t 3) @
      obj_bytes LE 4 (v2_code_jump t 4) @ obj_bytes LE 8 entry"
    by (simp add: thunk_ppc64_v2_bytes_def dcbInitThunk_ppc64_v2_def half2_def)
  note rd = code_read [OF r, unfolded b]
  show "\<exists>c'. steps LE (fixed4 LE decode_ppc) h 8 c = Some c' \<and> c_pc c' = entry \<and> c_slot c' = None \<and>
      c_reg c' 11 = p \<and> (\<forall>r. r \<notin> {11, 12} \<longrightarrow> c_reg c' r = c_reg c r)"
    by (simp add: exec_simps fixed4_def ppc_decode pc sl rd obj_word_ptr lui_parts)
qed

text \<open>A call through a function pointer of ELF version 1.\<close>

definition call_descriptor :: "u64 heap \<Rightarrow> u64 \<Rightarrow> u64 cpu \<Rightarrow> u64 cpu" where
  "call_descriptor h f c = set_reg 2 (load_ptr BE h (f + 8)) (c\<lparr>c_pc := load_ptr BE h f\<rparr>)"

definition thunk_enters_v1 :: "u64 heap \<Rightarrow> u64 \<Rightarrow> byte list \<Rightarrow> u64 \<Rightarrow> bool" where
  "thunk_enters_v1 mem p bytes entry \<longleftrightarrow>
     (\<forall>h c. heap_read h p (length bytes) = bytes \<longrightarrow> c_slot c = None \<longrightarrow>
        (\<exists>n c'. steps BE (fixed4 BE decode_ppc) h n (call_descriptor h p c) = Some c' \<and> c_slot c' = None \<and>
           c_pc c' = load_ptr BE mem entry \<and> c_reg c' 2 = load_ptr BE mem (entry + 8) \<and> c_reg c' 11 = p \<and>
           (\<forall>r. r \<notin> {2, 11, 12} \<longrightarrow> c_reg c' r = c_reg c r)))"

lemma page_parts:
  assumes "take_bit 12 (p :: u64) = 0"
  shows "(((p + 16) AND 0xffffffff00000000) OR push_bit 16 (ucast (part16 16 p))) OR ucast (part16 0 p) = p"
proof -
  have b: "\<not> bit p n" if "n < 12" for n
    using assms that by (metis bit_0_eq bit_take_bit_iff bot_apply bot_bool_def)
  have a: "p AND 2 ^ k = 0" if "k < 12" for k
    by (rule bit_word_eqI) (use b [OF that] in \<open>auto simp: bit_simps\<close>)
  have e: "p + 16 = p OR 2 ^ 4" using disjunctive_add_eq_or [OF a [of 4]] by simp
  have k: "(0xffffffff00000000 :: u64) = push_bit 32 (mask 32)" by (simp add: mask_eq_exp_minus_1)
  show ?thesis
    unfolding e k by (rule bit_word_eqI) (use b [of 4] in \<open>auto simp: bit_simps part16_def simp del: power_numeral\<close>)
qed

lemma thunk_ppc64_v1_enters:
  assumes "take_bit 12 p = 0"
  shows "thunk_enters_v1 mem p (thunk_ppc64_v1_bytes (dcbInitThunk_ppc64_v1 mem p entry t)) entry"
  unfolding thunk_enters_v1_def
proof (intro allI impI exI [of _ "6 :: nat"])
  let ?bs = "thunk_ppc64_v1_bytes (dcbInitThunk_ppc64_v1 mem p entry t)"
  fix h and c :: "u64 cpu"
  assume r: "heap_read h p (length ?bs) = ?bs" and sl: "c_slot c = None"
  have b: "?bs = obj_bytes BE 8 (p + 16) @ obj_bytes BE 8 ((p + 16) AND 0xffffffff00000000) @
      half2 BE 0x644b (part16 16 p) @ half2 BE 0x616b (part16 0 p) @ obj_bytes BE 4 (0xe98b0030 :: u32) @
      obj_bytes BE 4 (0xe84b0038 :: u32) @ obj_bytes BE 4 (0x7d8903a6 :: u32) @ obj_bytes BE 4 (0x4e800420 :: u32) @
      obj_bytes BE 4 (v1_code_jump t 4) @ obj_bytes BE 4 (v1_code_jump t 5) @
      obj_bytes BE 8 (load_ptr BE mem entry) @ obj_bytes BE 8 (load_ptr BE mem (entry + 8))"
    by (simp add: thunk_ppc64_v1_bytes_def dcbInitThunk_ppc64_v1_def half2_def)
  note rd = code_read [OF r, unfolded b]
  have d: "load_ptr BE h p = p + 16" "load_ptr BE h (p + 8) = (p + 16) AND 0xffffffff00000000"
    by (simp_all add: load_ptr_def rd obj_word_ptr)
  show "\<exists>c'. steps BE (fixed4 BE decode_ppc) h 6 (call_descriptor h p c) = Some c' \<and> c_slot c' = None \<and>
      c_pc c' = load_ptr BE mem entry \<and> c_reg c' 2 = load_ptr BE mem (entry + 8) \<and> c_reg c' 11 = p \<and>
      (\<forall>r. r \<notin> {2, 11, 12} \<longrightarrow> c_reg c' r = c_reg c r)"
    unfolding call_descriptor_def d
    by (simp add: step_def steps_numeral advance_def set_reg_def fixed4_def ppc_decode sl rd obj_word_ptr
        page_parts [OF assms] load_ptr_def [of BE h])
qed

subsection \<open>SPARC\<close>

record DCThunk_sparc =
  sparc_code :: "nat \<Rightarrow> u32"

definition thunk_sparc32_bytes :: "DCThunk_sparc \<Rightarrow> byte list" where
  "thunk_sparc32_bytes t = words BE (sparc_code t) 6"

definition thunk_sparc64_bytes :: "DCThunk_sparc \<Rightarrow> byte list" where
  "thunk_sparc64_bytes t = words BE (sparc_code t) 14"

definition dcbInitThunk_sparc32 :: "u32 \<Rightarrow> u32 \<Rightarrow> DCThunk_sparc \<Rightarrow> DCThunk_sparc" where
  "dcbInitThunk_sparc32 p entry t =
     t\<lparr>sparc_code := (sparc_code t)
        (0 := 0x03000000 OR drop_bit 10 p,
         1 := 0x82106000 OR (p AND 0x3ff),
         2 := 0x05000000 OR drop_bit 10 entry,
         3 := 0x8410a000 OR (entry AND 0x3ff),
         4 := 0x81c08000,
         5 := 0x01000000)\<rparr>"

text \<open>The union takes a pointer apart in the order of the bytes: \<open>x[0]\<close> is the upper half.\<close>

definition dcbInitThunk_sparc64 :: "u64 \<Rightarrow> u64 \<Rightarrow> DCThunk_sparc \<Rightarrow> DCThunk_sparc" where
  "dcbInitThunk_sparc64 p entry t =
     t\<lparr>sparc_code := (sparc_code t)
        (0 := 0x03000000 OR drop_bit 10 (hi_word p),
         1 := 0x82106000 OR (hi_word p AND 0x3ff),
         2 := 0x83287020,
         3 := 0x07000000 OR drop_bit 10 (lo_word p),
         4 := 0x8610e000 OR (lo_word p AND 0x3ff),
         5 := 0x8200c001,
         6 := 0x05000000 OR drop_bit 10 (hi_word entry),
         7 := 0x8410a000 OR (hi_word entry AND 0x3ff),
         8 := 0x8528b020,
         9 := 0x07000000 OR drop_bit 10 (lo_word entry),
         10 := 0x8610e000 OR (lo_word entry AND 0x3ff),
         11 := 0x8400c002,
         12 := 0x81c08000,
         13 := 0x01000000)\<rparr>"

lemma fld_or:
  assumes "drop_bit lo x = 0"
  shows "fld (c OR x) lo n = fld c lo n"
  by (simp add: fld_def assms drop_bit_or)

lemma and_3ff: "x AND 0x3ff = (take_bit 10 x :: u32)"
  by (simp add: take_bit_eq_mask mask_eq_exp_minus_1)

lemma drop_high:
  "22 \<le> lo \<Longrightarrow> drop_bit lo (drop_bit 10 (x :: u32)) = 0" "10 \<le> lo \<Longrightarrow> drop_bit lo (take_bit 10 (x :: u32)) = 0"
  by (rule bit_word_eqI, auto simp: bit_simps dest: bit_imp_le_length)+

lemma sparc_imm:
  "take_bit 22 (0x03000000 OR drop_bit 10 (x :: u32)) = drop_bit 10 x"
  "take_bit 22 (0x05000000 OR drop_bit 10 x) = drop_bit 10 x"
  "take_bit 22 (0x07000000 OR drop_bit 10 x) = drop_bit 10 x"
  "take_bit 12 (0x82106000 OR take_bit 10 x) = take_bit 10 x"
  "take_bit 12 (0x8410a000 OR take_bit 10 x) = take_bit 10 x"
  "take_bit 12 (0x8610e000 OR take_bit 10 x) = take_bit 10 x"
proof -
  have "take_bit 22 (drop_bit 10 x) = drop_bit 10 x"
    by (rule bit_word_eqI) (auto simp: bit_simps dest: bit_imp_le_length)
  moreover have "take_bit 12 (take_bit 10 x) = take_bit 10 x" by simp
  ultimately show "take_bit 22 (0x03000000 OR drop_bit 10 x) = drop_bit 10 x"
    "take_bit 22 (0x05000000 OR drop_bit 10 x) = drop_bit 10 x"
    "take_bit 22 (0x07000000 OR drop_bit 10 x) = drop_bit 10 x"
    "take_bit 12 (0x82106000 OR take_bit 10 x) = take_bit 10 x"
    "take_bit 12 (0x8410a000 OR take_bit 10 x) = take_bit 10 x"
    "take_bit 12 (0x8610e000 OR take_bit 10 x) = take_bit 10 x"
    by (simp_all add: take_bit_or)
qed

lemma sparc_decode:
  "decode_sparc (0x03000000 OR drop_bit 10 x) = Some (Set 1 (ucast (push_bit 10 (drop_bit 10 x))) :: 'l::len word insn)"
  "decode_sparc (0x05000000 OR drop_bit 10 x) = Some (Set 2 (ucast (push_bit 10 (drop_bit 10 x))) :: 'l word insn)"
  "decode_sparc (0x07000000 OR drop_bit 10 x) = Some (Set 3 (ucast (push_bit 10 (drop_bit 10 x))) :: 'l word insn)"
  "decode_sparc (0x82106000 OR take_bit 10 x) = Some (OrI 1 1 (ucast (take_bit 10 x)) :: 'l word insn)"
  "decode_sparc (0x8410a000 OR take_bit 10 x) = Some (OrI 2 2 (ucast (take_bit 10 x)) :: 'l word insn)"
  "decode_sparc (0x8610e000 OR take_bit 10 x) = Some (OrI 3 3 (ucast (take_bit 10 x)) :: 'l word insn)"
  "decode_sparc 0x83287020 = Some (Shl 1 1 32 :: 'l word insn)"
  "decode_sparc 0x8528b020 = Some (Shl 2 2 32 :: 'l word insn)"
  "decode_sparc 0x8200c001 = Some (AddR 1 3 1 :: 'l word insn)"
  "decode_sparc 0x8400c002 = Some (AddR 2 3 2 :: 'l word insn)"
  "decode_sparc 0x81c08000 = Some (JmpDelay 2 :: 'l word insn)"
  "decode_sparc 0x01000000 = Some (Nop :: 'l word insn)"
  by (simp_all only: decode_sparc_def Let_def sparc_imm)
    (simp_all add: fld_or drop_high fld_const)

lemma sethi_or: "ucast (push_bit 10 (drop_bit 10 x)) OR ucast (take_bit 10 x) = (ucast (x :: u32) :: 'l::len word)"
  by (rule bit_word_eqI) (auto simp: bit_simps dest: bit_imp_le_length)

lemma halves_add: "ucast (lo_word x) + push_bit 32 (ucast (hi_word x)) = x"
proof -
  have "ucast (lo_word x) AND push_bit 32 (ucast (hi_word x)) = (0 :: u64)"
    by (rule bit_word_eqI) (auto simp: bit_simps lo_word_def)
  then have "ucast (lo_word x) + push_bit 32 (ucast (hi_word x)) = ucast (lo_word x) OR (push_bit 32 (ucast (hi_word x)) :: u64)"
    by (rule disjunctive_add_eq_or)
  also have "\<dots> = x" by (rule bit_word_eqI) (auto simp: bit_simps lo_word_def hi_word_def)
  finally show ?thesis .
qed

lemma thunk_sparc32_enters:
  "thunk_enters BE (fixed4 BE decode_sparc) p (thunk_sparc32_bytes (dcbInitThunk_sparc32 p entry t)) entry 1 {1, 2}"
proof (rule thunk_entersI)
  let ?bs = "thunk_sparc32_bytes (dcbInitThunk_sparc32 p entry t)"
  fix h and c :: "u32 cpu"
  assume r: "heap_read h p (length ?bs) = ?bs" and pc: "c_pc c = p" and sl: "c_slot c = None"
  have b: "?bs = obj_bytes BE 4 (0x03000000 OR drop_bit 10 p) @ obj_bytes BE 4 (0x82106000 OR take_bit 10 p) @
      obj_bytes BE 4 (0x05000000 OR drop_bit 10 entry) @ obj_bytes BE 4 (0x8410a000 OR take_bit 10 entry) @
      obj_bytes BE 4 (0x81c08000 :: u32) @ obj_bytes BE 4 (0x01000000 :: u32)"
    by (simp add: thunk_sparc32_bytes_def dcbInitThunk_sparc32_def and_3ff)
  note rd = code_read [OF r, unfolded b]
  show "\<exists>c'. steps BE (fixed4 BE decode_sparc) h 6 c = Some c' \<and> c_pc c' = entry \<and> c_slot c' = None \<and>
      c_reg c' 1 = p \<and> (\<forall>r. r \<notin> {1, 2} \<longrightarrow> c_reg c' r = c_reg c r)"
    by (simp add: exec_simps fixed4_def sparc_decode pc sl rd obj_word_ptr sethi_or [where 'l = 32, simplified])
qed

lemma thunk_sparc64_enters:
  "thunk_enters BE (fixed4 BE decode_sparc) p (thunk_sparc64_bytes (dcbInitThunk_sparc64 p entry t)) entry 1 {1, 2, 3}"
proof (rule thunk_entersI)
  let ?bs = "thunk_sparc64_bytes (dcbInitThunk_sparc64 p entry t)"
  fix h and c :: "u64 cpu"
  assume r: "heap_read h p (length ?bs) = ?bs" and pc: "c_pc c = p" and sl: "c_slot c = None"
  have b: "?bs = obj_bytes BE 4 (0x03000000 OR drop_bit 10 (hi_word p)) @ obj_bytes BE 4 (0x82106000 OR take_bit 10 (hi_word p)) @
      obj_bytes BE 4 (0x83287020 :: u32) @ obj_bytes BE 4 (0x07000000 OR drop_bit 10 (lo_word p)) @
      obj_bytes BE 4 (0x8610e000 OR take_bit 10 (lo_word p)) @ obj_bytes BE 4 (0x8200c001 :: u32) @
      obj_bytes BE 4 (0x05000000 OR drop_bit 10 (hi_word entry)) @ obj_bytes BE 4 (0x8410a000 OR take_bit 10 (hi_word entry)) @
      obj_bytes BE 4 (0x8528b020 :: u32) @ obj_bytes BE 4 (0x07000000 OR drop_bit 10 (lo_word entry)) @
      obj_bytes BE 4 (0x8610e000 OR take_bit 10 (lo_word entry)) @ obj_bytes BE 4 (0x8400c002 :: u32) @
      obj_bytes BE 4 (0x81c08000 :: u32) @ obj_bytes BE 4 (0x01000000 :: u32)"
    by (simp add: thunk_sparc64_bytes_def dcbInitThunk_sparc64_def and_3ff)
  note rd = code_read [OF r, unfolded b]
  show "\<exists>c'. steps BE (fixed4 BE decode_sparc) h 14 c = Some c' \<and> c_pc c' = entry \<and> c_slot c' = None \<and>
      c_reg c' 1 = p \<and> (\<forall>r. r \<notin> {1, 2, 3} \<longrightarrow> c_reg c' r = c_reg c r)"
    by (simp add: exec_simps fixed4_def sparc_decode pc sl rd obj_word_ptr sethi_or halves_add)
qed

end
