(* ===== verification/Vm_X64Win.thy ===== *)
theory Vm_X64Win
  imports Dyn_Transport
begin

unbundle bit_operations_syntax

section \<open>The x64 call VM and argument reader, Windows\<close>

text \<open>
  \<open>dyncall/dyncall/dyncall_callvm_x64.{h,c}\<close> and \<open>dyncall/dyncallback/dyncall_args_x64.{h,c}\<close> as compiled with \<open>DC_WINDOWS\<close>, the
  kernel \<open>dcCall_x64_win64\<close> of \<open>dyncall_call_x64.S\<close> and the entry \<open>dcCallback_x64_win64\<close> of \<open>dyncall_callback_x64.S\<close>.
  Integer and floating point arguments share four registers (the unions \<open>DCRegCount_x64_u\<close> and
  \<open>DCRegData_x64_u\<close>: one counter, one array); a \<open>long\<close> has 32 bits. A struct of 1, 2, 4 or 8 bytes goes as an integer, any
  other is copied to the end of the vector and goes as a pointer to the copy.
\<close>

datatype vt_win64 = gVT_win64 | gVT_x64_win64_this

abbreviation numRegs_win64 :: nat where "numRegs_win64 \<equiv> 4"

text \<open>\<open>w_data\<close> is the address \<open>dcVecData(&self->mVecHead)\<close>, a constant of the allocated VM.\<close>

record DCCallVM_win64 = "vt_win64 DCCallVM" +
  w_mpCallFunc :: u64
  w_mAggrReturnReg :: int
  w_mpAggrVecCopies :: u64
  w_mRegCount :: nat
  w_mRegData :: "nat \<Rightarrow> u64"
  w_mVecHead :: "u64 vec"
  w_data :: u64

record win64_args =
  wa_stacksize :: u64
  wa_stackdata :: mem
  wa_regdata :: "nat \<Rightarrow> u64"
  wa_target :: u64

datatype win64_kernel = dcCall_x64_win64 win64_args

subsection \<open>Arguments\<close>

definition dc_callvm_free_win64 :: "DCCallVM_win64 \<Rightarrow> DCCallVM_win64 handle" where
  "dc_callvm_free_win64 self = Freed"

definition dc_callvm_reset_win64 :: "DCCallVM_win64 \<Rightarrow> DCCallVM_win64" where
  "dc_callvm_reset_win64 self =
     self\<lparr>w_mVecHead := dcVecReset (w_mVecHead self), w_mRegCount := 0, w_mAggrReturnReg := -1,
       w_mpAggrVecCopies := w_data self + mTotal (w_mVecHead self)\<rparr>"

definition dc_callvm_argLongLong_win64 :: "DCCallVM_win64 \<Rightarrow> u64 \<Rightarrow> DCCallVM_win64" where
  "dc_callvm_argLongLong_win64 self x =
     (let i = w_mRegCount self + (if int (w_mRegCount self) = w_mAggrReturnReg self then 1 else 0) in
      if i < numRegs_win64 then self\<lparr>w_mRegData := (w_mRegData self)(i := x), w_mRegCount := Suc i\<rparr>
      else self\<lparr>w_mRegCount := i, w_mVecHead := dcVecAppend (w_mVecHead self) (obj_bytes LE 8 x)\<rparr>)"

definition dc_callvm_argBool_win64 :: "DCCallVM_win64 \<Rightarrow> u32 \<Rightarrow> DCCallVM_win64" where
  "dc_callvm_argBool_win64 self x = dc_callvm_argLongLong_win64 self (scast x)"

definition dc_callvm_argChar_win64 :: "DCCallVM_win64 \<Rightarrow> u8 \<Rightarrow> DCCallVM_win64" where
  "dc_callvm_argChar_win64 self x = dc_callvm_argLongLong_win64 self (scast x)"

definition dc_callvm_argShort_win64 :: "DCCallVM_win64 \<Rightarrow> u16 \<Rightarrow> DCCallVM_win64" where
  "dc_callvm_argShort_win64 self x = dc_callvm_argLongLong_win64 self (scast x)"

definition dc_callvm_argInt_win64 :: "DCCallVM_win64 \<Rightarrow> u32 \<Rightarrow> DCCallVM_win64" where
  "dc_callvm_argInt_win64 self x = dc_callvm_argLongLong_win64 self (scast x)"

definition dc_callvm_argLong_win64 :: "DCCallVM_win64 \<Rightarrow> u32 \<Rightarrow> DCCallVM_win64" where
  "dc_callvm_argLong_win64 self x = dc_callvm_argLongLong_win64 self (scast x)"

definition dc_callvm_argDouble_win64 :: "DCCallVM_win64 \<Rightarrow> u64 \<Rightarrow> DCCallVM_win64" where
  "dc_callvm_argDouble_win64 self x =
     (let f = w_mRegCount self + (if int (w_mRegCount self) = w_mAggrReturnReg self then 1 else 0) in
      if f < numRegs_win64 then self\<lparr>w_mRegData := (w_mRegData self)(f := x), w_mRegCount := Suc f\<rparr>
      else self\<lparr>w_mRegCount := f, w_mVecHead := dcVecAppend (w_mVecHead self) (obj_bytes LE 8 x)\<rparr>)"

definition dc_callvm_argFloat_win64 :: "u32 \<Rightarrow> DCCallVM_win64 \<Rightarrow> u32 \<Rightarrow> DCCallVM_win64" where
  "dc_callvm_argFloat_win64 pad self x = dc_callvm_argDouble_win64 self (word_cat pad x)"

definition dc_callvm_argPointer_win64 :: "DCCallVM_win64 \<Rightarrow> u64 \<Rightarrow> DCCallVM_win64" where
  "dc_callvm_argPointer_win64 self x =
     (let i = w_mRegCount self + (if int (w_mRegCount self) = w_mAggrReturnReg self then 1 else 0) in
      if i < numRegs_win64 then self\<lparr>w_mRegData := (w_mRegData self)(i := x), w_mRegCount := Suc i\<rparr>
      else self\<lparr>w_mRegCount := i, w_mVecHead := dcVecAppend (w_mVecHead self) (obj_bytes LE 8 x)\<rparr>)"

text \<open>The copy of a struct: nothing checks that it stays behind the stack arguments.\<close>

definition copy_aggr_win64 :: "u64 heap \<Rightarrow> DCCallVM_win64 \<Rightarrow> u64 \<Rightarrow> u64 \<Rightarrow> DCCallVM_win64" where
  "copy_aggr_win64 h self sz x =
     (let p = (w_mpAggrVecCopies self - sz) AND (- 16) in
      self\<lparr>w_mpAggrVecCopies := p,
        w_mVecHead := dcVecAt_store (w_mVecHead self) (unat (p - w_data self)) (heap_read h x (unat sz))\<rparr>)"

definition dc_callvm_argAggr_win64 ::
  "u64 heap \<Rightarrow> DCCallVM_win64 \<Rightarrow> DCaggr option \<Rightarrow> u64 \<Rightarrow> DCCallVM_win64" where
  "dc_callvm_argAggr_win64 h self ag x =
     (case ag of
        None \<Rightarrow> dc_callvm_argPointer_win64 self x
      | Some ag \<Rightarrow>
          if ag_size ag = 1 then dc_callvm_argChar_win64 self (obj_word LE (heap_read h x 1))
          else if ag_size ag = 2 then dc_callvm_argShort_win64 self (obj_word LE (heap_read h x 2))
          else if ag_size ag = 4 then dc_callvm_argLong_win64 self (obj_word LE (heap_read h x 4))
          else if ag_size ag = 8 then dc_callvm_argLongLong_win64 self (obj_word LE (heap_read h x 8))
          else
            (let self = copy_aggr_win64 h self (ag_size ag) x
             in dc_callvm_argPointer_win64 self (w_mpAggrVecCopies self)))"

subsection \<open>Calls\<close>

definition win64_args_of :: "DCCallVM_win64 \<Rightarrow> u64 \<Rightarrow> win64_args" where
  "win64_args_of self target =
     \<lparr>wa_stacksize = mSize (w_mVecHead self), wa_stackdata = mData (w_mVecHead self),
      wa_regdata = w_mRegData self, wa_target = target\<rparr>"

definition dc_callvm_call_win64 :: "DCCallVM_win64 \<Rightarrow> u64 \<Rightarrow> DCCallVM_win64 \<times> win64_kernel" where
  "dc_callvm_call_win64 self target = (self, dcCall_x64_win64 (win64_args_of self target))"

text \<open>Whether a struct is returned through a hidden pointer, in a call that is no method call.\<close>

definition hidden_result_win64 :: "DCaggr option \<Rightarrow> bool" where
  "hidden_result_win64 ag =
     (case ag of None \<Rightarrow> True | Some a \<Rightarrow> 8 < ag_size a \<or> (ag_size a AND (ag_size a - 1)) \<noteq> 0)"

definition dc_callvm_begin_aggr_win64 :: "DCCallVM_win64 \<Rightarrow> DCaggr option \<Rightarrow> DCCallVM_win64 option" where
  "dc_callvm_begin_aggr_win64 self ag =
     (if w_mRegCount self \<noteq> 0 then None
      else Some (if hidden_result_win64 ag then self\<lparr>w_mAggrReturnReg := 0\<rparr> else self))"

definition dc_callvm_begin_aggr_win64_this :: "DCCallVM_win64 \<Rightarrow> DCaggr option \<Rightarrow> DCCallVM_win64 option" where
  "dc_callvm_begin_aggr_win64_this self ag =
     (if w_mRegCount self \<noteq> 0 then None else Some (self\<lparr>w_mAggrReturnReg := 1\<rparr>))"

text \<open>\<open>run\<close> and \<open>run_aggr\<close> are the effects of the kernels on the memory of the client, the second with
  the result register. \<open>None\<close>: a null pointer or a read behind the eight bytes of \<open>ret_reg\<close>.\<close>

definition dc_callvm_call_win64_aggr ::
  "(win64_args \<Rightarrow> u64 heap \<Rightarrow> u64 heap) \<Rightarrow> (win64_args \<Rightarrow> u64 heap \<Rightarrow> u64 heap \<times> u64) \<Rightarrow>
   u64 heap \<Rightarrow> DCCallVM_win64 \<Rightarrow> u64 \<Rightarrow> DCaggr option \<Rightarrow> u64 \<Rightarrow> (DCCallVM_win64 \<times> u64 heap) option" where
  "dc_callvm_call_win64_aggr run run_aggr h self target ag ret =
     (if w_mAggrReturnReg self \<noteq> -1 then
        (let self = self\<lparr>w_mRegData := (w_mRegData self)(nat (w_mAggrReturnReg self) := ret)\<rparr> in
         Some (self, run (win64_args_of self target) h))
      else
        (case ag of
           None \<Rightarrow> None
         | Some a \<Rightarrow>
             (if 8 < ag_size a then None
              else
                (case run_aggr (win64_args_of self target) h of (h', rax) \<Rightarrow>
                   Some (self, heap_write h' ret (take (unat (ag_size a)) (obj_bytes LE 8 rax)))))))"

subsection \<open>Tables, modes and creation\<close>

definition dc_callvm_mode_win64 :: "DCCallVM_win64 \<Rightarrow> u32 \<Rightarrow> DCCallVM_win64" where
  "dc_callvm_mode_win64 self mode =
     (if mode \<in> {DC_CALL_C_DEFAULT, DC_CALL_C_X64_WIN64, DC_CALL_C_ELLIPSIS, DC_CALL_C_ELLIPSIS_VARARGS}
      then dc_callvm_base_init self gVT_win64
      else if mode \<in> {DC_CALL_C_DEFAULT_THIS, DC_CALL_C_X64_WIN64_THIS}
      then dc_callvm_base_init self gVT_x64_win64_this
      else self\<lparr>mError := DC_ERROR_UNSUPPORTED_MODE\<rparr>)"

definition vt_win64_c ::
  "(win64_args \<Rightarrow> u64 heap \<Rightarrow> u64 heap) \<Rightarrow> (win64_args \<Rightarrow> u64 heap \<Rightarrow> u64 heap \<times> u64) \<Rightarrow> u32 \<Rightarrow>
   (DCCallVM_win64, u32, u64, win64_kernel) DCCallVM_vt" where
  "vt_win64_c run run_aggr pad =
     \<lparr>vt_free = dc_callvm_free_win64, vt_reset = dc_callvm_reset_win64, vt_mode = dc_callvm_mode_win64,
      vt_argBool = dc_callvm_argBool_win64, vt_argChar = dc_callvm_argChar_win64,
      vt_argShort = dc_callvm_argShort_win64, vt_argInt = dc_callvm_argInt_win64,
      vt_argLong = dc_callvm_argLong_win64, vt_argLongLong = dc_callvm_argLongLong_win64,
      vt_argFloat = dc_callvm_argFloat_win64 pad, vt_argDouble = dc_callvm_argDouble_win64,
      vt_argPointer = dc_callvm_argPointer_win64, vt_argAggr = Some dc_callvm_argAggr_win64,
      vt_call = (\<lambda>_. dc_callvm_call_win64),
      vt_callAggr = Some (dc_callvm_call_win64_aggr run run_aggr),
      vt_beginAggr = Some dc_callvm_begin_aggr_win64\<rparr>"

definition vt_win64_this ::
  "(win64_args \<Rightarrow> u64 heap \<Rightarrow> u64 heap) \<Rightarrow> (win64_args \<Rightarrow> u64 heap \<Rightarrow> u64 heap \<times> u64) \<Rightarrow> u32 \<Rightarrow>
   (DCCallVM_win64, u32, u64, win64_kernel) DCCallVM_vt" where
  "vt_win64_this run run_aggr pad =
     \<lparr>vt_free = dc_callvm_free_win64, vt_reset = dc_callvm_reset_win64, vt_mode = dc_callvm_mode_win64,
      vt_argBool = dc_callvm_argBool_win64, vt_argChar = dc_callvm_argChar_win64,
      vt_argShort = dc_callvm_argShort_win64, vt_argInt = dc_callvm_argInt_win64,
      vt_argLong = dc_callvm_argLong_win64, vt_argLongLong = dc_callvm_argLongLong_win64,
      vt_argFloat = dc_callvm_argFloat_win64 pad, vt_argDouble = dc_callvm_argDouble_win64,
      vt_argPointer = dc_callvm_argPointer_win64, vt_argAggr = Some dc_callvm_argAggr_win64,
      vt_call = (\<lambda>_. dc_callvm_call_win64),
      vt_callAggr = Some (dc_callvm_call_win64_aggr run run_aggr),
      vt_beginAggr = Some dc_callvm_begin_aggr_win64_this\<rparr>"

fun vtab_win64 ::
  "(win64_args \<Rightarrow> u64 heap \<Rightarrow> u64 heap) \<Rightarrow> (win64_args \<Rightarrow> u64 heap \<Rightarrow> u64 heap \<times> u64) \<Rightarrow> u32 \<Rightarrow>
   vt_win64 \<Rightarrow> (DCCallVM_win64, u32, u64, win64_kernel) DCCallVM_vt" where
  "vtab_win64 run run_aggr pad gVT_win64 = vt_win64_c run run_aggr pad"
| "vtab_win64 run run_aggr pad gVT_x64_win64_this = vt_win64_this run run_aggr pad"

text \<open>\<open>dcNewCallVM\<close>; \<open>sizeof(DCRegData_x64)\<close> is 32, and \<open>(signed long)size\<close> drops the upper half of the size.\<close>

definition dcNewCallVM_win64 :: "DCCallVM_win64 \<Rightarrow> u64 \<Rightarrow> DCCallVM_win64" where
  "dcNewCallVM_win64 p sz =
     (let p = dc_callvm_mode_win64 p DC_CALL_C_DEFAULT;
          sz = sz - 32;
          sz = (if (ucast sz :: u32) <s 0 then 0 else sz)
      in dc_callvm_reset_win64 (p\<lparr>w_mVecHead := dcVecInit (w_mVecHead p) sz\<rparr>))"

subsection \<open>The frame the kernel builds\<close>

text \<open>
  The vector, its size rounded up to 16, is copied to the stack below the frame of the caller; the four registers are
  loaded twice, as integers and as floats, and stored in the 32 bytes that belong to the callee (\<open>wf_home\<close>).
  \<open>wf_stack\<close> starts with the first stack argument.
\<close>

record win64_frame =
  wf_int :: "nat \<Rightarrow> u64"
  wf_float :: "nat \<Rightarrow> u64"
  wf_home :: "u64 list"
  wf_stack :: mem

definition win64_frame :: "mem \<Rightarrow> win64_args \<Rightarrow> win64_frame" where
  "win64_frame caller a =
     \<lparr>wf_int = wa_regdata a, wf_float = wa_regdata a, wf_home = map (wa_regdata a) [0..<4],
      wf_stack = stack_copy caller (unat ((wa_stacksize a + 15) AND (- 16))) (wa_stackdata a)\<rparr>"

subsection \<open>The argument reader\<close>

record DCArgs_win64 =
  wr_stack_ptr :: nat
  wr_reg_count :: nat
  wr_aggr_return_register :: int
  wr_aggrs :: "DCaggr option list"
  wr_reg_data_i :: "nat \<Rightarrow> u64"
  wr_reg_data_f :: "nat \<Rightarrow> u64"
  wr_stack :: mem

definition arg_i64_win64 :: "DCArgs_win64 \<Rightarrow> u64 \<times> DCArgs_win64" where
  "arg_i64_win64 args =
     (let i = wr_reg_count args + (if int (wr_reg_count args) = wr_aggr_return_register args then 1 else 0) in
      if i < numRegs_win64 then (wr_reg_data_i args i, args\<lparr>wr_reg_count := Suc i\<rparr>)
      else (obj_word LE (read_at (wr_stack args) (wr_stack_ptr args) 8),
            args\<lparr>wr_reg_count := i, wr_stack_ptr := wr_stack_ptr args + 8\<rparr>))"

definition arg_f64_win64 :: "DCArgs_win64 \<Rightarrow> u64 \<times> DCArgs_win64" where
  "arg_f64_win64 args =
     (let f = wr_reg_count args + (if int (wr_reg_count args) = wr_aggr_return_register args then 1 else 0) in
      if f < numRegs_win64 then (wr_reg_data_f args f, args\<lparr>wr_reg_count := Suc f\<rparr>)
      else (obj_word LE (read_at (wr_stack args) (wr_stack_ptr args) 8),
            args\<lparr>wr_reg_count := f, wr_stack_ptr := wr_stack_ptr args + 8\<rparr>))"

definition dcbArgLongLong_win64 :: "DCArgs_win64 \<Rightarrow> u64 \<times> DCArgs_win64" where
  "dcbArgLongLong_win64 p = arg_i64_win64 p"

definition dcbArgInt_win64 :: "DCArgs_win64 \<Rightarrow> u32 \<times> DCArgs_win64" where
  "dcbArgInt_win64 p = map_prod ucast id (dcbArgLongLong_win64 p)"

definition dcbArgLong_win64 :: "DCArgs_win64 \<Rightarrow> u32 \<times> DCArgs_win64" where
  "dcbArgLong_win64 p = map_prod ucast id (dcbArgLongLong_win64 p)"

definition dcbArgChar_win64 :: "DCArgs_win64 \<Rightarrow> u8 \<times> DCArgs_win64" where
  "dcbArgChar_win64 p = map_prod ucast id (dcbArgLongLong_win64 p)"

definition dcbArgShort_win64 :: "DCArgs_win64 \<Rightarrow> u16 \<times> DCArgs_win64" where
  "dcbArgShort_win64 p = map_prod ucast id (dcbArgLongLong_win64 p)"

definition dcbArgBool_win64 :: "DCArgs_win64 \<Rightarrow> u32 \<times> DCArgs_win64" where
  "dcbArgBool_win64 p = map_prod (\<lambda>i. if i \<noteq> 0 then 1 else 0) id (dcbArgInt_win64 p)"

definition dcbArgPointer_win64 :: "DCArgs_win64 \<Rightarrow> u64 \<times> DCArgs_win64" where
  "dcbArgPointer_win64 p = dcbArgLongLong_win64 p"

definition dcbArgDouble_win64 :: "DCArgs_win64 \<Rightarrow> u64 \<times> DCArgs_win64" where
  "dcbArgDouble_win64 p = arg_f64_win64 p"

definition dcbArgFloat_win64 :: "DCArgs_win64 \<Rightarrow> u32 \<times> DCArgs_win64" where
  "dcbArgFloat_win64 p = map_prod ucast id (arg_f64_win64 p)"

fun dcbArg_win64 :: "DCArgs_win64 \<Rightarrow> dcty \<Rightarrow> (u32, u64) dcarg \<times> DCArgs_win64" where
  "dcbArg_win64 p TBool = map_prod ABool id (dcbArgBool_win64 p)"
| "dcbArg_win64 p TChar = map_prod AChar id (dcbArgChar_win64 p)"
| "dcbArg_win64 p TShort = map_prod AShort id (dcbArgShort_win64 p)"
| "dcbArg_win64 p TInt = map_prod AInt id (dcbArgInt_win64 p)"
| "dcbArg_win64 p TLong = map_prod ALong id (dcbArgLong_win64 p)"
| "dcbArg_win64 p TLongLong = map_prod ALongLong id (dcbArgLongLong_win64 p)"
| "dcbArg_win64 p TFloat = map_prod AFloat id (dcbArgFloat_win64 p)"
| "dcbArg_win64 p TDouble = map_prod ADouble id (dcbArgDouble_win64 p)"
| "dcbArg_win64 p TPointer = map_prod APointer id (dcbArgPointer_win64 p)"

text \<open>\<open>None\<close>: the array of descriptions has ended.\<close>

definition dcbArgAggr_win64 ::
  "u64 heap \<Rightarrow> DCArgs_win64 \<Rightarrow> u64 \<Rightarrow> (u64 \<times> u64 heap \<times> DCArgs_win64) option" where
  "dcbArgAggr_win64 h p target =
     (case wr_aggrs p of
        [] \<Rightarrow> None
      | ag # rest \<Rightarrow>
          let p = p\<lparr>wr_aggrs := rest\<rparr> in
          (case ag of
             None \<Rightarrow> (case dcbArgPointer_win64 p of (ptr, p) \<Rightarrow> Some (ptr, h, p))
           | Some ag \<Rightarrow>
               if ag_size ag = 1 then
                 (case dcbArgChar_win64 p of (x, p) \<Rightarrow> Some (target, heap_write h target (obj_bytes LE 1 x), p))
               else if ag_size ag = 2 then
                 (case dcbArgShort_win64 p of (x, p) \<Rightarrow> Some (target, heap_write h target (obj_bytes LE 2 x), p))
               else if ag_size ag = 4 then
                 (case dcbArgLong_win64 p of (x, p) \<Rightarrow> Some (target, heap_write h target (obj_bytes LE 4 x), p))
               else if ag_size ag = 8 then
                 (case dcbArgLongLong_win64 p of (x, p) \<Rightarrow> Some (target, heap_write h target (obj_bytes LE 8 x), p))
               else
                 (case dcbArgPointer_win64 p of (ptr, p) \<Rightarrow>
                    Some (target, heap_write h target (heap_read h ptr (unat (ag_size ag))), p))))"

text \<open>\<open>None\<close>: a null pointer or the failed assertion.\<close>

definition dcbReturnAggr_win64 ::
  "u64 heap \<Rightarrow> DCArgs_win64 \<Rightarrow> mem \<Rightarrow> u64 \<Rightarrow> (u64 heap \<times> mem \<times> DCArgs_win64) option" where
  "dcbReturnAggr_win64 h args result ret =
     (case wr_aggrs args of
        [] \<Rightarrow> None
      | ag # rest \<Rightarrow>
          let p = args\<lparr>wr_aggrs := rest\<rparr> in
          if 0 \<le> wr_aggr_return_register args then
            (let dest = wr_reg_data_i args (nat (wr_aggr_return_register args));
                 h' = (case ag of
                         None \<Rightarrow> h
                       | Some a \<Rightarrow> heap_write h dest (heap_read h ret (unat (ag_size a))))
             in Some (h', write_at result 0 (obj_bytes LE 8 dest), p))
          else
            (case ag of
               None \<Rightarrow> None
             | Some a \<Rightarrow>
                 if ag_size a \<le> 8 then Some (h, write_at result 0 (heap_read h ret (unat (ag_size a))), p)
                 else None))"

text \<open>The entry: registers spilled, counter cleared, \<open>stack_ptr\<close> behind return address and home area.\<close>

definition dcCallback_x64_win64 :: "int \<Rightarrow> DCaggr option list \<Rightarrow> win64_frame \<Rightarrow> DCArgs_win64" where
  "dcCallback_x64_win64 ar ags fr =
     \<lparr>wr_stack_ptr = 0, wr_reg_count = 0, wr_aggr_return_register = ar, wr_aggrs = ags,
      wr_reg_data_i = wf_int fr, wr_reg_data_f = wf_float fr, wr_stack = wf_stack fr\<rparr>"


subsection \<open>Invariant, fitting and keeping\<close>

text \<open>The offset of the copies in the vector: the stack arguments grow from 0 towards it.\<close>

definition w_off :: "DCCallVM_win64 \<Rightarrow> nat" where
  "w_off s = unat (w_mpAggrVecCopies s - w_data s)"

definition w_inv :: "DCCallVM_win64 \<Rightarrow> bool" where
  "w_inv s \<longleftrightarrow> w_mRegCount s \<le> 4 \<and> w_mAggrReturnReg s \<in> {-1, 0, 1} \<and> unat (mSize (w_mVecHead s)) \<le> w_off s \<and>
     w_off s \<le> unat (mTotal (w_mVecHead s)) \<and> unat (w_data s) + unat (mTotal (w_mVecHead s)) < 2 ^ 64 \<and>
     unat (mTotal (w_mVecHead s)) < 2 ^ 63"

definition w_next :: "DCCallVM_win64 \<Rightarrow> nat" where
  "w_next s = w_mRegCount s + (if int (w_mRegCount s) = w_mAggrReturnReg s then 1 else 0)"

definition w_fits :: "DCCallVM_win64 \<Rightarrow> bool" where
  "w_fits s \<longleftrightarrow> w_next s < 4 \<or> unat (mSize (w_mVecHead s)) + 8 \<le> w_off s"

definition w_keeps :: "DCCallVM_win64 \<Rightarrow> DCCallVM_win64 \<Rightarrow> bool" where
  "w_keeps s t \<longleftrightarrow>
     w_mRegCount s \<le> w_mRegCount t \<and> w_mAggrReturnReg t = w_mAggrReturnReg s \<and> w_data t = w_data s \<and>
     (\<forall>j < w_mRegCount s. int j \<noteq> w_mAggrReturnReg s \<longrightarrow> w_mRegData t j = w_mRegData s j) \<and>
     vec_keeps (w_mVecHead s) (w_mVecHead t) \<and> vec_ok (w_mVecHead t) \<and> w_off t \<le> w_off s \<and>
     (\<forall>j. w_off s \<le> j \<longrightarrow> j < unat (mTotal (w_mVecHead s)) \<longrightarrow> mData (w_mVecHead t) j = mData (w_mVecHead s) j)"

lemma w_keeps_trans: "w_keeps s t \<Longrightarrow> w_keeps t u \<Longrightarrow> w_keeps s u"
  by (auto simp: w_keeps_def vec_keeps_def)

lemma w_vec_ok: "w_inv s \<Longrightarrow> vec_ok (w_mVecHead s)"
  by (simp add: w_inv_def vec_ok_def word_le_nat_alt)

lemma w_keeps_refl: "w_inv s \<Longrightarrow> w_keeps s s"
  by (simp add: w_keeps_def w_vec_ok)

lemma argDouble_win64_eq: "dc_callvm_argDouble_win64 = dc_callvm_argLongLong_win64"
  by (simp add: fun_eq_iff dc_callvm_argDouble_win64_def dc_callvm_argLongLong_win64_def)

lemma argPointer_win64_eq: "dc_callvm_argPointer_win64 = dc_callvm_argLongLong_win64"
  by (simp add: fun_eq_iff dc_callvm_argPointer_win64_def dc_callvm_argLongLong_win64_def)

lemma w_push_eq:
  "dc_callvm_argLongLong_win64 s x =
     (if w_next s < 4 then s\<lparr>w_mRegData := (w_mRegData s)(w_next s := x), w_mRegCount := Suc (w_next s)\<rparr>
      else s\<lparr>w_mRegCount := w_next s, w_mVecHead := dcVecAppend (w_mVecHead s) (obj_bytes LE 8 x)\<rparr>)"
  by (simp add: dc_callvm_argLongLong_win64_def w_next_def Let_def)

lemma w_fits_vec: "w_inv s \<Longrightarrow> w_fits s \<Longrightarrow> \<not> w_next s < 4 \<Longrightarrow> vec_fits (w_mVecHead s) 8"
  by (auto simp: w_inv_def w_fits_def vec_fits_def)

lemma w_next_4: "w_inv s \<Longrightarrow> \<not> w_next s < 4 \<Longrightarrow> w_next s = w_mRegCount s \<and> w_mRegCount s = 4"
  by (auto simp: w_inv_def w_next_def split: if_splits)

lemma w_off_push [simp]: "w_off (dc_callvm_argLongLong_win64 s x) = w_off s"
  by (simp add: w_push_eq w_off_def)

lemma w_same_push [simp]:
  "w_mAggrReturnReg (dc_callvm_argLongLong_win64 s x) = w_mAggrReturnReg s"
  "w_data (dc_callvm_argLongLong_win64 s x) = w_data s"
  "mTotal (w_mVecHead (dc_callvm_argLongLong_win64 s x)) = mTotal (w_mVecHead s)"
  "mVTpointer (dc_callvm_argLongLong_win64 s x) = mVTpointer s"
  by (simp_all add: w_push_eq)

lemma w_size_push:
  assumes "w_inv s" and "w_fits s"
  shows "unat (mSize (w_mVecHead (dc_callvm_argLongLong_win64 s x)))
    = unat (mSize (w_mVecHead s)) + (if w_next s < 4 then 0 else 8)"
  using w_fits_vec [OF assms] by (auto simp: w_push_eq vec_append_used)

lemma w_inv_push:
  assumes "w_inv s" and "w_fits s"
  shows "w_inv (dc_callvm_argLongLong_win64 s x)"
proof (cases "w_next s < 4")
  case True
  with assms(1) show ?thesis by (simp add: w_inv_def w_push_eq w_off_def)
next
  case False
  then have "w_mRegCount (dc_callvm_argLongLong_win64 s x) = 4"
    using w_next_4 [OF assms(1) False] by (simp add: w_push_eq)
  with False assms w_size_push [OF assms, of x] show ?thesis by (simp add: w_inv_def w_fits_def)
qed

lemma w_append_above:
  assumes "vec_fits v 8" and "unat (mSize v) + 8 \<le> j"
  shows "mData (dcVecAppend v (obj_bytes LE 8 (x :: u64))) j = mData v j"
  using assms by (simp add: dcVecAppend_fits)

lemma w_keeps_push:
  assumes "w_inv s" and "w_fits s"
  shows "w_keeps s (dc_callvm_argLongLong_win64 s x)"
proof (cases "w_next s < 4")
  case True
  then have "w_mRegCount s \<le> w_next s" by (simp add: w_next_def)
  with True w_vec_ok [OF assms(1)] show ?thesis by (auto simp: w_keeps_def w_push_eq w_off_def)
next
  case False
  note v = w_fits_vec [OF assms False]
  from False assms(2) have "unat (mSize (w_mVecHead s)) + 8 \<le> w_off s" by (simp add: w_fits_def)
  with False v w_next_4 [OF assms(1) False] w_vec_ok [OF assms(1)] show ?thesis
    by (simp add: w_keeps_def w_push_eq vec_keeps_append vec_ok_append w_append_above w_off_def)
qed

subsection \<open>The copy of a struct\<close>

lemma copy_aggr_off:
  assumes "w_inv s" and "unat (mSize (w_mVecHead s)) + unat sz + 15 \<le> w_off s"
  shows "w_off (copy_aggr_win64 h s sz x) + unat sz \<le> w_off s" (is "?o + _ \<le> _")
    and "w_off s \<le> w_off (copy_aggr_win64 h s sz x) + unat sz + 15"
    and "w_mpAggrVecCopies (copy_aggr_win64 h s sz x) = w_data s + of_nat (w_off (copy_aggr_win64 h s sz x))"
proof -
  let ?c = "w_mpAggrVecCopies s" and ?d = "w_data s"
  let ?p = "(?c - sz) AND (- (2 ^ 4))"
  have o: "?o = unat (?p - ?d)" by (simp add: copy_aggr_win64_def w_off_def Let_def)
  have "unat (?d + of_nat (w_off s)) = unat ?d + w_off s"
    using assms(1) by (intro unat_add_small) (auto simp: w_inv_def)
  moreover have "?d + of_nat (w_off s) = ?c" by (simp add: w_off_def)
  ultimately have c: "unat ?c = unat ?d + w_off s" by simp
  then have le: "sz \<le> ?c" using assms(2) by (simp add: word_le_nat_alt)
  have m: "unat (?c - sz) = unat ?d + w_off s - unat sz" using c le by (simp add: unat_sub)
  have "unat ?p = unat (?c - sz) - unat (?c - sz) mod 2 ^ 4" by (rule unat_and_minus_exp)
  moreover have "unat (?c - sz) mod 2 ^ 4 < 16" by simp
  ultimately have p: "unat ?p \<le> unat ?d + w_off s - unat sz" "unat ?d + w_off s - unat sz < unat ?p + 16"
    unfolding m by linarith+
  then have "?d \<le> ?p" using assms(2) by (simp only: word_le_nat_alt)
  then have "?o = unat ?p - unat ?d" unfolding o by (rule unat_sub)
  with p assms(2) show "?o + unat sz \<le> w_off s" "w_off s \<le> ?o + unat sz + 15" by linarith+
  show "w_mpAggrVecCopies (copy_aggr_win64 h s sz x) = ?d + of_nat ?o"
    unfolding o by (simp add: copy_aggr_win64_def Let_def)
qed

lemma copy_aggr_same [simp]:
  "w_mAggrReturnReg (copy_aggr_win64 h s sz x) = w_mAggrReturnReg s"
  "w_data (copy_aggr_win64 h s sz x) = w_data s"
  "mTotal (w_mVecHead (copy_aggr_win64 h s sz x)) = mTotal (w_mVecHead s)"
  "mSize (w_mVecHead (copy_aggr_win64 h s sz x)) = mSize (w_mVecHead s)"
  "w_mRegCount (copy_aggr_win64 h s sz x) = w_mRegCount s"
  "w_mRegData (copy_aggr_win64 h s sz x) = w_mRegData s"
  "mVTpointer (copy_aggr_win64 h s sz x) = mVTpointer s"
  by (simp_all add: copy_aggr_win64_def Let_def)

lemma w_next_copy [simp]: "w_next (copy_aggr_win64 h s sz x) = w_next s"
  by (simp add: w_next_def)

lemma copy_aggr_data:
  "mData (w_mVecHead (copy_aggr_win64 h s sz x))
     = write_at (mData (w_mVecHead s)) (w_off (copy_aggr_win64 h s sz x)) (heap_read h x (unat sz))"
  by (simp add: copy_aggr_win64_def Let_def w_off_def)

lemma copy_aggr_ok:
  assumes "w_inv s" and "unat (mSize (w_mVecHead s)) + unat sz + 15 \<le> w_off s"
  shows "w_inv (copy_aggr_win64 h s sz x)" and "w_keeps s (copy_aggr_win64 h s sz x)"
proof -
  note o = copy_aggr_off [OF assms, of h x]
  show "w_inv (copy_aggr_win64 h s sz x)" using assms o(1,2) by (auto simp: w_inv_def)
  have "mData (w_mVecHead (copy_aggr_win64 h s sz x)) j = mData (w_mVecHead s) j"
    if "j < unat (mSize (w_mVecHead s)) \<or> w_off s \<le> j" for j
    using that assms(2) o(1,2) by (auto simp: copy_aggr_data)
  then show "w_keeps s (copy_aggr_win64 h s sz x)"
    using assms o(1) w_vec_ok [OF assms(1)] by (auto simp: w_keeps_def vec_keeps_def vec_ok_def)
qed

subsection \<open>Reading one argument\<close>

definition w_view ::
  "mem \<Rightarrow> u64 \<Rightarrow> int \<Rightarrow> DCaggr option list \<Rightarrow> DCCallVM_win64 \<Rightarrow> DCCallVM_win64 \<Rightarrow> DCArgs_win64" where
  "w_view caller target ar ags F s =
     (dcCallback_x64_win64 ar ags (win64_frame caller (win64_args_of F target)))
     \<lparr>wr_stack_ptr := unat (mSize (w_mVecHead s)), wr_reg_count := w_mRegCount s\<rparr>"

text \<open>The register of the hidden result is the same on both sides; without one, the callback has a negative number.\<close>

definition same_hidden :: "int \<Rightarrow> DCCallVM_win64 \<Rightarrow> bool" where
  "same_hidden ar s \<longleftrightarrow> (if w_mAggrReturnReg s = -1 then ar < 0 else ar = w_mAggrReturnReg s)"

lemma arg_f64_win64_eq: "arg_f64_win64 (w_view caller target ar ags F s) = arg_i64_win64 (w_view caller target ar ags F s)"
  by (simp add: arg_f64_win64_def arg_i64_win64_def w_view_def dcCallback_x64_win64_def win64_frame_def Let_def)

lemma w_pop:
  assumes "w_inv s" and "w_fits s" and "w_keeps (dc_callvm_argLongLong_win64 s x) F" and "same_hidden ar s"
  shows "arg_i64_win64 (w_view caller target ar ags F s)
    = (x, w_view caller target ar ags F (dc_callvm_argLongLong_win64 s x))"
proof -
  have n: "w_mRegCount s + (if int (w_mRegCount s) = ar then 1 else 0) = w_next s"
    using assms(4) by (auto simp: same_hidden_def w_next_def split: if_splits)
  have v: "wr_reg_count (w_view caller target ar ags F s) = w_mRegCount s"
    "wr_aggr_return_register (w_view caller target ar ags F s) = ar"
    "wr_reg_data_i (w_view caller target ar ags F s) = w_mRegData F"
    "wr_stack_ptr (w_view caller target ar ags F s) = unat (mSize (w_mVecHead s))"
    "wr_stack (w_view caller target ar ags F s)
       = stack_copy caller (unat ((mSize (w_mVecHead F) + 15) AND (- 16))) (mData (w_mVecHead F))"
    by (simp_all add: w_view_def dcCallback_x64_win64_def win64_frame_def win64_args_of_def)
  show ?thesis
  proof (cases "w_next s < 4")
    case True
    have "int (w_next s) \<noteq> w_mAggrReturnReg s" using assms(1) by (auto simp: w_next_def w_inv_def)
    with True assms(3) have "w_mRegData F (w_next s) = x" by (simp add: w_keeps_def w_push_eq)
    with True show ?thesis
      unfolding arg_i64_win64_def v Let_def n by (simp add: w_view_def w_push_eq dcCallback_x64_win64_def)
  next
    case False
    note f = w_fits_vec [OF assms(1,2) False]
    from assms(3) False have k: "vec_keeps (dcVecAppend (w_mVecHead s) (obj_bytes LE 8 x)) (w_mVecHead F)"
      "vec_ok (w_mVecHead F)" "unat (mTotal (w_mVecHead F)) < 2 ^ 63"
      using assms(1) by (simp_all add: w_keeps_def w_push_eq vec_keeps_def w_inv_def)
    have "obj_word LE (read_at (wr_stack (w_view caller target ar ags F s)) (unat (mSize (w_mVecHead s))) 8) = x"
      unfolding v by (rule stack_copy_word [OF f k(1) vec_size_pad16 [OF k(2,3)]]) simp
    with False f show ?thesis
      unfolding arg_i64_win64_def v(1,2,4) Let_def n
      by (simp add: w_view_def w_push_eq dcCallback_x64_win64_def vec_append_used)
  qed
qed

lemma vtab_win64_args:
  "vt_argBool (vtab_win64 run run_aggr pad i) = dc_callvm_argBool_win64"
  "vt_argChar (vtab_win64 run run_aggr pad i) = dc_callvm_argChar_win64"
  "vt_argShort (vtab_win64 run run_aggr pad i) = dc_callvm_argShort_win64"
  "vt_argInt (vtab_win64 run run_aggr pad i) = dc_callvm_argInt_win64"
  "vt_argLong (vtab_win64 run run_aggr pad i) = dc_callvm_argLong_win64"
  "vt_argLongLong (vtab_win64 run run_aggr pad i) = dc_callvm_argLongLong_win64"
  "vt_argFloat (vtab_win64 run run_aggr pad i) = dc_callvm_argFloat_win64 pad"
  "vt_argDouble (vtab_win64 run run_aggr pad i) = dc_callvm_argLongLong_win64"
  "vt_argPointer (vtab_win64 run run_aggr pad i) = dc_callvm_argLongLong_win64"
  "vt_argAggr (vtab_win64 run run_aggr pad i) = Some dc_callvm_argAggr_win64"
  "vt_reset (vtab_win64 run run_aggr pad i) = dc_callvm_reset_win64"
  "vt_call (vtab_win64 run run_aggr pad i) = (\<lambda>_. dc_callvm_call_win64)"
  "vt_callAggr (vtab_win64 run run_aggr pad i) = Some (dc_callvm_call_win64_aggr run run_aggr)"
  by (cases i; simp add: vt_win64_c_def vt_win64_this_def argPointer_win64_eq argDouble_win64_eq)+

text \<open>Every scalar is one push of a word that holds it.\<close>

fun w_word :: "u32 \<Rightarrow> (u32, u64) dcarg \<Rightarrow> u64" where
  "w_word pad (ABool x) = scast x"
| "w_word pad (AChar x) = scast x"
| "w_word pad (AShort x) = scast x"
| "w_word pad (AInt x) = scast x"
| "w_word pad (ALong x) = scast x"
| "w_word pad (ALongLong x) = x"
| "w_word pad (AFloat x) = word_cat pad x"
| "w_word pad (ADouble x) = x"
| "w_word pad (APointer x) = x"

lemma dcArg_win64: "dcArg (vtab_win64 run run_aggr pad) s a = dc_callvm_argLongLong_win64 s (w_word pad a)"
  by (cases a) (simp_all add: vtab_win64_args dc_callvm_argBool_win64_def dc_callvm_argChar_win64_def
      dc_callvm_argShort_win64_def dc_callvm_argInt_win64_def dc_callvm_argLong_win64_def
      dc_callvm_argFloat_win64_def argDouble_win64_eq)

fun w_val :: "(u32, u64) dcarg \<Rightarrow> (u32, u64) dcarg" where
  "w_val (ABool b) = ABool (if b \<noteq> 0 then 1 else 0)"
| "w_val a = a"

lemmas w_read_defs = dcbArgLongLong_win64_def dcbArgInt_win64_def dcbArgLong_win64_def
  dcbArgChar_win64_def dcbArgShort_win64_def dcbArgBool_win64_def dcbArgPointer_win64_def
  dcbArgDouble_win64_def dcbArgFloat_win64_def arg_f64_win64_eq

lemma w_pop_scalar:
  assumes "w_inv s" and "w_fits s" and "w_keeps (dcArg (vtab_win64 run run_aggr pad) s a) F" and "same_hidden ar s"
  shows "dcbArg_win64 (w_view caller target ar ags F s) (arg_ty a)
    = (w_val a, w_view caller target ar ags F (dcArg (vtab_win64 run run_aggr pad) s a))"
  using w_pop [OF assms(1,2) assms(3) [unfolded dcArg_win64] assms(4), of caller target ags]
  unfolding dcArg_win64
  by (cases a) (simp_all add: w_read_defs ucast_scast_trunc ucast_word_cat_low del: dcArg.simps)

subsection \<open>Structs\<close>

text \<open>The memory of the client at the time of the callback has the vector at its address.\<close>

definition w_heap :: "DCCallVM_win64 \<Rightarrow> u64 heap \<Rightarrow> bool" where
  "w_heap F h \<longleftrightarrow> (\<forall>j < unat (mTotal (w_mVecHead F)). h (w_data F + of_nat j) = mData (w_mVecHead F) j)"

lemma w_heap_read:
  assumes "w_heap F h" and "i + n \<le> unat (mTotal (w_mVecHead F))"
  shows "heap_read h (w_data F + of_nat i) n = read_at (mData (w_mVecHead F)) i n"
  using assms by (intro nth_equalityI) (auto simp: heap_read_def read_at_def w_heap_def add.assoc simp flip: of_nat_add)

text \<open>The buffer of the handler lies outside of the vector.\<close>

definition w_apart :: "DCCallVM_win64 \<Rightarrow> u64 \<Rightarrow> nat \<Rightarrow> bool" where
  "w_apart s tgt n \<longleftrightarrow> unat tgt + n \<le> unat (w_data s) \<or>
     unat (w_data s) + unat (mTotal (w_mVecHead s)) \<le> unat tgt \<and> unat tgt + n \<le> 2 ^ 64"

lemma w_apart_gap:
  assumes "w_apart s tgt n" and "unat (w_data s) + unat (mTotal (w_mVecHead s)) < 2 ^ 64"
    and "j < unat (mTotal (w_mVecHead s))"
  shows "n \<le> unat (w_data s + of_nat j - tgt)"
proof -
  have a: "unat (w_data s + of_nat j) = unat (w_data s) + j"
    using assms(2,3) by (intro unat_add_small) auto
  show ?thesis
  proof (cases "tgt \<le> w_data s + of_nat j")
    case True
    then have "unat (w_data s + of_nat j - tgt) = unat (w_data s) + j - unat tgt" by (simp add: unat_sub a)
    moreover from True have "unat tgt \<le> unat (w_data s) + j" by (simp only: word_le_nat_alt a)
    ultimately show ?thesis using assms(1,3) by (auto simp: w_apart_def)
  next
    case False
    then have l: "unat (w_data s) + j < unat tgt" by (simp only: word_le_nat_alt a not_le)
    then have "unat tgt + n \<le> 2 ^ 64" using assms(1) by (auto simp: w_apart_def)
    with l show ?thesis by (simp only: unat_sub_if' a) simp
  qed
qed

lemma w_heap_write:
  assumes "w_heap F h" and "w_apart F tgt n" and "length bs \<le> n"
    and "unat (w_data F) + unat (mTotal (w_mVecHead F)) < 2 ^ 64"
  shows "w_heap F (heap_write h tgt bs)"
  using assms(1,3) w_apart_gap [OF assms(2,4)] by (fastforce simp: w_heap_def heap_write_def not_less)

definition small_aggr :: "DCaggr \<Rightarrow> bool" where
  "small_aggr ag \<longleftrightarrow> ag_size ag \<in> {1, 2, 4, 8}"

definition w_aggr_fits :: "DCCallVM_win64 \<Rightarrow> DCaggr \<Rightarrow> bool" where
  "w_aggr_fits s ag \<longleftrightarrow>
     (if small_aggr ag then w_fits s
      else unat (mSize (w_mVecHead s)) + 8 + unat (ag_size ag) + 15 \<le> w_off s)"

definition w_aggr_word :: "u64 heap \<Rightarrow> DCaggr \<Rightarrow> u64 \<Rightarrow> u64" where
  "w_aggr_word h ag x =
     (if ag_size ag = 1 then scast (obj_word LE (heap_read h x 1) :: u8)
      else if ag_size ag = 2 then scast (obj_word LE (heap_read h x 2) :: u16)
      else if ag_size ag = 4 then scast (obj_word LE (heap_read h x 4) :: u32)
      else obj_word LE (heap_read h x 8))"

lemma argAggr_win64_small:
  "small_aggr ag \<Longrightarrow> dc_callvm_argAggr_win64 h s (Some ag) x = dc_callvm_argLongLong_win64 s (w_aggr_word h ag x)"
  by (auto simp: small_aggr_def dc_callvm_argAggr_win64_def w_aggr_word_def dc_callvm_argChar_win64_def
      dc_callvm_argShort_win64_def dc_callvm_argLong_win64_def)

lemma argAggr_win64_copy:
  "\<not> small_aggr ag \<Longrightarrow>
     dc_callvm_argAggr_win64 h s (Some ag) x =
       dc_callvm_argLongLong_win64 (copy_aggr_win64 h s (ag_size ag) x)
         (w_mpAggrVecCopies (copy_aggr_win64 h s (ag_size ag) x))"
  by (simp add: small_aggr_def dc_callvm_argAggr_win64_def argPointer_win64_eq Let_def)

lemma copy_then_fits:
  assumes "w_inv s" and "w_aggr_fits s ag" and "\<not> small_aggr ag"
  shows "unat (mSize (w_mVecHead s)) + unat (ag_size ag) + 15 \<le> w_off s"
    and "w_fits (copy_aggr_win64 h s (ag_size ag) x)"
proof -
  show c: "unat (mSize (w_mVecHead s)) + unat (ag_size ag) + 15 \<le> w_off s"
    using assms(2,3) by (simp add: w_aggr_fits_def)
  from copy_aggr_off(2) [OF assms(1) c, of h x] assms(2,3) show "w_fits (copy_aggr_win64 h s (ag_size ag) x)"
    by (simp add: w_fits_def w_aggr_fits_def)
qed

lemma w_argAggr:
  assumes "w_inv s" and "w_aggr_fits s ag"
  shows "w_inv (dc_callvm_argAggr_win64 h s (Some ag) x)" and "w_keeps s (dc_callvm_argAggr_win64 h s (Some ag) x)"
proof -
  have "w_inv (dc_callvm_argAggr_win64 h s (Some ag) x) \<and> w_keeps s (dc_callvm_argAggr_win64 h s (Some ag) x)"
  proof (cases "small_aggr ag")
    case True
    with assms show ?thesis by (simp add: argAggr_win64_small w_aggr_fits_def w_inv_push w_keeps_push)
  next
    case False
    note f = copy_then_fits(1) [OF assms False] copy_then_fits(2) [OF assms False, of h x]
    note c = copy_aggr_ok [OF assms(1) f(1), of h x]
    from w_inv_push [OF c(1) f(2)] w_keeps_trans [OF c(2) w_keeps_push [OF c(1) f(2)]] False
    show ?thesis by (simp add: argAggr_win64_copy)
  qed
  then show "w_inv (dc_callvm_argAggr_win64 h s (Some ag) x)" "w_keeps s (dc_callvm_argAggr_win64 h s (Some ag) x)"
    by blast+
qed

lemma w_argAggr_same [simp]:
  "w_mAggrReturnReg (dc_callvm_argAggr_win64 h s (Some ag) x) = w_mAggrReturnReg s"
  "w_data (dc_callvm_argAggr_win64 h s (Some ag) x) = w_data s"
  "mTotal (w_mVecHead (dc_callvm_argAggr_win64 h s (Some ag) x)) = mTotal (w_mVecHead s)"
  "mVTpointer (dc_callvm_argAggr_win64 h s (Some ag) x) = mVTpointer s"
  by (cases "small_aggr ag"; simp add: argAggr_win64_small argAggr_win64_copy)+

lemma same_hidden_argAggr [simp]:
  "same_hidden ar (dc_callvm_argAggr_win64 h s (Some ag) x) = same_hidden ar s"
  "same_hidden ar (dc_callvm_argLongLong_win64 s y) = same_hidden ar s"
  by (simp_all add: same_hidden_def)

lemma w_view_copy [simp]:
  "w_view caller target ar ags F (copy_aggr_win64 h s sz x) = w_view caller target ar ags F s"
  by (simp add: w_view_def)

lemma w_keeps_space:
  "w_keeps s F \<Longrightarrow> w_data F = w_data s \<and> mTotal (w_mVecHead F) = mTotal (w_mVecHead s)"
  by (simp add: w_keeps_def vec_keeps_def)

lemma w_copy_read:
  assumes "w_inv s" and "w_aggr_fits s ag" and "\<not> small_aggr ag"
    and "w_keeps (dc_callvm_argAggr_win64 h s (Some ag) x) F" and "w_heap F h'"
  shows "heap_read h' (w_mpAggrVecCopies (copy_aggr_win64 h s (ag_size ag) x)) (unat (ag_size ag))
    = heap_read h x (unat (ag_size ag))"
proof -
  let ?c = "copy_aggr_win64 h s (ag_size ag) x" and ?n = "unat (ag_size ag)"
  note f = copy_then_fits(1) [OF assms(1-3)] copy_then_fits(2) [OF assms(1-3), of h x]
  note o = copy_aggr_off [OF assms(1) f(1), of h x]
  note i = copy_aggr_ok [OF assms(1) f(1), of h x]
  have k: "w_keeps ?c F"
    using w_keeps_trans [OF w_keeps_push [OF i(1) f(2)]] assms(3,4) by (simp add: argAggr_win64_copy)
  have le: "w_off ?c + ?n \<le> unat (mTotal (w_mVecHead F))"
    using w_keeps_space [OF k] o(1) assms(1) by (simp add: w_inv_def)
  have "read_at (mData (w_mVecHead F)) (w_off ?c) ?n = read_at (mData (w_mVecHead ?c)) (w_off ?c) ?n"
    using k le w_keeps_space [OF k] by (intro nth_equalityI) (auto simp: read_at_def w_keeps_def)
  also have "\<dots> = heap_read h x ?n"
    unfolding copy_aggr_data by (simp add: read_at_write_at)
  finally show ?thesis
    using w_heap_read [OF assms(5) le] w_keeps_space [OF k] by (simp add: o(3))
qed

lemma small_word_bytes:
  assumes "small_aggr ag"
  shows "ag_size ag = 1 \<Longrightarrow> obj_bytes LE 1 (ucast (w_aggr_word h ag x) :: u8) = heap_read h x 1"
    and "ag_size ag = 2 \<Longrightarrow> obj_bytes LE 2 (ucast (w_aggr_word h ag x) :: u16) = heap_read h x 2"
    and "ag_size ag = 4 \<Longrightarrow> obj_bytes LE 4 (ucast (w_aggr_word h ag x) :: u32) = heap_read h x 4"
    and "ag_size ag = 8 \<Longrightarrow> obj_bytes LE 8 (w_aggr_word h ag x) = heap_read h x 8"
  by (simp_all add: w_aggr_word_def ucast_scast_trunc obj_bytes_obj_word)

lemma w_pop_aggr:
  assumes "w_inv s" and "w_aggr_fits s ag" and "w_keeps (dc_callvm_argAggr_win64 h s (Some ag) x) F"
    and "same_hidden ar s" and "w_heap F h'"
  shows "dcbArgAggr_win64 h' (w_view caller target ar (Some ag # ags) F s) tgt
    = Some (tgt, heap_write h' tgt (heap_read h x (unat (ag_size ag))),
        w_view caller target ar ags F (dc_callvm_argAggr_win64 h s (Some ag) x))"
proof -
  have v: "wr_aggrs (w_view caller target ar (Some ag # ags) F s) = Some ag # ags"
    "(w_view caller target ar (Some ag # ags) F s)\<lparr>wr_aggrs := ags\<rparr> = w_view caller target ar ags F s"
    by (simp_all add: w_view_def dcCallback_x64_win64_def)
  show ?thesis
  proof (cases "small_aggr ag")
    case True
    from assms(2) True have f: "w_fits s" by (simp add: w_aggr_fits_def)
    note p = w_pop [OF assms(1) f assms(3) [unfolded argAggr_win64_small [OF True]] assms(4), of caller target ags]
    note b = small_word_bytes [OF True, of h x]
    from True consider "ag_size ag = 1" | "ag_size ag = 2" | "ag_size ag = 4" | "ag_size ag = 8"
      by (auto simp: small_aggr_def)
    then show ?thesis
      by cases (simp_all add: dcbArgAggr_win64_def v w_read_defs p b b(1) [unfolded One_nat_def] argAggr_win64_small [OF True])
  next
    case False
    note f = copy_then_fits(1) [OF assms(1,2) False] copy_then_fits(2) [OF assms(1,2) False, of h x]
    note i = copy_aggr_ok [OF assms(1) f(1), of h x]
    have m: "same_hidden ar (copy_aggr_win64 h s (ag_size ag) x)" using assms(4) by (simp add: same_hidden_def)
    note p = w_pop [OF i(1) f(2) assms(3) [unfolded argAggr_win64_copy [OF False]] m, of caller target ags]
    from False show ?thesis
      by (simp add: dcbArgAggr_win64_def v w_read_defs p [unfolded w_view_copy]
          w_copy_read [OF assms(1,2) False assms(3,5)] small_aggr_def argAggr_win64_copy [OF False])
  qed
qed

subsection \<open>Scalars and structs in any order\<close>

datatype win64_item = WScalar "(u32, u64) dcarg" | WAggr "u64 heap" DCaggr u64
datatype win64_ity = WTScalar dcty | WTAggr nat
datatype win64_ival = WVScalar "(u32, u64) dcarg" | WVAggr "byte list" | WVFailed

fun w_item_ty :: "win64_item \<Rightarrow> win64_ity" where
  "w_item_ty (WScalar a) = WTScalar (arg_ty a)"
| "w_item_ty (WAggr h ag x) = WTAggr (unat (ag_size ag))"

fun w_item_val :: "win64_item \<Rightarrow> win64_ival" where
  "w_item_val (WScalar a) = WVScalar (w_val a)"
| "w_item_val (WAggr h ag x) = WVAggr (heap_read h x (unat (ag_size ag)))"

fun w_item_aggrs :: "win64_item list \<Rightarrow> DCaggr option list" where
  "w_item_aggrs [] = []"
| "w_item_aggrs (WScalar a # is) = w_item_aggrs is"
| "w_item_aggrs (WAggr h ag x # is) = Some ag # w_item_aggrs is"

text \<open>A copy takes its size, up to 15 bytes of alignment and the pointer to it.\<close>

fun w_item_cost :: "win64_item \<Rightarrow> nat" where
  "w_item_cost (WScalar a) = 8"
| "w_item_cost (WAggr h ag x) = (if small_aggr ag then 8 else unat (ag_size ag) + 23)"

fun w_item_size :: "win64_item \<Rightarrow> nat" where
  "w_item_size (WScalar a) = 0"
| "w_item_size (WAggr h ag x) = unat (ag_size ag)"

fun w_push_item ::
  "(vt_win64 \<Rightarrow> (DCCallVM_win64, u32, u64, win64_kernel) DCCallVM_vt) \<Rightarrow>
   DCCallVM_win64 \<times> DCaggr option list \<Rightarrow> win64_item \<Rightarrow> DCCallVM_win64 \<times> DCaggr option list" where
  "w_push_item V (s, ags) (WScalar a) = (dcArg V s a, ags)"
| "w_push_item V (s, ags) (WAggr h ag x) =
     (case dcArgAggr V h s (Some ag) x of None \<Rightarrow> s | Some s' \<Rightarrow> s', tl ags)"

text \<open>The handler has \<open>dcbArgAggr\<close> write to its buffer \<open>tgt\<close> and looks at the bytes there.\<close>

fun w_pop_item :: "u64 \<Rightarrow> DCArgs_win64 \<times> u64 heap \<Rightarrow> win64_ity \<Rightarrow> win64_ival \<times> DCArgs_win64 \<times> u64 heap" where
  "w_pop_item tgt (r, h) (WTScalar t) = (case dcbArg_win64 r t of (v, r') \<Rightarrow> (WVScalar v, r', h))"
| "w_pop_item tgt (r, h) (WTAggr n) =
     (case dcbArgAggr_win64 h r tgt of
        None \<Rightarrow> (WVFailed, r, h)
      | Some (ptr, h', r') \<Rightarrow> (WVAggr (heap_read h' ptr n), r', h'))"

fun w_item_fits :: "nat \<Rightarrow> DCCallVM_win64 \<times> DCaggr option list \<Rightarrow> win64_item \<Rightarrow> bool" where
  "w_item_fits n (s, ags) (WScalar a) \<longleftrightarrow> w_fits s"
| "w_item_fits n (s, ags) (WAggr h ag x) \<longleftrightarrow>
     w_aggr_fits s ag \<and> unat (ag_size ag) \<le> n \<and> ags \<noteq> [] \<and> hd ags = Some ag"

fun w_item_inv :: "int \<Rightarrow> u64 \<Rightarrow> nat \<Rightarrow> DCCallVM_win64 \<times> DCaggr option list \<Rightarrow> bool" where
  "w_item_inv ar tgt n (s, ags) \<longleftrightarrow> w_inv s \<and> same_hidden ar s \<and> w_apart s tgt n"

fun w_item_keeps :: "DCCallVM_win64 \<times> DCaggr option list \<Rightarrow> DCCallVM_win64 \<times> DCaggr option list \<Rightarrow> bool" where
  "w_item_keeps (s, _) (t, _) \<longleftrightarrow> w_keeps s t"

fun w_item_reads ::
  "mem \<Rightarrow> u64 \<Rightarrow> int \<Rightarrow> DCArgs_win64 \<times> u64 heap \<Rightarrow> DCCallVM_win64 \<times> DCaggr option list \<Rightarrow>
   DCCallVM_win64 \<times> DCaggr option list \<Rightarrow> bool" where
  "w_item_reads caller target ar (r, h) (F, _) (s, ags) \<longleftrightarrow> r = w_view caller target ar ags F s \<and> w_heap F h"

lemma dcArgAggr_win64 [simp]:
  "dcArgAggr (vtab_win64 run run_aggr pad) h s (Some ag) x = Some (dc_callvm_argAggr_win64 h s (Some ag) x)"
  by (simp add: dcArgAggr_def vtab_win64_args)

lemma w_apart_push [simp]:
  "w_apart (dc_callvm_argLongLong_win64 s x) tgt n = w_apart s tgt n"
  "w_apart (dc_callvm_argAggr_win64 h s (Some ag) y) tgt n = w_apart s tgt n"
  by (simp_all add: w_apart_def)

lemma w_push_item_scalar:
  "w_push_item (vtab_win64 run run_aggr pad) (s, ags) (WScalar a) = (dc_callvm_argLongLong_win64 s (w_word pad a), ags)"
  by (simp only: w_push_item.simps dcArg_win64)

lemma w_push_item_aggr:
  "w_push_item (vtab_win64 run run_aggr pad) (s, ags) (WAggr h ag x)
    = (dc_callvm_argAggr_win64 h s (Some ag) x, tl ags)"
  by (simp only: w_push_item.simps dcArgAggr_win64 option.case)

lemmas w_push_item_simps = w_push_item_scalar w_push_item_aggr

lemma w_item_inv_push:
  assumes "w_item_inv ar tgt n s" and "w_item_fits n s i"
  shows "w_item_inv ar tgt n (w_push_item (vtab_win64 run run_aggr pad) s i)"
  using assms
  by (cases s; cases i) (simp_all add: w_push_item_simps w_inv_push w_argAggr(1) del: w_push_item.simps)

lemma w_item_keeps_push:
  assumes "w_item_inv ar tgt n s" and "w_item_fits n s i"
  shows "w_item_keeps s (w_push_item (vtab_win64 run run_aggr pad) s i)"
  using assms
  by (cases s; cases i) (simp_all add: w_push_item_simps w_keeps_push w_argAggr(2) del: w_push_item.simps)

lemma w_item_pop_push:
  assumes "w_item_inv ar tgt n s" and "w_item_fits n s i"
    and "w_item_keeps (w_push_item (vtab_win64 run run_aggr pad) s i) F" and "w_item_reads caller target ar r F s"
  shows "fst (w_pop_item tgt r (w_item_ty i)) = w_item_val i \<and>
    w_item_reads caller target ar (snd (w_pop_item tgt r (w_item_ty i))) F
      (w_push_item (vtab_win64 run run_aggr pad) s i)"
proof -
  obtain vm ags FV FA r' h' where s: "s = (vm, ags)" "F = (FV, FA)" "r = (r', h')" by (cases s, cases F, cases r)
  have r: "r' = w_view caller target ar ags FV vm" "w_heap FV h'" using assms(4) by (simp_all add: s)
  have inv: "w_inv vm" "same_hidden ar vm" "w_apart vm tgt n" using assms(1) by (simp_all add: s)
  show ?thesis
  proof (cases i)
    case (WScalar a)
    from assms(2,3) have "w_fits vm" "w_keeps (dcArg (vtab_win64 run run_aggr pad) vm a) FV"
      by (simp_all add: WScalar s del: dcArg.simps)
    from w_pop_scalar [OF inv(1) this inv(2), of caller target ags] r show ?thesis
      by (simp add: WScalar s del: dcArg.simps)
  next
    case (WAggr h ag x)
    have ags: "ags = Some ag # tl ags" using assms(2) by (cases ags) (auto simp: WAggr s)
    have f: "w_aggr_fits vm ag" "unat (ag_size ag) \<le> n"
      and k: "w_keeps (dc_callvm_argAggr_win64 h vm (Some ag) x) FV"
      using assms(2,3) by (simp_all add: WAggr s)
    let ?bs = "heap_read h x (unat (ag_size ag))"
    have p: "dcbArgAggr_win64 h' r' tgt = Some (tgt, heap_write h' tgt ?bs,
        w_view caller target ar (tl ags) FV (dc_callvm_argAggr_win64 h vm (Some ag) x))"
      unfolding r(1) by (subst ags, rule w_pop_aggr [OF inv(1) f(1) k inv(2) r(2)])
    have sp: "w_data FV = w_data vm" "mTotal (w_mVecHead FV) = mTotal (w_mVecHead vm)"
      using w_keeps_space [OF k] by simp_all
    have a: "w_apart FV tgt n" using inv(3) by (simp add: w_apart_def sp)
    have "unat (w_data FV) + unat (mTotal (w_mVecHead FV)) < 2 ^ 64"
      using inv(1) by (simp only: sp) (simp add: w_inv_def)
    then have "w_heap FV (heap_write h' tgt ?bs)" using f(2) by (intro w_heap_write [OF r(2) a]) simp_all
    moreover have "heap_read (heap_write h' tgt ?bs) tgt (unat (ag_size ag)) = ?bs"
      using unsigned_less [of "ag_size ag", where ?'a = nat] by (intro heap_read_write) simp_all
    ultimately show ?thesis by (simp add: WAggr s p)
  qed
qed

interpretation win64: arg_transport_rel "w_push_item (vtab_win64 run run_aggr pad)" "w_item_fits n"
  "w_item_inv ar tgt n" w_item_keeps "w_item_reads caller target ar" "w_pop_item tgt" w_item_ty w_item_val
  for run run_aggr pad n ar tgt caller target
proof unfold_locales
  fix s t u assume "w_item_keeps s t" "w_item_keeps t u"
  then show "w_item_keeps s u" by (cases s; cases t; cases u) (auto intro: w_keeps_trans)
next
  fix s assume "w_item_inv ar tgt n s"
  then show "w_item_keeps s s" by (cases s) (simp add: w_keeps_refl)
qed (simp_all only: w_item_inv_push w_item_keeps_push w_item_pop_push simp_thms)

subsection \<open>Whole calls\<close>

text \<open>The calls of the client; a call that is refused ends them.\<close>

fun dcArg_witems ::
  "(vt_win64 \<Rightarrow> (DCCallVM_win64, u32, u64, win64_kernel) DCCallVM_vt) \<Rightarrow> DCCallVM_win64 \<Rightarrow> win64_item list \<Rightarrow>
   DCCallVM_win64 option" where
  "dcArg_witems V s [] = Some s"
| "dcArg_witems V s (WScalar a # is) = dcArg_witems V (dcArg V s a) is"
| "dcArg_witems V s (WAggr h ag x # is) =
     Option.bind (dcArgAggr V h s (Some ag) x) (\<lambda>s'. dcArg_witems V s' is)"

lemma dcArg_witems_push:
  "dcArg_witems (vtab_win64 run run_aggr pad) s is
    = Some (fst (push_all (w_push_item (vtab_win64 run run_aggr pad)) (s, ags) is))"
proof (induction "is" arbitrary: s ags)
  case (Cons i "is")
  then show ?case by (cases i) (simp_all del: dcArg.simps)
qed simp

lemma w_space_argAggr:
  assumes "w_inv s" and "w_aggr_fits s ag"
  shows "unat (mSize (w_mVecHead (dc_callvm_argAggr_win64 h s (Some ag) x))) + w_off s
    \<le> unat (mSize (w_mVecHead s)) + w_off (dc_callvm_argAggr_win64 h s (Some ag) x) + w_item_cost (WAggr h ag x)"
proof (cases "small_aggr ag")
  case True
  with assms w_size_push [OF assms(1), of "w_aggr_word h ag x"] show ?thesis
    by (simp add: argAggr_win64_small w_aggr_fits_def)
next
  case False
  note f = copy_then_fits(1) [OF assms False] copy_then_fits(2) [OF assms False, of h x]
  note i = copy_aggr_ok [OF assms(1) f(1), of h x]
  from copy_aggr_off(2) [OF assms(1) f(1), of h x] w_size_push [OF i(1) f(2)] False show ?thesis
    by (simp add: argAggr_win64_copy)
qed

lemma w_items_fit:
  assumes "w_inv s" and "ags = w_item_aggrs is @ rest" and "\<forall>i \<in> set is. w_item_size i \<le> n"
    and "unat (mSize (w_mVecHead s)) + sum_list (map w_item_cost is) \<le> w_off s"
  shows "fits_all (w_push_item (vtab_win64 run run_aggr pad)) (w_item_fits n) (s, ags) is"
  using assms
proof (induction "is" arbitrary: s ags)
  case (Cons i "is")
  show ?case
  proof (cases i)
    case (WScalar a)
    from Cons.prems(4) have f: "w_fits s" by (simp add: WScalar w_fits_def)
    let ?s = "dc_callvm_argLongLong_win64 s (w_word pad a)"
    have "unat (mSize (w_mVecHead ?s)) + sum_list (map w_item_cost is) \<le> w_off ?s"
      using Cons.prems(4) w_size_push [OF Cons.prems(1) f, of "w_word pad a"] by (simp add: WScalar)
    from Cons.IH [OF w_inv_push [OF Cons.prems(1) f] _ _ this] Cons.prems(2,3) f show ?thesis
      by (simp add: WScalar w_push_item_simps del: w_push_item.simps)
  next
    case (WAggr h ag x)
    have f: "w_aggr_fits s ag"
      using Cons.prems(4) by (auto simp: WAggr w_aggr_fits_def w_fits_def split: if_splits)
    let ?s = "dc_callvm_argAggr_win64 h s (Some ag) x"
    have "unat (mSize (w_mVecHead ?s)) + sum_list (map w_item_cost is) \<le> w_off ?s"
      using Cons.prems(4) w_space_argAggr [OF Cons.prems(1) f, of h x] by (simp add: WAggr)
    from Cons.IH [OF w_argAggr(1) [OF Cons.prems(1) f] _ _ this] Cons.prems(2,3) f show ?thesis
      by (simp add: WAggr w_push_item_simps del: w_push_item.simps)
  qed
qed simp

lemma mVTpointer_push_items [simp]:
  "mVTpointer (fst (push_all (w_push_item (vtab_win64 run run_aggr pad)) (s, ags) is)) = mVTpointer s"
proof (induction "is" arbitrary: s ags)
  case (Cons i "is")
  then show ?case by (cases i) (simp_all add: w_push_item_simps del: w_push_item.simps)
qed simp

lemma w_off_reset:
  assumes "unat (w_data vm) + unat (mTotal (w_mVecHead vm)) < 2 ^ 64"
  shows "w_off (dc_callvm_reset_win64 vm) = unat (mTotal (w_mVecHead vm))"
  by (simp add: w_off_def dc_callvm_reset_win64_def dcVecReset_def)

text \<open>The register that belongs to the hidden result: the second in a method call, otherwise the first.\<close>

definition hidden_reg :: "DCCallVM_win64 \<Rightarrow> nat" where
  "hidden_reg vm = (if mVTpointer vm = gVT_x64_win64_this then 1 else 0)"

lemma begin_aggr_win64:
  assumes "mVTpointer vm = gVT_x64_win64_this \<or> hidden_result_win64 rag"
  shows "dcBeginCallAggr (vtab_win64 run run_aggr pad) (dcReset (vtab_win64 run run_aggr pad) vm) rag
    = Some ((dc_callvm_reset_win64 vm)\<lparr>w_mAggrReturnReg := int (hidden_reg vm)\<rparr>)"
  using assms
  unfolding dcReset_def vtab_win64_args
  by (cases "mVTpointer vm")
    (simp_all add: dcBeginCallAggr_def vt_win64_c_def vt_win64_this_def dc_callvm_begin_aggr_win64_def
      dc_callvm_begin_aggr_win64_this_def dc_callvm_reset_win64_def hidden_reg_def)

text \<open>C32: On Windows, scalars and structs in any order, with a struct result through a hidden pointer: after \<open>dcReset\<close> and
  \<open>dcBeginCallAggr\<close> (of a function or of a method) every \<open>dcArg\<close> and \<open>dcArgAggr\<close> call succeeds, \<open>dcCallAggr\<close> runs the
  kernel, and a callback of the same signature finds the result buffer of the client in its register, every scalar and,
  through its copy in the vector of the VM where it has one, every byte of every struct. The vector must have eight
  bytes for each argument and 23 more than its size for each copied struct.\<close>

theorem win64_arguments_arrive:
  assumes "unat (mTotal (w_mVecHead vm)) < 2 ^ 63"
    and "unat (w_data vm) + unat (mTotal (w_mVecHead vm)) < 2 ^ 64"
    and "mVTpointer vm = gVT_x64_win64_this \<or> hidden_result_win64 rag"
    and "sum_list (map w_item_cost is) \<le> unat (mTotal (w_mVecHead vm))"
    and "\<forall>i \<in> set is. w_item_size i \<le> n" and "w_apart vm tgt n"
  shows "\<exists>s F G a.
    dcBeginCallAggr (vtab_win64 run run_aggr pad) (dcReset (vtab_win64 run run_aggr pad) vm) rag = Some s \<and>
    dcArg_witems (vtab_win64 run run_aggr pad) s is = Some F \<and>
    dcCallAggr (vtab_win64 run run_aggr pad) h F target rag ret = Some (G, run a h) \<and>
    wr_reg_data_i (dcCallback_x64_win64 (int (hidden_reg vm)) (w_item_aggrs is @ rest) (win64_frame caller a))
      (hidden_reg vm) = ret \<and>
    (\<forall>h'. w_heap G h' \<longrightarrow>
      fst (pop_all (w_pop_item tgt)
        (dcCallback_x64_win64 (int (hidden_reg vm)) (w_item_aggrs is @ rest) (win64_frame caller a), h')
        (map w_item_ty is)) = map w_item_val is)"
proof -
  let ?V = "vtab_win64 run run_aggr pad" and ?ar = "int (hidden_reg vm)"
  let ?s = "(dc_callvm_reset_win64 vm)\<lparr>w_mAggrReturnReg := ?ar\<rparr>" and ?ags = "w_item_aggrs is @ rest"
  let ?P = "push_all (w_push_item ?V) (?s, ?ags) is"
  let ?F = "fst ?P"
  let ?G = "?F\<lparr>w_mRegData := (w_mRegData ?F)(hidden_reg vm := ret)\<rparr>"
  let ?a = "win64_args_of ?G target"
  have ar: "?ar \<in> {0, 1}" by (simp add: hidden_reg_def)
  have off: "w_off ?s = unat (mTotal (w_mVecHead vm))" using w_off_reset [OF assms(2)] by (simp add: w_off_def)
  have z: "w_mRegCount ?s = 0" "mSize (w_mVecHead ?s) = 0" "w_data ?s = w_data vm"
    "mTotal (w_mVecHead ?s) = mTotal (w_mVecHead vm)"
    by (simp_all add: dc_callvm_reset_win64_def dcVecReset_def)
  have wi: "w_inv ?s" unfolding w_inv_def off z using ar assms(1,2) by auto
  have inv: "w_item_inv ?ar tgt n (?s, ?ags)"
    using wi assms(6) z(3,4) by (auto simp: same_hidden_def w_apart_def)
  have fit: "fits_all (w_push_item ?V) (w_item_fits n) (?s, ?ags) is"
    by (rule w_items_fit [OF wi refl assms(5)]) (use assms(4) in \<open>simp only: off z\<close>, simp)
  note iP = win64.rel_inv_push_all [OF inv fit] and kP = win64.rel_keeps_push_all [OF inv fit]
  have wF: "w_inv ?F" using iP by (cases ?P) simp
  have kF: "w_keeps ?s ?F" using kP by (cases ?P) simp
  have m: "w_mAggrReturnReg ?F = ?ar" using kF by (simp add: w_keeps_def)
  have "w_keeps ?F ?G" using w_keeps_refl [OF wF] by (auto simp: w_keeps_def m w_off_def)
  then have kG: "w_item_keeps ?P (?G, [])" by (cases ?P) simp
  have c: "dcCallAggr ?V h ?F target rag ret = Some (?G, run ?a h)"
    unfolding dcCallAggr_def vtab_win64_args
    using m by (simp add: dc_callvm_call_win64_aggr_def Let_def)
  have v: "w_view caller target ?ar ?ags ?G ?s = dcCallback_x64_win64 ?ar ?ags (win64_frame caller ?a)"
    using z by (simp add: w_view_def dcCallback_x64_win64_def)
  have p: "fst (pop_all (w_pop_item tgt) (dcCallback_x64_win64 ?ar ?ags (win64_frame caller ?a), h') (map w_item_ty is))
      = map w_item_val is" if "w_heap ?G h'" for h'
    by (rule win64.rel_read_back [OF inv fit kG, where caller = caller and target = target])
      (simp add: that v)
  have r: "wr_reg_data_i (dcCallback_x64_win64 ?ar ?ags (win64_frame caller ?a)) (hidden_reg vm) = ret"
    by (simp add: dcCallback_x64_win64_def win64_frame_def win64_args_of_def)
  show ?thesis
    using begin_aggr_win64 [OF assms(3)] dcArg_witems_push [of run run_aggr pad ?s "is" ?ags] c r p by blast
qed

definition win64_blank :: "vt_win64 \<Rightarrow> u64 \<Rightarrow> DCCallVM_win64" where
  "win64_blank t n =
     \<lparr>mVTpointer = t, mError = 0, w_mpCallFunc = 0, w_mAggrReturnReg = -1, w_mpAggrVecCopies = 0, w_mRegCount = 0,
      w_mRegData = (\<lambda>_. 0), w_mVecHead = \<lparr>mTotal = n, mSize = 0, mData = (\<lambda>_. 0)\<rparr>, w_data = 4096\<rparr>"

definition win64_three_longs :: DCaggr where
  "win64_three_longs = DCaggr 24 8 [0, 0, 0, 0, 0, 0, 0, 0] [DCfield 0 8 8 3 (CHR ''l'') None]"

definition win64_short :: DCaggr where
  "win64_short = DCaggr 2 2 [0, 0, 0, 0, 0, 0, 0, 0] [DCfield 0 2 2 1 (CHR ''s'') None]"

definition win64_sample :: "win64_item list" where
  "win64_sample =
     [WScalar (AInt 7), WAggr ucast win64_three_longs 32, WScalar (AFloat 1), WAggr ucast win64_short 9, WScalar (AChar 255)]"

lemma win64_arguments_arrive_witness:
  "\<exists>s F G a.
    dcBeginCallAggr (vtab_win64 (\<lambda>_ h. h) (\<lambda>_ h. (h, 0)) 0)
      (dcReset (vtab_win64 (\<lambda>_ h. h) (\<lambda>_ h. (h, 0)) 0) (win64_blank gVT_win64 128)) (Some win64_three_longs) = Some s \<and>
    dcArg_witems (vtab_win64 (\<lambda>_ h. h) (\<lambda>_ h. (h, 0)) 0) s win64_sample = Some F \<and>
    dcCallAggr (vtab_win64 (\<lambda>_ h. h) (\<lambda>_ h. (h, 0)) 0) (\<lambda>_. 0) F 64 (Some win64_three_longs) 512
      = Some (G, (\<lambda>_ h. h) a (\<lambda>_. 0)) \<and>
    wr_reg_data_i (dcCallback_x64_win64 (int (hidden_reg (win64_blank gVT_win64 128)))
      (w_item_aggrs win64_sample @ []) (win64_frame (\<lambda>_. 0) a)) (hidden_reg (win64_blank gVT_win64 128)) = 512 \<and>
    (\<forall>h'. w_heap G h' \<longrightarrow>
      fst (pop_all (w_pop_item 256)
        (dcCallback_x64_win64 (int (hidden_reg (win64_blank gVT_win64 128)))
          (w_item_aggrs win64_sample @ []) (win64_frame (\<lambda>_. 0) a), h')
        (map w_item_ty win64_sample)) = map w_item_val win64_sample)"
  by (rule win64_arguments_arrive [where n = 24])
    (simp_all add: win64_blank_def win64_sample_def win64_three_longs_def win64_short_def small_aggr_def
      hidden_result_win64_def w_apart_def)

end
