(* ===== verification/Dyn_Flat.thy ===== *)
theory Dyn_Flat
  imports Dyn_Transport
begin

unbundle bit_operations_syntax

section \<open>Conventions with one flat argument area\<close>

text \<open>
  On several 32 bit platforms the arguments of a call form one area of words in memory: the writer
  appends each argument to the vector, after skipping a word where the convention
  aligns 64 bit values to eight, and the reader walks over the area with one pointer. The locale
  \<open>flat_transport\<close> states what such a pair consists of; the contract of the argument transport follows
  once for all of them.
\<close>

definition slot_at :: "bool \<Rightarrow> nat \<Rightarrow> nat" where
  "slot_at al p = (if al \<and> odd (p div 4) then p + 4 else p)"

definition vec_slot :: "bool \<Rightarrow> byte list \<Rightarrow> u32 vec \<Rightarrow> u32 vec" where
  "vec_slot al bs v = dcVecAppend (if al then dcVecSkip v (mSize v AND 4) else v) bs"

definition slot_cost :: "bool \<Rightarrow> byte list \<Rightarrow> nat" where
  "slot_cost al bs = length bs + (if al then 4 else 0)"

lemma and_4: "4 dvd unat (n :: u32) \<Longrightarrow> unat (n AND 4) = (if odd (unat n div 4) then 4 else 0)"
proof -
  have "n AND 4 = (if bit n 2 then 4 else 0)"
    by (rule bit_word_eqI) (auto simp: bit_simps bit_numeral_rec less_Suc_eq numeral_eq_Suc)
  moreover have "bit n 2 \<longleftrightarrow> bit (unat n) 2"
    by (simp add: bit_unsigned_iff)
  ultimately show ?thesis by (simp add: bit_iff_odd [of "unat n"])
qed

lemma vec_align4:
  assumes "vec_fits (v :: u32 vec) (n + 4)" and "4 dvd unat (mSize v)"
  defines "w \<equiv> dcVecSkip v (mSize v AND 4)"
  shows "unat (mSize w) = slot_at True (unat (mSize v))" and "vec_fits w n" and "vec_keeps v w"
proof -
  let ?k = "unat (mSize v AND 4)"
  have k: "?k = (if odd (unat (mSize v) div 4) then 4 else 0)" by (rule and_4 [OF assms(2)])
  have f: "vec_fits v ?k" using assms(1) k by (auto intro: vec_fits_mono)
  have e: "of_nat ?k = mSize v AND 4" by simp
  show u: "unat (mSize w) = slot_at True (unat (mSize v))"
    using vec_fits_size [OF f, unfolded e] k by (simp add: w_def dcVecSkip_def slot_at_def)
  show "vec_fits w n" using assms(1) u by (auto simp: vec_fits_def w_def slot_at_def)
  show "vec_keeps v w" using vec_keeps_skip [OF f] by (simp add: w_def e)
qed

lemma vec_slot:
  assumes "vec_fits v (slot_cost al bs)" and "4 dvd unat (mSize v)"
  shows "unat (mSize (vec_slot al bs v)) = slot_at al (unat (mSize v)) + length bs"
    and "vec_keeps v (vec_slot al bs v)" and "vec_ok (vec_slot al bs v)"
    and "vec_keeps (vec_slot al bs v) w \<Longrightarrow> read_at (mData w) (slot_at al (unat (mSize v))) (length bs) = bs"
proof -
  let ?u = "if al then dcVecSkip v (mSize v AND 4) else v"
  have u: "unat (mSize ?u) = slot_at al (unat (mSize v))" "vec_fits ?u (length bs)" "vec_keeps v ?u"
    using vec_align4 [of v "length bs"] assms by (auto simp: slot_cost_def slot_at_def)
  show "unat (mSize (vec_slot al bs v)) = slot_at al (unat (mSize v)) + length bs"
    using u by (simp add: vec_slot_def vec_append_used del: if_split)
  show "vec_keeps v (vec_slot al bs v)"
    using u by (auto simp: vec_slot_def intro: vec_keeps_trans [OF _ vec_keeps_append])
  show "vec_ok (vec_slot al bs v)"
    using vec_ok_append [OF vec_fits_ok [OF u(2)]] by (simp add: vec_slot_def)
  show "read_at (mData w) (slot_at al (unat (mSize v))) (length bs) = bs" if "vec_keeps (vec_slot al bs v) w"
    using read_appended [OF u(2) refl, of w] that u(1) by (simp add: vec_slot_def)
qed

lemma vec_slot_total [simp]: "mTotal (vec_slot al bs v) = mTotal v"
  by (simp add: vec_slot_def)

lemma slot_at_dvd: "4 dvd p \<Longrightarrow> 4 dvd slot_at al p"
  by (simp add: slot_at_def)

lemma slot_at_ge: "p \<le> slot_at al p"
  by (simp add: slot_at_def)

lemma slot_at_le: "slot_at al p \<le> p + (if al then 4 else 0)"
  by (simp add: slot_at_def)

text \<open>The components of the contract, over the vector of a VM.\<close>

definition flat_ok :: "u32 vec \<Rightarrow> bool" where
  "flat_ok v \<longleftrightarrow> vec_ok v \<and> unat (mTotal v) < 2 ^ 31"

definition flat_inv :: "('s \<Rightarrow> u32 vec) \<Rightarrow> ('s \<Rightarrow> bool) \<Rightarrow> nat \<Rightarrow> 's \<Rightarrow> bool" where
  "flat_inv vec good base s \<longleftrightarrow>
     good s \<and> flat_ok (vec s) \<and> 4 dvd unat (mSize (vec s)) \<and> base \<le> unat (mSize (vec s))"

definition flat_keeps :: "('s \<Rightarrow> u32 vec) \<Rightarrow> 's \<Rightarrow> 's \<Rightarrow> bool" where
  "flat_keeps vec s t \<longleftrightarrow> vec_keeps (vec s) (vec t) \<and> flat_ok (vec t)"

locale flat_transport =
  fixes push :: "'s \<Rightarrow> 'a \<Rightarrow> 's"
    and vec :: "'s \<Rightarrow> u32 vec"
    and good :: "'s \<Rightarrow> bool"
    and aligned :: "'a \<Rightarrow> bool"
    and bytes :: "'a \<Rightarrow> byte list"
    and at :: "'s \<Rightarrow> nat \<Rightarrow> 'r"
    and pop :: "'r \<Rightarrow> 't \<Rightarrow> 'v \<times> 'r"
    and ty :: "'a \<Rightarrow> 't"
    and val :: "'a \<Rightarrow> 'v"
    and base :: nat
  assumes vec_push: "good s \<Longrightarrow> vec (push s a) = vec_slot (aligned a) (bytes a) (vec s)"
    and good_push: "good s \<Longrightarrow> good (push s a)"
    and whole_words: "4 dvd length (bytes a)"
    and pop_at:
      "flat_ok (vec F) \<Longrightarrow> 4 dvd p \<Longrightarrow> base \<le> p \<Longrightarrow> q = slot_at (aligned a) p \<Longrightarrow>
       q + length (bytes a) \<le> unat (mSize (vec F)) \<Longrightarrow>
       read_at (mData (vec F)) q (length (bytes a)) = bytes a \<Longrightarrow>
       pop (at F p) (ty a) = (val a, at F (q + length (bytes a)))"

sublocale flat_transport \<subseteq> flat: arg_transport_cap push
  "\<lambda>s a. vec_fits (vec s) (slot_cost (aligned a) (bytes a))" "flat_inv vec good base" "flat_keeps vec"
  "\<lambda>F s. at F (unat (mSize (vec s)))" pop ty val
  "\<lambda>s. unat (mSize (vec s))" "\<lambda>s. unat (mTotal (vec s))" "\<lambda>a. slot_cost (aligned a) (bytes a)"
proof unfold_locales
  fix s a F
  assume inv: "flat_inv vec good base s"
  then have d: "4 dvd unat (mSize (vec s))" and b: "base \<le> unat (mSize (vec s))" and g: "good s" by (simp_all add: flat_inv_def)
  show "flat_keeps vec s s" using inv by (simp add: flat_inv_def flat_keeps_def)
  show "unat (mSize (vec s)) + slot_cost (aligned a) (bytes a) \<le> unat (mTotal (vec s)) \<Longrightarrow>
      vec_fits (vec s) (slot_cost (aligned a) (bytes a))"
    by (simp add: vec_fits_def)
  assume fit: "vec_fits (vec s) (slot_cost (aligned a) (bytes a))"
  note slot = vec_slot [OF fit d]
  show inv': "flat_inv vec good base (push s a)"
    using inv g whole_words [of a] slot slot_at_dvd [OF d] slot_at_ge [of "unat (mSize (vec s))" "aligned a"]
    by (simp add: flat_inv_def flat_ok_def vec_push good_push)
  show "flat_keeps vec s (push s a)"
    using inv' g slot by (simp add: flat_keeps_def vec_push flat_inv_def)
  show "unat (mSize (vec (push s a))) \<le> unat (mSize (vec s)) + slot_cost (aligned a) (bytes a)"
    using g slot(1) slot_at_le [of "aligned a" "unat (mSize (vec s))"] by (simp add: vec_push slot_cost_def)
  show "unat (mTotal (vec (push s a))) = unat (mTotal (vec s))"
    using g by (simp add: vec_push)
  assume "flat_keeps vec (push s a) F"
  then have k: "vec_keeps (vec_slot (aligned a) (bytes a) (vec s)) (vec F)" and ok: "flat_ok (vec F)"
    using g by (simp_all add: flat_keeps_def vec_push)
  from k slot(1) have "slot_at (aligned a) (unat (mSize (vec s))) + length (bytes a) \<le> unat (mSize (vec F))"
    by (simp add: vec_keeps_def)
  from pop_at [OF ok d b refl this slot(4) [OF k]] g slot(1)
  show "pop (at F (unat (mSize (vec s)))) (ty a) = (val a, at F (unat (mSize (vec (push s a)))))"
    by (simp add: vec_push)
next
  fix s t u
  show "flat_keeps vec s t \<Longrightarrow> flat_keeps vec t u \<Longrightarrow> flat_keeps vec s u"
    by (auto simp: flat_keeps_def intro: vec_keeps_trans)
qed

context flat_transport
begin

text \<open>The words below \<open>base\<close> are not for this reader.\<close>

lemma flat_round_trip_from:
  assumes "good s" and "flat_ok (vec s)" and "unat (mSize (vec s)) = base" and "4 dvd base"
    and "base + (\<Sum>a\<leftarrow>as. slot_cost (aligned a) (bytes a)) \<le> unat (mTotal (vec s))"
  shows "fst (pop_all pop (at (push_all push s as) base) (map ty as)) = map val as"
proof (rule flat.call_round_trip)
  show "flat_inv vec good base s" using assms by (simp add: flat_inv_def)
qed (use assms in simp_all)

lemma flat_round_trip:
  assumes "good s" and "base = 0" and "mSize (vec s) = 0" and "unat (mTotal (vec s)) < 2 ^ 31"
    and "(\<Sum>a\<leftarrow>as. slot_cost (aligned a) (bytes a)) \<le> unat (mTotal (vec s))"
  shows "fst (pop_all pop (at (push_all push s as) 0) (map ty as)) = map val as"
  using flat_round_trip_from [of s as] assms by (simp add: flat_ok_def vec_ok_def)

end

text \<open>The arguments a 32 bit platform passes as two words.\<close>

fun is_wide :: "('l, 'p) dcarg \<Rightarrow> bool" where
  "is_wide (ALongLong _) = True"
| "is_wide (ADouble _) = True"
| "is_wide _ = False"

text \<open>Most readers give a \<open>DCbool\<close> as 0 or 1.\<close>

fun bool01 :: "('l, 'p) dcarg \<Rightarrow> ('l, 'p) dcarg" where
  "bool01 (ABool b) = ABool (if b = 0 then 0 else 1)"
| "bool01 a = a"

text \<open>What an argument looks like in the area: integers extended to a word, all in the byte order \<open>e\<close>;
  \<open>cs\<close> says whether a plain \<open>char\<close> is signed.\<close>

fun flat_bytes :: "bool \<Rightarrow> endian \<Rightarrow> (u32, u32) dcarg \<Rightarrow> byte list" where
  "flat_bytes cs e (ABool x) = obj_bytes e 4 x"
| "flat_bytes cs e (AChar x) = obj_bytes e 4 (if cs then scast x else ucast x :: u32)"
| "flat_bytes cs e (AShort x) = obj_bytes e 4 (scast x :: u32)"
| "flat_bytes cs e (AInt x) = obj_bytes e 4 x"
| "flat_bytes cs e (ALong x) = obj_bytes e 4 x"
| "flat_bytes cs e (ALongLong x) = obj_bytes e 8 x"
| "flat_bytes cs e (AFloat x) = obj_bytes e 4 x"
| "flat_bytes cs e (ADouble x) = obj_bytes e 8 x"
| "flat_bytes cs e (APointer x) = obj_bytes e 4 x"

lemma length_flat_bytes: "length (flat_bytes cs e a) = (if is_wide a then 8 else 4)"
  by (cases a) simp_all

definition word_cost :: "bool \<Rightarrow> ('l, 'p) dcarg \<Rightarrow> nat" where
  "word_cost al a = (if is_wide a then if al then 12 else 8 else 4)"

lemma slot_cost_flat: "slot_cost (al \<and> is_wide a) (flat_bytes cs e a) = word_cost al a"
  by (simp add: slot_cost_def length_flat_bytes word_cost_def)

lemma obj_word_of_bytes:
  "bs = obj_bytes e n x \<Longrightarrow> LENGTH('a) \<le> 8 * n \<Longrightarrow> obj_word e bs = (x :: 'a::len word)"
  by (simp add: obj_word_obj_bytes)

text \<open>Reading a 64 bit value as two words.\<close>

lemma read_halves:
  assumes "read_at m q 8 = obj_bytes e 8 x"
  shows "obj_word e (read_at m q 4) = (case e of LE \<Rightarrow> lo_word x | BE \<Rightarrow> hi_word x)"
    and "obj_word e (read_at m (q + 4) 4) = (case e of LE \<Rightarrow> hi_word x | BE \<Rightarrow> lo_word x)"
  using read_at_part [of 0 4 8 m q] read_at_part [of 4 4 8 m q]
  by (cases e; simp add: assms obj_bytes_halves obj_word_obj_bytes)+

end
