(* ===== verification/Vm_X86.thy ===== *)
theory Vm_X86
  imports Dyn_Flat
begin

unbundle bit_operations_syntax

section \<open>x86 (32 bit): call VM\<close>

text \<open>
  \<open>dyncall/dyncall/dyncall_callvm_x86.{h,c}\<close>: one VM structure with a table for each of the calling
  conventions. Most conventions push all arguments on the stack and differ in the kernel; the two
  fastcalls keep the first two words in the first eight bytes of the vector, which their
  kernel loads into ECX and EDX. The build decides which tables exist and which mode selects
  which: \<open>plan9\<close> is \<open>DC_PLAN9\<close>, \<open>ms\<close> is \<open>DC__C_MSVC\<close> or \<open>DC__RT_MSVCRT\<close>, \<open>os\<close> the kind of system for the
  default system call.
\<close>

datatype vt_x86 =
    gVT_x86_plan9 | gVT_x86_cdecl | gVT_x86_win32_std | gVT_x86_win32_fast_ms | gVT_x86_win32_fast_gnu
  | gVT_x86_win32_this_ms | gVT_x86_syscall_int80h_linux | gVT_x86_syscall_int80h_bsd

datatype x86_os = OsLinux | OsUnix | OsOther

record DCCallVM_x86 = "vt_x86 DCCallVM" +
  x86_mpCallFunc :: u32
  x86_mIntRegs :: nat
  x86_vec :: "u32 vec"

record x86_call =
  x86c_target :: u32
  x86c_stackdata :: mem
  x86c_size :: u32

text \<open>The kernels.\<close>

datatype x86_kernel =
    dcCall_x86_plan9 x86_call | dcCall_x86_plan9_ll x86_call
  | dcCall_x86_cdecl x86_call | dcCall_x86_win32_std x86_call | dcCall_x86_win32_fast x86_call
  | dcCall_x86_win32_msthis x86_call | dcCall_x86_syscall_int80h_linux x86_call
  | dcCall_x86_syscall_int80h_bsd x86_call

definition x86_call_of :: "DCCallVM_x86 \<Rightarrow> u32 \<Rightarrow> x86_call" where
  "x86_call_of self target =
     \<lparr>x86c_target = target, x86c_stackdata = mData (x86_vec self), x86c_size = mSize (x86_vec self)\<rparr>"

subsection \<open>Operations of the stack conventions\<close>

definition dc_callvm_free_x86 :: "DCCallVM_x86 \<Rightarrow> DCCallVM_x86 handle" where
  "dc_callvm_free_x86 self = Freed"

definition dc_callvm_reset_x86 :: "DCCallVM_x86 \<Rightarrow> DCCallVM_x86" where
  "dc_callvm_reset_x86 self = self\<lparr>x86_vec := dcVecReset (x86_vec self), x86_mIntRegs := 0\<rparr>"

definition dc_callvm_argInt_x86 :: "DCCallVM_x86 \<Rightarrow> u32 \<Rightarrow> DCCallVM_x86" where
  "dc_callvm_argInt_x86 self x = self\<lparr>x86_vec := dcVecAppend (x86_vec self) (obj_bytes LE 4 x)\<rparr>"

definition dc_callvm_argBool_x86 :: "DCCallVM_x86 \<Rightarrow> u32 \<Rightarrow> DCCallVM_x86" where
  "dc_callvm_argBool_x86 self x = dc_callvm_argInt_x86 self x"

definition dc_callvm_argChar_x86 :: "DCCallVM_x86 \<Rightarrow> u8 \<Rightarrow> DCCallVM_x86" where
  "dc_callvm_argChar_x86 self x = dc_callvm_argInt_x86 self (scast x)"

definition dc_callvm_argShort_x86 :: "DCCallVM_x86 \<Rightarrow> u16 \<Rightarrow> DCCallVM_x86" where
  "dc_callvm_argShort_x86 self x = dc_callvm_argInt_x86 self (scast x)"

definition dc_callvm_argLong_x86 :: "DCCallVM_x86 \<Rightarrow> u32 \<Rightarrow> DCCallVM_x86" where
  "dc_callvm_argLong_x86 self x = dc_callvm_argInt_x86 self x"

definition dc_callvm_argLongLong_x86 :: "DCCallVM_x86 \<Rightarrow> u64 \<Rightarrow> DCCallVM_x86" where
  "dc_callvm_argLongLong_x86 self x = self\<lparr>x86_vec := dcVecAppend (x86_vec self) (obj_bytes LE 8 x)\<rparr>"

definition dc_callvm_argFloat_x86 :: "DCCallVM_x86 \<Rightarrow> u32 \<Rightarrow> DCCallVM_x86" where
  "dc_callvm_argFloat_x86 self x = self\<lparr>x86_vec := dcVecAppend (x86_vec self) (obj_bytes LE 4 x)\<rparr>"

definition dc_callvm_argDouble_x86 :: "DCCallVM_x86 \<Rightarrow> u64 \<Rightarrow> DCCallVM_x86" where
  "dc_callvm_argDouble_x86 self x = self\<lparr>x86_vec := dcVecAppend (x86_vec self) (obj_bytes LE 8 x)\<rparr>"

definition dc_callvm_argPointer_x86 :: "DCCallVM_x86 \<Rightarrow> u32 \<Rightarrow> DCCallVM_x86" where
  "dc_callvm_argPointer_x86 self x = self\<lparr>x86_vec := dcVecAppend (x86_vec self) (obj_bytes LE 4 x)\<rparr>"

subsection \<open>Calls of the stack conventions\<close>

definition dc_callvm_call_x86_plan9 :: "DCCallVM_x86 \<Rightarrow> u32 \<Rightarrow> DCCallVM_x86 \<times> x86_kernel" where
  "dc_callvm_call_x86_plan9 self target = (self, dcCall_x86_plan9 (x86_call_of self target))"

definition dc_callvm_call_x86_plan9_ll :: "DCCallVM_x86 \<Rightarrow> u32 \<Rightarrow> DCCallVM_x86 \<times> x86_kernel" where
  "dc_callvm_call_x86_plan9_ll self target = (self, dcCall_x86_plan9_ll (x86_call_of self target))"

definition dc_callvm_call_x86_cdecl :: "DCCallVM_x86 \<Rightarrow> u32 \<Rightarrow> DCCallVM_x86 \<times> x86_kernel" where
  "dc_callvm_call_x86_cdecl self target = (self, dcCall_x86_cdecl (x86_call_of self target))"

definition dc_callvm_call_x86_win32_std :: "DCCallVM_x86 \<Rightarrow> u32 \<Rightarrow> DCCallVM_x86 \<times> x86_kernel" where
  "dc_callvm_call_x86_win32_std self target = (self, dcCall_x86_win32_std (x86_call_of self target))"

definition dc_callvm_call_x86_win32_this_ms :: "DCCallVM_x86 \<Rightarrow> u32 \<Rightarrow> DCCallVM_x86 \<times> x86_kernel" where
  "dc_callvm_call_x86_win32_this_ms self target = (self, dcCall_x86_win32_msthis (x86_call_of self target))"

definition dc_callvm_call_x86_syscall_int80h_linux :: "DCCallVM_x86 \<Rightarrow> u32 \<Rightarrow> DCCallVM_x86 \<times> x86_kernel" where
  "dc_callvm_call_x86_syscall_int80h_linux self target = (self, dcCall_x86_syscall_int80h_linux (x86_call_of self target))"

definition dc_callvm_call_x86_syscall_int80h_bsd :: "DCCallVM_x86 \<Rightarrow> u32 \<Rightarrow> DCCallVM_x86 \<times> x86_kernel" where
  "dc_callvm_call_x86_syscall_int80h_bsd self target = (self, dcCall_x86_syscall_int80h_bsd (x86_call_of self target))"

subsection \<open>Fastcalls\<close>

definition dc_callvm_call_x86_win32_fast :: "DCCallVM_x86 \<Rightarrow> u32 \<Rightarrow> DCCallVM_x86 \<times> x86_kernel" where
  "dc_callvm_call_x86_win32_fast self target = (self, dcCall_x86_win32_fast (x86_call_of self target))"

text \<open>The first eight bytes of the vector hold ECX and EDX.\<close>

definition dc_callvm_reset_x86_win32_fast :: "DCCallVM_x86 \<Rightarrow> DCCallVM_x86" where
  "dc_callvm_reset_x86_win32_fast self = self\<lparr>x86_vec := dcVecResize (x86_vec self) 8, x86_mIntRegs := 0\<rparr>"

definition dc_callvm_argInt_x86_win32_fast_ms :: "DCCallVM_x86 \<Rightarrow> u32 \<Rightarrow> DCCallVM_x86" where
  "dc_callvm_argInt_x86_win32_fast_ms self x =
     (if x86_mIntRegs self < 2
      then self\<lparr>x86_vec := dcVecAt_store (x86_vec self) (4 * x86_mIntRegs self) (obj_bytes LE 4 x),
                x86_mIntRegs := x86_mIntRegs self + 1\<rparr>
      else self\<lparr>x86_vec := dcVecAppend (x86_vec self) (obj_bytes LE 4 x)\<rparr>)"

definition dc_callvm_argBool_x86_win32_fast_ms :: "DCCallVM_x86 \<Rightarrow> u32 \<Rightarrow> DCCallVM_x86" where
  "dc_callvm_argBool_x86_win32_fast_ms self x = dc_callvm_argInt_x86_win32_fast_ms self x"

definition dc_callvm_argChar_x86_win32_fast_ms :: "DCCallVM_x86 \<Rightarrow> u8 \<Rightarrow> DCCallVM_x86" where
  "dc_callvm_argChar_x86_win32_fast_ms self x = dc_callvm_argInt_x86_win32_fast_ms self (scast x)"

definition dc_callvm_argShort_x86_win32_fast_ms :: "DCCallVM_x86 \<Rightarrow> u16 \<Rightarrow> DCCallVM_x86" where
  "dc_callvm_argShort_x86_win32_fast_ms self x = dc_callvm_argInt_x86_win32_fast_ms self (scast x)"

definition dc_callvm_argLong_x86_win32_fast_ms :: "DCCallVM_x86 \<Rightarrow> u32 \<Rightarrow> DCCallVM_x86" where
  "dc_callvm_argLong_x86_win32_fast_ms self x = dc_callvm_argInt_x86_win32_fast_ms self x"

definition dc_callvm_argPointer_x86_win32_fast_ms :: "DCCallVM_x86 \<Rightarrow> u32 \<Rightarrow> DCCallVM_x86" where
  "dc_callvm_argPointer_x86_win32_fast_ms self x = dc_callvm_argInt_x86_win32_fast_ms self x"

definition dc_callvm_argInt_x86_win32_fast_gnu :: "DCCallVM_x86 \<Rightarrow> u32 \<Rightarrow> DCCallVM_x86" where
  "dc_callvm_argInt_x86_win32_fast_gnu self x =
     (if x86_mIntRegs self < 2
      then self\<lparr>x86_vec := dcVecAt_store (x86_vec self) (4 * x86_mIntRegs self) (obj_bytes LE 4 x),
                x86_mIntRegs := x86_mIntRegs self + 1\<rparr>
      else self\<lparr>x86_vec := dcVecAppend (x86_vec self) (obj_bytes LE 4 x)\<rparr>)"

definition dc_callvm_argBool_x86_win32_fast_gnu :: "DCCallVM_x86 \<Rightarrow> u32 \<Rightarrow> DCCallVM_x86" where
  "dc_callvm_argBool_x86_win32_fast_gnu self x = dc_callvm_argInt_x86_win32_fast_gnu self x"

definition dc_callvm_argChar_x86_win32_fast_gnu :: "DCCallVM_x86 \<Rightarrow> u8 \<Rightarrow> DCCallVM_x86" where
  "dc_callvm_argChar_x86_win32_fast_gnu self x = dc_callvm_argInt_x86_win32_fast_gnu self (scast x)"

definition dc_callvm_argShort_x86_win32_fast_gnu :: "DCCallVM_x86 \<Rightarrow> u16 \<Rightarrow> DCCallVM_x86" where
  "dc_callvm_argShort_x86_win32_fast_gnu self x = dc_callvm_argInt_x86_win32_fast_gnu self (scast x)"

definition dc_callvm_argLong_x86_win32_fast_gnu :: "DCCallVM_x86 \<Rightarrow> u32 \<Rightarrow> DCCallVM_x86" where
  "dc_callvm_argLong_x86_win32_fast_gnu self x = dc_callvm_argInt_x86_win32_fast_gnu self x"

definition dc_callvm_argPointer_x86_win32_fast_gnu :: "DCCallVM_x86 \<Rightarrow> u32 \<Rightarrow> DCCallVM_x86" where
  "dc_callvm_argPointer_x86_win32_fast_gnu self x = dc_callvm_argInt_x86_win32_fast_gnu self x"

text \<open>A \<open>long long\<close> skips the registers.\<close>

definition dc_callvm_argLongLong_x86_win32_fast_gnu :: "DCCallVM_x86 \<Rightarrow> u64 \<Rightarrow> DCCallVM_x86" where
  "dc_callvm_argLongLong_x86_win32_fast_gnu self x = dc_callvm_argLongLong_x86 (self\<lparr>x86_mIntRegs := 2\<rparr>) x"

subsection \<open>Modes, tables and creation\<close>

definition dc_callvm_mode_x86 :: "bool \<Rightarrow> bool \<Rightarrow> x86_os \<Rightarrow> DCCallVM_x86 \<Rightarrow> u32 \<Rightarrow> DCCallVM_x86" where
  "dc_callvm_mode_x86 plan9 ms os self mode =
     (let select = dc_callvm_base_init self; unsupported = self\<lparr>mError := DC_ERROR_UNSUPPORTED_MODE\<rparr>;
          default = (mode \<in> {DC_CALL_C_DEFAULT, DC_CALL_C_ELLIPSIS, DC_CALL_C_ELLIPSIS_VARARGS} \<or>
                     \<not> ms \<and> mode = DC_CALL_C_DEFAULT_THIS)
      in if plan9 then
           (if default \<or> mode = DC_CALL_C_X86_PLAN9 then select gVT_x86_plan9 else unsupported)
         else if default \<or> mode = DC_CALL_C_X86_CDECL then select gVT_x86_cdecl
         else if mode = DC_CALL_C_X86_WIN32_STD then select gVT_x86_win32_std
         else if mode = DC_CALL_C_X86_WIN32_FAST_MS then select gVT_x86_win32_fast_ms
         else if ms \<and> mode = DC_CALL_C_DEFAULT_THIS \<or> mode = DC_CALL_C_X86_WIN32_THIS_MS
              then select gVT_x86_win32_this_ms
         else if mode = DC_CALL_C_X86_WIN32_FAST_GNU then select gVT_x86_win32_fast_gnu
         else if mode = DC_CALL_SYS_DEFAULT then
           (case os of OsLinux \<Rightarrow> select gVT_x86_syscall_int80h_linux
             | OsUnix \<Rightarrow> select gVT_x86_syscall_int80h_bsd | OsOther \<Rightarrow> unsupported)
         else if mode = DC_CALL_SYS_X86_INT80H_LINUX then select gVT_x86_syscall_int80h_linux
         else if mode = DC_CALL_SYS_X86_INT80H_BSD then select gVT_x86_syscall_int80h_bsd
         else unsupported)"

definition vt_x86_plan9 ::
  "bool \<Rightarrow> bool \<Rightarrow> x86_os \<Rightarrow> (DCCallVM_x86, u32, u32, x86_kernel) DCCallVM_vt" where
  "vt_x86_plan9 plan9 ms os =
     \<lparr>vt_free = dc_callvm_free_x86, vt_reset = dc_callvm_reset_x86, vt_mode = dc_callvm_mode_x86 plan9 ms os,
      vt_argBool = dc_callvm_argBool_x86, vt_argChar = dc_callvm_argChar_x86,
      vt_argShort = dc_callvm_argShort_x86, vt_argInt = dc_callvm_argInt_x86,
      vt_argLong = dc_callvm_argLong_x86, vt_argLongLong = dc_callvm_argLongLong_x86,
      vt_argFloat = dc_callvm_argFloat_x86, vt_argDouble = dc_callvm_argDouble_x86,
      vt_argPointer = dc_callvm_argPointer_x86, vt_argAggr = None,
      vt_call = (\<lambda>c. if c = callLongLong then dc_callvm_call_x86_plan9_ll else dc_callvm_call_x86_plan9), vt_callAggr = None, vt_beginAggr = None\<rparr>"

definition vt_x86_cdecl ::
  "bool \<Rightarrow> bool \<Rightarrow> x86_os \<Rightarrow> (DCCallVM_x86, u32, u32, x86_kernel) DCCallVM_vt" where
  "vt_x86_cdecl plan9 ms os =
     \<lparr>vt_free = dc_callvm_free_x86, vt_reset = dc_callvm_reset_x86, vt_mode = dc_callvm_mode_x86 plan9 ms os,
      vt_argBool = dc_callvm_argBool_x86, vt_argChar = dc_callvm_argChar_x86,
      vt_argShort = dc_callvm_argShort_x86, vt_argInt = dc_callvm_argInt_x86,
      vt_argLong = dc_callvm_argLong_x86, vt_argLongLong = dc_callvm_argLongLong_x86,
      vt_argFloat = dc_callvm_argFloat_x86, vt_argDouble = dc_callvm_argDouble_x86,
      vt_argPointer = dc_callvm_argPointer_x86, vt_argAggr = None,
      vt_call = (\<lambda>_. dc_callvm_call_x86_cdecl), vt_callAggr = None, vt_beginAggr = None\<rparr>"

definition vt_x86_win32_std ::
  "bool \<Rightarrow> bool \<Rightarrow> x86_os \<Rightarrow> (DCCallVM_x86, u32, u32, x86_kernel) DCCallVM_vt" where
  "vt_x86_win32_std plan9 ms os =
     \<lparr>vt_free = dc_callvm_free_x86, vt_reset = dc_callvm_reset_x86, vt_mode = dc_callvm_mode_x86 plan9 ms os,
      vt_argBool = dc_callvm_argBool_x86, vt_argChar = dc_callvm_argChar_x86,
      vt_argShort = dc_callvm_argShort_x86, vt_argInt = dc_callvm_argInt_x86,
      vt_argLong = dc_callvm_argLong_x86, vt_argLongLong = dc_callvm_argLongLong_x86,
      vt_argFloat = dc_callvm_argFloat_x86, vt_argDouble = dc_callvm_argDouble_x86,
      vt_argPointer = dc_callvm_argPointer_x86, vt_argAggr = None,
      vt_call = (\<lambda>_. dc_callvm_call_x86_win32_std), vt_callAggr = None, vt_beginAggr = None\<rparr>"

definition vt_x86_win32_fast_ms ::
  "bool \<Rightarrow> bool \<Rightarrow> x86_os \<Rightarrow> (DCCallVM_x86, u32, u32, x86_kernel) DCCallVM_vt" where
  "vt_x86_win32_fast_ms plan9 ms os =
     \<lparr>vt_free = dc_callvm_free_x86, vt_reset = dc_callvm_reset_x86_win32_fast, vt_mode = dc_callvm_mode_x86 plan9 ms os,
      vt_argBool = dc_callvm_argBool_x86_win32_fast_ms, vt_argChar = dc_callvm_argChar_x86_win32_fast_ms,
      vt_argShort = dc_callvm_argShort_x86_win32_fast_ms, vt_argInt = dc_callvm_argInt_x86_win32_fast_ms,
      vt_argLong = dc_callvm_argLong_x86_win32_fast_ms, vt_argLongLong = dc_callvm_argLongLong_x86,
      vt_argFloat = dc_callvm_argFloat_x86, vt_argDouble = dc_callvm_argDouble_x86,
      vt_argPointer = dc_callvm_argPointer_x86_win32_fast_ms, vt_argAggr = None,
      vt_call = (\<lambda>_. dc_callvm_call_x86_win32_fast), vt_callAggr = None, vt_beginAggr = None\<rparr>"

definition vt_x86_win32_fast_gnu ::
  "bool \<Rightarrow> bool \<Rightarrow> x86_os \<Rightarrow> (DCCallVM_x86, u32, u32, x86_kernel) DCCallVM_vt" where
  "vt_x86_win32_fast_gnu plan9 ms os =
     \<lparr>vt_free = dc_callvm_free_x86, vt_reset = dc_callvm_reset_x86_win32_fast, vt_mode = dc_callvm_mode_x86 plan9 ms os,
      vt_argBool = dc_callvm_argBool_x86_win32_fast_gnu, vt_argChar = dc_callvm_argChar_x86_win32_fast_gnu,
      vt_argShort = dc_callvm_argShort_x86_win32_fast_gnu, vt_argInt = dc_callvm_argInt_x86_win32_fast_gnu,
      vt_argLong = dc_callvm_argLong_x86_win32_fast_gnu, vt_argLongLong = dc_callvm_argLongLong_x86_win32_fast_gnu,
      vt_argFloat = dc_callvm_argFloat_x86, vt_argDouble = dc_callvm_argDouble_x86,
      vt_argPointer = dc_callvm_argPointer_x86_win32_fast_gnu, vt_argAggr = None,
      vt_call = (\<lambda>_. dc_callvm_call_x86_win32_fast), vt_callAggr = None, vt_beginAggr = None\<rparr>"

definition vt_x86_win32_this_ms ::
  "bool \<Rightarrow> bool \<Rightarrow> x86_os \<Rightarrow> (DCCallVM_x86, u32, u32, x86_kernel) DCCallVM_vt" where
  "vt_x86_win32_this_ms plan9 ms os =
     \<lparr>vt_free = dc_callvm_free_x86, vt_reset = dc_callvm_reset_x86, vt_mode = dc_callvm_mode_x86 plan9 ms os,
      vt_argBool = dc_callvm_argBool_x86, vt_argChar = dc_callvm_argChar_x86,
      vt_argShort = dc_callvm_argShort_x86, vt_argInt = dc_callvm_argInt_x86,
      vt_argLong = dc_callvm_argLong_x86, vt_argLongLong = dc_callvm_argLongLong_x86,
      vt_argFloat = dc_callvm_argFloat_x86, vt_argDouble = dc_callvm_argDouble_x86,
      vt_argPointer = dc_callvm_argPointer_x86, vt_argAggr = None,
      vt_call = (\<lambda>_. dc_callvm_call_x86_win32_this_ms), vt_callAggr = None, vt_beginAggr = None\<rparr>"

definition vt_x86_syscall_int80h_linux ::
  "bool \<Rightarrow> bool \<Rightarrow> x86_os \<Rightarrow> (DCCallVM_x86, u32, u32, x86_kernel) DCCallVM_vt" where
  "vt_x86_syscall_int80h_linux plan9 ms os =
     \<lparr>vt_free = dc_callvm_free_x86, vt_reset = dc_callvm_reset_x86, vt_mode = dc_callvm_mode_x86 plan9 ms os,
      vt_argBool = dc_callvm_argBool_x86, vt_argChar = dc_callvm_argChar_x86,
      vt_argShort = dc_callvm_argShort_x86, vt_argInt = dc_callvm_argInt_x86,
      vt_argLong = dc_callvm_argLong_x86, vt_argLongLong = dc_callvm_argLongLong_x86,
      vt_argFloat = dc_callvm_argFloat_x86, vt_argDouble = dc_callvm_argDouble_x86,
      vt_argPointer = dc_callvm_argPointer_x86, vt_argAggr = None,
      vt_call = (\<lambda>_. dc_callvm_call_x86_syscall_int80h_linux), vt_callAggr = None, vt_beginAggr = None\<rparr>"

definition vt_x86_syscall_int80h_bsd ::
  "bool \<Rightarrow> bool \<Rightarrow> x86_os \<Rightarrow> (DCCallVM_x86, u32, u32, x86_kernel) DCCallVM_vt" where
  "vt_x86_syscall_int80h_bsd plan9 ms os =
     \<lparr>vt_free = dc_callvm_free_x86, vt_reset = dc_callvm_reset_x86, vt_mode = dc_callvm_mode_x86 plan9 ms os,
      vt_argBool = dc_callvm_argBool_x86, vt_argChar = dc_callvm_argChar_x86,
      vt_argShort = dc_callvm_argShort_x86, vt_argInt = dc_callvm_argInt_x86,
      vt_argLong = dc_callvm_argLong_x86, vt_argLongLong = dc_callvm_argLongLong_x86,
      vt_argFloat = dc_callvm_argFloat_x86, vt_argDouble = dc_callvm_argDouble_x86,
      vt_argPointer = dc_callvm_argPointer_x86, vt_argAggr = None,
      vt_call = (\<lambda>_. dc_callvm_call_x86_syscall_int80h_bsd), vt_callAggr = None, vt_beginAggr = None\<rparr>"

fun vtab_x86 ::
  "bool \<Rightarrow> bool \<Rightarrow> x86_os \<Rightarrow> vt_x86 \<Rightarrow> (DCCallVM_x86, u32, u32, x86_kernel) DCCallVM_vt" where
  "vtab_x86 p m s gVT_x86_plan9 = vt_x86_plan9 p m s"
| "vtab_x86 p m s gVT_x86_cdecl = vt_x86_cdecl p m s"
| "vtab_x86 p m s gVT_x86_win32_std = vt_x86_win32_std p m s"
| "vtab_x86 p m s gVT_x86_win32_fast_ms = vt_x86_win32_fast_ms p m s"
| "vtab_x86 p m s gVT_x86_win32_fast_gnu = vt_x86_win32_fast_gnu p m s"
| "vtab_x86 p m s gVT_x86_win32_this_ms = vt_x86_win32_this_ms p m s"
| "vtab_x86 p m s gVT_x86_syscall_int80h_linux = vt_x86_syscall_int80h_linux p m s"
| "vtab_x86 p m s gVT_x86_syscall_int80h_bsd = vt_x86_syscall_int80h_bsd p m s"

text \<open>\<open>dcNewCallVM\<close> on memory with the contents \<open>p\<close>.\<close>

definition dcNewCallVM_x86 :: "bool \<Rightarrow> bool \<Rightarrow> x86_os \<Rightarrow> DCCallVM_x86 \<Rightarrow> u32 \<Rightarrow> DCCallVM_x86" where
  "dcNewCallVM_x86 plan9 ms os p sz =
     (let p = dc_callvm_mode_x86 plan9 ms os p DC_CALL_C_DEFAULT
      in dc_callvm_reset_x86 (p\<lparr>x86_vec := dcVecInit (x86_vec p) sz\<rparr>))"

subsection \<open>The operations in one form\<close>

definition x86_fast :: "vt_x86 \<Rightarrow> bool" where
  "x86_fast i \<longleftrightarrow> i = gVT_x86_win32_fast_ms \<or> i = gVT_x86_win32_fast_gnu"

lemmas x86_op_defs =
  dc_callvm_argInt_x86_def dc_callvm_argBool_x86_def dc_callvm_argChar_x86_def dc_callvm_argShort_x86_def
  dc_callvm_argLong_x86_def dc_callvm_argLongLong_x86_def dc_callvm_argFloat_x86_def
  dc_callvm_argDouble_x86_def dc_callvm_argPointer_x86_def dc_callvm_argInt_x86_win32_fast_ms_def
  dc_callvm_argBool_x86_win32_fast_ms_def dc_callvm_argChar_x86_win32_fast_ms_def
  dc_callvm_argShort_x86_win32_fast_ms_def dc_callvm_argLong_x86_win32_fast_ms_def
  dc_callvm_argPointer_x86_win32_fast_ms_def dc_callvm_argInt_x86_win32_fast_gnu_def
  dc_callvm_argBool_x86_win32_fast_gnu_def dc_callvm_argChar_x86_win32_fast_gnu_def
  dc_callvm_argShort_x86_win32_fast_gnu_def dc_callvm_argLong_x86_win32_fast_gnu_def
  dc_callvm_argPointer_x86_win32_fast_gnu_def dc_callvm_argLongLong_x86_win32_fast_gnu_def

lemmas x86_call_defs =
  dc_callvm_call_x86_plan9_def dc_callvm_call_x86_plan9_ll_def dc_callvm_call_x86_cdecl_def
  dc_callvm_call_x86_win32_std_def dc_callvm_call_x86_win32_fast_def dc_callvm_call_x86_win32_this_ms_def
  dc_callvm_call_x86_syscall_int80h_linux_def dc_callvm_call_x86_syscall_int80h_bsd_def

lemmas x86_vt_defs =
  vt_x86_plan9_def vt_x86_cdecl_def vt_x86_win32_std_def vt_x86_win32_fast_ms_def vt_x86_win32_fast_gnu_def
  vt_x86_win32_this_ms_def vt_x86_syscall_int80h_linux_def vt_x86_syscall_int80h_bsd_def

text \<open>A stack convention appends every argument.\<close>

lemma dcArg_x86_stack:
  "\<not> x86_fast (mVTpointer s) \<Longrightarrow>
     dcArg (vtab_x86 p m os) s a = s\<lparr>x86_vec := vec_slot False (flat_bytes True LE a) (x86_vec s)\<rparr>"
  by (cases "mVTpointer s"; cases a) (simp_all add: x86_vt_defs x86_op_defs vec_slot_def x86_fast_def)

end
