(* ===== verification/Affix_Float.thy ===== *)
theory Affix_Float
  imports Dyn_Prelude
begin

section \<open>The conversions between \<open>float\<close> and \<open>double\<close>\<close>

text \<open>
  Perl keeps floating point numbers as \<open>double\<close>, the C functions it calls may take a \<open>float\<close>. The
  conversions of C (IEEE 754, round to nearest even) on the bit patterns; a NaN stays a quiet NaN with the
  upper bits of its payload, as on x86.
\<close>

text \<open>\<open>m / 2 ^ k\<close>, rounded to nearest, ties to even.\<close>

definition round_even :: "nat \<Rightarrow> nat \<Rightarrow> nat" where
  "round_even m k =
     (let q = m div 2 ^ k; r = m mod 2 ^ k; h = 2 ^ (k - 1) in
      if h < r \<or> r = h \<and> odd q then q + 1 else q)"

definition quiet :: "nat \<Rightarrow> nat \<Rightarrow> nat" where
  "quiet m half = (if m < half then m + half else m)"

definition float_of_double :: "u64 \<Rightarrow> u32" where
  "float_of_double x =
     (let d = unat x; s = d div 2 ^ 63; e = d div 2 ^ 52 mod 2 ^ 11; m = d mod 2 ^ 52 in
      of_nat (s * 2 ^ 31 +
        (if e = 2047 then 255 * 2 ^ 23 + (if m = 0 then 0 else quiet (m div 2 ^ 29) (2 ^ 22))
         else
           (let M = (if e = 0 then m else 2 ^ 52 + m); E = (if e = 0 then 1 else e) in
            min (255 * 2 ^ 23)
              (if 897 \<le> E then (E - 897) * 2 ^ 23 + round_even M 29 else round_even M (29 + (897 - E)))))))"

text \<open>A subnormal \<open>float\<close> is a normal \<open>double\<close>: \<open>k\<close> is the position of its first bit.\<close>

definition log2_floor :: "nat \<Rightarrow> nat" where
  "log2_floor m = length (takeWhile (\<lambda>k. 2 ^ Suc k \<le> m) [0..<23])"

definition double_of_float :: "u32 \<Rightarrow> u64" where
  "double_of_float x =
     (let d = unat x; s = d div 2 ^ 31; e = d div 2 ^ 23 mod 2 ^ 8; m = d mod 2 ^ 23 in
      of_nat (s * 2 ^ 63 +
        (if e = 255 then 2047 * 2 ^ 52 + (if m = 0 then 0 else quiet m (2 ^ 22) * 2 ^ 29)
         else if e = 0 then
           (if m = 0 then 0
            else (let k = log2_floor m in (k + 874) * 2 ^ 52 + (m - 2 ^ k) * 2 ^ (52 - k)))
         else (e + 896) * 2 ^ 52 + m * 2 ^ 29)))"

definition is_nan32 :: "u32 \<Rightarrow> bool" where
  "is_nan32 x \<longleftrightarrow> unat x div 2 ^ 23 mod 2 ^ 8 = 255 \<and> unat x mod 2 ^ 23 \<noteq> 0"

lemma round_even_exact: "0 < k \<Longrightarrow> round_even (m * 2 ^ k) k = m"
  by (simp add: round_even_def)

lemma log2_floor_bounds:
  assumes "0 < m" and "m < 2 ^ 23"
  shows "2 ^ log2_floor m \<le> m" and "m < 2 ^ Suc (log2_floor m)" and "log2_floor m \<le> 22"
proof -
  let ?P = "\<lambda>k. 2 ^ Suc k \<le> m"
  define k where "k = log2_floor m"
  have k: "k \<le> 23" by (metis k_def log2_floor_def length_takeWhile_le length_upt diff_zero)
  have "\<not> ?P k"
  proof (cases "k = 23")
    case True
    with assms(2) show ?thesis by simp
  next
    case False
    with k have "k < length [0..<23]" by simp
    then show ?thesis
      using nth_length_takeWhile [of ?P "[0..<23]"] by (simp add: k_def log2_floor_def)
  qed
  then show "m < 2 ^ Suc (log2_floor m)" by (simp add: k_def)
  have "?P j" if "j < k" for j
  proof -
    have "takeWhile ?P [0..<23] ! j = [0..<23] ! j"
      using that by (intro takeWhile_nth) (simp add: k_def log2_floor_def)
    also have "\<dots> = j" using that k by (subst nth_upt) simp_all
    finally show ?thesis
      using that nth_mem [of j "takeWhile ?P [0..<23]"]
      by (auto simp: k_def log2_floor_def dest!: set_takeWhileD)
  qed
  from this [of "k - 1"] assms(1) show *: "2 ^ log2_floor m \<le> m"
    by (cases k) (auto simp: k_def)
  have "(2::nat) ^ log2_floor m < 2 ^ 23" using * assms(2) by (rule le_less_trans)
  then have "log2_floor m < 23" by (rule power_less_imp_less_exp [rotated]) simp
  then show "log2_floor m \<le> 22" by simp
qed

lemma unat_parts:
  "unat (x :: u32) = unat x div 2 ^ 31 * 2 ^ 31 + unat x div 2 ^ 23 mod 2 ^ 8 * 2 ^ 23 + unat x mod 2 ^ 23"
  "unat x div 2 ^ 31 < 2"
proof -
  have "unat x < 2 ^ 32" using unsigned_less [of x] by simp
  then show "unat x div 2 ^ 31 < 2" by (simp add: less_mult_imp_div_less)
  define y where "y = unat x div 2 ^ 23"
  have "unat x div 2 ^ 31 = y div 2 ^ 8" unfolding y_def by (simp flip: div_mult2_eq)
  moreover have "y div 2 ^ 8 * 2 ^ 31 + y mod 2 ^ 8 * 2 ^ 23 = (y div 2 ^ 8 * 2 ^ 8 + y mod 2 ^ 8) * 2 ^ 23"
    by (simp only: add_mult_distrib mult.assoc flip: power_add) simp
  moreover have "unat x = y * 2 ^ 23 + unat x mod 2 ^ 23" by (simp add: y_def)
  ultimately show "unat x = unat x div 2 ^ 31 * 2 ^ 31 + unat x div 2 ^ 23 mod 2 ^ 8 * 2 ^ 23 + unat x mod 2 ^ 23"
    by (simp only: div_mult_mod_eq flip: y_def)
qed

lemma double_parts:
  assumes "s < 2" and "e < 2048" and "m < 2 ^ 52"
  defines "d \<equiv> s * 2 ^ 63 + (e * 2 ^ 52 + m)"
  shows "unat (of_nat d :: u64) = d" and "d div 2 ^ 63 = s" and "d div 2 ^ 52 mod 2 ^ 11 = e" and "d mod 2 ^ 52 = m"
proof -
  from assms have "d < 2 ^ 64" by simp
  then show "unat (of_nat d :: u64) = d" by (simp add: unat_of_nat)
  from assms have "e * 2 ^ 52 + m < 2 ^ 63" by simp
  then show "d div 2 ^ 63 = s" by (simp add: d_def)
  have d: "d = (s * 2 ^ 11 + e) * 2 ^ 52 + m" by (simp add: d_def)
  with assms(3) have "d div 2 ^ 52 = s * 2 ^ 11 + e" by simp
  with assms(2) show "d div 2 ^ 52 mod 2 ^ 11 = e" by simp
  from d assms(3) show "d mod 2 ^ 52 = m" by (simp only: mod_mult_self3 mod_less)
qed

text \<open>Widening is exact: narrowing gives the \<open>float\<close> back.\<close>

lemma float_of_double_of_float:
  assumes "\<not> is_nan32 x"
  shows "float_of_double (double_of_float x) = x"
proof -
  define s e m where "s = unat x div 2 ^ 31" and "e = unat x div 2 ^ 23 mod 2 ^ 8" and "m = unat x mod 2 ^ 23"
  note sem = this
  have s: "s < 2" and e: "e < 256" and m: "m < 2 ^ 23"
    using unat_parts(2) [of x] by (simp_all add: sem)
  have x: "x = of_nat (s * 2 ^ 31 + (e * 2 ^ 23 + m))"
    using unat_parts(1) [of x, folded sem] by (metis add.assoc word_unat_eq_iff unat_of_nat of_nat_unat ucast_id)
  have nan: "e = 255 \<Longrightarrow> m = 0" using assms by (simp add: is_nan32_def sem)
  have widen: "double_of_float x = of_nat (s * 2 ^ 63 +
        (if e = 255 then 2047 * 2 ^ 52 + (if m = 0 then 0 else quiet m (2 ^ 22) * 2 ^ 29)
         else if e = 0 then
           (if m = 0 then 0
            else (log2_floor m + 874) * 2 ^ 52 + (m - 2 ^ log2_floor m) * 2 ^ (52 - log2_floor m))
         else (e + 896) * 2 ^ 52 + m * 2 ^ 29))"
    by (simp only: double_of_float_def Let_def sem)
  have narrow: "float_of_double (of_nat (s * 2 ^ 63 + (E * 2 ^ 52 + M))) =
      of_nat (s * 2 ^ 31 +
        (if E = 2047 then 255 * 2 ^ 23 + (if M = 0 then 0 else quiet (M div 2 ^ 29) (2 ^ 22))
         else (let M' = (if E = 0 then M else 2 ^ 52 + M); E' = (if E = 0 then 1 else E) in
            min (255 * 2 ^ 23)
              (if 897 \<le> E' then (E' - 897) * 2 ^ 23 + round_even M' 29 else round_even M' (29 + (897 - E'))))))"
    if "E < 2048" "M < 2 ^ 52" for E M
    by (simp only: float_of_double_def Let_def double_parts [OF s that])
  consider "e = 255" | "e = 0" "m = 0" | "e = 0" "0 < m" | "0 < e" "e < 255" using e by linarith
  then show ?thesis
  proof cases
    case 1
    then have w: "double_of_float x = of_nat (s * 2 ^ 63 + (2047 * 2 ^ 52 + 0))" using nan widen by simp
    show ?thesis unfolding w by (subst narrow) (simp_all add: x 1 nan)
  next
    case 2
    then have w: "double_of_float x = of_nat (s * 2 ^ 63 + (0 * 2 ^ 52 + 0))" using widen by simp
    show ?thesis unfolding w by (subst narrow) (simp_all add: x 2 round_even_def Let_def)
  next
    case 3
    define k where "k = log2_floor m"
    note k = log2_floor_bounds [OF 3(2) m, folded k_def]
    have w: "double_of_float x = of_nat (s * 2 ^ 63 + ((k + 874) * 2 ^ 52 + (m - 2 ^ k) * 2 ^ (52 - k)))"
      using 3 widen by (simp add: k_def)
    have p: "(2::nat) ^ k * 2 ^ (52 - k) = 2 ^ 52" using k(3) by (simp flip: power_add)
    have "(m - 2 ^ k) * 2 ^ (52 - k) < 2 ^ k * 2 ^ (52 - k)" using k(1,2) by (simp)
    with p have M: "(m - 2 ^ k) * 2 ^ (52 - k) < 2 ^ 52" by simp
    have sum: "2 ^ 52 + (m - 2 ^ k) * 2 ^ (52 - k) = m * 2 ^ (52 - k)"
    proof -
      have "2 ^ k * 2 ^ (52 - k) \<le> m * 2 ^ (52 - k)" using k(1) by (rule mult_le_mono1)
      then show ?thesis by (simp add: diff_mult_distrib p)
    qed
    have r: "round_even (m * 2 ^ (52 - k)) (52 - k) = m" using k(3) by (intro round_even_exact) simp
    have "round_even (2 ^ 52 + (m - 2 ^ k) * 2 ^ (52 - k)) (29 + (897 - (k + 874))) = m"
      using k(3) by (simp only: sum) (simp add: r)
    with k(3) 3 m show ?thesis
      unfolding w by (subst narrow [OF _ M]) (simp_all add: x Let_def)
  next
    case 4
    then have w: "double_of_float x = of_nat (s * 2 ^ 63 + ((e + 896) * 2 ^ 52 + m * 2 ^ 29))" using widen by simp
    have M: "m * 2 ^ 29 < 2 ^ 52" using m by simp
    have "round_even (2 ^ 52 + m * 2 ^ 29) 29 = 2 ^ 23 + m"
      using round_even_exact [of 29 "2 ^ 23 + m"] by (simp add: add_mult_distrib)
    then have "(e + 896 - 897) * 2 ^ 23 + round_even (2 ^ 52 + m * 2 ^ 29) 29 = e * 2 ^ 23 + m"
      using 4 by (cases e) simp_all
    moreover have "e * 2 ^ 23 + m < 255 * 2 ^ 23" using 4 m by simp
    ultimately show ?thesis
      unfolding w using 4 by (subst narrow [OF _ M]) (simp_all add: x Let_def)
  qed
qed

end
