(* ===== verification/Dyn_Callf.thy ===== *)
theory Dyn_Callf
  imports Args_X64 Affix_Float
begin

section \<open>Formatted calls\<close>

text \<open>
  \<open>dyncall/dyncall/dyncall_callf.c\<close>: binding of arguments and calls driven by a signature string and a
  variable argument list. A signature is the list of characters before the NUL; a position in it
  is the list of characters that are left. An argument list is the list of the values the caller
  passed, after the default promotions; taking a value of another type than the one
  passed, or one more than were passed, is undefined in C and \<open>None\<close> here, and so is reading behind
  the NUL. The narrowing \<open>(DCfloat)\<close> of a double is the parameter \<open>narrow\<close>, the promotion of a float to a double at the caller
  the parameter \<open>widen\<close>; nothing is assumed of them, as C does not promise that a NaN keeps its bits. \<open>Affix_Float\<close> has the
  conversions of IEEE 754.
\<close>

datatype ('l, 'p) va = VaInt u32 | VaLong 'l | VaLongLong u64 | VaDouble u64 | VaPointer 'p | VaDesc "DCaggr option"

fun va_int :: "('l, 'p) va list \<Rightarrow> (u32 \<times> ('l, 'p) va list) option" where
  "va_int (VaInt x # r) = Some (x, r)" | "va_int _ = None"

fun va_long :: "('l, 'p) va list \<Rightarrow> ('l \<times> ('l, 'p) va list) option" where
  "va_long (VaLong x # r) = Some (x, r)" | "va_long _ = None"

fun va_longlong :: "('l, 'p) va list \<Rightarrow> (u64 \<times> ('l, 'p) va list) option" where
  "va_longlong (VaLongLong x # r) = Some (x, r)" | "va_longlong _ = None"

fun va_double :: "('l, 'p) va list \<Rightarrow> (u64 \<times> ('l, 'p) va list) option" where
  "va_double (VaDouble x # r) = Some (x, r)" | "va_double _ = None"

fun va_pointer :: "('l, 'p) va list \<Rightarrow> ('p \<times> ('l, 'p) va list) option" where
  "va_pointer (VaPointer x # r) = Some (x, r)" | "va_pointer _ = None"

fun va_desc :: "('l, 'p) va list \<Rightarrow> (DCaggr option \<times> ('l, 'p) va list) option" where
  "va_desc (VaDesc x # r) = Some (x, r)" | "va_desc _ = None"

subsection \<open>Modes\<close>

text \<open>A mode character that is the last one of the signature is neither used nor skipped.\<close>

fun handle_mode ::
  "('id \<Rightarrow> (('id, 'm) DCCallVM_scheme, 'l, 'p, 'k) DCCallVM_vt) \<Rightarrow> ('id, 'm) DCCallVM_scheme \<Rightarrow>
   char list \<Rightarrow> (('id, 'm) DCCallVM_scheme \<times> char list) option" where
  "handle_mode vtab vm [] = None"
| "handle_mode vtab vm [c] = Some (vm, [c])"
| "handle_mode vtab vm (c # d # s) =
     (let mode = dcGetModeFromCCSigChar c in
      Some (if mode \<noteq> DC_ERROR_UNSUPPORTED_MODE then dcMode vtab vm mode else vm, d # s))"

lemma handle_mode_length: "handle_mode vtab vm s = Some (vm', s') \<Longrightarrow> length s' \<le> length s"
  by (induction vtab vm s rule: handle_mode.induct) (auto simp: Let_def)

subsection \<open>Binding of arguments\<close>

text \<open>One argument of the type \<open>ch\<close>: the cases of the \<open>switch\<close> but the first. A character that is no type is skipped.\<close>

definition bind_arg ::
  "('id \<Rightarrow> (('id, 'm) DCCallVM_scheme, 'l, 'p, 'k) DCCallVM_vt) \<Rightarrow> 'p heap \<Rightarrow> (u64 \<Rightarrow> u32) \<Rightarrow> char \<Rightarrow>
   ('id, 'm) DCCallVM_scheme \<Rightarrow> ('l, 'p) va list \<Rightarrow> (('id, 'm) DCCallVM_scheme \<times> ('l, 'p) va list) option" where
  "bind_arg vtab h narrow ch vm args =
     (if ch = DC_SIGCHAR_BOOL then map_option (\<lambda>(x, r). (dcArg vtab vm (ABool x), r)) (va_int args)
      else if ch = DC_SIGCHAR_CHAR \<or> ch = DC_SIGCHAR_UCHAR then
        map_option (\<lambda>(x, r). (dcArg vtab vm (AChar (ucast x)), r)) (va_int args)
      else if ch = DC_SIGCHAR_SHORT \<or> ch = DC_SIGCHAR_USHORT then
        map_option (\<lambda>(x, r). (dcArg vtab vm (AShort (ucast x)), r)) (va_int args)
      else if ch = DC_SIGCHAR_INT \<or> ch = DC_SIGCHAR_UINT then
        map_option (\<lambda>(x, r). (dcArg vtab vm (AInt x), r)) (va_int args)
      else if ch = DC_SIGCHAR_LONG \<or> ch = DC_SIGCHAR_ULONG then
        map_option (\<lambda>(x, r). (dcArg vtab vm (ALong x), r)) (va_long args)
      else if ch = DC_SIGCHAR_LONGLONG \<or> ch = DC_SIGCHAR_ULONGLONG then
        map_option (\<lambda>(x, r). (dcArg vtab vm (ALongLong x), r)) (va_longlong args)
      else if ch = DC_SIGCHAR_FLOAT then
        map_option (\<lambda>(x, r). (dcArg vtab vm (AFloat (narrow x)), r)) (va_double args)
      else if ch = DC_SIGCHAR_DOUBLE then
        map_option (\<lambda>(x, r). (dcArg vtab vm (ADouble x), r)) (va_double args)
      else if ch = DC_SIGCHAR_POINTER \<or> ch = DC_SIGCHAR_STRING then
        map_option (\<lambda>(x, r). (dcArg vtab vm (APointer x), r)) (va_pointer args)
      else if ch = DC_SIGCHAR_AGGREGATE then
        Option.bind (va_desc args) (\<lambda>(ag, r). Option.bind (va_pointer r) (\<lambda>(x, r').
          map_option (\<lambda>vm'. (vm', r')) (dcArgAggr vtab h vm ag x)))
      else Some (vm, args))"

text \<open>The loop: the VM, the position behind the end of the arguments (\<open>None\<close>: behind the NUL) and
  the arguments that are left.\<close>

function dcArgF_impl ::
  "('id \<Rightarrow> (('id, 'm) DCCallVM_scheme, 'l, 'p, 'k) DCCallVM_vt) \<Rightarrow> 'p heap \<Rightarrow> (u64 \<Rightarrow> u32) \<Rightarrow>
   ('id, 'm) DCCallVM_scheme \<Rightarrow> char list \<Rightarrow> ('l, 'p) va list \<Rightarrow>
   (('id, 'm) DCCallVM_scheme \<times> char list option \<times> ('l, 'p) va list) option" where
  "dcArgF_impl vtab h narrow vm [] args = Some (vm, None, args)"
| "dcArgF_impl vtab h narrow vm (ch # s) args =
     (if ch = DC_SIGCHAR_ENDARG then Some (vm, Some s, args)
      else if ch = DC_SIGCHAR_CC_PREFIX then
        (case handle_mode vtab vm s of
           None \<Rightarrow> None
         | Some (vm', s') \<Rightarrow> dcArgF_impl vtab h narrow vm' s' args)
      else
        (case bind_arg vtab h narrow ch vm args of
           None \<Rightarrow> None
         | Some (vm', args') \<Rightarrow> dcArgF_impl vtab h narrow vm' s args'))"
  by pat_completeness auto
termination
  by (relation "measure (\<lambda>(_, _, _, _, s, _). length s)") (auto dest: handle_mode_length)

definition dcVArgF ::
  "('id \<Rightarrow> (('id, 'm) DCCallVM_scheme, 'l, 'p, 'k) DCCallVM_vt) \<Rightarrow> 'p heap \<Rightarrow> (u64 \<Rightarrow> u32) \<Rightarrow>
   ('id, 'm) DCCallVM_scheme \<Rightarrow> char list \<Rightarrow> ('l, 'p) va list \<Rightarrow> ('id, 'm) DCCallVM_scheme option" where
  "dcVArgF vtab h narrow vm signature args = map_option fst (dcArgF_impl vtab h narrow vm signature args)"

definition dcArgF ::
  "('id \<Rightarrow> (('id, 'm) DCCallVM_scheme, 'l, 'p, 'k) DCCallVM_vt) \<Rightarrow> 'p heap \<Rightarrow> (u64 \<Rightarrow> u32) \<Rightarrow>
   ('id, 'm) DCCallVM_scheme \<Rightarrow> char list \<Rightarrow> ('l, 'p) va list \<Rightarrow> ('id, 'm) DCCallVM_scheme option" where
  "dcArgF vtab h narrow vm signature va = dcVArgF vtab h narrow vm signature va"

subsection \<open>Calls\<close>

text \<open>The first pass over a signature that ends in an aggregate: it applies the modes and skips the
  arguments up to the description and the buffer of the result.\<close>

definition skip_va :: "char \<Rightarrow> ('l, 'p) va list \<Rightarrow> DCaggr option \<times> 'p \<Rightarrow>
    (('l, 'p) va list \<times> DCaggr option \<times> 'p) option" where
  "skip_va ch args ret =
     (if ch \<in> {DC_SIGCHAR_BOOL, DC_SIGCHAR_CHAR, DC_SIGCHAR_UCHAR, DC_SIGCHAR_SHORT, DC_SIGCHAR_USHORT,
               DC_SIGCHAR_INT, DC_SIGCHAR_UINT} then map_option (\<lambda>(_, r). (r, ret)) (va_int args)
      else if ch \<in> {DC_SIGCHAR_LONG, DC_SIGCHAR_ULONG} then map_option (\<lambda>(_, r). (r, ret)) (va_long args)
      else if ch \<in> {DC_SIGCHAR_LONGLONG, DC_SIGCHAR_ULONGLONG} then
        map_option (\<lambda>(_, r). (r, ret)) (va_longlong args)
      else if ch \<in> {DC_SIGCHAR_FLOAT, DC_SIGCHAR_DOUBLE} then map_option (\<lambda>(_, r). (r, ret)) (va_double args)
      else if ch \<in> {DC_SIGCHAR_POINTER, DC_SIGCHAR_STRING} then
        map_option (\<lambda>(_, r). (r, ret)) (va_pointer args)
      else if ch = DC_SIGCHAR_AGGREGATE then
        Option.bind (va_desc args) (\<lambda>(ag, r). map_option (\<lambda>(p, r'). (r', ag, p)) (va_pointer r))
      else Some (args, ret))"

function scan_ret_aggr ::
  "('id \<Rightarrow> (('id, 'm) DCCallVM_scheme, 'l, 'p, 'k) DCCallVM_vt) \<Rightarrow> ('id, 'm) DCCallVM_scheme \<Rightarrow>
   char list \<Rightarrow> ('l, 'p) va list \<Rightarrow> DCaggr option \<times> 'p \<Rightarrow>
   (('id, 'm) DCCallVM_scheme \<times> DCaggr option \<times> 'p) option" where
  "scan_ret_aggr vtab vm [] args ret = Some (vm, ret)"
| "scan_ret_aggr vtab vm (ch # s) args ret =
     (if ch = DC_SIGCHAR_CC_PREFIX then
        (case handle_mode vtab vm s of
           None \<Rightarrow> None
         | Some (vm', s') \<Rightarrow> scan_ret_aggr vtab vm' s' args ret)
      else
        (case skip_va ch args ret of
           None \<Rightarrow> None
         | Some (args', ret') \<Rightarrow> scan_ret_aggr vtab vm s args' ret'))"
  by pat_completeness auto
termination
  by (relation "measure (\<lambda>(_, _, s, _, _). length s)") (auto dest: handle_mode_length)

text \<open>What a formatted call does at its end: nothing (no return type it knows), one of the calls with the
  member of the result it is stored in, or the call for an aggregate.\<close>

datatype ('vm, 'p, 'k) callf_result =
    NotCalled 'vm
  | Called dccall char "'vm \<times> 'k"
  | CalledAggr "'vm \<times> 'p heap" 'p

definition call_of_sigchar :: "char \<Rightarrow> dccall option" where
  "call_of_sigchar ch =
     (if ch = DC_SIGCHAR_VOID then Some callVoid
      else if ch = DC_SIGCHAR_BOOL then Some callBool
      else if ch = DC_SIGCHAR_CHAR \<or> ch = DC_SIGCHAR_UCHAR then Some callChar
      else if ch = DC_SIGCHAR_SHORT \<or> ch = DC_SIGCHAR_USHORT then Some callShort
      else if ch = DC_SIGCHAR_INT \<or> ch = DC_SIGCHAR_UINT then Some callInt
      else if ch = DC_SIGCHAR_LONG \<or> ch = DC_SIGCHAR_ULONG then Some callLong
      else if ch = DC_SIGCHAR_LONGLONG \<or> ch = DC_SIGCHAR_ULONGLONG then Some callLongLong
      else if ch = DC_SIGCHAR_FLOAT then Some callFloat
      else if ch = DC_SIGCHAR_DOUBLE then Some callDouble
      else if ch = DC_SIGCHAR_POINTER \<or> ch = DC_SIGCHAR_STRING then Some callPointer
      else None)"

text \<open>\<open>p0\<close> is what \<open>result->p\<close> held before. Behind the arguments may be the NUL, which is no return type.\<close>

definition dcVCallF ::
  "('id \<Rightarrow> (('id, 'm) DCCallVM_scheme, 'l, 'p, 'k) DCCallVM_vt) \<Rightarrow> 'p heap \<Rightarrow> (u64 \<Rightarrow> u32) \<Rightarrow>
   ('id, 'm) DCCallVM_scheme \<Rightarrow> 'p \<Rightarrow> 'p \<Rightarrow> char list \<Rightarrow> ('l, 'p) va list \<Rightarrow>
   (('id, 'm) DCCallVM_scheme, 'p, 'k) callf_result option" where
  "dcVCallF vtab h narrow vm p0 funcptr signature args =
     Option.bind
       (if signature \<noteq> [] \<and> last signature = DC_SIGCHAR_AGGREGATE then
          Option.bind (scan_ret_aggr vtab vm signature args (None, p0)) (\<lambda>(vm', ret_ag, p).
            map_option (\<lambda>vm''. (vm'', ret_ag, p)) (dcBeginCallAggr vtab vm' ret_ag))
        else Some (vm, None, p0))
       (\<lambda>(vm, ret_ag, p). Option.bind (dcArgF_impl vtab h narrow vm signature args) (\<lambda>(vm, s, _).
          (case s of
             None \<Rightarrow> None
           | Some [] \<Rightarrow> Some (NotCalled vm)
           | Some (ch # _) \<Rightarrow>
               if ch = DC_SIGCHAR_AGGREGATE then
                 map_option (\<lambda>r. CalledAggr r p) (dcCallAggr vtab h vm funcptr ret_ag p)
               else (case call_of_sigchar ch of
                   None \<Rightarrow> Some (NotCalled vm)
                 | Some c \<Rightarrow> Some (Called c ch (dcCall vtab c vm funcptr))))))"

definition dcCallF ::
  "('id \<Rightarrow> (('id, 'm) DCCallVM_scheme, 'l, 'p, 'k) DCCallVM_vt) \<Rightarrow> 'p heap \<Rightarrow> (u64 \<Rightarrow> u32) \<Rightarrow>
   ('id, 'm) DCCallVM_scheme \<Rightarrow> 'p \<Rightarrow> 'p \<Rightarrow> char list \<Rightarrow> ('l, 'p) va list \<Rightarrow>
   (('id, 'm) DCCallVM_scheme, 'p, 'k) callf_result option" where
  "dcCallF vtab h narrow vm p0 funcptr signature va = dcVCallF vtab h narrow vm p0 funcptr signature va"


subsection \<open>A formatted call is the sequence of calls it stands for\<close>

text \<open>An argument as the client means it, its type character, what C passes for it through the
  ellipsis, and the call of the unformatted interface.\<close>

datatype ('l, 'p) farg = FScalar "('l, 'p) dcarg" | FAggr "DCaggr option" 'p

fun farg_sig :: "('l, 'p) farg \<Rightarrow> char" where
  "farg_sig (FScalar (ABool _)) = DC_SIGCHAR_BOOL"
| "farg_sig (FScalar (AChar _)) = DC_SIGCHAR_CHAR"
| "farg_sig (FScalar (AShort _)) = DC_SIGCHAR_SHORT"
| "farg_sig (FScalar (AInt _)) = DC_SIGCHAR_INT"
| "farg_sig (FScalar (ALong _)) = DC_SIGCHAR_LONG"
| "farg_sig (FScalar (ALongLong _)) = DC_SIGCHAR_LONGLONG"
| "farg_sig (FScalar (AFloat _)) = DC_SIGCHAR_FLOAT"
| "farg_sig (FScalar (ADouble _)) = DC_SIGCHAR_DOUBLE"
| "farg_sig (FScalar (APointer _)) = DC_SIGCHAR_POINTER"
| "farg_sig (FAggr _ _) = DC_SIGCHAR_AGGREGATE"

fun farg_va :: "(u32 \<Rightarrow> u64) \<Rightarrow> ('l, 'p) farg \<Rightarrow> ('l, 'p) va list" where
  "farg_va widen (FScalar (ABool x)) = [VaInt x]"
| "farg_va widen (FScalar (AChar x)) = [VaInt (scast x)]"
| "farg_va widen (FScalar (AShort x)) = [VaInt (scast x)]"
| "farg_va widen (FScalar (AInt x)) = [VaInt x]"
| "farg_va widen (FScalar (ALong x)) = [VaLong x]"
| "farg_va widen (FScalar (ALongLong x)) = [VaLongLong x]"
| "farg_va widen (FScalar (AFloat x)) = [VaDouble (widen x)]"
| "farg_va widen (FScalar (ADouble x)) = [VaDouble x]"
| "farg_va widen (FScalar (APointer x)) = [VaPointer x]"
| "farg_va widen (FAggr ag x) = [VaDesc ag, VaPointer x]"

fun dcArg_farg ::
  "('id \<Rightarrow> (('id, 'm) DCCallVM_scheme, 'l, 'p, 'k) DCCallVM_vt) \<Rightarrow> 'p heap \<Rightarrow>
   ('id, 'm) DCCallVM_scheme \<Rightarrow> ('l, 'p) farg \<Rightarrow> ('id, 'm) DCCallVM_scheme option" where
  "dcArg_farg vtab h vm (FScalar a) = Some (dcArg vtab vm a)"
| "dcArg_farg vtab h vm (FAggr ag x) = dcArgAggr vtab h vm ag x"

fun dcArg_fargs ::
  "('id \<Rightarrow> (('id, 'm) DCCallVM_scheme, 'l, 'p, 'k) DCCallVM_vt) \<Rightarrow> 'p heap \<Rightarrow>
   ('id, 'm) DCCallVM_scheme \<Rightarrow> ('l, 'p) farg list \<Rightarrow> ('id, 'm) DCCallVM_scheme option" where
  "dcArg_fargs vtab h vm [] = Some vm"
| "dcArg_fargs vtab h vm (a # as) =
     Option.bind (dcArg_farg vtab h vm a) (\<lambda>vm'. dcArg_fargs vtab h vm' as)"

text \<open>An optional calling convention prefix.\<close>

fun prefix_sig :: "char option \<Rightarrow> char list" where
  "prefix_sig None = []"
| "prefix_sig (Some c) = [DC_SIGCHAR_CC_PREFIX, c]"

fun prefix_mode ::
  "('id \<Rightarrow> (('id, 'm) DCCallVM_scheme, 'l, 'p, 'k) DCCallVM_vt) \<Rightarrow> ('id, 'm) DCCallVM_scheme \<Rightarrow>
   char option \<Rightarrow> ('id, 'm) DCCallVM_scheme" where
  "prefix_mode vtab vm None = vm"
| "prefix_mode vtab vm (Some c) =
     (if dcGetModeFromCCSigChar c \<noteq> DC_ERROR_UNSUPPORTED_MODE
      then dcMode vtab vm (dcGetModeFromCCSigChar c) else vm)"

text \<open>What arrives of an argument: a float is promoted to a double and narrowed again.\<close>

fun promoted :: "(u64 \<Rightarrow> u32) \<Rightarrow> (u32 \<Rightarrow> u64) \<Rightarrow> ('l, 'p) farg \<Rightarrow> ('l, 'p) farg" where
  "promoted narrow widen (FScalar (AFloat x)) = FScalar (AFloat (narrow (widen x)))"
| "promoted narrow widen a = a"

fun no_nan :: "('l, 'p) farg \<Rightarrow> bool" where
  "no_nan (FScalar (AFloat x)) \<longleftrightarrow> \<not> is_nan32 x"
| "no_nan a \<longleftrightarrow> True"

text \<open>With the conversions of IEEE 754 every argument but a NaN arrives as it is.\<close>

lemma promoted_exact: "no_nan a \<Longrightarrow> promoted float_of_double double_of_float a = a"
  by (cases a rule: no_nan.cases) (simp_all add: float_of_double_of_float)

lemma map_promoted_exact: "list_all no_nan as \<Longrightarrow> map (promoted float_of_double double_of_float) as = as"
  by (induction as) (simp_all add: promoted_exact)

lemma bind_arg_farg:
  "bind_arg vtab h narrow (farg_sig a) vm (farg_va widen a @ r)
     = map_option (\<lambda>vm'. (vm', r)) (dcArg_farg vtab h vm (promoted narrow widen a))"
  by (cases "(widen, a)" rule: farg_va.cases)
    (simp_all add: bind_arg_def ucast_scast_trunc option.map_comp comp_def)

lemma farg_sig_no_end [simp]: "farg_sig a \<noteq> DC_SIGCHAR_ENDARG" "farg_sig a \<noteq> DC_SIGCHAR_CC_PREFIX"
  by (cases a rule: farg_sig.cases; simp)+

lemma dcArgF_impl_fargs:
  "dcArgF_impl vtab h narrow vm (map farg_sig as @ DC_SIGCHAR_ENDARG # s) (concat (map (farg_va widen) as) @ r)
     = map_option (\<lambda>vm'. (vm', Some s, r)) (dcArg_fargs vtab h vm (map (promoted narrow widen) as))"
proof (induction as arbitrary: vm)
  case (Cons a as)
  then show ?case
    using bind_arg_farg [of vtab h narrow a vm widen "concat (map (farg_va widen) as) @ r"]
    by (cases "dcArg_farg vtab h vm (promoted narrow widen a)") simp_all
qed simp

lemma dcArgF_impl_prefix:
  assumes "s \<noteq> []"
  shows "dcArgF_impl vtab h narrow vm (prefix_sig cc @ s) args
       = dcArgF_impl vtab h narrow (prefix_mode vtab vm cc) s args"
  using assms by (cases cc; cases s) (simp_all add: Let_def)

lemma call_of_sigchar_not_aggr: "call_of_sigchar r = Some c \<Longrightarrow> r \<noteq> DC_SIGCHAR_AGGREGATE"
  by (auto simp: call_of_sigchar_def)

text \<open>C9: A formatted call with a scalar or void result is the sequence of calls it abbreviates: the mode
  of the prefix, one \<open>dcArg\<close> call for each argument, the call for the return type. Every argument arrives as it
  was given, whatever the conversions between \<open>float\<close> and \<open>double\<close> are, but a float, of which
  the promotion to a double and the narrowing back are passed (itself, unless it is a NaN: \<open>promoted_exact\<close>).\<close>

theorem dcCallF_scalar:
  assumes "call_of_sigchar r = Some c"
  shows "dcCallF vtab h narrow vm p0 funcptr (prefix_sig cc @ map farg_sig as @ [DC_SIGCHAR_ENDARG, r])
           (concat (map (farg_va widen) as))
       = map_option (\<lambda>vm'. Called c r (dcCall vtab c vm' funcptr))
           (dcArg_fargs vtab h (prefix_mode vtab vm cc) (map (promoted narrow widen) as))"
proof -
  note impl = dcArgF_impl_fargs [where s = "[r]" and r = "[]", simplified]
  show ?thesis
    using call_of_sigchar_not_aggr [OF assms] assms
    by (cases "dcArg_fargs vtab h (prefix_mode vtab vm cc) (map (promoted narrow widen) as)")
      (simp_all add: dcCallF_def dcVCallF_def dcArgF_impl_prefix impl)
qed

text \<open>A call of \<open>double f(int, float, void *)\<close> with the float 1.0 and the conversions of IEEE 754.\<close>

lemma one_widened: "double_of_float 0x3F800000 = 0x3FF0000000000000"
  by (simp add: double_of_float_def Let_def)

lemma one_no_nan: "list_all no_nan [FScalar (AInt 7), FScalar (AFloat 0x3F800000), FScalar (APointer 5)]"
  by (simp add: is_nan32_def)

lemma dcCallF_scalar_witness:
  "dcCallF (vtab_x64 (\<lambda>_ h. h) (\<lambda>_ h. (h, \<lambda>_. 0)) 0) (\<lambda>_. 0) float_of_double (x64_blank 64) 0 4096 ''_:ifp)d''
         [VaInt 7, VaDouble 0x3FF0000000000000, VaPointer 5]
     = map_option (\<lambda>vm'. Called callDouble DC_SIGCHAR_DOUBLE (dcCall (vtab_x64 (\<lambda>_ h. h) (\<lambda>_ h. (h, \<lambda>_. 0)) 0) callDouble vm' 4096))
         (dcArg_fargs (vtab_x64 (\<lambda>_ h. h) (\<lambda>_ h. (h, \<lambda>_. 0)) 0) (\<lambda>_. 0)
            (prefix_mode (vtab_x64 (\<lambda>_ h. h) (\<lambda>_ h. (h, \<lambda>_. 0)) 0) (x64_blank 64) (Some CHR '':''))
            [FScalar (AInt 7), FScalar (AFloat 0x3F800000), FScalar (APointer 5)])"
  using dcCallF_scalar [of DC_SIGCHAR_DOUBLE callDouble "vtab_x64 (\<lambda>_ h. h) (\<lambda>_ h. (h, \<lambda>_. 0)) 0"
      "\<lambda>_. 0" float_of_double "x64_blank 64" 0 4096 "Some CHR '':''"
      "[FScalar (AInt 7), FScalar (AFloat 0x3F800000), FScalar (APointer 5)]" double_of_float]
    map_promoted_exact [OF one_no_nan]
  by (simp add: one_widened call_of_sigchar_def del: dcArg_fargs.simps)

lemma skip_va_farg: "skip_va (farg_sig a) (farg_va widen a @ r) ret \<noteq> None \<and>
    fst (the (skip_va (farg_sig a) (farg_va widen a @ r) ret)) = r"
  by (cases "(widen, a)" rule: farg_va.cases) (simp_all add: skip_va_def)

lemma scan_ret_aggr_fargs:
  "scan_ret_aggr vtab vm (map farg_sig as @ [DC_SIGCHAR_ENDARG, DC_SIGCHAR_AGGREGATE])
     (concat (map (farg_va widen) as) @ [VaDesc ag, VaPointer p]) ret = Some (vm, ag, p)"
proof (induction as arbitrary: ret)
  case Nil
  then show ?case by (cases ret) (simp add: skip_va_def)
next
  case (Cons a as)
  then show ?case
    using skip_va_farg [of a widen "concat (map (farg_va widen) as) @ [VaDesc ag, VaPointer p]" ret]
    by (auto split: option.split)
qed

lemma scan_ret_aggr_prefix:
  assumes "s \<noteq> []"
  shows "scan_ret_aggr vtab vm (prefix_sig cc @ s) args ret = scan_ret_aggr vtab (prefix_mode vtab vm cc) s args ret"
  using assms by (cases cc; cases s) (simp_all add: Let_def)

text \<open>C18: A formatted call whose result is an aggregate announces the result before it passes the first
  argument, with the description and the buffer that stand at the end of the argument list, and
  returns the buffer; a mode prefix is in force already when the result is announced. The arguments arrive as in
  a call with a scalar result.\<close>

theorem dcCallF_aggr:
  "dcCallF vtab h narrow vm p0 funcptr
     (prefix_sig cc @ map farg_sig as @ [DC_SIGCHAR_ENDARG, DC_SIGCHAR_AGGREGATE])
     (concat (map (farg_va widen) as) @ [VaDesc ag, VaPointer p])
   = Option.bind (dcBeginCallAggr vtab (prefix_mode vtab vm cc) ag) (\<lambda>vm1.
       Option.bind (dcArg_fargs vtab h (prefix_mode vtab vm1 cc) (map (promoted narrow widen) as)) (\<lambda>vm2.
         map_option (\<lambda>r. CalledAggr r p) (dcCallAggr vtab h vm2 funcptr ag p)))"
  by (auto simp: dcCallF_def dcVCallF_def scan_ret_aggr_prefix scan_ret_aggr_fargs dcArgF_impl_prefix
      dcArgF_impl_fargs [where s = "[DC_SIGCHAR_AGGREGATE]"] bind_eq_None_conv split: Option.bind_split)

lemma dcCallF_aggr_witness:
  "\<exists>r. dcCallF (vtab_x64 (\<lambda>_ h. h) (\<lambda>_ h. (h, \<lambda>_. 0)) 0) (\<lambda>_. 0) float_of_double (x64_blank 64) 0 4096 ''if)A''
         [VaInt 7, VaDouble 0x3FF0000000000000, VaDesc None, VaPointer 5] = Some (CalledAggr r 5)"
  using dcCallF_aggr [of "vtab_x64 (\<lambda>_ h. h) (\<lambda>_ h. (h, \<lambda>_. 0)) 0"
      "\<lambda>_. 0" float_of_double "x64_blank 64" 0 4096 None "[FScalar (AInt 7), FScalar (AFloat 0x3F800000)]" double_of_float None 5]
  by (simp add: one_widened call_of_sigchar_def dcBeginCallAggr_def dcCallAggr_def x64_blank_def vt_x64_c_def
      dc_callvm_begin_aggr_x64_def dc_callvm_argInt_x64_def dc_callvm_argFloat_x64_def dc_callvm_argLongLong_x64_def
      dc_callvm_argDouble_x64_def dc_callvm_call_x64_aggr_def Let_def)

end
