(* ===== verification/Cb_X86.thy ===== *)
theory Cb_X86
  imports Vm_X86 Dyn_Callf
begin

unbundle bit_operations_syntax

section \<open>x86 (32 bit): callbacks\<close>

text \<open>
  \<open>dyncall/dyncallback/dyncall_args_x86.{h,c}\<close>, \<open>dyncall_callback_x86.c\<close> and the entry in
  \<open>dyncall_callback_x86.S\<close>, with what the kernels of \<open>dyncall_call_x86.S\<close> hand to the callee. A callback
  has a reader table for its convention and, where the callee removes the arguments, the number of
  bytes to remove, which is computed from the signature.
\<close>

subsection \<open>Readers\<close>

datatype vt_args_x86 = dcArgsVT_default | dcArgsVT_this_ms | dcArgsVT_fast_ms | dcArgsVT_fast_gnu

text \<open>\<open>rx_sp\<close> is the offset of \<open>stack_ptr\<close> from the first argument on the stack.\<close>

record DCArgs_x86 =
  rx_vt :: vt_args_x86
  rx_sp :: nat
  rx_mem :: mem
  rx_fast_data :: "nat \<Rightarrow> u32"
  rx_fast_count :: nat

definition default_i32 :: "DCArgs_x86 \<Rightarrow> u32 \<times> DCArgs_x86" where
  "default_i32 args = (obj_word LE (read_at (rx_mem args) (rx_sp args) 4), args\<lparr>rx_sp := rx_sp args + 4\<rparr>)"

definition default_i64 :: "DCArgs_x86 \<Rightarrow> u64 \<times> DCArgs_x86" where
  "default_i64 args = (obj_word LE (read_at (rx_mem args) (rx_sp args) 8), args\<lparr>rx_sp := rx_sp args + 8\<rparr>)"

definition default_f32 :: "DCArgs_x86 \<Rightarrow> u32 \<times> DCArgs_x86" where
  "default_f32 args = (obj_word LE (read_at (rx_mem args) (rx_sp args) 4), args\<lparr>rx_sp := rx_sp args + 4\<rparr>)"

definition default_f64 :: "DCArgs_x86 \<Rightarrow> u64 \<times> DCArgs_x86" where
  "default_f64 args = (obj_word LE (read_at (rx_mem args) (rx_sp args) 8), args\<lparr>rx_sp := rx_sp args + 8\<rparr>)"

definition this_i32 :: "DCArgs_x86 \<Rightarrow> u32 \<times> DCArgs_x86" where
  "this_i32 args =
     (if rx_fast_data args 0 \<noteq> 0
      then (rx_fast_data args 0, args\<lparr>rx_fast_data := (rx_fast_data args)(0 := 0)\<rparr>)
      else (obj_word LE (read_at (rx_mem args) (rx_sp args) 4), args\<lparr>rx_sp := rx_sp args + 4\<rparr>))"

definition fast_i32 :: "DCArgs_x86 \<Rightarrow> u32 \<times> DCArgs_x86" where
  "fast_i32 args =
     (if rx_fast_count args < 2
      then (rx_fast_data args (rx_fast_count args), args\<lparr>rx_fast_count := rx_fast_count args + 1\<rparr>)
      else default_i32 args)"

definition fast_gnu_i64 :: "DCArgs_x86 \<Rightarrow> u64 \<times> DCArgs_x86" where
  "fast_gnu_i64 args = default_i64 (args\<lparr>rx_fast_count := rx_fast_count args + 2\<rparr>)"

record DCArgsVT =
  vt_i32 :: "DCArgs_x86 \<Rightarrow> u32 \<times> DCArgs_x86"
  vt_i64 :: "DCArgs_x86 \<Rightarrow> u64 \<times> DCArgs_x86"
  vt_f32 :: "DCArgs_x86 \<Rightarrow> u32 \<times> DCArgs_x86"
  vt_f64 :: "DCArgs_x86 \<Rightarrow> u64 \<times> DCArgs_x86"

fun args_vtab_x86 :: "vt_args_x86 \<Rightarrow> DCArgsVT" where
  "args_vtab_x86 dcArgsVT_default =
     \<lparr>vt_i32 = default_i32, vt_i64 = default_i64, vt_f32 = default_f32, vt_f64 = default_f64\<rparr>"
| "args_vtab_x86 dcArgsVT_this_ms =
     \<lparr>vt_i32 = this_i32, vt_i64 = default_i64, vt_f32 = default_f32, vt_f64 = default_f64\<rparr>"
| "args_vtab_x86 dcArgsVT_fast_ms =
     \<lparr>vt_i32 = fast_i32, vt_i64 = default_i64, vt_f32 = default_f32, vt_f64 = default_f64\<rparr>"
| "args_vtab_x86 dcArgsVT_fast_gnu =
     \<lparr>vt_i32 = fast_i32, vt_i64 = fast_gnu_i64, vt_f32 = default_f32, vt_f64 = default_f64\<rparr>"

fun dcbArg_x86 :: "DCArgs_x86 \<Rightarrow> dcty \<Rightarrow> (u32, u32) dcarg \<times> DCArgs_x86" where
  "dcbArg_x86 p TBool = map_prod (\<lambda>x. ABool (if x = 0 then 0 else 1)) id (vt_i32 (args_vtab_x86 (rx_vt p)) p)"
| "dcbArg_x86 p TChar = map_prod (\<lambda>x. AChar (ucast x)) id (vt_i32 (args_vtab_x86 (rx_vt p)) p)"
| "dcbArg_x86 p TShort = map_prod (\<lambda>x. AShort (ucast x)) id (vt_i32 (args_vtab_x86 (rx_vt p)) p)"
| "dcbArg_x86 p TInt = map_prod AInt id (vt_i32 (args_vtab_x86 (rx_vt p)) p)"
| "dcbArg_x86 p TLong = map_prod ALong id (vt_i32 (args_vtab_x86 (rx_vt p)) p)"
| "dcbArg_x86 p TLongLong = map_prod ALongLong id (vt_i64 (args_vtab_x86 (rx_vt p)) p)"
| "dcbArg_x86 p TFloat = map_prod AFloat id (vt_f32 (args_vtab_x86 (rx_vt p)) p)"
| "dcbArg_x86 p TDouble = map_prod ADouble id (vt_f64 (args_vtab_x86 (rx_vt p)) p)"
| "dcbArg_x86 p TPointer = map_prod APointer id (vt_i32 (args_vtab_x86 (rx_vt p)) p)"

subsection \<open>Creation of a callback\<close>

text \<open>The sizes for the conventions in which the callee removes the arguments. The loops end at the closing
  parenthesis only: without one they run behind the NUL (\<open>None\<close>).\<close>

definition word_sigchars :: "char list" where
  "word_sigchars = [DC_SIGCHAR_BOOL, DC_SIGCHAR_CHAR, DC_SIGCHAR_SHORT, DC_SIGCHAR_INT, DC_SIGCHAR_LONG,
     DC_SIGCHAR_POINTER, DC_SIGCHAR_UCHAR, DC_SIGCHAR_USHORT, DC_SIGCHAR_UINT, DC_SIGCHAR_ULONG,
     DC_SIGCHAR_STRING]"

definition dcbCleanupSize_x86_cdecl :: "char list \<Rightarrow> u32 option" where
  "dcbCleanupSize_x86_cdecl signature = Some 0"

fun cleanup_std_loop :: "u32 \<Rightarrow> char list \<Rightarrow> u32 option" where
  "cleanup_std_loop sz [] = None"
| "cleanup_std_loop sz (ch # ptr) =
     (if ch = DC_SIGCHAR_ENDARG then Some sz
      else cleanup_std_loop
        (if ch \<in> set word_sigchars \<or> ch = DC_SIGCHAR_FLOAT then sz + 4
         else if ch \<in> {DC_SIGCHAR_DOUBLE, DC_SIGCHAR_LONGLONG, DC_SIGCHAR_ULONGLONG} then sz + 8
         else sz) ptr)"

definition dcbCleanupSize_x86_std :: "char list \<Rightarrow> u32 option" where
  "dcbCleanupSize_x86_std signature = cleanup_std_loop 0 signature"

fun cleanup_this_ms_loop :: "u32 \<Rightarrow> char list \<Rightarrow> u32 option" where
  "cleanup_this_ms_loop sz [] = None"
| "cleanup_this_ms_loop sz (ch # ptr) =
     (if ch = DC_SIGCHAR_ENDARG then Some sz
      else cleanup_this_ms_loop
        (if ch \<in> set word_sigchars \<or> ch = DC_SIGCHAR_FLOAT then sz + 4
         else if ch \<in> {DC_SIGCHAR_DOUBLE, DC_SIGCHAR_LONGLONG, DC_SIGCHAR_ULONGLONG} then sz + 8
         else sz) ptr)"

definition dcbCleanupSize_x86_this_ms :: "char list \<Rightarrow> u32 option" where
  "dcbCleanupSize_x86_this_ms signature = cleanup_this_ms_loop 0 signature"

fun cleanup_fast_ms_loop :: "nat \<Rightarrow> u32 \<Rightarrow> char list \<Rightarrow> u32 option" where
  "cleanup_fast_ms_loop regs sz [] = None"
| "cleanup_fast_ms_loop regs sz (ch # ptr) =
     (if ch = DC_SIGCHAR_ENDARG then Some sz
      else if ch \<in> set word_sigchars then
        (if regs < 2 then cleanup_fast_ms_loop (regs + 1) sz ptr else cleanup_fast_ms_loop regs (sz + 4) ptr)
      else if ch = DC_SIGCHAR_FLOAT then cleanup_fast_ms_loop regs (sz + 4) ptr
      else if ch = DC_SIGCHAR_DOUBLE then cleanup_fast_ms_loop regs (sz + 8) ptr
      else if ch \<in> {DC_SIGCHAR_LONGLONG, DC_SIGCHAR_ULONGLONG} then cleanup_fast_ms_loop regs (sz + 8) ptr
      else cleanup_fast_ms_loop regs sz ptr)"

definition dcbCleanupSize_x86_fast_ms :: "char list \<Rightarrow> u32 option" where
  "dcbCleanupSize_x86_fast_ms signature = cleanup_fast_ms_loop 0 0 signature"

fun cleanup_fast_gnu_loop :: "nat \<Rightarrow> u32 \<Rightarrow> char list \<Rightarrow> u32 option" where
  "cleanup_fast_gnu_loop regs sz [] = None"
| "cleanup_fast_gnu_loop regs sz (ch # ptr) =
     (if ch = DC_SIGCHAR_ENDARG then Some sz
      else if ch = DC_SIGCHAR_FLOAT then cleanup_fast_gnu_loop regs (sz + 4) ptr
      else if ch = DC_SIGCHAR_DOUBLE then cleanup_fast_gnu_loop regs (sz + 8) ptr
      else if ch \<in> {DC_SIGCHAR_LONGLONG, DC_SIGCHAR_ULONGLONG} then cleanup_fast_gnu_loop 2 (sz + 8) ptr
      else if regs < 2 then cleanup_fast_gnu_loop (regs + 1) sz ptr
      else cleanup_fast_gnu_loop regs (sz + 4) ptr)"

definition dcbCleanupSize_x86_fast_gnu :: "char list \<Rightarrow> u32 option" where
  "dcbCleanupSize_x86_fast_gnu signature = cleanup_fast_gnu_loop 0 0 signature"

record DCCallback_x86 =
  cb_handler :: u32
  cb_args_vt :: vt_args_x86
  cb_stack_cleanup :: u32
  cb_userdata :: u32

text \<open>Mode and position behind a prefix; the position is \<open>None\<close> behind the NUL.\<close>

fun x86_hint :: "char list \<Rightarrow> u32 \<times> char list option" where
  "x86_hint signature =
     (case signature of
        c # r \<Rightarrow>
          if c = DC_SIGCHAR_CC_PREFIX then
            (case r of [] \<Rightarrow> (dcGetModeFromCCSigChar (CHR 0x00), None)
             | d # ptr \<Rightarrow> (dcGetModeFromCCSigChar d, Some ptr))
          else (DC_CALL_C_X86_CDECL, Some signature)
      | [] \<Rightarrow> (DC_CALL_C_X86_CDECL, Some signature))"

text \<open>On Plan 9 the field for the cleanup says whether the return type has 64 bits.\<close>

fun plan9_ret64 :: "char list \<Rightarrow> bool option" where
  "plan9_ret64 [] = None"
| "plan9_ret64 (c # r) =
     (if c = DC_SIGCHAR_ENDARG
      then Some (case r of [] \<Rightarrow> False | d # _ \<Rightarrow> d = DC_SIGCHAR_LONGLONG \<or> d = DC_SIGCHAR_ULONGLONG)
      else plan9_ret64 r)"

text \<open>\<open>pcb\<close> holds what the memory held before: a mode without a case leaves the two fields as they were.
  The \<open>aggrs\<close> are not used.\<close>

definition dcbInitCallback2_x86 ::
  "bool \<Rightarrow> bool \<Rightarrow> DCCallback_x86 \<Rightarrow> char list \<Rightarrow> u32 \<Rightarrow> u32 \<Rightarrow> DCCallback_x86 option" where
  "dcbInitCallback2_x86 plan9 msvc pcb signature handler userdata =
     (let pcb = pcb\<lparr>cb_handler := handler, cb_userdata := userdata\<rparr>;
          (mode, pos) = x86_hint signature;
          configure = (\<lambda>vt size. Option.bind pos (\<lambda>ptr.
            map_option (\<lambda>n. pcb\<lparr>cb_args_vt := vt, cb_stack_cleanup := n\<rparr>) (size ptr)))
      in Option.bind
           (if mode = DC_CALL_C_X86_CDECL then configure dcArgsVT_default dcbCleanupSize_x86_cdecl
            else if mode = DC_CALL_C_X86_WIN32_STD then configure dcArgsVT_default dcbCleanupSize_x86_std
            else if mode = DC_CALL_C_X86_WIN32_FAST_MS then configure dcArgsVT_fast_ms dcbCleanupSize_x86_fast_ms
            else if mode = DC_CALL_C_X86_WIN32_FAST_GNU then configure dcArgsVT_fast_gnu dcbCleanupSize_x86_fast_gnu
            else if msvc \<and> mode = DC_CALL_C_DEFAULT_THIS \<or> mode = DC_CALL_C_X86_WIN32_THIS_MS
                 then configure dcArgsVT_this_ms dcbCleanupSize_x86_this_ms
            else Some pcb)
           (\<lambda>pcb. if plan9 then
                map_option (\<lambda>ptr. case plan9_ret64 ptr of None \<Rightarrow> pcb
                  | Some b \<Rightarrow> pcb\<lparr>cb_stack_cleanup := (if b then 1 else 0)\<rparr>) pos
              else Some pcb))"

subsection \<open>What a kernel hands to a callback\<close>

text \<open>
  The stack of the callee from its first argument (behind the copied bytes the frame of the caller), ECX and
  EDX. \<open>regs\<close> is what those hold when the kernel does not set them. The entry saves both and
  clears the counter. System calls and the kernels of Plan 9 do not enter a callback here.
\<close>

fun entry_x86 :: "vt_args_x86 \<Rightarrow> (nat \<Rightarrow> u32) \<Rightarrow> mem \<Rightarrow> x86_kernel \<Rightarrow> DCArgs_x86 option" where
  "entry_x86 vt regs caller (dcCall_x86_cdecl c) = Some
     \<lparr>rx_vt = vt, rx_sp = 0,
      rx_mem = stack_copy caller (unat ((x86c_size c + 15) AND (- 16))) (x86c_stackdata c),
      rx_fast_data = regs, rx_fast_count = 0\<rparr>"
| "entry_x86 vt regs caller (dcCall_x86_win32_std c) = Some
     \<lparr>rx_vt = vt, rx_sp = 0, rx_mem = stack_copy caller (unat (x86c_size c)) (x86c_stackdata c),
      rx_fast_data = regs, rx_fast_count = 0\<rparr>"
| "entry_x86 vt regs caller (dcCall_x86_win32_msthis c) = Some
     \<lparr>rx_vt = vt, rx_sp = 0,
      rx_mem = stack_copy caller (unat (x86c_size c - 4)) (\<lambda>j. x86c_stackdata c (4 + j)),
      rx_fast_data = regs(0 := obj_word LE (read_at (x86c_stackdata c) 0 4)), rx_fast_count = 0\<rparr>"
| "entry_x86 vt regs caller (dcCall_x86_win32_fast c) = Some
     \<lparr>rx_vt = vt, rx_sp = 0,
      rx_mem = stack_copy caller (unat (x86c_size c - 8)) (\<lambda>j. x86c_stackdata c (8 + j)),
      rx_fast_data = regs(0 := obj_word LE (read_at (x86c_stackdata c) 0 4),
                          1 := obj_word LE (read_at (x86c_stackdata c) 4 4)),
      rx_fast_count = 0\<rparr>"
| "entry_x86 vt regs caller _ = None"

subsection \<open>Stack conventions\<close>

definition x86_reader :: "vt_args_x86 \<Rightarrow> (nat \<Rightarrow> u32) \<Rightarrow> mem \<Rightarrow> (x86_call \<Rightarrow> x86_kernel) \<Rightarrow> DCCallVM_x86 \<Rightarrow> DCArgs_x86" where
  "x86_reader vt regs caller k F = the (entry_x86 vt regs caller (k (x86_call_of F 0)))"

text \<open>The kernels of the two conventions with all arguments on the stack.\<close>

definition stack_kernel :: "bool \<Rightarrow> x86_call \<Rightarrow> x86_kernel" where
  "stack_kernel std = (if std then dcCall_x86_win32_std else dcCall_x86_cdecl)"

lemma x86_stack_read:
  assumes "flat_ok (x86_vec F)"
    and "q + n \<le> unat (mSize (x86_vec F))"
  shows "read_at (rx_mem (x86_reader vt regs caller (stack_kernel std) F)) q n = read_at (mData (x86_vec F)) q n"
proof -
  let ?z = "mSize (x86_vec F)"
  have "unat ?z < 2 ^ 31" using assms(1) by (simp add: flat_ok_def vec_size_small)
  then have "unat ?z \<le> unat (mask_up ?z (2 ^ 4))" by (intro unat_mask_up_ge) simp_all
  moreover have "(?z + 15) AND (- 16) = mask_up ?z (2 ^ 4)" by (simp add: mask_up_def add.commute)
  ultimately show ?thesis
    using assms(2) by (auto simp: x86_reader_def x86_call_of_def stack_copy_read stack_kernel_def)
qed

lemma x86_reader_vt [simp]: "rx_vt (x86_reader vt regs caller (stack_kernel std) F) = vt"
  by (simp add: x86_reader_def stack_kernel_def)

interpretation x86: flat_transport "dcArg (vtab_x86 p m os)" x86_vec "\<lambda>s. \<not> x86_fast (mVTpointer s)" "\<lambda>_. False"
  "flat_bytes True LE" "\<lambda>F q. (x86_reader dcArgsVT_default regs caller (stack_kernel std) F)\<lparr>rx_sp := q\<rparr>"
  dcbArg_x86 arg_ty bool01 0
  for p m os regs caller std
proof unfold_locales
  fix F :: DCCallVM_x86 and q r and a :: "(u32, u32) dcarg"
  let ?n = "length (flat_bytes True LE a)" and ?r = "x86_reader dcArgsVT_default regs caller (stack_kernel std) F"
  assume "flat_ok (x86_vec F)" and r: "r = slot_at False q" and "r + ?n \<le> unat (mSize (x86_vec F))"
    and "read_at (mData (x86_vec F)) r ?n = flat_bytes True LE a"
  then have rd: "read_at (rx_mem ?r) q ?n = flat_bytes True LE a"
    by (simp add: x86_stack_read slot_at_def)
  show "dcbArg_x86 (?r\<lparr>rx_sp := q\<rparr>) (arg_ty a) = (bool01 a, ?r\<lparr>rx_sp := r + ?n\<rparr>)"
    using rd r
    by (cases a)
      (simp_all add: default_i32_def default_i64_def default_f32_def default_f64_def slot_at_def obj_word_obj_bytes
        ucast_scast_trunc)
qed (simp_all add: dcArg_x86_stack length_flat_bytes)

subsection \<open>Fastcalls\<close>

text \<open>The arguments that can travel in ECX and EDX.\<close>

definition is_reg :: "('l, 'p) dcarg \<Rightarrow> bool" where
  "is_reg a \<longleftrightarrow> \<not> is_fp a \<and> \<not> is_wide a"

fun is_longlong :: "('l, 'p) dcarg \<Rightarrow> bool" where
  "is_longlong (ALongLong _) = True"
| "is_longlong _ = False"

lemma dcArg_x86_fast:
  assumes "x86_fast (mVTpointer s)"
  shows "dcArg (vtab_x86 p m os) s a =
    (if is_reg a \<and> x86_mIntRegs s < 2
     then s\<lparr>x86_vec := dcVecAt_store (x86_vec s) (4 * x86_mIntRegs s) (flat_bytes True LE a),
            x86_mIntRegs := x86_mIntRegs s + 1\<rparr>
     else s\<lparr>x86_vec := dcVecAppend (x86_vec s) (flat_bytes True LE a),
            x86_mIntRegs := (if is_longlong a \<and> mVTpointer s = gVT_x86_win32_fast_gnu then 2 else x86_mIntRegs s)\<rparr>)"
  using assms by (cases "mVTpointer s"; cases a) (simp_all add: x86_vt_defs x86_op_defs x86_fast_def is_reg_def)

definition fast_pos :: "DCCallVM_x86 \<Rightarrow> nat" where
  "fast_pos s = unat (mSize (x86_vec s))"

definition fast_inv :: "vt_x86 \<Rightarrow> DCCallVM_x86 \<Rightarrow> bool" where
  "fast_inv i s \<longleftrightarrow> mVTpointer s = i \<and> x86_mIntRegs s \<le> 2 \<and> 8 \<le> fast_pos s \<and> flat_ok (x86_vec s)"

definition fast_fits :: "DCCallVM_x86 \<Rightarrow> (u32, u32) dcarg \<Rightarrow> bool" where
  "fast_fits s a \<longleftrightarrow> is_reg a \<and> x86_mIntRegs s < 2 \<or> vec_fits (x86_vec s) (word_cost False a)"

definition fast_keeps :: "DCCallVM_x86 \<Rightarrow> DCCallVM_x86 \<Rightarrow> bool" where
  "fast_keeps s t \<longleftrightarrow> x86_mIntRegs s \<le> x86_mIntRegs t \<and> fast_pos s \<le> fast_pos t \<and> flat_ok (x86_vec t) \<and>
     (\<forall>j. j < 4 * x86_mIntRegs s \<or> 8 \<le> j \<and> j < fast_pos s \<longrightarrow> mData (x86_vec t) j = mData (x86_vec s) j)"

definition fast_reads ::
  "vt_args_x86 \<Rightarrow> (nat \<Rightarrow> u32) \<Rightarrow> mem \<Rightarrow> DCArgs_x86 \<Rightarrow> DCCallVM_x86 \<Rightarrow> DCCallVM_x86 \<Rightarrow> bool" where
  "fast_reads vt regs caller r F s \<longleftrightarrow>
     rx_mem r = rx_mem (x86_reader vt regs caller dcCall_x86_win32_fast F) \<and>
     rx_fast_data r = rx_fast_data (x86_reader vt regs caller dcCall_x86_win32_fast F) \<and>
     rx_vt r = vt \<and> rx_sp r = fast_pos s - 8 \<and>
     (rx_fast_count r = x86_mIntRegs s \<or> 2 \<le> rx_fast_count r \<and> x86_mIntRegs s = 2)"

lemma fast_store:
  fixes x :: u32
  assumes "fast_inv i s" and "x86_mIntRegs s < 2"
  defines "t \<equiv> s\<lparr>x86_vec := dcVecAt_store (x86_vec s) (4 * x86_mIntRegs s) (obj_bytes LE 4 x),
                x86_mIntRegs := x86_mIntRegs s + 1\<rparr>"
  shows "fast_inv i t" and "fast_keeps s t" and "fast_pos t = fast_pos s"
    and "fast_keeps t F \<Longrightarrow>
      rx_fast_data (x86_reader vt regs caller dcCall_x86_win32_fast F) (x86_mIntRegs s) = x"
proof -
  show p: "fast_pos t = fast_pos s" by (simp add: t_def fast_pos_def)
  show "fast_inv i t" using assms(1,2) p by (simp add: t_def fast_inv_def flat_ok_def)
  show "fast_keeps s t" using assms(1,2) p by (auto simp: t_def fast_keeps_def fast_inv_def flat_ok_def)
  assume "fast_keeps t F"
  then have "read_at (mData (x86_vec F)) (4 * x86_mIntRegs s) 4 = read_at (mData (x86_vec t)) (4 * x86_mIntRegs s) 4"
    using assms(2) by (intro read_at_cong) (auto simp: fast_keeps_def t_def)
  then have "read_at (mData (x86_vec F)) (4 * x86_mIntRegs s) 4 = obj_bytes LE 4 x"
    by (simp add: t_def read_at_write_at)
  with assms(2) show "rx_fast_data (x86_reader vt regs caller dcCall_x86_win32_fast F) (x86_mIntRegs s) = x"
    by (auto simp: x86_reader_def x86_call_of_def obj_word_obj_bytes less_2_cases_iff)
qed

lemma fast_append:
  fixes bs :: "byte list"
  assumes "fast_inv i s" and "vec_fits (x86_vec s) (length bs)" and "x86_mIntRegs s \<le> n" and "n \<le> 2"
  defines "t \<equiv> s\<lparr>x86_vec := dcVecAppend (x86_vec s) bs, x86_mIntRegs := n\<rparr>"
  shows "fast_inv i t" and "fast_keeps s t" and "fast_pos t = fast_pos s + length bs"
    and "fast_keeps t F \<Longrightarrow>
      read_at (rx_mem (x86_reader vt regs caller dcCall_x86_win32_fast F)) (fast_pos s - 8) (length bs) = bs"
proof -
  show p: "fast_pos t = fast_pos s + length bs"
    using assms(2) by (simp add: t_def fast_pos_def vec_append_used)
  show "fast_inv i t" using assms(1,4) p by (simp add: t_def fast_inv_def flat_ok_def vec_ok_append)
  show "fast_keeps s t"
    using assms(1,3) p by (auto simp: t_def fast_keeps_def fast_inv_def flat_ok_def vec_ok_append fast_pos_def)
  assume k: "fast_keeps t F"
  have s8: "8 \<le> fast_pos s" using assms(1) by (simp add: fast_inv_def)
  have "read_at (mData (x86_vec F)) (fast_pos s) (length bs) = read_at (mData (x86_vec t)) (fast_pos s) (length bs)"
    using k p s8 by (intro read_at_cong) (auto simp: fast_keeps_def)
  then have rd: "read_at (mData (x86_vec F)) (fast_pos s) (length bs) = bs"
    using assms(2) by (simp add: t_def dcVecAppend_fits fast_pos_def read_at_write_at)
  have "fast_pos s + length bs \<le> fast_pos F" using k p by (simp add: fast_keeps_def)
  moreover have "unat (mSize (x86_vec F) - 8) = fast_pos F - 8"
    using s8 calculation by (simp add: fast_pos_def unat_sub_if')
  ultimately show "read_at (rx_mem (x86_reader vt regs caller dcCall_x86_win32_fast F)) (fast_pos s - 8) (length bs) = bs"
    using rd s8 by (simp add: x86_reader_def x86_call_of_def stack_copy_read read_at_shift)
qed

lemma fast_push:
  fixes p m :: bool and os :: x86_os
  assumes "fast_inv i s" and "x86_fast i" and "fast_fits s a"
  defines "t \<equiv> dcArg (vtab_x86 p m os) s a"
  shows "fast_inv i t" and "fast_keeps s t" and "fast_pos t \<le> fast_pos s + word_cost False a"
    and "mTotal (x86_vec t) = mTotal (x86_vec s)"
proof -
  have n: "x86_mIntRegs s \<le> 2" and vt: "mVTpointer s = i" using assms(1) by (simp_all add: fast_inv_def)
  note t = t_def [unfolded dcArg_x86_fast [OF assms(2) [folded vt]]]
  show "mTotal (x86_vec t) = mTotal (x86_vec s)" by (simp add: t)
  have "fast_inv i t \<and> fast_keeps s t \<and> fast_pos t \<le> fast_pos s + word_cost False a"
  proof (cases "is_reg a \<and> x86_mIntRegs s < 2")
    case True
    then have "length (flat_bytes True LE a) = 4" by (simp add: length_flat_bytes is_reg_def)
    moreover obtain x :: u32 where "flat_bytes True LE a = obj_bytes LE 4 x"
      using True by (cases a) (auto simp: is_reg_def)
    ultimately show ?thesis using True fast_store [OF assms(1), where x = x] by (simp add: t)
  next
    case False
    with assms(3) have f: "vec_fits (x86_vec s) (length (flat_bytes True LE a))"
      by (auto simp: fast_fits_def length_flat_bytes word_cost_def)
    show ?thesis
      using False fast_append [OF assms(1) f, of 2] fast_append [OF assms(1) f, of "x86_mIntRegs s"] n
      by (auto simp: t length_flat_bytes word_cost_def)
  qed
  then show "fast_inv i t" and "fast_keeps s t" and "fast_pos t \<le> fast_pos s + word_cost False a" by simp_all
qed

text \<open>The table of a VM and the reader of its callbacks.\<close>

fun fast_reader :: "vt_x86 \<Rightarrow> vt_args_x86" where
  "fast_reader gVT_x86_win32_fast_gnu = dcArgsVT_fast_gnu"
| "fast_reader _ = dcArgsVT_fast_ms"

lemma fast_i32_vt: "x86_fast i \<Longrightarrow> vt_i32 (args_vtab_x86 (fast_reader i)) = fast_i32"
  by (cases i) (auto simp: x86_fast_def)

lemma fast_other_vt:
  "x86_fast i \<Longrightarrow> vt_f32 (args_vtab_x86 (fast_reader i)) = default_f32"
  "x86_fast i \<Longrightarrow> vt_f64 (args_vtab_x86 (fast_reader i)) = default_f64"
  "x86_fast i \<Longrightarrow> vt_i64 (args_vtab_x86 (fast_reader i)) =
     (if i = gVT_x86_win32_fast_gnu then fast_gnu_i64 else default_i64)"
  by (cases i; auto simp: x86_fast_def)+

lemma fast_pop:
  assumes "fast_inv i s" and "x86_fast i" and "fast_fits s a" and "fast_keeps (dcArg (vtab_x86 p m os) s a) F"
    and "fast_reads (fast_reader i) regs caller r F s"
  shows "fst (dcbArg_x86 r (arg_ty a)) = bool01 a \<and>
    fast_reads (fast_reader i) regs caller (snd (dcbArg_x86 r (arg_ty a))) F (dcArg (vtab_x86 p m os) s a)"
proof -
  define t where "t = dcArg (vtab_x86 p m os) s a"
  have n: "x86_mIntRegs s \<le> 2" and vt: "mVTpointer s = i" and s8: "8 \<le> fast_pos s"
    using assms(1) by (simp_all add: fast_inv_def)
  note t = t_def [unfolded dcArg_x86_fast [OF assms(2) [folded vt]]]
  have k: "fast_keeps t F" using assms(4) by (simp add: t_def)
  note r = assms(5) [unfolded fast_reads_def]
  note vts = fast_i32_vt [OF assms(2)] fast_other_vt [OF assms(2)]
  have "fst (dcbArg_x86 r (arg_ty a)) = bool01 a \<and>
    fast_reads (fast_reader i) regs caller (snd (dcbArg_x86 r (arg_ty a))) F t"
  proof (cases "is_reg a \<and> x86_mIntRegs s < 2")
    case True
    obtain x :: u32 where x: "flat_bytes True LE a = obj_bytes LE 4 x"
      using True by (cases a) (auto simp: is_reg_def)
    note st = fast_store [OF assms(1), of x, folded x]
    have "rx_fast_data r (x86_mIntRegs s) = x" and "fast_pos t = fast_pos s"
      and "x86_mIntRegs t = x86_mIntRegs s + 1" and "rx_fast_count r = x86_mIntRegs s"
      using True st(3,4) k r by (auto simp: t)
    moreover have "x = obj_word LE (flat_bytes True LE a)" by (simp add: x obj_word_obj_bytes)
    ultimately show ?thesis
      using True r
      by (cases a) (simp_all add: is_reg_def vts fast_i32_def fast_reads_def ucast_scast_trunc obj_word_obj_bytes)
  next
    case False
    with assms(3) have f: "vec_fits (x86_vec s) (length (flat_bytes True LE a))"
      by (auto simp: fast_fits_def length_flat_bytes word_cost_def)
    note t2 = t [unfolded if_not_P [OF False]]
    have t': "t = s\<lparr>x86_vec := dcVecAppend (x86_vec s) (flat_bytes True LE a), x86_mIntRegs := x86_mIntRegs t\<rparr>"
        "x86_mIntRegs s \<le> x86_mIntRegs t" "x86_mIntRegs t \<le> 2"
      using n by (simp_all add: t2)
    have pos: "fast_pos t = fast_pos s + length (flat_bytes True LE a)"
      by (subst t'(1)) (rule fast_append(3) [OF assms(1) f t'(2,3)])
    have rd: "read_at (rx_mem r) (rx_sp r) (length (flat_bytes True LE a)) = flat_bytes True LE a"
      using fast_append(4) [OF assms(1) f t'(2,3), of F "fast_reader i" regs caller] k r by (simp flip: t'(1))
    have cnt: "is_reg a \<Longrightarrow> \<not> rx_fast_count r < 2"
        "x86_mIntRegs t = (if is_longlong a \<and> i = gVT_x86_win32_fast_gnu then 2 else x86_mIntRegs s)"
      using False r n vt by (auto simp: t2)
    show ?thesis
      using r rd pos s8 cnt n
      by (cases a)
        (auto simp: is_reg_def vts fast_i32_def fast_gnu_i64_def default_i32_def default_i64_def default_f32_def
          default_f64_def fast_reads_def ucast_scast_trunc obj_word_obj_bytes)
  qed
  then show ?thesis by (simp only: t_def)
qed

lemma fast_keeps_trans: "fast_keeps s t \<Longrightarrow> fast_keeps t u \<Longrightarrow> fast_keeps s u"
  unfolding fast_keeps_def by (auto dest: order_trans)

interpretation x86f: arg_transport_rel_cap "dcArg (vtab_x86 p m os)" fast_fits
  "\<lambda>s. x86_fast i \<and> fast_inv i s" fast_keeps "fast_reads (fast_reader i) regs caller" dcbArg_x86 arg_ty bool01
  fast_pos "\<lambda>s. unat (mTotal (x86_vec s))" "word_cost False"
  for p m os i regs caller
proof unfold_locales
  fix s a F r
  assume inv: "x86_fast i \<and> fast_inv i s"
  then have x: "x86_fast i" and i: "fast_inv i s" by simp_all
  show "fast_keeps s s" using i by (simp add: fast_keeps_def fast_inv_def)
  show "fast_pos s + word_cost False a \<le> unat (mTotal (x86_vec s)) \<Longrightarrow> fast_fits s a"
    by (simp add: fast_fits_def vec_fits_def fast_pos_def)
  assume f: "fast_fits s a"
  note push = fast_push [OF i x f, of p m os]
  show "x86_fast i \<and> fast_inv i (dcArg (vtab_x86 p m os) s a)" using x push(1) by simp
  show "fast_keeps s (dcArg (vtab_x86 p m os) s a)" by (rule push(2))
  show "fast_pos (dcArg (vtab_x86 p m os) s a) \<le> fast_pos s + word_cost False a" by (rule push(3))
  show "unat (mTotal (x86_vec (dcArg (vtab_x86 p m os) s a))) = unat (mTotal (x86_vec s))" by (simp only: push(4))
  assume "fast_keeps (dcArg (vtab_x86 p m os) s a) F" and "fast_reads (fast_reader i) regs caller r F s"
  from fast_pop [OF i x f this]
  show "fst (dcbArg_x86 r (arg_ty a)) = bool01 a \<and>
    fast_reads (fast_reader i) regs caller (snd (dcbArg_x86 r (arg_ty a))) F (dcArg (vtab_x86 p m os) s a)" .
qed (rule fast_keeps_trans)

subsection \<open>What the callee removes\<close>

abbreviation arg_char :: "(u32, u32) dcarg \<Rightarrow> char" where
  "arg_char a \<equiv> farg_sig (FScalar a :: (u32, u32) farg)"

lemma arg_char_word: "arg_char a \<in> set word_sigchars \<longleftrightarrow> is_reg a"
  by (cases a) (simp_all add: word_sigchars_def is_reg_def)

lemma arg_char_fp:
  "arg_char a = DC_SIGCHAR_FLOAT \<longleftrightarrow> is_fp a \<and> \<not> is_wide a"
  "arg_char a = DC_SIGCHAR_DOUBLE \<longleftrightarrow> is_fp a \<and> is_wide a"
  "arg_char a = DC_SIGCHAR_LONGLONG \<longleftrightarrow> is_longlong a"
  "arg_char a \<noteq> DC_SIGCHAR_ULONGLONG"
  by (cases a; simp)+

lemma is_longlong_wide: "is_longlong a \<Longrightarrow> is_wide a"
  by (cases a) simp_all

lemma cleanup_std_args:
  "cleanup_std_loop n (map arg_char xs @ DC_SIGCHAR_ENDARG # r)
     = Some (n + of_nat (sum_list (map (word_cost False) xs)))"
proof (induction xs arbitrary: n)
  case (Cons a xs)
  then show ?case by (cases a) (simp_all add: word_sigchars_def word_cost_def)
qed simp

lemma cleanup_this_ms_eq: "cleanup_this_ms_loop n sig = cleanup_std_loop n sig"
  by (induction n sig rule: cleanup_std_loop.induct) simp_all

lemma x86_stack_size:
  assumes "\<not> x86_fast (mVTpointer s)"
    and "unat (mSize (x86_vec s)) + sum_list (map (word_cost False) xs) \<le> unat (mTotal (x86_vec s))"
  shows "mSize (x86_vec (dcArgs (vtab_x86 p m os) s xs)) = mSize (x86_vec s) + of_nat (sum_list (map (word_cost False) xs))"
  using assms
proof (induction xs arbitrary: s)
  case (Cons a xs)
  let ?t = "s\<lparr>x86_vec := vec_slot False (flat_bytes True LE a) (x86_vec s)\<rparr>"
  have f: "vec_fits (x86_vec s) (length (flat_bytes True LE a))"
    using Cons.prems(2) by (auto simp: vec_fits_def length_flat_bytes word_cost_def)
  have len: "length (flat_bytes True LE a) = word_cost False a" by (simp add: length_flat_bytes word_cost_def)
  have "mSize (x86_vec ?t) = mSize (x86_vec s) + of_nat (word_cost False a)"
    using dcVecAppend_fits [OF f] by (simp add: vec_slot_def len)
  moreover have "unat (mSize (x86_vec ?t)) = unat (mSize (x86_vec s)) + word_cost False a"
    using vec_append_used [OF f] by (simp add: vec_slot_def len)
  ultimately show ?case
    using Cons.IH [of ?t] Cons.prems dcArg_x86_stack [OF Cons.prems(1), of p m os a] by (simp add: add.assoc)
qed simp

text \<open>The loops for the fastcalls count registers as the writer does.\<close>

lemma x86_fast_size:
  assumes "fast_inv i s" and "x86_fast i"
    and "fast_pos s + sum_list (map (word_cost False) xs) \<le> unat (mTotal (x86_vec s))"
  shows "(if i = gVT_x86_win32_fast_gnu then cleanup_fast_gnu_loop else cleanup_fast_ms_loop) (x86_mIntRegs s) n
            (map arg_char xs @ DC_SIGCHAR_ENDARG # r)
       = Some (n + (mSize (x86_vec (dcArgs (vtab_x86 p m os) s xs)) - mSize (x86_vec s)))"
  using assms
proof (induction xs arbitrary: s n)
  case (Cons a xs)
  define t where "t = dcArg (vtab_x86 p m os) s a"
  have fit: "fast_fits s a" using Cons.prems(3) by (simp add: fast_fits_def vec_fits_def fast_pos_def)
  note push = fast_push [OF Cons.prems(1,2) fit, of p m os, folded t_def]
  have vt: "mVTpointer s = i" using Cons.prems(1) by (simp add: fast_inv_def)
  have b: "fast_pos t + sum_list (map (word_cost False) xs) \<le> unat (mTotal (x86_vec t))"
    using Cons.prems(3) push(3,4) by simp
  note IH = Cons.IH [OF push(1) Cons.prems(2) b]
  have step: "dcArgs (vtab_x86 p m os) s (a # xs) = dcArgs (vtab_x86 p m os) t xs" by (simp add: t_def)
  have "(if i = gVT_x86_win32_fast_gnu then cleanup_fast_gnu_loop else cleanup_fast_ms_loop) (x86_mIntRegs s) n
            (map arg_char (a # xs) @ DC_SIGCHAR_ENDARG # r)
       = Some (n + (mSize (x86_vec (dcArgs (vtab_x86 p m os) t xs)) - mSize (x86_vec s)))"
  proof (cases "is_reg a \<and> x86_mIntRegs s < 2")
    case True
    then have "mSize (x86_vec t) = mSize (x86_vec s)" "x86_mIntRegs t = x86_mIntRegs s + 1"
      using dcArg_x86_fast [OF Cons.prems(2) [folded vt], of p m os a] by (simp_all add: t_def)
    with IH [of n] True show ?thesis
      by (cases "i = gVT_x86_win32_fast_gnu")
        (auto simp: arg_char_word arg_char_fp is_reg_def dest: is_longlong_wide)
  next
    case False
    then have t: "t = s\<lparr>x86_vec := dcVecAppend (x86_vec s) (flat_bytes True LE a),
            x86_mIntRegs := (if is_longlong a \<and> i = gVT_x86_win32_fast_gnu then 2 else x86_mIntRegs s)\<rparr>"
      unfolding t_def dcArg_x86_fast [OF Cons.prems(2) [folded vt]] vt by (rule if_not_P)
    have f: "vec_fits (x86_vec s) (length (flat_bytes True LE a))"
      using False fit by (auto simp: fast_fits_def length_flat_bytes word_cost_def)
    have "mSize (x86_vec t) = mSize (x86_vec s) + of_nat (word_cost False a)"
      using dcVecAppend_fits [OF f] by (simp add: t length_flat_bytes word_cost_def)
    moreover have "x86_mIntRegs t = (if is_longlong a \<and> i = gVT_x86_win32_fast_gnu then 2 else x86_mIntRegs s)"
      by (simp add: t)
    ultimately show ?thesis
      using IH [of "n + of_nat (word_cost False a)"] False
      by (cases a; cases "i = gVT_x86_win32_fast_gnu")
        (simp_all add: is_reg_def word_cost_def word_sigchars_def algebra_simps)
  qed
  then show ?case by (simp only: step)
qed simp

subsection \<open>Calls and callbacks together\<close>

text \<open>The signature prefixes of four conventions, the tables they select and what the callee removes.\<close>

definition x86_conv :: "char \<Rightarrow> (vt_x86 \<times> vt_args_x86) option" where
  "x86_conv ch =
     (if ch = DC_SIGCHAR_CC_CDECL then Some (gVT_x86_cdecl, dcArgsVT_default)
      else if ch = DC_SIGCHAR_CC_STDCALL then Some (gVT_x86_win32_std, dcArgsVT_default)
      else if ch = DC_SIGCHAR_CC_FASTCALL_MS then Some (gVT_x86_win32_fast_ms, dcArgsVT_fast_ms)
      else if ch = DC_SIGCHAR_CC_FASTCALL_GNU then Some (gVT_x86_win32_fast_gnu, dcArgsVT_fast_gnu)
      else None)"

lemma x86_conv_cases:
  assumes "x86_conv ch = Some (i, v)"
  obtains "ch = DC_SIGCHAR_CC_CDECL" "i = gVT_x86_cdecl" "v = dcArgsVT_default"
  | "ch = DC_SIGCHAR_CC_STDCALL" "i = gVT_x86_win32_std" "v = dcArgsVT_default"
  | "ch = DC_SIGCHAR_CC_FASTCALL_MS" "i = gVT_x86_win32_fast_ms" "v = dcArgsVT_fast_ms"
  | "ch = DC_SIGCHAR_CC_FASTCALL_GNU" "i = gVT_x86_win32_fast_gnu" "v = dcArgsVT_fast_gnu"
  using assms by (auto simp: x86_conv_def split: if_splits)

text \<open>The bytes a kernel pushes for the callee.\<close>

fun pushed_bytes :: "x86_kernel \<Rightarrow> u32" where
  "pushed_bytes (dcCall_x86_win32_std c) = x86c_size c"
| "pushed_bytes (dcCall_x86_win32_fast c) = x86c_size c - 8"
| "pushed_bytes (dcCall_x86_win32_msthis c) = x86c_size c - 4"
| "pushed_bytes (dcCall_x86_cdecl c) = (x86c_size c + 15) AND (- 16)"
| "pushed_bytes _ = 0"

lemma dcMode_x86_conv:
  assumes "x86_conv ch = Some (i, v)"
  shows "dcMode (vtab_x86 False m os) vm (dcGetModeFromCCSigChar ch) = dc_callvm_base_init vm i"
  using assms
  by (rule x86_conv_cases)
    (cases "mVTpointer vm"; simp add: dcMode_def x86_vt_defs dc_callvm_mode_x86_def dcGetModeFromCCSigChar_def)+

lemma mVTpointer_dcArgs_stack:
  "\<not> x86_fast (mVTpointer s) \<Longrightarrow> mVTpointer (dcArgs (vtab_x86 p m os) s xs) = mVTpointer s"
  by (induction xs arbitrary: s) (simp_all add: dcArg_x86_stack)

lemma x86_stack_conv:
  assumes "i = (if std then gVT_x86_win32_std else gVT_x86_cdecl)" and "mVTpointer vm = i"
    and "unat (mTotal (x86_vec vm)) < 2 ^ 31" and "sum_list (map (word_cost False) xs) \<le> unat (mTotal (x86_vec vm))"
    and k_def: "k = snd (dcCall (vtab_x86 p m os) c (dcArgs (vtab_x86 p m os) (dcReset (vtab_x86 p m os) vm) xs) target)"
  shows "\<exists>r. entry_x86 dcArgsVT_default regs caller k = Some r \<and> fst (pop_all dcbArg_x86 r (map arg_ty xs)) = map bool01 xs"
    and "std \<Longrightarrow> pushed_bytes k = of_nat (sum_list (map (word_cost False) xs))"
proof -
  let ?s = "dcReset (vtab_x86 p m os) vm" and ?F = "dcArgs (vtab_x86 p m os) (dcReset (vtab_x86 p m os) vm) xs"
  have s: "?s = dc_callvm_reset_x86 vm" "mVTpointer ?s = i"
    using assms(1,2) by (simp_all add: dcReset_def x86_vt_defs dc_callvm_reset_x86_def)
  have vtF: "mVTpointer ?F = i"
    using mVTpointer_dcArgs_stack [of ?s p m os xs] s(2) assms(1) by (simp add: x86_fast_def)
  have k: "k = stack_kernel std (x86_call_of ?F target)"
    using vtF assms(1) by (simp add: k_def dcCall_def x86_vt_defs x86_call_defs stack_kernel_def)
  have "fst (pop_all dcbArg_x86
      ((x86_reader dcArgsVT_default regs caller (stack_kernel std) (push_all (dcArg (vtab_x86 p m os)) ?s xs))\<lparr>rx_sp := 0\<rparr>)
      (map arg_ty xs)) = map bool01 xs"
    by (rule x86.flat_round_trip)
      (use assms(1,3,4) s slot_cost_flat [of False _ True LE] in
        \<open>simp_all add: dc_callvm_reset_x86_def dcVecReset_def x86_fast_def\<close>)
  moreover have "entry_x86 dcArgsVT_default regs caller k
      = Some ((x86_reader dcArgsVT_default regs caller (stack_kernel std) ?F)\<lparr>rx_sp := 0\<rparr>)"
    by (simp add: k x86_reader_def stack_kernel_def x86_call_of_def)
  ultimately show "\<exists>r. entry_x86 dcArgsVT_default regs caller k = Some r \<and>
      fst (pop_all dcbArg_x86 r (map arg_ty xs)) = map bool01 xs"
    by (simp add: push_all_dcArgs)
  show "pushed_bytes k = of_nat (sum_list (map (word_cost False) xs))" if std
    using x86_stack_size [of ?s xs p m os] s assms(1,4) that
    by (simp add: k stack_kernel_def x86_call_of_def x86_fast_def dc_callvm_reset_x86_def dcVecReset_def)
qed

lemma x86_fast_conv:
  assumes "x86_fast i" and "mVTpointer vm = i" and "unat (mTotal (x86_vec vm)) < 2 ^ 31"
    and "8 + sum_list (map (word_cost False) xs) \<le> unat (mTotal (x86_vec vm))"
    and k_def: "k = snd (dcCall (vtab_x86 p m os) c (dcArgs (vtab_x86 p m os) (dcReset (vtab_x86 p m os) vm) xs) target)"
  shows "\<exists>r. entry_x86 (fast_reader i) regs caller k = Some r \<and> fst (pop_all dcbArg_x86 r (map arg_ty xs)) = map bool01 xs"
    and "(if i = gVT_x86_win32_fast_gnu then dcbCleanupSize_x86_fast_gnu else dcbCleanupSize_x86_fast_ms)
           (map arg_char xs @ DC_SIGCHAR_ENDARG # rest) = Some (pushed_bytes k)"
proof -
  let ?s = "dcReset (vtab_x86 p m os) vm" and ?F = "dcArgs (vtab_x86 p m os) (dcReset (vtab_x86 p m os) vm) xs"
  have s: "?s = dc_callvm_reset_x86_win32_fast vm"
    using assms(1,2) by (auto simp: dcReset_def x86_vt_defs x86_fast_def)
  have inv: "fast_inv i ?s"
    using assms(2-4) by (simp add: s dc_callvm_reset_x86_win32_fast_def fast_inv_def fast_pos_def flat_ok_def
        vec_ok_def dcVecResize_def word_le_nat_alt)
  have cap: "fast_pos ?s + sum_list (map (word_cost False) xs) \<le> unat (mTotal (x86_vec ?s))"
    using assms(4) by (simp add: s dc_callvm_reset_x86_win32_fast_def fast_pos_def dcVecResize_def)
  have "x86_fast i \<and> fast_inv i ?F"
    using x86f.rel_inv_push_all [OF conjI [OF assms(1) inv] x86f.rel_fits_all_if [OF conjI [OF assms(1) inv] cap]]
    by (simp add: push_all_dcArgs)
  then have vtF: "mVTpointer ?F = i" by (simp add: fast_inv_def)
  have k: "k = dcCall_x86_win32_fast (x86_call_of ?F target)"
    using vtF assms(1) by (auto simp: k_def dcCall_def x86_vt_defs x86_call_defs x86_fast_def)
  let ?r = "x86_reader (fast_reader i) regs caller dcCall_x86_win32_fast ?F"
  have "fast_reads (fast_reader i) regs caller ?r ?F ?s"
    by (simp add: fast_reads_def x86_reader_def s dc_callvm_reset_x86_win32_fast_def fast_pos_def dcVecResize_def)
  with x86f.rel_call_round_trip [OF conjI [OF assms(1) inv] cap, where p = p and m = m and os = os and regs = regs and caller = caller and r = ?r]
  have "fst (pop_all dcbArg_x86 ?r (map arg_ty xs)) = map bool01 xs" by (simp add: push_all_dcArgs)
  moreover have "entry_x86 (fast_reader i) regs caller k = Some ?r"
    by (simp add: k x86_reader_def x86_call_of_def)
  ultimately show "\<exists>r. entry_x86 (fast_reader i) regs caller k = Some r \<and>
      fst (pop_all dcbArg_x86 r (map arg_ty xs)) = map bool01 xs" by simp
  show "(if i = gVT_x86_win32_fast_gnu then dcbCleanupSize_x86_fast_gnu else dcbCleanupSize_x86_fast_ms)
      (map arg_char xs @ DC_SIGCHAR_ENDARG # rest) = Some (pushed_bytes k)"
    using x86_fast_size [OF inv assms(1) cap, of 0 rest p m os]
    by (auto simp: k x86_call_of_def dcbCleanupSize_x86_fast_gnu_def dcbCleanupSize_x86_fast_ms_def s
        dc_callvm_reset_x86_win32_fast_def dcVecResize_def split: if_splits)
qed

text \<open>C8: The end to end protocol of the 32 bit x86 conventions cdecl, stdcall and the two fastcalls: a VM in the
  mode of a signature prefix and a callback created with that signature agree. The handler reads
  the arguments the client passed, in ECX, EDX and on the stack, and the bytes the callback
  removes on return, computed from the signature alone, are those the kernel pushed (none for cdecl).\<close>

theorem x86_callback_protocol:
  assumes "x86_conv ch = Some (i, v)" and "unat (mTotal (x86_vec vm)) < 2 ^ 31"
    and "8 + sum_list (map (word_cost False) xs) \<le> unat (mTotal (x86_vec vm))"
    and "k = snd (dcCall (vtab_x86 False m os) c (dcArgs (vtab_x86 False m os) (dcReset (vtab_x86 False m os)
           (dcMode (vtab_x86 False m os) vm (dcGetModeFromCCSigChar ch))) xs) target)"
  shows "\<exists>cb r. dcbInitCallback2_x86 False msvc pcb
        (DC_SIGCHAR_CC_PREFIX # ch # map arg_char xs @ DC_SIGCHAR_ENDARG # ret) h u = Some cb \<and>
      entry_x86 (cb_args_vt cb) regs caller k = Some r \<and>
      fst (pop_all dcbArg_x86 r (map arg_ty xs)) = map bool01 xs \<and>
      cb_stack_cleanup cb = (if ch = DC_SIGCHAR_CC_CDECL then 0 else pushed_bytes k)"
proof -
  let ?vm = "dc_callvm_base_init vm i"
  note k = assms(4) [unfolded dcMode_x86_conv [OF assms(1)]]
  have vm: "mVTpointer ?vm = i" "x86_vec ?vm = x86_vec vm" by (simp_all add: dc_callvm_base_init_def)
  note stack = x86_stack_conv [OF _ vm(1) _ _ k, unfolded vm(2), OF _ assms(2)]
  note fast = x86_fast_conv [OF _ vm(1) _ _ k, unfolded vm(2), OF _ assms(2,3)]
  have cap: "sum_list (map (word_cost False) xs) \<le> unat (mTotal (x86_vec vm))" using assms(3) by simp
  note init = dcbInitCallback2_x86_def dcGetModeFromCCSigChar_def dcbCleanupSize_x86_cdecl_def dcbCleanupSize_x86_std_def
  show ?thesis
    using assms(1)
  proof (cases rule: x86_conv_cases)
    case 1
    with stack(1) [of False, OF _ cap, where regs = regs and caller = caller] show ?thesis by (simp add: init)
  next
    case 2
    with stack(1) [of True, OF _ cap, where regs = regs and caller = caller] stack(2) [of True, OF _ cap] show ?thesis
      by (simp add: init cleanup_std_args)
  next
    case 3
    with fast(1) [where regs = regs and caller = caller] fast(2) [of ret] show ?thesis by (simp add: init x86_fast_def)
  next
    case 4
    with fast(1) [where regs = regs and caller = caller] fast(2) [of ret] show ?thesis by (simp add: init x86_fast_def)
  qed
qed

definition x86_blank :: "u32 \<Rightarrow> DCCallVM_x86" where
  "x86_blank cap =
     \<lparr>mVTpointer = gVT_x86_cdecl, mError = 0, x86_mpCallFunc = 0, x86_mIntRegs = 0,
      x86_vec = \<lparr>mTotal = cap, mSize = 0, mData = (\<lambda>_. 0)\<rparr>\<rparr>"

lemma x86_callback_protocol_witness:
  "\<exists>cb r. dcbInitCallback2_x86 False False \<lparr>cb_handler = 0, cb_args_vt = dcArgsVT_default, cb_stack_cleanup = 7, cb_userdata = 0\<rparr>
        ''_filid)v'' 16 32 = Some cb \<and>
      entry_x86 (cb_args_vt cb) (\<lambda>_. 0) (\<lambda>_. 0)
        (snd (dcCall (vtab_x86 False False OsLinux) callVoid (dcArgs (vtab_x86 False False OsLinux)
          (dcReset (vtab_x86 False False OsLinux) (dcMode (vtab_x86 False False OsLinux) (x86_blank 64)
            (dcGetModeFromCCSigChar (CHR ''f'')))) [AInt 1, ALongLong 2, AInt 3, ADouble 4]) 4096)) = Some r \<and>
      fst (pop_all dcbArg_x86 r [TInt, TLongLong, TInt, TDouble]) = [AInt 1, ALongLong 2, AInt 3, ADouble 4]"
  using x86_callback_protocol [of "CHR ''f''" gVT_x86_win32_fast_gnu dcArgsVT_fast_gnu "x86_blank 64"
      "[AInt 1, ALongLong 2, AInt 3, ADouble 4]" _ False OsLinux callVoid 4096 False
      "\<lparr>cb_handler = 0, cb_args_vt = dcArgsVT_default, cb_stack_cleanup = 7, cb_userdata = 0\<rparr>" "''v''" 16 32
      "\<lambda>_. 0" "\<lambda>_. 0", OF _ _ _ refl]
  by (simp add: x86_conv_def x86_blank_def word_cost_def del: dcArgs.simps) blast

subsection \<open>Thiscall\<close>

text \<open>The reader once the object pointer in ECX was taken: the first word of the vector is not on the stack.\<close>

definition this_at :: "(nat \<Rightarrow> u32) \<Rightarrow> mem \<Rightarrow> DCCallVM_x86 \<Rightarrow> nat \<Rightarrow> DCArgs_x86" where
  "this_at regs caller F q =
     (x86_reader dcArgsVT_this_ms regs caller dcCall_x86_win32_msthis F)\<lparr>rx_sp := q - 4,
       rx_fast_data := (rx_fast_data (x86_reader dcArgsVT_this_ms regs caller dcCall_x86_win32_msthis F))(0 := 0)\<rparr>"

lemma this_read:
  assumes "4 \<le> q" and "q + n \<le> unat (mSize (x86_vec F))"
  shows "read_at (rx_mem (this_at regs caller F q)) (q - 4) n = read_at (mData (x86_vec F)) q n"
proof -
  have "unat (mSize (x86_vec F) - 4) = unat (mSize (x86_vec F)) - 4"
    using assms by (simp add: unat_sub_if')
  with assms show ?thesis
    by (simp add: this_at_def x86_reader_def x86_call_of_def stack_copy_read read_at_shift)
qed

lemma this_at_simps [simp]:
  "rx_vt (this_at regs caller F q) = dcArgsVT_this_ms" "rx_fast_data (this_at regs caller F q) 0 = 0"
  "rx_sp (this_at regs caller F q) = q - 4"
  by (simp_all add: this_at_def x86_reader_def)

interpretation x86t: flat_transport "dcArg (vtab_x86 p m os)" x86_vec "\<lambda>s. \<not> x86_fast (mVTpointer s)" "\<lambda>_. False"
  "flat_bytes True LE" "this_at regs caller" dcbArg_x86 arg_ty bool01 4
  for p m os regs caller
proof unfold_locales
  fix F :: DCCallVM_x86 and q r and a :: "(u32, u32) dcarg"
  let ?n = "length (flat_bytes True LE a)"
  assume q: "4 \<le> q" and r: "r = slot_at False q" and "r + ?n \<le> unat (mSize (x86_vec F))"
    and "read_at (mData (x86_vec F)) r ?n = flat_bytes True LE a"
  then have rd: "read_at (rx_mem (this_at regs caller F q)) (q - 4) ?n = flat_bytes True LE a"
    by (simp add: this_read slot_at_def)
  have sp: "this_at regs caller F (r + ?n) = (this_at regs caller F q)\<lparr>rx_sp := q - 4 + ?n\<rparr>"
    using q r by (simp add: this_at_def slot_at_def)
  show "dcbArg_x86 (this_at regs caller F q) (arg_ty a) = (bool01 a, this_at regs caller F (r + ?n))"
    unfolding sp using rd
    by (cases a)
      (simp_all add: this_i32_def default_i64_def default_f32_def default_f64_def obj_word_obj_bytes ucast_scast_trunc)
qed (simp_all add: dcArg_x86_stack length_flat_bytes)

text \<open>The final state of a VM for a thiscall and the request of its kernel.\<close>

lemma this_call:
  assumes "mVTpointer vm = gVT_x86_win32_this_ms"
    and "unat (mTotal (x86_vec vm)) < 2 ^ 31"
    and "4 + sum_list (map (word_cost False) ys) \<le> unat (mTotal (x86_vec vm))"
    and "F = dcArgs (vtab_x86 p m os) (dcReset (vtab_x86 p m os) vm) (APointer this # ys)"
  shows "snd (dcCall (vtab_x86 p m os) c F target) = dcCall_x86_win32_msthis (x86_call_of F target)"
    and "fst (pop_all dcbArg_x86 (this_at regs caller F 4) (map arg_ty ys)) = map bool01 ys"
    and "obj_word LE (read_at (mData (x86_vec F)) 0 4) = this"
    and "mSize (x86_vec F) = 4 + of_nat (sum_list (map (word_cost False) ys))"
proof -
  let ?V = "vtab_x86 p m os"
  define s where "s = dcReset ?V vm"
  define t where "t = dcArg ?V s (APointer this)"
  have s: "s = dc_callvm_reset_x86 vm" "\<not> x86_fast (mVTpointer s)"
    using assms(1) by (simp_all add: s_def dcReset_def x86_vt_defs dc_callvm_reset_x86_def x86_fast_def)
  have F: "F = dcArgs ?V t ys" by (simp add: assms(4) s_def t_def)
  have t: "t = s\<lparr>x86_vec := vec_slot False (obj_bytes LE 4 this) (x86_vec s)\<rparr>"
    using dcArg_x86_stack [OF s(2), of p m os "APointer this"] by (simp add: t_def)
  have fit: "vec_fits (x86_vec s) (slot_cost False (obj_bytes LE 4 this))" and z: "unat (mSize (x86_vec s)) = 0"
    using assms(3) by (simp_all add: s(1) dc_callvm_reset_x86_def vec_fits_def slot_cost_def dcVecReset_def)
  note v = vec_slot [OF fit, unfolded z, simplified]
  have ts: "unat (mSize (x86_vec t)) = 4" "\<not> x86_fast (mVTpointer t)" "mTotal (x86_vec t) = mTotal (x86_vec vm)"
    using v(1) s by (simp_all add: t slot_at_def dc_callvm_reset_x86_def dcVecReset_def)
  then have ok: "flat_ok (x86_vec t)" using v(3) assms(2) by (simp add: t flat_ok_def)
  have inv: "flat_inv x86_vec (\<lambda>s. \<not> x86_fast (mVTpointer s)) 4 t" using ok ts by (simp add: flat_inv_def)
  have cap: "unat (mSize (x86_vec t)) + (\<Sum>a\<leftarrow>ys. slot_cost False (flat_bytes True LE a)) \<le> unat (mTotal (x86_vec t))"
    using assms(3) ts slot_cost_flat [of False _ True LE] by simp
  have "mVTpointer F = mVTpointer t" unfolding F by (rule mVTpointer_dcArgs_stack [OF ts(2)])
  also have "\<dots> = gVT_x86_win32_this_ms" using assms(1) by (simp add: t s(1) dc_callvm_reset_x86_def)
  finally show "snd (dcCall ?V c F target) = dcCall_x86_win32_msthis (x86_call_of F target)"
    by (simp add: dcCall_def x86_vt_defs x86_call_defs)
  show "fst (pop_all dcbArg_x86 (this_at regs caller F 4) (map arg_ty ys)) = map bool01 ys"
    unfolding F push_all_dcArgs [symmetric]
    by (rule x86t.flat_round_trip_from) (use ts ok cap in simp_all)
  have "flat_keeps x86_vec t F"
    using x86t.flat.keeps_push_all_cap [OF inv, of ys p m os] cap by (simp add: F push_all_dcArgs)
  then have "read_at (mData (x86_vec F)) 0 4 = obj_bytes LE 4 this"
    using v(4) [of "x86_vec F"] by (simp add: flat_keeps_def t slot_at_def)
  then show "obj_word LE (read_at (mData (x86_vec F)) 0 4) = this" by (simp add: obj_word_obj_bytes)
  have "mSize (x86_vec t) = 4" using ts(1) by (simp add: word_unat_eq_iff)
  then show "mSize (x86_vec F) = 4 + of_nat (sum_list (map (word_cost False) ys))"
    using x86_stack_size [OF ts(2), of ys p m os] assms(3) ts by (simp add: F)
qed

lemma dcMode_x86_this:
  "dcMode (vtab_x86 False m os) vm (dcGetModeFromCCSigChar DC_SIGCHAR_CC_THISCALL_MS) = dc_callvm_base_init vm gVT_x86_win32_this_ms"
  by (cases "mVTpointer vm"; simp add: dcMode_def x86_vt_defs dc_callvm_mode_x86_def dcGetModeFromCCSigChar_def)

lemma init_this_callback:
  "dcbInitCallback2_x86 False msvc pcb
      (DC_SIGCHAR_CC_PREFIX # DC_SIGCHAR_CC_THISCALL_MS # map arg_char (APointer this # ys) @ DC_SIGCHAR_ENDARG # ret) h u
   = Some (pcb\<lparr>cb_handler := h, cb_userdata := u, cb_args_vt := dcArgsVT_this_ms,
        cb_stack_cleanup := 4 + of_nat (sum_list (map (word_cost False) ys))\<rparr>)"
  by (simp add: dcbInitCallback2_x86_def dcGetModeFromCCSigChar_def dcbCleanupSize_x86_this_ms_def
      cleanup_this_ms_eq cleanup_std_args word_sigchars_def)

text \<open>Microsoft thiscalls: with an object pointer that is not null as the first argument, the handler of a
  callback for the signature reads the pointer from ECX and the other arguments from the stack.\<close>

lemma x86_thiscall_arrives:
  assumes "this \<noteq> 0" and "unat (mTotal (x86_vec vm)) < 2 ^ 31"
    and "4 + sum_list (map (word_cost False) ys) \<le> unat (mTotal (x86_vec vm))"
    and "k = snd (dcCall (vtab_x86 False m os) c (dcArgs (vtab_x86 False m os) (dcReset (vtab_x86 False m os)
           (dcMode (vtab_x86 False m os) vm (dcGetModeFromCCSigChar DC_SIGCHAR_CC_THISCALL_MS))) (APointer this # ys)) target)"
  shows "\<exists>cb r. dcbInitCallback2_x86 False msvc pcb
        (DC_SIGCHAR_CC_PREFIX # DC_SIGCHAR_CC_THISCALL_MS # map arg_char (APointer this # ys) @ DC_SIGCHAR_ENDARG # ret) h u
          = Some cb \<and>
      entry_x86 (cb_args_vt cb) regs caller k = Some r \<and>
      fst (pop_all dcbArg_x86 r (map arg_ty (APointer this # ys))) = APointer this # map bool01 ys"
proof -
  let ?vm = "dc_callvm_base_init vm gVT_x86_win32_this_ms"
  define F where "F = dcArgs (vtab_x86 False m os) (dcReset (vtab_x86 False m os) ?vm) (APointer this # ys)"
  have vm: "mVTpointer ?vm = gVT_x86_win32_this_ms" "x86_vec ?vm = x86_vec vm" by (simp_all add: dc_callvm_base_init_def)
  note call = this_call [OF vm(1), unfolded vm(2), OF assms(2,3) F_def]
  let ?r = "x86_reader dcArgsVT_this_ms regs caller dcCall_x86_win32_msthis F"
  have k: "k = dcCall_x86_win32_msthis (x86_call_of F target)"
    unfolding assms(4) dcMode_x86_this using call(1) by (simp add: F_def)
  have ecx: "rx_fast_data ?r 0 = this" and vt: "rx_vt ?r = dcArgsVT_this_ms" and sp: "rx_sp ?r = 0"
    using call(3) by (simp_all add: x86_reader_def x86_call_of_def)
  have first: "vt_i32 (args_vtab_x86 (rx_vt ?r)) ?r = (this, this_at regs caller F 4)"
    using ecx vt sp assms(1) by (simp add: this_i32_def this_at_def)
  have "fst (pop_all dcbArg_x86 ?r (map arg_ty (APointer this # ys))) = APointer this # map bool01 ys"
    using call(2) [of regs caller] by (simp add: first case_prod_beta)
  moreover have "entry_x86 dcArgsVT_this_ms regs caller k = Some ?r"
    by (simp add: k x86_reader_def x86_call_of_def)
  ultimately show ?thesis
    unfolding init_this_callback by (intro exI conjI) (rule refl, simp_all del: pop_all.simps)
qed

lemma x86_thiscall_arrives_witness:
  "\<exists>cb r. dcbInitCallback2_x86 False False \<lparr>cb_handler = 0, cb_args_vt = dcArgsVT_default, cb_stack_cleanup = 7, cb_userdata = 0\<rparr>
        ''_+pid)v'' 16 32 = Some cb \<and>
      entry_x86 (cb_args_vt cb) (\<lambda>_. 0) (\<lambda>_. 0)
        (snd (dcCall (vtab_x86 False False OsOther) callVoid (dcArgs (vtab_x86 False False OsOther)
          (dcReset (vtab_x86 False False OsOther) (dcMode (vtab_x86 False False OsOther) (x86_blank 64)
            (dcGetModeFromCCSigChar (CHR ''+'')))) [APointer 64, AInt 3, ADouble 4]) 4096)) = Some r \<and>
      fst (pop_all dcbArg_x86 r [TPointer, TInt, TDouble]) = [APointer 64, AInt 3, ADouble 4]"
  using x86_thiscall_arrives [of 64 "x86_blank 64" "[AInt 3, ADouble 4]" _ False OsOther callVoid 4096 False
      "\<lparr>cb_handler = 0, cb_args_vt = dcArgsVT_default, cb_stack_cleanup = 7, cb_userdata = 0\<rparr>" "''v''" 16 32
      "\<lambda>_. 0" "\<lambda>_. 0", OF _ _ _ refl]
  by (simp add: x86_blank_def word_cost_def del: dcArgs.simps)

text \<open>A Microsoft thiscall callback removes four bytes more than the kernel pushed: the size computed from
  the signature counts the object pointer, which travels in ECX.\<close>

lemma x86_thiscall_cleanup:
  assumes "unat (mTotal (x86_vec vm)) < 2 ^ 31"
    and "4 + sum_list (map (word_cost False) ys) \<le> unat (mTotal (x86_vec vm))"
    and "k = snd (dcCall (vtab_x86 False m os) c (dcArgs (vtab_x86 False m os) (dcReset (vtab_x86 False m os)
           (dcMode (vtab_x86 False m os) vm (dcGetModeFromCCSigChar DC_SIGCHAR_CC_THISCALL_MS))) (APointer this # ys)) target)"
  shows "map_option cb_stack_cleanup (dcbInitCallback2_x86 False msvc pcb
        (DC_SIGCHAR_CC_PREFIX # DC_SIGCHAR_CC_THISCALL_MS # map arg_char (APointer this # ys) @ DC_SIGCHAR_ENDARG # ret) h u)
      = Some (pushed_bytes k + 4)"
proof -
  let ?vm = "dc_callvm_base_init vm gVT_x86_win32_this_ms"
  define F where "F = dcArgs (vtab_x86 False m os) (dcReset (vtab_x86 False m os) ?vm) (APointer this # ys)"
  have vm: "mVTpointer ?vm = gVT_x86_win32_this_ms" "x86_vec ?vm = x86_vec vm" by (simp_all add: dc_callvm_base_init_def)
  note call = this_call [OF vm(1), unfolded vm(2), OF assms(1,2) F_def]
  have "k = dcCall_x86_win32_msthis (x86_call_of F target)"
    unfolding assms(3) dcMode_x86_this using call(1) by (simp add: F_def)
  then have "pushed_bytes k = of_nat (sum_list (map (word_cost False) ys))"
    using call(4) by (simp add: x86_call_of_def)
  then show ?thesis unfolding init_this_callback by simp
qed

lemma x86_thiscall_cleanup_witness:
  "map_option cb_stack_cleanup (dcbInitCallback2_x86 False False
        \<lparr>cb_handler = 0, cb_args_vt = dcArgsVT_default, cb_stack_cleanup = 7, cb_userdata = 0\<rparr> ''_+pi)v'' 16 32)
    = Some (pushed_bytes (snd (dcCall (vtab_x86 False False OsOther) callVoid (dcArgs (vtab_x86 False False OsOther)
          (dcReset (vtab_x86 False False OsOther) (dcMode (vtab_x86 False False OsOther) (x86_blank 64)
            (dcGetModeFromCCSigChar (CHR ''+'')))) [APointer 64, AInt 3]) 4096)) + 4)"
  using x86_thiscall_cleanup [of "x86_blank 64" "[AInt 3]" _ False OsOther callVoid 64 4096 False
      "\<lparr>cb_handler = 0, cb_args_vt = dcArgsVT_default, cb_stack_cleanup = 7, cb_userdata = 0\<rparr>" "''v''" 16 32, OF _ _ refl]
  by (simp add: x86_blank_def word_cost_def del: dcArgs.simps)

text \<open>A null object pointer is lost: the reader takes ECX for empty and gives the next argument in its place.\<close>

lemma x86_null_this_lost:
  "map_option (\<lambda>r. fst (pop_all dcbArg_x86 r [TPointer, TInt])) (entry_x86 dcArgsVT_this_ms (\<lambda>_. 0) (\<lambda>_. 0)
      (snd (dcCall (vtab_x86 False False OsOther) callVoid (dcArgs (vtab_x86 False False OsOther)
        (dcReset (vtab_x86 False False OsOther) (dcMode (vtab_x86 False False OsOther) (x86_blank 64)
          (dcGetModeFromCCSigChar DC_SIGCHAR_CC_THISCALL_MS))) [APointer 0, AInt 7, AInt 9]) 4096)))
   = Some [APointer 7, AInt 9]"
  by code_simp

text \<open>A signature with the prefix of the default convention configures nothing: the reader table and the
  cleanup of the callback stay what the memory of the callback held.\<close>

lemma x86_default_prefix_uninitialised:
  "dcbInitCallback2_x86 False msvc pcb (DC_SIGCHAR_CC_PREFIX # DC_SIGCHAR_CC_DEFAULT # sig) h u
     = Some (pcb\<lparr>cb_handler := h, cb_userdata := u\<rparr>)"
  by (simp add: dcbInitCallback2_x86_def dcGetModeFromCCSigChar_def)

end
