(* ===== verification/Dyn_Callback.thy ===== *)
theory Dyn_Callback
  imports Dyn_Thunk Vm_X64Win Aggr_X64 Cb_X86
begin

unbundle bit_operations_syntax

section \<open>Executable memory and the making of callbacks\<close>

text \<open>
  \<open>dyncall/dyncallback/dyncall_alloc_wx_*.c\<close> and \<open>dyncall_callback*.c\<close>. The state \<open>wx\<close> is the memory, the mappings with
  their protection and the open descriptors; what the system decides (whether and where it maps, whether it changes the
  protection) is the record \<open>wx_os\<close>. \<open>None\<close> as the result of an operation is a write to \<open>NULL\<close> or a failed assertion.
\<close>

subsection \<open>Executable memory\<close>

datatype prot = ReadWrite | ReadExec | ReadWriteExec

record 'p wx =
  wx_mem :: "'p heap"
  wx_maps :: "'p \<Rightarrow> (nat \<times> prot) option"
  wx_fds :: "u32 set"

record 'p wx_os =
  os_map :: "'p wx \<Rightarrow> nat \<Rightarrow> 'p option"
  os_open :: "'p wx \<Rightarrow> u32 option"
  os_protect :: "'p wx \<Rightarrow> 'p \<Rightarrow> bool"

text \<open>The switches of \<open>dyncall_alloc_wx_mmap.c\<close>: with \<open>MAP_ANON\<close> or through \<open>/dev/zero\<close>, with \<open>mprotect\<close> or without.\<close>

datatype wx_impl = Wx_mmap (wx_anon: bool) (wx_mprotect: bool) | Wx_win32 | Wx_malloc

definition MMAP_PROT_INIT :: "bool \<Rightarrow> prot" where
  "MMAP_PROT_INIT mprotect = (if mprotect then ReadWrite else ReadWriteExec)"

definition dcAllocWX_mmap ::
  "endian \<Rightarrow> bool \<Rightarrow> bool \<Rightarrow> 'p::len word wx_os \<Rightarrow> nat \<Rightarrow> 'p word wx \<Rightarrow> int \<times> 'p word option \<times> 'p word wx" where
  "dcAllocWX_mmap e anon mprotect os sz st =
     (if anon then
        (case os_map os st sz of
           None \<Rightarrow> (-1, None, st)
         | Some p \<Rightarrow> (0, Some p, st\<lparr>wx_maps := (wx_maps st)(p \<mapsto> (sz, MMAP_PROT_INIT mprotect))\<rparr>))
      else
        (case os_open os st of
           None \<Rightarrow> (-1, None, st)
         | Some fd \<Rightarrow>
             (case os_map os (st\<lparr>wx_fds := insert fd (wx_fds st)\<rparr>) (sz + 4) of
                None \<Rightarrow> (-1, None, st\<lparr>wx_fds := insert fd (wx_fds st) - {fd}\<rparr>)
              | Some p \<Rightarrow>
                  (0, Some (p + 4),
                   st\<lparr>wx_fds := insert fd (wx_fds st),
                     wx_maps := (wx_maps st)(p \<mapsto> (sz + 4, MMAP_PROT_INIT mprotect)),
                     wx_mem := heap_write (wx_mem st) p (obj_bytes e 4 fd)\<rparr>))))"

definition dcInitExecWX_mmap ::
  "bool \<Rightarrow> bool \<Rightarrow> 'p::len word wx_os \<Rightarrow> 'p word \<Rightarrow> nat \<Rightarrow> 'p word wx \<Rightarrow> int \<times> 'p word wx" where
  "dcInitExecWX_mmap anon mprotect os p sz st =
     (if \<not> mprotect then (0, st)
      else
        (let (p, sz) = (if anon then (p, sz) else (p - 4, sz + 4)) in
         if os_protect os st p then (0, st\<lparr>wx_maps := (wx_maps st)(p \<mapsto> (sz, ReadExec))\<rparr>) else (-1, st)))"

definition dcFreeWX_mmap :: "endian \<Rightarrow> bool \<Rightarrow> 'p::len word \<Rightarrow> nat \<Rightarrow> 'p word wx \<Rightarrow> 'p word wx" where
  "dcFreeWX_mmap e anon p sz st =
     (if anon then st\<lparr>wx_maps := (wx_maps st)(p := None)\<rparr>
      else
        (let p = p - 4 in
         st\<lparr>wx_fds := wx_fds st - {obj_word e (heap_read (wx_mem st) p 4)}, wx_maps := (wx_maps st)(p := None)\<rparr>))"

definition dcAllocWX_win32 :: "'p::len word wx_os \<Rightarrow> nat \<Rightarrow> 'p word wx \<Rightarrow> int \<times> 'p word option \<times> 'p word wx" where
  "dcAllocWX_win32 os sz st =
     (case os_map os st sz of
        None \<Rightarrow> (-1, None, st)
      | Some p \<Rightarrow> (0, Some p, st\<lparr>wx_maps := (wx_maps st)(p \<mapsto> (sz, ReadWriteExec))\<rparr>))"

definition dcInitExecWX_win32 :: "'p::len word \<Rightarrow> nat \<Rightarrow> 'p word wx \<Rightarrow> int \<times> 'p word wx" where
  "dcInitExecWX_win32 p sz st = (0, st)"

definition dcFreeWX_win32 :: "'p::len word \<Rightarrow> nat \<Rightarrow> 'p word wx \<Rightarrow> 'p word wx option" where
  "dcFreeWX_win32 p sz st =
     (if wx_maps st p = None then None else Some (st\<lparr>wx_maps := (wx_maps st)(p := None)\<rparr>))"

text \<open>\<open>malloc\<close> may return \<open>NULL\<close>, which is no error here.\<close>

definition dcAllocWX_malloc :: "'p::len word wx_os \<Rightarrow> nat \<Rightarrow> 'p word wx \<Rightarrow> int \<times> 'p word option \<times> 'p word wx" where
  "dcAllocWX_malloc os sz st =
     (case os_map os st sz of
        None \<Rightarrow> (0, Some 0, st)
      | Some p \<Rightarrow> (0, Some p, st\<lparr>wx_maps := (wx_maps st)(p \<mapsto> (sz, ReadWriteExec))\<rparr>))"

definition dcInitExecWX_malloc :: "'p::len word \<Rightarrow> nat \<Rightarrow> 'p word wx \<Rightarrow> int \<times> 'p word wx" where
  "dcInitExecWX_malloc p sz st = (0, st)"

definition dcFreeWX_malloc :: "'p::len word \<Rightarrow> nat \<Rightarrow> 'p word wx \<Rightarrow> 'p word wx" where
  "dcFreeWX_malloc p sz st = st\<lparr>wx_maps := (wx_maps st)(p := None)\<rparr>"

fun dcAllocWX ::
  "wx_impl \<Rightarrow> endian \<Rightarrow> 'p::len word wx_os \<Rightarrow> nat \<Rightarrow> 'p word wx \<Rightarrow> int \<times> 'p word option \<times> 'p word wx" where
  "dcAllocWX (Wx_mmap anon mprotect) e = dcAllocWX_mmap e anon mprotect"
| "dcAllocWX Wx_win32 e = dcAllocWX_win32"
| "dcAllocWX Wx_malloc e = dcAllocWX_malloc"

fun dcInitExecWX ::
  "wx_impl \<Rightarrow> 'p::len word wx_os \<Rightarrow> 'p word \<Rightarrow> nat \<Rightarrow> 'p word wx \<Rightarrow> int \<times> 'p word wx" where
  "dcInitExecWX (Wx_mmap anon mprotect) os = dcInitExecWX_mmap anon mprotect os"
| "dcInitExecWX Wx_win32 os = dcInitExecWX_win32"
| "dcInitExecWX Wx_malloc os = dcInitExecWX_malloc"

fun dcFreeWX :: "wx_impl \<Rightarrow> endian \<Rightarrow> 'p::len word \<Rightarrow> nat \<Rightarrow> 'p word wx \<Rightarrow> 'p word wx option" where
  "dcFreeWX (Wx_mmap anon mprotect) e p sz st = Some (dcFreeWX_mmap e anon p sz st)"
| "dcFreeWX Wx_win32 e p sz st = dcFreeWX_win32 p sz st"
| "dcFreeWX Wx_malloc e p sz st = Some (dcFreeWX_malloc p sz st)"

subsection \<open>Making a callback\<close>

text \<open>The function \<open>dcbNewCallback2\<close>, which the platforms share but for the structure: \<open>init p\<close> is the structure at \<open>p\<close>
  after \<open>dcbInitCallback2\<close> and \<open>dcbInitThunk\<close>. The result is the pointer or \<open>NULL\<close>.\<close>

definition new_callback ::
  "wx_impl \<Rightarrow> endian \<Rightarrow> 'p::len word wx_os \<Rightarrow> nat \<Rightarrow> ('p word \<Rightarrow> byte list option) \<Rightarrow> 'p word wx \<Rightarrow>
   ('p word option \<times> 'p word wx) option" where
  "new_callback impl e os sz init st =
     (case dcAllocWX impl e os sz st of (err, pp, st) \<Rightarrow>
        if err \<noteq> 0 then Some (None, st)
        else Option.bind pp (\<lambda>p. Option.bind (init p) (\<lambda>bs.
          if p = 0 then None
          else
            (case dcInitExecWX impl os p sz (st\<lparr>wx_mem := heap_write (wx_mem st) p bs\<rparr>) of (err, st) \<Rightarrow>
               if err \<noteq> 0 then map_option (\<lambda>st. (None, st)) (dcFreeWX impl e p sz st)
               else Some (Some p, st)))))"

definition dcbFreeCallback :: "wx_impl \<Rightarrow> endian \<Rightarrow> nat \<Rightarrow> 'p::len word \<Rightarrow> 'p word wx \<Rightarrow> 'p word wx option" where
  "dcbFreeCallback impl e sz pcb st = dcFreeWX impl e pcb sz st"

text \<open>Documented behaviour of the system: a new mapping starts at an address that is not mapped, \<open>open\<close> gives a
  descriptor that is not in use, a mapping is not at \<open>NULL\<close>.\<close>

definition os_fresh :: "'p::len word wx_os \<Rightarrow> bool" where
  "os_fresh os \<longleftrightarrow>
     (\<forall>st n p. os_map os st n = Some p \<longrightarrow> p \<noteq> 0 \<and> wx_maps st p = None) \<and>
     (\<forall>st fd. os_open os st = Some fd \<longrightarrow> fd \<notin> wx_fds st)"

definition write_xor_exec :: "'p wx \<Rightarrow> bool" where
  "write_xor_exec st \<longleftrightarrow> (\<forall>p n. wx_maps st p \<noteq> Some (n, ReadWriteExec))"

lemma heap_write_other:
  assumes "length bs + 4 \<le> 2 ^ LENGTH('p)"
  shows "heap_read (heap_write h (p + 4 :: 'p::len word) bs) p 4 = heap_read h p 4"
proof -
  have "heap_write h (p + 4) bs (p + of_nat i) = h (p + of_nat i)" if i: "i < 4" for i
  proof -
    let ?d = "p + of_nat i - (p + 4)"
    have z: "?d + of_nat (4 - i) = 0" using i by (simp add: of_nat_diff)
    have "\<not> unat ?d < length bs"
    proof
      assume "unat ?d < length bs"
      then have "unat ?d + (4 - i) < 2 ^ LENGTH('p)" using assms i by linarith
      from unat_add_small [OF this] z i show False by simp
    qed
    then show ?thesis by (simp only: heap_write_def if_False)
  qed
  then show ?thesis by (simp add: heap_read_def)
qed

lemma new_callback_memory:
  assumes "new_callback impl e os sz init st = Some (Some p, st')" and "sz < 2 ^ LENGTH('p)"
    and "\<And>bs. init p = Some bs \<Longrightarrow> length bs = sz"
  shows "p \<noteq> 0 \<and> (\<exists>bs. init (p :: 'p::len word) = Some bs \<and> heap_read (wx_mem st') p sz = bs)"
proof -
  obtain err pp st1 where a: "dcAllocWX impl e os sz st = (err, pp, st1)" by (cases "dcAllocWX impl e os sz st")
  from assms(1) a obtain bs err2 st3 where b: "err = 0" "pp = Some p" "init p = Some bs" "p \<noteq> 0"
    "dcInitExecWX impl os p sz (st1\<lparr>wx_mem := heap_write (wx_mem st1) p bs\<rparr>) = (err2, st')"
    by (auto simp: new_callback_def bind_eq_Some_conv split: if_splits prod.splits)
  have "wx_mem st' = heap_write (wx_mem st1) p bs"
    using b(5) by (cases impl) (auto simp: dcInitExecWX_mmap_def dcInitExecWX_win32_def dcInitExecWX_malloc_def split: if_splits)
  with assms(2) assms(3) [OF b(3)] b(3,4) show ?thesis by (simp add: heap_read_write)
qed

text \<open>With \<open>mmap\<close>, a callback that is not made leaves no mapping and no descriptor, and one that is made and freed neither.\<close>

lemma new_callback_mmap:
  assumes "os_fresh os" and "new_callback (Wx_mmap anon mp) e os sz init st = Some (r, st')"
    and "\<And>p bs. init p = Some bs \<Longrightarrow> length bs = sz" and "sz + 4 < 2 ^ LENGTH('p)"
  shows "case r of
      None \<Rightarrow> wx_maps st' = wx_maps st \<and> wx_fds st' = wx_fds st
    | Some (p :: 'p::len word) \<Rightarrow>
        wx_maps st' = (wx_maps st)((if anon then p else p - 4) \<mapsto>
          (if anon then sz else sz + 4, if mp then ReadExec else ReadWriteExec)) \<and>
        (\<exists>st''. dcbFreeCallback (Wx_mmap anon mp) e sz p st' = Some st'' \<and>
           wx_maps st'' = wx_maps st \<and> wx_fds st'' = wx_fds st)"
proof (cases anon)
  case True
  have f: "wx_maps st p = None" if "os_map os st n = Some p" for n p using assms(1) that by (auto simp: os_fresh_def)
  show ?thesis
  proof (cases "os_map os st sz")
    case None
    with assms(2) True show ?thesis by (simp add: new_callback_def dcAllocWX_mmap_def)
  next
    case (Some p)
    with assms(1) have p: "p \<noteq> 0" by (auto simp: os_fresh_def)
    from Some assms(2) True p f [OF Some] show ?thesis
      by (auto simp: new_callback_def dcAllocWX_mmap_def dcInitExecWX_mmap_def dcFreeWX_mmap_def dcbFreeCallback_def
          MMAP_PROT_INIT_def Let_def bind_eq_Some_conv fun_upd_idem split: if_splits)
  qed
next
  case False
  show ?thesis
  proof (cases "os_open os st")
    case None
    with assms(2) False show ?thesis by (simp add: new_callback_def dcAllocWX_mmap_def)
  next
    case (Some fd)
    let ?st = "st\<lparr>wx_fds := insert fd (wx_fds st)\<rparr>"
    have fd: "insert fd (wx_fds st) - {fd} = wx_fds st" using assms(1) Some by (auto simp: os_fresh_def)
    show ?thesis
    proof (cases "os_map os ?st (sz + 4)")
      case None
      with Some assms(2) False fd show ?thesis by (simp add: new_callback_def dcAllocWX_mmap_def)
    next
      case m: (Some q)
      have f: "wx_maps st q = None" using assms(1) m by (fastforce simp: os_fresh_def)
      have r: "obj_word e (heap_read (heap_write (heap_write h q (obj_bytes e 4 fd)) (q + 4) bs) q 4) = fd"
        if "init (q + 4) = Some bs" for h bs
      proof -
        have "length bs + 4 \<le> 2 ^ LENGTH('p)" using assms(3) [OF that] assms(4) by simp
        moreover have "heap_read (heap_write h q (obj_bytes e 4 fd)) q 4 = obj_bytes e 4 fd"
          using assms(4) by (simp add: heap_read_write)
        ultimately show ?thesis by (simp add: heap_write_other obj_word_obj_bytes)
      qed
      from Some m assms(2) False fd f r show ?thesis
        by (auto simp: new_callback_def dcAllocWX_mmap_def dcInitExecWX_mmap_def dcFreeWX_mmap_def dcbFreeCallback_def
            MMAP_PROT_INIT_def Let_def bind_eq_Some_conv fun_upd_idem split: if_splits)
    qed
  qed
qed

text \<open>The states that \<open>new_callback\<close> goes through: before and after the allocation, with the structure written, after the
  change of the protection, and after the release when that failed. The last one is the state it returns.\<close>

definition callback_states ::
  "wx_impl \<Rightarrow> endian \<Rightarrow> 'p::len word wx_os \<Rightarrow> nat \<Rightarrow> ('p word \<Rightarrow> byte list option) \<Rightarrow> 'p word wx \<Rightarrow> 'p word wx list" where
  "callback_states impl e os sz init st =
     (case dcAllocWX impl e os sz st of (err, pp, st1) \<Rightarrow>
        st # st1 #
        (case (if err \<noteq> 0 then None else Option.bind pp (\<lambda>p. map_option (Pair p) (init p))) of
           None \<Rightarrow> []
         | Some (p, bs) \<Rightarrow>
             (let st2 = st1\<lparr>wx_mem := heap_write (wx_mem st1) p bs\<rparr> in
              case dcInitExecWX impl os p sz st2 of (err, st3) \<Rightarrow>
                st2 # st3 # (if err \<noteq> 0 then (case dcFreeWX impl e p sz st3 of None \<Rightarrow> [] | Some st4 \<Rightarrow> [st4]) else []))))"

lemma callback_states_last:
  assumes "new_callback impl e os sz init st = Some (r, st')"
  shows "last (callback_states impl e os sz init st) = st'"
  using assms
  by (auto simp: new_callback_def callback_states_def Let_def bind_eq_Some_conv split: if_splits prod.splits)

lemma write_xor_exec_mem [simp]: "write_xor_exec (st\<lparr>wx_mem := h\<rparr>) = write_xor_exec st"
  by (simp add: write_xor_exec_def)

lemma alloc_write_xor_exec:
  "write_xor_exec st \<Longrightarrow> dcAllocWX (Wx_mmap anon True) e os sz st = (err, pp, st1) \<Longrightarrow> write_xor_exec st1"
  by (auto simp: write_xor_exec_def dcAllocWX_mmap_def MMAP_PROT_INIT_def split: if_splits option.splits)

lemma init_write_xor_exec:
  "write_xor_exec st \<Longrightarrow> dcInitExecWX (Wx_mmap anon mp) os p sz st = (err, st1) \<Longrightarrow> write_xor_exec st1"
  by (auto simp: write_xor_exec_def dcInitExecWX_mmap_def Let_def split: if_splits)

lemma free_write_xor_exec:
  "write_xor_exec st \<Longrightarrow> dcFreeWX (Wx_mmap anon mp) e p sz st = Some st1 \<Longrightarrow> write_xor_exec st1"
  by (auto simp: write_xor_exec_def dcFreeWX_mmap_def Let_def split: if_splits)

lemma set_if_option: "y \<in> set (if b then (case x of None \<Rightarrow> [] | Some z \<Rightarrow> [z]) else []) \<Longrightarrow> x = Some y"
  by (cases b; cases x) simp_all

lemma callback_states_write_xor_exec:
  assumes "write_xor_exec st" and "s \<in> set (callback_states (Wx_mmap anon True) e os sz init st)"
  shows "write_xor_exec s"
proof -
  obtain err pp st1 where a: "dcAllocWX (Wx_mmap anon True) e os sz st = (err, pp, st1)"
    by (cases "dcAllocWX (Wx_mmap anon True) e os sz st")
  note w1 = alloc_write_xor_exec [OF assms(1) a]
  show ?thesis
  proof (cases "if err \<noteq> 0 then None else Option.bind pp (\<lambda>p. map_option (Pair p) (init p))")
    case None
    with assms a w1 show ?thesis by (auto simp: callback_states_def simp del: dcAllocWX.simps)
  next
    case (Some q)
    then obtain p bs where q: "q = (p, bs)" by (cases q)
    let ?st2 = "st1\<lparr>wx_mem := heap_write (wx_mem st1) p bs\<rparr>"
    obtain err2 st3 where i: "dcInitExecWX (Wx_mmap anon True) os p sz ?st2 = (err2, st3)"
      by (cases "dcInitExecWX (Wx_mmap anon True) os p sz ?st2")
    have w3: "write_xor_exec st3" using init_write_xor_exec [OF _ i] w1 by simp
    let ?free = "if err2 \<noteq> 0 then (case dcFreeWX (Wx_mmap anon True) e p sz st3 of None \<Rightarrow> [] | Some st4 \<Rightarrow> [st4]) else []"
    have "callback_states (Wx_mmap anon True) e os sz init st = st # st1 # ?st2 # st3 # ?free"
      by (simp only: callback_states_def a Some q prod.case option.case Let_def i)
    then have "s \<in> set (st # st1 # ?st2 # st3 # ?free)" using assms(2) by (simp only:)
    then consider "s = st" | "s = st1" | "s = ?st2" | "s = st3" | "s \<in> set ?free"
      unfolding set_simps insert_iff by (elim disjE)
    then show ?thesis
    proof cases
      case 5
      then have "dcFreeWX (Wx_mmap anon True) e p sz st3 = Some s"
        by (rule set_if_option)
      then show ?thesis by (rule free_write_xor_exec [OF w3])
    qed (use assms(1) w1 w3 in simp_all)
  qed
qed

text \<open>The structure is written when the mapping can be written.\<close>

lemma callback_states_written:
  assumes "new_callback (Wx_mmap anon True) e os sz init st = Some (Some p, st')"
  shows "2 < length (callback_states (Wx_mmap anon True) e os sz init st)"
    and "wx_maps (callback_states (Wx_mmap anon True) e os sz init st ! 2) (if anon then p else p - 4)
       = Some (if anon then sz else sz + 4, ReadWrite)"
  using assms
  by (auto simp: new_callback_def callback_states_def dcAllocWX_mmap_def dcInitExecWX_mmap_def dcFreeWX_mmap_def
      MMAP_PROT_INIT_def Let_def bind_eq_Some_conv split: if_splits option.splits prod.splits)

text \<open>C35: Executable memory with \<open>mmap\<close> and \<open>mprotect\<close>: nothing is writable and executable in any of the states that
  \<open>dcbNewCallback2\<close> goes through (\<open>callback_states\<close>, which end in the state it returns), on any path. If it returns
  \<open>NULL\<close>, mappings and descriptors are as before; otherwise the structure was written into a mapping that could be
  written, the callback has its bytes in that mapping, which now can be executed but not written, and
  \<open>dcbFreeCallback\<close> gives back exactly what it took, with \<open>MAP_ANON\<close> and in the variant through \<open>/dev/zero\<close>.\<close>

theorem callback_memory_life:
  assumes "os_fresh os" and "write_xor_exec st" and "sz + 4 < 2 ^ LENGTH('p)"
    and "\<And>p bs. init p = Some bs \<Longrightarrow> length bs = sz"
    and "new_callback (Wx_mmap anon True) e os sz init st = Some (r, st')"
  shows "(\<forall>s \<in> set (callback_states (Wx_mmap anon True) e os sz init st). write_xor_exec s) \<and>
    last (callback_states (Wx_mmap anon True) e os sz init st) = st' \<and> write_xor_exec st' \<and>
    (case r of
       None \<Rightarrow> wx_maps st' = wx_maps st \<and> wx_fds st' = wx_fds st
     | Some (p :: 'p::len word) \<Rightarrow>
         wx_maps (callback_states (Wx_mmap anon True) e os sz init st ! 2) (if anon then p else p - 4)
           = Some (if anon then sz else sz + 4, ReadWrite) \<and>
         init p = Some (heap_read (wx_mem st') p sz) \<and>
         wx_maps st' = (wx_maps st)((if anon then p else p - 4) \<mapsto> (if anon then sz else sz + 4, ReadExec)) \<and>
         (\<exists>st''. dcbFreeCallback (Wx_mmap anon True) e sz p st' = Some st'' \<and>
            wx_maps st'' = wx_maps st \<and> wx_fds st'' = wx_fds st))"
proof -
  let ?states = "callback_states (Wx_mmap anon True) e os sz init st"
  note w = callback_states_write_xor_exec [OF assms(2)]
  note l = callback_states_last [OF assms(5)]
  have "?states \<noteq> []" by (simp add: callback_states_def split: prod.split)
  with w l have "write_xor_exec st'" using last_in_set by blast
  with w l show ?thesis
    using new_callback_mmap [OF assms(1,5,4,3)] callback_states_written(2) [of anon e os sz init st _ st']
      new_callback_memory [of _ e os sz init st _ st', OF _ _ assms(4)] assms(3,5)
    by (cases r) auto
qed

subsection \<open>The structure of each platform\<close>

text \<open>\<open>DCCallback\<close> of the platforms, in memory as \<open>*_callback_bytes\<close>; the PowerPC ones have a field \<open>stack_cleanup\<close> that nothing
  sets. \<open>dcbNewCallback2\<close> gets what is in the memory before as \<open>pcb\<close>, and the address of \<open>dcCallbackThunkEntry\<close>.\<close>

record ('t, 'p) DCCallback =
  pcb_thunk :: 't
  pcb_handler :: 'p
  pcb_userdata :: 'p

record ('t, 'p) DCCallback_ppc = "('t, 'p) DCCallback" +
  pcb_stack_cleanup :: 'p

definition arm32_callback_bytes :: "(DCThunk_arm32, u32) DCCallback \<Rightarrow> byte list" where
  "arm32_callback_bytes pcb =
     thunk_arm32_bytes (pcb_thunk pcb) @ obj_bytes LE 4 (pcb_handler pcb) @ obj_bytes LE 4 (pcb_userdata pcb)"

definition dcbInitCallback2_arm32 ::
  "(DCThunk_arm32, u32) DCCallback \<Rightarrow> char list \<Rightarrow> u32 \<Rightarrow> u32 \<Rightarrow> u32 \<Rightarrow> (DCThunk_arm32, u32) DCCallback" where
  "dcbInitCallback2_arm32 pcb signature handler userdata ags = pcb\<lparr>pcb_handler := handler, pcb_userdata := userdata\<rparr>"

definition dcbNewCallback2_arm32 ::
  "wx_impl \<Rightarrow> u32 wx_os \<Rightarrow> (DCThunk_arm32, u32) DCCallback \<Rightarrow> u32 \<Rightarrow> char list \<Rightarrow>
   u32 \<Rightarrow> u32 \<Rightarrow> u32 \<Rightarrow> u32 wx \<Rightarrow> (u32 option \<times> u32 wx) option" where
  "dcbNewCallback2_arm32 impl os pcb entry signature handler userdata ags =
     new_callback impl LE os 20 (\<lambda>p. Some (arm32_callback_bytes
       ((dcbInitCallback2_arm32 pcb signature handler userdata ags)
          \<lparr>pcb_thunk := dcbInitThunk_arm32 p entry (pcb_thunk pcb)\<rparr>)))"

definition arm64_callback_bytes :: "(DCThunk_arm64, u64) DCCallback \<Rightarrow> byte list" where
  "arm64_callback_bytes pcb =
     thunk_arm64_bytes (pcb_thunk pcb) @ obj_bytes LE 8 (pcb_handler pcb) @ obj_bytes LE 8 (pcb_userdata pcb)"

definition dcbInitCallback2_arm64 ::
  "(DCThunk_arm64, u64) DCCallback \<Rightarrow> char list \<Rightarrow> u64 \<Rightarrow> u64 \<Rightarrow> u64 \<Rightarrow> (DCThunk_arm64, u64) DCCallback" where
  "dcbInitCallback2_arm64 pcb signature handler userdata ags = pcb\<lparr>pcb_handler := handler, pcb_userdata := userdata\<rparr>"

definition dcbNewCallback2_arm64 ::
  "wx_impl \<Rightarrow> u64 wx_os \<Rightarrow> (DCThunk_arm64, u64) DCCallback \<Rightarrow> u64 \<Rightarrow> char list \<Rightarrow>
   u64 \<Rightarrow> u64 \<Rightarrow> u64 \<Rightarrow> u64 wx \<Rightarrow> (u64 option \<times> u64 wx) option" where
  "dcbNewCallback2_arm64 impl os pcb entry signature handler userdata ags =
     new_callback impl LE os 48 (\<lambda>p. Some (arm64_callback_bytes
       ((dcbInitCallback2_arm64 pcb signature handler userdata ags)
          \<lparr>pcb_thunk := dcbInitThunk_arm64 p entry (pcb_thunk pcb)\<rparr>)))"

definition mips_callback_bytes :: "endian \<Rightarrow> (DCThunk_mips, u32) DCCallback \<Rightarrow> byte list" where
  "mips_callback_bytes e pcb =
     thunk_mips_bytes e (pcb_thunk pcb) @ obj_bytes e 4 (pcb_handler pcb) @ obj_bytes e 4 (pcb_userdata pcb)"

definition dcbInitCallback2_mips ::
  "('t, 'p) DCCallback \<Rightarrow> char list \<Rightarrow> 'p \<Rightarrow> 'p \<Rightarrow> 'p \<Rightarrow> ('t, 'p) DCCallback" where
  "dcbInitCallback2_mips pcb signature handler userdata ags = pcb\<lparr>pcb_handler := handler, pcb_userdata := userdata\<rparr>"

definition dcbNewCallback2_mips ::
  "endian \<Rightarrow> wx_impl \<Rightarrow> u32 wx_os \<Rightarrow> (DCThunk_mips, u32) DCCallback \<Rightarrow> u32 \<Rightarrow> char list \<Rightarrow>
   u32 \<Rightarrow> u32 \<Rightarrow> u32 \<Rightarrow> u32 wx \<Rightarrow> (u32 option \<times> u32 wx) option" where
  "dcbNewCallback2_mips e impl os pcb entry signature handler userdata ags =
     new_callback impl e os 28 (\<lambda>p. Some (mips_callback_bytes e
       ((dcbInitCallback2_mips pcb signature handler userdata ags)
          \<lparr>pcb_thunk := dcbInitThunk_mips e p entry (pcb_thunk pcb)\<rparr>)))"

definition mips64_callback_bytes :: "endian \<Rightarrow> (DCThunk_mips64, u64) DCCallback \<Rightarrow> byte list" where
  "mips64_callback_bytes e pcb =
     thunk_mips64_bytes e (pcb_thunk pcb) @ obj_bytes e 8 (pcb_handler pcb) @ obj_bytes e 8 (pcb_userdata pcb)"

definition dcbNewCallback2_mips64 ::
  "endian \<Rightarrow> wx_impl \<Rightarrow> u64 wx_os \<Rightarrow> (DCThunk_mips64, u64) DCCallback \<Rightarrow> u64 \<Rightarrow> char list \<Rightarrow>
   u64 \<Rightarrow> u64 \<Rightarrow> u64 \<Rightarrow> u64 wx \<Rightarrow> (u64 option \<times> u64 wx) option" where
  "dcbNewCallback2_mips64 e impl os pcb entry signature handler userdata ags =
     new_callback impl e os 72 (\<lambda>p. Some (mips64_callback_bytes e
       ((dcbInitCallback2_mips pcb signature handler userdata ags)
          \<lparr>pcb_thunk := dcbInitThunk_mips64 e p entry (pcb_thunk pcb)\<rparr>)))"

definition ppc32_callback_bytes :: "(DCThunk_ppc32, u32) DCCallback_ppc \<Rightarrow> byte list" where
  "ppc32_callback_bytes pcb =
     thunk_ppc32_bytes (pcb_thunk pcb) @ obj_bytes BE 4 (pcb_handler pcb) @ obj_bytes BE 4 (pcb_stack_cleanup pcb) @ obj_bytes BE 4 (pcb_userdata pcb)"

definition dcbInitCallback2_ppc32 ::
  "(DCThunk_ppc32, u32) DCCallback_ppc \<Rightarrow> char list \<Rightarrow> u32 \<Rightarrow> u32 \<Rightarrow> u32 \<Rightarrow> (DCThunk_ppc32, u32) DCCallback_ppc" where
  "dcbInitCallback2_ppc32 pcb signature handler userdata ags = pcb\<lparr>pcb_handler := handler, pcb_userdata := userdata\<rparr>"

definition dcbNewCallback2_ppc32 ::
  "bool \<Rightarrow> wx_impl \<Rightarrow> u32 wx_os \<Rightarrow> (DCThunk_ppc32, u32) DCCallback_ppc \<Rightarrow> u32 \<Rightarrow> char list \<Rightarrow>
   u32 \<Rightarrow> u32 \<Rightarrow> u32 \<Rightarrow> u32 wx \<Rightarrow> (u32 option \<times> u32 wx) option" where
  "dcbNewCallback2_ppc32 darwin impl os pcb entry signature handler userdata ags =
     new_callback impl BE os 36 (\<lambda>p. Some (ppc32_callback_bytes
       ((dcbInitCallback2_ppc32 pcb signature handler userdata ags)
          \<lparr>pcb_thunk := (if darwin then dcbInitThunk_ppc32 else dcbInitThunk_ppc32_sysv) p entry (pcb_thunk pcb)\<rparr>)))"

definition ppc64_v1_callback_bytes :: "(DCThunk_ppc64_v1, u64) DCCallback_ppc \<Rightarrow> byte list" where
  "ppc64_v1_callback_bytes pcb =
     thunk_ppc64_v1_bytes (pcb_thunk pcb) @ obj_bytes BE 8 (pcb_handler pcb) @ obj_bytes BE 8 (pcb_stack_cleanup pcb) @ obj_bytes BE 8 (pcb_userdata pcb)"

definition dcbInitCallback2_ppc64 ::
  "('t, u64) DCCallback_ppc \<Rightarrow> char list \<Rightarrow> u64 \<Rightarrow> u64 \<Rightarrow> u64 \<Rightarrow> ('t, u64) DCCallback_ppc" where
  "dcbInitCallback2_ppc64 pcb signature handler userdata ags = pcb\<lparr>pcb_handler := handler, pcb_userdata := userdata\<rparr>"

definition dcbNewCallback2_ppc64_v1 ::
  "u64 heap \<Rightarrow> wx_impl \<Rightarrow> u64 wx_os \<Rightarrow> (DCThunk_ppc64_v1, u64) DCCallback_ppc \<Rightarrow> u64 \<Rightarrow> char list \<Rightarrow>
   u64 \<Rightarrow> u64 \<Rightarrow> u64 \<Rightarrow> u64 wx \<Rightarrow> (u64 option \<times> u64 wx) option" where
  "dcbNewCallback2_ppc64_v1 mem impl os pcb entry signature handler userdata ags =
     new_callback impl BE os 88 (\<lambda>p. Some (ppc64_v1_callback_bytes
       ((dcbInitCallback2_ppc64 pcb signature handler userdata ags)
          \<lparr>pcb_thunk := dcbInitThunk_ppc64_v1 mem p entry (pcb_thunk pcb)\<rparr>)))"

definition ppc64_v2_callback_bytes :: "(DCThunk_ppc64_v2, u64) DCCallback_ppc \<Rightarrow> byte list" where
  "ppc64_v2_callback_bytes pcb =
     thunk_ppc64_v2_bytes LE (pcb_thunk pcb) @ obj_bytes LE 8 (pcb_handler pcb) @ obj_bytes LE 8 (pcb_stack_cleanup pcb) @ obj_bytes LE 8 (pcb_userdata pcb)"

definition dcbNewCallback2_ppc64_v2 ::
  "wx_impl \<Rightarrow> u64 wx_os \<Rightarrow> (DCThunk_ppc64_v2, u64) DCCallback_ppc \<Rightarrow> u64 \<Rightarrow> char list \<Rightarrow>
   u64 \<Rightarrow> u64 \<Rightarrow> u64 \<Rightarrow> u64 wx \<Rightarrow> (u64 option \<times> u64 wx) option" where
  "dcbNewCallback2_ppc64_v2 impl os pcb entry signature handler userdata ags =
     new_callback impl LE os 72 (\<lambda>p. Some (ppc64_v2_callback_bytes
       ((dcbInitCallback2_ppc64 pcb signature handler userdata ags)
          \<lparr>pcb_thunk := dcbInitThunk_ppc64_v2 p entry (pcb_thunk pcb)\<rparr>)))"

definition sparc32_callback_bytes :: "(DCThunk_sparc, u32) DCCallback \<Rightarrow> byte list" where
  "sparc32_callback_bytes pcb =
     thunk_sparc32_bytes (pcb_thunk pcb) @ obj_bytes BE 4 (pcb_handler pcb) @ obj_bytes BE 4 (pcb_userdata pcb)"

definition dcbInitCallback2_sparc32 ::
  "(DCThunk_sparc, u32) DCCallback \<Rightarrow> char list \<Rightarrow> u32 \<Rightarrow> u32 \<Rightarrow> u32 \<Rightarrow> (DCThunk_sparc, u32) DCCallback" where
  "dcbInitCallback2_sparc32 pcb signature handler userdata ags = pcb\<lparr>pcb_handler := handler, pcb_userdata := userdata\<rparr>"

definition dcbNewCallback2_sparc32 ::
  "wx_impl \<Rightarrow> u32 wx_os \<Rightarrow> (DCThunk_sparc, u32) DCCallback \<Rightarrow> u32 \<Rightarrow> char list \<Rightarrow>
   u32 \<Rightarrow> u32 \<Rightarrow> u32 \<Rightarrow> u32 wx \<Rightarrow> (u32 option \<times> u32 wx) option" where
  "dcbNewCallback2_sparc32 impl os pcb entry signature handler userdata ags =
     new_callback impl BE os 32 (\<lambda>p. Some (sparc32_callback_bytes
       ((dcbInitCallback2_sparc32 pcb signature handler userdata ags)
          \<lparr>pcb_thunk := dcbInitThunk_sparc32 p entry (pcb_thunk pcb)\<rparr>)))"

definition sparc64_callback_bytes :: "(DCThunk_sparc, u64) DCCallback \<Rightarrow> byte list" where
  "sparc64_callback_bytes pcb =
     thunk_sparc64_bytes (pcb_thunk pcb) @ obj_bytes BE 8 (pcb_handler pcb) @ obj_bytes BE 8 (pcb_userdata pcb)"

definition dcbInitCallback2_sparc64 ::
  "(DCThunk_sparc, u64) DCCallback \<Rightarrow> char list \<Rightarrow> u64 \<Rightarrow> u64 \<Rightarrow> u64 \<Rightarrow> (DCThunk_sparc, u64) DCCallback" where
  "dcbInitCallback2_sparc64 pcb signature handler userdata ags = pcb\<lparr>pcb_handler := handler, pcb_userdata := userdata\<rparr>"

definition dcbNewCallback2_sparc64 ::
  "wx_impl \<Rightarrow> u64 wx_os \<Rightarrow> (DCThunk_sparc, u64) DCCallback \<Rightarrow> u64 \<Rightarrow> char list \<Rightarrow>
   u64 \<Rightarrow> u64 \<Rightarrow> u64 \<Rightarrow> u64 wx \<Rightarrow> (u64 option \<times> u64 wx) option" where
  "dcbNewCallback2_sparc64 impl os pcb entry signature handler userdata ags =
     new_callback impl BE os 72 (\<lambda>p. Some (sparc64_callback_bytes
       ((dcbInitCallback2_sparc64 pcb signature handler userdata ags)
          \<lparr>pcb_thunk := dcbInitThunk_sparc64 p entry (pcb_thunk pcb)\<rparr>)))"

text \<open>The entries in assembly find the callback in the context register and read handler and userdata at fixed offsets from it.\<close>

definition entry_reads ::
  "endian \<Rightarrow> 'l::len word decoder \<Rightarrow> 'l word heap \<Rightarrow> 'l word \<Rightarrow> 'l word \<Rightarrow> nat \<Rightarrow> nat set \<Rightarrow>
   'l word \<Rightarrow> 'l word \<Rightarrow> 'l word \<Rightarrow> 'l word \<Rightarrow> bool" where
  "entry_reads e dec h p entry ctx scratch handler_at handler userdata_at userdata \<longleftrightarrow>
     (\<forall>c. c_pc c = p \<longrightarrow> c_slot c = None \<longrightarrow>
        (\<exists>n c'. steps e dec h n c = Some c' \<and> c_pc c' = entry \<and> c_slot c' = None \<and> c_reg c' ctx = p \<and>
           (\<forall>r. r \<notin> scratch \<longrightarrow> c_reg c' r = c_reg c r) \<and>
           load_ptr e h (c_reg c' ctx + handler_at) = handler \<and> load_ptr e h (c_reg c' ctx + userdata_at) = userdata))"

lemma entry_readsI:
  assumes "thunk_enters e dec p tb entry ctx scratch" and "heap_read h p (length bs) = bs" and "bs = tb @ r"
    and "load_ptr e h (p + handler_at) = handler" and "load_ptr e h (p + userdata_at) = userdata"
  shows "entry_reads e dec h p entry ctx scratch handler_at handler userdata_at userdata"
proof -
  have "heap_read h p (length tb) = tb"
    using assms(2,3) take_heap_read [of "length tb" "length bs" h p] by simp
  with assms(1,4,5) show ?thesis unfolding entry_reads_def thunk_enters_def by metis
qed

subsection \<open>x86\<close>

text \<open>\<open>vt_addr\<close> is the address of each table of readers.\<close>

definition x86_callback_bytes :: "(vt_args_x86 \<Rightarrow> u32) \<Rightarrow> DCThunk_x86 \<Rightarrow> DCCallback_x86 \<Rightarrow> byte list" where
  "x86_callback_bytes vt_addr t pcb =
     thunk_x86_bytes t @ obj_bytes LE 4 (cb_handler pcb) @ obj_bytes LE 4 (vt_addr (cb_args_vt pcb)) @
     obj_bytes LE 4 (cb_stack_cleanup pcb) @ obj_bytes LE 4 (cb_userdata pcb)"

definition dcbNewCallback2_x86 ::
  "bool \<Rightarrow> bool \<Rightarrow> (vt_args_x86 \<Rightarrow> u32) \<Rightarrow> wx_impl \<Rightarrow> u32 wx_os \<Rightarrow> DCThunk_x86 \<Rightarrow> DCCallback_x86 \<Rightarrow> u32 \<Rightarrow>
   char list \<Rightarrow> u32 \<Rightarrow> u32 \<Rightarrow> u32 wx \<Rightarrow> (u32 option \<times> u32 wx) option" where
  "dcbNewCallback2_x86 plan9 msvc vt_addr impl os t pcb entry signature handler userdata =
     new_callback impl LE os 32 (\<lambda>p.
       map_option (x86_callback_bytes vt_addr (dcbInitThunk_x86 p entry t))
         (dcbInitCallback2_x86 plan9 msvc pcb signature handler userdata))"

subsection \<open>x64\<close>

record DCCallback_x64 =
  x64_thunk :: DCThunk_x64
  x64_handler :: u64
  x64_userdata :: u64
  x64_aggr_return_register :: int
  x64_pad :: u32
  x64_aggrs :: u64

text \<open>The mode and the rest of the signature; a prefix without a character behind it makes the code read past the end.\<close>

definition cc_prefix_x64 :: "char list \<Rightarrow> (u32 \<times> char list) option" where
  "cc_prefix_x64 signature =
     (case signature of
        [] \<Rightarrow> Some (DC_CALL_C_DEFAULT, [])
      | c # r \<Rightarrow>
          if c = DC_SIGCHAR_CC_PREFIX then (case r of [] \<Rightarrow> None | d # ch \<Rightarrow> Some (dcGetModeFromCCSigChar d, ch))
          else Some (DC_CALL_C_DEFAULT, signature))"

fun count_aggrs :: "char list \<Rightarrow> nat" where
  "count_aggrs [] = 0"
| "count_aggrs (c # ch) = (if c = DC_SIGCHAR_AGGREGATE then 1 else 0) + count_aggrs ch"

definition aggr_register_x64 :: "bool \<Rightarrow> u32 \<Rightarrow> DCaggr option \<Rightarrow> int" where
  "aggr_register_x64 windows mode ag =
     (if windows then
        (if mode = DC_CALL_C_DEFAULT_THIS then 1 else if hidden_result_win64 ag then 0 else -1)
      else
        (case ag of
           None \<Rightarrow> 0
         | Some a \<Rightarrow> if sysv_classes a ! 0 = SYSVC_MEMORY then 0 else -1))"

text \<open>\<open>ags\<close> is the address of the array of descriptions with what it points to; \<open>None\<close>: a read behind the signature or the array.\<close>

definition dcbInitCallback2_x64 ::
  "bool \<Rightarrow> DCCallback_x64 \<Rightarrow> char list \<Rightarrow> u64 \<Rightarrow> u64 \<Rightarrow> u64 \<times> DCaggr option list \<Rightarrow> DCCallback_x64 option" where
  "dcbInitCallback2_x64 windows pcb signature handler userdata ags =
     (let pcb = pcb\<lparr>x64_handler := handler, x64_userdata := userdata, x64_aggrs := 0, x64_aggr_return_register := -2\<rparr> in
      case cc_prefix_x64 signature of
        None \<Rightarrow> None
      | Some (mode, ch) \<Rightarrow>
          if count_aggrs ch = 0 then Some pcb
          else
            (let pcb = pcb\<lparr>x64_aggrs := fst ags\<rparr> in
             if last ch \<noteq> DC_SIGCHAR_AGGREGATE then Some pcb
             else if count_aggrs ch \<le> length (snd ags)
             then Some (pcb\<lparr>x64_aggr_return_register := aggr_register_x64 windows mode (snd ags ! (count_aggrs ch - 1))\<rparr>)
             else None))"

definition x64_callback_bytes :: "DCCallback_x64 \<Rightarrow> byte list" where
  "x64_callback_bytes pcb =
     thunk_x64_bytes (x64_thunk pcb) @ obj_bytes LE 8 (x64_handler pcb) @ obj_bytes LE 8 (x64_userdata pcb) @
     obj_bytes LE 4 (word_of_int (x64_aggr_return_register pcb) :: u32) @ obj_bytes LE 4 (x64_pad pcb) @
     obj_bytes LE 8 (x64_aggrs pcb)"

definition dcbNewCallback2_x64 ::
  "bool \<Rightarrow> wx_impl \<Rightarrow> u64 wx_os \<Rightarrow> DCCallback_x64 \<Rightarrow> u64 \<Rightarrow> char list \<Rightarrow> u64 \<Rightarrow> u64 \<Rightarrow>
   u64 \<times> DCaggr option list \<Rightarrow> u64 wx \<Rightarrow> (u64 option \<times> u64 wx) option" where
  "dcbNewCallback2_x64 windows impl os pcb entry signature handler userdata ags =
     new_callback impl LE os 56 (\<lambda>p.
       map_option (\<lambda>pcb. x64_callback_bytes (pcb\<lparr>x64_thunk := dcbInitThunk_x64 p entry (x64_thunk pcb)\<rparr>))
         (dcbInitCallback2_x64 windows pcb signature handler userdata ags))"

text \<open>C36: Both sides of a struct result agree on x64: when a callback is made for a signature with a result \<open>A\<close>, the register
  that \<open>dcbInitCallback2\<close> writes into it is the one the call VM keeps for the hidden pointer after a call of \<open>dcMode\<close> with
  the mode of the signature, \<open>dcReset\<close> and \<open>dcBeginCallAggr\<close> with the same description (\<open>-1\<close> where the result comes
  back in registers), on System V and on Windows, for functions and methods.\<close>

theorem x64_callback_register_agrees:
  assumes "dcbInitCallback2_x64 windows pcb signature handler userdata ags = Some pcb'"
    and "cc_prefix_x64 signature = Some (mode, ch)" and "ch \<noteq> []" and "last ch = DC_SIGCHAR_AGGREGATE"
    and "mode \<in> {DC_CALL_C_DEFAULT, DC_CALL_C_DEFAULT_THIS, DC_CALL_C_ELLIPSIS, DC_CALL_C_ELLIPSIS_VARARGS}"
    and "rag = snd ags ! (count_aggrs ch - 1)"
  shows "if windows
    then map_option w_mAggrReturnReg
      (dcBeginCallAggr (vtab_win64 run run_aggr pad)
        (dcReset (vtab_win64 run run_aggr pad) (dcMode (vtab_win64 run run_aggr pad) vm mode)) rag)
      = Some (x64_aggr_return_register pcb')
    else map_option mAggrReturnReg
      (dcBeginCallAggr (vtab_x64 run' run_aggr' pad')
        (dcReset (vtab_x64 run' run_aggr' pad') (dcMode (vtab_x64 run' run_aggr' pad') vm' mode)) rag)
      = Some (x64_aggr_return_register pcb')"
proof -
  have n: "count_aggrs l \<noteq> 0" if "l \<noteq> []" "last l = DC_SIGCHAR_AGGREGATE" for l
    using that by (induction l) (auto split: if_splits)
  have r: "x64_aggr_return_register pcb' = aggr_register_x64 windows mode rag"
    using assms(1,2,4,6) n [OF assms(3,4)] by (auto simp: dcbInitCallback2_x64_def Let_def split: if_splits)
  have w: "dcMode (vtab_win64 run run_aggr pad) vm mode
      = dc_callvm_base_init vm (if mode = DC_CALL_C_DEFAULT_THIS then gVT_x64_win64_this else gVT_win64)"
    using assms(5) by (cases "mVTpointer vm") (auto simp: dcMode_def vt_win64_c_def vt_win64_this_def dc_callvm_mode_win64_def)
  have u: "dcMode (vtab_x64 run' run_aggr' pad') vm' mode = dc_callvm_base_init vm' gVT_x64"
    using assms(5) by (cases "mVTpointer vm'") (auto simp: dcMode_def vt_x64_c_def vt_x64_syscall_def dc_callvm_mode_x64_def)
  show ?thesis
    unfolding r w u
    by (auto simp: aggr_register_x64_def dcBeginCallAggr_def dcReset_def dc_callvm_base_init_def vt_win64_c_def vt_win64_this_def
        vt_x64_c_def dc_callvm_reset_win64_def dc_callvm_begin_aggr_win64_def dc_callvm_begin_aggr_win64_this_def
        dc_callvm_reset_x64_def dc_callvm_begin_aggr_x64_def split: option.splits)
qed

lemma x64_callback_register_agrees_witness:
  "map_option w_mAggrReturnReg
      (dcBeginCallAggr (vtab_win64 (\<lambda>_ h. h) (\<lambda>_ h. (h, 0)) 0)
        (dcReset (vtab_win64 (\<lambda>_ h. h) (\<lambda>_ h. (h, 0)) 0)
          (dcMode (vtab_win64 (\<lambda>_ h. h) (\<lambda>_ h. (h, 0)) 0) (win64_blank gVT_win64 64) DC_CALL_C_DEFAULT_THIS))
        (Some win64_short)) = Some 1"
  using x64_callback_register_agrees
    [of True "\<lparr>x64_thunk = \<lparr>x64_code = \<lambda>_. 0, x64_entry = 0\<rparr>, x64_handler = 0, x64_userdata = 0,
        x64_aggr_return_register = 0, x64_pad = 0, x64_aggrs = 0\<rparr>" "''_*i)A''" 64 128 "(256, [Some win64_short])" _
      DC_CALL_C_DEFAULT_THIS "''i)A''" "Some win64_short" "\<lambda>_ h. h" "\<lambda>_ h. (h, 0)" 0 "win64_blank gVT_win64 64"]
  by (simp add: dcbInitCallback2_x64_def cc_prefix_x64_def dcGetModeFromCCSigChar_def aggr_register_x64_def)

subsection \<open>The platform of a build\<close>

text \<open>\<open>dyncall_callback.c\<close>, \<open>dyncall_thunk.c\<close> and \<open>dyncall_callback_arch.S\<close> choose the files of a platform. The parameter of
  \<open>MIPS\<close> is its byte order, that of \<open>AMD64\<close> whether it is Windows.\<close>

datatype arch32 = X86 | ARM | MIPS endian | PPC32_Darwin | PPC32_SysV | SPARC
datatype arch64 = AMD64 bool | ARM64 | MIPS64 endian | PPC64_ELF_V1 | PPC64_ELF_V2 | SPARC64

record memory32 =
  m_x86_thunk :: DCThunk_x86
  m_x86 :: DCCallback_x86
  m_arm32 :: "(DCThunk_arm32, u32) DCCallback"
  m_mips :: "(DCThunk_mips, u32) DCCallback"
  m_ppc32 :: "(DCThunk_ppc32, u32) DCCallback_ppc"
  m_sparc32 :: "(DCThunk_sparc, u32) DCCallback"

record memory64 =
  m_x64 :: DCCallback_x64
  m_arm64 :: "(DCThunk_arm64, u64) DCCallback"
  m_mips64 :: "(DCThunk_mips64, u64) DCCallback"
  m_ppc64_v1 :: "(DCThunk_ppc64_v1, u64) DCCallback_ppc"
  m_ppc64_v2 :: "(DCThunk_ppc64_v2, u64) DCCallback_ppc"
  m_sparc64 :: "(DCThunk_sparc, u64) DCCallback"

text \<open>On x86 this is the build for neither Plan 9 nor the compiler of Microsoft; \<open>x86_reads\<close> is about those, too.\<close>

fun dcbNewCallback2_32 ::
  "arch32 \<Rightarrow> (vt_args_x86 \<Rightarrow> u32) \<Rightarrow> wx_impl \<Rightarrow> u32 wx_os \<Rightarrow> memory32 \<Rightarrow> u32 \<Rightarrow> char list \<Rightarrow> u32 \<Rightarrow> u32 \<Rightarrow> u32 \<Rightarrow>
   u32 wx \<Rightarrow> (u32 option \<times> u32 wx) option" where
  "dcbNewCallback2_32 X86 vt impl os m entry sg handler userdata ags =
     dcbNewCallback2_x86 False False vt impl os (m_x86_thunk m) (m_x86 m) entry sg handler userdata"
| "dcbNewCallback2_32 ARM vt impl os m entry sg handler userdata ags =
     dcbNewCallback2_arm32 impl os (m_arm32 m) entry sg handler userdata ags"
| "dcbNewCallback2_32 (MIPS e) vt impl os m entry sg handler userdata ags =
     dcbNewCallback2_mips e impl os (m_mips m) entry sg handler userdata ags"
| "dcbNewCallback2_32 PPC32_Darwin vt impl os m entry sg handler userdata ags =
     dcbNewCallback2_ppc32 True impl os (m_ppc32 m) entry sg handler userdata ags"
| "dcbNewCallback2_32 PPC32_SysV vt impl os m entry sg handler userdata ags =
     dcbNewCallback2_ppc32 False impl os (m_ppc32 m) entry sg handler userdata ags"
| "dcbNewCallback2_32 SPARC vt impl os m entry sg handler userdata ags =
     dcbNewCallback2_sparc32 impl os (m_sparc32 m) entry sg handler userdata ags"

text \<open>\<open>ds\<close> is what the array of descriptions at \<open>ags\<close> holds.\<close>

fun dcbNewCallback2_64 ::
  "arch64 \<Rightarrow> wx_impl \<Rightarrow> u64 wx_os \<Rightarrow> memory64 \<Rightarrow> u64 \<Rightarrow> char list \<Rightarrow> u64 \<Rightarrow> u64 \<Rightarrow> u64 \<Rightarrow> DCaggr option list \<Rightarrow>
   u64 wx \<Rightarrow> (u64 option \<times> u64 wx) option" where
  "dcbNewCallback2_64 (AMD64 windows) impl os m entry sg handler userdata ags ds st =
     dcbNewCallback2_x64 windows impl os (m_x64 m) entry sg handler userdata (ags, ds) st"
| "dcbNewCallback2_64 ARM64 impl os m entry sg handler userdata ags ds st =
     dcbNewCallback2_arm64 impl os (m_arm64 m) entry sg handler userdata ags st"
| "dcbNewCallback2_64 (MIPS64 e) impl os m entry sg handler userdata ags ds st =
     dcbNewCallback2_mips64 e impl os (m_mips64 m) entry sg handler userdata ags st"
| "dcbNewCallback2_64 PPC64_ELF_V1 impl os m entry sg handler userdata ags ds st =
     dcbNewCallback2_ppc64_v1 (wx_mem st) impl os (m_ppc64_v1 m) entry sg handler userdata ags st"
| "dcbNewCallback2_64 PPC64_ELF_V2 impl os m entry sg handler userdata ags ds st =
     dcbNewCallback2_ppc64_v2 impl os (m_ppc64_v2 m) entry sg handler userdata ags st"
| "dcbNewCallback2_64 SPARC64 impl os m entry sg handler userdata ags ds st =
     dcbNewCallback2_sparc64 impl os (m_sparc64 m) entry sg handler userdata ags st"

text \<open>The functions without descriptions, and the userdata that a callback has.\<close>

definition dcbNewCallback_32 ::
  "arch32 \<Rightarrow> (vt_args_x86 \<Rightarrow> u32) \<Rightarrow> wx_impl \<Rightarrow> u32 wx_os \<Rightarrow> memory32 \<Rightarrow> u32 \<Rightarrow> char list \<Rightarrow> u32 \<Rightarrow> u32 \<Rightarrow>
   u32 wx \<Rightarrow> (u32 option \<times> u32 wx) option" where
  "dcbNewCallback_32 a vt impl os m entry sg handler userdata = dcbNewCallback2_32 a vt impl os m entry sg handler userdata 0"

definition dcbNewCallback_64 ::
  "arch64 \<Rightarrow> wx_impl \<Rightarrow> u64 wx_os \<Rightarrow> memory64 \<Rightarrow> u64 \<Rightarrow> char list \<Rightarrow> u64 \<Rightarrow> u64 \<Rightarrow> u64 wx \<Rightarrow> (u64 option \<times> u64 wx) option" where
  "dcbNewCallback_64 a impl os m entry sg handler userdata = dcbNewCallback2_64 a impl os m entry sg handler userdata 0 []"

definition dcbInitCallback_x64 :: "bool \<Rightarrow> DCCallback_x64 \<Rightarrow> char list \<Rightarrow> u64 \<Rightarrow> u64 \<Rightarrow> DCCallback_x64 option" where
  "dcbInitCallback_x64 windows pcb sg handler userdata = dcbInitCallback2_x64 windows pcb sg handler userdata (0, [])"

definition dcbGetUserData_x64 :: "DCCallback_x64 \<Rightarrow> u64" where
  "dcbGetUserData_x64 pcb = x64_userdata pcb"

text \<open>What the entry of each platform reads: its context register and the offsets in the assembly files.\<close>

fun entry32 :: "arch32 \<Rightarrow> u32 heap \<Rightarrow> u32 \<Rightarrow> u32 \<Rightarrow> u32 \<Rightarrow> u32 \<Rightarrow> bool" where
  "entry32 X86 h p entry f x = entry_reads LE decode_x86 h p entry 0 {0} 16 f 28 x"
| "entry32 ARM h p entry f x = entry_reads LE (fixed4 LE decode_arm32) h p entry 12 {12} 12 f 16 x"
| "entry32 (MIPS e) h p entry f x = entry_reads e (fixed4 e decode_mips) h p entry 12 {12, 25} 20 f 24 x"
| "entry32 PPC32_Darwin h p entry f x = entry_reads BE (fixed4 BE decode_ppc) h p entry 2 {2, 12} 24 f 32 x"
| "entry32 PPC32_SysV h p entry f x = entry_reads BE (fixed4 BE decode_ppc) h p entry 11 {11, 12} 24 f 32 x"
| "entry32 SPARC h p entry f x = entry_reads BE (fixed4 BE decode_sparc) h p entry 1 {1, 2} 24 f 28 x"

definition entry_reads_v1 :: "u64 heap \<Rightarrow> u64 heap \<Rightarrow> u64 \<Rightarrow> u64 \<Rightarrow> u64 \<Rightarrow> u64 \<Rightarrow> bool" where
  "entry_reads_v1 mem h p entry f x \<longleftrightarrow>
     (\<forall>c. c_slot c = None \<longrightarrow>
        (\<exists>n c'. steps BE (fixed4 BE decode_ppc) h n (call_descriptor h p c) = Some c' \<and> c_slot c' = None \<and>
           c_pc c' = load_ptr BE mem entry \<and> c_reg c' 2 = load_ptr BE mem (entry + 8) \<and> c_reg c' 11 = p \<and>
           (\<forall>r. r \<notin> {2, 11, 12} \<longrightarrow> c_reg c' r = c_reg c r) \<and>
           load_ptr BE h (c_reg c' 11 + 64) = f \<and> load_ptr BE h (c_reg c' 11 + 80) = x))"

fun entry64 :: "arch64 \<Rightarrow> u64 heap \<Rightarrow> u64 heap \<Rightarrow> u64 \<Rightarrow> u64 \<Rightarrow> u64 \<Rightarrow> u64 \<Rightarrow> bool" where
  "entry64 (AMD64 _) mem h p entry f x = entry_reads LE decode_x64 h p entry 0 {0} 24 f 32 x"
| "entry64 ARM64 mem h p entry f x = entry_reads LE (fixed4 LE decode_arm64) h p entry 9 {9, 10} 32 f 40 x"
| "entry64 (MIPS64 e) mem h p entry f x = entry_reads e (fixed4 e decode_mips) h p entry 24 {24, 25} 56 f 64 x"
| "entry64 PPC64_ELF_V1 mem h p entry f x = entry_reads_v1 mem h p entry f x"
| "entry64 PPC64_ELF_V2 mem h p entry f x = entry_reads LE (fixed4 LE decode_ppc) h p entry 11 {11, 12} 48 f 64 x"
| "entry64 SPARC64 mem h p entry f x = entry_reads BE (fixed4 BE decode_sparc) h p entry 1 {1, 2, 3} 56 f 64 x"

lemma code_ptr:
  assumes "heap_read h p (length bs) = bs" and "unat k + LENGTH('l) div 8 \<le> length bs"
    and "take (LENGTH('l) div 8) (drop (unat k) bs) = obj_bytes e (LENGTH('l) div 8) x" and "LENGTH('l) \<le> 8 * (LENGTH('l) div 8)"
  shows "load_ptr e h (p + k) = (x :: 'l::len word)"
  using assms code_read [OF assms(1), of "p + k" "LENGTH('l) div 8"] by (simp add: load_ptr_def obj_word_obj_bytes)

lemma length_thunks [simp]:
  "length (thunk_x86_bytes t1) = 16" "length (thunk_x64_bytes t2) = 24" "length (thunk_arm32_bytes t3) = 12"
  "length (thunk_arm64_bytes t4) = 32" "length (thunk_mips_bytes e t5) = 20" "length (thunk_mips64_bytes e t6) = 56"
  "length (thunk_ppc32_bytes t7) = 24" "length (thunk_ppc64_v1_bytes t8) = 64" "length (thunk_ppc64_v2_bytes e t9) = 48"
  "length (thunk_sparc32_bytes t10) = 24" "length (thunk_sparc64_bytes t10) = 56"
  by (simp_all add: thunk_x86_bytes_def thunk_x64_bytes_def thunk_arm32_bytes_def thunk_arm64_bytes_def thunk_mips_bytes_def
      thunk_mips64_bytes_def thunk_ppc32_bytes_def thunk_ppc64_v1_bytes_def thunk_ppc64_v2_bytes_def
      thunk_sparc32_bytes_def thunk_sparc64_bytes_def halves_def words_def length_concat comp_def sum_list_triv)

text \<open>The callback in memory: the bytes of the thunk, then the rest.\<close>

lemma new_callback_reads:
  fixes p :: "'p::len word"
  assumes "new_callback impl e os sz init st = Some (Some p, st')" and "sz < 2 ^ LENGTH('p)"
    and "\<And>bs. init p = Some bs \<Longrightarrow> length bs = sz" and "init p = Some (tb @ r)"
    and "thunk_enters e dec p tb entry ctx scratch"
    and "take (LENGTH('p) div 8) (drop (unat a) (tb @ r)) = obj_bytes e (LENGTH('p) div 8) f" and "unat a + LENGTH('p) div 8 \<le> sz"
    and "take (LENGTH('p) div 8) (drop (unat b) (tb @ r)) = obj_bytes e (LENGTH('p) div 8) x" and "unat b + LENGTH('p) div 8 \<le> sz"
    and "LENGTH('p) \<le> 8 * (LENGTH('p) div 8)"
  shows "entry_reads e dec (wx_mem st') p entry ctx scratch a f b x"
proof -
  have l: "length (tb @ r) = sz" by (rule assms(3) [OF assms(4)])
  from new_callback_memory [OF assms(1-3)] assms(4) l have m: "heap_read (wx_mem st') p (length (tb @ r)) = tb @ r"
    by auto
  show ?thesis
    by (rule entry_readsI [OF assms(5) m refl code_ptr [OF m _ assms(6,10)] code_ptr [OF m _ assms(8,10)]])
      (use l assms(7,9) in auto)
qed

lemma arm32_reads:
  "dcbNewCallback2_arm32 impl os pcb entry sg f x ags st = Some (Some p, st') \<Longrightarrow> entry32 ARM (wx_mem st') p entry f x"
  unfolding dcbNewCallback2_arm32_def arm32_callback_bytes_def entry32.simps
  by (erule new_callback_reads [OF _ _ _ refl]) (auto simp: thunk_arm32_enters dcbInitCallback2_arm32_def)

lemma mips_reads:
  "dcbNewCallback2_mips e impl os pcb entry sg f x ags st = Some (Some p, st') \<Longrightarrow>
     entry32 (MIPS e) (wx_mem st') p entry f x"
  unfolding dcbNewCallback2_mips_def mips_callback_bytes_def entry32.simps
  by (erule new_callback_reads [OF _ _ _ refl]) (auto simp: thunk_mips_enters dcbInitCallback2_mips_def)

lemma ppc32_darwin_reads:
  "dcbNewCallback2_ppc32 True impl os pcb entry sg f x ags st = Some (Some p, st') \<Longrightarrow>
     entry32 PPC32_Darwin (wx_mem st') p entry f x"
  unfolding dcbNewCallback2_ppc32_def ppc32_callback_bytes_def entry32.simps
  by (erule new_callback_reads [OF _ _ _ refl]) (auto simp: thunk_ppc32_enters dcbInitCallback2_ppc32_def)

lemma ppc32_sysv_reads:
  "dcbNewCallback2_ppc32 False impl os pcb entry sg f x ags st = Some (Some p, st') \<Longrightarrow>
     entry32 PPC32_SysV (wx_mem st') p entry f x"
  unfolding dcbNewCallback2_ppc32_def ppc32_callback_bytes_def entry32.simps
  by (erule new_callback_reads [OF _ _ _ refl]) (auto simp: thunk_ppc32_sysv_enters dcbInitCallback2_ppc32_def)

lemma sparc32_reads:
  "dcbNewCallback2_sparc32 impl os pcb entry sg f x ags st = Some (Some p, st') \<Longrightarrow>
     entry32 SPARC (wx_mem st') p entry f x"
  unfolding dcbNewCallback2_sparc32_def sparc32_callback_bytes_def entry32.simps
  by (erule new_callback_reads [OF _ _ _ refl]) (auto simp: thunk_sparc32_enters [unfolded One_nat_def] dcbInitCallback2_sparc32_def)

lemma arm64_reads:
  "dcbNewCallback2_arm64 impl os pcb entry sg f x ags st = Some (Some p, st') \<Longrightarrow>
     entry64 ARM64 (wx_mem st) (wx_mem st') p entry f x"
  unfolding dcbNewCallback2_arm64_def arm64_callback_bytes_def entry64.simps
  by (erule new_callback_reads [OF _ _ _ refl]) (auto simp: thunk_arm64_enters dcbInitCallback2_arm64_def)

lemma mips64_reads:
  "dcbNewCallback2_mips64 e impl os pcb entry sg f x ags st = Some (Some p, st') \<Longrightarrow>
     entry64 (MIPS64 e) (wx_mem st) (wx_mem st') p entry f x"
  unfolding dcbNewCallback2_mips64_def mips64_callback_bytes_def entry64.simps
  by (erule new_callback_reads [OF _ _ _ refl]) (auto simp: thunk_mips64_enters dcbInitCallback2_mips_def)

lemma ppc64_v2_reads:
  "dcbNewCallback2_ppc64_v2 impl os pcb entry sg f x ags st = Some (Some p, st') \<Longrightarrow>
     entry64 PPC64_ELF_V2 (wx_mem st) (wx_mem st') p entry f x"
  unfolding dcbNewCallback2_ppc64_v2_def ppc64_v2_callback_bytes_def entry64.simps
  by (erule new_callback_reads [OF _ _ _ refl]) (auto simp: thunk_ppc64_v2_enters dcbInitCallback2_ppc64_def)

lemma sparc64_reads:
  "dcbNewCallback2_sparc64 impl os pcb entry sg f x ags st = Some (Some p, st') \<Longrightarrow>
     entry64 SPARC64 (wx_mem st) (wx_mem st') p entry f x"
  unfolding dcbNewCallback2_sparc64_def sparc64_callback_bytes_def entry64.simps
  by (erule new_callback_reads [OF _ _ _ refl]) (auto simp: thunk_sparc64_enters [unfolded One_nat_def] dcbInitCallback2_sparc64_def)

lemma bind_Some_via:
  assumes "Option.bind x f = Some z" and "\<And>q. x = Some q \<Longrightarrow> P q" and "\<And>q. P q \<Longrightarrow> f q = Some z \<Longrightarrow> R"
  shows R
  using assms by (cases x) auto

lemma if_Some_E: "(if b then x else y) = Some q \<Longrightarrow> (x = Some q \<Longrightarrow> P) \<Longrightarrow> (y = Some q \<Longrightarrow> P) \<Longrightarrow> P"
  by (cases b) auto

lemma dcbInitCallback2_x86_pointers:
  assumes "dcbInitCallback2_x86 plan9 msvc pcb sg f x = Some pcb'"
  shows "cb_handler pcb' = f \<and> cb_userdata pcb' = x" (is "?P pcb'")
proof -
  obtain mode pos where h: "x86_hint sg = (mode, pos)" by (cases "x86_hint sg")
  let ?pcb = "pcb\<lparr>cb_handler := f, cb_userdata := x\<rparr>"
  have c: "?P q" if "Option.bind pos (\<lambda>ptr. map_option (\<lambda>n. ?pcb\<lparr>cb_args_vt := v, cb_stack_cleanup := n\<rparr>) (size ptr)) = Some q"
    for v size q
    using that by (auto simp: bind_eq_Some_conv)
  have d: "?P q" if "Some ?pcb = Some q" for q using that by auto
  show ?thesis
  proof (rule bind_Some_via [OF assms [unfolded dcbInitCallback2_x86_def h Let_def prod.case], where P = ?P])
    fix q assume "(if mode = DC_CALL_C_X86_CDECL then Option.bind pos (\<lambda>ptr. map_option (\<lambda>n. ?pcb
          \<lparr>cb_args_vt := dcArgsVT_default, cb_stack_cleanup := n\<rparr>) (dcbCleanupSize_x86_cdecl ptr))
        else if mode = DC_CALL_C_X86_WIN32_STD then Option.bind pos (\<lambda>ptr. map_option (\<lambda>n. ?pcb
          \<lparr>cb_args_vt := dcArgsVT_default, cb_stack_cleanup := n\<rparr>) (dcbCleanupSize_x86_std ptr))
        else if mode = DC_CALL_C_X86_WIN32_FAST_MS then Option.bind pos (\<lambda>ptr. map_option (\<lambda>n. ?pcb
          \<lparr>cb_args_vt := dcArgsVT_fast_ms, cb_stack_cleanup := n\<rparr>) (dcbCleanupSize_x86_fast_ms ptr))
        else if mode = DC_CALL_C_X86_WIN32_FAST_GNU then Option.bind pos (\<lambda>ptr. map_option (\<lambda>n. ?pcb
          \<lparr>cb_args_vt := dcArgsVT_fast_gnu, cb_stack_cleanup := n\<rparr>) (dcbCleanupSize_x86_fast_gnu ptr))
        else if msvc \<and> mode = DC_CALL_C_DEFAULT_THIS \<or> mode = DC_CALL_C_X86_WIN32_THIS_MS
        then Option.bind pos (\<lambda>ptr. map_option (\<lambda>n. ?pcb
          \<lparr>cb_args_vt := dcArgsVT_this_ms, cb_stack_cleanup := n\<rparr>) (dcbCleanupSize_x86_this_ms ptr))
        else Some ?pcb) = Some q"
    then show "?P q" by (elim if_Some_E) (erule c d)+
  qed (auto split: if_splits option.splits)
qed

lemma x86_reads:
  assumes "dcbNewCallback2_x86 plan9 msvc vt impl os t pcb entry sg f x st = Some (Some p, st')"
  shows "entry32 X86 (wx_mem st') p entry f x"
proof -
  note n = assms [unfolded dcbNewCallback2_x86_def]
  have "\<exists>bs. map_option (x86_callback_bytes vt (dcbInitThunk_x86 p entry t))
      (dcbInitCallback2_x86 plan9 msvc pcb sg f x) = Some bs"
    using new_callback_memory [OF n] by (auto simp: x86_callback_bytes_def)
  then obtain q where q: "dcbInitCallback2_x86 plan9 msvc pcb sg f x = Some q" by auto
  show ?thesis
    unfolding entry32.simps
    by (rule new_callback_reads [OF n [unfolded q option.map x86_callback_bytes_def] _ _ refl])
      (use dcbInitCallback2_x86_pointers [OF q] in \<open>auto simp: thunk_x86_enters\<close>)
qed

lemma dcbInitCallback2_x64_fields:
  "dcbInitCallback2_x64 w pcb sg f x ags = Some pcb' \<Longrightarrow>
     x64_handler pcb' = f \<and> x64_userdata pcb' = x \<and> x64_thunk pcb' = x64_thunk pcb"
  by (auto simp: dcbInitCallback2_x64_def Let_def split: if_splits option.splits)

lemma x64_reads:
  assumes "dcbNewCallback2_x64 w impl os pcb entry sg f x ags st = Some (Some p, st')"
  shows "entry64 (AMD64 w) (wx_mem st) (wx_mem st') p entry f x"
    and "\<exists>q. dcbInitCallback2_x64 w pcb sg f x ags = Some q \<and>
      obj_word LE (heap_read (wx_mem st') (p + 40) 4) = (word_of_int (x64_aggr_return_register q) :: u32) \<and>
      load_ptr LE (wx_mem st') (p + 48) = x64_aggrs q"
proof -
  note n = assms [unfolded dcbNewCallback2_x64_def]
  from new_callback_memory [OF n] obtain q where q: "dcbInitCallback2_x64 w pcb sg f x ags = Some q"
    by (auto simp: x64_callback_bytes_def)
  note n' = n [unfolded q option.map x64_callback_bytes_def]
  show "entry64 (AMD64 w) (wx_mem st) (wx_mem st') p entry f x"
    unfolding entry64.simps
    by (rule new_callback_reads [OF n' _ _ refl])
      (use dcbInitCallback2_x64_fields [OF q] in \<open>auto simp: thunk_x64_enters\<close>)
  let ?bs = "x64_callback_bytes (q\<lparr>x64_thunk := dcbInitThunk_x64 p entry (x64_thunk q)\<rparr>)"
  have m: "heap_read (wx_mem st') p (length ?bs) = ?bs"
    using new_callback_memory [OF n] q by (auto simp: x64_callback_bytes_def)
  have "heap_read (wx_mem st') (p + 40) 4 = obj_bytes LE 4 (word_of_int (x64_aggr_return_register q) :: u32)"
    using code_read [OF m, of "p + 40" 4] by (simp add: x64_callback_bytes_def)
  moreover have "load_ptr LE (wx_mem st') (p + 48) = x64_aggrs q"
    by (rule code_ptr [OF m]) (simp_all add: x64_callback_bytes_def)
  ultimately show "\<exists>q. dcbInitCallback2_x64 w pcb sg f x ags = Some q \<and>
      obj_word LE (heap_read (wx_mem st') (p + 40) 4) = (word_of_int (x64_aggr_return_register q) :: u32) \<and>
      load_ptr LE (wx_mem st') (p + 48) = x64_aggrs q"
    using q by (simp add: obj_word_obj_bytes)
qed

lemma ppc64_v1_reads:
  assumes "dcbNewCallback2_ppc64_v1 mem impl os pcb entry sg f x ags st = Some (Some p, st')" and "take_bit 12 p = 0"
  shows "entry64 PPC64_ELF_V1 mem (wx_mem st') p entry f x"
proof -
  note n = assms(1) [unfolded dcbNewCallback2_ppc64_v1_def]
  let ?q = "dcbInitCallback2_ppc64 pcb sg f x ags"
  let ?t = "dcbInitThunk_ppc64_v1 mem p entry (pcb_thunk ?q)"
  let ?bs = "ppc64_v1_callback_bytes (?q\<lparr>pcb_thunk := ?t\<rparr>)"
  have m: "heap_read (wx_mem st') p (length ?bs) = ?bs"
    using new_callback_memory [OF n] by (auto simp: ppc64_v1_callback_bytes_def dcbInitCallback2_ppc64_def)
  have "heap_read (wx_mem st') p 64 = take 64 (heap_read (wx_mem st') p (length ?bs))"
    by (rule take_heap_read [symmetric]) (simp add: ppc64_v1_callback_bytes_def)
  then have t: "heap_read (wx_mem st') p (length (thunk_ppc64_v1_bytes ?t)) = thunk_ppc64_v1_bytes ?t"
    unfolding m by (simp add: ppc64_v1_callback_bytes_def)
  have "load_ptr BE (wx_mem st') (p + 64) = f" "load_ptr BE (wx_mem st') (p + 80) = x"
    by (rule code_ptr [OF m], simp_all add: ppc64_v1_callback_bytes_def dcbInitCallback2_ppc64_def)+
  with thunk_ppc64_v1_enters [OF assms(2), of mem entry "pcb_thunk ?q"] t show ?thesis
    unfolding entry64.simps entry_reads_v1_def thunk_enters_v1_def by metis
qed

text \<open>C34: On every platform with 32-bit pointers: if \<open>dcbNewCallback2\<close> returns a callback, then a call of it as a function runs
  the thunk and gets to the entry of dyncallback, with the address of the callback in the register that the entry
  expects it in, every register but the scratch registers of the thunk as the caller left it, and the handler and the
  userdata at the offsets that the assembly reads them from.\<close>

theorem callbacks32_enter:
  assumes "dcbNewCallback2_32 a vt impl os m entry sg handler userdata ags st = Some (Some p, st')"
  shows "entry32 a (wx_mem st') p entry handler userdata"
  using assms
  by (cases a) (simp_all only: dcbNewCallback2_32.simps x86_reads arm32_reads mips_reads ppc32_darwin_reads ppc32_sysv_reads
      sparc32_reads)

text \<open>C33: On every platform with 64-bit pointers: a callback that \<open>dcbNewCallback2\<close> returns enters the entry of dyncallback with its
  address in the context register, the other registers but scratch ones untouched, handler and userdata where
  the assembly reads them. With ELF version 1 of PowerPC the call goes through the descriptor at the start of the thunk, and the
  entry gets its own TOC; this needs the callback at the start of a page, where \<open>mmap\<close> puts it.\<close>

theorem callbacks64_enter:
  assumes "dcbNewCallback2_64 a impl os m entry sg handler userdata ags ds st = Some (Some p, st')"
    and "take_bit 12 p = 0"
  shows "entry64 a (wx_mem st) (wx_mem st') p entry handler userdata"
  using assms
  by (cases a) (simp_all only: dcbNewCallback2_64.simps x64_reads(1) arm64_reads mips64_reads ppc64_v1_reads ppc64_v2_reads
      sparc64_reads)

subsection \<open>A system with one page\<close>

definition one_page :: "'p::len word wx_os" where
  "one_page =
     \<lparr>os_map = \<lambda>st n. if wx_maps st 4096 = None \<and> n \<le> 4096 \<and> (4096 :: 'p word) \<noteq> 0 then Some 4096 else None,
      os_open = \<lambda>st. if 3 \<in> wx_fds st then None else Some 3, os_protect = \<lambda>_ _. True\<rparr>"

definition empty_wx :: "'p::len word wx" where
  "empty_wx = \<lparr>wx_mem = \<lambda>_. 0, wx_maps = \<lambda>_. None, wx_fds = {}\<rparr>"

lemma one_page_fresh: "os_fresh one_page"
  by (simp add: os_fresh_def one_page_def split: if_splits)

definition zero_callback :: "'t \<Rightarrow> ('t, 'p::len word) DCCallback" where
  "zero_callback t = \<lparr>pcb_thunk = t, pcb_handler = 0, pcb_userdata = 0\<rparr>"

definition zero_callback_ppc :: "'t \<Rightarrow> ('t, 'p::len word) DCCallback_ppc" where
  "zero_callback_ppc t = \<lparr>pcb_thunk = t, pcb_handler = 0, pcb_userdata = 0, pcb_stack_cleanup = 0\<rparr>"

definition zero_memory32 :: memory32 where
  "zero_memory32 =
     \<lparr>m_x86_thunk = \<lparr>x86_code_load = 0, x86_addr_self = 0, x86_code_jump = 0, x86_addr_entry = 0\<rparr>,
      m_x86 = \<lparr>cb_handler = 0, cb_args_vt = dcArgsVT_default, cb_stack_cleanup = 0, cb_userdata = 0\<rparr>,
      m_arm32 = zero_callback \<lparr>arm32_code = \<lambda>_. 0, arm32_entry = 0\<rparr>,
      m_mips = zero_callback \<lparr>mips_data = \<lambda>_. 0, mips_jump = 0, mips_bddt = \<lambda>_. 0\<rparr>,
      m_ppc32 = zero_callback_ppc \<lparr>ppc32_code_load_hi = 0, ppc32_addr_self_hi = 0, ppc32_code_load_lo = 0,
        ppc32_addr_self_lo = 0, ppc32_code_jump = \<lambda>_. 0, ppc32_addr_entry = 0\<rparr>,
      m_sparc32 = zero_callback \<lparr>sparc_code = \<lambda>_. 0\<rparr>\<rparr>"

definition zero_memory64 :: memory64 where
  "zero_memory64 =
     \<lparr>m_x64 = \<lparr>x64_thunk = \<lparr>x64_code = \<lambda>_. 0, x64_entry = 0\<rparr>, x64_handler = 0, x64_userdata = 0,
        x64_aggr_return_register = 0, x64_pad = 0, x64_aggrs = 0\<rparr>,
      m_arm64 = zero_callback \<lparr>arm64_code = \<lambda>_. 0, arm64_entry = 0, arm64_reserved = 0\<rparr>,
      m_mips64 = zero_callback \<lparr>mips64_s = \<lambda>_. 0, mips64_padding = 0\<rparr>,
      m_ppc64_v1 = zero_callback_ppc \<lparr>v1_thunk_entry = 0, v1_toc_thunk = 0, v1_code_load_hi = 0, v1_addr_self_hi = 0,
        v1_code_load_lo = 0, v1_addr_self_lo = 0, v1_code_jump = \<lambda>_. 0, v1_addr_entry = 0, v1_toc_entry = 0\<rparr>,
      m_ppc64_v2 = zero_callback_ppc \<lparr>v2_addr_self_hist = 0, v2_code_load_hist = 0, v2_addr_self_hier = 0,
        v2_code_load_hier = 0, v2_code_rot = 0, v2_addr_self_hi = 0, v2_code_load_hi = 0, v2_addr_self_lo = 0,
        v2_code_load_lo = 0, v2_code_jump = \<lambda>_. 0, v2_addr_entry = 0\<rparr>,
      m_sparc64 = zero_callback \<lparr>sparc_code = \<lambda>_. 0\<rparr>\<rparr>"

lemmas one_page_run = new_callback_def dcAllocWX_mmap_def dcInitExecWX_mmap_def one_page_def empty_wx_def

lemma callbacks32_enter_witness:
  "entry32 (MIPS BE) (wx_mem (snd (the (dcbNewCallback2_32 (MIPS BE) (\<lambda>_. 0) (Wx_mmap True True) one_page zero_memory32
     65536 ''i)v'' 128 256 0 empty_wx)))) 4096 65536 128 256"
  by (rule callbacks32_enter [where vt = "\<lambda>_. 0" and impl = "Wx_mmap True True" and os = one_page and m = zero_memory32
        and sg = "''i)v''" and ags = 0 and st = empty_wx])
    (simp add: dcbNewCallback2_mips_def one_page_run)

lemma callbacks64_enter_witness:
  "entry64 PPC64_ELF_V1 (wx_mem empty_wx) (wx_mem (snd (the (dcbNewCallback2_64 PPC64_ELF_V1 (Wx_mmap True True) one_page zero_memory64
     65536 ''i)v'' 128 256 0 [] empty_wx)))) 4096 65536 128 256"
  by (rule callbacks64_enter [where impl = "Wx_mmap True True" and os = one_page and m = zero_memory64
        and sg = "''i)v''" and ags = 0 and ds = "[]"])
    (simp_all add: dcbNewCallback2_ppc64_v1_def one_page_run)

lemma callback_memory_life_witness:
  "\<exists>st' :: u64 wx. new_callback (Wx_mmap False True) LE one_page 2 (\<lambda>p. Some [0xc3, 0x90]) empty_wx = Some (Some 4100, st') \<and>
     (\<forall>s \<in> set (callback_states (Wx_mmap False True) LE one_page 2 (\<lambda>p. Some [0xc3, 0x90]) (empty_wx :: u64 wx)). write_xor_exec s) \<and>
     [0xc3, 0x90] = heap_read (wx_mem st') 4100 2 \<and>
     wx_maps st' = [4096 \<mapsto> (6, ReadExec)] \<and>
     (\<exists>st''. dcbFreeCallback (Wx_mmap False True) LE 2 4100 st' = Some st'' \<and> wx_maps st'' = Map.empty \<and> wx_fds st'' = {})"
proof -
  obtain st' :: "u64 wx" where n: "new_callback (Wx_mmap False True) LE one_page 2 (\<lambda>p. Some [0xc3, 0x90]) empty_wx = Some (Some 4100, st')"
    by (simp add: one_page_run MMAP_PROT_INIT_def)
  have w: "write_xor_exec (empty_wx :: u64 wx)" by (simp add: write_xor_exec_def empty_wx_def)
  have sz: "2 + 4 < (2 :: nat) ^ LENGTH(64)" by simp
  have len: "length bs = 2" if "Some [0xc3, 0x90] = Some bs" for bs :: "byte list" using that by auto
  note c = callback_memory_life [where init = "\<lambda>p. Some [0xc3, 0x90]", OF one_page_fresh w sz len n, unfolded option.case if_False]
  note d = c [THEN conjunct2, THEN conjunct2, THEN conjunct2, THEN conjunct2]
  have states: "\<forall>s \<in> set (callback_states (Wx_mmap False True) LE one_page 2 (\<lambda>p. Some [0xc3, 0x90]) (empty_wx :: u64 wx)). write_xor_exec s"
    by (rule c [THEN conjunct1])
  have "Some [0xc3, 0x90] = Some (heap_read (wx_mem st') 4100 2)" by (rule d [THEN conjunct1])
  then have bytes: "[0xc3, 0x90] = heap_read (wx_mem st') 4100 2" by (simp only: option.inject)
  have "wx_maps st' = (wx_maps empty_wx)(4100 - 4 \<mapsto> (2 + 4, ReadExec))"
    by (rule d [THEN conjunct2, THEN conjunct1])
  then have maps: "wx_maps st' = [4096 \<mapsto> (6, ReadExec)]" by (simp add: empty_wx_def)
  have "\<exists>st''. dcbFreeCallback (Wx_mmap False True) LE 2 4100 st' = Some st'' \<and>
      wx_maps st'' = wx_maps empty_wx \<and> wx_fds st'' = wx_fds (empty_wx :: u64 wx)" by (rule d [THEN conjunct2, THEN conjunct2])
  then have freed: "\<exists>st''. dcbFreeCallback (Wx_mmap False True) LE 2 4100 st' = Some st'' \<and> wx_maps st'' = Map.empty \<and> wx_fds st'' = {}"
    by (simp add: empty_wx_def)
  from n states bytes maps freed show ?thesis by - (rule exI [of _ st'], intro conjI)
qed

end
