(* ===== verification/Vm_Arm64.thy ===== *)
theory Vm_Arm64
  imports Dyn_Transport
begin

unbundle bit_operations_syntax

section \<open>ARM 64: call VM and argument reader\<close>

text \<open>
  \<open>dyncall/dyncall/dyncall_callvm_arm64.{h,c}\<close> (Linux and Windows; the table for variadic functions on
  Windows has the index \<open>vt_arm64_win_varargs\<close> and is selected when \<open>win\<close> holds) with
  \<open>dyncall_call_arm64.S\<close>, and \<open>dyncall/dyncallback/dyncall_args_arm64.c\<close> with the entry in
  \<open>dyncall_callback_arm64.S\<close>. A plain \<open>char\<close> is signed or not by the platform (\<open>char_signed\<close>), a \<open>long\<close>
  has the width \<open>'l\<close>. The float registers are a union of 8 doubles and 16 floats, of which the even ones,
  the low halves, are written.
\<close>

datatype vt_arm64_id = vt_arm64 | vt_arm64_win_varargs

record DCCallVM_arm64 = "vt_arm64_id DCCallVM" +
  a64_i :: nat
  a64_f :: nat
  a64_u :: "nat \<Rightarrow> u64"
  a64_I :: "nat \<Rightarrow> u64"
  a64_vec :: "u64 vec"

record arm64_call =
  ac_target :: u64
  ac_data :: mem
  ac_size :: u64
  ac_regdata_u :: "nat \<Rightarrow> u64"
  ac_regdata_I :: "nat \<Rightarrow> u64"

definition reset_arm64 :: "DCCallVM_arm64 \<Rightarrow> DCCallVM_arm64" where
  "reset_arm64 p = p\<lparr>a64_i := 0, a64_f := 0, a64_vec := dcVecReset (a64_vec p)\<rparr>"

definition deinit_arm64 :: "DCCallVM_arm64 \<Rightarrow> DCCallVM_arm64 handle" where
  "deinit_arm64 p = Freed"

definition a_i64_arm64 :: "DCCallVM_arm64 \<Rightarrow> u64 \<Rightarrow> DCCallVM_arm64" where
  "a_i64_arm64 p x =
     (if a64_i p < 8 then p\<lparr>a64_I := (a64_I p)(a64_i p := x), a64_i := a64_i p + 1\<rparr>
      else p\<lparr>a64_vec := dcVecAppend (a64_vec p) (obj_bytes LE 8 x)\<rparr>)"

definition a_bool_arm64 :: "DCCallVM_arm64 \<Rightarrow> u32 \<Rightarrow> DCCallVM_arm64" where
  "a_bool_arm64 p x = a_i64_arm64 p (scast x)"

definition char_to_i64 :: "bool \<Rightarrow> u8 \<Rightarrow> u64" where
  "char_to_i64 char_signed x = (if char_signed then scast x else ucast x)"

definition a_char_arm64 :: "bool \<Rightarrow> DCCallVM_arm64 \<Rightarrow> u8 \<Rightarrow> DCCallVM_arm64" where
  "a_char_arm64 char_signed p x = a_i64_arm64 p (char_to_i64 char_signed x)"

definition a_short_arm64 :: "DCCallVM_arm64 \<Rightarrow> u16 \<Rightarrow> DCCallVM_arm64" where
  "a_short_arm64 p x = a_i64_arm64 p (scast x)"

definition a_int_arm64 :: "DCCallVM_arm64 \<Rightarrow> u32 \<Rightarrow> DCCallVM_arm64" where
  "a_int_arm64 p x = a_i64_arm64 p (scast x)"

definition a_long_arm64 :: "DCCallVM_arm64 \<Rightarrow> 'l::len word \<Rightarrow> DCCallVM_arm64" where
  "a_long_arm64 p x = a_i64_arm64 p (scast x)"

definition a_pointer_arm64 :: "DCCallVM_arm64 \<Rightarrow> u64 \<Rightarrow> DCCallVM_arm64" where
  "a_pointer_arm64 p x = a_i64_arm64 p x"

text \<open>The store \<open>p->u.S[p->f << 1] = x\<close> replaces the low half of the double.\<close>

definition a_float_arm64 :: "DCCallVM_arm64 \<Rightarrow> u32 \<Rightarrow> DCCallVM_arm64" where
  "a_float_arm64 p x =
     (if a64_f p < 8
      then p\<lparr>a64_u := (a64_u p)(a64_f p := word_cat (ucast (drop_bit 32 (a64_u p (a64_f p))) :: u32) x),
             a64_f := a64_f p + 1\<rparr>
      else p\<lparr>a64_vec := dcVecSkip (dcVecAppend (a64_vec p) (obj_bytes LE 4 x)) 4\<rparr>)"

definition a_double_arm64 :: "DCCallVM_arm64 \<Rightarrow> u64 \<Rightarrow> DCCallVM_arm64" where
  "a_double_arm64 p x =
     (if a64_f p < 8 then p\<lparr>a64_u := (a64_u p)(a64_f p := x), a64_f := a64_f p + 1\<rparr>
      else p\<lparr>a64_vec := dcVecAppend (a64_vec p) (obj_bytes LE 8 x)\<rparr>)"

definition call_arm64 :: "DCCallVM_arm64 \<Rightarrow> u64 \<Rightarrow> DCCallVM_arm64 \<times> arm64_call" where
  "call_arm64 p target =
     (p, \<lparr>ac_target = target, ac_data = mData (a64_vec p), ac_size = (mSize (a64_vec p) + 15) AND (- 16),
          ac_regdata_u = a64_u p, ac_regdata_I = a64_I p\<rparr>)"

definition var_float_arm64 :: "DCCallVM_arm64 \<Rightarrow> u32 \<Rightarrow> DCCallVM_arm64" where
  "var_float_arm64 p x = a_i64_arm64 p (ucast x)"

definition var_double_arm64 :: "DCCallVM_arm64 \<Rightarrow> u64 \<Rightarrow> DCCallVM_arm64" where
  "var_double_arm64 p x = a_i64_arm64 p x"

definition mode_arm64 :: "bool \<Rightarrow> DCCallVM_arm64 \<Rightarrow> u32 \<Rightarrow> DCCallVM_arm64" where
  "mode_arm64 win self md =
     (if md \<in> {DC_CALL_C_ELLIPSIS, DC_CALL_C_ELLIPSIS_VARARGS} then
        dc_callvm_base_init self (if win then vt_arm64_win_varargs else vt_arm64)
      else if md \<in> {DC_CALL_C_DEFAULT, DC_CALL_C_DEFAULT_THIS, DC_CALL_C_ARM64} then
        dc_callvm_base_init self vt_arm64
      else self\<lparr>mError := DC_ERROR_UNSUPPORTED_MODE\<rparr>)"

fun vtab_arm64 :: "bool \<Rightarrow> bool \<Rightarrow> vt_arm64_id \<Rightarrow> (DCCallVM_arm64, 'l::len word, u64, arm64_call) DCCallVM_vt" where
  "vtab_arm64 win cs vt_arm64 =
     \<lparr>vt_free = deinit_arm64, vt_reset = reset_arm64, vt_mode = mode_arm64 win, vt_argBool = a_bool_arm64,
      vt_argChar = a_char_arm64 cs, vt_argShort = a_short_arm64, vt_argInt = a_int_arm64,
      vt_argLong = a_long_arm64, vt_argLongLong = a_i64_arm64, vt_argFloat = a_float_arm64,
      vt_argDouble = a_double_arm64, vt_argPointer = a_pointer_arm64, vt_argAggr = None,
      vt_call = (\<lambda>_. call_arm64), vt_callAggr = None, vt_beginAggr = None\<rparr>"
| "vtab_arm64 win cs vt_arm64_win_varargs =
     \<lparr>vt_free = deinit_arm64, vt_reset = reset_arm64, vt_mode = mode_arm64 win, vt_argBool = a_bool_arm64,
      vt_argChar = a_char_arm64 cs, vt_argShort = a_short_arm64, vt_argInt = a_int_arm64,
      vt_argLong = a_long_arm64, vt_argLongLong = a_i64_arm64, vt_argFloat = var_float_arm64,
      vt_argDouble = var_double_arm64, vt_argPointer = a_pointer_arm64, vt_argAggr = None,
      vt_call = (\<lambda>_. call_arm64), vt_callAggr = None, vt_beginAggr = None\<rparr>"

definition dcNewCallVM_arm64 :: "bool \<Rightarrow> DCCallVM_arm64 \<Rightarrow> u64 \<Rightarrow> DCCallVM_arm64" where
  "dcNewCallVM_arm64 win p sz =
     (let p = mode_arm64 win p DC_CALL_C_DEFAULT
      in reset_arm64 (p\<lparr>a64_vec := dcVecInit (a64_vec p) sz\<rparr>))"

subsection \<open>The reader\<close>

record DCArgs_arm64 =
  r64_I :: "nat \<Rightarrow> u64"
  r64_F :: "nat \<Rightarrow> u64"
  r64_sp :: nat
  r64_stack :: mem
  r64_i :: nat
  r64_f :: nat

definition dcbArgLongLong_arm64 :: "DCArgs_arm64 \<Rightarrow> u64 \<times> DCArgs_arm64" where
  "dcbArgLongLong_arm64 p =
     (if r64_i p < 8 then (r64_I p (r64_i p), p\<lparr>r64_i := r64_i p + 1\<rparr>)
      else (obj_word LE (read_at (r64_stack p) (r64_sp p) 8), p\<lparr>r64_sp := r64_sp p + 8\<rparr>))"

definition dcbArgDouble_arm64 :: "DCArgs_arm64 \<Rightarrow> u64 \<times> DCArgs_arm64" where
  "dcbArgDouble_arm64 p =
     (if r64_f p < 8 then (r64_F p (r64_f p), p\<lparr>r64_f := r64_f p + 1\<rparr>)
      else (obj_word LE (read_at (r64_stack p) (r64_sp p) 8), p\<lparr>r64_sp := r64_sp p + 8\<rparr>))"

definition dcbArgFloat_arm64 :: "DCArgs_arm64 \<Rightarrow> u32 \<times> DCArgs_arm64" where
  "dcbArgFloat_arm64 p =
     (if r64_f p < 8 then (ucast (r64_F p (r64_f p)), p\<lparr>r64_f := r64_f p + 1\<rparr>)
      else (obj_word LE (read_at (r64_stack p) (r64_sp p) 4), p\<lparr>r64_sp := r64_sp p + 8\<rparr>))"

text \<open>The other readers convert a \<open>DClonglong\<close>; \<open>dcbArgBool\<close> takes its lowest bit.\<close>

fun dcbArg_arm64 :: "DCArgs_arm64 \<Rightarrow> dcty \<Rightarrow> ('l::len word, u64) dcarg \<times> DCArgs_arm64" where
  "dcbArg_arm64 p TBool = map_prod (\<lambda>x. ABool (ucast (x AND 1))) id (dcbArgLongLong_arm64 p)"
| "dcbArg_arm64 p TChar = map_prod (\<lambda>x. AChar (ucast x)) id (dcbArgLongLong_arm64 p)"
| "dcbArg_arm64 p TShort = map_prod (\<lambda>x. AShort (ucast x)) id (dcbArgLongLong_arm64 p)"
| "dcbArg_arm64 p TInt = map_prod (\<lambda>x. AInt (ucast x)) id (dcbArgLongLong_arm64 p)"
| "dcbArg_arm64 p TLong = map_prod (\<lambda>x. ALong (ucast x)) id (dcbArgLongLong_arm64 p)"
| "dcbArg_arm64 p TLongLong = map_prod ALongLong id (dcbArgLongLong_arm64 p)"
| "dcbArg_arm64 p TFloat = map_prod AFloat id (dcbArgFloat_arm64 p)"
| "dcbArg_arm64 p TDouble = map_prod ADouble id (dcbArgDouble_arm64 p)"
| "dcbArg_arm64 p TPointer = map_prod APointer id (dcbArgLongLong_arm64 p)"

text \<open>\<open>dcCall_arm64\<close> copies \<open>size\<close> bytes to the stack and loads the registers; the callback entry spills
  them and clears the counters.\<close>

definition entry_arm64 :: "mem \<Rightarrow> arm64_call \<Rightarrow> DCArgs_arm64" where
  "entry_arm64 caller c =
     \<lparr>r64_I = ac_regdata_I c, r64_F = ac_regdata_u c, r64_sp = 0,
      r64_stack = stack_copy caller (unat (ac_size c)) (ac_data c), r64_i = 0, r64_f = 0\<rparr>"


subsection \<open>The round trip\<close>

definition arm64_inv :: "DCCallVM_arm64 \<Rightarrow> bool" where
  "arm64_inv s \<longleftrightarrow> a64_i s \<le> 8 \<and> a64_f s \<le> 8 \<and> vec_ok (a64_vec s) \<and>
     unat (mTotal (a64_vec s)) < 2 ^ 63 \<and> mVTpointer s = vt_arm64"

definition arm64_fits :: "DCCallVM_arm64 \<Rightarrow> ('l::len word, u64) dcarg \<Rightarrow> bool" where
  "arm64_fits s a \<longleftrightarrow> LENGTH('l) \<le> 64 \<and>
     ((if is_fp a then a64_f s else a64_i s) < 8 \<or> vec_fits (a64_vec s) 8)"

definition arm64_keeps :: "DCCallVM_arm64 \<Rightarrow> DCCallVM_arm64 \<Rightarrow> bool" where
  "arm64_keeps s t \<longleftrightarrow> a64_i s \<le> a64_i t \<and> a64_f s \<le> a64_f t \<and>
     (\<forall>j < a64_i s. a64_I t j = a64_I s j) \<and> (\<forall>j < a64_f s. a64_u t j = a64_u s j) \<and>
     vec_keeps (a64_vec s) (a64_vec t) \<and> vec_ok (a64_vec t)"

definition arm64_view :: "mem \<Rightarrow> u64 \<Rightarrow> DCCallVM_arm64 \<Rightarrow> DCCallVM_arm64 \<Rightarrow> DCArgs_arm64" where
  "arm64_view caller target F s =
     (entry_arm64 caller (snd (call_arm64 F target)))
     \<lparr>r64_sp := unat (mSize (a64_vec s)), r64_i := a64_i s, r64_f := a64_f s\<rparr>"

text \<open>The reader keeps only the lowest bit of a \<open>DCbool\<close>.\<close>

fun arm64_val :: "('l, 'p) dcarg \<Rightarrow> ('l, 'p) dcarg" where
  "arm64_val (ABool b) = ABool (b AND 1)"
| "arm64_val a = a"

lemma arm64_stack_word:
  assumes "arm64_inv s" and "vec_fits (a64_vec s) n"
    and "vec_keeps (dcVecAppend (a64_vec s) (obj_bytes LE n x)) (a64_vec F)" and "vec_ok (a64_vec F)"
    and "LENGTH('a) \<le> 8 * n"
  shows "obj_word LE (read_at (stack_copy caller (unat ((mSize (a64_vec F) + 15) AND (- 16))) (mData (a64_vec F)))
           (unat (mSize (a64_vec s))) n) = (x :: 'a::len word)"
proof (rule stack_copy_word [OF assms(2,3) vec_size_pad16 [OF assms(4)] assms(5)])
  show "unat (mTotal (a64_vec F)) < 2 ^ 63"
    using assms(1,3) by (simp add: arm64_inv_def vec_keeps_def)
qed

lemma arm64_pop_int:
  assumes "arm64_inv s" and "a64_i s < 8 \<or> vec_fits (a64_vec s) 8" and "arm64_keeps (a_i64_arm64 s x) F"
  shows "dcbArgLongLong_arm64 (arm64_view caller target F s)
       = (x, arm64_view caller target F (a_i64_arm64 s x))"
proof (cases "a64_i s < 8")
  case True
  with assms(3) show ?thesis
    by (simp add: arm64_keeps_def a_i64_arm64_def dcbArgLongLong_arm64_def arm64_view_def entry_arm64_def
        call_arm64_def)
next
  case False
  with assms arm64_stack_word [OF assms(1), of 8 x F caller] show ?thesis
    by (simp add: arm64_keeps_def a_i64_arm64_def dcbArgLongLong_arm64_def arm64_view_def entry_arm64_def
        call_arm64_def vec_append_used)
qed

lemma arm64_pop_double:
  assumes "arm64_inv s" and "a64_f s < 8 \<or> vec_fits (a64_vec s) 8" and "arm64_keeps (a_double_arm64 s x) F"
  shows "dcbArgDouble_arm64 (arm64_view caller target F s)
       = (x, arm64_view caller target F (a_double_arm64 s x))"
proof (cases "a64_f s < 8")
  case True
  with assms(3) show ?thesis
    by (simp add: arm64_keeps_def a_double_arm64_def dcbArgDouble_arm64_def arm64_view_def entry_arm64_def
        call_arm64_def)
next
  case False
  with assms arm64_stack_word [OF assms(1), of 8 x F caller] show ?thesis
    by (simp add: arm64_keeps_def a_double_arm64_def dcbArgDouble_arm64_def arm64_view_def entry_arm64_def
        call_arm64_def vec_append_used)
qed

lemma arm64_float_skip:
  assumes "vec_fits (v :: u64 vec) 8"
  shows "unat (mSize (dcVecSkip (dcVecAppend v (obj_bytes LE 4 x)) 4)) = unat (mSize v) + 8"
    and "vec_ok (dcVecSkip (dcVecAppend v (obj_bytes LE 4 x)) 4)"
    and "vec_keeps v (dcVecSkip (dcVecAppend v (obj_bytes LE 4 x)) 4)"
    and "vec_keeps (dcVecAppend v (obj_bytes LE 4 x)) (dcVecSkip (dcVecAppend v (obj_bytes LE 4 (x :: u32))) 4)"
  using append_skip [OF assms, of "obj_bytes LE 4 x" "4 :: u64"] by simp_all

lemma arm64_pop_float:
  assumes "arm64_inv s" and "a64_f s < 8 \<or> vec_fits (a64_vec s) 8" and "arm64_keeps (a_float_arm64 s x) F"
  shows "dcbArgFloat_arm64 (arm64_view caller target F s)
       = (x, arm64_view caller target F (a_float_arm64 s x))"
proof (cases "a64_f s < 8")
  case True
  with assms(3) show ?thesis
    by (simp add: arm64_keeps_def a_float_arm64_def dcbArgFloat_arm64_def arm64_view_def entry_arm64_def
        call_arm64_def ucast_word_cat_low)
next
  case False
  with assms(2) have f: "vec_fits (a64_vec s) 8" "vec_fits (a64_vec s) 4" by (auto intro: vec_fits_mono)
  from False assms(3) have "vec_keeps (dcVecAppend (a64_vec s) (obj_bytes LE 4 x)) (a64_vec F)" "vec_ok (a64_vec F)"
    by (auto simp: arm64_keeps_def a_float_arm64_def intro: vec_keeps_trans [OF arm64_float_skip(4) [OF f(1)]])
  from arm64_stack_word [OF assms(1) f(2) this, of caller] False arm64_float_skip(1) [OF f(1), of x]
  show ?thesis
    by (simp add: a_float_arm64_def dcbArgFloat_arm64_def arm64_view_def entry_arm64_def call_arm64_def)
qed

lemmas arm64_arg_defs = a_bool_arm64_def a_char_arm64_def a_short_arm64_def a_int_arm64_def
  a_long_arm64_def a_pointer_arm64_def

lemma arm64_push_inv:
  assumes "arm64_inv s"
  shows "arm64_inv (a_i64_arm64 s x)" and "arm64_inv (a_double_arm64 s x)"
    and "a64_f s < 8 \<or> vec_fits (a64_vec s) 8 \<Longrightarrow> arm64_inv (a_float_arm64 s y)"
  using assms
  by (auto simp: arm64_inv_def a_i64_arm64_def a_double_arm64_def a_float_arm64_def vec_ok_append
      arm64_float_skip)

lemma arm64_push_keeps:
  assumes "arm64_inv s"
  shows "a64_i s < 8 \<or> vec_fits (a64_vec s) 8 \<Longrightarrow> arm64_keeps s (a_i64_arm64 s x)"
    and "a64_f s < 8 \<or> vec_fits (a64_vec s) 8 \<Longrightarrow> arm64_keeps s (a_double_arm64 s x)"
    and "a64_f s < 8 \<or> vec_fits (a64_vec s) 8 \<Longrightarrow> arm64_keeps s (a_float_arm64 s y)"
  using assms
  by (auto simp: arm64_inv_def arm64_keeps_def a_i64_arm64_def a_double_arm64_def a_float_arm64_def
      vec_ok_append vec_keeps_append arm64_float_skip)

lemma char_to_i64_trunc [simp]: "ucast (char_to_i64 cs x) = x"
  by (simp add: char_to_i64_def ucast_scast_trunc ucast_ucast_trunc)

lemma bool_low_bit: "ucast ((scast (b :: u32) :: u64) AND 1) = b AND 1"
  by (rule bit_word_eqI) (auto simp: bit_simps)

interpretation arm64: arg_transport
  "dcArg (vtab_arm64 win cs) :: DCCallVM_arm64 \<Rightarrow> ('l::len word, u64) dcarg \<Rightarrow> DCCallVM_arm64"
  arm64_fits arm64_inv arm64_keeps "arm64_view caller target" dcbArg_arm64 arg_ty arm64_val
  for win cs caller target
proof unfold_locales
  fix s and a :: "('l word, u64) dcarg" and F
  assume inv: "arm64_inv s" and fit: "arm64_fits s a"
  then have vt: "mVTpointer s = vt_arm64" by (simp add: arm64_inv_def)
  show "arm64_inv (dcArg (vtab_arm64 win cs) s a)"
    using inv fit vt by (cases a) (auto simp: arm64_arg_defs arm64_push_inv arm64_fits_def)
  show "arm64_keeps s (dcArg (vtab_arm64 win cs) s a)"
    using inv fit vt by (cases a) (auto simp: arm64_arg_defs arm64_push_keeps arm64_fits_def)
  assume k: "arm64_keeps (dcArg (vtab_arm64 win cs) s a) F"
  show "dcbArg_arm64 (arm64_view caller target F s) (arg_ty a)
      = (arm64_val a, arm64_view caller target F (dcArg (vtab_arm64 win cs) s a))"
    using inv fit vt k
    by (cases a)
      (simp_all add: arm64_arg_defs arm64_fits_def arm64_pop_int arm64_pop_double arm64_pop_float
        ucast_scast_trunc bool_low_bit)
qed (auto simp: arm64_keeps_def arm64_inv_def intro: vec_keeps_trans)


definition arm64_used :: "DCCallVM_arm64 \<Rightarrow> nat" where
  "arm64_used s = unat (mSize (a64_vec s))"

definition arm64_cap :: "DCCallVM_arm64 \<Rightarrow> nat" where
  "arm64_cap s = (if mVTpointer s = vt_arm64 then unat (mTotal (a64_vec s)) else 0)"

text \<open>On a platform whose \<open>long\<close> is wider than a register nothing fits; there is none.\<close>

definition arm64_cost :: "('l::len word, u64) dcarg \<Rightarrow> nat" where
  "arm64_cost a = (if LENGTH('l) \<le> 64 then 8 else 2 ^ 64)"

lemma mVTpointer_arm64 [simp]:
  "mVTpointer (a_i64_arm64 s x) = mVTpointer s" "mVTpointer (a_double_arm64 s x) = mVTpointer s"
  "mVTpointer (a_float_arm64 s y) = mVTpointer s"
  "mTotal (a64_vec (a_i64_arm64 s x)) = mTotal (a64_vec s)"
  "mTotal (a64_vec (a_double_arm64 s x)) = mTotal (a64_vec s)"
  "mTotal (a64_vec (a_float_arm64 s y)) = mTotal (a64_vec s)"
  by (simp_all add: a_i64_arm64_def a_double_arm64_def a_float_arm64_def)

lemma arm64_used_push:
  "a64_i s < 8 \<or> vec_fits (a64_vec s) 8 \<Longrightarrow> arm64_used (a_i64_arm64 s x) \<le> arm64_used s + 8"
  "a64_f s < 8 \<or> vec_fits (a64_vec s) 8 \<Longrightarrow> arm64_used (a_double_arm64 s x) \<le> arm64_used s + 8"
  "a64_f s < 8 \<or> vec_fits (a64_vec s) 8 \<Longrightarrow> arm64_used (a_float_arm64 s y) \<le> arm64_used s + 8"
  by (auto simp: arm64_used_def a_i64_arm64_def a_double_arm64_def a_float_arm64_def vec_append_used
      arm64_float_skip)

interpretation arm64c: arg_transport_cap
  "dcArg (vtab_arm64 win cs) :: DCCallVM_arm64 \<Rightarrow> ('l::len word, u64) dcarg \<Rightarrow> DCCallVM_arm64"
  arm64_fits arm64_inv arm64_keeps "arm64_view caller target" dcbArg_arm64 arg_ty arm64_val
  arm64_used arm64_cap arm64_cost
  for win cs caller target
proof unfold_locales
  fix s and a :: "('l word, u64) dcarg"
  assume inv: "arm64_inv s"
  then have vt: "mVTpointer s = vt_arm64" by (simp add: arm64_inv_def)
  have "unat (mTotal (a64_vec s)) < 2 ^ 64" using inv by (simp add: arm64_inv_def)
  then show "arm64_used s + arm64_cost a \<le> arm64_cap s \<Longrightarrow> arm64_fits s a"
    using vt by (auto simp: arm64_fits_def arm64_cost_def arm64_cap_def arm64_used_def vec_fits_def split: if_splits)
  assume "arm64_fits s a"
  with vt show "arm64_used (dcArg (vtab_arm64 win cs) s a) \<le> arm64_used s + arm64_cost a"
    by (cases a) (simp_all add: arm64_arg_defs arm64_fits_def arm64_cost_def arm64_used_push)
next
  fix s and a :: "('l word, u64) dcarg"
  show "arm64_cap (dcArg (vtab_arm64 win cs) s a) = arm64_cap s"
    by (cases a; cases "mVTpointer s")
      (simp_all add: arm64_arg_defs arm64_cap_def var_float_arm64_def var_double_arm64_def)
qed

lemma reset_arm64_any: "dcReset (vtab_arm64 win cs) vm = reset_arm64 vm"
  by (cases "mVTpointer vm") (simp_all add: dcReset_def)

text \<open>C19: On ARM 64 every list of scalar arguments that a program passes after \<open>dcReset\<close> is what the
  handler of a callback reads, if the vector holds eight bytes for each; of a \<open>DCbool\<close> the
  lowest bit arrives.\<close>

theorem arm64_arguments_arrive:
  fixes xs :: "('l::len word, u64) dcarg list"
  assumes "unat (mTotal (a64_vec vm)) < 2 ^ 63" and "8 * length xs \<le> unat (mTotal (a64_vec vm))"
    and "mVTpointer vm = vt_arm64" and "LENGTH('l) \<le> 64"
  shows "fst (pop_all dcbArg_arm64
            (entry_arm64 caller (snd (dcCall (vtab_arm64 win cs) c
               (dcArgs (vtab_arm64 win cs) (dcReset (vtab_arm64 win cs) vm) xs) target)))
            (map arg_ty xs)) = map arm64_val xs"
proof -
  let ?V = "vtab_arm64 win cs :: vt_arm64_id \<Rightarrow> (DCCallVM_arm64, 'l word, u64, arm64_call) DCCallVM_vt"
  let ?s = "reset_arm64 vm"
  have inv: "arm64_inv ?s" using assms(1,3) by (simp add: arm64_inv_def reset_arm64_def dcVecReset_def vec_ok_def)
  have "sum_list (map arm64_cost xs) = 8 * length xs"
    using assms(4) by (induction xs) (simp_all add: arm64_cost_def)
  then have cap: "arm64_used ?s + sum_list (map arm64_cost xs) \<le> arm64_cap ?s"
    using assms(2,3) by (simp add: arm64_used_def arm64_cap_def reset_arm64_def dcVecReset_def)
  have "mVTpointer (dcArgs ?V ?s xs) = vt_arm64"
    using arm64c.inv_push_all_cap [OF inv cap, of win cs] by (simp add: arm64_inv_def push_all_dcArgs)
  moreover have "entry_arm64 caller (snd (call_arm64 (dcArgs ?V ?s xs) target))
      = arm64_view caller target (push_all (dcArg ?V) ?s xs) ?s"
    by (simp add: arm64_view_def push_all_dcArgs entry_arm64_def reset_arm64_def dcVecReset_def)
  ultimately show ?thesis
    using arm64c.call_round_trip [OF inv cap] by (simp add: dcCall_def reset_arm64_any)
qed

definition arm64_blank :: "u64 \<Rightarrow> DCCallVM_arm64" where
  "arm64_blank cap =
     \<lparr>mVTpointer = vt_arm64, mError = 0, a64_i = 0, a64_f = 0, a64_u = (\<lambda>_. 0), a64_I = (\<lambda>_. 0),
      a64_vec = \<lparr>mTotal = cap, mSize = 0, mData = (\<lambda>_. 0)\<rparr>\<rparr>"

lemma arm64_arguments_arrive_witness:
  "fst (pop_all dcbArg_arm64
      (entry_arm64 (\<lambda>_. 0) (snd (dcCall (vtab_arm64 False True) callVoid
         (dcArgs (vtab_arm64 False True) (dcReset (vtab_arm64 False True) (arm64_blank 64))
            [AInt 7, AFloat 9, ALong (5 :: u64), ABool 2]) 4096)))
      [TInt, TFloat, TLong, TBool]) = [AInt 7, AFloat 9, ALong (5 :: u64), ABool 0]"
  using arm64_arguments_arrive [of "arm64_blank 64" "[AInt 7, AFloat 9, ALong (5 :: u64), ABool 2]" "\<lambda>_. 0" False True callVoid 4096]
  by (simp add: arm64_blank_def)

end
