(* ===== verification/Vm_Arm64Apple.thy ===== *)
theory Vm_Arm64Apple
  imports Dyn_Transport Affix_Float
begin

unbundle bit_operations_syntax

section \<open>ARM 64 on Apple platforms: call VM and argument reader\<close>

text \<open>
  \<open>dyncall/dyncall/dyncall_callvm_arm64_apple.c\<close>, whose VM has the structure of \<open>dyncall_callvm_arm64.h\<close>, with
  \<open>dyncall_call_arm64.S\<close>, and \<open>dyncall/dyncallback/dyncall_args_arm64_apple.c\<close> with the entry \<open>dyncall_callback_arm64.S\<close>. An
  argument on the stack takes its own size and alignment; the variable arguments of a variadic function are always on
  the stack, in eight bytes each. \<open>cs\<close> says whether a plain \<open>char\<close> is signed.
\<close>

datatype vt_arm64a_id = vt_arm64_apple | vt_arm64_variadic

record DCCallVM_arm64a = "vt_arm64a_id DCCallVM" +
  aa_i :: nat
  aa_f :: nat
  aa_u :: "nat \<Rightarrow> u64"
  aa_I :: "nat \<Rightarrow> u64"
  aa_vec :: "u64 vec"

record arm64a_call =
  aac_target :: u64
  aac_data :: mem
  aac_size :: u64
  aac_u :: "nat \<Rightarrow> u64"
  aac_I :: "nat \<Rightarrow> u64"

definition reset_apple :: "DCCallVM_arm64a \<Rightarrow> DCCallVM_arm64a" where
  "reset_apple p = p\<lparr>aa_i := 0, aa_f := 0, aa_vec := dcVecReset (aa_vec p)\<rparr>"

definition deinit_apple :: "DCCallVM_arm64a \<Rightarrow> DCCallVM_arm64a handle" where
  "deinit_apple p = Freed"

definition apple_reg :: "DCCallVM_arm64a \<Rightarrow> u64 \<Rightarrow> DCCallVM_arm64a" where
  "apple_reg p x = p\<lparr>aa_I := (aa_I p)(aa_i p := x), aa_i := aa_i p + 1\<rparr>"

definition a_i64_apple :: "DCCallVM_arm64a \<Rightarrow> u64 \<Rightarrow> DCCallVM_arm64a" where
  "a_i64_apple p x =
     (if aa_i p < 8 then apple_reg p x
      else p\<lparr>aa_vec := dcVecAppend (dcVecAlign (aa_vec p) 8) (obj_bytes LE 8 x)\<rparr>)"

definition var_i64_apple :: "DCCallVM_arm64a \<Rightarrow> u64 \<Rightarrow> DCCallVM_arm64a" where
  "var_i64_apple p x = p\<lparr>aa_vec := dcVecAppend (dcVecAlign (aa_vec p) 8) (obj_bytes LE 8 x)\<rparr>"

definition var_bool_apple :: "DCCallVM_arm64a \<Rightarrow> u32 \<Rightarrow> DCCallVM_arm64a" where
  "var_bool_apple p x = var_i64_apple p (scast x)"

definition var_char_apple :: "bool \<Rightarrow> DCCallVM_arm64a \<Rightarrow> u8 \<Rightarrow> DCCallVM_arm64a" where
  "var_char_apple cs p x = var_i64_apple p (if cs then scast x else ucast x)"

definition var_short_apple :: "DCCallVM_arm64a \<Rightarrow> u16 \<Rightarrow> DCCallVM_arm64a" where
  "var_short_apple p x = var_i64_apple p (scast x)"

definition var_int_apple :: "DCCallVM_arm64a \<Rightarrow> u32 \<Rightarrow> DCCallVM_arm64a" where
  "var_int_apple p x = var_i64_apple p (scast x)"

definition var_long_apple :: "DCCallVM_arm64a \<Rightarrow> u64 \<Rightarrow> DCCallVM_arm64a" where
  "var_long_apple p x = var_i64_apple p x"

definition var_double_apple :: "DCCallVM_arm64a \<Rightarrow> u64 \<Rightarrow> DCCallVM_arm64a" where
  "var_double_apple p x = p\<lparr>aa_vec := dcVecAppend (dcVecAlign (aa_vec p) 8) (obj_bytes LE 8 x)\<rparr>"

definition var_float_apple :: "DCCallVM_arm64a \<Rightarrow> u32 \<Rightarrow> DCCallVM_arm64a" where
  "var_float_apple p x = var_double_apple p (double_of_float x)"

definition var_pointer_apple :: "DCCallVM_arm64a \<Rightarrow> u64 \<Rightarrow> DCCallVM_arm64a" where
  "var_pointer_apple p x = var_i64_apple p x"

definition a_bool_apple :: "DCCallVM_arm64a \<Rightarrow> u32 \<Rightarrow> DCCallVM_arm64a" where
  "a_bool_apple p x =
     (if aa_i p < 8 then apple_reg p (scast x)
      else p\<lparr>aa_vec := dcVecAppend (dcVecAlign (aa_vec p) 4) (obj_bytes LE 4 x)\<rparr>)"

definition a_char_apple :: "bool \<Rightarrow> DCCallVM_arm64a \<Rightarrow> u8 \<Rightarrow> DCCallVM_arm64a" where
  "a_char_apple cs p x =
     (if aa_i p < 8 then apple_reg p (if cs then scast x else ucast x)
      else p\<lparr>aa_vec := dcVecAppend (aa_vec p) (obj_bytes LE 1 x)\<rparr>)"

definition a_short_apple :: "DCCallVM_arm64a \<Rightarrow> u16 \<Rightarrow> DCCallVM_arm64a" where
  "a_short_apple p x =
     (if aa_i p < 8 then apple_reg p (scast x)
      else p\<lparr>aa_vec := dcVecAppend (dcVecAlign (aa_vec p) 2) (obj_bytes LE 2 x)\<rparr>)"

definition a_int_apple :: "DCCallVM_arm64a \<Rightarrow> u32 \<Rightarrow> DCCallVM_arm64a" where
  "a_int_apple p x =
     (if aa_i p < 8 then apple_reg p (scast x)
      else p\<lparr>aa_vec := dcVecAppend (dcVecAlign (aa_vec p) 4) (obj_bytes LE 4 x)\<rparr>)"

definition a_long_apple :: "DCCallVM_arm64a \<Rightarrow> u64 \<Rightarrow> DCCallVM_arm64a" where
  "a_long_apple p x =
     (if aa_i p < 8 then apple_reg p x
      else p\<lparr>aa_vec := dcVecAppend (dcVecAlign (aa_vec p) 8) (obj_bytes LE 8 x)\<rparr>)"

definition a_pointer_apple :: "DCCallVM_arm64a \<Rightarrow> u64 \<Rightarrow> DCCallVM_arm64a" where
  "a_pointer_apple p x = a_i64_apple p x"

text \<open>The store \<open>p->u.S[p->f << 1] = x\<close> replaces the low half of the double.\<close>

definition a_float_apple :: "DCCallVM_arm64a \<Rightarrow> u32 \<Rightarrow> DCCallVM_arm64a" where
  "a_float_apple p x =
     (if aa_f p < 8 then p\<lparr>aa_u := (aa_u p)(aa_f p := join_words (hi_word (aa_u p (aa_f p))) x), aa_f := aa_f p + 1\<rparr>
      else p\<lparr>aa_vec := dcVecAppend (dcVecAlign (aa_vec p) 4) (obj_bytes LE 4 x)\<rparr>)"

definition a_double_apple :: "DCCallVM_arm64a \<Rightarrow> u64 \<Rightarrow> DCCallVM_arm64a" where
  "a_double_apple p x =
     (if aa_f p < 8 then p\<lparr>aa_u := (aa_u p)(aa_f p := x), aa_f := aa_f p + 1\<rparr>
      else p\<lparr>aa_vec := dcVecAppend (dcVecAlign (aa_vec p) 8) (obj_bytes LE 8 x)\<rparr>)"

definition call_apple :: "DCCallVM_arm64a \<Rightarrow> u64 \<Rightarrow> DCCallVM_arm64a \<times> arm64a_call" where
  "call_apple p target =
     (p, \<lparr>aac_target = target, aac_data = mData (aa_vec p), aac_size = (mSize (aa_vec p) + 15) AND (- 16),
          aac_u = aa_u p, aac_I = aa_I p\<rparr>)"

definition mode_apple :: "DCCallVM_arm64a \<Rightarrow> u32 \<Rightarrow> DCCallVM_arm64a" where
  "mode_apple self md =
     (if md \<in> {DC_CALL_C_DEFAULT, DC_CALL_C_DEFAULT_THIS, DC_CALL_C_ARM64, DC_CALL_C_ELLIPSIS}
      then dc_callvm_base_init self vt_arm64_apple
      else if md = DC_CALL_C_ELLIPSIS_VARARGS then dc_callvm_base_init self vt_arm64_variadic
      else self\<lparr>mError := DC_ERROR_UNSUPPORTED_MODE\<rparr>)"

definition vtab_a_apple :: "bool \<Rightarrow> (DCCallVM_arm64a, u64, u64, arm64a_call) DCCallVM_vt" where
  "vtab_a_apple cs =
     \<lparr>vt_free = deinit_apple, vt_reset = reset_apple, vt_mode = mode_apple, vt_argBool = a_bool_apple,
      vt_argChar = a_char_apple cs, vt_argShort = a_short_apple, vt_argInt = a_int_apple, vt_argLong = a_long_apple,
      vt_argLongLong = a_i64_apple, vt_argFloat = a_float_apple, vt_argDouble = a_double_apple,
      vt_argPointer = a_pointer_apple, vt_argAggr = None,
      vt_call = (\<lambda>_. call_apple), vt_callAggr = None, vt_beginAggr = None\<rparr>"

definition vtab_var_apple :: "bool \<Rightarrow> (DCCallVM_arm64a, u64, u64, arm64a_call) DCCallVM_vt" where
  "vtab_var_apple cs =
     \<lparr>vt_free = deinit_apple, vt_reset = reset_apple, vt_mode = mode_apple, vt_argBool = var_bool_apple,
      vt_argChar = var_char_apple cs, vt_argShort = var_short_apple, vt_argInt = var_int_apple, vt_argLong = var_long_apple,
      vt_argLongLong = var_i64_apple, vt_argFloat = var_float_apple, vt_argDouble = var_double_apple,
      vt_argPointer = var_pointer_apple, vt_argAggr = None,
      vt_call = (\<lambda>_. call_apple), vt_callAggr = None, vt_beginAggr = None\<rparr>"

fun vtab_arm64a :: "bool \<Rightarrow> vt_arm64a_id \<Rightarrow> (DCCallVM_arm64a, u64, u64, arm64a_call) DCCallVM_vt" where
  "vtab_arm64a cs vt_arm64_apple = vtab_a_apple cs"
| "vtab_arm64a cs vt_arm64_variadic = vtab_var_apple cs"

definition dcNewCallVM_apple :: "DCCallVM_arm64a \<Rightarrow> u64 \<Rightarrow> DCCallVM_arm64a" where
  "dcNewCallVM_apple p sz =
     (let p = mode_apple p DC_CALL_C_DEFAULT in reset_apple (p\<lparr>aa_vec := dcVecInit (aa_vec p) sz\<rparr>))"

subsection \<open>The reader\<close>

text \<open>\<open>raa_sp\<close> is the offset from the start of the stack arguments, which is aligned to 16 bytes.\<close>

record DCArgs_arm64a =
  raa_I :: "nat \<Rightarrow> u64"
  raa_F :: "nat \<Rightarrow> u64"
  raa_sp :: nat
  raa_i :: nat
  raa_f :: nat
  raa_stack :: mem

definition apple_align :: "DCArgs_arm64a \<Rightarrow> nat \<Rightarrow> DCArgs_arm64a" where
  "apple_align p v = p\<lparr>raa_sp := (raa_sp p + v - 1) div v * v\<rparr>"

definition dcbArgLongLong_apple :: "DCArgs_arm64a \<Rightarrow> u64 \<times> DCArgs_arm64a" where
  "dcbArgLongLong_apple p =
     (if raa_i p < 8 then (raa_I p (raa_i p), p\<lparr>raa_i := raa_i p + 1\<rparr>)
      else (let p = apple_align p 8
            in (obj_word LE (read_at (raa_stack p) (raa_sp p) 8), p\<lparr>raa_sp := raa_sp p + 8\<rparr>)))"

definition dcbArgDouble_apple :: "DCArgs_arm64a \<Rightarrow> u64 \<times> DCArgs_arm64a" where
  "dcbArgDouble_apple p =
     (if raa_f p < 8 then (raa_F p (raa_f p), p\<lparr>raa_f := raa_f p + 1\<rparr>)
      else (let p = apple_align p 8
            in (obj_word LE (read_at (raa_stack p) (raa_sp p) 8), p\<lparr>raa_sp := raa_sp p + 8\<rparr>)))"

definition dcbArgFloat_apple :: "DCArgs_arm64a \<Rightarrow> u32 \<times> DCArgs_arm64a" where
  "dcbArgFloat_apple p =
     (if raa_f p < 8 then (lo_word (raa_F p (raa_f p)), p\<lparr>raa_f := raa_f p + 1\<rparr>)
      else (let p = apple_align p 4
            in (obj_word LE (read_at (raa_stack p) (raa_sp p) 4), p\<lparr>raa_sp := raa_sp p + 4\<rparr>)))"

definition dcbArgLong_apple :: "DCArgs_arm64a \<Rightarrow> u64 \<times> DCArgs_arm64a" where
  "dcbArgLong_apple p =
     (if raa_i p < 8 then (raa_I p (raa_i p), p\<lparr>raa_i := raa_i p + 1\<rparr>)
      else (let p = apple_align p 8
            in (obj_word LE (read_at (raa_stack p) (raa_sp p) 8), p\<lparr>raa_sp := raa_sp p + 8\<rparr>)))"

definition dcbArgBool_apple :: "DCArgs_arm64a \<Rightarrow> u32 \<times> DCArgs_arm64a" where
  "dcbArgBool_apple p =
     (if raa_i p < 8 then (ucast (raa_I p (raa_i p)), p\<lparr>raa_i := raa_i p + 1\<rparr>)
      else (let p = apple_align p 4
            in (obj_word LE (read_at (raa_stack p) (raa_sp p) 4), p\<lparr>raa_sp := raa_sp p + 4\<rparr>)))"

definition dcbArgChar_apple :: "DCArgs_arm64a \<Rightarrow> u8 \<times> DCArgs_arm64a" where
  "dcbArgChar_apple p =
     (if raa_i p < 8 then (ucast (raa_I p (raa_i p)), p\<lparr>raa_i := raa_i p + 1\<rparr>)
      else (let p = apple_align p 1
            in (obj_word LE (read_at (raa_stack p) (raa_sp p) 1), p\<lparr>raa_sp := raa_sp p + 1\<rparr>)))"

definition dcbArgShort_apple :: "DCArgs_arm64a \<Rightarrow> u16 \<times> DCArgs_arm64a" where
  "dcbArgShort_apple p =
     (if raa_i p < 8 then (ucast (raa_I p (raa_i p)), p\<lparr>raa_i := raa_i p + 1\<rparr>)
      else (let p = apple_align p 2
            in (obj_word LE (read_at (raa_stack p) (raa_sp p) 2), p\<lparr>raa_sp := raa_sp p + 2\<rparr>)))"

definition dcbArgInt_apple :: "DCArgs_arm64a \<Rightarrow> u32 \<times> DCArgs_arm64a" where
  "dcbArgInt_apple p =
     (if raa_i p < 8 then (ucast (raa_I p (raa_i p)), p\<lparr>raa_i := raa_i p + 1\<rparr>)
      else (let p = apple_align p 4
            in (obj_word LE (read_at (raa_stack p) (raa_sp p) 4), p\<lparr>raa_sp := raa_sp p + 4\<rparr>)))"

definition dcbArgPointer_apple :: "DCArgs_arm64a \<Rightarrow> u64 \<times> DCArgs_arm64a" where
  "dcbArgPointer_apple p = dcbArgLongLong_apple p"

fun dcbArg_apple :: "DCArgs_arm64a \<Rightarrow> dcty \<Rightarrow> (u64, u64) dcarg \<times> DCArgs_arm64a" where
  "dcbArg_apple p TBool = map_prod ABool id (dcbArgBool_apple p)"
| "dcbArg_apple p TChar = map_prod AChar id (dcbArgChar_apple p)"
| "dcbArg_apple p TShort = map_prod AShort id (dcbArgShort_apple p)"
| "dcbArg_apple p TInt = map_prod AInt id (dcbArgInt_apple p)"
| "dcbArg_apple p TLong = map_prod ALong id (dcbArgLong_apple p)"
| "dcbArg_apple p TLongLong = map_prod ALongLong id (dcbArgLongLong_apple p)"
| "dcbArg_apple p TFloat = map_prod AFloat id (dcbArgFloat_apple p)"
| "dcbArg_apple p TDouble = map_prod ADouble id (dcbArgDouble_apple p)"
| "dcbArg_apple p TPointer = map_prod APointer id (dcbArgPointer_apple p)"

text \<open>The kernel copies the data and loads the registers; the entry spills them and clears the counters.\<close>

definition entry_apple :: "mem \<Rightarrow> arm64a_call \<Rightarrow> DCArgs_arm64a" where
  "entry_apple caller c =
     \<lparr>raa_I = aac_I c, raa_F = aac_u c, raa_sp = 0, raa_i = 0, raa_f = 0,
      raa_stack = stack_copy caller (unat (aac_size c)) (aac_data c)\<rparr>"

subsection \<open>The round trip\<close>

fun apple_exp :: "('l, 'p) dcarg \<Rightarrow> nat" where
  "apple_exp (ABool _) = 2"
| "apple_exp (AChar _) = 0"
| "apple_exp (AShort _) = 1"
| "apple_exp (AInt _) = 2"
| "apple_exp (AFloat _) = 2"
| "apple_exp _ = 3"

fun apple_bytes :: "(u64, u64) dcarg \<Rightarrow> byte list" where
  "apple_bytes (ABool x) = obj_bytes LE 4 x"
| "apple_bytes (AChar x) = obj_bytes LE 1 x"
| "apple_bytes (AShort x) = obj_bytes LE 2 x"
| "apple_bytes (AInt x) = obj_bytes LE 4 x"
| "apple_bytes (ALong x) = obj_bytes LE 8 x"
| "apple_bytes (ALongLong x) = obj_bytes LE 8 x"
| "apple_bytes (AFloat x) = obj_bytes LE 4 x"
| "apple_bytes (ADouble x) = obj_bytes LE 8 x"
| "apple_bytes (APointer x) = obj_bytes LE 8 x"

text \<open>What an argument can take on the stack, with the gap in front of it.\<close>

definition apple_cost :: "('l, 'p) dcarg \<Rightarrow> nat" where
  "apple_cost a = 2 * 2 ^ apple_exp a"

definition apple_inv :: "DCCallVM_arm64a \<Rightarrow> bool" where
  "apple_inv s \<longleftrightarrow> mVTpointer s = vt_arm64_apple \<and> aa_i s \<le> 8 \<and> aa_f s \<le> 8 \<and> vec_ok (aa_vec s) \<and>
     unat (mTotal (aa_vec s)) < 2 ^ 63"

definition apple_fits :: "DCCallVM_arm64a \<Rightarrow> (u64, u64) dcarg \<Rightarrow> bool" where
  "apple_fits s a \<longleftrightarrow> vec_fits (aa_vec s) (apple_cost a)"

definition apple_keeps :: "DCCallVM_arm64a \<Rightarrow> DCCallVM_arm64a \<Rightarrow> bool" where
  "apple_keeps s t \<longleftrightarrow> aa_i s \<le> aa_i t \<and> aa_f s \<le> aa_f t \<and>
     (\<forall>j < aa_i s. aa_I t j = aa_I s j) \<and> (\<forall>j < aa_f s. aa_u t j = aa_u s j) \<and>
     vec_keeps (aa_vec s) (aa_vec t) \<and> vec_ok (aa_vec t)"

definition apple_view :: "mem \<Rightarrow> u64 \<Rightarrow> DCCallVM_arm64a \<Rightarrow> DCCallVM_arm64a \<Rightarrow> DCArgs_arm64a" where
  "apple_view caller target F s =
     (entry_apple caller (snd (call_apple F target)))\<lparr>raa_sp := unat (mSize (aa_vec s)), raa_i := aa_i s, raa_f := aa_f s\<rparr>"

text \<open>An aligned place at the end of the vector.\<close>

definition vec_own :: "nat \<Rightarrow> byte list \<Rightarrow> u64 vec \<Rightarrow> u64 vec" where
  "vec_own k bs v = dcVecAppend (dcVecAlign v (2 ^ k)) bs"

lemma vec_own:
  assumes "vec_ok v" and "unat (mTotal v) < 2 ^ 63" and "vec_fits v (2 * 2 ^ k)" and "length bs = 2 ^ k" and "k \<le> 3"
  shows "unat (mSize (vec_own k bs v)) = round_up (2 ^ k) (unat (mSize v)) + 2 ^ k"
    and "unat (mSize (vec_own k bs v)) \<le> unat (mSize v) + 2 * 2 ^ k"
    and "vec_ok (vec_own k bs v)" and "mTotal (vec_own k bs v) = mTotal v" and "vec_keeps v (vec_own k bs v)"
    and "vec_keeps (vec_own k bs v) q \<Longrightarrow> read_at (mData q) (round_up (2 ^ k) (unat (mSize v))) (2 ^ k) = bs"
proof -
  let ?u = "dcVecAlign v (2 ^ k)"
  have "(2::nat) ^ k \<le> 2 ^ 3" using assms(5) by (intro power_increasing) simp_all
  moreover have "unat (mSize v) < 2 ^ 63" using assms(1,2) by (rule vec_size_small)
  ultimately have b: "unat (mSize v) + 2 ^ k \<le> 2 ^ LENGTH(64)" by simp
  have k: "k < LENGTH(64)" using assms(5) by simp
  have u: "unat (mSize ?u) = round_up (2 ^ k) (unat (mSize v))" by (rule dcVecAlign_size [OF b k])
  have r: "round_up (2 ^ k) (unat (mSize v)) < unat (mSize v) + 2 ^ k" by (rule round_up_less) simp
  have f: "vec_fits ?u (length bs)" using assms(3,4) u r by (simp add: vec_fits_def)
  show s: "unat (mSize (vec_own k bs v)) = round_up (2 ^ k) (unat (mSize v)) + 2 ^ k"
    using f u assms(4) by (simp add: vec_own_def vec_append_used)
  show "unat (mSize (vec_own k bs v)) \<le> unat (mSize v) + 2 * 2 ^ k" unfolding s using r by simp
  show "vec_ok (vec_own k bs v)" and "mTotal (vec_own k bs v) = mTotal v"
    using vec_ok_append [OF vec_fits_ok [OF f]] by (simp_all add: vec_own_def)
  show "vec_keeps v (vec_own k bs v)"
    unfolding vec_own_def by (rule vec_keeps_trans [OF vec_keeps_align [OF b k] vec_keeps_append [OF f]])
  show "vec_keeps (vec_own k bs v) q \<Longrightarrow> read_at (mData q) (round_up (2 ^ k) (unat (mSize v))) (2 ^ k) = bs"
    using read_appended [OF f refl, of q] u assms(4) by (simp add: vec_own_def)
qed

lemma apple_exp_le: "apple_exp a \<le> 3"
  by (cases a) simp_all

lemma length_apple_bytes: "length (apple_bytes a) = 2 ^ apple_exp a"
  by (cases a) simp_all

lemma dcVecAlign_1: "dcVecAlign v 1 = (v :: u64 vec)"
  by (simp add: dcVecAlign_def)

text \<open>What a push does.\<close>

definition apple_full :: "DCCallVM_arm64a \<Rightarrow> (u64, u64) dcarg \<Rightarrow> bool" where
  "apple_full s a \<longleftrightarrow> 8 \<le> (if is_fp a then aa_f s else aa_i s)"

definition apple_grows :: "(u64, u64) dcarg \<Rightarrow> DCCallVM_arm64a \<Rightarrow> DCCallVM_arm64a \<Rightarrow> bool" where
  "apple_grows a s t \<longleftrightarrow> mVTpointer t = mVTpointer s \<and> aa_i s \<le> aa_i t \<and> aa_i t \<le> 8 \<and> aa_f s \<le> aa_f t \<and> aa_f t \<le> 8 \<and>
     (\<forall>j < aa_i s. aa_I t j = aa_I s j) \<and> (\<forall>j < aa_f s. aa_u t j = aa_u s j) \<and>
     aa_vec t = (if apple_full s a then vec_own (apple_exp a) (apple_bytes a) (aa_vec s) else aa_vec s)"

lemmas apple_ops = a_i64_apple_def a_bool_apple_def a_char_apple_def a_short_apple_def a_int_apple_def a_long_apple_def
  a_pointer_apple_def a_float_apple_def a_double_apple_def apple_reg_def vtab_a_apple_def

lemma apple_grows:
  assumes "apple_inv s"
  shows "apple_grows a s (dcArg (vtab_arm64a cs) s a)"
  using assms by (cases a) (auto simp: apple_inv_def apple_grows_def apple_full_def apple_ops vec_own_def dcVecAlign_1)

lemma apple_push:
  assumes "apple_inv s" and "apple_fits s a" and "apple_grows a s t"
  shows "apple_inv t" and "apple_keeps s t" and "mTotal (aa_vec t) = mTotal (aa_vec s)"
    and "unat (mSize (aa_vec t)) \<le> unat (mSize (aa_vec s)) + apple_cost a"
  using assms vec_own(2-5) [of "aa_vec s" "apple_exp a" "apple_bytes a"] apple_exp_le [of a] length_apple_bytes [of a]
  by (auto simp: apple_inv_def apple_fits_def apple_cost_def apple_grows_def apple_keeps_def)

lemma apple_pop:
  assumes i: "apple_inv s" and f: "apple_fits s a" and k: "apple_keeps (dcArg (vtab_arm64a cs) s a) F"
  shows "dcbArg_apple (apple_view caller target F s) (arg_ty a) = (a, apple_view caller target F (dcArg (vtab_arm64a cs) s a))"
proof -
  let ?t = "dcArg (vtab_arm64a cs) s a" and ?v = "apple_view caller target F"
  let ?k = "apple_exp a"
  have b: "vec_ok (aa_vec s)" "unat (mTotal (aa_vec s)) < 2 ^ 63" "mVTpointer s = vt_arm64_apple" using i by (simp_all add: apple_inv_def)
  have g: "apple_grows a s ?t" by (rule apple_grows [OF i])
  note own = vec_own [OF b(1,2) f [unfolded apple_fits_def apple_cost_def] length_apple_bytes apple_exp_le]
  have r: "\<And>j. j < aa_i ?t \<Longrightarrow> aa_I F j = aa_I ?t j" "\<And>j. j < aa_f ?t \<Longrightarrow> aa_u F j = aa_u ?t j"
    using k by (simp_all add: apple_keeps_def)
  have st: "apple_full s a \<Longrightarrow> read_at (raa_stack (?v s)) ((unat (mSize (aa_vec s)) + 2 ^ ?k - 1) div 2 ^ ?k * 2 ^ ?k) (2 ^ ?k) = apple_bytes a \<and>
      unat (mSize (aa_vec ?t)) = (unat (mSize (aa_vec s)) + 2 ^ ?k - 1) div 2 ^ ?k * 2 ^ ?k + 2 ^ ?k"
  proof -
    assume "apple_full s a"
    with g have v: "aa_vec ?t = vec_own ?k (apple_bytes a) (aa_vec s)" by (simp add: apple_grows_def)
    with k have kv: "vec_keeps (vec_own ?k (apple_bytes a) (aa_vec s)) (aa_vec F)" and ok: "vec_ok (aa_vec F)" by (simp_all add: apple_keeps_def)
    have "unat (mTotal (aa_vec F)) < 2 ^ 63" using kv b(2) own(4) by (simp add: vec_keeps_def)
    from vec_size_pad16 [OF ok this] have sz: "unat (mSize (aa_vec F)) \<le> unat ((mSize (aa_vec F) + 15) AND (- 16))" .
    have "round_up (2 ^ ?k) (unat (mSize (aa_vec s))) + 2 ^ ?k \<le> unat (mSize (aa_vec F))" using kv own(1) by (simp add: vec_keeps_def)
    then show ?thesis
      using own(1) own(6) [OF kv] sz
      by (simp add: v round_up_def apple_view_def entry_apple_def call_apple_def stack_copy_read)
  qed
  note defs = apple_view_def entry_apple_def call_apple_def apple_align_def Let_def dcbArgLongLong_apple_def dcbArgDouble_apple_def
    dcbArgFloat_apple_def dcbArgLong_apple_def dcbArgBool_apple_def dcbArgChar_apple_def dcbArgShort_apple_def dcbArgInt_apple_def
    dcbArgPointer_apple_def
  show ?thesis
    using r st b(3)
    by (cases a; cases "apple_full s a")
      (simp_all add: defs apple_ops apple_full_def obj_word_obj_bytes ucast_scast_trunc ucast_ucast_trunc)
qed

interpretation apple: arg_transport_cap "dcArg (vtab_arm64a cs)" apple_fits apple_inv apple_keeps "apple_view caller target"
  dcbArg_apple arg_ty "\<lambda>a. a" "\<lambda>s. unat (mSize (aa_vec s))" "\<lambda>s. unat (mTotal (aa_vec s))" apple_cost
  for cs caller target
proof unfold_locales
  fix s a F
  assume i: "apple_inv s"
  then show "apple_keeps s s" by (simp add: apple_keeps_def apple_inv_def)
  show "unat (mSize (aa_vec s)) + apple_cost a \<le> unat (mTotal (aa_vec s)) \<Longrightarrow> apple_fits s a"
    by (simp add: apple_fits_def vec_fits_def)
  assume f: "apple_fits s a"
  note p = apple_push [OF i f apple_grows [OF i]]
  show "apple_inv (dcArg (vtab_arm64a cs) s a)" and "apple_keeps s (dcArg (vtab_arm64a cs) s a)"
    and "unat (mTotal (aa_vec (dcArg (vtab_arm64a cs) s a))) = unat (mTotal (aa_vec s))"
    and "unat (mSize (aa_vec (dcArg (vtab_arm64a cs) s a))) \<le> unat (mSize (aa_vec s)) + apple_cost a"
    using p by simp_all
  show "apple_keeps (dcArg (vtab_arm64a cs) s a) F \<Longrightarrow>
      dcbArg_apple (apple_view caller target F s) (arg_ty a) = (a, apple_view caller target F (dcArg (vtab_arm64a cs) s a))"
    by (rule apple_pop [OF i f])
qed (auto simp: apple_keeps_def intro: vec_keeps_trans)

text \<open>C29: On Apple's ARM 64 every list of scalar arguments that a program passes after \<open>dcReset\<close> is what the handler of a
  callback reads, each argument on the stack in its own size at its own alignment, if the vector holds twice the sizes.\<close>

theorem arm64_apple_arguments_arrive:
  assumes "unat (mTotal (aa_vec vm)) < 2 ^ 63" and "sum_list (map apple_cost xs) \<le> unat (mTotal (aa_vec vm))"
    and "mVTpointer vm = vt_arm64_apple"
  shows "fst (pop_all dcbArg_apple
            (entry_apple caller (snd (dcCall (vtab_arm64a cs) c
               (dcArgs (vtab_arm64a cs) (dcReset (vtab_arm64a cs) vm) xs) target)))
            (map arg_ty xs)) = xs"
proof -
  let ?V = "vtab_arm64a cs" and ?s = "reset_apple vm"
  have r: "dcReset ?V vm = ?s" using assms(3) by (simp add: dcReset_def vtab_a_apple_def)
  have s: "aa_i ?s = 0" "aa_f ?s = 0" "mSize (aa_vec ?s) = 0" "mTotal (aa_vec ?s) = mTotal (aa_vec vm)" "mVTpointer ?s = mVTpointer vm"
    by (simp_all add: reset_apple_def dcVecReset_def)
  then have inv: "apple_inv ?s" using assms(1,3) by (simp add: apple_inv_def vec_ok_def)
  have cap: "unat (mSize (aa_vec ?s)) + sum_list (map apple_cost xs) \<le> unat (mTotal (aa_vec ?s))" using assms(2) s by simp
  have "mVTpointer (dcArgs ?V ?s xs) = vt_arm64_apple"
    using apple.inv_push_all_cap [OF inv cap, of cs] by (simp add: apple_inv_def push_all_dcArgs)
  moreover have "entry_apple caller (snd (call_apple (dcArgs ?V ?s xs) target)) = apple_view caller target (push_all (dcArg ?V) ?s xs) ?s"
    using s by (simp add: apple_view_def push_all_dcArgs entry_apple_def)
  ultimately show ?thesis
    using apple.call_round_trip [OF inv cap refl, of caller target cs] by (simp add: r dcCall_def vtab_a_apple_def)
qed

definition apple_blank :: "u64 \<Rightarrow> DCCallVM_arm64a" where
  "apple_blank cap =
     \<lparr>mVTpointer = vt_arm64_apple, mError = 0, aa_i = 0, aa_f = 0, aa_u = (\<lambda>_. 0), aa_I = (\<lambda>_. 0),
      aa_vec = \<lparr>mTotal = cap, mSize = 0, mData = (\<lambda>_. 0)\<rparr>\<rparr>"

lemma arm64_apple_arguments_arrive_witness:
  "fst (pop_all dcbArg_apple
      (entry_apple (\<lambda>_. 0) (snd (dcCall (vtab_arm64a True) callVoid
         (dcArgs (vtab_arm64a True) (dcReset (vtab_arm64a True) (apple_blank 64)) [AInt 7, AFloat 9, ALong 5, ABool 2]) 4096)))
      [TInt, TFloat, TLong, TBool]) = [AInt 7, AFloat 9, ALong 5, ABool 2]"
  using arm64_apple_arguments_arrive [of "apple_blank 64" "[AInt 7, AFloat 9, ALong 5, ABool 2]" "\<lambda>_. 0" True callVoid 4096]
  by (simp add: apple_blank_def apple_cost_def)

end
