(* ===== verification/Vm_Arm32.thy ===== *)
theory Vm_Arm32
  imports Dyn_Flat
begin

unbundle bit_operations_syntax

section \<open>ARM 32, soft float: call VMs and argument reader\<close>

text \<open>
  \<open>dyncall/dyncall/dyncall_callvm_arm32_arm.{h,c}\<close> and \<open>dyncall_callvm_arm32_thumb.{h,c}\<close> (the VMs for
  ARM and Thumb code, whose structures have the same members), \<open>dyncall_call_arm32_arm.S\<close>,
  \<open>dyncall/dyncallback/dyncall_args_arm32.{h,c}\<close> without hard float and the entry of the callbacks. All
  arguments go to the vector; the kernel loads its first four words into registers and copies
  the rest to the stack. \<open>eabi\<close> says whether the platform aligns 64 bit values (\<open>DC__ABI_ARM_EABI\<close>),
  \<open>char_signed\<close> whether a plain \<open>char\<close> is signed.
\<close>

datatype vt_arm32 = gVT_arm32_arm | gVT_arm32_arm_eabi | gVT_arm32_thumb | gVT_arm32_thumb_eabi

record DCCallVM_arm32 = "vt_arm32 DCCallVM" +
  a32_mpCallFunc :: u32
  a32_vec :: "u32 vec"

record arm32_call =
  a32_target :: u32
  a32_stackdata :: mem
  a32_size :: u32

subsection \<open>The VM for ARM code\<close>

definition dc_callvm_free_arm32_arm :: "DCCallVM_arm32 \<Rightarrow> DCCallVM_arm32 handle" where
  "dc_callvm_free_arm32_arm self = Freed"

definition dc_callvm_reset_arm32_arm :: "DCCallVM_arm32 \<Rightarrow> DCCallVM_arm32" where
  "dc_callvm_reset_arm32_arm self = self\<lparr>a32_vec := dcVecReset (a32_vec self)\<rparr>"

definition dc_callvm_argInt_arm32_arm :: "DCCallVM_arm32 \<Rightarrow> u32 \<Rightarrow> DCCallVM_arm32" where
  "dc_callvm_argInt_arm32_arm self x = self\<lparr>a32_vec := dcVecAppend (a32_vec self) (obj_bytes LE 4 x)\<rparr>"

definition dc_callvm_argBool_arm32_arm :: "DCCallVM_arm32 \<Rightarrow> u32 \<Rightarrow> DCCallVM_arm32" where
  "dc_callvm_argBool_arm32_arm self x = dc_callvm_argInt_arm32_arm self x"

definition dc_callvm_argChar_arm32_arm :: "bool \<Rightarrow> DCCallVM_arm32 \<Rightarrow> u8 \<Rightarrow> DCCallVM_arm32" where
  "dc_callvm_argChar_arm32_arm char_signed self x =
     dc_callvm_argInt_arm32_arm self (if char_signed then scast x else ucast x)"

definition dc_callvm_argShort_arm32_arm :: "DCCallVM_arm32 \<Rightarrow> u16 \<Rightarrow> DCCallVM_arm32" where
  "dc_callvm_argShort_arm32_arm self x = dc_callvm_argInt_arm32_arm self (scast x)"

definition dc_callvm_argLong_arm32_arm :: "DCCallVM_arm32 \<Rightarrow> u32 \<Rightarrow> DCCallVM_arm32" where
  "dc_callvm_argLong_arm32_arm self x = dc_callvm_argInt_arm32_arm self x"

definition dc_callvm_argLongLong_arm32_arm :: "DCCallVM_arm32 \<Rightarrow> u64 \<Rightarrow> DCCallVM_arm32" where
  "dc_callvm_argLongLong_arm32_arm self x = self\<lparr>a32_vec := dcVecAppend (a32_vec self) (obj_bytes LE 8 x)\<rparr>"

definition dc_callvm_argLongLong_arm32_arm_eabi :: "DCCallVM_arm32 \<Rightarrow> u64 \<Rightarrow> DCCallVM_arm32" where
  "dc_callvm_argLongLong_arm32_arm_eabi self x =
     self\<lparr>a32_vec :=
       dcVecAppend (dcVecSkip (a32_vec self) (mSize (a32_vec self) AND 4)) (obj_bytes LE 8 x)\<rparr>"

definition dc_callvm_argFloat_arm32_arm :: "DCCallVM_arm32 \<Rightarrow> u32 \<Rightarrow> DCCallVM_arm32" where
  "dc_callvm_argFloat_arm32_arm self x = self\<lparr>a32_vec := dcVecAppend (a32_vec self) (obj_bytes LE 4 x)\<rparr>"

definition dc_callvm_argDouble_arm32_arm :: "DCCallVM_arm32 \<Rightarrow> u64 \<Rightarrow> DCCallVM_arm32" where
  "dc_callvm_argDouble_arm32_arm self x = self\<lparr>a32_vec := dcVecAppend (a32_vec self) (obj_bytes LE 8 x)\<rparr>"

definition dc_callvm_argDouble_arm32_arm_eabi :: "DCCallVM_arm32 \<Rightarrow> u64 \<Rightarrow> DCCallVM_arm32" where
  "dc_callvm_argDouble_arm32_arm_eabi self x =
     self\<lparr>a32_vec :=
       dcVecAppend (dcVecSkip (a32_vec self) (mSize (a32_vec self) AND 4)) (obj_bytes LE 8 x)\<rparr>"

definition dc_callvm_argPointer_arm32_arm :: "DCCallVM_arm32 \<Rightarrow> u32 \<Rightarrow> DCCallVM_arm32" where
  "dc_callvm_argPointer_arm32_arm self x = self\<lparr>a32_vec := dcVecAppend (a32_vec self) (obj_bytes LE 4 x)\<rparr>"

definition dc_callvm_call_arm32_arm :: "DCCallVM_arm32 \<Rightarrow> u32 \<Rightarrow> DCCallVM_arm32 \<times> arm32_call" where
  "dc_callvm_call_arm32_arm self target =
     (self, \<lparr>a32_target = target, a32_stackdata = mData (a32_vec self), a32_size = mSize (a32_vec self)\<rparr>)"

definition dc_callvm_mode_arm32_arm :: "bool \<Rightarrow> DCCallVM_arm32 \<Rightarrow> u32 \<Rightarrow> DCCallVM_arm32" where
  "dc_callvm_mode_arm32_arm eabi self mode =
     (if mode \<in> {DC_CALL_C_ELLIPSIS, DC_CALL_C_ELLIPSIS_VARARGS, DC_CALL_C_DEFAULT, DC_CALL_C_DEFAULT_THIS} then
        dc_callvm_base_init self (if eabi then gVT_arm32_arm_eabi else gVT_arm32_arm)
      else if mode = DC_CALL_C_ARM_ARM then dc_callvm_base_init self gVT_arm32_arm
      else if mode = DC_CALL_C_ARM_ARM_EABI then dc_callvm_base_init self gVT_arm32_arm_eabi
      else self\<lparr>mError := DC_ERROR_UNSUPPORTED_MODE\<rparr>)"

definition gvt_arm32_arm :: "bool \<Rightarrow> bool \<Rightarrow> (DCCallVM_arm32, u32, u32, arm32_call) DCCallVM_vt" where
  "gvt_arm32_arm eabi char_signed =
     \<lparr>vt_free = dc_callvm_free_arm32_arm, vt_reset = dc_callvm_reset_arm32_arm, vt_mode = dc_callvm_mode_arm32_arm eabi,
      vt_argBool = dc_callvm_argBool_arm32_arm, vt_argChar = dc_callvm_argChar_arm32_arm char_signed,
      vt_argShort = dc_callvm_argShort_arm32_arm, vt_argInt = dc_callvm_argInt_arm32_arm,
      vt_argLong = dc_callvm_argLong_arm32_arm, vt_argLongLong = dc_callvm_argLongLong_arm32_arm,
      vt_argFloat = dc_callvm_argFloat_arm32_arm, vt_argDouble = dc_callvm_argDouble_arm32_arm,
      vt_argPointer = dc_callvm_argPointer_arm32_arm, vt_argAggr = None,
      vt_call = (\<lambda>_. dc_callvm_call_arm32_arm), vt_callAggr = None, vt_beginAggr = None\<rparr>"

definition gvt_arm32_arm_eabi :: "bool \<Rightarrow> bool \<Rightarrow> (DCCallVM_arm32, u32, u32, arm32_call) DCCallVM_vt" where
  "gvt_arm32_arm_eabi eabi char_signed =
     \<lparr>vt_free = dc_callvm_free_arm32_arm, vt_reset = dc_callvm_reset_arm32_arm, vt_mode = dc_callvm_mode_arm32_arm eabi,
      vt_argBool = dc_callvm_argBool_arm32_arm, vt_argChar = dc_callvm_argChar_arm32_arm char_signed,
      vt_argShort = dc_callvm_argShort_arm32_arm, vt_argInt = dc_callvm_argInt_arm32_arm,
      vt_argLong = dc_callvm_argLong_arm32_arm, vt_argLongLong = dc_callvm_argLongLong_arm32_arm_eabi,
      vt_argFloat = dc_callvm_argFloat_arm32_arm, vt_argDouble = dc_callvm_argDouble_arm32_arm_eabi,
      vt_argPointer = dc_callvm_argPointer_arm32_arm, vt_argAggr = None,
      vt_call = (\<lambda>_. dc_callvm_call_arm32_arm), vt_callAggr = None, vt_beginAggr = None\<rparr>"

text \<open>\<open>dcNewCallVM\<close> on memory with the contents \<open>p\<close>; 16 bytes more than \<open>size\<close> are allocated.\<close>

definition dcNewCallVM_arm32_arm :: "bool \<Rightarrow> DCCallVM_arm32 \<Rightarrow> u32 \<Rightarrow> DCCallVM_arm32" where
  "dcNewCallVM_arm32_arm eabi p sz =
     (let p = dc_callvm_mode_arm32_arm eabi p DC_CALL_C_DEFAULT in p\<lparr>a32_vec := dcVecInit (a32_vec p) sz\<rparr>)"

subsection \<open>The VM for Thumb code\<close>

definition dc_callvm_free_arm32_thumb :: "DCCallVM_arm32 \<Rightarrow> DCCallVM_arm32 handle" where
  "dc_callvm_free_arm32_thumb self = Freed"

definition dc_callvm_reset_arm32_thumb :: "DCCallVM_arm32 \<Rightarrow> DCCallVM_arm32" where
  "dc_callvm_reset_arm32_thumb self = self\<lparr>a32_vec := dcVecReset (a32_vec self)\<rparr>"

definition dc_callvm_argInt_arm32_thumb :: "DCCallVM_arm32 \<Rightarrow> u32 \<Rightarrow> DCCallVM_arm32" where
  "dc_callvm_argInt_arm32_thumb self x = self\<lparr>a32_vec := dcVecAppend (a32_vec self) (obj_bytes LE 4 x)\<rparr>"

definition dc_callvm_argBool_arm32_thumb :: "DCCallVM_arm32 \<Rightarrow> u32 \<Rightarrow> DCCallVM_arm32" where
  "dc_callvm_argBool_arm32_thumb self x = dc_callvm_argInt_arm32_thumb self x"

definition dc_callvm_argChar_arm32_thumb :: "bool \<Rightarrow> DCCallVM_arm32 \<Rightarrow> u8 \<Rightarrow> DCCallVM_arm32" where
  "dc_callvm_argChar_arm32_thumb char_signed self x =
     dc_callvm_argInt_arm32_thumb self (if char_signed then scast x else ucast x)"

definition dc_callvm_argShort_arm32_thumb :: "DCCallVM_arm32 \<Rightarrow> u16 \<Rightarrow> DCCallVM_arm32" where
  "dc_callvm_argShort_arm32_thumb self x = dc_callvm_argInt_arm32_thumb self (scast x)"

definition dc_callvm_argLong_arm32_thumb :: "DCCallVM_arm32 \<Rightarrow> u32 \<Rightarrow> DCCallVM_arm32" where
  "dc_callvm_argLong_arm32_thumb self x = dc_callvm_argInt_arm32_thumb self x"

definition dc_callvm_argLongLong_arm32_thumb :: "DCCallVM_arm32 \<Rightarrow> u64 \<Rightarrow> DCCallVM_arm32" where
  "dc_callvm_argLongLong_arm32_thumb self x = self\<lparr>a32_vec := dcVecAppend (a32_vec self) (obj_bytes LE 8 x)\<rparr>"

definition dc_callvm_argLongLong_arm32_thumb_eabi :: "DCCallVM_arm32 \<Rightarrow> u64 \<Rightarrow> DCCallVM_arm32" where
  "dc_callvm_argLongLong_arm32_thumb_eabi self x =
     self\<lparr>a32_vec :=
       dcVecAppend (dcVecSkip (a32_vec self) (mSize (a32_vec self) AND 4)) (obj_bytes LE 8 x)\<rparr>"

definition dc_callvm_argFloat_arm32_thumb :: "DCCallVM_arm32 \<Rightarrow> u32 \<Rightarrow> DCCallVM_arm32" where
  "dc_callvm_argFloat_arm32_thumb self x = self\<lparr>a32_vec := dcVecAppend (a32_vec self) (obj_bytes LE 4 x)\<rparr>"

definition dc_callvm_argDouble_arm32_thumb :: "DCCallVM_arm32 \<Rightarrow> u64 \<Rightarrow> DCCallVM_arm32" where
  "dc_callvm_argDouble_arm32_thumb self x = self\<lparr>a32_vec := dcVecAppend (a32_vec self) (obj_bytes LE 8 x)\<rparr>"

definition dc_callvm_argDouble_arm32_thumb_eabi :: "DCCallVM_arm32 \<Rightarrow> u64 \<Rightarrow> DCCallVM_arm32" where
  "dc_callvm_argDouble_arm32_thumb_eabi self x =
     self\<lparr>a32_vec :=
       dcVecAppend (dcVecSkip (a32_vec self) (mSize (a32_vec self) AND 4)) (obj_bytes LE 8 x)\<rparr>"

definition dc_callvm_argPointer_arm32_thumb :: "DCCallVM_arm32 \<Rightarrow> u32 \<Rightarrow> DCCallVM_arm32" where
  "dc_callvm_argPointer_arm32_thumb self x = self\<lparr>a32_vec := dcVecAppend (a32_vec self) (obj_bytes LE 4 x)\<rparr>"

definition dc_callvm_call_arm32_thumb :: "DCCallVM_arm32 \<Rightarrow> u32 \<Rightarrow> DCCallVM_arm32 \<times> arm32_call" where
  "dc_callvm_call_arm32_thumb self target =
     (self, \<lparr>a32_target = target, a32_stackdata = mData (a32_vec self), a32_size = mSize (a32_vec self)\<rparr>)"

definition dc_callvm_mode_arm32_thumb :: "bool \<Rightarrow> DCCallVM_arm32 \<Rightarrow> u32 \<Rightarrow> DCCallVM_arm32" where
  "dc_callvm_mode_arm32_thumb eabi self mode =
     (if mode \<in> {DC_CALL_C_ELLIPSIS, DC_CALL_C_ELLIPSIS_VARARGS, DC_CALL_C_DEFAULT, DC_CALL_C_DEFAULT_THIS} then
        dc_callvm_base_init self (if eabi then gVT_arm32_thumb_eabi else gVT_arm32_thumb)
      else if mode = DC_CALL_C_ARM_THUMB then dc_callvm_base_init self gVT_arm32_thumb
      else if mode = DC_CALL_C_ARM_THUMB_EABI then dc_callvm_base_init self gVT_arm32_thumb_eabi
      else self\<lparr>mError := DC_ERROR_UNSUPPORTED_MODE\<rparr>)"

definition gvt_arm32_thumb :: "bool \<Rightarrow> bool \<Rightarrow> (DCCallVM_arm32, u32, u32, arm32_call) DCCallVM_vt" where
  "gvt_arm32_thumb eabi char_signed =
     \<lparr>vt_free = dc_callvm_free_arm32_thumb, vt_reset = dc_callvm_reset_arm32_thumb, vt_mode = dc_callvm_mode_arm32_thumb eabi,
      vt_argBool = dc_callvm_argBool_arm32_thumb, vt_argChar = dc_callvm_argChar_arm32_thumb char_signed,
      vt_argShort = dc_callvm_argShort_arm32_thumb, vt_argInt = dc_callvm_argInt_arm32_thumb,
      vt_argLong = dc_callvm_argLong_arm32_thumb, vt_argLongLong = dc_callvm_argLongLong_arm32_thumb,
      vt_argFloat = dc_callvm_argFloat_arm32_thumb, vt_argDouble = dc_callvm_argDouble_arm32_thumb,
      vt_argPointer = dc_callvm_argPointer_arm32_thumb, vt_argAggr = None,
      vt_call = (\<lambda>_. dc_callvm_call_arm32_thumb), vt_callAggr = None, vt_beginAggr = None\<rparr>"

definition gvt_arm32_thumb_eabi :: "bool \<Rightarrow> bool \<Rightarrow> (DCCallVM_arm32, u32, u32, arm32_call) DCCallVM_vt" where
  "gvt_arm32_thumb_eabi eabi char_signed =
     \<lparr>vt_free = dc_callvm_free_arm32_thumb, vt_reset = dc_callvm_reset_arm32_thumb, vt_mode = dc_callvm_mode_arm32_thumb eabi,
      vt_argBool = dc_callvm_argBool_arm32_thumb, vt_argChar = dc_callvm_argChar_arm32_thumb char_signed,
      vt_argShort = dc_callvm_argShort_arm32_thumb, vt_argInt = dc_callvm_argInt_arm32_thumb,
      vt_argLong = dc_callvm_argLong_arm32_thumb, vt_argLongLong = dc_callvm_argLongLong_arm32_thumb_eabi,
      vt_argFloat = dc_callvm_argFloat_arm32_thumb, vt_argDouble = dc_callvm_argDouble_arm32_thumb_eabi,
      vt_argPointer = dc_callvm_argPointer_arm32_thumb, vt_argAggr = None,
      vt_call = (\<lambda>_. dc_callvm_call_arm32_thumb), vt_callAggr = None, vt_beginAggr = None\<rparr>"

definition dcNewCallVM_arm32_thumb :: "bool \<Rightarrow> DCCallVM_arm32 \<Rightarrow> u32 \<Rightarrow> DCCallVM_arm32" where
  "dcNewCallVM_arm32_thumb eabi p sz =
     (let p = dc_callvm_mode_arm32_thumb eabi p DC_CALL_C_DEFAULT in p\<lparr>a32_vec := dcVecInit (a32_vec p) sz\<rparr>)"

subsection \<open>The tables by name\<close>

fun vtab_arm32 :: "bool \<Rightarrow> bool \<Rightarrow> vt_arm32 \<Rightarrow> (DCCallVM_arm32, u32, u32, arm32_call) DCCallVM_vt" where
  "vtab_arm32 eabi cs gVT_arm32_arm = gvt_arm32_arm eabi cs"
| "vtab_arm32 eabi cs gVT_arm32_arm_eabi = gvt_arm32_arm_eabi eabi cs"
| "vtab_arm32 eabi cs gVT_arm32_thumb = gvt_arm32_thumb eabi cs"
| "vtab_arm32 eabi cs gVT_arm32_thumb_eabi = gvt_arm32_thumb_eabi eabi cs"

subsection \<open>The reader\<close>

text \<open>\<open>r32_sp\<close> is the offset of \<open>stack_ptr\<close> from the first stack argument, which the kernel aligns to 8 bytes.\<close>

record DCArgs_arm32 =
  r32_reg_data :: "nat \<Rightarrow> u32"
  r32_reg_count :: nat
  r32_sp :: nat
  r32_stack :: mem

definition arm_align_64 :: "bool \<Rightarrow> 'z DCArgs_arm32_scheme \<Rightarrow> 'z DCArgs_arm32_scheme" where
  "arm_align_64 eabi args =
     (if eabi then
        (let args = (if r32_reg_count args < 4
                     then args\<lparr>r32_reg_count := (r32_reg_count args + 1) div 2 * 2\<rparr> else args)
         in if 4 \<le> r32_reg_count args \<and> odd (r32_sp args div 4) then args\<lparr>r32_sp := r32_sp args + 4\<rparr> else args)
      else args)"

definition arm_word :: "'z DCArgs_arm32_scheme \<Rightarrow> u32 \<times> 'z DCArgs_arm32_scheme" where
  "arm_word args =
     (if r32_reg_count args < 4
      then (r32_reg_data args (r32_reg_count args), args\<lparr>r32_reg_count := r32_reg_count args + 1\<rparr>)
      else (obj_word LE (read_at (r32_stack args) (r32_sp args) 4), args\<lparr>r32_sp := r32_sp args + 4\<rparr>))"

definition arm_float :: "DCArgs_arm32 \<Rightarrow> u32 \<times> DCArgs_arm32" where
  "arm_float args = arm_word args"

definition arm_double :: "bool \<Rightarrow> DCArgs_arm32 \<Rightarrow> u64 \<times> DCArgs_arm32" where
  "arm_double eabi args =
     (case arm_word (arm_align_64 eabi args) of (l0, args) \<Rightarrow>
        (case arm_word args of (l1, args) \<Rightarrow> (join_words l1 l0, args)))"

definition arm_longlong :: "bool \<Rightarrow> 'z DCArgs_arm32_scheme \<Rightarrow> u64 \<times> 'z DCArgs_arm32_scheme" where
  "arm_longlong eabi args =
     (case arm_word (arm_align_64 eabi args) of (l0, args) \<Rightarrow>
        (case arm_word args of (l1, args) \<Rightarrow> (join_words l1 l0, args)))"

fun dcbArg_arm32 :: "bool \<Rightarrow> DCArgs_arm32 \<Rightarrow> dcty \<Rightarrow> (u32, u32) dcarg \<times> DCArgs_arm32" where
  "dcbArg_arm32 eabi p TBool = map_prod (\<lambda>x. ABool (if x = 0 then 0 else 1)) id (arm_word p)"
| "dcbArg_arm32 eabi p TChar = map_prod (\<lambda>x. AChar (ucast x)) id (arm_word p)"
| "dcbArg_arm32 eabi p TShort = map_prod (\<lambda>x. AShort (ucast x)) id (arm_word p)"
| "dcbArg_arm32 eabi p TInt = map_prod AInt id (arm_word p)"
| "dcbArg_arm32 eabi p TLong = map_prod ALong id (arm_word p)"
| "dcbArg_arm32 eabi p TLongLong = map_prod ALongLong id (arm_longlong eabi p)"
| "dcbArg_arm32 eabi p TFloat = map_prod AFloat id (arm_float p)"
| "dcbArg_arm32 eabi p TDouble = map_prod ADouble id (arm_double eabi p)"
| "dcbArg_arm32 eabi p TPointer = map_prod APointer id (arm_word p)"

text \<open>The kernel loads the first four words and copies the bytes behind them; the entry of a callback
  spills the registers and clears the counter.\<close>

definition entry_arm32 :: "mem \<Rightarrow> arm32_call \<Rightarrow> DCArgs_arm32" where
  "entry_arm32 caller c =
     \<lparr>r32_reg_data = (\<lambda>i. obj_word LE (read_at (a32_stackdata c) (4 * i) 4)), r32_reg_count = 0, r32_sp = 0,
      r32_stack = stack_copy caller (unat (a32_size c) - 16) (\<lambda>j. a32_stackdata c (16 + j))\<rparr>"


subsection \<open>The round trip\<close>

text \<open>Both VMs push a word, or eight bytes that an EABI table aligns to eight.\<close>

definition eabi_table :: "vt_arm32 \<Rightarrow> bool" where
  "eabi_table i \<longleftrightarrow> i = gVT_arm32_arm_eabi \<or> i = gVT_arm32_thumb_eabi"

lemmas arm32_op_defs =
  dc_callvm_argInt_arm32_arm_def dc_callvm_argBool_arm32_arm_def dc_callvm_argChar_arm32_arm_def
  dc_callvm_argShort_arm32_arm_def dc_callvm_argLong_arm32_arm_def dc_callvm_argLongLong_arm32_arm_def
  dc_callvm_argLongLong_arm32_arm_eabi_def dc_callvm_argFloat_arm32_arm_def dc_callvm_argDouble_arm32_arm_def
  dc_callvm_argDouble_arm32_arm_eabi_def dc_callvm_argPointer_arm32_arm_def dc_callvm_call_arm32_arm_def
  dc_callvm_argInt_arm32_thumb_def dc_callvm_argBool_arm32_thumb_def dc_callvm_argChar_arm32_thumb_def
  dc_callvm_argShort_arm32_thumb_def dc_callvm_argLong_arm32_thumb_def dc_callvm_argLongLong_arm32_thumb_def
  dc_callvm_argLongLong_arm32_thumb_eabi_def dc_callvm_argFloat_arm32_thumb_def dc_callvm_argDouble_arm32_thumb_def
  dc_callvm_argDouble_arm32_thumb_eabi_def dc_callvm_argPointer_arm32_thumb_def dc_callvm_call_arm32_thumb_def

lemmas arm32_vt_defs = gvt_arm32_arm_def gvt_arm32_arm_eabi_def gvt_arm32_thumb_def gvt_arm32_thumb_eabi_def

lemma dcArg_arm32:
  "dcArg (vtab_arm32 eabi cs) s a =
     s\<lparr>a32_vec := vec_slot (eabi_table (mVTpointer s) \<and> is_wide a) (flat_bytes cs LE a) (a32_vec s)\<rparr>"
  by (cases "mVTpointer s"; cases a)
    (simp_all add: arm32_vt_defs arm32_op_defs vec_slot_def eabi_table_def)

lemma dcCall_arm32:
  "dcCall (vtab_arm32 eabi cs) c s target =
     (s, \<lparr>a32_target = target, a32_stackdata = mData (a32_vec s), a32_size = mSize (a32_vec s)\<rparr>)"
  by (cases "mVTpointer s") (simp_all add: dcCall_def arm32_vt_defs arm32_op_defs)

definition arm32_at :: "mem \<Rightarrow> DCCallVM_arm32 \<Rightarrow> nat \<Rightarrow> DCArgs_arm32" where
  "arm32_at caller F p =
     (entry_arm32 caller \<lparr>a32_target = 0, a32_stackdata = mData (a32_vec F), a32_size = mSize (a32_vec F)\<rparr>)
     \<lparr>r32_reg_count := min 4 (p div 4), r32_sp := p - 16\<rparr>"

lemma arm_word_at:
  assumes "4 dvd p" and "p + 4 \<le> unat (mSize (a32_vec F))"
  shows "arm_word (arm32_at caller F p) = (obj_word LE (read_at (mData (a32_vec F)) p 4), arm32_at caller F (p + 4))"
proof -
  from assms(1) obtain k where k: "p = 4 * k" ..
  show ?thesis
  proof (cases "k < 4")
    case True
    then show ?thesis by (auto simp: k arm_word_def arm32_at_def entry_arm32_def)
  next
    case False
    then have "16 \<le> p" by (simp add: k)
    with False assms(2) show ?thesis
      by (simp add: k arm_word_def arm32_at_def entry_arm32_def stack_copy_read read_at_shift)
  qed
qed

lemma arm_align_at:
  assumes "4 dvd p"
  shows "arm_align_64 e (arm32_at caller F p) = arm32_at caller F (slot_at e p)"
proof -
  from assms obtain k where k: "p = 4 * k" ..
  consider "k = 0" | "k = 1" | "k = 2" | "k = 3" | "4 \<le> k" by linarith
  then show ?thesis
  proof cases
    case 5
    then have "(4 * k - 16) div 4 = k - 4" by simp
    with 5 show ?thesis by (auto simp: k arm_align_64_def arm32_at_def Let_def slot_at_def)
  qed (auto simp: k arm_align_64_def arm32_at_def Let_def slot_at_def)
qed

lemma arm_longlong_at:
  assumes "4 dvd p" and "q = slot_at e p" and "q + 8 \<le> unat (mSize (a32_vec F))"
    and "read_at (mData (a32_vec F)) q 8 = obj_bytes LE 8 x"
  shows "arm_longlong e (arm32_at caller F p) = (x, arm32_at caller F (q + 8))"
    and "arm_double e (arm32_at caller F p) = (x, arm32_at caller F (q + 8))"
  using slot_at_dvd [OF assms(1), of e] assms(3) read_halves [OF assms(4)]
  by (simp_all add: arm_longlong_def arm_double_def arm_align_at [OF assms(1)] assms(2) [symmetric] arm_word_at
      add.commute [of 8])

interpretation arm32: flat_transport "dcArg (vtab_arm32 eabi cs)" a32_vec "\<lambda>s. eabi_table (mVTpointer s) = e"
  "\<lambda>a. e \<and> is_wide a" "flat_bytes cs LE" "arm32_at caller" "dcbArg_arm32 e" arg_ty bool01 0
  for eabi cs e caller
proof unfold_locales
  fix F :: DCCallVM_arm32 and p q and a :: "(u32, u32) dcarg"
  assume p: "4 dvd p" and q: "q = slot_at (e \<and> is_wide a) p"
    and le: "q + length (flat_bytes cs LE a) \<le> unat (mSize (a32_vec F))"
    and rd: "read_at (mData (a32_vec F)) q (length (flat_bytes cs LE a)) = flat_bytes cs LE a"
  show "dcbArg_arm32 e (arm32_at caller F p) (arg_ty a) = (bool01 a, arm32_at caller F (q + length (flat_bytes cs LE a)))"
  proof (cases "is_wide a")
    case True
    with p q le rd show ?thesis
      by (cases a) (simp_all add: arm_longlong_at)
  next
    case False
    with p q le rd show ?thesis
      by (cases a)
        (simp_all add: slot_at_def arm_word_at arm_float_def obj_word_obj_bytes ucast_scast_trunc ucast_ucast_trunc)
  qed
qed (simp_all add: dcArg_arm32 length_flat_bytes)

lemma dcReset_arm32: "dcReset (vtab_arm32 eabi cs) vm = vm\<lparr>a32_vec := dcVecReset (a32_vec vm)\<rparr>"
  by (cases "mVTpointer vm")
    (simp_all add: dcReset_def arm32_vt_defs dc_callvm_reset_arm32_arm_def dc_callvm_reset_arm32_thumb_def)

text \<open>C21: On 32 bit ARM, in ARM and in Thumb code, with the old and with the EABI tables, every list of scalar
  arguments passed after \<open>dcReset\<close> is read back by the handler of a callback on a platform with
  the alignment of the table, whether a value travels in registers, on the stack or in both
  (a \<open>DCbool\<close> as 0 or 1).\<close>

theorem arm32_arguments_arrive:
  assumes "unat (mTotal (a32_vec vm)) < 2 ^ 31"
    and "sum_list (map (word_cost (eabi_table (mVTpointer vm))) xs) \<le> unat (mTotal (a32_vec vm))"
  shows "fst (pop_all (dcbArg_arm32 (eabi_table (mVTpointer vm)))
            (entry_arm32 caller (snd (dcCall (vtab_arm32 eabi cs) c
               (dcArgs (vtab_arm32 eabi cs) (dcReset (vtab_arm32 eabi cs) vm) xs) target)))
            (map arg_ty xs)) = map bool01 xs"
proof -
  let ?e = "eabi_table (mVTpointer vm)"
  have "fst (pop_all (dcbArg_arm32 ?e)
      (arm32_at caller (push_all (dcArg (vtab_arm32 eabi cs)) (dcReset (vtab_arm32 eabi cs) vm) xs) 0)
      (map arg_ty xs)) = map bool01 xs"
    by (rule arm32.flat_round_trip) (use assms in \<open>simp_all add: dcReset_arm32 dcVecReset_def slot_cost_flat\<close>)
  then show ?thesis
    by (simp add: push_all_dcArgs dcCall_arm32 arm32_at_def entry_arm32_def)
qed

definition arm32_blank :: "u32 \<Rightarrow> DCCallVM_arm32" where
  "arm32_blank cap =
     \<lparr>mVTpointer = gVT_arm32_thumb_eabi, mError = 0, a32_mpCallFunc = 0,
      a32_vec = \<lparr>mTotal = cap, mSize = 0, mData = (\<lambda>_. 0)\<rparr>\<rparr>"

lemma arm32_arguments_arrive_witness:
  "fst (pop_all (dcbArg_arm32 True)
      (entry_arm32 (\<lambda>_. 0) (snd (dcCall (vtab_arm32 True False) callVoid
         (dcArgs (vtab_arm32 True False) (dcReset (vtab_arm32 True False) (arm32_blank 64))
            [AInt 7, ALongLong 9, ABool 2, ADouble 5]) 4096)))
      [TInt, TLongLong, TBool, TDouble]) = [AInt 7, ALongLong 9, ABool 1, ADouble 5]"
  using arm32_arguments_arrive [of "arm32_blank 64" "[AInt 7, ALongLong 9, ABool 2, ADouble 5]" "\<lambda>_. 0" True False callVoid 4096]
  by (simp add: arm32_blank_def eabi_table_def word_cost_def)

end
