(* ===== verification/Vm_Armhf.thy ===== *)
theory Vm_Armhf
  imports Vm_Arm32
begin

unbundle bit_operations_syntax

section \<open>ARM 32, hard float: call VM and argument reader\<close>

text \<open>
  \<open>dyncall/dyncall/dyncall_callvm_arm32_arm_armhf.{h,c}\<close> with \<open>dyncall_call_arm32_arm_armhf.S\<close>, and
  \<open>dyncall/dyncallback/dyncall_args_arm32.c\<close> as compiled with \<open>DC__ABI_ARM_HF\<close>. Sixteen single
  precision registers double as eight double precision ones: after a single and a double a gap is
  left that the next single fills. The writer counts both kinds (\<open>hf_s\<close>, \<open>hf_d\<close>, always in step),
  the reader lets its double counter lag behind and catches up at the next double. The integer registers
  are the first 16 bytes of the vector, whose size starts there.
\<close>

datatype vt_armhf_id = vt_armhf | vt_armhf_ellipsis

record DCCallVM_armhf = "vt_armhf_id DCCallVM" +
  hf_i :: nat
  hf_s :: nat
  hf_d :: nat
  hf_S :: "nat \<Rightarrow> u32"
  hf_mpCallFunc :: u32
  hf_vec :: "u32 vec"

record armhf_call =
  hfc_target :: u32
  hfc_stackdata :: mem
  hfc_size :: u32
  hfc_S :: "nat \<Rightarrow> u32"

definition deinit_armhf :: "DCCallVM_armhf \<Rightarrow> DCCallVM_armhf handle" where
  "deinit_armhf self = Freed"

definition reset_armhf :: "DCCallVM_armhf \<Rightarrow> DCCallVM_armhf" where
  "reset_armhf p = p\<lparr>hf_i := 0, hf_s := 0, hf_d := 0, hf_vec := dcVecResize (hf_vec p) 16\<rparr>"

definition a_int_armhf :: "DCCallVM_armhf \<Rightarrow> u32 \<Rightarrow> DCCallVM_armhf" where
  "a_int_armhf p x =
     (if hf_i p < 16
      then p\<lparr>hf_vec := dcVecAt_store (hf_vec p) (hf_i p) (obj_bytes LE 4 x), hf_i := hf_i p + 4\<rparr>
      else p\<lparr>hf_vec := dcVecAppend (hf_vec p) (obj_bytes LE 4 x)\<rparr>)"

definition a_bool_armhf :: "DCCallVM_armhf \<Rightarrow> u32 \<Rightarrow> DCCallVM_armhf" where
  "a_bool_armhf p x = a_int_armhf p x"

definition a_char_armhf :: "bool \<Rightarrow> DCCallVM_armhf \<Rightarrow> u8 \<Rightarrow> DCCallVM_armhf" where
  "a_char_armhf char_signed p x = a_int_armhf p (if char_signed then scast x else ucast x)"

definition a_short_armhf :: "DCCallVM_armhf \<Rightarrow> u16 \<Rightarrow> DCCallVM_armhf" where
  "a_short_armhf p x = a_int_armhf p (scast x)"

definition a_long_armhf :: "DCCallVM_armhf \<Rightarrow> u32 \<Rightarrow> DCCallVM_armhf" where
  "a_long_armhf p x = a_int_armhf p x"

text \<open>\<open>(p->i+4) & -8\<close> is the offset rounded up to eight, since it is a multiple of four.\<close>

definition a_longlong_armhf :: "DCCallVM_armhf \<Rightarrow> u64 \<Rightarrow> DCCallVM_armhf" where
  "a_longlong_armhf p x =
     (let p = p\<lparr>hf_i := (hf_i p + 4) div 8 * 8\<rparr> in
      if hf_i p < 16
      then p\<lparr>hf_vec := dcVecAt_store (hf_vec p) (hf_i p) (obj_bytes LE 8 x), hf_i := hf_i p + 8\<rparr>
      else p\<lparr>hf_vec :=
        dcVecAppend (dcVecSkip (hf_vec p) (mSize (hf_vec p) AND 4)) (obj_bytes LE 8 x)\<rparr>)"

definition a_pointer_armhf :: "DCCallVM_armhf \<Rightarrow> u32 \<Rightarrow> DCCallVM_armhf" where
  "a_pointer_armhf p x = a_int_armhf p x"

definition a_float_armhf :: "DCCallVM_armhf \<Rightarrow> u32 \<Rightarrow> DCCallVM_armhf" where
  "a_float_armhf p x =
     (if hf_s p < 16 then
        (let p = p\<lparr>hf_S := (hf_S p)(hf_s p := x), hf_s := hf_s p + 1\<rparr> in
         if hf_d p < hf_s p then p\<lparr>hf_d := (hf_s p + 1) div 2 * 2\<rparr> else p\<lparr>hf_s := hf_d p\<rparr>)
      else p\<lparr>hf_vec := dcVecAppend (hf_vec p) (obj_bytes LE 4 x)\<rparr>)"

text \<open>A double is stored over two singles, the low word first.\<close>

definition a_double_armhf :: "DCCallVM_armhf \<Rightarrow> u64 \<Rightarrow> DCCallVM_armhf" where
  "a_double_armhf p x =
     (if hf_d p < 16 then
        (let p = p\<lparr>hf_S := (hf_S p)(hf_d p := lo_word x, hf_d p + 1 := hi_word x), hf_d := hf_d p + 2\<rparr> in
         if even (hf_s p) then p\<lparr>hf_s := hf_d p\<rparr> else p)
      else p\<lparr>hf_s := 16,
             hf_vec := dcVecAppend (dcVecSkip (hf_vec p) (mSize (hf_vec p) AND 4)) (obj_bytes LE 8 x)\<rparr>)"

definition a_float_ellipsis_armhf :: "DCCallVM_armhf \<Rightarrow> u32 \<Rightarrow> DCCallVM_armhf" where
  "a_float_ellipsis_armhf p x = a_int_armhf p x"

definition a_double_ellipsis_armhf :: "DCCallVM_armhf \<Rightarrow> u64 \<Rightarrow> DCCallVM_armhf" where
  "a_double_ellipsis_armhf p x = a_longlong_armhf p x"

definition call_armhf :: "DCCallVM_armhf \<Rightarrow> u32 \<Rightarrow> DCCallVM_armhf \<times> armhf_call" where
  "call_armhf p target =
     (p, \<lparr>hfc_target = target, hfc_stackdata = mData (hf_vec p), hfc_size = mSize (hf_vec p), hfc_S = hf_S p\<rparr>)"

definition mode_armhf :: "DCCallVM_armhf \<Rightarrow> u32 \<Rightarrow> DCCallVM_armhf" where
  "mode_armhf self md =
     (if md \<in> {DC_CALL_C_DEFAULT, DC_CALL_C_DEFAULT_THIS, DC_CALL_C_ARM_ARMHF}
      then dc_callvm_base_init self vt_armhf
      else if md \<in> {DC_CALL_C_ELLIPSIS, DC_CALL_C_ELLIPSIS_VARARGS}
      then dc_callvm_base_init self vt_armhf_ellipsis
      else self\<lparr>mError := DC_ERROR_UNSUPPORTED_MODE\<rparr>)"

fun vtab_armhf :: "bool \<Rightarrow> vt_armhf_id \<Rightarrow> (DCCallVM_armhf, u32, u32, armhf_call) DCCallVM_vt" where
  "vtab_armhf cs vt_armhf =
     \<lparr>vt_free = deinit_armhf, vt_reset = reset_armhf, vt_mode = mode_armhf, vt_argBool = a_bool_armhf,
      vt_argChar = a_char_armhf cs, vt_argShort = a_short_armhf, vt_argInt = a_int_armhf,
      vt_argLong = a_long_armhf, vt_argLongLong = a_longlong_armhf, vt_argFloat = a_float_armhf,
      vt_argDouble = a_double_armhf, vt_argPointer = a_pointer_armhf, vt_argAggr = None,
      vt_call = (\<lambda>_. call_armhf), vt_callAggr = None, vt_beginAggr = None\<rparr>"
| "vtab_armhf cs vt_armhf_ellipsis =
     \<lparr>vt_free = deinit_armhf, vt_reset = reset_armhf, vt_mode = mode_armhf, vt_argBool = a_bool_armhf,
      vt_argChar = a_char_armhf cs, vt_argShort = a_short_armhf, vt_argInt = a_int_armhf,
      vt_argLong = a_long_armhf, vt_argLongLong = a_longlong_armhf, vt_argFloat = a_float_ellipsis_armhf,
      vt_argDouble = a_double_ellipsis_armhf, vt_argPointer = a_pointer_armhf, vt_argAggr = None,
      vt_call = (\<lambda>_. call_armhf), vt_callAggr = None, vt_beginAggr = None\<rparr>"

definition dcNewCallVM_armhf :: "DCCallVM_armhf \<Rightarrow> u32 \<Rightarrow> DCCallVM_armhf" where
  "dcNewCallVM_armhf p sz =
     (let p = mode_armhf p DC_CALL_C_DEFAULT in reset_armhf (p\<lparr>hf_vec := dcVecInit (hf_vec p) sz\<rparr>))"

subsection \<open>The reader\<close>

record DCArgs_armhf = DCArgs_arm32 +
  rhf_f :: "nat \<Rightarrow> u32"
  freg_count :: nat
  dreg_count :: nat

definition arm_float_hf :: "DCArgs_armhf \<Rightarrow> u32 \<times> DCArgs_armhf" where
  "arm_float_hf args =
     (if freg_count args < 16 then
        (let f = rhf_f args (freg_count args);
             args = args\<lparr>freg_count := freg_count args + 1\<rparr>
         in (f, if even (freg_count args) \<and> freg_count args < dreg_count args
                then args\<lparr>freg_count := dreg_count args\<rparr> else args))
      else arm_word args)"

definition arm_double_hf :: "DCArgs_armhf \<Rightarrow> u64 \<times> DCArgs_armhf" where
  "arm_double_hf args =
     (let args = (if dreg_count args < freg_count args
                  then args\<lparr>dreg_count := (freg_count args + 1) div 2 * 2 mod 32\<rparr> else args)
      in if dreg_count args < 16 then
           (let d = join_words (rhf_f args (dreg_count args + 1)) (rhf_f args (dreg_count args));
                args = args\<lparr>dreg_count := dreg_count args + 2\<rparr>
            in (d, if even (freg_count args) then args\<lparr>freg_count := dreg_count args\<rparr> else args))
         else arm_longlong True (args\<lparr>freg_count := 16\<rparr>))"

fun dcbArg_armhf :: "DCArgs_armhf \<Rightarrow> dcty \<Rightarrow> (u32, u32) dcarg \<times> DCArgs_armhf" where
  "dcbArg_armhf p TBool = map_prod (\<lambda>x. ABool (if x = 0 then 0 else 1)) id (arm_word p)"
| "dcbArg_armhf p TChar = map_prod (\<lambda>x. AChar (ucast x)) id (arm_word p)"
| "dcbArg_armhf p TShort = map_prod (\<lambda>x. AShort (ucast x)) id (arm_word p)"
| "dcbArg_armhf p TInt = map_prod AInt id (arm_word p)"
| "dcbArg_armhf p TLong = map_prod ALong id (arm_word p)"
| "dcbArg_armhf p TLongLong = map_prod ALongLong id (arm_longlong True p)"
| "dcbArg_armhf p TFloat = map_prod AFloat id (arm_float_hf p)"
| "dcbArg_armhf p TDouble = map_prod ADouble id (arm_double_hf p)"
| "dcbArg_armhf p TPointer = map_prod APointer id (arm_word p)"

definition entry_armhf :: "mem \<Rightarrow> armhf_call \<Rightarrow> DCArgs_armhf" where
  "entry_armhf caller c =
     \<lparr>r32_reg_data = (\<lambda>i. obj_word LE (read_at (hfc_stackdata c) (4 * i) 4)), r32_reg_count = 0, r32_sp = 0,
      r32_stack = stack_copy caller (unat (hfc_size c) - 16) (\<lambda>j. hfc_stackdata c (16 + j)),
      rhf_f = hfc_S c, freg_count = 0, dreg_count = 0\<rparr>"


subsection \<open>Invariant and contract\<close>

text \<open>The counters of the float registers: in step, or one gap below the next double.\<close>

definition hf_counters :: "nat \<Rightarrow> nat \<Rightarrow> bool" where
  "hf_counters s d \<longleftrightarrow> s \<le> 16 \<and> d \<le> 16 \<and> even d \<and> (if even s then s = d else s < d)"

definition hf_pos :: "DCCallVM_armhf \<Rightarrow> nat" where
  "hf_pos s = unat (mSize (hf_vec s))"

definition armhf_inv :: "DCCallVM_armhf \<Rightarrow> bool" where
  "armhf_inv s \<longleftrightarrow> hf_counters (hf_s s) (hf_d s) \<and> hf_i s \<le> 16 \<and> 4 dvd hf_i s \<and> 4 dvd hf_pos s \<and>
     16 \<le> hf_pos s \<and> vec_ok (hf_vec s) \<and> mVTpointer s = vt_armhf"

text \<open>
  The callee finds a float on the stack once the float registers are used up; the reader looks for it
  in the integer registers as long as one of them is left. So an argument that overflows the float
  registers fits only when the integer registers are used up, too.
\<close>

fun armhf_fits :: "DCCallVM_armhf \<Rightarrow> ('l, 'p) dcarg \<Rightarrow> bool" where
  "armhf_fits s (AFloat _) \<longleftrightarrow> hf_s s < 16 \<or> hf_i s = 16 \<and> vec_fits (hf_vec s) 4"
| "armhf_fits s (ADouble _) \<longleftrightarrow> hf_d s < 16 \<or> hf_i s = 16 \<and> vec_fits (hf_vec s) 12"
| "armhf_fits s (ALongLong _) \<longleftrightarrow> hf_i s < 12 \<or> vec_fits (hf_vec s) 12"
| "armhf_fits s a \<longleftrightarrow> hf_i s < 16 \<or> vec_fits (hf_vec s) 4"

definition hf_committed :: "DCCallVM_armhf \<Rightarrow> nat \<Rightarrow> bool" where
  "hf_committed s j \<longleftrightarrow> j < hf_d s \<and> (odd (hf_s s) \<longrightarrow> j \<noteq> hf_s s)"

definition armhf_keeps :: "DCCallVM_armhf \<Rightarrow> DCCallVM_armhf \<Rightarrow> bool" where
  "armhf_keeps s t \<longleftrightarrow> hf_i s \<le> hf_i t \<and> hf_pos s \<le> hf_pos t \<and> mTotal (hf_vec t) = mTotal (hf_vec s) \<and>
     (\<forall>j. j < hf_i s \<or> 16 \<le> j \<and> j < hf_pos s \<longrightarrow> mData (hf_vec t) j = mData (hf_vec s) j) \<and>
     (\<forall>j. hf_committed s j \<longrightarrow> hf_committed t j \<and> hf_S t j = hf_S s j)"

definition armhf_reads :: "mem \<Rightarrow> DCArgs_armhf \<Rightarrow> DCCallVM_armhf \<Rightarrow> DCCallVM_armhf \<Rightarrow> bool" where
  "armhf_reads caller r F s \<longleftrightarrow>
     r32_reg_data r = (\<lambda>i. obj_word LE (read_at (mData (hf_vec F)) (4 * i) 4)) \<and>
     r32_stack r = stack_copy caller (hf_pos F - 16) (\<lambda>j. mData (hf_vec F) (16 + j)) \<and>
     rhf_f r = hf_S F \<and> r32_reg_count r = hf_i s div 4 \<and> r32_sp r = hf_pos s - 16 \<and>
     freg_count r = hf_s s \<and>
     (dreg_count r = hf_d s \<or> dreg_count r < hf_s s \<and> hf_d s = (hf_s s + 1) div 2 * 2)"

lemma armhf_keeps_trans: "armhf_keeps s t \<Longrightarrow> armhf_keeps t u \<Longrightarrow> armhf_keeps s u"
  unfolding armhf_keeps_def by (metis le_trans less_le_trans)

lemma armhf_keeps_refl: "armhf_keeps s s"
  by (simp add: armhf_keeps_def)

subsection \<open>Reading memory\<close>

lemma hf_read_append:
  assumes "armhf_keeps s F" and "hf_vec s = dcVecAppend v bs" and "vec_fits v n" and "n = length bs"
    and "16 \<le> unat (mSize v)"
  shows "read_at (mData (hf_vec F)) (unat (mSize v)) n = bs" and "unat (mSize v) + n \<le> hf_pos F"
proof -
  have p: "hf_pos s = unat (mSize v) + n" using assms(2-4) by (simp add: hf_pos_def vec_append_used)
  then show "unat (mSize v) + n \<le> hf_pos F" using assms(1) by (simp add: armhf_keeps_def)
  have "read_at (mData (hf_vec F)) (unat (mSize v)) n = read_at (mData (hf_vec s)) (unat (mSize v)) n"
    using assms(1,5) p by (intro read_at_cong) (simp add: armhf_keeps_def)
  also have "\<dots> = bs" using read_appended [OF assms(3,4) vec_keeps_refl] by (simp add: assms(2))
  finally show "read_at (mData (hf_vec F)) (unat (mSize v)) n = bs" .
qed

lemma hf_read_store:
  assumes "armhf_keeps s F" and "hf_vec s = dcVecAt_store v i bs" and "n = length bs" and "i + n \<le> hf_i s"
  shows "read_at (mData (hf_vec F)) i n = bs"
proof -
  have "read_at (mData (hf_vec F)) i n = read_at (mData (hf_vec s)) i n"
    using assms(1,4) by (intro read_at_cong) (simp add: armhf_keeps_def)
  also have "\<dots> = bs" using assms(2,3) by (simp add: dcVecAt_store_def read_at_write_at)
  finally show ?thesis .
qed

lemma hf_stack_read:
  assumes "armhf_reads caller r F s" and "16 \<le> p" and "p + n \<le> hf_pos F"
  shows "read_at (r32_stack r) (p - 16) n = read_at (mData (hf_vec F)) p n"
  using assms by (simp add: armhf_reads_def stack_copy_read read_at_shift)


subsection \<open>Integer arguments\<close>

lemma hf_push_int:
  assumes "armhf_inv s" and "hf_i s < 16 \<or> vec_fits (hf_vec s) 4"
  shows "armhf_inv (a_int_armhf s x)" and "armhf_keeps s (a_int_armhf s x)"
  using assms
  by (auto simp: armhf_inv_def a_int_armhf_def armhf_keeps_def hf_pos_def vec_append_used vec_ok_append
      hf_committed_def)

lemma hf_pop_int:
  assumes "armhf_inv s" and "hf_i s < 16 \<or> vec_fits (hf_vec s) 4"
    and "armhf_keeps (a_int_armhf s x) F" and "armhf_reads caller r F s"
  shows "fst (arm_word r) = x \<and> armhf_reads caller (snd (arm_word r)) F (a_int_armhf s x)"
proof -
  obtain k where k: "hf_i s = 4 * k" using assms(1) by (auto simp: armhf_inv_def)
  show ?thesis
  proof (cases "k < 4")
    case True
    have "read_at (mData (hf_vec F)) (4 * k) 4 = obj_bytes LE 4 x"
      using True k by (intro hf_read_store [OF assms(3)]) (auto simp: a_int_armhf_def)
    then show ?thesis
      using True k assms(4) by (auto simp: arm_word_def armhf_reads_def a_int_armhf_def obj_word_obj_bytes
          dcVecAt_store_def hf_pos_def)
  next
    case False
    then have i: "hf_i s = 16" "k = 4" using k assms(1) by (auto simp: armhf_inv_def)
    then have f: "vec_fits (hf_vec s) 4" using assms(2) by simp
    have v: "hf_vec (a_int_armhf s x) = dcVecAppend (hf_vec s) (obj_bytes LE 4 x)"
      using i by (simp add: a_int_armhf_def)
    have p: "16 \<le> hf_pos s" using assms(1) by (simp add: armhf_inv_def)
    note rd = hf_read_append [OF assms(3) v f _ p [unfolded hf_pos_def]]
    have "read_at (r32_stack r) (hf_pos s - 16) 4 = obj_bytes LE 4 x"
      using hf_stack_read [OF assms(4) p, of 4] rd by (simp add: hf_pos_def)
    then show ?thesis
      using i p f assms(4) by (auto simp: arm_word_def armhf_reads_def a_int_armhf_def obj_word_obj_bytes
          hf_pos_def vec_append_used)
  qed
qed

text \<open>What \<open>dcVecSkip\<close> and \<open>dcVecAppend\<close> do for a value of eight bytes.\<close>

lemma hf_wide_vec:
  assumes "armhf_inv s" and "vec_fits (hf_vec s) 12"
  defines "w \<equiv> dcVecSkip (hf_vec s) (mSize (hf_vec s) AND 4)"
  shows "unat (mSize w) = (if odd (hf_pos s div 4) then hf_pos s + 4 else hf_pos s)"
    and "vec_fits w 8" and "vec_keeps (hf_vec s) w" and "16 \<le> unat (mSize w)" and "4 dvd unat (mSize w)"
proof -
  have d: "4 dvd unat (mSize (hf_vec s))" and p: "16 \<le> hf_pos s"
    using assms(1) by (simp_all add: armhf_inv_def hf_pos_def)
  note w = vec_align4 [where n = 8, simplified, OF assms(2) d, folded w_def, unfolded slot_at_def, simplified]
  show "vec_fits w 8" and "vec_keeps (hf_vec s) w" by (fact w)+
  show u: "unat (mSize w) = (if odd (hf_pos s div 4) then hf_pos s + 4 else hf_pos s)"
    using w(1) by (simp add: hf_pos_def)
  show "16 \<le> unat (mSize w)" and "4 dvd unat (mSize w)" using p d by (auto simp: u hf_pos_def)
qed

lemma hf_wide_append:
  assumes "armhf_inv s" and "vec_fits (hf_vec s) 12"
    and "hf_vec t = dcVecAppend (dcVecSkip (hf_vec s) (mSize (hf_vec s) AND 4)) (obj_bytes LE 8 x)"
  shows "hf_pos t = (if odd (hf_pos s div 4) then hf_pos s + 4 else hf_pos s) + 8" and "4 dvd hf_pos t"
    and "vec_ok (hf_vec t)" and "vec_keeps (hf_vec s) (hf_vec t)"
proof -
  note w = hf_wide_vec [OF assms(1,2)]
  show p: "hf_pos t = (if odd (hf_pos s div 4) then hf_pos s + 4 else hf_pos s) + 8"
    using w(1,2) by (simp add: hf_pos_def assms(3) vec_append_used)
  show "4 dvd hf_pos t" using assms(1) by (auto simp: p armhf_inv_def)
  show "vec_ok (hf_vec t)" using w(2) by (simp add: assms(3) vec_ok_append vec_fits_ok)
  show "vec_keeps (hf_vec s) (hf_vec t)"
    using w(2,3) by (auto simp: assms(3) intro: vec_keeps_trans [OF _ vec_keeps_append])
qed

lemma hf_wide_read:
  assumes "armhf_inv s" and "vec_fits (hf_vec s) 12" and "r32_reg_count r = 4"
    and "hf_vec t = dcVecAppend (dcVecSkip (hf_vec s) (mSize (hf_vec s) AND 4)) (obj_bytes LE 8 x)"
    and "armhf_keeps t F" and "r32_sp r = hf_pos s - 16"
    and "r32_stack r = stack_copy caller (hf_pos F - 16) (\<lambda>j. mData (hf_vec F) (16 + j))"
  shows "arm_longlong True r = (x, r\<lparr>r32_sp := hf_pos t - 16\<rparr>)"
proof -
  note w = hf_wide_vec [OF assms(1,2)]
  let ?q = "if odd (hf_pos s div 4) then hf_pos s + 4 else hf_pos s"
  note rd = hf_read_append [OF assms(5,4) w(2) _ w(4), unfolded w(1), simplified]
  have p: "16 \<le> hf_pos s" "4 dvd hf_pos s" using assms(1) by (simp_all add: armhf_inv_def)
  then obtain k where k: "hf_pos s = 4 * k" "4 \<le> k" by auto
  have odd: "odd ((hf_pos s - 16) div 4) \<longleftrightarrow> odd (hf_pos s div 4)"
  proof -
    have "(4 * k - 16) div 4 = k - 4" by simp
    with k show ?thesis by simp
  qed
  have al: "arm_align_64 True r = r\<lparr>r32_sp := ?q - 16\<rparr>"
    using assms(3,6) p odd by (auto simp: arm_align_64_def Let_def)
  have q: "16 \<le> ?q" "?q + 8 \<le> hf_pos F" using p rd(2) by auto
  have st: "read_at (r32_stack r) (?q - 16 + i) 4 = take 4 (drop i (obj_bytes LE 8 x))" if "i \<le> 4" for i
    using that q read_at_part [of i 4 8 "mData (hf_vec F)" ?q] rd(1)
    by (simp add: assms(7) stack_copy_read read_at_shift)
  have t: "hf_pos t - 16 = ?q - 16 + 8" using hf_wide_append(1) [OF assms(1,2,4)] q by simp
  show ?thesis
    using st [of 0] st [of 4] assms(3)
    by (simp add: arm_longlong_def al arm_word_def t obj_bytes_halves obj_word_obj_bytes)
qed


lemma hf_push_longlong:
  assumes "armhf_inv s" and "hf_i s < 12 \<or> vec_fits (hf_vec s) 12"
  shows "armhf_inv (a_longlong_armhf s x)" and "armhf_keeps s (a_longlong_armhf s x)"
proof -
  obtain k where k: "hf_i s = 4 * k" "k \<le> 4" using assms(1) by (auto simp: armhf_inv_def)
  have c: "hf_counters (hf_s s) (hf_d s)" "4 dvd hf_pos s" "16 \<le> hf_pos s" "vec_ok (hf_vec s)" "mVTpointer s = vt_armhf"
    using assms(1) by (simp_all add: armhf_inv_def)
  have kc: "k = 0 \<or> k = 1 \<or> k = 2 \<or> k = 3 \<or> k = 4" using k(2) by linarith
  show "armhf_inv (a_longlong_armhf s x)"
  proof (cases "k < 3")
    case True
    with kc k c show ?thesis by (auto simp: armhf_inv_def a_longlong_armhf_def hf_pos_def)
  next
    case False
    then have f: "vec_fits (hf_vec s) 12" using assms(2) k by auto
    from False kc k have v: "hf_vec (a_longlong_armhf s x) =
        dcVecAppend (dcVecSkip (hf_vec s) (mSize (hf_vec s) AND 4)) (obj_bytes LE 8 x)"
      by (auto simp: a_longlong_armhf_def)
    from False kc k c hf_wide_append [OF assms(1) f v] show ?thesis
      by (auto simp: armhf_inv_def a_longlong_armhf_def)
  qed
  show "armhf_keeps s (a_longlong_armhf s x)"
  proof (cases "k < 3")
    case True
    with kc k c show ?thesis
      by (auto simp: armhf_keeps_def a_longlong_armhf_def hf_pos_def hf_committed_def)
  next
    case False
    then have f: "vec_fits (hf_vec s) 12" using assms(2) k by auto
    from False kc k have v: "hf_vec (a_longlong_armhf s x) =
        dcVecAppend (dcVecSkip (hf_vec s) (mSize (hf_vec s) AND 4)) (obj_bytes LE 8 x)"
      by (auto simp: a_longlong_armhf_def)
    have i: "hf_i (a_longlong_armhf s x) = 16" using False kc k by (auto simp: a_longlong_armhf_def)
    have S: "hf_S (a_longlong_armhf s x) = hf_S s" "hf_s (a_longlong_armhf s x) = hf_s s"
        "hf_d (a_longlong_armhf s x) = hf_d s" by (simp_all add: a_longlong_armhf_def Let_def)
    from k c hf_wide_append(4) [OF assms(1) f v] show ?thesis
      by (auto simp: armhf_keeps_def i S hf_committed_def vec_keeps_def hf_pos_def)
  qed
qed

lemma hf_pop_longlong:
  assumes "armhf_inv s" and "hf_i s < 12 \<or> vec_fits (hf_vec s) 12"
    and "armhf_keeps (a_longlong_armhf s x) F" and "armhf_reads caller r F s"
  shows "fst (arm_longlong True r) = x \<and> armhf_reads caller (snd (arm_longlong True r)) F (a_longlong_armhf s x)"
proof -
  obtain k where k: "hf_i s = 4 * k" "k \<le> 4" using assms(1) by (auto simp: armhf_inv_def)
  have kc: "k = 0 \<or> k = 1 \<or> k = 2 \<or> k = 3 \<or> k = 4" using k(2) by linarith
  have r: "r32_reg_count r = k" "r32_sp r = hf_pos s - 16"
      "r32_stack r = stack_copy caller (hf_pos F - 16) (\<lambda>j. mData (hf_vec F) (16 + j))"
      "r32_reg_data r = (\<lambda>i. obj_word LE (read_at (mData (hf_vec F)) (4 * i) 4))"
    using assms(4) k by (simp_all add: armhf_reads_def)
  show ?thesis
  proof (cases "k < 3")
    case True
    let ?i = "(4 * k + 4) div 8 * 8"
    have i: "?i = 0 \<or> ?i = 8" using True kc by auto
    have "read_at (mData (hf_vec F)) ?i 8 = obj_bytes LE 8 x"
      using i k by (intro hf_read_store [OF assms(3)]) (auto simp: a_longlong_armhf_def)
    then have "obj_word LE (read_at (mData (hf_vec F)) ?i 4) = lo_word x"
      and "obj_word LE (read_at (mData (hf_vec F)) (?i + 4) 4) = hi_word x"
      using read_at_part [of 0 4 8 "mData (hf_vec F)" ?i] read_at_part [of 4 4 8 "mData (hf_vec F)" ?i]
      by (simp_all add: obj_bytes_halves obj_word_obj_bytes)
    then show ?thesis
      using assms(4) True kc k
      by (auto simp: arm_longlong_def arm_align_64_def arm_word_def r a_longlong_armhf_def armhf_reads_def hf_pos_def)
  next
    case False
    then have f: "vec_fits (hf_vec s) 12" using assms(2) k by auto
    let ?r = "r\<lparr>r32_reg_count := 4\<rparr>"
    have al: "arm_longlong True r = arm_longlong True ?r"
    proof -
      have "k = 3 \<or> k = 4" using False kc by auto
      then have "arm_align_64 True r = arm_align_64 True ?r" by (auto simp: arm_align_64_def r)
      then show ?thesis by (simp add: arm_longlong_def)
    qed
    from False kc k have v: "hf_vec (a_longlong_armhf s x) =
        dcVecAppend (dcVecSkip (hf_vec s) (mSize (hf_vec s) AND 4)) (obj_bytes LE 8 x)"
      by (auto simp: a_longlong_armhf_def)
    have "arm_longlong True ?r = (x, ?r\<lparr>r32_sp := hf_pos (a_longlong_armhf s x) - 16\<rparr>)"
      using r by (intro hf_wide_read [OF assms(1) f _ v assms(3)]) simp_all
    with assms(4) False kc k show ?thesis
      by (auto simp: al armhf_reads_def a_longlong_armhf_def)
  qed
qed


subsection \<open>Floating point arguments\<close>

text \<open>The next counters: after a single, after a double.\<close>

lemma hf_counters_float:
  assumes "hf_counters s d" and "s < 16"
  shows "if d < Suc s then even s \<and> s = d \<and> hf_counters (Suc s) (s + 2) \<and> (Suc s + 1) div 2 * 2 = s + 2
         else odd s \<and> hf_counters d d"
proof (cases "even s")
  case True
  then obtain k where "s = 2 * k" by auto
  with assms show ?thesis by (auto simp: hf_counters_def)
qed (use assms in \<open>auto simp: hf_counters_def\<close>)

lemma hf_counters_double:
  assumes "hf_counters s d" and "d < 16"
  shows "if even s then hf_counters (d + 2) (d + 2) else hf_counters s (d + 2)"
proof -
  from assms obtain k where "d = 2 * k" by (auto simp: hf_counters_def)
  with assms show ?thesis by (auto simp: hf_counters_def)
qed

lemma hf_full: "hf_counters s d \<Longrightarrow> 16 \<le> d \<Longrightarrow> d = 16 \<and> hf_counters 16 16"
  by (simp add: hf_counters_def)

lemma a_float_regs:
  assumes "hf_s s < 16"
  shows "a_float_armhf s x =
    (if hf_d s < Suc (hf_s s)
     then s\<lparr>hf_S := (hf_S s)(hf_s s := x), hf_s := Suc (hf_s s), hf_d := (Suc (hf_s s) + 1) div 2 * 2\<rparr>
     else s\<lparr>hf_S := (hf_S s)(hf_s s := x), hf_s := hf_d s\<rparr>)"
  using assms by (simp add: a_float_armhf_def Let_def)

lemma hf_push_float:
  assumes "armhf_inv s" and "hf_s s < 16 \<or> hf_i s = 16 \<and> vec_fits (hf_vec s) 4"
  shows "armhf_inv (a_float_armhf s x)" and "armhf_keeps s (a_float_armhf s x)"
proof -
  have c: "hf_counters (hf_s s) (hf_d s)" using assms(1) by (simp add: armhf_inv_def)
  show "armhf_inv (a_float_armhf s x)"
  proof (cases "hf_s s < 16")
    case True
    with hf_counters_float [OF c True] assms(1) show ?thesis
      by (auto simp: a_float_regs armhf_inv_def hf_pos_def split: if_splits)
  next
    case False
    with assms show ?thesis
      by (auto simp: a_float_armhf_def armhf_inv_def hf_pos_def vec_append_used vec_ok_append)
  qed
  show "armhf_keeps s (a_float_armhf s x)"
  proof (cases "hf_s s < 16")
    case True
    with hf_counters_float [OF c True] show ?thesis
      by (auto simp: a_float_regs armhf_keeps_def hf_pos_def hf_committed_def split: if_splits)
  next
    case False
    have "16 \<le> unat (mSize (hf_vec s))" using assms(1) by (simp add: armhf_inv_def hf_pos_def)
    with False assms(2) show ?thesis
      by (auto simp: a_float_armhf_def armhf_keeps_def hf_pos_def vec_append_used hf_committed_def)
  qed
qed

lemma hf_pop_float:
  assumes "armhf_inv s" and "hf_s s < 16 \<or> hf_i s = 16 \<and> vec_fits (hf_vec s) 4"
    and "armhf_keeps (a_float_armhf s x) F" and "armhf_reads caller r F s"
  shows "fst (arm_float_hf r) = x \<and> armhf_reads caller (snd (arm_float_hf r)) F (a_float_armhf s x)"
proof (cases "hf_s s < 16")
  case True
  have c: "hf_counters (hf_s s) (hf_d s)" using assms(1) by (simp add: armhf_inv_def)
  note nx = hf_counters_float [OF c True]
  have "hf_committed (a_float_armhf s x) (hf_s s)" "hf_S (a_float_armhf s x) (hf_s s) = x"
    using nx True by (auto simp: a_float_regs hf_committed_def hf_counters_def split: if_splits)
  then have S: "hf_S F (hf_s s) = x" using assms(3) by (simp add: armhf_keeps_def)
  show ?thesis
  proof (cases "hf_d s < Suc (hf_s s)")
    case even: True
    with nx S True assms(4) show ?thesis
      by (auto simp: arm_float_hf_def Let_def armhf_reads_def a_float_regs hf_pos_def)
  next
    case False
    then have od: "odd (hf_s s)" "hf_s s < hf_d s" "even (hf_d s)" using nx c by (auto simp: hf_counters_def)
    then obtain k where "hf_s s = 2 * k + 1" by (auto elim: oddE)
    with od False S True assms(4) show ?thesis
      by (auto simp: arm_float_hf_def Let_def armhf_reads_def a_float_regs hf_pos_def)
  qed
next
  case False
  then have f: "hf_i s = 16" "vec_fits (hf_vec s) 4" using assms(2) by auto
  have p: "16 \<le> hf_pos s" using assms(1) by (simp add: armhf_inv_def)
  have v: "hf_vec (a_float_armhf s x) = dcVecAppend (hf_vec s) (obj_bytes LE 4 x)"
    using False by (simp add: a_float_armhf_def)
  note rd = hf_read_append [OF assms(3) v f(2) _ p [unfolded hf_pos_def]]
  have "read_at (r32_stack r) (hf_pos s - 16) 4 = obj_bytes LE 4 x"
    using hf_stack_read [OF assms(4) p, of 4] rd by (simp add: hf_pos_def)
  then show ?thesis
    using False f p assms(4)
    by (auto simp: arm_float_hf_def arm_word_def armhf_reads_def a_float_armhf_def obj_word_obj_bytes
        hf_pos_def vec_append_used)
qed

lemma a_double_regs:
  assumes "hf_d s < 16"
  shows "a_double_armhf s x =
    (if even (hf_s s)
     then s\<lparr>hf_S := (hf_S s)(hf_d s := lo_word x, hf_d s + 1 := hi_word x), hf_d := hf_d s + 2, hf_s := hf_d s + 2\<rparr>
     else s\<lparr>hf_S := (hf_S s)(hf_d s := lo_word x, hf_d s + 1 := hi_word x), hf_d := hf_d s + 2\<rparr>)"
  using assms by (simp add: a_double_armhf_def Let_def)

lemma hf_push_double:
  assumes "armhf_inv s" and "hf_d s < 16 \<or> hf_i s = 16 \<and> vec_fits (hf_vec s) 12"
  shows "armhf_inv (a_double_armhf s x)" and "armhf_keeps s (a_double_armhf s x)"
proof -
  have c: "hf_counters (hf_s s) (hf_d s)" using assms(1) by (simp add: armhf_inv_def)
  have "armhf_inv (a_double_armhf s x) \<and> armhf_keeps s (a_double_armhf s x)"
  proof (cases "hf_d s < 16")
    case True
    with hf_counters_double [OF c True] c assms(1) show ?thesis
      by (auto simp: a_double_regs armhf_inv_def hf_pos_def armhf_keeps_def hf_committed_def hf_counters_def
          split: if_splits)
  next
    case False
    then have f: "vec_fits (hf_vec s) 12" using assms(2) by simp
    let ?t = "a_double_armhf s x"
    have v: "hf_vec ?t = dcVecAppend (dcVecSkip (hf_vec s) (mSize (hf_vec s) AND 4)) (obj_bytes LE 8 x)"
      and o: "hf_i ?t = hf_i s" "hf_S ?t = hf_S s" "hf_d ?t = hf_d s" "hf_s ?t = 16" "mVTpointer ?t = mVTpointer s"
      using False by (simp_all add: a_double_armhf_def)
    note w = hf_wide_append [OF assms(1) f v]
    have i: "armhf_inv ?t"
      using assms(1) hf_full [OF c] False w by (simp add: armhf_inv_def o)
    have "hf_i s \<le> unat (mSize (hf_vec s))" using assms(1) by (simp add: armhf_inv_def hf_pos_def)
    then have "armhf_keeps s ?t"
      using w(4) hf_full [OF c] False by (auto simp: armhf_keeps_def o hf_committed_def vec_keeps_def hf_pos_def)
    with i show ?thesis ..
  qed
  then show "armhf_inv (a_double_armhf s x)" and "armhf_keeps s (a_double_armhf s x)" by simp_all
qed

lemma hf_pop_double:
  assumes "armhf_inv s" and "hf_d s < 16 \<or> hf_i s = 16 \<and> vec_fits (hf_vec s) 12"
    and "armhf_keeps (a_double_armhf s x) F" and "armhf_reads caller r F s"
  shows "fst (arm_double_hf r) = x \<and> armhf_reads caller (snd (arm_double_hf r)) F (a_double_armhf s x)"
proof -
  have c: "hf_counters (hf_s s) (hf_d s)" using assms(1) by (simp add: armhf_inv_def)
  then have le: "hf_s s \<le> 16" by (simp add: hf_counters_def)
  let ?r = "r\<lparr>dreg_count := hf_d s\<rparr>"
  have sync: "(if dreg_count r < freg_count r
      then r\<lparr>dreg_count := (freg_count r + 1) div 2 * 2 mod 32\<rparr> else r) = ?r"
  proof (cases "dreg_count r < freg_count r")
    case True
    have "hf_d s = (hf_s s + 1) div 2 * 2"
      using True assms(4) c by (auto simp: armhf_reads_def hf_counters_def split: if_splits)
    with True le assms(4) show ?thesis by (simp add: armhf_reads_def)
  qed (use assms(4) in \<open>auto simp: armhf_reads_def\<close>)
  show ?thesis
  proof (cases "hf_d s < 16")
    case True
    have "hf_committed (a_double_armhf s x) (hf_d s)" "hf_committed (a_double_armhf s x) (hf_d s + 1)"
      "hf_S (a_double_armhf s x) (hf_d s) = lo_word x" "hf_S (a_double_armhf s x) (hf_d s + 1) = hi_word x"
      using c True by (auto simp: a_double_regs hf_committed_def hf_counters_def split: if_splits)
    then have "hf_S F (hf_d s) = lo_word x" "hf_S F (hf_d s + 1) = hi_word x"
      using assms(3) by (simp_all add: armhf_keeps_def)
    with True c assms(4) show ?thesis
      unfolding arm_double_hf_def sync
      by (auto simp: Let_def armhf_reads_def a_double_regs hf_pos_def hf_counters_def)
  next
    case False
    then have f: "hf_i s = 16" "vec_fits (hf_vec s) 12" using assms(2) by simp_all
    have v: "hf_vec (a_double_armhf s x) =
        dcVecAppend (dcVecSkip (hf_vec s) (mSize (hf_vec s) AND 4)) (obj_bytes LE 8 x)"
      using False by (simp add: a_double_armhf_def)
    have "arm_longlong True (?r\<lparr>freg_count := 16\<rparr>)
        = (x, ?r\<lparr>freg_count := 16, r32_sp := hf_pos (a_double_armhf s x) - 16\<rparr>)"
      using hf_wide_read [OF assms(1) f(2) _ v assms(3), of "?r\<lparr>freg_count := 16\<rparr>" caller] assms(4) f
      by (simp add: armhf_reads_def)
    with False f hf_full [OF c] assms(4) show ?thesis
      unfolding arm_double_hf_def sync
      by (auto simp: Let_def armhf_reads_def a_double_armhf_def)
  qed
qed


subsection \<open>The contract and where it ends\<close>

lemmas armhf_arg_defs = a_bool_armhf_def a_char_armhf_def a_short_armhf_def a_long_armhf_def a_pointer_armhf_def

interpretation armhf: arg_transport_rel "dcArg (vtab_armhf cs)" armhf_fits armhf_inv armhf_keeps
  "armhf_reads caller" dcbArg_armhf arg_ty bool01
  for cs caller
proof unfold_locales
  fix s F r and a :: "(u32, u32) dcarg"
  assume inv: "armhf_inv s" and fit: "armhf_fits s a"
  then have vt: "mVTpointer s = vt_armhf" by (simp add: armhf_inv_def)
  show "armhf_inv (dcArg (vtab_armhf cs) s a)"
    using inv fit vt
    by (cases a) (simp_all add: armhf_arg_defs hf_push_int hf_push_longlong hf_push_float hf_push_double)
  show "armhf_keeps s (dcArg (vtab_armhf cs) s a)"
    using inv fit vt
    by (cases a) (simp_all add: armhf_arg_defs hf_push_int hf_push_longlong hf_push_float hf_push_double)
  assume k: "armhf_keeps (dcArg (vtab_armhf cs) s a) F" and r: "armhf_reads caller r F s"
  note pops = hf_pop_int [OF inv _ _ r] hf_pop_longlong [OF inv _ _ r]
    hf_pop_float [OF inv _ _ r] hf_pop_double [OF inv _ _ r]
  show "fst (dcbArg_armhf r (arg_ty a)) = bool01 a \<and>
      armhf_reads caller (snd (dcbArg_armhf r (arg_ty a))) F (dcArg (vtab_armhf cs) s a)"
    using fit vt k
    by (cases a) (auto simp: armhf_arg_defs pops ucast_scast_trunc ucast_ucast_trunc)
qed (auto intro: armhf_keeps_refl armhf_keeps_trans)

lemma dcReset_armhf: "dcReset (vtab_armhf cs) vm = reset_armhf vm"
  by (cases "mVTpointer vm") (simp_all add: dcReset_def)

lemma dcCall_armhf: "dcCall (vtab_armhf cs) c vm target = call_armhf vm target"
  by (cases "mVTpointer vm") (simp_all add: dcCall_def)

text \<open>C20: On ARM with hard float the two register counters of the call VM and of the argument reader agree on every
  mix of floats and doubles, back-filled gaps included: every argument list passed after \<open>dcReset\<close> is
  read back, if each argument fits (for a float or double that goes to the
  stack: if the integer registers are used up).\<close>

theorem armhf_arguments_arrive:
  assumes "16 \<le> unat (mTotal (hf_vec vm))" and "mVTpointer vm = vt_armhf"
    and "fits_all (dcArg (vtab_armhf cs)) armhf_fits (dcReset (vtab_armhf cs) vm) xs"
  shows "fst (pop_all dcbArg_armhf
            (entry_armhf caller (snd (dcCall (vtab_armhf cs) c
               (dcArgs (vtab_armhf cs) (dcReset (vtab_armhf cs) vm) xs) target)))
            (map arg_ty xs)) = map bool01 xs"
proof -
  let ?s = "reset_armhf vm"
  have "(16 :: u32) \<le> mTotal (hf_vec vm)" using assms(1) by (simp add: word_le_nat_alt)
  then have inv: "armhf_inv ?s"
    using assms(2) by (simp add: armhf_inv_def reset_armhf_def hf_counters_def hf_pos_def dcVecResize_def vec_ok_def)
  have "armhf_reads caller (entry_armhf caller (snd (call_armhf (dcArgs (vtab_armhf cs) ?s xs) target)))
      (dcArgs (vtab_armhf cs) ?s xs) ?s"
    by (simp add: armhf_reads_def entry_armhf_def call_armhf_def reset_armhf_def hf_pos_def dcVecResize_def)
  then show ?thesis
    using armhf.rel_round_trip [OF inv assms(3) [unfolded dcReset_armhf]]
    by (simp add: dcReset_armhf dcCall_armhf push_all_dcArgs)
qed

definition armhf_blank :: "u32 \<Rightarrow> DCCallVM_armhf" where
  "armhf_blank cap =
     \<lparr>mVTpointer = vt_armhf, mError = 0, hf_i = 0, hf_s = 0, hf_d = 0, hf_S = (\<lambda>_. 0), hf_mpCallFunc = 0,
      hf_vec = \<lparr>mTotal = cap, mSize = 0, mData = (\<lambda>_. 0)\<rparr>\<rparr>"

lemma armhf_arguments_arrive_witness:
  "fst (pop_all dcbArg_armhf
      (entry_armhf (\<lambda>_. 0) (snd (dcCall (vtab_armhf False) callVoid
         (dcArgs (vtab_armhf False) (dcReset (vtab_armhf False) (armhf_blank 64))
            [AFloat 1, ADouble 2, AInt 3, AFloat 4]) 4096)))
      [TFloat, TDouble, TInt, TFloat]) = [AFloat 1, ADouble 2, AInt 3, AFloat 4]"
  using armhf_arguments_arrive [of "armhf_blank 64" False "[AFloat 1, ADouble 2, AInt 3, AFloat 4]" "\<lambda>_. 0" callVoid 4096]
  by (simp add: armhf_blank_def dcReset_armhf reset_armhf_def a_float_armhf_def a_double_armhf_def a_int_armhf_def Let_def)

text \<open>Nine doubles: eight fill the float registers, the call VM appends the ninth to the stack arguments,
  where the ABI has it; the reader looks for it in the unused integer registers and
  returns what they hold.\<close>

lemma armhf_ninth_double_lost:
  "fst (pop_all dcbArg_armhf
      (entry_armhf (\<lambda>_. 0) (snd (dcCall (vtab_armhf False) callVoid
         (dcArgs (vtab_armhf False) (dcReset (vtab_armhf False) (armhf_blank 64)) (replicate 9 (ADouble 1))) 4096)))
      (replicate 9 TDouble)) = replicate 8 (ADouble 1) @ [ADouble 0]"
  by code_simp

end
