(* ===== verification/Vm_Sparc32.thy ===== *)
theory Vm_Sparc32
  imports Dyn_Flat
begin

section \<open>SPARC 32: call VM and argument reader\<close>

text \<open>
  \<open>dyncall/dyncall/dyncall_callvm_sparc.{h,c}\<close> with the kernel \<open>dyncall_call_sparc.s\<close>, which reads the
  VM itself, and \<open>dyncall/dyncallback/dyncall_args_sparc32.{h,c}\<close> with the entry in
  \<open>dyncall_callback_sparc32.s\<close>. Big endian; all arguments go to the vector, the kernel loads the
  first six words of it into registers and copies the others, and the entry of a callback spills
  the registers in front of them.
\<close>

datatype vt_sparc = gVT_sparc

record DCCallVM_sparc = "vt_sparc DCCallVM" +
  sp_vec :: "u32 vec"

definition dc_callvm_free_sparc :: "DCCallVM_sparc \<Rightarrow> DCCallVM_sparc handle" where
  "dc_callvm_free_sparc self = Freed"

definition dc_callvm_reset_sparc :: "DCCallVM_sparc \<Rightarrow> DCCallVM_sparc" where
  "dc_callvm_reset_sparc self = self\<lparr>sp_vec := dcVecReset (sp_vec self)\<rparr>"

definition dc_callvm_argInt_sparc :: "DCCallVM_sparc \<Rightarrow> u32 \<Rightarrow> DCCallVM_sparc" where
  "dc_callvm_argInt_sparc self x = self\<lparr>sp_vec := dcVecAppend (sp_vec self) (obj_bytes BE 4 x)\<rparr>"

definition dc_callvm_argBool_sparc :: "DCCallVM_sparc \<Rightarrow> u32 \<Rightarrow> DCCallVM_sparc" where
  "dc_callvm_argBool_sparc self x = dc_callvm_argInt_sparc self x"

definition dc_callvm_argChar_sparc :: "DCCallVM_sparc \<Rightarrow> u8 \<Rightarrow> DCCallVM_sparc" where
  "dc_callvm_argChar_sparc self x = dc_callvm_argInt_sparc self (scast x)"

definition dc_callvm_argShort_sparc :: "DCCallVM_sparc \<Rightarrow> u16 \<Rightarrow> DCCallVM_sparc" where
  "dc_callvm_argShort_sparc self x = dc_callvm_argInt_sparc self (scast x)"

definition dc_callvm_argPointer_sparc :: "DCCallVM_sparc \<Rightarrow> u32 \<Rightarrow> DCCallVM_sparc" where
  "dc_callvm_argPointer_sparc self x = self\<lparr>sp_vec := dcVecAppend (sp_vec self) (obj_bytes BE 4 x)\<rparr>"

definition dc_callvm_argLong_sparc :: "DCCallVM_sparc \<Rightarrow> u32 \<Rightarrow> DCCallVM_sparc" where
  "dc_callvm_argLong_sparc self x = self\<lparr>sp_vec := dcVecAppend (sp_vec self) (obj_bytes BE 4 x)\<rparr>"

definition dc_callvm_argLongLong_sparc :: "DCCallVM_sparc \<Rightarrow> u64 \<Rightarrow> DCCallVM_sparc" where
  "dc_callvm_argLongLong_sparc self x = self\<lparr>sp_vec := dcVecAppend (sp_vec self) (obj_bytes BE 8 x)\<rparr>"

definition dc_callvm_argFloat_sparc :: "DCCallVM_sparc \<Rightarrow> u32 \<Rightarrow> DCCallVM_sparc" where
  "dc_callvm_argFloat_sparc self x = self\<lparr>sp_vec := dcVecAppend (sp_vec self) (obj_bytes BE 4 x)\<rparr>"

definition dc_callvm_argDouble_sparc :: "DCCallVM_sparc \<Rightarrow> u64 \<Rightarrow> DCCallVM_sparc" where
  "dc_callvm_argDouble_sparc self x = self\<lparr>sp_vec := dcVecAppend (sp_vec self) (obj_bytes BE 8 x)\<rparr>"

definition dc_callvm_mode_sparc :: "DCCallVM_sparc \<Rightarrow> u32 \<Rightarrow> DCCallVM_sparc" where
  "dc_callvm_mode_sparc self mode =
     (if mode \<in> {DC_CALL_C_DEFAULT, DC_CALL_C_DEFAULT_THIS, DC_CALL_C_SPARC32, DC_CALL_C_ELLIPSIS,
                 DC_CALL_C_ELLIPSIS_VARARGS}
      then dc_callvm_base_init self gVT_sparc
      else self\<lparr>mError := DC_ERROR_UNSUPPORTED_MODE\<rparr>)"

text \<open>The table enters the kernel with the VM and the target.\<close>

fun vtab_sparc :: "vt_sparc \<Rightarrow> (DCCallVM_sparc, u32, u32, DCCallVM_sparc \<times> u32) DCCallVM_vt" where
  "vtab_sparc gVT_sparc =
     \<lparr>vt_free = dc_callvm_free_sparc, vt_reset = dc_callvm_reset_sparc, vt_mode = dc_callvm_mode_sparc,
      vt_argBool = dc_callvm_argBool_sparc, vt_argChar = dc_callvm_argChar_sparc,
      vt_argShort = dc_callvm_argShort_sparc, vt_argInt = dc_callvm_argInt_sparc,
      vt_argLong = dc_callvm_argLong_sparc, vt_argLongLong = dc_callvm_argLongLong_sparc,
      vt_argFloat = dc_callvm_argFloat_sparc, vt_argDouble = dc_callvm_argDouble_sparc,
      vt_argPointer = dc_callvm_argPointer_sparc, vt_argAggr = None,
      vt_call = (\<lambda>_ vm target. (vm, (vm, target))), vt_callAggr = None, vt_beginAggr = None\<rparr>"

text \<open>\<open>dcNewCallVM\<close> on memory with the contents \<open>p\<close>; the kernel always loads six words, so at least
  seven are allocated.\<close>

definition dcNewCallVM_sparc :: "DCCallVM_sparc \<Rightarrow> u32 \<Rightarrow> DCCallVM_sparc" where
  "dcNewCallVM_sparc p sz =
     (let sz = max sz (4 * (6 + 1)); p = dc_callvm_mode_sparc p DC_CALL_C_DEFAULT
      in p\<lparr>sp_vec := dcVecInit (sp_vec p) sz\<rparr>)"

subsection \<open>The reader\<close>

text \<open>\<open>rs_ptr\<close> is the offset of \<open>arg_ptr\<close> from the spilled first argument, \<open>rs_mem\<close> the memory from there.\<close>

record DCArgs_sparc32 =
  rs_ptr :: nat
  rs_mem :: mem

definition sparc_word :: "DCArgs_sparc32 \<Rightarrow> u32 \<times> DCArgs_sparc32" where
  "sparc_word args = (obj_word BE (read_at (rs_mem args) (rs_ptr args) 4), args\<lparr>rs_ptr := rs_ptr args + 4\<rparr>)"

text \<open>The two words are copied to an aligned union.\<close>

definition sparc_dword :: "DCArgs_sparc32 \<Rightarrow> u64 \<times> DCArgs_sparc32" where
  "sparc_dword args =
     (let l0 = obj_word BE (read_at (rs_mem args) (rs_ptr args) 4);
          l1 = obj_word BE (read_at (rs_mem args) (rs_ptr args + 4) 4)
      in (join_words l0 l1, args\<lparr>rs_ptr := rs_ptr args + 8\<rparr>))"

fun dcbArg_sparc32 :: "DCArgs_sparc32 \<Rightarrow> dcty \<Rightarrow> (u32, u32) dcarg \<times> DCArgs_sparc32" where
  "dcbArg_sparc32 p TBool = map_prod ABool id (sparc_word p)"
| "dcbArg_sparc32 p TChar = map_prod (\<lambda>x. AChar (ucast x)) id (sparc_word p)"
| "dcbArg_sparc32 p TShort = map_prod (\<lambda>x. AShort (ucast x)) id (sparc_word p)"
| "dcbArg_sparc32 p TInt = map_prod AInt id (sparc_word p)"
| "dcbArg_sparc32 p TLong = map_prod ALong id (sparc_word p)"
| "dcbArg_sparc32 p TLongLong = map_prod ALongLong id (sparc_dword p)"
| "dcbArg_sparc32 p TFloat = map_prod AFloat id (sparc_word p)"
| "dcbArg_sparc32 p TDouble = map_prod ADouble id (sparc_dword p)"
| "dcbArg_sparc32 p TPointer = map_prod APointer id (sparc_word p)"

text \<open>The kernel loads six words whatever the size; the others are copied as long as the size that is left,
  as a signed number, is positive.\<close>

definition sparc_registers :: "DCCallVM_sparc \<Rightarrow> nat \<Rightarrow> u32" where
  "sparc_registers vm i = obj_word BE (read_at (mData (sp_vec vm)) (4 * i) 4)"

definition sparc_stack_words :: "DCCallVM_sparc \<Rightarrow> nat" where
  "sparc_stack_words vm =
     (if mSize (sp_vec vm) - 24 \<le>s 0 then 0 else (unat (mSize (sp_vec vm) - 24) + 3) div 4)"

definition entry_sparc :: "mem \<Rightarrow> DCCallVM_sparc \<Rightarrow> DCArgs_sparc32" where
  "entry_sparc caller vm =
     \<lparr>rs_ptr = 0,
      rs_mem = (\<lambda>j. if j < 24 then obj_bytes BE 4 (sparc_registers vm (j div 4)) ! (j mod 4)
                    else stack_copy caller (24 + 4 * sparc_stack_words vm) (mData (sp_vec vm)) j)\<rparr>"

subsection \<open>The round trip\<close>

lemmas sparc_op_defs =
  dc_callvm_argInt_sparc_def dc_callvm_argBool_sparc_def dc_callvm_argChar_sparc_def dc_callvm_argShort_sparc_def
  dc_callvm_argPointer_sparc_def dc_callvm_argLong_sparc_def dc_callvm_argLongLong_sparc_def
  dc_callvm_argFloat_sparc_def dc_callvm_argDouble_sparc_def

lemma dcArg_sparc: "dcArg vtab_sparc s a = s\<lparr>sp_vec := vec_slot False (flat_bytes True BE a) (sp_vec s)\<rparr>"
  by (cases "mVTpointer s"; cases a) (simp_all add: sparc_op_defs vec_slot_def)

lemma sparc_spilled: "j < 24 \<Longrightarrow> rs_mem (entry_sparc caller vm) j = mData (sp_vec vm) j"
proof -
  assume "j < 24"
  moreover have "4 * (j div 4) + j mod 4 = j" by simp
  moreover have "j mod 4 < 4" by simp
  ultimately show ?thesis
    by (simp add: entry_sparc_def sparc_registers_def obj_bytes_obj_word read_at_def)
qed

lemma sparc_frame:
  assumes "flat_ok (sp_vec vm)" and "j < unat (mSize (sp_vec vm))"
  shows "rs_mem (entry_sparc caller vm) j = mData (sp_vec vm) j"
proof (cases "j < 24")
  case False
  let ?n = "mSize (sp_vec vm)"
  have b: "unat ?n < 2 ^ 31" using assms(1) by (simp add: flat_ok_def vec_size_small)
  have u: "unat (?n - 24) = unat ?n - 24"
    using False assms(2) by (simp add: unat_sub_if')
  have "unat (?n - 24) < 2 ^ (LENGTH(32) - 1)" using b u by simp
  then have "unat ?n \<le> 24 + 4 * sparc_stack_words vm"
    using u by (auto simp: sparc_stack_words_def sle_0_small)
  with False assms(2) show ?thesis by (simp add: entry_sparc_def stack_copy_def)
qed (simp add: sparc_spilled)

lemma sparc_read:
  assumes "flat_ok (sp_vec F)" and "q + n \<le> unat (mSize (sp_vec F))"
  shows "read_at (rs_mem (entry_sparc caller F)) q n = read_at (mData (sp_vec F)) q n"
  by (rule read_at_cong) (use assms in \<open>simp add: sparc_frame\<close>)

interpretation sparc: flat_transport "dcArg vtab_sparc" sp_vec "\<lambda>_. True" "\<lambda>_. False" "flat_bytes True BE"
  "\<lambda>F p. (entry_sparc caller F)\<lparr>rs_ptr := p\<rparr>" dcbArg_sparc32 arg_ty "\<lambda>a. a" 0
  for caller
proof unfold_locales
  fix F :: DCCallVM_sparc and p q and a :: "(u32, u32) dcarg"
  let ?n = "length (flat_bytes True BE a)"
  assume "flat_ok (sp_vec F)" and q: "q = slot_at False p" and "q + ?n \<le> unat (mSize (sp_vec F))"
    and "read_at (mData (sp_vec F)) q ?n = flat_bytes True BE a"
  then have rd: "read_at (rs_mem (entry_sparc caller F)) p ?n = flat_bytes True BE a"
    by (simp add: sparc_read slot_at_def)
  show "dcbArg_sparc32 ((entry_sparc caller F)\<lparr>rs_ptr := p\<rparr>) (arg_ty a) = (a, (entry_sparc caller F)\<lparr>rs_ptr := q + ?n\<rparr>)"
  proof (cases "is_wide a")
    case True
    with rd q show ?thesis
      by (cases a) (simp_all add: sparc_dword_def slot_at_def read_halves)
  next
    case False
    with rd q show ?thesis
      by (cases a) (simp_all add: sparc_word_def slot_at_def obj_word_obj_bytes ucast_scast_trunc)
  qed
qed (simp_all add: dcArg_sparc length_flat_bytes)

lemma dcReset_sparc: "dcReset vtab_sparc vm = dc_callvm_reset_sparc vm"
  by (cases "mVTpointer vm") (simp add: dcReset_def)

lemma dcCall_sparc: "dcCall vtab_sparc c vm target = (vm, (vm, target))"
  by (cases "mVTpointer vm") (simp add: dcCall_def)

text \<open>On SPARC 32 every list of scalar arguments that a program passes after \<open>dcReset\<close> is what the handler of
  a callback reads, with the six words in registers and the rest on the stack, and a 64 bit value
  that is split between both.\<close>

lemma sparc_arguments_arrive:
  assumes "unat (mTotal (sp_vec vm)) < 2 ^ 31"
    and "sum_list (map (word_cost False) xs) \<le> unat (mTotal (sp_vec vm))"
    and "snd (dcCall vtab_sparc c (dcArgs vtab_sparc (dcReset vtab_sparc vm) xs) target) = (F, t)"
  shows "fst (pop_all dcbArg_sparc32 (entry_sparc caller F) (map arg_ty xs)) = xs"
proof -
  have "fst (pop_all dcbArg_sparc32
      ((entry_sparc caller (push_all (dcArg vtab_sparc) (dcReset vtab_sparc vm) xs))\<lparr>rs_ptr := 0\<rparr>)
      (map arg_ty xs)) = map (\<lambda>a. a) xs"
    by (rule sparc.flat_round_trip)
      (use assms slot_cost_flat [of False _ True BE] in \<open>simp_all add: dcReset_sparc dc_callvm_reset_sparc_def dcVecReset_def\<close>)
  moreover have "F = push_all (dcArg vtab_sparc) (dcReset vtab_sparc vm) xs"
    using assms(3) by (simp add: dcCall_sparc push_all_dcArgs)
  ultimately show ?thesis by (simp add: entry_sparc_def)
qed

definition sparc_blank :: "u32 \<Rightarrow> DCCallVM_sparc" where
  "sparc_blank cap = \<lparr>mVTpointer = gVT_sparc, mError = 0, sp_vec = \<lparr>mTotal = cap, mSize = 0, mData = (\<lambda>_. 0)\<rparr>\<rparr>"

lemma sparc_arguments_arrive_witness:
  "fst (pop_all dcbArg_sparc32
      (entry_sparc (\<lambda>_. 0) (dcArgs vtab_sparc (dcReset vtab_sparc (sparc_blank 64))
         [AInt 7, ADouble 9, AFloat 8, AChar 1, ALongLong 11]))
      [TInt, TDouble, TFloat, TChar, TLongLong]) = [AInt 7, ADouble 9, AFloat 8, AChar 1, ALongLong 11]"
  using sparc_arguments_arrive [of "sparc_blank 64" "[AInt 7, ADouble 9, AFloat 8, AChar 1, ALongLong 11]" callVoid 4096
      "dcArgs vtab_sparc (dcReset vtab_sparc (sparc_blank 64)) [AInt 7, ADouble 9, AFloat 8, AChar 1, ALongLong 11]" 4096 "\<lambda>_. 0"]
  unfolding dcCall_sparc by (simp add: sparc_blank_def word_cost_def)

end
