(* ===== verification/Vm_MipsO32.thy ===== *)
theory Vm_MipsO32
  imports Dyn_Flat
begin

unbundle bit_operations_syntax

section \<open>MIPS O32: call VM and argument reader\<close>

text \<open>
  \<open>dyncall/dyncall/dyncall_callvm_mips_o32.{h,c}\<close> with the kernel \<open>dyncall_call_mips_o32.S\<close>, and
  \<open>dyncall/dyncallback/dyncall_args_mips_o32.c\<close> with the entry in \<open>dyncall_callback_mips_o32.S\<close>, in both
  byte orders (\<open>e\<close>) and with or without floating point registers (\<open>hard\<close>, the \<open>DC__ABI_HARDFLOAT\<close> of
  the source). Every argument goes to the vector; the first two arguments, if they are floats or
  doubles, are stored in the register data as well. The reader takes the first floats
  from where the entry spilled the registers, 16 bytes in front of the arguments, until it has
  read an integer or two floats.
\<close>

datatype vt_mips_o32 = gVT_mips_o32

record DCCallVM_mips_o32 = "vt_mips_o32 DCCallVM" +
  o32_mArgCount :: nat
  o32_u :: "nat \<Rightarrow> u64"
  o32_vec :: "u32 vec"

record mips_o32_call =
  o32c_target :: u32
  o32c_regdata :: "nat \<Rightarrow> u64"
  o32c_size :: u32
  o32c_stkdata :: mem

definition dc_callvm_reset_mips_o32 :: "DCCallVM_mips_o32 \<Rightarrow> DCCallVM_mips_o32" where
  "dc_callvm_reset_mips_o32 self = self\<lparr>o32_vec := dcVecReset (o32_vec self), o32_mArgCount := 0\<rparr>"

definition dc_callvm_free_mips_o32 :: "DCCallVM_mips_o32 \<Rightarrow> DCCallVM_mips_o32 handle" where
  "dc_callvm_free_mips_o32 self = Freed"

definition dc_callvm_argInt_mips_o32 :: "endian \<Rightarrow> DCCallVM_mips_o32 \<Rightarrow> u32 \<Rightarrow> DCCallVM_mips_o32" where
  "dc_callvm_argInt_mips_o32 e self i =
     self\<lparr>o32_vec := dcVecAppend (o32_vec self) (obj_bytes e 4 i), o32_mArgCount := o32_mArgCount self + 1\<rparr>"

definition dc_callvm_argPointer_mips_o32 :: "endian \<Rightarrow> DCCallVM_mips_o32 \<Rightarrow> u32 \<Rightarrow> DCCallVM_mips_o32" where
  "dc_callvm_argPointer_mips_o32 e self x = dc_callvm_argInt_mips_o32 e self x"

definition dc_callvm_argBool_mips_o32 :: "endian \<Rightarrow> DCCallVM_mips_o32 \<Rightarrow> u32 \<Rightarrow> DCCallVM_mips_o32" where
  "dc_callvm_argBool_mips_o32 e self x = dc_callvm_argInt_mips_o32 e self x"

definition dc_callvm_argChar_mips_o32 :: "endian \<Rightarrow> DCCallVM_mips_o32 \<Rightarrow> u8 \<Rightarrow> DCCallVM_mips_o32" where
  "dc_callvm_argChar_mips_o32 e self x = dc_callvm_argInt_mips_o32 e self (scast x)"

definition dc_callvm_argShort_mips_o32 :: "endian \<Rightarrow> DCCallVM_mips_o32 \<Rightarrow> u16 \<Rightarrow> DCCallVM_mips_o32" where
  "dc_callvm_argShort_mips_o32 e self x = dc_callvm_argInt_mips_o32 e self (scast x)"

definition dc_callvm_argLong_mips_o32 :: "endian \<Rightarrow> DCCallVM_mips_o32 \<Rightarrow> u32 \<Rightarrow> DCCallVM_mips_o32" where
  "dc_callvm_argLong_mips_o32 e self x = dc_callvm_argInt_mips_o32 e self x"

definition dc_callvm_argLongLong_mips_o32 :: "endian \<Rightarrow> DCCallVM_mips_o32 \<Rightarrow> u64 \<Rightarrow> DCCallVM_mips_o32" where
  "dc_callvm_argLongLong_mips_o32 e self x =
     self\<lparr>o32_vec := dcVecAppend (dcVecSkip (o32_vec self) (mSize (o32_vec self) AND 4)) (obj_bytes e 8 x),
          o32_mArgCount := o32_mArgCount self + 1\<rparr>"

text \<open>A float is stored to \<open>f[0]\<close> in little and \<open>f[1]\<close> in big endian: the low half of the double in both.\<close>

definition dc_callvm_argFloat_mips_o32 ::
  "bool \<Rightarrow> endian \<Rightarrow> DCCallVM_mips_o32 \<Rightarrow> u32 \<Rightarrow> DCCallVM_mips_o32" where
  "dc_callvm_argFloat_mips_o32 hard e self x =
     (let self = self\<lparr>o32_vec := dcVecAppend (o32_vec self) (obj_bytes e 4 x)\<rparr>;
          self = (if hard \<and> o32_mArgCount self < 2
                  then self\<lparr>o32_u := (o32_u self)
                         (o32_mArgCount self := join_words (hi_word (o32_u self (o32_mArgCount self))) x)\<rparr>
                  else self)
      in self\<lparr>o32_mArgCount := o32_mArgCount self + 1\<rparr>)"

definition dc_callvm_argDouble_mips_o32 ::
  "bool \<Rightarrow> endian \<Rightarrow> DCCallVM_mips_o32 \<Rightarrow> u64 \<Rightarrow> DCCallVM_mips_o32" where
  "dc_callvm_argDouble_mips_o32 hard e self x =
     (let self = self\<lparr>o32_vec :=
            dcVecAppend (dcVecSkip (o32_vec self) (mSize (o32_vec self) AND 4)) (obj_bytes e 8 x)\<rparr>;
          self = (if hard \<and> o32_mArgCount self < 2
                  then self\<lparr>o32_u := (o32_u self)(o32_mArgCount self := x)\<rparr> else self)
      in self\<lparr>o32_mArgCount := o32_mArgCount self + 1\<rparr>)"

text \<open>The size is a multiple of 8 and at least 16.\<close>

definition dc_callvm_call_mips_o32 :: "DCCallVM_mips_o32 \<Rightarrow> u32 \<Rightarrow> DCCallVM_mips_o32 \<times> mips_o32_call" where
  "dc_callvm_call_mips_o32 self target =
     (self, \<lparr>o32c_target = target, o32c_regdata = o32_u self,
             o32c_size = max 16 ((mSize (o32_vec self) + 7) AND (- 8)), o32c_stkdata = mData (o32_vec self)\<rparr>)"

definition dc_callvm_mode_mips_o32 :: "DCCallVM_mips_o32 \<Rightarrow> u32 \<Rightarrow> DCCallVM_mips_o32" where
  "dc_callvm_mode_mips_o32 self mode =
     (if mode \<in> {DC_CALL_C_DEFAULT, DC_CALL_C_DEFAULT_THIS, DC_CALL_C_MIPS32_O32, DC_CALL_C_ELLIPSIS,
                 DC_CALL_C_ELLIPSIS_VARARGS}
      then dc_callvm_base_init self gVT_mips_o32
      else self\<lparr>mError := DC_ERROR_UNSUPPORTED_MODE\<rparr>)"

fun vtab_mips_o32 ::
  "bool \<Rightarrow> endian \<Rightarrow> vt_mips_o32 \<Rightarrow> (DCCallVM_mips_o32, u32, u32, mips_o32_call) DCCallVM_vt" where
  "vtab_mips_o32 hard e gVT_mips_o32 =
     \<lparr>vt_free = dc_callvm_free_mips_o32, vt_reset = dc_callvm_reset_mips_o32, vt_mode = dc_callvm_mode_mips_o32,
      vt_argBool = dc_callvm_argBool_mips_o32 e, vt_argChar = dc_callvm_argChar_mips_o32 e,
      vt_argShort = dc_callvm_argShort_mips_o32 e, vt_argInt = dc_callvm_argInt_mips_o32 e,
      vt_argLong = dc_callvm_argLong_mips_o32 e, vt_argLongLong = dc_callvm_argLongLong_mips_o32 e,
      vt_argFloat = dc_callvm_argFloat_mips_o32 hard e, vt_argDouble = dc_callvm_argDouble_mips_o32 hard e,
      vt_argPointer = dc_callvm_argPointer_mips_o32 e, vt_argAggr = None,
      vt_call = (\<lambda>_. dc_callvm_call_mips_o32), vt_callAggr = None, vt_beginAggr = None\<rparr>"

definition dcNewCallVM_mips_o32 :: "DCCallVM_mips_o32 \<Rightarrow> u32 \<Rightarrow> DCCallVM_mips_o32" where
  "dcNewCallVM_mips_o32 p sz =
     (let p = dc_callvm_mode_mips_o32 p DC_CALL_C_DEFAULT
      in dc_callvm_reset_mips_o32 (p\<lparr>o32_vec := dcVecInit (o32_vec p) sz\<rparr>))"

subsection \<open>The reader\<close>

text \<open>\<open>ro_sp\<close> is the offset of \<open>stackptr\<close> from the first argument, which is aligned to 8 bytes;
  \<open>ro_mem\<close> the memory from 16 bytes in front of it.\<close>

record DCArgs_mips_o32 =
  ro_freg_count :: nat
  ro_sp :: nat
  ro_mem :: mem

definition dcbArgInt_mips_o32 :: "bool \<Rightarrow> endian \<Rightarrow> DCArgs_mips_o32 \<Rightarrow> u32 \<times> DCArgs_mips_o32" where
  "dcbArgInt_mips_o32 hard e p =
     (let p = (if hard then p\<lparr>ro_freg_count := 2\<rparr> else p)
      in (obj_word e (read_at (ro_mem p) (16 + ro_sp p) 4), p\<lparr>ro_sp := ro_sp p + 4\<rparr>))"

text \<open>Skip one slot if not aligned.\<close>

definition o32_align :: "DCArgs_mips_o32 \<Rightarrow> DCArgs_mips_o32" where
  "o32_align p = p\<lparr>ro_sp := ro_sp p + ro_sp p mod 8 div 4 * 4\<rparr>"

definition dcbArgULongLong_mips_o32 :: "bool \<Rightarrow> endian \<Rightarrow> DCArgs_mips_o32 \<Rightarrow> u64 \<times> DCArgs_mips_o32" where
  "dcbArgULongLong_mips_o32 hard e p =
     (case dcbArgInt_mips_o32 hard e (o32_align p) of (w0, p) \<Rightarrow>
        (case dcbArgInt_mips_o32 hard e p of (w1, p) \<Rightarrow>
           (case e of LE \<Rightarrow> join_words w1 w0 | BE \<Rightarrow> join_words w0 w1, p)))"

definition dcbArgFloat_mips_o32 :: "bool \<Rightarrow> endian \<Rightarrow> DCArgs_mips_o32 \<Rightarrow> u32 \<times> DCArgs_mips_o32" where
  "dcbArgFloat_mips_o32 hard e p =
     (if hard \<and> ro_freg_count p < 2 then
        (obj_word e (read_at (ro_mem p) (ro_sp (o32_align p) + (case e of LE \<Rightarrow> 0 | BE \<Rightarrow> 4)) 4),
         p\<lparr>ro_freg_count := ro_freg_count p + 1, ro_sp := ro_sp p + 4\<rparr>)
      else (obj_word e (read_at (ro_mem p) (16 + ro_sp p) 4), p\<lparr>ro_sp := ro_sp p + 4\<rparr>))"

text \<open>The double is put together from two floats, through a union.\<close>

definition dcbArgDouble_mips_o32 :: "bool \<Rightarrow> endian \<Rightarrow> DCArgs_mips_o32 \<Rightarrow> u64 \<times> DCArgs_mips_o32" where
  "dcbArgDouble_mips_o32 hard e p =
     (let p = o32_align p in
      if hard \<and> ro_freg_count p < 2 then
        (obj_word e (read_at (ro_mem p) (ro_sp p) 8),
         p\<lparr>ro_freg_count := ro_freg_count p + 1, ro_sp := ro_sp p + 8\<rparr>)
      else (obj_word e (read_at (ro_mem p) (16 + ro_sp p) 8), p\<lparr>ro_sp := ro_sp p + 8\<rparr>))"

fun dcbArg_mips_o32 :: "bool \<Rightarrow> endian \<Rightarrow> DCArgs_mips_o32 \<Rightarrow> dcty \<Rightarrow> (u32, u32) dcarg \<times> DCArgs_mips_o32" where
  "dcbArg_mips_o32 hard e p TBool = map_prod ABool id (dcbArgInt_mips_o32 hard e p)"
| "dcbArg_mips_o32 hard e p TChar = map_prod (\<lambda>x. AChar (ucast x)) id (dcbArgInt_mips_o32 hard e p)"
| "dcbArg_mips_o32 hard e p TShort = map_prod (\<lambda>x. AShort (ucast x)) id (dcbArgInt_mips_o32 hard e p)"
| "dcbArg_mips_o32 hard e p TInt = map_prod AInt id (dcbArgInt_mips_o32 hard e p)"
| "dcbArg_mips_o32 hard e p TLong = map_prod ALong id (dcbArgInt_mips_o32 hard e p)"
| "dcbArg_mips_o32 hard e p TLongLong = map_prod ALongLong id (dcbArgULongLong_mips_o32 hard e p)"
| "dcbArg_mips_o32 hard e p TFloat = map_prod AFloat id (dcbArgFloat_mips_o32 hard e p)"
| "dcbArg_mips_o32 hard e p TDouble = map_prod ADouble id (dcbArgDouble_mips_o32 hard e p)"
| "dcbArg_mips_o32 hard e p TPointer = map_prod APointer id (dcbArgInt_mips_o32 hard e p)"

text \<open>The kernel copies \<open>size\<close> bytes, loads the two doubles of the register data and the first four words; the
  entry stores the doubles in front of the arguments (with \<open>hard\<close>) and the words over the first 16 bytes.\<close>

definition entry_mips_o32 :: "bool \<Rightarrow> endian \<Rightarrow> mem \<Rightarrow> mips_o32_call \<Rightarrow> DCArgs_mips_o32" where
  "entry_mips_o32 hard e caller c =
     \<lparr>ro_freg_count = 0, ro_sp = 0,
      ro_mem = (\<lambda>j. if j < 16 then (if hard then obj_bytes e 8 (o32c_regdata c (j div 8)) ! (j mod 8) else caller j)
                    else if j < 32 then
                      obj_bytes e 4 (obj_word e (read_at (o32c_stkdata c) (4 * ((j - 16) div 4)) 4) :: u32) ! ((j - 16) mod 4)
                    else stack_copy caller (16 + unat (o32c_size c)) (\<lambda>j. o32c_stkdata c (j - 16)) j)\<rparr>"

subsection \<open>The round trip\<close>

lemmas o32_op_defs = dc_callvm_argInt_mips_o32_def dc_callvm_argPointer_mips_o32_def
  dc_callvm_argBool_mips_o32_def dc_callvm_argChar_mips_o32_def dc_callvm_argShort_mips_o32_def
  dc_callvm_argLong_mips_o32_def dc_callvm_argLongLong_mips_o32_def dc_callvm_argFloat_mips_o32_def
  dc_callvm_argDouble_mips_o32_def

text \<open>What an argument leaves in the register data.\<close>

fun o32_reg :: "u64 \<Rightarrow> (u32, u32) dcarg \<Rightarrow> u64" where
  "o32_reg old (AFloat x) = join_words (hi_word old) x"
| "o32_reg old (ADouble x) = x"
| "o32_reg old _ = old"

lemma mVTpointer_o32 [simp]: "mVTpointer (s :: DCCallVM_mips_o32) = gVT_mips_o32"
  by (cases "mVTpointer s")

lemma dcArg_o32:
  "o32_vec (dcArg (vtab_mips_o32 hard e) s a) = vec_slot (is_wide a) (flat_bytes True e a) (o32_vec s)"
  "o32_mArgCount (dcArg (vtab_mips_o32 hard e) s a) = o32_mArgCount s + 1"
  "o32_u (dcArg (vtab_mips_o32 hard e) s a) =
     (if hard \<and> o32_mArgCount s < 2
      then (o32_u s)(o32_mArgCount s := o32_reg (o32_u s (o32_mArgCount s)) a) else o32_u s)"
  subgoal by (cases a; simp add: o32_op_defs vec_slot_def Let_def)
  subgoal by (cases a; simp add: o32_op_defs vec_slot_def Let_def)
  subgoal by (cases a; simp add: o32_op_defs Let_def)
  done

definition o32_entry_of :: "bool \<Rightarrow> endian \<Rightarrow> mem \<Rightarrow> DCCallVM_mips_o32 \<Rightarrow> DCArgs_mips_o32" where
  "o32_entry_of hard e caller F = entry_mips_o32 hard e caller (snd (dc_callvm_call_mips_o32 F 0))"

lemma o32_entry_target:
  "entry_mips_o32 hard e caller (snd (dcCall (vtab_mips_o32 hard e) c F target)) = o32_entry_of hard e caller F"
  by (simp add: o32_entry_of_def entry_mips_o32_def dcCall_def dc_callvm_call_mips_o32_def cong: if_cong)

lemma o32_frame:
  assumes "flat_ok (o32_vec F)" and "j < unat (mSize (o32_vec F))"
  shows "ro_mem (o32_entry_of hard e caller F) (16 + j) = mData (o32_vec F) j"
proof (cases "j < 16")
  case True
  have "4 * (j div 4) + j mod 4 = j" by simp
  with True show ?thesis
    by (simp add: o32_entry_of_def entry_mips_o32_def dc_callvm_call_mips_o32_def obj_bytes_obj_word read_at_def)
next
  case False
  have "(mSize (o32_vec F) + 7) AND (- 8) = mask_up (mSize (o32_vec F)) (2 ^ 3)"
    by (simp add: mask_up_def add.commute)
  moreover have "unat (mSize (o32_vec F)) \<le> unat (mask_up (mSize (o32_vec F)) (2 ^ 3))"
    using assms(1) vec_size_small [of "o32_vec F" "2 ^ 31"] by (intro unat_mask_up_ge) (simp_all add: flat_ok_def)
  ultimately have "j < unat (max 16 ((mSize (o32_vec F) + 7) AND (- 8)))"
    using assms(2) by (simp add: max_def word_le_nat_alt)
  with False show ?thesis
    by (simp add: o32_entry_of_def entry_mips_o32_def dc_callvm_call_mips_o32_def stack_copy_def)
qed

lemma o32_read:
  assumes "flat_ok (o32_vec F)" and "q + n \<le> unat (mSize (o32_vec F))"
  shows "read_at (ro_mem (o32_entry_of hard e caller F)) (16 + q) n = read_at (mData (o32_vec F)) q n"
proof -
  have "read_at (ro_mem (o32_entry_of hard e caller F)) (16 + q) n
      = read_at (\<lambda>j. ro_mem (o32_entry_of hard e caller F) (16 + j)) q n"
    by (simp add: read_at_shift)
  also have "\<dots> = read_at (mData (o32_vec F)) q n"
    by (rule read_at_cong) (use assms in \<open>simp add: o32_frame\<close>)
  finally show ?thesis .
qed

lemma o32_regs:
  assumes "i < 2"
  shows "read_at (ro_mem (o32_entry_of True e caller F)) (8 * i) 8 = obj_bytes e 8 (o32_u F i)"
  using assms by (intro nth_equalityI) (auto simp: read_at_def o32_entry_of_def entry_mips_o32_def dc_callvm_call_mips_o32_def)

definition o32_started :: "DCCallVM_mips_o32 \<Rightarrow> bool" where
  "o32_started s \<longleftrightarrow> (o32_mArgCount s = 0 \<longrightarrow> mSize (o32_vec s) = 0) \<and>
     (o32_mArgCount s = 1 \<longrightarrow> unat (mSize (o32_vec s)) \<in> {4, 8})"

definition o32_keeps :: "DCCallVM_mips_o32 \<Rightarrow> DCCallVM_mips_o32 \<Rightarrow> bool" where
  "o32_keeps s t \<longleftrightarrow> flat_keeps o32_vec s t \<and> o32_mArgCount s \<le> o32_mArgCount t \<and>
     (\<forall>i < o32_mArgCount s. o32_u t i = o32_u s i)"

text \<open>The reader's counter agrees with the writer's, or both are past the registers for floats.\<close>

definition o32_reads ::
  "bool \<Rightarrow> endian \<Rightarrow> mem \<Rightarrow> DCArgs_mips_o32 \<Rightarrow> DCCallVM_mips_o32 \<Rightarrow> DCCallVM_mips_o32 \<Rightarrow> bool" where
  "o32_reads hard e caller r F s \<longleftrightarrow> ro_mem r = ro_mem (o32_entry_of hard e caller F) \<and>
     ro_sp r = unat (mSize (o32_vec s)) \<and> (hard \<longrightarrow> ro_freg_count r = o32_mArgCount s \<or> 2 \<le> ro_freg_count r)"

lemma o32_align_eq: "4 dvd ro_sp p \<Longrightarrow> o32_align p = p\<lparr>ro_sp := slot_at True (ro_sp p)\<rparr>"
proof -
  assume "4 dvd ro_sp p"
  then obtain k where k: "ro_sp p = 4 * k" ..
  have "4 * k mod 8 div 4 = k mod 2" by presburger
  then show ?thesis by (simp add: o32_align_def slot_at_def k odd_iff_mod_2_eq_one)
qed

text \<open>A float or double that the reader takes from the registers.\<close>

lemma o32_register_value:
  assumes "o32_started s" and "4 dvd unat (mSize (o32_vec s))" and "i = o32_mArgCount s" and "i < 2"
    and "o32_u F i = o32_reg old a"
  shows "slot_at True (unat (mSize (o32_vec s))) = 8 * i"
    and "a = AFloat x \<Longrightarrow>
      obj_word e (read_at (ro_mem (o32_entry_of True e caller F)) (8 * i + (case e of LE \<Rightarrow> 0 | BE \<Rightarrow> 4)) 4) = x"
    and "a = ADouble y \<Longrightarrow> obj_word e (read_at (ro_mem (o32_entry_of True e caller F)) (8 * i) 8) = y"
proof -
  show "slot_at True (unat (mSize (o32_vec s))) = 8 * i"
    using assms(1,3,4) by (auto simp: o32_started_def slot_at_def less_2_cases_iff)
  note r = o32_regs [OF assms(4), of e caller F, unfolded assms(5)]
  show "obj_word e (read_at (ro_mem (o32_entry_of True e caller F)) (8 * i + (case e of LE \<Rightarrow> 0 | BE \<Rightarrow> 4)) 4) = x"
    if "a = AFloat x"
    using read_halves [OF r] that by (cases e) simp_all
  show "obj_word e (read_at (ro_mem (o32_entry_of True e caller F)) (8 * i) 8) = y" if "a = ADouble y"
    using r that by (simp add: obj_word_obj_bytes)
qed

definition o32_inv :: "DCCallVM_mips_o32 \<Rightarrow> bool" where
  "o32_inv s \<longleftrightarrow> flat_inv o32_vec (\<lambda>_. True) 0 s \<and> o32_started s"

definition o32_fits :: "DCCallVM_mips_o32 \<Rightarrow> (u32, u32) dcarg \<Rightarrow> bool" where
  "o32_fits s a \<longleftrightarrow> vec_fits (o32_vec s) (word_cost True a)"

lemma o32_slot:
  fixes hard :: bool and e :: endian
  assumes "o32_inv s" and "o32_fits s a"
  defines "t \<equiv> dcArg (vtab_mips_o32 hard e) s a"
  shows "unat (mSize (o32_vec t)) = slot_at (is_wide a) (unat (mSize (o32_vec s))) + (if is_wide a then 8 else 4)"
    and "o32_inv t" and "o32_keeps s t"
    and "o32_keeps t F \<Longrightarrow>
      read_at (ro_mem (o32_entry_of hard e caller F)) (16 + slot_at (is_wide a) (unat (mSize (o32_vec s))))
        (if is_wide a then 8 else 4) = flat_bytes True e a"
proof -
  have d: "4 dvd unat (mSize (o32_vec s))" and ok: "flat_ok (o32_vec s)"
    using assms(1) by (simp_all add: o32_inv_def flat_inv_def)
  have fit: "vec_fits (o32_vec s) (slot_cost (is_wide a) (flat_bytes True e a))"
    using assms(2) slot_cost_flat [of True a True e] by (simp add: o32_fits_def)
  note slot = vec_slot [OF fit d, unfolded length_flat_bytes]
  have v: "o32_vec t = vec_slot (is_wide a) (flat_bytes True e a) (o32_vec s)" by (simp add: t_def dcArg_o32)
  show sz: "unat (mSize (o32_vec t)) = slot_at (is_wide a) (unat (mSize (o32_vec s))) + (if is_wide a then 8 else 4)"
    using slot(1) by (simp only: v)
  have ok': "flat_ok (o32_vec t)" using slot(3) ok by (simp add: v flat_ok_def)
  have "o32_started t"
    using assms(1) by (auto simp: o32_started_def o32_inv_def sz slot_at_def) (simp_all add: t_def dcArg_o32)
  then show "o32_inv t"
    using ok' slot_at_dvd [OF d] by (auto simp: o32_inv_def flat_inv_def sz)
  show "o32_keeps s t"
    using slot(2) ok' by (auto simp: o32_keeps_def flat_keeps_def v) (auto simp: t_def dcArg_o32)
  show "read_at (ro_mem (o32_entry_of hard e caller F)) (16 + slot_at (is_wide a) (unat (mSize (o32_vec s))))
        (if is_wide a then 8 else 4) = flat_bytes True e a" if k: "o32_keeps t F"
  proof -
    from k have kv: "vec_keeps (vec_slot (is_wide a) (flat_bytes True e a) (o32_vec s)) (o32_vec F)" and "flat_ok (o32_vec F)"
      by (simp_all add: o32_keeps_def flat_keeps_def v)
    moreover from kv slot(1) have "slot_at (is_wide a) (unat (mSize (o32_vec s))) + (if is_wide a then 8 else 4)
        \<le> unat (mSize (o32_vec F))"
      by (simp add: vec_keeps_def del: if_split)
    ultimately show ?thesis using slot(4) [OF kv] by (simp add: o32_read del: if_split)
  qed
qed

lemma o32_reg_kept:
  assumes "o32_keeps (dcArg (vtab_mips_o32 True e) s a) F" and "o32_mArgCount s < 2"
  shows "o32_u F (o32_mArgCount s) = o32_reg (o32_u s (o32_mArgCount s)) a"
  using assms by (auto simp: o32_keeps_def dcArg_o32)

lemma o32_pop:
  assumes "o32_inv s" and "o32_fits s a" and "o32_keeps (dcArg (vtab_mips_o32 hard e) s a) F"
    and "o32_reads hard e caller r F s"
  shows "fst (dcbArg_mips_o32 hard e r (arg_ty a)) = a \<and>
    o32_reads hard e caller (snd (dcbArg_mips_o32 hard e r (arg_ty a))) F (dcArg (vtab_mips_o32 hard e) s a)"
proof -
  let ?m = "ro_mem (o32_entry_of hard e caller F)" and ?p = "unat (mSize (o32_vec s))"
  define t where "t = dcArg (vtab_mips_o32 hard e) s a"
  have cnt: "o32_mArgCount t = o32_mArgCount s + 1" by (simp only: t_def dcArg_o32)
  note slot = o32_slot [OF assms(1,2), of hard e, folded t_def]
  note rd = slot(4) [OF assms(3) [folded t_def], of caller]
  have d: "4 dvd ?p" and st: "o32_started s" using assms(1) by (simp_all add: o32_inv_def flat_inv_def)
  have r: "ro_mem r = ?m" "ro_sp r = ?p" "hard \<Longrightarrow> ro_freg_count r = o32_mArgCount s \<or> 2 \<le> ro_freg_count r"
    using assms(4) by (simp_all add: o32_reads_def)
  have al: "o32_align r = r\<lparr>ro_sp := slot_at True ?p\<rparr>" using d r(2) by (simp add: o32_align_eq)
  have reg: "slot_at True ?p = 8 * o32_mArgCount s"
      "a = AFloat x \<Longrightarrow> obj_word e (read_at ?m (8 * o32_mArgCount s + (case e of LE \<Rightarrow> 0 | BE \<Rightarrow> 4)) 4) = x"
      "a = ADouble y \<Longrightarrow> obj_word e (read_at ?m (8 * o32_mArgCount s) 8) = y"
    if "hard" "ro_freg_count r < 2" for x y
  proof -
    from r(3) that have c: "o32_mArgCount s < 2" by auto
    note u = o32_register_value [OF st d refl c o32_reg_kept [OF assms(3) [unfolded that(1) [THEN eqTrueI]] c]]
    show "slot_at True ?p = 8 * o32_mArgCount s" by (rule u(1))
    show "a = AFloat x \<Longrightarrow> obj_word e (read_at ?m (8 * o32_mArgCount s + (case e of LE \<Rightarrow> 0 | BE \<Rightarrow> 4)) 4) = x"
      using u(2) that(1) by simp
    show "a = ADouble y \<Longrightarrow> obj_word e (read_at ?m (8 * o32_mArgCount s) 8) = y"
      using u(3) that(1) by simp
  qed
  have "fst (dcbArg_mips_o32 hard e r (arg_ty a)) = a \<and>
    o32_reads hard e caller (snd (dcbArg_mips_o32 hard e r (arg_ty a))) F t"
  proof (cases a)
    case (AFloat x)
    then show ?thesis
      using r rd reg(1) reg(2) [OF _ _ AFloat] slot(1)
      by (auto simp: dcbArgFloat_mips_o32_def al o32_reads_def obj_word_obj_bytes slot_at_def cnt split del: if_split_asm)
  next
    case (ADouble y)
    then show ?thesis
      using r rd reg(1) reg(3) [OF _ _ ADouble] slot(1)
      by (auto simp: dcbArgDouble_mips_o32_def al o32_reads_def obj_word_obj_bytes cnt Let_def)
  next
    case (ALongLong y)
    then show ?thesis
      using r rd slot(1) read_halves [of ?m "16 + slot_at True ?p" e y]
      by (cases e) (auto simp: dcbArgULongLong_mips_o32_def dcbArgInt_mips_o32_def al o32_reads_def cnt add.assoc)
  qed (use r rd slot(1) in
      \<open>auto simp: dcbArgInt_mips_o32_def o32_reads_def obj_word_obj_bytes slot_at_def cnt ucast_scast_trunc\<close>)
  then show ?thesis by (simp only: t_def)
qed

lemma o32_keeps_trans: "o32_keeps s t \<Longrightarrow> o32_keeps t u \<Longrightarrow> o32_keeps s u"
  by (auto simp: o32_keeps_def flat_keeps_def intro: vec_keeps_trans)

interpretation o32: arg_transport_rel_cap "dcArg (vtab_mips_o32 hard e)" o32_fits o32_inv o32_keeps
  "o32_reads hard e caller" "dcbArg_mips_o32 hard e" arg_ty "\<lambda>a. a"
  "\<lambda>s. unat (mSize (o32_vec s))" "\<lambda>s. unat (mTotal (o32_vec s))" "word_cost True"
  for hard e caller
proof unfold_locales
  fix s a and F :: DCCallVM_mips_o32 and r
  assume inv: "o32_inv s"
  then show "o32_keeps s s" by (simp add: o32_inv_def o32_keeps_def flat_inv_def flat_keeps_def)
  show "unat (mSize (o32_vec s)) + word_cost True a \<le> unat (mTotal (o32_vec s)) \<Longrightarrow> o32_fits s a"
    by (simp add: o32_fits_def vec_fits_def)
  assume fit: "o32_fits s a"
  note slot = o32_slot [OF inv fit, of hard e]
  show "o32_inv (dcArg (vtab_mips_o32 hard e) s a)" and "o32_keeps s (dcArg (vtab_mips_o32 hard e) s a)"
    by (fact slot)+
  show "unat (mSize (o32_vec (dcArg (vtab_mips_o32 hard e) s a))) \<le> unat (mSize (o32_vec s)) + word_cost True a"
    unfolding slot(1) using slot_at_le [of "is_wide a" "unat (mSize (o32_vec s))"] by (auto simp: word_cost_def)
  show "unat (mTotal (o32_vec (dcArg (vtab_mips_o32 hard e) s a))) = unat (mTotal (o32_vec s))"
    by (simp only: dcArg_o32 vec_slot_total)
  assume "o32_keeps (dcArg (vtab_mips_o32 hard e) s a) F" and "o32_reads hard e caller r F s"
  from o32_pop [OF inv fit this]
  show "fst (dcbArg_mips_o32 hard e r (arg_ty a)) = a \<and>
    o32_reads hard e caller (snd (dcbArg_mips_o32 hard e r (arg_ty a))) F (dcArg (vtab_mips_o32 hard e) s a)" .
qed (rule o32_keeps_trans)

text \<open>C14: On MIPS O32, in both byte orders, with and without floating point registers, every list of scalar
  arguments that a program passes after \<open>dcReset\<close> is what the handler of a callback reads,
  also where the first arguments are floats and travel in registers.\<close>

theorem mips_o32_arguments_arrive:
  assumes "unat (mTotal (o32_vec vm)) < 2 ^ 31"
    and "sum_list (map (word_cost True) xs) \<le> unat (mTotal (o32_vec vm))"
  shows "fst (pop_all (dcbArg_mips_o32 hard e)
            (entry_mips_o32 hard e caller (snd (dcCall (vtab_mips_o32 hard e) c
               (dcArgs (vtab_mips_o32 hard e) (dcReset (vtab_mips_o32 hard e) vm) xs) target)))
            (map arg_ty xs)) = xs"
proof -
  let ?s = "dcReset (vtab_mips_o32 hard e) vm" and ?F = "dcArgs (vtab_mips_o32 hard e) (dcReset (vtab_mips_o32 hard e) vm) xs"
  have s: "?s = dc_callvm_reset_mips_o32 vm" by (simp add: dcReset_def)
  have inv: "o32_inv ?s"
    using assms(1)
    by (simp add: s dc_callvm_reset_mips_o32_def o32_inv_def flat_inv_def flat_ok_def o32_started_def dcVecReset_def vec_ok_def)
  have "o32_reads hard e caller (entry_mips_o32 hard e caller (snd (dcCall (vtab_mips_o32 hard e) c ?F target))) ?F ?s"
    unfolding o32_entry_target
    by (simp add: s o32_reads_def o32_entry_of_def entry_mips_o32_def dc_callvm_reset_mips_o32_def dcVecReset_def)
  then show ?thesis
    using o32.rel_call_round_trip [OF inv, of xs hard e caller] assms(2)
    by (simp add: s push_all_dcArgs dc_callvm_reset_mips_o32_def dcVecReset_def)
qed

definition o32_blank :: "u32 \<Rightarrow> DCCallVM_mips_o32" where
  "o32_blank cap =
     \<lparr>mVTpointer = gVT_mips_o32, mError = 0, o32_mArgCount = 0, o32_u = (\<lambda>_. 0),
      o32_vec = \<lparr>mTotal = cap, mSize = 0, mData = (\<lambda>_. 0)\<rparr>\<rparr>"

lemma mips_o32_arguments_arrive_witness:
  "fst (pop_all (dcbArg_mips_o32 True BE)
      (entry_mips_o32 True BE (\<lambda>_. 0) (snd (dcCall (vtab_mips_o32 True BE) callInt
         (dcArgs (vtab_mips_o32 True BE) (dcReset (vtab_mips_o32 True BE) (o32_blank 64))
            [AFloat 7, ADouble 9, AInt 5, AFloat 3]) 4096)))
      [TFloat, TDouble, TInt, TFloat]) = [AFloat 7, ADouble 9, AInt 5, AFloat 3]"
  using mips_o32_arguments_arrive [of "o32_blank 64" "[AFloat 7, ADouble 9, AInt 5, AFloat 3]" True BE "\<lambda>_. 0" callInt 4096]
  by (simp add: o32_blank_def word_cost_def)

end
