(* ===== verification/Vm_Ppc32.thy ===== *)
theory Vm_Ppc32
  imports Dyn_Flat Affix_Float
begin

unbundle bit_operations_syntax

section \<open>PowerPC 32: call VM and argument readers\<close>

text \<open>
  \<open>dyncall/dyncall/dyncall_callvm_ppc32.{h,c}\<close> with the kernels of \<open>dyncall_call_ppc32.S\<close>, the readers
  \<open>dyncall/dyncallback/dyncall_args_ppc32.c\<close> (Darwin) and \<open>dyncall_args_ppc32_sysv.c\<close> (System V) and the entries in
  \<open>dyncall_callback_ppc32_apple.s\<close> and \<open>dyncall_callback_ppc32.S\<close>. Under Darwin every argument takes its place on the
  stack and, in addition, the registers it would go to; under System V an argument is either in registers
  or on the stack. A float in a register is a double; \<open>darwin\<close> says which system a build is for, \<open>cs\<close> whether a
  plain \<open>char\<close> is signed. Big endian.
\<close>

datatype vt_ppc32 = gVT_ppc32_darwin | gVT_ppc32_sysv | gVT_ppc32_syscall

record DCCallVM_ppc32 = "vt_ppc32 DCCallVM" +
  pp_i :: nat
  pp_f :: nat
  pp_int :: "nat \<Rightarrow> u32"
  pp_float :: "nat \<Rightarrow> u64"
  pp_vec :: "u32 vec"

record ppc32_call =
  pc_target :: u32
  pc_int :: "nat \<Rightarrow> u32"
  pc_float :: "nat \<Rightarrow> u64"
  pc_size :: u32
  pc_data :: mem

datatype ppc32_kernel = dcCall_ppc32_darwin ppc32_call | dcCall_ppc32_sysv ppc32_call | dcCall_ppc32_syscall ppc32_call

definition dc_callvm_free_ppc32 :: "DCCallVM_ppc32 \<Rightarrow> DCCallVM_ppc32 handle" where
  "dc_callvm_free_ppc32 self = Freed"

definition dc_callvm_reset_ppc32 :: "DCCallVM_ppc32 \<Rightarrow> DCCallVM_ppc32" where
  "dc_callvm_reset_ppc32 self = self\<lparr>pp_vec := dcVecReset (pp_vec self), pp_i := 0, pp_f := 0\<rparr>"

text \<open>An integer register, filled.\<close>

definition ppc32_int_reg :: "DCCallVM_ppc32 \<Rightarrow> u32 \<Rightarrow> DCCallVM_ppc32" where
  "ppc32_int_reg self i = self\<lparr>pp_int := (pp_int self)(pp_i self := i), pp_i := pp_i self + 1\<rparr>"

definition ppc32_push :: "DCCallVM_ppc32 \<Rightarrow> byte list \<Rightarrow> DCCallVM_ppc32" where
  "ppc32_push self bs = self\<lparr>pp_vec := dcVecAppend (pp_vec self) bs\<rparr>"

definition dc_callvm_argInt_ppc32_darwin :: "DCCallVM_ppc32 \<Rightarrow> u32 \<Rightarrow> DCCallVM_ppc32" where
  "dc_callvm_argInt_ppc32_darwin self i =
     ppc32_push (if pp_i self < 8 then ppc32_int_reg self i else self) (obj_bytes BE 4 i)"

definition dc_callvm_argInt_ppc32_sysv :: "DCCallVM_ppc32 \<Rightarrow> u32 \<Rightarrow> DCCallVM_ppc32" where
  "dc_callvm_argInt_ppc32_sysv self i =
     (if pp_i self < 8 then ppc32_int_reg self i else ppc32_push self (obj_bytes BE 4 i))"

definition ppc32_float_reg :: "DCCallVM_ppc32 \<Rightarrow> u64 \<Rightarrow> DCCallVM_ppc32" where
  "ppc32_float_reg self d = self\<lparr>pp_float := (pp_float self)(pp_f self := d), pp_f := pp_f self + 1\<rparr>"

definition dc_callvm_argDouble_ppc32_darwin :: "DCCallVM_ppc32 \<Rightarrow> u64 \<Rightarrow> DCCallVM_ppc32" where
  "dc_callvm_argDouble_ppc32_darwin self d =
     ppc32_push
       (if pp_f self < 13 then
          (let self = ppc32_float_reg self d;
               self = (if pp_i self < 8 then ppc32_int_reg self (hi_word d) else self)
           in if pp_i self < 8 then ppc32_int_reg self (lo_word d) else self)
        else self)
       (obj_bytes BE 8 d)"

text \<open>\<open>dcVecResize\<close> to the size rounded up to eight bytes.\<close>

definition ppc32_align :: "DCCallVM_ppc32 \<Rightarrow> DCCallVM_ppc32" where
  "ppc32_align self = self\<lparr>pp_vec := dcVecResize (pp_vec self) ((mSize (pp_vec self) + 7) AND (- 8))\<rparr>"

definition dc_callvm_argDouble_ppc32_sysv :: "DCCallVM_ppc32 \<Rightarrow> u64 \<Rightarrow> DCCallVM_ppc32" where
  "dc_callvm_argDouble_ppc32_sysv self d =
     (if pp_f self < 8 then ppc32_float_reg self d else ppc32_push (ppc32_align self) (obj_bytes BE 8 d))"

definition dc_callvm_argFloat_ppc32_darwin :: "DCCallVM_ppc32 \<Rightarrow> u32 \<Rightarrow> DCCallVM_ppc32" where
  "dc_callvm_argFloat_ppc32_darwin self f =
     (let self = (if pp_f self < 13 then ppc32_float_reg self (double_of_float f) else self);
          self = (if pp_i self < 8 then ppc32_int_reg self f else self)
      in ppc32_push self (obj_bytes BE 4 f))"

definition dc_callvm_argFloat_ppc32_sysv :: "DCCallVM_ppc32 \<Rightarrow> u32 \<Rightarrow> DCCallVM_ppc32" where
  "dc_callvm_argFloat_ppc32_sysv self f =
     (if pp_f self < 8 then ppc32_float_reg self (double_of_float f) else ppc32_push self (obj_bytes BE 4 f))"

text \<open>\<open>dcArgInt\<close>, which the other functions call, goes through the table of the VM.\<close>

definition dcArgInt_ppc32 :: "DCCallVM_ppc32 \<Rightarrow> u32 \<Rightarrow> DCCallVM_ppc32" where
  "dcArgInt_ppc32 self i =
     (case mVTpointer self of
        gVT_ppc32_darwin \<Rightarrow> dc_callvm_argInt_ppc32_darwin self i
      | _ \<Rightarrow> dc_callvm_argInt_ppc32_sysv self i)"

definition dc_callvm_argLongLong_ppc32_darwin :: "DCCallVM_ppc32 \<Rightarrow> u64 \<Rightarrow> DCCallVM_ppc32" where
  "dc_callvm_argLongLong_ppc32_darwin self L = dcArgInt_ppc32 (dcArgInt_ppc32 self (hi_word L)) (lo_word L)"

text \<open>A 64 bit integer goes to a pair of registers that starts at an even one.\<close>

definition dc_callvm_argLongLong_ppc32_sysv :: "DCCallVM_ppc32 \<Rightarrow> u64 \<Rightarrow> DCCallVM_ppc32" where
  "dc_callvm_argLongLong_ppc32_sysv self L =
     (if pp_i self < 7 then
        (let self = (if odd (pp_i self) then self\<lparr>pp_i := pp_i self + 1\<rparr> else self)
         in ppc32_int_reg (ppc32_int_reg self (hi_word L)) (lo_word L))
      else ppc32_push (ppc32_align (self\<lparr>pp_i := 8\<rparr>)) (obj_bytes BE 8 L))"

definition dc_callvm_argBool_ppc32 :: "DCCallVM_ppc32 \<Rightarrow> u32 \<Rightarrow> DCCallVM_ppc32" where
  "dc_callvm_argBool_ppc32 self x = dcArgInt_ppc32 self (if x = 0 then 0 else 1)"

definition dc_callvm_argChar_ppc32 :: "bool \<Rightarrow> DCCallVM_ppc32 \<Rightarrow> u8 \<Rightarrow> DCCallVM_ppc32" where
  "dc_callvm_argChar_ppc32 cs self ch = dcArgInt_ppc32 self (if cs then scast ch else ucast ch)"

definition dc_callvm_argShort_ppc32 :: "DCCallVM_ppc32 \<Rightarrow> u16 \<Rightarrow> DCCallVM_ppc32" where
  "dc_callvm_argShort_ppc32 self s = dcArgInt_ppc32 self (scast s)"

definition dc_callvm_argLong_ppc32 :: "DCCallVM_ppc32 \<Rightarrow> u32 \<Rightarrow> DCCallVM_ppc32" where
  "dc_callvm_argLong_ppc32 self l = dcArgInt_ppc32 self l"

definition dc_callvm_argPointer_ppc32 :: "DCCallVM_ppc32 \<Rightarrow> u32 \<Rightarrow> DCCallVM_ppc32" where
  "dc_callvm_argPointer_ppc32 self p = dcArgInt_ppc32 self p"

definition ppc32_call_of :: "DCCallVM_ppc32 \<Rightarrow> u32 \<Rightarrow> u32 \<Rightarrow> ppc32_call" where
  "ppc32_call_of self target sz =
     \<lparr>pc_target = target, pc_int = pp_int self, pc_float = pp_float self, pc_size = sz, pc_data = mData (pp_vec self)\<rparr>"

definition dc_callvm_call_ppc32_darwin :: "DCCallVM_ppc32 \<Rightarrow> u32 \<Rightarrow> DCCallVM_ppc32 \<times> ppc32_kernel" where
  "dc_callvm_call_ppc32_darwin self target =
     (self, dcCall_ppc32_darwin (ppc32_call_of self target (max (mSize (pp_vec self)) (8 * 4))))"

definition dc_callvm_call_ppc32_sysv :: "DCCallVM_ppc32 \<Rightarrow> u32 \<Rightarrow> DCCallVM_ppc32 \<times> ppc32_kernel" where
  "dc_callvm_call_ppc32_sysv self target =
     (self, dcCall_ppc32_sysv (ppc32_call_of self target (mSize (pp_vec self))))"

definition dc_callvm_call_ppc32_syscall :: "DCCallVM_ppc32 \<Rightarrow> u32 \<Rightarrow> DCCallVM_ppc32 \<times> ppc32_kernel" where
  "dc_callvm_call_ppc32_syscall self target =
     (self, dcCall_ppc32_syscall (ppc32_call_of self target (mSize (pp_vec self))))"

definition ppc32_default_modes :: "u32 set" where
  "ppc32_default_modes = {DC_CALL_C_DEFAULT, DC_CALL_C_DEFAULT_THIS, DC_CALL_C_ELLIPSIS, DC_CALL_C_ELLIPSIS_VARARGS}"

definition dc_callvm_mode_ppc32 :: "bool \<Rightarrow> DCCallVM_ppc32 \<Rightarrow> u32 \<Rightarrow> DCCallVM_ppc32" where
  "dc_callvm_mode_ppc32 darwin self mode =
     (if darwin \<and> mode \<in> ppc32_default_modes \<or> mode = DC_CALL_C_PPC32_OSX then dc_callvm_base_init self gVT_ppc32_darwin
      else if \<not> darwin \<and> mode \<in> ppc32_default_modes \<or> mode = DC_CALL_C_PPC32_SYSV then dc_callvm_base_init self gVT_ppc32_sysv
      else if mode \<in> {DC_CALL_SYS_DEFAULT, DC_CALL_SYS_PPC32} then dc_callvm_base_init self gVT_ppc32_syscall
      else self\<lparr>mError := DC_ERROR_UNSUPPORTED_MODE\<rparr>)"

definition vt_ppc32_darwin :: "bool \<Rightarrow> bool \<Rightarrow> (DCCallVM_ppc32, u32, u32, ppc32_kernel) DCCallVM_vt" where
  "vt_ppc32_darwin darwin cs =
     \<lparr>vt_free = dc_callvm_free_ppc32, vt_reset = dc_callvm_reset_ppc32, vt_mode = dc_callvm_mode_ppc32 darwin,
      vt_argBool = dc_callvm_argBool_ppc32, vt_argChar = dc_callvm_argChar_ppc32 cs, vt_argShort = dc_callvm_argShort_ppc32,
      vt_argInt = dc_callvm_argInt_ppc32_darwin, vt_argLong = dc_callvm_argLong_ppc32,
      vt_argLongLong = dc_callvm_argLongLong_ppc32_darwin, vt_argFloat = dc_callvm_argFloat_ppc32_darwin,
      vt_argDouble = dc_callvm_argDouble_ppc32_darwin, vt_argPointer = dc_callvm_argPointer_ppc32, vt_argAggr = None,
      vt_call = (\<lambda>_. dc_callvm_call_ppc32_darwin), vt_callAggr = None, vt_beginAggr = None\<rparr>"

definition vt_ppc32_sysv :: "bool \<Rightarrow> bool \<Rightarrow> (DCCallVM_ppc32, u32, u32, ppc32_kernel) DCCallVM_vt" where
  "vt_ppc32_sysv darwin cs =
     \<lparr>vt_free = dc_callvm_free_ppc32, vt_reset = dc_callvm_reset_ppc32, vt_mode = dc_callvm_mode_ppc32 darwin,
      vt_argBool = dc_callvm_argBool_ppc32, vt_argChar = dc_callvm_argChar_ppc32 cs, vt_argShort = dc_callvm_argShort_ppc32,
      vt_argInt = dc_callvm_argInt_ppc32_sysv, vt_argLong = dc_callvm_argLong_ppc32,
      vt_argLongLong = dc_callvm_argLongLong_ppc32_sysv, vt_argFloat = dc_callvm_argFloat_ppc32_sysv,
      vt_argDouble = dc_callvm_argDouble_ppc32_sysv, vt_argPointer = dc_callvm_argPointer_ppc32, vt_argAggr = None,
      vt_call = (\<lambda>_. dc_callvm_call_ppc32_sysv), vt_callAggr = None, vt_beginAggr = None\<rparr>"

definition vt_ppc32_syscall :: "bool \<Rightarrow> bool \<Rightarrow> (DCCallVM_ppc32, u32, u32, ppc32_kernel) DCCallVM_vt" where
  "vt_ppc32_syscall darwin cs =
     \<lparr>vt_free = dc_callvm_free_ppc32, vt_reset = dc_callvm_reset_ppc32, vt_mode = dc_callvm_mode_ppc32 darwin,
      vt_argBool = dc_callvm_argBool_ppc32, vt_argChar = dc_callvm_argChar_ppc32 cs, vt_argShort = dc_callvm_argShort_ppc32,
      vt_argInt = dc_callvm_argInt_ppc32_sysv, vt_argLong = dc_callvm_argLong_ppc32,
      vt_argLongLong = dc_callvm_argLongLong_ppc32_sysv, vt_argFloat = dc_callvm_argFloat_ppc32_sysv,
      vt_argDouble = dc_callvm_argDouble_ppc32_sysv, vt_argPointer = dc_callvm_argPointer_ppc32, vt_argAggr = None,
      vt_call = (\<lambda>_. dc_callvm_call_ppc32_syscall), vt_callAggr = None, vt_beginAggr = None\<rparr>"

fun vtab_ppc32 :: "bool \<Rightarrow> bool \<Rightarrow> vt_ppc32 \<Rightarrow> (DCCallVM_ppc32, u32, u32, ppc32_kernel) DCCallVM_vt" where
  "vtab_ppc32 darwin cs gVT_ppc32_darwin = vt_ppc32_darwin darwin cs"
| "vtab_ppc32 darwin cs gVT_ppc32_sysv = vt_ppc32_sysv darwin cs"
| "vtab_ppc32 darwin cs gVT_ppc32_syscall = vt_ppc32_syscall darwin cs"

definition dcNewCallVM_ppc32 :: "bool \<Rightarrow> DCCallVM_ppc32 \<Rightarrow> u32 \<Rightarrow> DCCallVM_ppc32" where
  "dcNewCallVM_ppc32 darwin p sz =
     (let p = dc_callvm_mode_ppc32 darwin p DC_CALL_C_DEFAULT
      in dc_callvm_reset_ppc32 (p\<lparr>pp_vec := dcVecInit (pp_vec p) sz\<rparr>))"

subsection \<open>The readers\<close>

text \<open>The stack pointer is an offset from the parameter area, which is aligned to eight bytes.\<close>

record DCArgs_ppc32 =
  rp_int :: "nat \<Rightarrow> u32"
  rp_float :: "nat \<Rightarrow> u64"
  rp_sp :: nat
  rp_i :: nat
  rp_f :: nat
  rp_stack :: mem

definition dcbArgInt_ppc32 :: "DCArgs_ppc32 \<Rightarrow> u32 \<times> DCArgs_ppc32" where
  "dcbArgInt_ppc32 p =
     (if rp_i p < 8 then (rp_int p (rp_i p), p\<lparr>rp_i := rp_i p + 1, rp_sp := rp_sp p + 4\<rparr>)
      else (obj_word BE (read_at (rp_stack p) (rp_sp p) 4), p\<lparr>rp_sp := rp_sp p + 4\<rparr>))"

definition dcbArgLongLong_ppc32 :: "DCArgs_ppc32 \<Rightarrow> u64 \<times> DCArgs_ppc32" where
  "dcbArgLongLong_ppc32 p =
     (case dcbArgInt_ppc32 p of (hi, p) \<Rightarrow> (case dcbArgInt_ppc32 p of (lo, p) \<Rightarrow> (join_words hi lo, p)))"

definition dcbArgDouble_ppc32 :: "DCArgs_ppc32 \<Rightarrow> u64 \<times> DCArgs_ppc32" where
  "dcbArgDouble_ppc32 p =
     (let p = (if rp_i p < 7 then p\<lparr>rp_i := rp_i p + 2\<rparr> else if rp_i p = 7 then p\<lparr>rp_i := 8\<rparr> else p) in
      if rp_f p < 13 then (rp_float p (rp_f p), p\<lparr>rp_f := rp_f p + 1, rp_sp := rp_sp p + 8\<rparr>)
      else (obj_word BE (read_at (rp_stack p) (rp_sp p) 8), p\<lparr>rp_sp := rp_sp p + 8\<rparr>))"

definition dcbArgFloat_ppc32 :: "DCArgs_ppc32 \<Rightarrow> u32 \<times> DCArgs_ppc32" where
  "dcbArgFloat_ppc32 p =
     (let p = (if rp_i p < 8 then p\<lparr>rp_i := rp_i p + 1\<rparr> else p) in
      if rp_f p < 13 then (float_of_double (rp_float p (rp_f p)), p\<lparr>rp_f := rp_f p + 1, rp_sp := rp_sp p + 4\<rparr>)
      else (obj_word BE (read_at (rp_stack p) (rp_sp p) 4), p\<lparr>rp_sp := rp_sp p + 4\<rparr>))"

definition dcbArgInt_ppc32_sysv :: "DCArgs_ppc32 \<Rightarrow> u32 \<times> DCArgs_ppc32" where
  "dcbArgInt_ppc32_sysv p =
     (if rp_i p < 8 then (rp_int p (rp_i p), p\<lparr>rp_i := rp_i p + 1\<rparr>)
      else (obj_word BE (read_at (rp_stack p) (rp_sp p) 4), p\<lparr>rp_sp := rp_sp p + 4\<rparr>))"

definition rp_align :: "DCArgs_ppc32 \<Rightarrow> DCArgs_ppc32" where
  "rp_align p = p\<lparr>rp_sp := (rp_sp p + 7) div 8 * 8\<rparr>"

definition dcbArgLongLong_ppc32_sysv :: "DCArgs_ppc32 \<Rightarrow> u64 \<times> DCArgs_ppc32" where
  "dcbArgLongLong_ppc32_sysv p =
     (if rp_i p < 7 then
        (let i = (rp_i p + 1) div 2 * 2 in (join_words (rp_int p i) (rp_int p (i + 1)), p\<lparr>rp_i := i + 2\<rparr>))
      else
        (let p = rp_align (p\<lparr>rp_i := 8\<rparr>) in
         (obj_word BE (read_at (rp_stack p) (rp_sp p) 8), p\<lparr>rp_sp := rp_sp p + 8\<rparr>)))"

definition dcbArgDouble_ppc32_sysv :: "DCArgs_ppc32 \<Rightarrow> u64 \<times> DCArgs_ppc32" where
  "dcbArgDouble_ppc32_sysv p =
     (if rp_f p < 8 then (rp_float p (rp_f p), p\<lparr>rp_f := rp_f p + 1\<rparr>)
      else
        (let p = rp_align p in
         (obj_word BE (read_at (rp_stack p) (rp_sp p) 8), p\<lparr>rp_sp := rp_sp p + 8\<rparr>)))"

definition dcbArgFloat_ppc32_sysv :: "DCArgs_ppc32 \<Rightarrow> u32 \<times> DCArgs_ppc32" where
  "dcbArgFloat_ppc32_sysv p =
     (if rp_f p < 8 then (float_of_double (rp_float p (rp_f p)), p\<lparr>rp_f := rp_f p + 1\<rparr>)
      else (obj_word BE (read_at (rp_stack p) (rp_sp p) 4), p\<lparr>rp_sp := rp_sp p + 4\<rparr>))"

fun dcbArg_ppc32 :: "DCArgs_ppc32 \<Rightarrow> dcty \<Rightarrow> (u32, u32) dcarg \<times> DCArgs_ppc32" where
  "dcbArg_ppc32 p TBool = map_prod ABool id (dcbArgInt_ppc32 p)"
| "dcbArg_ppc32 p TChar = map_prod (\<lambda>x. AChar (ucast x)) id (dcbArgInt_ppc32 p)"
| "dcbArg_ppc32 p TShort = map_prod (\<lambda>x. AShort (ucast x)) id (dcbArgInt_ppc32 p)"
| "dcbArg_ppc32 p TInt = map_prod AInt id (dcbArgInt_ppc32 p)"
| "dcbArg_ppc32 p TLong = map_prod ALong id (dcbArgInt_ppc32 p)"
| "dcbArg_ppc32 p TLongLong = map_prod ALongLong id (dcbArgLongLong_ppc32 p)"
| "dcbArg_ppc32 p TFloat = map_prod AFloat id (dcbArgFloat_ppc32 p)"
| "dcbArg_ppc32 p TDouble = map_prod ADouble id (dcbArgDouble_ppc32 p)"
| "dcbArg_ppc32 p TPointer = map_prod APointer id (dcbArgInt_ppc32 p)"

fun dcbArg_ppc32_sysv :: "DCArgs_ppc32 \<Rightarrow> dcty \<Rightarrow> (u32, u32) dcarg \<times> DCArgs_ppc32" where
  "dcbArg_ppc32_sysv p TBool = map_prod ABool id (dcbArgInt_ppc32_sysv p)"
| "dcbArg_ppc32_sysv p TChar = map_prod (\<lambda>x. AChar (ucast x)) id (dcbArgInt_ppc32_sysv p)"
| "dcbArg_ppc32_sysv p TShort = map_prod (\<lambda>x. AShort (ucast x)) id (dcbArgInt_ppc32_sysv p)"
| "dcbArg_ppc32_sysv p TInt = map_prod AInt id (dcbArgInt_ppc32_sysv p)"
| "dcbArg_ppc32_sysv p TLong = map_prod ALong id (dcbArgInt_ppc32_sysv p)"
| "dcbArg_ppc32_sysv p TLongLong = map_prod ALongLong id (dcbArgLongLong_ppc32_sysv p)"
| "dcbArg_ppc32_sysv p TFloat = map_prod AFloat id (dcbArgFloat_ppc32_sysv p)"
| "dcbArg_ppc32_sysv p TDouble = map_prod ADouble id (dcbArgDouble_ppc32_sysv p)"
| "dcbArg_ppc32_sysv p TPointer = map_prod APointer id (dcbArgInt_ppc32_sysv p)"

text \<open>Both kernels copy whole words of the vector to the parameter area and load the registers, which the entry
  spills; the counters are cleared.\<close>

definition entry_ppc32 :: "mem \<Rightarrow> ppc32_call \<Rightarrow> DCArgs_ppc32" where
  "entry_ppc32 caller c =
     \<lparr>rp_int = pc_int c, rp_float = pc_float c, rp_sp = 0, rp_i = 0, rp_f = 0,
      rp_stack = stack_copy caller (4 * (unat (pc_size c) div 4)) (pc_data c)\<rparr>"


subsection \<open>The round trip\<close>

text \<open>What both conventions have in common. A NaN may not survive in a register, so the lists of the theorem have none;
  it costs more than any vector has.\<close>

definition ppc32_inv :: "vt_ppc32 \<Rightarrow> nat \<Rightarrow> DCCallVM_ppc32 \<Rightarrow> bool" where
  "ppc32_inv vt fregs s \<longleftrightarrow> mVTpointer s = vt \<and> pp_i s \<le> 8 \<and> pp_f s \<le> fregs \<and>
     flat_ok (pp_vec s) \<and> 4 dvd unat (mSize (pp_vec s))"

definition ppc32_keeps :: "DCCallVM_ppc32 \<Rightarrow> DCCallVM_ppc32 \<Rightarrow> bool" where
  "ppc32_keeps s t \<longleftrightarrow> pp_i s \<le> pp_i t \<and> pp_f s \<le> pp_f t \<and>
     (\<forall>j < pp_i s. pp_int t j = pp_int s j) \<and> (\<forall>j < pp_f s. pp_float t j = pp_float s j) \<and>
     vec_keeps (pp_vec s) (pp_vec t) \<and> flat_ok (pp_vec t) \<and> 4 dvd unat (mSize (pp_vec t))"

definition ppc32_cost :: "bool \<Rightarrow> (u32, u32) dcarg \<Rightarrow> nat" where
  "ppc32_cost al a = (case a of AFloat x \<Rightarrow> if is_nan32 x then 2 ^ 32 else 4 | _ \<Rightarrow> word_cost al a)"

definition ppc32_fits :: "bool \<Rightarrow> DCCallVM_ppc32 \<Rightarrow> (u32, u32) dcarg \<Rightarrow> bool" where
  "ppc32_fits al s a = vec_fits (pp_vec s) (ppc32_cost al a)"

definition ppc32_view :: "mem \<Rightarrow> ppc32_call \<Rightarrow> DCCallVM_ppc32 \<Rightarrow> DCArgs_ppc32" where
  "ppc32_view caller c s = (entry_ppc32 caller c)\<lparr>rp_sp := unat (mSize (pp_vec s)), rp_i := pp_i s, rp_f := pp_f s\<rparr>"

text \<open>The call of a state, with the size that the kernel gets.\<close>

definition ppc32_calls :: "DCCallVM_ppc32 \<Rightarrow> ppc32_call \<Rightarrow> bool" where
  "ppc32_calls F c \<longleftrightarrow> pc_int c = pp_int F \<and> pc_float c = pp_float F \<and> pc_data c = mData (pp_vec F) \<and>
     mSize (pp_vec F) \<le> pc_size c"

lemma ppc32_keeps_refl: "ppc32_inv vt n s \<Longrightarrow> ppc32_keeps s s"
  by (simp add: ppc32_inv_def ppc32_keeps_def)

lemma ppc32_keeps_trans: "ppc32_keeps s t \<Longrightarrow> ppc32_keeps t u \<Longrightarrow> ppc32_keeps s u"
  by (auto simp: ppc32_keeps_def intro: vec_keeps_trans)

lemma resize_skip:
  assumes "flat_ok v" and "4 dvd unat (mSize v)"
  shows "dcVecResize v ((mSize v + 7) AND (- 8)) = dcVecSkip v (mSize v AND 4)"
proof -
  let ?n = "mSize v"
  have b: "unat ?n < 2 ^ 31" using assms(1) by (simp add: flat_ok_def vec_size_small)
  then have u: "unat (?n + 7) = unat ?n + 7" by (simp add: unat_plus_if')
  from assms(2) obtain k where k: "unat ?n = 4 * k" by (auto elim: dvdE)
  have "unat ((?n + 7) AND (- (2 ^ 3))) = unat (?n + (?n AND 4))"
    unfolding unat_and_minus_exp u
    using b k and_4 [OF assms(2)] by (cases "even k") (auto simp: unat_plus_if' elim!: evenE oddE)
  then have "(?n + 7) AND (- 8) = ?n + (?n AND 4)" by (simp add: word_unat_eq_iff)
  then show ?thesis by (simp add: dcVecResize_def dcVecSkip_def)
qed

lemma pp_vec_push: "pp_vec (ppc32_push s bs) = vec_slot False bs (pp_vec s)"
  by (simp add: ppc32_push_def vec_slot_def)

lemma pp_vec_align:
  "flat_ok (pp_vec s) \<Longrightarrow> 4 dvd unat (mSize (pp_vec s)) \<Longrightarrow> vec_slot False bs (pp_vec (ppc32_align s)) = vec_slot True bs (pp_vec s)"
  by (simp add: ppc32_align_def vec_slot_def resize_skip)

text \<open>The frame holds the vector, whatever the kernel copies behind it.\<close>

lemma ppc32_stack_read:
  assumes "ppc32_calls F c" and "4 dvd unat (mSize (pp_vec F))" and "q + n \<le> unat (mSize (pp_vec F))"
  shows "read_at (rp_stack (entry_ppc32 caller c)) q n = read_at (mData (pp_vec F)) q n"
proof -
  from assms(1) have "unat (mSize (pp_vec F)) \<le> unat (pc_size c)" by (simp add: ppc32_calls_def word_le_nat_alt)
  then have "unat (mSize (pp_vec F)) div 4 \<le> unat (pc_size c) div 4" by (rule div_le_mono)
  then have "unat (mSize (pp_vec F)) \<le> 4 * (unat (pc_size c) div 4)" using assms(2) by auto
  with assms show ?thesis by (simp add: entry_ppc32_def ppc32_calls_def stack_copy_read)
qed

text \<open>What a slot of the stack does for the reader.\<close>

lemma ppc32_slot:
  assumes "ppc32_inv vt fr s" and "vec_fits (pp_vec s) (slot_cost al bs)" and "4 dvd length bs"
  defines "v \<equiv> vec_slot al bs (pp_vec s)"
  shows "flat_ok v" and "4 dvd unat (mSize v)" and "vec_keeps (pp_vec s) v"
    and "unat (mSize v) = slot_at al (unat (mSize (pp_vec s))) + length bs"
    and "ppc32_calls F c \<Longrightarrow> vec_keeps v (pp_vec F) \<Longrightarrow> 4 dvd unat (mSize (pp_vec F)) \<Longrightarrow>
       read_at (rp_stack (entry_ppc32 caller c)) (slot_at al (unat (mSize (pp_vec s)))) (length bs) = bs"
proof -
  from assms(1) have d: "4 dvd unat (mSize (pp_vec s))" and f: "flat_ok (pp_vec s)" by (simp_all add: ppc32_inv_def)
  note slot = vec_slot [OF assms(2) d]
  show "flat_ok v" using f slot(3) by (simp add: v_def flat_ok_def)
  show u: "unat (mSize v) = slot_at al (unat (mSize (pp_vec s))) + length bs" using slot(1) by (simp add: v_def)
  show "4 dvd unat (mSize v)" unfolding u using slot_at_dvd [OF d] assms(3) by simp
  show "vec_keeps (pp_vec s) v" using slot(2) by (simp add: v_def)
  show "read_at (rp_stack (entry_ppc32 caller c)) (slot_at al (unat (mSize (pp_vec s)))) (length bs) = bs"
    if c: "ppc32_calls F c" and k: "vec_keeps v (pp_vec F)" and dF: "4 dvd unat (mSize (pp_vec F))"
  proof -
    from k have "unat (mSize v) \<le> unat (mSize (pp_vec F))" by (simp add: vec_keeps_def)
    with u have "slot_at al (unat (mSize (pp_vec s))) + length bs \<le> unat (mSize (pp_vec F))" by simp
    from ppc32_stack_read [OF c dF this] slot(4) k show ?thesis by (simp add: v_def)
  qed
qed

lemma slot_at_round: "4 dvd p \<Longrightarrow> (p + 7) div 8 * 8 = slot_at True p"
  by (auto simp: slot_at_def elim!: dvdE) presburger+


text \<open>A push fills registers behind those in use, and takes a slot on the stack or not.\<close>

definition ppc32_grows :: "nat \<Rightarrow> bool \<Rightarrow> byte list \<Rightarrow> bool \<Rightarrow> DCCallVM_ppc32 \<Rightarrow> DCCallVM_ppc32 \<Rightarrow> bool" where
  "ppc32_grows fr al bs stacked s t \<longleftrightarrow> mVTpointer t = mVTpointer s \<and>
     pp_i s \<le> pp_i t \<and> pp_i t \<le> 8 \<and> pp_f s \<le> pp_f t \<and> pp_f t \<le> fr \<and>
     (\<forall>j < pp_i s. pp_int t j = pp_int s j) \<and> (\<forall>j < pp_f s. pp_float t j = pp_float s j) \<and>
     pp_vec t = (if stacked then vec_slot al bs (pp_vec s) else pp_vec s)"

lemma ppc32_grows:
  assumes "ppc32_inv vt fr s" and "vec_fits (pp_vec s) (slot_cost al bs)" and "4 dvd length bs"
    and "ppc32_grows fr al bs stacked s t"
  shows "ppc32_inv vt fr t" and "ppc32_keeps s t" and "mTotal (pp_vec t) = mTotal (pp_vec s)"
    and "unat (mSize (pp_vec t)) \<le> unat (mSize (pp_vec s)) + slot_cost al bs"
  using assms(1,4) ppc32_slot(1-4) [OF assms(1-3)] slot_at_le [of al "unat (mSize (pp_vec s))"]
  by (auto simp: ppc32_grows_def ppc32_inv_def ppc32_keeps_def slot_cost_def)

lemma ppc32_cost_slot:
  "unat (mTotal (pp_vec s)) < 2 ^ 31 \<Longrightarrow> ppc32_fits al s a \<Longrightarrow>
     vec_fits (pp_vec s) (slot_cost (al \<and> is_wide a) (flat_bytes cs BE (bool01 a))) \<and> (\<forall>x. a = AFloat x \<longrightarrow> \<not> is_nan32 x)"
  by (cases a) (auto simp: ppc32_fits_def ppc32_cost_def word_cost_def slot_cost_def vec_fits_def split: if_splits)

lemma length_flat_bool01: "length (flat_bytes cs e (bool01 a)) = (if is_wide a then 8 else 4)"
  by (cases a) simp_all

subsection \<open>System V\<close>

lemmas ppc32_op_defs = dc_callvm_argBool_ppc32_def dc_callvm_argChar_ppc32_def dc_callvm_argShort_ppc32_def
  dc_callvm_argLong_ppc32_def dc_callvm_argPointer_ppc32_def dcArgInt_ppc32_def

lemmas ppc32_sysv_defs = dc_callvm_argInt_ppc32_sysv_def dc_callvm_argLongLong_ppc32_sysv_def
  dc_callvm_argFloat_ppc32_sysv_def dc_callvm_argDouble_ppc32_sysv_def ppc32_int_reg_def ppc32_float_reg_def

text \<open>When an argument goes to the stack.\<close>

definition ppc32_sysv_stacked :: "DCCallVM_ppc32 \<Rightarrow> (u32, u32) dcarg \<Rightarrow> bool" where
  "ppc32_sysv_stacked s a =
     (case a of AFloat _ \<Rightarrow> 8 \<le> pp_f s | ADouble _ \<Rightarrow> 8 \<le> pp_f s | ALongLong _ \<Rightarrow> 7 \<le> pp_i s | _ \<Rightarrow> 8 \<le> pp_i s)"

lemma ppc32_align_simps [simp]:
  "mVTpointer (ppc32_align s) = mVTpointer s" "pp_i (ppc32_align s) = pp_i s" "pp_f (ppc32_align s) = pp_f s"
  "pp_int (ppc32_align s) = pp_int s" "pp_float (ppc32_align s) = pp_float s"
  by (simp_all add: ppc32_align_def)

lemma ppc32_push_simps [simp]:
  "mVTpointer (ppc32_push s bs) = mVTpointer s" "pp_i (ppc32_push s bs) = pp_i s" "pp_f (ppc32_push s bs) = pp_f s"
  "pp_int (ppc32_push s bs) = pp_int s" "pp_float (ppc32_push s bs) = pp_float s"
  by (simp_all add: ppc32_push_def)

lemma pair_start: "Suc n div 2 * 2 = (if odd n then Suc n else n)" and pair_odd: "odd n \<Longrightarrow> Suc (n div 2 * 2) = n"
  by presburger+

lemma odd_below_7: "odd (n :: nat) \<Longrightarrow> n < 7 \<Longrightarrow> n \<le> 5"
  by presburger

lemma ppc32_sysv_grows:
  assumes "ppc32_inv gVT_ppc32_sysv 8 s"
  shows "ppc32_grows 8 (is_wide a) (flat_bytes cs BE (bool01 a)) (ppc32_sysv_stacked s a) s (dcArg (vtab_ppc32 darwin cs) s a)"
  using assms
  by (cases a) (auto simp: ppc32_grows_def ppc32_inv_def ppc32_sysv_stacked_def vt_ppc32_sysv_def ppc32_op_defs ppc32_sysv_defs
      pp_vec_push pp_vec_align Let_def less_Suc_eq dest: odd_below_7)

lemma ppc32_sysv_pop:
  assumes i: "ppc32_inv gVT_ppc32_sysv 8 s" and f: "ppc32_fits True s a"
    and k: "ppc32_keeps (dcArg (vtab_ppc32 darwin cs) s a) F" and c: "ppc32_calls F c"
  shows "dcbArg_ppc32_sysv (ppc32_view caller c s) (arg_ty a) = (bool01 a, ppc32_view caller c (dcArg (vtab_ppc32 darwin cs) s a))"
proof -
  let ?t = "dcArg (vtab_ppc32 darwin cs) s a"
  have "unat (mTotal (pp_vec s)) < 2 ^ 31" using i by (simp add: ppc32_inv_def flat_ok_def)
  from ppc32_cost_slot [OF this f, of cs] have f': "vec_fits (pp_vec s) (slot_cost (is_wide a) (flat_bytes cs BE (bool01 a)))"
    and nan: "\<And>x. a = AFloat x \<Longrightarrow> \<not> is_nan32 x" by simp_all
  have vt: "mVTpointer s = gVT_ppc32_sysv" and d: "4 dvd unat (mSize (pp_vec s))" using i by (simp_all add: ppc32_inv_def)
  have g: "ppc32_grows 8 (is_wide a) (flat_bytes cs BE (bool01 a)) (ppc32_sysv_stacked s a) s ?t"
    by (rule ppc32_sysv_grows [OF i])
  show ?thesis
  proof (cases "ppc32_sysv_stacked s a")
    case True
    have v: "pp_vec ?t = vec_slot (is_wide a) (flat_bytes cs BE (bool01 a)) (pp_vec s)"
      using g True by (simp add: ppc32_grows_def)
    have "4 dvd length (flat_bytes cs BE (bool01 a))" by (simp add: length_flat_bool01)
    note slot = ppc32_slot [OF i f' this]
    have "read_at (rp_stack (entry_ppc32 caller c)) (slot_at (is_wide a) (unat (mSize (pp_vec s)))) (if is_wide a then 8 else 4)
        = flat_bytes cs BE (bool01 a)"
      using slot(5) [OF c] k v by (simp add: ppc32_keeps_def length_flat_bool01)
    then show ?thesis
      using True vt slot(4) d unfolding v [symmetric]
      by (cases a) (simp_all add: ppc32_view_def entry_ppc32_def ppc32_sysv_stacked_def dcbArgInt_ppc32_sysv_def
          dcbArgLongLong_ppc32_sysv_def dcbArgDouble_ppc32_sysv_def dcbArgFloat_ppc32_sysv_def rp_align_def Let_def
          slot_at_round obj_word_obj_bytes slot_at_def vt_ppc32_sysv_def ppc32_op_defs ppc32_sysv_defs
          ucast_scast_trunc ucast_ucast_trunc)
  next
    case False
    from k have r: "pp_i ?t \<le> pp_i F" "pp_f ?t \<le> pp_f F"
      "\<And>j. j < pp_i ?t \<Longrightarrow> pp_int F j = pp_int ?t j" "\<And>j. j < pp_f ?t \<Longrightarrow> pp_float F j = pp_float ?t j"
      by (simp_all add: ppc32_keeps_def)
    have v: "pp_vec ?t = pp_vec s" using g False by (simp add: ppc32_grows_def)
    have e: "pc_int c = pp_int F" "pc_float c = pp_float F" using c by (simp_all add: ppc32_calls_def)
    show ?thesis
      using False vt r(3,4) v
      by (cases a; cases "odd (pp_i s)")
        (auto simp: e pair_start pair_odd ppc32_view_def entry_ppc32_def ppc32_sysv_stacked_def dcbArgInt_ppc32_sysv_def
          dcbArgLongLong_ppc32_sysv_def dcbArgDouble_ppc32_sysv_def dcbArgFloat_ppc32_sysv_def Let_def
          vt_ppc32_sysv_def ppc32_op_defs ppc32_sysv_defs ucast_scast_trunc ucast_ucast_trunc float_of_double_of_float nan)
  qed
qed


definition ppc32_used :: "DCCallVM_ppc32 \<Rightarrow> nat" where
  "ppc32_used s = unat (mSize (pp_vec s))"

definition ppc32_cap :: "DCCallVM_ppc32 \<Rightarrow> nat" where
  "ppc32_cap s = unat (mTotal (pp_vec s))"

text \<open>The reader starts over the call of the final state.\<close>

lemma ppc32_fitsD:
  assumes "ppc32_inv vt fr s" and "ppc32_fits al s a"
  shows "vec_fits (pp_vec s) (slot_cost (al \<and> is_wide a) (flat_bytes cs BE (bool01 a)))"
    and "slot_cost (al \<and> is_wide a) (flat_bytes cs BE (bool01 a)) = ppc32_cost al a"
    and "a = AFloat x \<Longrightarrow> \<not> is_nan32 x"
proof -
  have t: "unat (mTotal (pp_vec s)) < 2 ^ 31" using assms(1) by (simp add: ppc32_inv_def flat_ok_def)
  from ppc32_cost_slot [OF t assms(2), of cs]
  show "vec_fits (pp_vec s) (slot_cost (al \<and> is_wide a) (flat_bytes cs BE (bool01 a)))"
    and n: "a = AFloat x \<Longrightarrow> \<not> is_nan32 x" for x by simp_all
  then show "slot_cost (al \<and> is_wide a) (flat_bytes cs BE (bool01 a)) = ppc32_cost al a"
    by (cases a) (simp_all add: slot_cost_def ppc32_cost_def word_cost_def)
qed

interpretation ppc32: arg_transport_rel_cap "dcArg (vtab_ppc32 darwin cs)" "ppc32_fits True" "ppc32_inv gVT_ppc32_sysv 8"
  ppc32_keeps "\<lambda>r F s. \<exists>c. ppc32_calls F c \<and> r = ppc32_view caller c s" dcbArg_ppc32_sysv arg_ty bool01
  ppc32_used ppc32_cap "ppc32_cost True"
  for darwin cs caller
proof unfold_locales
  fix s a r F
  assume i: "ppc32_inv gVT_ppc32_sysv 8 s"
  then show "ppc32_keeps s s" by (rule ppc32_keeps_refl)
  show "ppc32_used s + ppc32_cost True a \<le> ppc32_cap s \<Longrightarrow> ppc32_fits True s a"
    by (simp add: ppc32_used_def ppc32_cap_def ppc32_fits_def vec_fits_def)
  assume f: "ppc32_fits True s a"
  note g = ppc32_grows [OF i, where al = "is_wide a" and bs = "flat_bytes cs BE (bool01 a)" and stacked = "ppc32_sysv_stacked s a"
      and t = "dcArg (vtab_ppc32 darwin cs) s a", OF ppc32_fitsD(1) [OF i f, simplified] _ ppc32_sysv_grows [OF i]]
  have l: "4 dvd length (flat_bytes cs BE (bool01 a))" by (simp add: length_flat_bool01)
  show "ppc32_inv gVT_ppc32_sysv 8 (dcArg (vtab_ppc32 darwin cs) s a)" and "ppc32_keeps s (dcArg (vtab_ppc32 darwin cs) s a)"
    and "ppc32_cap (dcArg (vtab_ppc32 darwin cs) s a) = ppc32_cap s"
    and "ppc32_used (dcArg (vtab_ppc32 darwin cs) s a) \<le> ppc32_used s + ppc32_cost True a"
    using g [OF l] ppc32_fitsD(2) [OF i f, of cs] by (simp_all add: ppc32_cap_def ppc32_used_def)
  assume k: "ppc32_keeps (dcArg (vtab_ppc32 darwin cs) s a) F" and "\<exists>c. ppc32_calls F c \<and> r = ppc32_view caller c s"
  then obtain c where c: "ppc32_calls F c" and r: "r = ppc32_view caller c s" by blast
  from ppc32_sysv_pop [OF i f k c, of caller] c show "fst (dcbArg_ppc32_sysv r (arg_ty a)) = bool01 a \<and>
      (\<exists>c. ppc32_calls F c \<and> snd (dcbArg_ppc32_sysv r (arg_ty a)) = ppc32_view caller c (dcArg (vtab_ppc32 darwin cs) s a))"
    unfolding r by auto
qed (auto intro: ppc32_keeps_trans)


subsection \<open>Darwin\<close>

text \<open>Every argument has its place on the stack. A floating point argument uses up integer registers as well, so the integer
  registers are never behind: the reader, which skips them even when no floating point register is left, agrees with
  the writer, which then does not.\<close>

definition ppc32_darwin_inv :: "DCCallVM_ppc32 \<Rightarrow> bool" where
  "ppc32_darwin_inv s \<longleftrightarrow> ppc32_inv gVT_ppc32_darwin 13 s \<and> (pp_f s \<le> pp_i s \<or> pp_i s = 8)"

lemmas ppc32_darwin_defs = dc_callvm_argInt_ppc32_darwin_def dc_callvm_argLongLong_ppc32_darwin_def
  dc_callvm_argFloat_ppc32_darwin_def dc_callvm_argDouble_ppc32_darwin_def ppc32_int_reg_def ppc32_float_reg_def

text \<open>A 64 bit integer is pushed as two words, which make one slot.\<close>

lemma vec_slot_words:
  assumes "vec_fits v 8"
  shows "vec_slot False (obj_bytes BE 4 (lo_word L)) (vec_slot False (obj_bytes BE 4 (hi_word L)) v) = vec_slot False (obj_bytes BE 8 L) v"
proof -
  have f: "vec_fits v 4" using assms by (rule vec_fits_mono) simp
  have "vec_fits (dcVecAppend v (obj_bytes BE 4 (hi_word L))) 4"
    using assms f by (simp add: vec_fits_def vec_append_used)
  moreover have "obj_bytes BE 8 L = obj_bytes BE 4 (hi_word L) @ obj_bytes BE 4 (lo_word L)"
    using append_take_drop_id [of 4 "obj_bytes BE 8 L"] by (simp add: obj_bytes_halves)
  moreover have "write_at (write_at m k (obj_bytes BE 4 (hi_word L))) (k + 4) (obj_bytes BE 4 (lo_word L))
      = write_at m k (obj_bytes BE 4 (hi_word L) @ obj_bytes BE 4 (lo_word L))" for m k
    by (auto simp: write_at_def fun_eq_iff nth_append)
  ultimately have "dcVecAppend (dcVecAppend v (obj_bytes BE 4 (hi_word L))) (obj_bytes BE 4 (lo_word L)) = dcVecAppend v (obj_bytes BE 8 L)"
    using f assms by (simp add: dcVecAppend_fits vec_fits_size [OF f, simplified] add.commute)
  then show ?thesis by (simp add: vec_slot_def)
qed

lemma ppc32_darwin_grows:
  fixes darwin cs
  assumes "ppc32_darwin_inv s" and "ppc32_fits False s a"
  defines "t \<equiv> dcArg (vtab_ppc32 darwin cs) s a"
  shows "ppc32_grows 13 False (flat_bytes cs BE (bool01 a)) True s t" and "pp_f t \<le> pp_i t \<or> pp_i t = 8"
proof -
  have i: "ppc32_inv gVT_ppc32_darwin 13 s" using assms(1) by (simp add: ppc32_darwin_inv_def)
  have w: "a = ALongLong L \<Longrightarrow> vec_fits (pp_vec s) 8" for L
    using ppc32_fitsD(1) [OF i assms(2), of cs] by (simp add: slot_cost_def)
  show "ppc32_grows 13 False (flat_bytes cs BE (bool01 a)) True s t"
    using i w by (cases a) (auto simp: ppc32_grows_def ppc32_inv_def t_def vt_ppc32_darwin_def ppc32_op_defs ppc32_darwin_defs
      pp_vec_push vec_slot_words Let_def)
  show "pp_f t \<le> pp_i t \<or> pp_i t = 8"
    using assms(1) by (cases a) (auto simp: ppc32_darwin_inv_def ppc32_inv_def t_def vt_ppc32_darwin_def ppc32_op_defs
      ppc32_darwin_defs Let_def)
qed


lemma ppc32_darwin_pop:
  assumes i: "ppc32_darwin_inv s" and f: "ppc32_fits False s a"
    and k: "ppc32_keeps (dcArg (vtab_ppc32 darwin cs) s a) F" and c: "ppc32_calls F c"
  shows "dcbArg_ppc32 (ppc32_view caller c s) (arg_ty a) = (bool01 a, ppc32_view caller c (dcArg (vtab_ppc32 darwin cs) s a))"
proof -
  let ?t = "dcArg (vtab_ppc32 darwin cs) s a" and ?bs = "flat_bytes cs BE (bool01 a)"
  let ?p = "unat (mSize (pp_vec s))" and ?m = "rp_stack (entry_ppc32 caller c)"
  from i have i': "ppc32_inv gVT_ppc32_darwin 13 s" and b: "pp_f s \<le> pp_i s \<or> pp_i s = 8" "pp_i s \<le> 8"
    and vt: "mVTpointer s = gVT_ppc32_darwin"
    by (simp_all add: ppc32_darwin_inv_def ppc32_inv_def)
  have nan: "\<And>x. a = AFloat x \<Longrightarrow> \<not> is_nan32 x" using ppc32_fitsD(3) [OF i' f] by blast
  have v: "pp_vec ?t = vec_slot False ?bs (pp_vec s)"
    using ppc32_darwin_grows(1) [OF i f] by (simp add: ppc32_grows_def)
  have "4 dvd length ?bs" by (simp add: length_flat_bool01)
  note slot = ppc32_slot [OF i' ppc32_fitsD(1) [OF i' f, of cs, simplified] this]
  from k have kv: "vec_keeps (vec_slot False ?bs (pp_vec s)) (pp_vec F)" "4 dvd unat (mSize (pp_vec F))"
    and r: "\<And>j. j < pp_i ?t \<Longrightarrow> pp_int F j = pp_int ?t j" "\<And>j. j < pp_f ?t \<Longrightarrow> pp_float F j = pp_float ?t j"
    by (simp_all add: ppc32_keeps_def v [symmetric])
  have rd: "read_at ?m ?p (if is_wide a then 8 else 4) = ?bs"
    using slot(5) [OF c kv, of caller] by (simp add: slot_at_def length_flat_bool01)
  have sz: "unat (mSize (pp_vec ?t)) = ?p + (if is_wide a then 8 else 4)"
    using slot(4) by (simp add: v slot_at_def length_flat_bool01)
  have rd2: "is_wide a \<Longrightarrow> ?bs = obj_bytes BE 8 L \<Longrightarrow> read_at ?m ?p 4 = obj_bytes BE 4 (hi_word L) \<and> read_at ?m (?p + 4) 4 = obj_bytes BE 4 (lo_word L)" for L
    using read_at_part [of 0 4 8 ?m ?p] read_at_part [of 4 4 8 ?m ?p] rd by (simp add: obj_bytes_halves)
  have e: "rp_int (entry_ppc32 caller c) = pp_int F" "rp_float (entry_ppc32 caller c) = pp_float F"
    using c by (simp_all add: ppc32_calls_def entry_ppc32_def)
  note rdefs = ppc32_view_def dcbArgInt_ppc32_def dcbArgLongLong_ppc32_def dcbArgDouble_ppc32_def dcbArgFloat_ppc32_def
  note wdefs = vt_ppc32_darwin_def ppc32_op_defs ppc32_darwin_defs
  show ?thesis
  proof (cases a)
    case (ALongLong L)
    consider "pp_i s < 7" | "pp_i s = 7" | "pp_i s = 8" using b(2) by linarith
    then show ?thesis
      using r rd rd2 [of L] sz vt e ALongLong
      by cases (simp_all add: rdefs wdefs obj_word_obj_bytes)
  next
    case (ADouble d)
    consider "pp_f s < 13" "pp_i s < 7" | "pp_f s < 13" "pp_i s = 7" | "pp_f s < 13" "pp_i s = 8" | "\<not> pp_f s < 13" "pp_i s = 8"
      using b by linarith
    then show ?thesis
      using r rd sz vt e ADouble
      by cases (simp_all add: rdefs wdefs obj_word_obj_bytes Let_def)
  next
    case (AFloat x)
    consider "pp_f s < 13" "pp_i s < 8" | "pp_f s < 13" "pp_i s = 8" | "\<not> pp_f s < 13" "pp_i s = 8"
      using b by linarith
    then show ?thesis
      using r rd sz vt e AFloat
      by cases (simp_all add: rdefs wdefs obj_word_obj_bytes float_of_double_of_float nan Let_def)
  qed (use r rd sz vt e in \<open>cases "pp_i s < 8"; simp add: rdefs wdefs obj_word_obj_bytes ucast_scast_trunc ucast_ucast_trunc\<close>)+
qed


interpretation ppc32d: arg_transport_rel_cap "dcArg (vtab_ppc32 darwin cs)" "ppc32_fits False" ppc32_darwin_inv
  ppc32_keeps "\<lambda>r F s. \<exists>c. ppc32_calls F c \<and> r = ppc32_view caller c s" dcbArg_ppc32 arg_ty bool01
  ppc32_used ppc32_cap "ppc32_cost False"
  for darwin cs caller
proof unfold_locales
  fix s a r F
  assume i: "ppc32_darwin_inv s"
  then have i': "ppc32_inv gVT_ppc32_darwin 13 s" by (simp add: ppc32_darwin_inv_def)
  then show "ppc32_keeps s s" by (rule ppc32_keeps_refl)
  show "ppc32_used s + ppc32_cost False a \<le> ppc32_cap s \<Longrightarrow> ppc32_fits False s a"
    by (simp add: ppc32_used_def ppc32_cap_def ppc32_fits_def vec_fits_def)
  assume f: "ppc32_fits False s a"
  note grow = ppc32_darwin_grows [OF i f, where darwin = darwin and cs = cs]
  have l: "4 dvd length (flat_bytes cs BE (bool01 a))" by (simp add: length_flat_bool01)
  note g = ppc32_grows [OF i' ppc32_fitsD(1) [OF i' f, of cs, simplified] l grow(1)]
  show "ppc32_darwin_inv (dcArg (vtab_ppc32 darwin cs) s a)" and "ppc32_keeps s (dcArg (vtab_ppc32 darwin cs) s a)"
    and "ppc32_cap (dcArg (vtab_ppc32 darwin cs) s a) = ppc32_cap s"
    and "ppc32_used (dcArg (vtab_ppc32 darwin cs) s a) \<le> ppc32_used s + ppc32_cost False a"
    using g grow(2) ppc32_fitsD(2) [OF i' f, of cs] by (simp_all add: ppc32_darwin_inv_def ppc32_cap_def ppc32_used_def)
  assume k: "ppc32_keeps (dcArg (vtab_ppc32 darwin cs) s a) F" and "\<exists>c. ppc32_calls F c \<and> r = ppc32_view caller c s"
  then obtain c where c: "ppc32_calls F c" and r: "r = ppc32_view caller c s" by blast
  from ppc32_darwin_pop [OF i f k c, of caller] c show "fst (dcbArg_ppc32 r (arg_ty a)) = bool01 a \<and>
      (\<exists>c. ppc32_calls F c \<and> snd (dcbArg_ppc32 r (arg_ty a)) = ppc32_view caller c (dcArg (vtab_ppc32 darwin cs) s a))"
    unfolding r by auto
qed (auto intro: ppc32_keeps_trans)

lemma dcReset_ppc32: "dcReset (vtab_ppc32 darwin cs) vm = dc_callvm_reset_ppc32 vm"
  by (cases "mVTpointer vm") (simp_all add: dcReset_def vt_ppc32_darwin_def vt_ppc32_sysv_def vt_ppc32_syscall_def)

lemma ppc32_cost_word: "(\<And>x. AFloat x \<in> set xs \<Longrightarrow> \<not> is_nan32 x) \<Longrightarrow> map (ppc32_cost al) xs = map (word_cost al) xs"
  by (auto simp: ppc32_cost_def word_cost_def split: dcarg.split)

lemma ppc32_start:
  "ppc32_view caller c (dc_callvm_reset_ppc32 vm) = entry_ppc32 caller c"
  by (simp add: ppc32_view_def dc_callvm_reset_ppc32_def dcVecReset_def entry_ppc32_def)

text \<open>C25: On 32 bit PowerPC every list of scalar arguments that a program passes after \<open>dcReset\<close> is what the handler of a
  callback reads, under System V, where an argument is in registers or on the stack, pairs of registers start at an even
  one and 64 bit values on the stack are aligned, and under Darwin, where it is in both; a float travels through
  a double, which keeps it unless it is a NaN.\<close>

theorem ppc32_arguments_arrive:
  assumes "unat (mTotal (pp_vec vm)) < 2 ^ 31" and "\<forall>x. AFloat x \<in> set xs \<longrightarrow> \<not> is_nan32 x"
    and "sum_list (map (word_cost True) xs) \<le> unat (mTotal (pp_vec vm))"
    and "mVTpointer vm = (if osx then gVT_ppc32_darwin else gVT_ppc32_sysv)"
  shows "case snd (dcCall (vtab_ppc32 darwin cs) c
            (dcArgs (vtab_ppc32 darwin cs) (dcReset (vtab_ppc32 darwin cs) vm) xs) target) of
        dcCall_ppc32_darwin k \<Rightarrow> osx \<and> fst (pop_all dcbArg_ppc32 (entry_ppc32 caller k) (map arg_ty xs)) = map bool01 xs
      | dcCall_ppc32_sysv k \<Rightarrow> \<not> osx \<and> fst (pop_all dcbArg_ppc32_sysv (entry_ppc32 caller k) (map arg_ty xs)) = map bool01 xs
      | dcCall_ppc32_syscall k \<Rightarrow> False"
proof -
  let ?V = "vtab_ppc32 darwin cs" and ?s = "dc_callvm_reset_ppc32 vm"
  let ?F = "dcArgs ?V ?s xs"
  have cost: "map (ppc32_cost al) xs = map (word_cost al) xs" for al using assms(2) by (intro ppc32_cost_word) blast
  have "word_cost False a \<le> word_cost True a" for a :: "(u32, u32) dcarg" by (simp add: word_cost_def)
  then have "sum_list (map (word_cost False) xs) \<le> sum_list (map (word_cost True) xs)" by (rule sum_list_mono)
  then have cap: "ppc32_used ?s + sum_list (map (ppc32_cost al) xs) \<le> ppc32_cap ?s" for al
    using assms(3) by (cases al) (simp_all only: cost, simp_all add: ppc32_used_def ppc32_cap_def dc_callvm_reset_ppc32_def dcVecReset_def)
  have inv: "ppc32_inv (mVTpointer vm) n ?s" for n
    using assms(1) by (simp add: ppc32_inv_def dc_callvm_reset_ppc32_def dcVecReset_def flat_ok_def vec_ok_def)
  show ?thesis
  proof (cases osx)
    case True
    let ?k = "ppc32_call_of ?F target (max (mSize (pp_vec ?F)) (8 * 4))"
    have i: "ppc32_darwin_inv ?s" using inv [of 13] assms(4) True by (simp add: ppc32_darwin_inv_def) (simp add: dc_callvm_reset_ppc32_def)
    have "ppc32_calls (push_all (dcArg ?V) ?s xs) ?k" by (simp add: ppc32_calls_def ppc32_call_of_def push_all_dcArgs)
    with ppc32d.rel_call_round_trip [OF i cap, where r = "entry_ppc32 caller ?k" and darwin = darwin and cs = cs and caller = caller]
    have "fst (pop_all dcbArg_ppc32 (entry_ppc32 caller ?k) (map arg_ty xs)) = map bool01 xs"
      by (metis ppc32_start)
    moreover have "mVTpointer ?F = gVT_ppc32_darwin"
      using ppc32d.rel_inv_push_all [OF i ppc32d.rel_fits_all_if [OF i cap], of darwin cs]
      by (simp add: push_all_dcArgs ppc32_darwin_inv_def ppc32_inv_def)
    ultimately show ?thesis using True
      by (simp add: dcReset_ppc32 dcCall_def vt_ppc32_darwin_def dc_callvm_call_ppc32_darwin_def)
  next
    case False
    let ?k = "ppc32_call_of ?F target (mSize (pp_vec ?F))"
    have i: "ppc32_inv gVT_ppc32_sysv 8 ?s" using inv [of 8] assms(4) False by simp
    have "ppc32_calls (push_all (dcArg ?V) ?s xs) ?k" by (simp add: ppc32_calls_def ppc32_call_of_def push_all_dcArgs)
    with ppc32.rel_call_round_trip [OF i cap, where r = "entry_ppc32 caller ?k" and darwin = darwin and cs = cs and caller = caller]
    have "fst (pop_all dcbArg_ppc32_sysv (entry_ppc32 caller ?k) (map arg_ty xs)) = map bool01 xs"
      by (metis ppc32_start)
    moreover have "mVTpointer ?F = gVT_ppc32_sysv"
      using ppc32.rel_inv_push_all [OF i ppc32.rel_fits_all_if [OF i cap], of darwin cs]
      by (simp add: push_all_dcArgs ppc32_inv_def)
    ultimately show ?thesis using False
      by (simp add: dcReset_ppc32 dcCall_def vt_ppc32_sysv_def dc_callvm_call_ppc32_sysv_def)
  qed
qed

definition ppc32_blank :: "vt_ppc32 \<Rightarrow> u32 \<Rightarrow> DCCallVM_ppc32" where
  "ppc32_blank vt cap =
     \<lparr>mVTpointer = vt, mError = 0, pp_i = 0, pp_f = 0, pp_int = (\<lambda>_. 0), pp_float = (\<lambda>_. 0),
      pp_vec = \<lparr>mTotal = cap, mSize = 0, mData = (\<lambda>_. 0)\<rparr>\<rparr>"

lemma ppc32_arguments_arrive_witness:
  "\<exists>k. snd (dcCall (vtab_ppc32 False True) callInt
       (dcArgs (vtab_ppc32 False True) (dcReset (vtab_ppc32 False True) (ppc32_blank gVT_ppc32_sysv 64))
         [AInt 7, ALongLong 11, AFloat 0, ABool 2, AChar 1]) 4096) = dcCall_ppc32_sysv k \<and>
     fst (pop_all dcbArg_ppc32_sysv (entry_ppc32 (\<lambda>_. 0) k) [TInt, TLongLong, TFloat, TBool, TChar])
       = [AInt 7, ALongLong 11, AFloat 0, ABool 1, AChar 1]"
  using ppc32_arguments_arrive [of "ppc32_blank gVT_ppc32_sysv 64" "[AInt 7, ALongLong 11, AFloat 0, ABool 2, AChar 1]" False
      "\<lambda>_. 0" False True callInt 4096]
  by (simp add: ppc32_blank_def word_cost_def is_nan32_def split: ppc32_kernel.splits)

end
