(* ===== verification/Dyn_Variadic.thy ===== *)
theory Dyn_Variadic
  imports Dyn_Transport Affix_Float
begin

section \<open>Calls of variadic functions\<close>

text \<open>
  A variadic call passes its fixed arguments in the mode of the convention, selects
  \<open>DC_CALL_C_ELLIPSIS_VARARGS\<close> and passes the others through another table, in which a float is promoted to
  a double. The locale joins the contracts of the two tables: selecting the mode keeps what was passed, so the two parts are
  read back one after the other.
\<close>

fun promoted :: "('l, 'p) dcarg \<Rightarrow> ('l, 'p) dcarg" where
  "promoted (AFloat x) = ADouble (double_of_float x)"
| "promoted a = a"

locale variadic_transport =
  fixed: arg_transport_cap push fits inv keeps view pop ty val used cap cost +
  var: arg_transport_cap vpush vfits vinv keeps view pop vty vval used cap vcost
  for push :: "'s \<Rightarrow> 'a \<Rightarrow> 's" and fits inv and keeps :: "'s \<Rightarrow> 's \<Rightarrow> bool" and view :: "'s \<Rightarrow> 's \<Rightarrow> 'r"
    and pop :: "'r \<Rightarrow> 't \<Rightarrow> 'v \<times> 'r" and ty val and used :: "'s \<Rightarrow> nat" and cap :: "'s \<Rightarrow> nat" and cost
    and vpush :: "'s \<Rightarrow> 'a \<Rightarrow> 's" and vfits vinv vty vval vcost +
  fixes switch :: "'s \<Rightarrow> 's"
  assumes switch_inv: "inv s \<Longrightarrow> vinv (switch s)"
    and switch_keeps: "inv s \<Longrightarrow> keeps s (switch s)"
    and switch_view: "inv s \<Longrightarrow> view F (switch s) = view F s"
    and switch_used: "inv s \<Longrightarrow> used (switch s) = used s \<and> cap (switch s) = cap s"
begin

lemma two_parts:
  assumes "inv s" and "used s + sum_list (map cost xs) + sum_list (map vcost ys) \<le> cap s"
  defines "A \<equiv> push_all push s xs"
  defines "B \<equiv> push_all vpush (switch A) ys"
  shows "vinv B" and "fst (pop_all pop (view B s) (map ty xs @ map vty ys)) = map val xs @ map vval ys"
proof -
  have fits: "fits_all push fits s xs" using assms(1,2) by (intro fixed.fits_all_if) simp_all
  have A: "inv A" "used A \<le> used s + sum_list (map cost xs)" "cap A = cap s"
    using assms(1) fits by (simp_all add: A_def fixed.inv_push_all fixed.used_push_all fixed.cap_push_all)
  have s: "vinv (switch A)" "used (switch A) + sum_list (map vcost ys) \<le> cap (switch A)"
    using A assms(2) by (simp_all add: switch_inv switch_used)
  then have vfits: "fits_all vpush vfits (switch A) ys" by (rule var.fits_all_if)
  show "vinv B" using s(1) vfits by (simp add: B_def var.inv_push_all)
  have "keeps A B" using A(1) s(1) vfits var.keeps_push_all fixed.keeps_trans [OF switch_keeps] by (simp add: B_def)
  then have xs: "pop_all pop (view B s) (map ty xs) = (map val xs, view B A)"
    using assms(1) fits by (simp add: A_def fixed.read_back)
  have "fst (pop_all pop (view B A) (map vty ys)) = map vval ys"
    using var.round_trip [OF s(1) vfits] A(1) by (simp add: B_def switch_view)
  then show "fst (pop_all pop (view B s) (map ty xs @ map vty ys)) = map val xs @ map vval ys"
    using xs by (simp add: pop_all_append case_prod_beta)
qed

end

end
