(* ===== verification/Vm_Ppc64.thy ===== *)
theory Vm_Ppc64
  imports Dyn_Variadic
begin

unbundle bit_operations_syntax

section \<open>PowerPC 64: call VM and argument reader\<close>

text \<open>
  \<open>dyncall/dyncall/dyncall_callvm_ppc64.{h,c}\<close> with the kernel \<open>dyncall_call_ppc64.S\<close>, the reader
  \<open>dyncall/dyncallback/dyncall_args_ppc64.{h,c}\<close> and the entry \<open>dyncall_callback_ppc64.S\<close>, for the ELF ABIs version 1
  (every argument has a place on the stack) and version 2 (\<open>v2\<close>: only what is not in an integer register has, and the
  variable arguments of a variadic function). \<open>e\<close> is the byte order, \<open>cs\<close> says whether a plain \<open>char\<close> is signed, \<open>pad\<close> is the
  uninitialised half of the slot of a float.
\<close>

datatype vt_ppc64_id = gVT_ppc64 | gVT_ppc64_ellipsis | gVT_ppc64_syscall

record DCCallVM_ppc64 = "vt_ppc64_id DCCallVM" +
  p64_i :: nat
  p64_f :: nat
  p64_int :: "nat \<Rightarrow> u64"
  p64_float :: "nat \<Rightarrow> u64"
  p64_vec :: "u64 vec"

record ppc64_call =
  p64c_target :: u64
  p64c_int :: "nat \<Rightarrow> u64"
  p64c_float :: "nat \<Rightarrow> u64"
  p64c_size :: u64
  p64c_data :: mem

datatype ppc64_kernel = dcCall_ppc64 ppc64_call | dcCall_ppc64_syscall ppc64_call

definition dc_callvm_free_ppc64 :: "DCCallVM_ppc64 \<Rightarrow> DCCallVM_ppc64 handle" where
  "dc_callvm_free_ppc64 self = Freed"

definition dc_callvm_reset_ppc64 :: "DCCallVM_ppc64 \<Rightarrow> DCCallVM_ppc64" where
  "dc_callvm_reset_ppc64 self = self\<lparr>p64_vec := dcVecReset (p64_vec self), p64_i := 0, p64_f := 0\<rparr>"

definition ppc64_int_reg :: "DCCallVM_ppc64 \<Rightarrow> u64 \<Rightarrow> DCCallVM_ppc64" where
  "ppc64_int_reg self x = self\<lparr>p64_int := (p64_int self)(p64_i self := x), p64_i := p64_i self + 1\<rparr>"

definition ppc64_float_reg :: "DCCallVM_ppc64 \<Rightarrow> u64 \<Rightarrow> DCCallVM_ppc64" where
  "ppc64_float_reg self d = self\<lparr>p64_float := (p64_float self)(p64_f self := d), p64_f := p64_f self + 1\<rparr>"

text \<open>\<open>dcVecSkip\<close> by \<open>n\<close> bytes when the vector is empty, then \<open>dcVecAppend\<close>.\<close>

definition ppc64_skip :: "bool \<Rightarrow> nat \<Rightarrow> DCCallVM_ppc64 \<Rightarrow> DCCallVM_ppc64" where
  "ppc64_skip v2 n self =
     (if v2 \<and> mSize (p64_vec self) = 0 then self\<lparr>p64_vec := dcVecSkip (p64_vec self) (of_nat n)\<rparr> else self)"

definition ppc64_append :: "DCCallVM_ppc64 \<Rightarrow> byte list \<Rightarrow> DCCallVM_ppc64" where
  "ppc64_append self bs = self\<lparr>p64_vec := dcVecAppend (p64_vec self) bs\<rparr>"

text \<open>A floating point argument takes an integer register as well; with version 2 that is all.\<close>

definition dc_callvm_argDouble_ppc64 :: "bool \<Rightarrow> endian \<Rightarrow> DCCallVM_ppc64 \<Rightarrow> u64 \<Rightarrow> DCCallVM_ppc64" where
  "dc_callvm_argDouble_ppc64 v2 e self d =
     (let both = p64_f self < 13 \<and> p64_i self < 8;
          self = (if p64_f self < 13 then ppc64_float_reg self d else self);
          self = (if both then ppc64_int_reg self d else self)
      in if v2 \<and> both then self else ppc64_append (ppc64_skip v2 64 self) (obj_bytes e 8 d))"

definition dc_callvm_argDouble_ppc64_ellipsis :: "endian \<Rightarrow> DCCallVM_ppc64 \<Rightarrow> u64 \<Rightarrow> DCCallVM_ppc64" where
  "dc_callvm_argDouble_ppc64_ellipsis e self d =
     (let self = ppc64_skip True (8 * p64_i self) self;
          both = p64_f self < 13 \<and> p64_i self < 8;
          self = (if p64_f self < 13 then ppc64_float_reg self d else self);
          self = (if both then ppc64_int_reg self d else self)
      in ppc64_append self (obj_bytes e 8 d))"

definition dc_callvm_argFloat_ppc64 :: "bool \<Rightarrow> endian \<Rightarrow> u32 \<Rightarrow> DCCallVM_ppc64 \<Rightarrow> u32 \<Rightarrow> DCCallVM_ppc64" where
  "dc_callvm_argFloat_ppc64 v2 e pad self f =
     (let both = p64_f self < 13 \<and> p64_i self < 8;
          d = double_of_float f;
          self = (if p64_f self < 13 then ppc64_float_reg self d else self);
          self = (if both then ppc64_int_reg self d else self);
          sf = (if e = BE then obj_bytes e 4 pad @ obj_bytes e 4 f else obj_bytes e 4 f @ obj_bytes e 4 pad)
      in if v2 \<and> both then self else ppc64_append (ppc64_skip v2 64 self) sf)"

definition dc_callvm_argLongLong_ppc64 :: "bool \<Rightarrow> endian \<Rightarrow> DCCallVM_ppc64 \<Rightarrow> u64 \<Rightarrow> DCCallVM_ppc64" where
  "dc_callvm_argLongLong_ppc64 v2 e self L =
     (let reg = p64_i self < 8;
          self = (if reg then ppc64_int_reg self L else self)
      in if v2 \<and> reg then self else ppc64_append (ppc64_skip v2 64 self) (obj_bytes e 8 L))"

definition dc_callvm_argLongLong_ppc64_ellipsis :: "endian \<Rightarrow> DCCallVM_ppc64 \<Rightarrow> u64 \<Rightarrow> DCCallVM_ppc64" where
  "dc_callvm_argLongLong_ppc64_ellipsis e self L =
     (let self = ppc64_skip True (8 * p64_i self) self;
          self = (if p64_i self < 8 then ppc64_int_reg self L else self)
      in ppc64_append self (obj_bytes e 8 L))"

text \<open>\<open>dcArgLongLong\<close> and \<open>dcArgDouble\<close>, which other functions call, go through the table of the VM.\<close>

definition dcArgLongLong_ppc64 :: "bool \<Rightarrow> endian \<Rightarrow> DCCallVM_ppc64 \<Rightarrow> u64 \<Rightarrow> DCCallVM_ppc64" where
  "dcArgLongLong_ppc64 v2 e self L =
     (if mVTpointer self = gVT_ppc64_ellipsis then dc_callvm_argLongLong_ppc64_ellipsis e self L
      else dc_callvm_argLongLong_ppc64 v2 e self L)"

definition dcArgDouble_ppc64 :: "bool \<Rightarrow> endian \<Rightarrow> DCCallVM_ppc64 \<Rightarrow> u64 \<Rightarrow> DCCallVM_ppc64" where
  "dcArgDouble_ppc64 v2 e self d =
     (if mVTpointer self = gVT_ppc64_ellipsis then dc_callvm_argDouble_ppc64_ellipsis e self d
      else dc_callvm_argDouble_ppc64 v2 e self d)"

definition dc_callvm_argFloat_ppc64_ellipsis :: "bool \<Rightarrow> endian \<Rightarrow> DCCallVM_ppc64 \<Rightarrow> u32 \<Rightarrow> DCCallVM_ppc64" where
  "dc_callvm_argFloat_ppc64_ellipsis v2 e self f = dcArgDouble_ppc64 v2 e self (double_of_float f)"

definition dc_callvm_argInt_ppc64 :: "bool \<Rightarrow> endian \<Rightarrow> DCCallVM_ppc64 \<Rightarrow> u32 \<Rightarrow> DCCallVM_ppc64" where
  "dc_callvm_argInt_ppc64 v2 e self i = dcArgLongLong_ppc64 v2 e self (scast i)"

definition dc_callvm_argBool_ppc64 :: "bool \<Rightarrow> endian \<Rightarrow> DCCallVM_ppc64 \<Rightarrow> u32 \<Rightarrow> DCCallVM_ppc64" where
  "dc_callvm_argBool_ppc64 v2 e self x = dcArgLongLong_ppc64 v2 e self (scast x)"

definition dc_callvm_argChar_ppc64 :: "bool \<Rightarrow> endian \<Rightarrow> bool \<Rightarrow> DCCallVM_ppc64 \<Rightarrow> u8 \<Rightarrow> DCCallVM_ppc64" where
  "dc_callvm_argChar_ppc64 v2 e cs self ch = dcArgLongLong_ppc64 v2 e self (if cs then scast ch else ucast ch)"

definition dc_callvm_argShort_ppc64 :: "bool \<Rightarrow> endian \<Rightarrow> DCCallVM_ppc64 \<Rightarrow> u16 \<Rightarrow> DCCallVM_ppc64" where
  "dc_callvm_argShort_ppc64 v2 e self s = dcArgLongLong_ppc64 v2 e self (scast s)"

definition dc_callvm_argLong_ppc64 :: "bool \<Rightarrow> endian \<Rightarrow> DCCallVM_ppc64 \<Rightarrow> u64 \<Rightarrow> DCCallVM_ppc64" where
  "dc_callvm_argLong_ppc64 v2 e self l = dcArgLongLong_ppc64 v2 e self l"

definition dc_callvm_argPointer_ppc64 :: "bool \<Rightarrow> endian \<Rightarrow> DCCallVM_ppc64 \<Rightarrow> u64 \<Rightarrow> DCCallVM_ppc64" where
  "dc_callvm_argPointer_ppc64 v2 e self p = dcArgLongLong_ppc64 v2 e self p"

definition ppc64_call_of :: "DCCallVM_ppc64 \<Rightarrow> u64 \<Rightarrow> ppc64_call" where
  "ppc64_call_of self target =
     \<lparr>p64c_target = target, p64c_int = p64_int self, p64c_float = p64_float self, p64c_size = mSize (p64_vec self),
      p64c_data = mData (p64_vec self)\<rparr>"

text \<open>The size is compared as an \<open>int\<close>.\<close>

definition dc_callvm_call_ppc64 :: "DCCallVM_ppc64 \<Rightarrow> u64 \<Rightarrow> DCCallVM_ppc64 \<times> ppc64_kernel" where
  "dc_callvm_call_ppc64 self target =
     (let size = ucast (mSize (p64_vec self)) :: u32;
          self = (if sint size < 64 then self\<lparr>p64_vec := dcVecSkip (p64_vec self) (scast (64 - size))\<rparr> else self)
      in (self, dcCall_ppc64 (ppc64_call_of self target)))"

definition dc_callvm_call_ppc64_syscall :: "DCCallVM_ppc64 \<Rightarrow> u64 \<Rightarrow> DCCallVM_ppc64 \<times> ppc64_kernel" where
  "dc_callvm_call_ppc64_syscall self target = (self, dcCall_ppc64_syscall (ppc64_call_of self target))"

definition dc_callvm_mode_ppc64 :: "bool \<Rightarrow> DCCallVM_ppc64 \<Rightarrow> u32 \<Rightarrow> DCCallVM_ppc64" where
  "dc_callvm_mode_ppc64 v2 self mode =
     (if mode \<in> {DC_CALL_C_DEFAULT, DC_CALL_C_DEFAULT_THIS, DC_CALL_C_PPC64, DC_CALL_C_ELLIPSIS}
      then dc_callvm_base_init self gVT_ppc64
      else if mode = DC_CALL_C_ELLIPSIS_VARARGS
      then dc_callvm_base_init self (if v2 then gVT_ppc64_ellipsis else gVT_ppc64)
      else if mode \<in> {DC_CALL_SYS_DEFAULT, DC_CALL_SYS_PPC64} then dc_callvm_base_init self gVT_ppc64_syscall
      else self\<lparr>mError := DC_ERROR_UNSUPPORTED_MODE\<rparr>)"

definition vt_ppc64 :: "bool \<Rightarrow> endian \<Rightarrow> bool \<Rightarrow> u32 \<Rightarrow> (DCCallVM_ppc64, u64, u64, ppc64_kernel) DCCallVM_vt" where
  "vt_ppc64 v2 e cs pad =
     \<lparr>vt_free = dc_callvm_free_ppc64, vt_reset = dc_callvm_reset_ppc64, vt_mode = dc_callvm_mode_ppc64 v2,
      vt_argBool = dc_callvm_argBool_ppc64 v2 e, vt_argChar = dc_callvm_argChar_ppc64 v2 e cs,
      vt_argShort = dc_callvm_argShort_ppc64 v2 e, vt_argInt = dc_callvm_argInt_ppc64 v2 e,
      vt_argLong = dc_callvm_argLong_ppc64 v2 e, vt_argLongLong = dc_callvm_argLongLong_ppc64 v2 e,
      vt_argFloat = dc_callvm_argFloat_ppc64 v2 e pad, vt_argDouble = dc_callvm_argDouble_ppc64 v2 e,
      vt_argPointer = dc_callvm_argPointer_ppc64 v2 e, vt_argAggr = None,
      vt_call = (\<lambda>_. dc_callvm_call_ppc64), vt_callAggr = None, vt_beginAggr = None\<rparr>"

definition vt_ppc64_ellipsis :: "bool \<Rightarrow> endian \<Rightarrow> bool \<Rightarrow> (DCCallVM_ppc64, u64, u64, ppc64_kernel) DCCallVM_vt" where
  "vt_ppc64_ellipsis v2 e cs =
     \<lparr>vt_free = dc_callvm_free_ppc64, vt_reset = dc_callvm_reset_ppc64, vt_mode = dc_callvm_mode_ppc64 v2,
      vt_argBool = dc_callvm_argBool_ppc64 v2 e, vt_argChar = dc_callvm_argChar_ppc64 v2 e cs,
      vt_argShort = dc_callvm_argShort_ppc64 v2 e, vt_argInt = dc_callvm_argInt_ppc64 v2 e,
      vt_argLong = dc_callvm_argLong_ppc64 v2 e, vt_argLongLong = dc_callvm_argLongLong_ppc64_ellipsis e,
      vt_argFloat = dc_callvm_argFloat_ppc64_ellipsis v2 e, vt_argDouble = dc_callvm_argDouble_ppc64_ellipsis e,
      vt_argPointer = dc_callvm_argPointer_ppc64 v2 e, vt_argAggr = None,
      vt_call = (\<lambda>_. dc_callvm_call_ppc64), vt_callAggr = None, vt_beginAggr = None\<rparr>"

definition vt_ppc64_syscall :: "bool \<Rightarrow> endian \<Rightarrow> bool \<Rightarrow> u32 \<Rightarrow> (DCCallVM_ppc64, u64, u64, ppc64_kernel) DCCallVM_vt" where
  "vt_ppc64_syscall v2 e cs pad =
     \<lparr>vt_free = dc_callvm_free_ppc64, vt_reset = dc_callvm_reset_ppc64, vt_mode = dc_callvm_mode_ppc64 v2,
      vt_argBool = dc_callvm_argBool_ppc64 v2 e, vt_argChar = dc_callvm_argChar_ppc64 v2 e cs,
      vt_argShort = dc_callvm_argShort_ppc64 v2 e, vt_argInt = dc_callvm_argInt_ppc64 v2 e,
      vt_argLong = dc_callvm_argLong_ppc64 v2 e, vt_argLongLong = dc_callvm_argLongLong_ppc64 v2 e,
      vt_argFloat = dc_callvm_argFloat_ppc64 v2 e pad, vt_argDouble = dc_callvm_argDouble_ppc64 v2 e,
      vt_argPointer = dc_callvm_argPointer_ppc64 v2 e, vt_argAggr = None,
      vt_call = (\<lambda>_. dc_callvm_call_ppc64_syscall), vt_callAggr = None, vt_beginAggr = None\<rparr>"

fun vtab_ppc64 :: "bool \<Rightarrow> endian \<Rightarrow> bool \<Rightarrow> u32 \<Rightarrow> vt_ppc64_id \<Rightarrow> (DCCallVM_ppc64, u64, u64, ppc64_kernel) DCCallVM_vt" where
  "vtab_ppc64 v2 e cs pad gVT_ppc64 = vt_ppc64 v2 e cs pad"
| "vtab_ppc64 v2 e cs pad gVT_ppc64_ellipsis = vt_ppc64_ellipsis v2 e cs"
| "vtab_ppc64 v2 e cs pad gVT_ppc64_syscall = vt_ppc64_syscall v2 e cs pad"

definition dcNewCallVM_ppc64 :: "bool \<Rightarrow> DCCallVM_ppc64 \<Rightarrow> u64 \<Rightarrow> DCCallVM_ppc64" where
  "dcNewCallVM_ppc64 v2 p sz =
     (let p = dc_callvm_mode_ppc64 v2 p DC_CALL_C_DEFAULT
      in dc_callvm_reset_ppc64 (p\<lparr>p64_vec := dcVecInit (p64_vec p) sz\<rparr>))"

subsection \<open>The reader\<close>

record DCArgs_ppc64 =
  rp64_int :: "nat \<Rightarrow> u64"
  rp64_float :: "nat \<Rightarrow> u64"
  rp64_sp :: nat
  rp64_i :: nat
  rp64_f :: nat
  rp64_stack :: mem

text \<open>The pointer to the stack moves with every argument, also with one that is read from a register.\<close>

definition dcbArgLongLong_ppc64 :: "endian \<Rightarrow> DCArgs_ppc64 \<Rightarrow> u64 \<times> DCArgs_ppc64" where
  "dcbArgLongLong_ppc64 e p =
     (let (value, q) = (if rp64_i p < 8 then (rp64_int p (rp64_i p), p\<lparr>rp64_i := rp64_i p + 1\<rparr>)
                        else (obj_word e (read_at (rp64_stack p) (rp64_sp p) 8), p))
      in (value, q\<lparr>rp64_sp := rp64_sp q + 8\<rparr>))"

definition dcbArgDouble_ppc64 :: "endian \<Rightarrow> DCArgs_ppc64 \<Rightarrow> u64 \<times> DCArgs_ppc64" where
  "dcbArgDouble_ppc64 e p =
     (let (value, q) = (if rp64_f p < 13 then
             (rp64_float p (rp64_f p), p\<lparr>rp64_f := rp64_f p + 1, rp64_i := (if rp64_i p < 8 then rp64_i p + 1 else rp64_i p)\<rparr>)
           else (obj_word e (read_at (rp64_stack p) (rp64_sp p) 8), p))
      in (value, q\<lparr>rp64_sp := rp64_sp q + 8\<rparr>))"

definition dcbArgFloat_ppc64 :: "endian \<Rightarrow> DCArgs_ppc64 \<Rightarrow> u32 \<times> DCArgs_ppc64" where
  "dcbArgFloat_ppc64 e p =
     (let (value, q) = (if rp64_f p < 13 then
             (float_of_double (rp64_float p (rp64_f p)),
              p\<lparr>rp64_f := rp64_f p + 1, rp64_i := (if rp64_i p < 8 then rp64_i p + 1 else rp64_i p)\<rparr>)
           else (obj_word e (read_at (rp64_stack p) (rp64_sp p + (if e = BE then 4 else 0)) 4), p))
      in (value, q\<lparr>rp64_sp := rp64_sp q + 8\<rparr>))"

fun dcbArg_ppc64 :: "endian \<Rightarrow> DCArgs_ppc64 \<Rightarrow> dcty \<Rightarrow> (u64, u64) dcarg \<times> DCArgs_ppc64" where
  "dcbArg_ppc64 e p TBool = map_prod (\<lambda>x. ABool (ucast x)) id (dcbArgLongLong_ppc64 e p)"
| "dcbArg_ppc64 e p TChar = map_prod (\<lambda>x. AChar (ucast x)) id (dcbArgLongLong_ppc64 e p)"
| "dcbArg_ppc64 e p TShort = map_prod (\<lambda>x. AShort (ucast x)) id (dcbArgLongLong_ppc64 e p)"
| "dcbArg_ppc64 e p TInt = map_prod (\<lambda>x. AInt (ucast x)) id (dcbArgLongLong_ppc64 e p)"
| "dcbArg_ppc64 e p TLong = map_prod ALong id (dcbArgLongLong_ppc64 e p)"
| "dcbArg_ppc64 e p TLongLong = map_prod ALongLong id (dcbArgLongLong_ppc64 e p)"
| "dcbArg_ppc64 e p TFloat = map_prod AFloat id (dcbArgFloat_ppc64 e p)"
| "dcbArg_ppc64 e p TDouble = map_prod ADouble id (dcbArgDouble_ppc64 e p)"
| "dcbArg_ppc64 e p TPointer = map_prod APointer id (dcbArgLongLong_ppc64 e p)"

text \<open>The kernel copies whole double words of the lower half of \<open>size\<close> to the parameter area and loads the registers;
  the entry spills them and clears the counters.\<close>

definition entry_ppc64 :: "mem \<Rightarrow> ppc64_call \<Rightarrow> DCArgs_ppc64" where
  "entry_ppc64 caller c =
     \<lparr>rp64_int = p64c_int c, rp64_float = p64c_float c, rp64_sp = 0, rp64_i = 0, rp64_f = 0,
      rp64_stack = stack_copy caller (8 * (unat (ucast (p64c_size c) :: u32) div 8)) (p64c_data c)\<rparr>"

subsection \<open>The round trip\<close>

text \<open>The place of the next argument on the stack: with version 2 an empty vector means that all arguments so far are in
  registers only.\<close>

definition ppc64_pos :: "bool \<Rightarrow> DCCallVM_ppc64 \<Rightarrow> nat" where
  "ppc64_pos v2 s = (if v2 \<and> mSize (p64_vec s) = 0 then 8 * p64_i s else unat (mSize (p64_vec s)))"

definition ppc64_ok :: "DCCallVM_ppc64 \<Rightarrow> bool" where
  "ppc64_ok s \<longleftrightarrow> p64_i s \<le> 8 \<and> p64_f s \<le> 13 \<and> (p64_f s \<le> p64_i s \<or> p64_i s = 8) \<and> vec_ok (p64_vec s) \<and>
     unat (mTotal (p64_vec s)) < 2 ^ 31 \<and> 8 dvd unat (mSize (p64_vec s))"

definition ppc64_inv :: "bool \<Rightarrow> DCCallVM_ppc64 \<Rightarrow> bool" where
  "ppc64_inv v2 s \<longleftrightarrow> ppc64_ok s \<and> mVTpointer s = gVT_ppc64 \<and> (v2 \<and> p64_i s < 8 \<longrightarrow> mSize (p64_vec s) = 0)"

definition ppc64_var_inv :: "DCCallVM_ppc64 \<Rightarrow> bool" where
  "ppc64_var_inv s \<longleftrightarrow> ppc64_ok s \<and> mVTpointer s = gVT_ppc64_ellipsis"

definition ppc64_keeps :: "DCCallVM_ppc64 \<Rightarrow> DCCallVM_ppc64 \<Rightarrow> bool" where
  "ppc64_keeps s t \<longleftrightarrow> p64_i s \<le> p64_i t \<and> p64_f s \<le> p64_f t \<and>
     (\<forall>j < p64_i s. p64_int t j = p64_int s j) \<and> (\<forall>j < p64_f s. p64_float t j = p64_float s j) \<and>
     vec_keeps (p64_vec s) (p64_vec t) \<and> ppc64_ok t"

text \<open>A NaN may not survive in a register; it costs more than any vector has.\<close>

definition ppc64_cost :: "(u64, u64) dcarg \<Rightarrow> nat" where
  "ppc64_cost a = (case a of AFloat x \<Rightarrow> if is_nan32 x then 2 ^ 32 else 8 | _ \<Rightarrow> 8)"

definition ppc64_fits :: "bool \<Rightarrow> DCCallVM_ppc64 \<Rightarrow> (u64, u64) dcarg \<Rightarrow> bool" where
  "ppc64_fits v2 s a \<longleftrightarrow> ppc64_pos v2 s + ppc64_cost a \<le> unat (mTotal (p64_vec s))"

lemma ppc64_fitsD:
  assumes "ppc64_ok s" and "ppc64_fits v2 s a"
  shows "ppc64_pos v2 s + 8 \<le> unat (mTotal (p64_vec s))" and "a = AFloat x \<Longrightarrow> \<not> is_nan32 x" and "ppc64_cost a = 8"
  using assms by (cases a; auto simp: ppc64_ok_def ppc64_fits_def ppc64_cost_def split: if_splits)+

text \<open>What the callee sees of a call: the registers and at least the vector.\<close>

definition ppc64_calls :: "DCCallVM_ppc64 \<Rightarrow> ppc64_call \<Rightarrow> bool" where
  "ppc64_calls F c \<longleftrightarrow> p64c_int c = p64_int F \<and> p64c_float c = p64_float F \<and> p64c_data c = mData (p64_vec F) \<and>
     unat (mSize (p64_vec F)) \<le> unat (p64c_size c) \<and> unat (p64c_size c) < 2 ^ 31"

definition ppc64_view :: "bool \<Rightarrow> mem \<Rightarrow> ppc64_call \<Rightarrow> DCCallVM_ppc64 \<Rightarrow> DCArgs_ppc64" where
  "ppc64_view v2 caller c s = (entry_ppc64 caller c)\<lparr>rp64_sp := ppc64_pos v2 s, rp64_i := p64_i s, rp64_f := p64_f s\<rparr>"

lemma ppc64_stack_read:
  assumes "ppc64_calls F c" and "ppc64_ok F" and "q + n \<le> unat (mSize (p64_vec F))"
  shows "read_at (rp64_stack (entry_ppc64 caller c)) q n = read_at (mData (p64_vec F)) q n"
proof -
  from assms(1) have s: "unat (mSize (p64_vec F)) \<le> unat (p64c_size c)" "unat (p64c_size c) < 2 ^ 31"
    by (simp_all add: ppc64_calls_def)
  then have "unat (ucast (p64c_size c) :: u32) = unat (p64c_size c)"
    by (simp add: unsigned_ucast_eq unsigned_take_bit_eq take_bit_nat_eq_self)
  moreover have "unat (mSize (p64_vec F)) \<le> 8 * (unat (p64c_size c) div 8)"
    using s(1) assms(2) by (auto simp: ppc64_ok_def elim!: dvdE)
  ultimately show ?thesis using assms by (simp add: entry_ppc64_def ppc64_calls_def stack_copy_read)
qed

text \<open>The vector after an argument that takes its place on the stack.\<close>

definition vec_place :: "bool \<Rightarrow> nat \<Rightarrow> byte list \<Rightarrow> u64 vec \<Rightarrow> u64 vec" where
  "vec_place v2 n bs v = dcVecAppend (if v2 \<and> mSize v = 0 then dcVecSkip v (of_nat n) else v) bs"

lemma vec_place:
  assumes "ppc64_ok s" and "length bs = 8" and "ppc64_pos v2 s + 8 \<le> unat (mTotal (p64_vec s))"
  defines "w \<equiv> vec_place v2 (8 * p64_i s) bs (p64_vec s)"
  shows "unat (mSize w) = ppc64_pos v2 s + 8" and "vec_ok w" and "mTotal w = mTotal (p64_vec s)"
    and "vec_keeps (p64_vec s) w" and "vec_keeps w q \<Longrightarrow> read_at (mData q) (ppc64_pos v2 s) 8 = bs"
proof -
  let ?v = "p64_vec s" and ?n = "8 * p64_i s"
  let ?u = "if v2 \<and> mSize ?v = 0 then dcVecSkip ?v (of_nat ?n) else ?v"
  have n: "unat (of_nat ?n :: u64) = ?n" unfolding unat_of_nat using assms(1) by (simp add: ppc64_ok_def)
  have f: "v2 \<Longrightarrow> mSize ?v = 0 \<Longrightarrow> vec_fits ?v ?n" using assms(3) by (simp add: ppc64_pos_def vec_fits_def)
  have u: "unat (mSize ?u) = ppc64_pos v2 s" "vec_keeps ?v ?u" "mTotal ?u = mTotal ?v"
    using vec_keeps_skip [OF f] vec_keeps_refl n by (auto simp: ppc64_pos_def dcVecSkip_def)
  then have f8: "vec_fits ?u 8" using assms(3) by (simp add: vec_fits_def del: if_split)
  show "unat (mSize w) = ppc64_pos v2 s + 8"
    using f8 u assms(2) by (simp add: w_def vec_place_def vec_append_used del: if_split)
  show "vec_ok w" and "mTotal w = mTotal ?v"
    using vec_ok_append [OF vec_fits_ok [OF f8]] u by (simp_all add: w_def vec_place_def del: if_split)
  have "vec_keeps ?u w" unfolding w_def vec_place_def using f8 assms(2) by (intro vec_keeps_append) (simp del: if_split)
  then show "vec_keeps ?v w" by (rule vec_keeps_trans [OF u(2)])
  show "read_at (mData q) (ppc64_pos v2 s) 8 = bs" if "vec_keeps w q"
    using read_appended [OF f8 _, of bs q] that assms(2) u(1) by (simp add: w_def vec_place_def del: if_split)
qed

text \<open>What passing one argument does: \<open>fp\<close> for a floating point one, \<open>w\<close> is its register value and \<open>bs\<close> its place on the
  stack, if it gets one.\<close>

definition ppc64_step :: "bool \<Rightarrow> bool \<Rightarrow> bool \<Rightarrow> u64 \<Rightarrow> byte list \<Rightarrow> DCCallVM_ppc64 \<Rightarrow> DCCallVM_ppc64 \<Rightarrow> bool" where
  "ppc64_step v2 stacked fp w bs s t \<longleftrightarrow> mVTpointer t = mVTpointer s \<and>
     p64_f t = (if fp \<and> p64_f s < 13 then p64_f s + 1 else p64_f s) \<and>
     p64_i t = (if (fp \<longrightarrow> p64_f s < 13) \<and> p64_i s < 8 then p64_i s + 1 else p64_i s) \<and>
     (\<forall>j < p64_i s. p64_int t j = p64_int s j) \<and> (\<not> fp \<and> p64_i s < 8 \<longrightarrow> p64_int t (p64_i s) = w) \<and>
     (\<forall>j < p64_f s. p64_float t j = p64_float s j) \<and> (fp \<and> p64_f s < 13 \<longrightarrow> p64_float t (p64_f s) = w) \<and>
     p64_vec t = (if stacked then vec_place v2 (8 * p64_i s) bs (p64_vec s) else p64_vec s) \<and>
     (\<not> stacked \<longrightarrow> v2 \<and> p64_i s < 8 \<and> mSize (p64_vec s) = 0)"

lemma ppc64_step:
  assumes "ppc64_ok s" and "length bs = 8" and "ppc64_pos v2 s + 8 \<le> unat (mTotal (p64_vec s))"
    and "ppc64_step v2 stacked fp w bs s t"
  shows "ppc64_ok t" and "ppc64_keeps s t" and "ppc64_pos v2 t = ppc64_pos v2 s + 8"
    and "mTotal (p64_vec t) = mTotal (p64_vec s)"
proof -
  note vp = vec_place [OF assms(1-3)]
  have d: "8 dvd ppc64_pos v2 s" using assms(1) by (simp add: ppc64_pos_def ppc64_ok_def)
  have nz: "stacked \<Longrightarrow> mSize (p64_vec t) \<noteq> 0" using vp(1) assms(4) by (auto simp: ppc64_step_def)
  show ok: "ppc64_ok t" using assms(1,4) vp d by (auto simp: ppc64_step_def ppc64_ok_def split: if_splits)
  show "ppc64_keeps s t" using assms(4) vp(4) ok by (auto simp: ppc64_step_def ppc64_keeps_def)
  show "mTotal (p64_vec t) = mTotal (p64_vec s)" using assms(4) vp(3) by (auto simp: ppc64_step_def)
  show "ppc64_pos v2 t = ppc64_pos v2 s + 8"
    using assms(1,4) vp(1) nz by (cases stacked) (auto simp: ppc64_step_def ppc64_pos_def ppc64_ok_def)
qed

text \<open>What the reader finds.\<close>

lemma ppc64_step_read:
  assumes "ppc64_ok s" and "length bs = 8" and "ppc64_pos v2 s + 8 \<le> unat (mTotal (p64_vec s))"
    and "ppc64_step v2 stacked fp w bs s t" and "ppc64_keeps t F" and "ppc64_calls F c"
  shows "stacked \<Longrightarrow> read_at (rp64_stack (entry_ppc64 caller c)) (ppc64_pos v2 s) 8 = bs"
    and "\<not> fp \<Longrightarrow> p64_i s < 8 \<Longrightarrow> p64c_int c (p64_i s) = w" and "fp \<Longrightarrow> p64_f s < 13 \<Longrightarrow> p64c_float c (p64_f s) = w"
    and "fp \<Longrightarrow> p64_f s = 13 \<Longrightarrow> stacked" and "\<not> fp \<Longrightarrow> p64_i s = 8 \<Longrightarrow> stacked"
proof -
  note vp = vec_place [OF assms(1-3)]
  show "read_at (rp64_stack (entry_ppc64 caller c)) (ppc64_pos v2 s) 8 = bs" if stacked
  proof -
    have k: "vec_keeps (vec_place v2 (8 * p64_i s) bs (p64_vec s)) (p64_vec F)" and ok: "ppc64_ok F"
      using that assms(4,5) by (auto simp: ppc64_step_def ppc64_keeps_def)
    then have "ppc64_pos v2 s + 8 \<le> unat (mSize (p64_vec F))" using vp(1) by (simp add: vec_keeps_def)
    from ppc64_stack_read [OF assms(6) ok this] vp(5) [OF k] show ?thesis by simp
  qed
  show "\<not> fp \<Longrightarrow> p64_i s < 8 \<Longrightarrow> p64c_int c (p64_i s) = w" and "fp \<Longrightarrow> p64_f s < 13 \<Longrightarrow> p64c_float c (p64_f s) = w"
    using assms(4-6) by (auto simp: ppc64_step_def ppc64_keeps_def ppc64_calls_def)
  show "fp \<Longrightarrow> p64_f s = 13 \<Longrightarrow> stacked" and "\<not> fp \<Longrightarrow> p64_i s = 8 \<Longrightarrow> stacked"
    using assms(1,4) by (auto simp: ppc64_step_def ppc64_ok_def)
qed

lemma ppc64_pop_int:
  assumes "ppc64_ok s" and "ppc64_pos v2 s + 8 \<le> unat (mTotal (p64_vec s))"
    and "ppc64_step v2 stacked False x (obj_bytes e 8 x) s t" and "ppc64_keeps t F" and "ppc64_calls F c"
  shows "dcbArgLongLong_ppc64 e (ppc64_view v2 caller c s) = (x, ppc64_view v2 caller c t)"
proof -
  note r = ppc64_step_read [OF assms(1) _ assms(2-5), simplified]
  note n = ppc64_step [OF assms(1) _ assms(2,3), simplified]
  have "p64_i s < 8 \<or> p64_i s = 8" using assms(1) by (auto simp: ppc64_ok_def)
  then show ?thesis
    using r n(3) assms(3) by (auto simp: dcbArgLongLong_ppc64_def ppc64_view_def entry_ppc64_def ppc64_step_def obj_word_obj_bytes)
qed

lemma ppc64_pop_double:
  assumes "ppc64_ok s" and "ppc64_pos v2 s + 8 \<le> unat (mTotal (p64_vec s))"
    and "ppc64_step v2 stacked True d (obj_bytes e 8 d) s t" and "ppc64_keeps t F" and "ppc64_calls F c"
  shows "dcbArgDouble_ppc64 e (ppc64_view v2 caller c s) = (d, ppc64_view v2 caller c t)"
proof -
  note r = ppc64_step_read [OF assms(1) _ assms(2-5), simplified]
  note n = ppc64_step [OF assms(1) _ assms(2,3), simplified]
  have "p64_f s < 13 \<or> p64_f s = 13" using assms(1) by (auto simp: ppc64_ok_def)
  then show ?thesis
    using r n(3) assms(3) by (auto simp: dcbArgDouble_ppc64_def ppc64_view_def entry_ppc64_def ppc64_step_def obj_word_obj_bytes)
qed

definition ppc64_slot_float :: "endian \<Rightarrow> u32 \<Rightarrow> u32 \<Rightarrow> byte list" where
  "ppc64_slot_float e pad f = (if e = BE then obj_bytes e 4 pad @ obj_bytes e 4 f else obj_bytes e 4 f @ obj_bytes e 4 pad)"

lemma ppc64_pop_float:
  assumes "ppc64_ok s" and "ppc64_pos v2 s + 8 \<le> unat (mTotal (p64_vec s))"
    and "ppc64_step v2 stacked True (double_of_float f) (ppc64_slot_float e pad f) s t" and "ppc64_keeps t F"
    and "ppc64_calls F c" and "\<not> is_nan32 f"
  shows "dcbArgFloat_ppc64 e (ppc64_view v2 caller c s) = (f, ppc64_view v2 caller c t)"
proof -
  have l: "length (ppc64_slot_float e pad f) = 8" by (simp add: ppc64_slot_float_def)
  note r = ppc64_step_read [OF assms(1) l assms(2-5)]
  note n = ppc64_step [OF assms(1) l assms(2,3)]
  have "stacked \<Longrightarrow> read_at (rp64_stack (entry_ppc64 caller c)) (ppc64_pos v2 s + (if e = BE then 4 else 0)) 4 = obj_bytes e 4 f"
    using read_at_part [of 4 4 8 "rp64_stack (entry_ppc64 caller c)" "ppc64_pos v2 s"]
      read_at_part [of 0 4 8 "rp64_stack (entry_ppc64 caller c)" "ppc64_pos v2 s"] r(1)
    by (cases e) (simp_all add: ppc64_slot_float_def)
  moreover have "p64_f s < 13 \<or> p64_f s = 13" using assms(1) by (auto simp: ppc64_ok_def)
  ultimately show ?thesis
    using r(3,4) n(3) assms(3,6)
    by (auto simp: dcbArgFloat_ppc64_def ppc64_view_def entry_ppc64_def ppc64_step_def obj_word_obj_bytes float_of_double_of_float)
qed


text \<open>The functions of the tables.\<close>

fun ppc64_reg :: "bool \<Rightarrow> (u64, u64) dcarg \<Rightarrow> u64" where
  "ppc64_reg cs (ABool x) = scast x"
| "ppc64_reg cs (AChar x) = (if cs then scast x else ucast x)"
| "ppc64_reg cs (AShort x) = scast x"
| "ppc64_reg cs (AInt x) = scast x"
| "ppc64_reg cs (ALong x) = x"
| "ppc64_reg cs (ALongLong x) = x"
| "ppc64_reg cs (AFloat x) = double_of_float x"
| "ppc64_reg cs (ADouble x) = x"
| "ppc64_reg cs (APointer x) = x"

definition ppc64_slot :: "endian \<Rightarrow> bool \<Rightarrow> u32 \<Rightarrow> (u64, u64) dcarg \<Rightarrow> byte list" where
  "ppc64_slot e cs pad a = (case a of AFloat f \<Rightarrow> ppc64_slot_float e pad f | _ \<Rightarrow> obj_bytes e 8 (ppc64_reg cs a))"

lemma length_ppc64_slot [simp]: "length (ppc64_slot e cs pad a) = 8"
  by (simp add: ppc64_slot_def ppc64_slot_float_def split: dcarg.split)

lemmas ppc64_arg_defs = dc_callvm_argBool_ppc64_def dc_callvm_argChar_ppc64_def dc_callvm_argShort_ppc64_def
  dc_callvm_argInt_ppc64_def dc_callvm_argLong_ppc64_def dc_callvm_argPointer_ppc64_def dcArgLongLong_ppc64_def
  dcArgDouble_ppc64_def dc_callvm_argFloat_ppc64_ellipsis_def

lemma ppc64_main_ops:
  assumes "ppc64_inv v2 s"
  shows "ppc64_step v2 (\<not> (v2 \<and> p64_i s < 8)) False x (obj_bytes e 8 x) s (dc_callvm_argLongLong_ppc64 v2 e s x)"
    and "ppc64_step v2 (\<not> (v2 \<and> p64_i s < 8)) True x (obj_bytes e 8 x) s (dc_callvm_argDouble_ppc64 v2 e s x)"
    and "ppc64_step v2 (\<not> (v2 \<and> p64_i s < 8)) True (double_of_float f) (ppc64_slot_float e pad f) s (dc_callvm_argFloat_ppc64 v2 e pad s f)"
proof -
  have i: "p64_i s < 8 \<or> p64_i s = 8" and f: "p64_i s < 8 \<Longrightarrow> p64_f s < 13" and z: "v2 \<Longrightarrow> p64_i s < 8 \<Longrightarrow> mSize (p64_vec s) = 0"
    using assms by (auto simp: ppc64_inv_def ppc64_ok_def)
  note defs = ppc64_step_def ppc64_append_def ppc64_skip_def ppc64_int_reg_def ppc64_float_reg_def vec_place_def
  show "ppc64_step v2 (\<not> (v2 \<and> p64_i s < 8)) False x (obj_bytes e 8 x) s (dc_callvm_argLongLong_ppc64 v2 e s x)"
    using i z by (auto simp: dc_callvm_argLongLong_ppc64_def defs Let_def)
  show "ppc64_step v2 (\<not> (v2 \<and> p64_i s < 8)) True x (obj_bytes e 8 x) s (dc_callvm_argDouble_ppc64 v2 e s x)"
    using i f z by (auto simp: dc_callvm_argDouble_ppc64_def defs Let_def)
  show "ppc64_step v2 (\<not> (v2 \<and> p64_i s < 8)) True (double_of_float f) (ppc64_slot_float e pad f) s (dc_callvm_argFloat_ppc64 v2 e pad s f)"
    using i f z by (auto simp: dc_callvm_argFloat_ppc64_def defs ppc64_slot_float_def Let_def)
qed

lemma ppc64_var_ops:
  assumes "ppc64_ok s"
  shows "ppc64_step True True False x (obj_bytes e 8 x) s (dc_callvm_argLongLong_ppc64_ellipsis e s x)"
    and "ppc64_step True True True x (obj_bytes e 8 x) s (dc_callvm_argDouble_ppc64_ellipsis e s x)"
  by (auto simp: dc_callvm_argLongLong_ppc64_ellipsis_def dc_callvm_argDouble_ppc64_ellipsis_def ppc64_step_def ppc64_append_def
      ppc64_skip_def ppc64_int_reg_def ppc64_float_reg_def vec_place_def Let_def)

lemma ppc64_main_step:
  assumes "ppc64_inv v2 s"
  shows "ppc64_step v2 (\<not> (v2 \<and> p64_i s < 8)) (is_fp a) (ppc64_reg cs a) (ppc64_slot e cs pad a) s (dcArg (vtab_ppc64 v2 e cs pad) s a)"
proof -
  have "mVTpointer s = gVT_ppc64" using assms by (simp add: ppc64_inv_def)
  with ppc64_main_ops [OF assms] show ?thesis by (cases a) (simp_all add: vt_ppc64_def ppc64_arg_defs ppc64_slot_def)
qed

lemma ppc64_var_step:
  assumes "ppc64_var_inv s"
  shows "ppc64_step True True (is_fp a) (ppc64_reg cs (promoted a)) (obj_bytes e 8 (ppc64_reg cs (promoted a))) s
    (dcArg (vtab_ppc64 True e cs pad) s a)"
proof -
  have "mVTpointer s = gVT_ppc64_ellipsis" and ok: "ppc64_ok s" using assms by (simp_all add: ppc64_var_inv_def)
  with ppc64_var_ops [OF ok] show ?thesis by (cases a) (simp_all add: vt_ppc64_ellipsis_def ppc64_arg_defs)
qed

lemma ppc64_pop:
  assumes ok: "ppc64_ok s" and p: "ppc64_pos v2 s + 8 \<le> unat (mTotal (p64_vec s))"
    and s: "ppc64_step v2 stacked (is_fp a) (ppc64_reg cs a) (ppc64_slot e cs pad a) s t" and k: "ppc64_keeps t F"
    and c: "ppc64_calls F c" and nan: "\<And>x. a = AFloat x \<Longrightarrow> \<not> is_nan32 x"
  shows "dcbArg_ppc64 e (ppc64_view v2 caller c s) (arg_ty a) = (a, ppc64_view v2 caller c t)"
  using ppc64_pop_int [OF ok p _ k c, of stacked "ppc64_reg cs a" e caller]
    ppc64_pop_double [OF ok p _ k c, of stacked "ppc64_reg cs a" e caller]
    ppc64_pop_float [OF ok p _ k c, of stacked _ e pad caller] s nan
  by (cases a) (simp_all add: ppc64_slot_def ucast_scast_trunc ucast_ucast_trunc)

definition ppc64_kernel_call :: "ppc64_kernel \<Rightarrow> ppc64_call" where
  "ppc64_kernel_call k = (case k of dcCall_ppc64 c \<Rightarrow> c | dcCall_ppc64_syscall c \<Rightarrow> c)"

text \<open>The reader over the call of the state \<open>F\<close>, at the place of the state \<open>s\<close>.\<close>

definition ppc64_at :: "bool \<Rightarrow> mem \<Rightarrow> u64 \<Rightarrow> DCCallVM_ppc64 \<Rightarrow> DCCallVM_ppc64 \<Rightarrow> DCArgs_ppc64" where
  "ppc64_at v2 caller target F s = ppc64_view v2 caller (ppc64_kernel_call (snd (dc_callvm_call_ppc64 F target))) s"

lemma ppc64_calls_call:
  assumes "ppc64_ok F"
  shows "ppc64_calls F (ppc64_kernel_call (snd (dc_callvm_call_ppc64 F target)))"
proof -
  let ?n = "mSize (p64_vec F)" and ?k = "ucast (mSize (p64_vec F)) :: u32"
  have n: "unat ?n < 2 ^ 31" using assms by (auto simp: ppc64_ok_def intro: vec_size_small)
  then have k: "unat ?k = unat ?n" by (simp add: unsigned_ucast_eq unsigned_take_bit_eq take_bit_nat_eq_self)
  have sk: "sint ?k = int (unat ?n)" using sint_small [of ?k] n k by simp
  have pad: "unat (scast (64 - ?k) :: u64) = 64 - unat ?n" if "unat ?n < 64"
  proof -
    have u: "unat (64 - ?k) = 64 - unat ?n" using that k by (simp add: unat_sub word_le_nat_alt)
    then have "sint (64 - ?k) = int (unat (64 - ?k))" by (intro sint_small) simp
    then have "(scast (64 - ?k) :: u64) = word_of_int (int (unat (64 - ?k)))" by (simp add: scast_eq)
    then show ?thesis unfolding u by (simp add: unat_of_nat)
  qed
  have small: "sint ?k < 64 \<longleftrightarrow> unat ?n < 64" unfolding sk by (simp only: of_nat_less_numeral_iff)
  show ?thesis
  proof (cases "unat ?n < 64")
    case True
    then have "unat (?n + scast (64 - ?k)) = 64" using pad by (simp add: unat_plus_if')
    then show ?thesis
      using True small by (simp add: ppc64_calls_def ppc64_kernel_call_def dc_callvm_call_ppc64_def ppc64_call_of_def dcVecSkip_def Let_def)
  next
    case False
    then show ?thesis
      using n small by (simp add: ppc64_calls_def ppc64_kernel_call_def dc_callvm_call_ppc64_def ppc64_call_of_def Let_def)
  qed
qed

interpretation ppc64: arg_transport_cap "dcArg (vtab_ppc64 v2 e cs pad)" "ppc64_fits v2" "ppc64_inv v2" ppc64_keeps
  "ppc64_at v2 caller target" "dcbArg_ppc64 e" arg_ty "\<lambda>a. a"
  "ppc64_pos v2" "\<lambda>s. unat (mTotal (p64_vec s))" ppc64_cost
  for v2 e cs pad caller target
proof unfold_locales
  fix s a F
  assume i: "ppc64_inv v2 s"
  then have ok: "ppc64_ok s" by (simp add: ppc64_inv_def)
  then show "ppc64_keeps s s" by (simp add: ppc64_keeps_def)
  show "ppc64_pos v2 s + ppc64_cost a \<le> unat (mTotal (p64_vec s)) \<Longrightarrow> ppc64_fits v2 s a" by (simp add: ppc64_fits_def)
  assume f: "ppc64_fits v2 s a"
  note step = ppc64_main_step [OF i, of a cs e pad]
  note p = ppc64_fitsD [OF ok f]
  note st = ppc64_step [OF ok length_ppc64_slot p(1) step]
  show "ppc64_inv v2 (dcArg (vtab_ppc64 v2 e cs pad) s a)"
    using st(1) step i by (auto simp: ppc64_inv_def ppc64_step_def split: if_splits)
  show "ppc64_keeps s (dcArg (vtab_ppc64 v2 e cs pad) s a)"
    and "ppc64_pos v2 (dcArg (vtab_ppc64 v2 e cs pad) s a) \<le> ppc64_pos v2 s + ppc64_cost a"
    and "unat (mTotal (p64_vec (dcArg (vtab_ppc64 v2 e cs pad) s a))) = unat (mTotal (p64_vec s))"
    using st p(3) by simp_all
  assume k: "ppc64_keeps (dcArg (vtab_ppc64 v2 e cs pad) s a) F"
  then have "ppc64_ok F" by (simp add: ppc64_keeps_def)
  from ppc64_pop [OF ok p(1) step k ppc64_calls_call [OF this] p(2)]
  show "dcbArg_ppc64 e (ppc64_at v2 caller target F s) (arg_ty a) = (a, ppc64_at v2 caller target F (dcArg (vtab_ppc64 v2 e cs pad) s a))"
    by (simp add: ppc64_at_def)
qed (auto simp: ppc64_keeps_def intro: vec_keeps_trans)

text \<open>The variable arguments of a variadic function under version 2.\<close>

definition ppc64_var_fits :: "DCCallVM_ppc64 \<Rightarrow> (u64, u64) dcarg \<Rightarrow> bool" where
  "ppc64_var_fits s a \<longleftrightarrow> ppc64_pos True s + 8 \<le> unat (mTotal (p64_vec s))"

lemma ppc64_pop_promoted:
  assumes ok: "ppc64_ok s" and p: "ppc64_pos v2 s + 8 \<le> unat (mTotal (p64_vec s))"
    and s: "ppc64_step v2 stacked (is_fp a) (ppc64_reg cs (promoted a)) (obj_bytes e 8 (ppc64_reg cs (promoted a))) s t"
    and k: "ppc64_keeps t F" and c: "ppc64_calls F c"
  shows "dcbArg_ppc64 e (ppc64_view v2 caller c s) (arg_ty (promoted a)) = (promoted a, ppc64_view v2 caller c t)"
  using ppc64_pop_int [OF ok p _ k c, of stacked "ppc64_reg cs (promoted a)" e caller]
    ppc64_pop_double [OF ok p _ k c, of stacked "ppc64_reg cs (promoted a)" e caller] s
  by (cases a) (simp_all add: ucast_scast_trunc ucast_ucast_trunc)

interpretation ppc64v: arg_transport_cap "dcArg (vtab_ppc64 True e cs pad)" ppc64_var_fits ppc64_var_inv ppc64_keeps
  "ppc64_at True caller target" "dcbArg_ppc64 e" "\<lambda>a. arg_ty (promoted a)" promoted
  "ppc64_pos True" "\<lambda>s. unat (mTotal (p64_vec s))" "\<lambda>_. 8"
  for e cs pad caller target
proof unfold_locales
  fix s a F
  assume i: "ppc64_var_inv s"
  then have ok: "ppc64_ok s" by (simp add: ppc64_var_inv_def)
  then show "ppc64_keeps s s" by (simp add: ppc64_keeps_def)
  show "ppc64_pos True s + 8 \<le> unat (mTotal (p64_vec s)) \<Longrightarrow> ppc64_var_fits s a" by (simp add: ppc64_var_fits_def)
  assume f: "ppc64_var_fits s a"
  then have p: "ppc64_pos True s + 8 \<le> unat (mTotal (p64_vec s))" by (simp add: ppc64_var_fits_def)
  note step = ppc64_var_step [OF i, of a cs e pad]
  note st = ppc64_step [OF ok length_obj_bytes p step]
  show "ppc64_var_inv (dcArg (vtab_ppc64 True e cs pad) s a)"
    using st(1) step i by (auto simp: ppc64_var_inv_def ppc64_step_def)
  show "ppc64_keeps s (dcArg (vtab_ppc64 True e cs pad) s a)"
    and "ppc64_pos True (dcArg (vtab_ppc64 True e cs pad) s a) \<le> ppc64_pos True s + 8"
    and "unat (mTotal (p64_vec (dcArg (vtab_ppc64 True e cs pad) s a))) = unat (mTotal (p64_vec s))"
    using st by simp_all
  assume k: "ppc64_keeps (dcArg (vtab_ppc64 True e cs pad) s a) F"
  then have "ppc64_ok F" by (simp add: ppc64_keeps_def)
  from ppc64_pop_promoted [OF ok p step k ppc64_calls_call [OF this]]
  show "dcbArg_ppc64 e (ppc64_at True caller target F s) (arg_ty (promoted a))
      = (promoted a, ppc64_at True caller target F (dcArg (vtab_ppc64 True e cs pad) s a))"
    by (simp add: ppc64_at_def)
qed (auto simp: ppc64_keeps_def intro: vec_keeps_trans)

interpretation ppc64x: variadic_transport "dcArg (vtab_ppc64 True e cs pad)" "ppc64_fits True" "ppc64_inv True" ppc64_keeps
  "ppc64_at True caller target" "dcbArg_ppc64 e" arg_ty "\<lambda>a. a" "ppc64_pos True" "\<lambda>s. unat (mTotal (p64_vec s))" ppc64_cost
  "dcArg (vtab_ppc64 True e cs pad)" ppc64_var_fits ppc64_var_inv "\<lambda>a. arg_ty (promoted a)" promoted "\<lambda>_. 8"
  "\<lambda>s. dc_callvm_base_init s gVT_ppc64_ellipsis"
  for e cs pad caller target
  by unfold_locales (auto simp: ppc64_inv_def ppc64_var_inv_def ppc64_ok_def ppc64_keeps_def dc_callvm_base_init_def ppc64_at_def
      ppc64_view_def ppc64_pos_def)

lemma dcReset_ppc64: "dcReset (vtab_ppc64 v2 e cs pad) vm = dc_callvm_reset_ppc64 vm"
  by (cases "mVTpointer vm") (simp_all add: dcReset_def vt_ppc64_def vt_ppc64_ellipsis_def vt_ppc64_syscall_def)

text \<open>C27: On 64 bit PowerPC, with both versions of the ELF ABI and in both byte orders, every list of scalar
  arguments that a program passes after \<open>dcReset\<close> is what the handler of a callback reads; with version 2 so are arguments
  that follow in the mode for the variable part of a variadic function, a float as a double. The vector must
  hold eight bytes for each; a float among the fixed arguments must not be a NaN.\<close>

theorem ppc64_arguments_arrive:
  fixes v2 e cs pad
  assumes "unat (mTotal (p64_vec vm)) < 2 ^ 31" and "8 * length (xs @ ys) \<le> unat (mTotal (p64_vec vm))"
    and "\<forall>x. AFloat x \<in> set xs \<longrightarrow> \<not> is_nan32 x" and "mVTpointer vm = gVT_ppc64"
    and "ys \<noteq> [] \<longrightarrow> v2"
  defines "V \<equiv> vtab_ppc64 v2 e cs pad"
  defines "A \<equiv> dcArgs V (dcReset V vm) xs"
  defines "B \<equiv> if ys = [] then A else dcArgs V (dcMode V A DC_CALL_C_ELLIPSIS_VARARGS) ys"
  shows "\<exists>k. snd (dcCall V c B target) = dcCall_ppc64 k \<and>
     fst (pop_all (dcbArg_ppc64 e) (entry_ppc64 caller k) (map arg_ty (xs @ map promoted ys))) = xs @ map promoted ys"
proof -
  let ?s = "dc_callvm_reset_ppc64 vm"
  have inv: "ppc64_inv v2 ?s"
    using assms(1,4) by (simp add: ppc64_inv_def ppc64_ok_def dc_callvm_reset_ppc64_def dcVecReset_def vec_ok_def)
  have "map ppc64_cost xs = map (\<lambda>_. 8) xs" using assms(3) by (auto simp: ppc64_cost_def split: dcarg.split)
  then have cost: "sum_list (map ppc64_cost xs) = 8 * length xs" by (simp only: sum_list_triv) (simp add: mult.commute)
  have p: "ppc64_pos v2 ?s = 0" "mTotal (p64_vec ?s) = mTotal (p64_vec vm)"
    by (simp_all add: ppc64_pos_def dc_callvm_reset_ppc64_def dcVecReset_def)
  have A: "A = push_all (dcArg V) ?s xs" by (simp add: A_def V_def dcReset_ppc64 push_all_dcArgs)
  have cap: "ppc64_pos v2 ?s + sum_list (map ppc64_cost xs) \<le> unat (mTotal (p64_vec ?s))" using assms(2) cost p by simp
  have iA: "ppc64_inv v2 A" unfolding A V_def by (rule ppc64.inv_push_all_cap [OF inv cap])
  have "(mVTpointer B = gVT_ppc64 \<or> mVTpointer B = gVT_ppc64_ellipsis) \<and>
      fst (pop_all (dcbArg_ppc64 e) (ppc64_at v2 caller target B ?s) (map arg_ty xs @ map (\<lambda>a. arg_ty (promoted a)) ys)) = xs @ map promoted ys"
  proof (cases "ys = []")
    case True
    then show ?thesis using iA ppc64.call_round_trip [OF inv cap refl, of e caller target cs pad]
      by (simp add: B_def A V_def ppc64_inv_def)
  next
    case False
    then have v2: "v2" and B: "B = dcArgs V (dcMode V A DC_CALL_C_ELLIPSIS_VARARGS) ys" using assms(5) by (auto simp: B_def)
    have m: "dcMode V A DC_CALL_C_ELLIPSIS_VARARGS = dc_callvm_base_init A gVT_ppc64_ellipsis"
      using iA v2 by (simp add: ppc64_inv_def V_def dcMode_def vt_ppc64_def dc_callvm_mode_ppc64_def)
    have "ppc64_pos True ?s + sum_list (map ppc64_cost xs) + sum_list (map (\<lambda>_. 8) ys) \<le> unat (mTotal (p64_vec ?s))"
      using assms(2) cost p v2 by (simp add: sum_list_triv mult.commute)
    note parts = ppc64x.two_parts [OF inv [simplified v2] this]
    from parts(1) [of e cs pad] parts(2) [of e caller target cs pad] v2 show ?thesis
      unfolding B m by (simp add: A V_def ppc64_var_inv_def push_all_dcArgs)
  qed
  note B = this
  let ?k = "ppc64_kernel_call (snd (dc_callvm_call_ppc64 B target))"
  have "snd (dcCall V c B target) = dcCall_ppc64 ?k"
    using B by (auto simp: V_def dcCall_def vt_ppc64_def vt_ppc64_ellipsis_def dc_callvm_call_ppc64_def ppc64_kernel_call_def Let_def)
  moreover have "entry_ppc64 caller ?k = ppc64_at v2 caller target B ?s"
    by (simp add: ppc64_at_def ppc64_view_def entry_ppc64_def ppc64_pos_def dc_callvm_reset_ppc64_def dcVecReset_def)
  ultimately show ?thesis using B by (simp add: comp_def)
qed

definition ppc64_blank :: "u64 \<Rightarrow> DCCallVM_ppc64" where
  "ppc64_blank cap =
     \<lparr>mVTpointer = gVT_ppc64, mError = 0, p64_i = 0, p64_f = 0, p64_int = (\<lambda>_. 0), p64_float = (\<lambda>_. 0),
      p64_vec = \<lparr>mTotal = cap, mSize = 0, mData = (\<lambda>_. 0)\<rparr>\<rparr>"

lemma ppc64_arguments_arrive_witness:
  "\<exists>k. snd (dcCall (vtab_ppc64 True LE True 0) callInt
       (dcArgs (vtab_ppc64 True LE True 0)
         (dcMode (vtab_ppc64 True LE True 0)
           (dcArgs (vtab_ppc64 True LE True 0) (dcReset (vtab_ppc64 True LE True 0) (ppc64_blank 128)) [APointer 4096, AInt 7])
           DC_CALL_C_ELLIPSIS_VARARGS) [AFloat 0, AShort 3]) 4096) = dcCall_ppc64 k \<and>
     fst (pop_all (dcbArg_ppc64 LE) (entry_ppc64 (\<lambda>_. 0) k) [TPointer, TInt, TDouble, TShort])
       = [APointer 4096, AInt 7, ADouble (double_of_float 0), AShort 3]"
  using ppc64_arguments_arrive [of "ppc64_blank 128" "[APointer 4096, AInt 7]" "[AFloat 0, AShort 3]" True LE True 0 callInt 4096 "\<lambda>_. 0"]
  by (simp add: ppc64_blank_def)

end
