(* ===== verification/Vm_Sparc64.thy ===== *)
theory Vm_Sparc64
  imports Dyn_Variadic
begin

section \<open>SPARC 64: call VM and argument reader\<close>

text \<open>
  \<open>dyncall/dyncall/dyncall_callvm_sparc64.{h,c}\<close> with the kernel \<open>dyncall_call_sparc64.s\<close>, which reads the VM itself,
  \<open>dyncall/dyncallback/dyncall_args_sparc64.{h,c}\<close> and the entry \<open>dyncall_callback_sparc64.s\<close>. Every argument is a slot of
  eight bytes in the vector; the kernel loads the first six slots into integer registers, the first sixteen into
  floating point registers and copies those behind the sixth. Big endian; \<open>pad\<close> is the uninitialised half of a float's slot.
\<close>

datatype vt_v9 = gVT_v9 | gVT_v9_ellipsis

record DCCallVM_v9 = "vt_v9 DCCallVM" +
  v9_vec :: "u64 vec"

definition dc_callvm_reset_v9 :: "DCCallVM_v9 \<Rightarrow> DCCallVM_v9" where
  "dc_callvm_reset_v9 self = self\<lparr>v9_vec := dcVecResize (v9_vec self) 0\<rparr>"

definition dc_callvm_free_v9 :: "DCCallVM_v9 \<Rightarrow> DCCallVM_v9 handle" where
  "dc_callvm_free_v9 self = Freed"

definition dc_callvm_argLongLong_v9 :: "DCCallVM_v9 \<Rightarrow> u64 \<Rightarrow> DCCallVM_v9" where
  "dc_callvm_argLongLong_v9 self x = self\<lparr>v9_vec := dcVecAppend (v9_vec self) (obj_bytes BE 8 x)\<rparr>"

definition dc_callvm_argLong_v9 :: "DCCallVM_v9 \<Rightarrow> u64 \<Rightarrow> DCCallVM_v9" where
  "dc_callvm_argLong_v9 self x = dc_callvm_argLongLong_v9 self x"

definition dc_callvm_argInt_v9 :: "DCCallVM_v9 \<Rightarrow> u32 \<Rightarrow> DCCallVM_v9" where
  "dc_callvm_argInt_v9 self x = dc_callvm_argLongLong_v9 self (scast x)"

definition dc_callvm_argBool_v9 :: "DCCallVM_v9 \<Rightarrow> u32 \<Rightarrow> DCCallVM_v9" where
  "dc_callvm_argBool_v9 self x = dc_callvm_argLongLong_v9 self (scast x)"

definition dc_callvm_argChar_v9 :: "DCCallVM_v9 \<Rightarrow> u8 \<Rightarrow> DCCallVM_v9" where
  "dc_callvm_argChar_v9 self x = dc_callvm_argLongLong_v9 self (scast x)"

definition dc_callvm_argShort_v9 :: "DCCallVM_v9 \<Rightarrow> u16 \<Rightarrow> DCCallVM_v9" where
  "dc_callvm_argShort_v9 self x = dc_callvm_argLongLong_v9 self (scast x)"

definition dc_callvm_argPointer_v9 :: "DCCallVM_v9 \<Rightarrow> u64 \<Rightarrow> DCCallVM_v9" where
  "dc_callvm_argPointer_v9 self x = dc_callvm_argLongLong_v9 self x"

definition dc_callvm_argDouble_v9 :: "DCCallVM_v9 \<Rightarrow> u64 \<Rightarrow> DCCallVM_v9" where
  "dc_callvm_argDouble_v9 self x = self\<lparr>v9_vec := dcVecAppend (v9_vec self) (obj_bytes BE 8 x)\<rparr>"

definition dc_callvm_argDouble_v9_ellipsis :: "DCCallVM_v9 \<Rightarrow> u64 \<Rightarrow> DCCallVM_v9" where
  "dc_callvm_argDouble_v9_ellipsis self x = dc_callvm_argLongLong_v9 self x"

definition dc_callvm_argFloat_v9_ellipsis :: "DCCallVM_v9 \<Rightarrow> u32 \<Rightarrow> DCCallVM_v9" where
  "dc_callvm_argFloat_v9_ellipsis self x = dc_callvm_argDouble_v9_ellipsis self (double_of_float x)"

text \<open>The float is the second half of the union, the first is not set.\<close>

definition dc_callvm_argFloat_v9 :: "u32 \<Rightarrow> DCCallVM_v9 \<Rightarrow> u32 \<Rightarrow> DCCallVM_v9" where
  "dc_callvm_argFloat_v9 pad self x = dc_callvm_argDouble_v9 self (join_words pad x)"

definition dc_callvm_mode_v9 :: "DCCallVM_v9 \<Rightarrow> u32 \<Rightarrow> DCCallVM_v9" where
  "dc_callvm_mode_v9 self mode =
     (if mode \<in> {DC_CALL_C_DEFAULT, DC_CALL_C_DEFAULT_THIS, DC_CALL_C_SPARC64, DC_CALL_C_ELLIPSIS}
      then dc_callvm_base_init self gVT_v9
      else if mode = DC_CALL_C_ELLIPSIS_VARARGS then dc_callvm_base_init self gVT_v9_ellipsis
      else self\<lparr>mError := DC_ERROR_UNSUPPORTED_MODE\<rparr>)"

text \<open>The tables enter the kernel with the VM and the target.\<close>

definition vt_v9_ellipsis :: "(DCCallVM_v9, u64, u64, DCCallVM_v9 \<times> u64) DCCallVM_vt" where
  "vt_v9_ellipsis =
     \<lparr>vt_free = dc_callvm_free_v9, vt_reset = dc_callvm_reset_v9, vt_mode = dc_callvm_mode_v9,
      vt_argBool = dc_callvm_argBool_v9, vt_argChar = dc_callvm_argChar_v9, vt_argShort = dc_callvm_argShort_v9,
      vt_argInt = dc_callvm_argInt_v9, vt_argLong = dc_callvm_argLong_v9, vt_argLongLong = dc_callvm_argLongLong_v9,
      vt_argFloat = dc_callvm_argFloat_v9_ellipsis, vt_argDouble = dc_callvm_argDouble_v9_ellipsis,
      vt_argPointer = dc_callvm_argPointer_v9, vt_argAggr = None,
      vt_call = (\<lambda>_ vm target. (vm, (vm, target))), vt_callAggr = None, vt_beginAggr = None\<rparr>"

definition vt_v9 :: "u32 \<Rightarrow> (DCCallVM_v9, u64, u64, DCCallVM_v9 \<times> u64) DCCallVM_vt" where
  "vt_v9 pad =
     \<lparr>vt_free = dc_callvm_free_v9, vt_reset = dc_callvm_reset_v9, vt_mode = dc_callvm_mode_v9,
      vt_argBool = dc_callvm_argBool_v9, vt_argChar = dc_callvm_argChar_v9, vt_argShort = dc_callvm_argShort_v9,
      vt_argInt = dc_callvm_argInt_v9, vt_argLong = dc_callvm_argLong_v9, vt_argLongLong = dc_callvm_argLongLong_v9,
      vt_argFloat = dc_callvm_argFloat_v9 pad, vt_argDouble = dc_callvm_argDouble_v9,
      vt_argPointer = dc_callvm_argPointer_v9, vt_argAggr = None,
      vt_call = (\<lambda>_ vm target. (vm, (vm, target))), vt_callAggr = None, vt_beginAggr = None\<rparr>"

fun vtab_v9 :: "u32 \<Rightarrow> vt_v9 \<Rightarrow> (DCCallVM_v9, u64, u64, DCCallVM_v9 \<times> u64) DCCallVM_vt" where
  "vtab_v9 pad gVT_v9 = vt_v9 pad"
| "vtab_v9 pad gVT_v9_ellipsis = vt_v9_ellipsis"

definition dcNewCallVM_v9 :: "DCCallVM_v9 \<Rightarrow> u64 \<Rightarrow> DCCallVM_v9" where
  "dcNewCallVM_v9 p sz =
     (let p = dc_callvm_mode_v9 p DC_CALL_C_DEFAULT
      in dc_callvm_reset_v9 (p\<lparr>v9_vec := dcVecInit (v9_vec p) sz\<rparr>))"

subsection \<open>The reader\<close>

record DCArgs_sparc64 =
  r9_mem :: mem
  r9_dreg :: "nat \<Rightarrow> u64"
  r9_i :: nat

definition dcbArgULongLong_v9 :: "DCArgs_sparc64 \<Rightarrow> u64 \<times> DCArgs_sparc64" where
  "dcbArgULongLong_v9 p = (obj_word BE (read_at (r9_mem p) (8 * r9_i p) 8), p\<lparr>r9_i := r9_i p + 1\<rparr>)"

definition dcbArgDouble_v9 :: "DCArgs_sparc64 \<Rightarrow> u64 \<times> DCArgs_sparc64" where
  "dcbArgDouble_v9 p =
     (if r9_i p < 16 then r9_dreg p (r9_i p) else obj_word BE (read_at (r9_mem p) (8 * r9_i p) 8), p\<lparr>r9_i := r9_i p + 1\<rparr>)"

definition dcbArgFloat_v9 :: "DCArgs_sparc64 \<Rightarrow> u32 \<times> DCArgs_sparc64" where
  "dcbArgFloat_v9 p =
     (if r9_i p < 16 then lo_word (r9_dreg p (r9_i p)) else obj_word BE (read_at (r9_mem p) (8 * r9_i p + 4) 4),
      p\<lparr>r9_i := r9_i p + 1\<rparr>)"

fun dcbArg_v9 :: "DCArgs_sparc64 \<Rightarrow> dcty \<Rightarrow> (u64, u64) dcarg \<times> DCArgs_sparc64" where
  "dcbArg_v9 p TBool = map_prod (\<lambda>x. ABool (ucast x)) id (dcbArgULongLong_v9 p)"
| "dcbArg_v9 p TChar = map_prod (\<lambda>x. AChar (ucast x)) id (dcbArgULongLong_v9 p)"
| "dcbArg_v9 p TShort = map_prod (\<lambda>x. AShort (ucast x)) id (dcbArgULongLong_v9 p)"
| "dcbArg_v9 p TInt = map_prod (\<lambda>x. AInt (ucast x)) id (dcbArgULongLong_v9 p)"
| "dcbArg_v9 p TLong = map_prod ALong id (dcbArgULongLong_v9 p)"
| "dcbArg_v9 p TLongLong = map_prod ALongLong id (dcbArgULongLong_v9 p)"
| "dcbArg_v9 p TFloat = map_prod AFloat id (dcbArgFloat_v9 p)"
| "dcbArg_v9 p TDouble = map_prod ADouble id (dcbArgDouble_v9 p)"
| "dcbArg_v9 p TPointer = map_prod APointer id (dcbArgULongLong_v9 p)"

text \<open>The kernel loads six integer and sixteen floating point registers whatever the size, then copies slots as
  long as the size that is left is positive; the branch looks at the lower 32 bits.\<close>

definition v9_oreg :: "DCCallVM_v9 \<Rightarrow> nat \<Rightarrow> u64" where
  "v9_oreg vm i = obj_word BE (read_at (mData (v9_vec vm)) (8 * i) 8)"

definition v9_freg :: "DCCallVM_v9 \<Rightarrow> nat \<Rightarrow> u64" where
  "v9_freg vm i = obj_word BE (read_at (mData (v9_vec vm)) (8 * i) 8)"

definition v9_stack_slots :: "DCCallVM_v9 \<Rightarrow> nat" where
  "v9_stack_slots vm =
     (let left = ucast (mSize (v9_vec vm) - 48) :: u32
      in if left \<le>s 0 then 0 else (unat left + 7) div 8)"

text \<open>The entry spills the integer registers in front of the copied slots and the floating point registers to \<open>dreg_data\<close>.\<close>

definition entry_v9 :: "mem \<Rightarrow> DCCallVM_v9 \<Rightarrow> DCArgs_sparc64" where
  "entry_v9 caller vm =
     \<lparr>r9_mem = (\<lambda>j. if j < 48 then obj_bytes BE 8 (v9_oreg vm (j div 8)) ! (j mod 8)
                    else stack_copy caller (48 + 8 * v9_stack_slots vm) (mData (v9_vec vm)) j),
      r9_dreg = v9_freg vm, r9_i = 0\<rparr>"

subsection \<open>The round trip\<close>

definition v9_ok :: "DCCallVM_v9 \<Rightarrow> bool" where
  "v9_ok s \<longleftrightarrow> vec_ok (v9_vec s) \<and> unat (mTotal (v9_vec s)) < 2 ^ 31 \<and> 8 dvd unat (mSize (v9_vec s))"

definition v9_inv :: "vt_v9 \<Rightarrow> DCCallVM_v9 \<Rightarrow> bool" where
  "v9_inv vt s \<longleftrightarrow> v9_ok s \<and> mVTpointer s = vt"

definition v9_keeps :: "DCCallVM_v9 \<Rightarrow> DCCallVM_v9 \<Rightarrow> bool" where
  "v9_keeps s t \<longleftrightarrow> vec_keeps (v9_vec s) (v9_vec t) \<and> v9_ok t"

definition v9_view :: "mem \<Rightarrow> DCCallVM_v9 \<Rightarrow> DCCallVM_v9 \<Rightarrow> DCArgs_sparc64" where
  "v9_view caller F s = (entry_v9 caller F)\<lparr>r9_i := unat (mSize (v9_vec s)) div 8\<rparr>"

fun v9_slot :: "u32 \<Rightarrow> (u64, u64) dcarg \<Rightarrow> u64" where
  "v9_slot pad (ABool x) = scast x"
| "v9_slot pad (AChar x) = scast x"
| "v9_slot pad (AShort x) = scast x"
| "v9_slot pad (AInt x) = scast x"
| "v9_slot pad (ALong x) = x"
| "v9_slot pad (ALongLong x) = x"
| "v9_slot pad (AFloat x) = join_words pad x"
| "v9_slot pad (ADouble x) = x"
| "v9_slot pad (APointer x) = x"

lemmas v9_op_defs = dc_callvm_argBool_v9_def dc_callvm_argChar_v9_def dc_callvm_argShort_v9_def dc_callvm_argInt_v9_def
  dc_callvm_argLong_v9_def dc_callvm_argPointer_v9_def dc_callvm_argFloat_v9_def dc_callvm_argDouble_v9_def
  dc_callvm_argLongLong_v9_def dc_callvm_argFloat_v9_ellipsis_def dc_callvm_argDouble_v9_ellipsis_def

text \<open>Both tables append a slot; the one for variable arguments that of the promoted value.\<close>

definition v9_push :: "DCCallVM_v9 \<Rightarrow> u64 \<Rightarrow> DCCallVM_v9" where
  "v9_push s x = s\<lparr>v9_vec := dcVecAppend (v9_vec s) (obj_bytes BE 8 x)\<rparr>"

lemma dcArg_v9:
  "mVTpointer s = gVT_v9 \<Longrightarrow> dcArg (vtab_v9 pad) s a = v9_push s (v9_slot pad a)"
  "mVTpointer s = gVT_v9_ellipsis \<Longrightarrow> dcArg (vtab_v9 pad) s a = v9_push s (v9_slot pad (promoted a))"
  by (cases a; simp add: vt_v9_def vt_v9_ellipsis_def v9_op_defs v9_push_def)+

lemma v9_frame:
  assumes "v9_ok vm" and "j < unat (mSize (v9_vec vm))"
  shows "r9_mem (entry_v9 caller vm) j = mData (v9_vec vm) j"
proof (cases "j < 48")
  case True
  have "8 * (j div 8) + j mod 8 = j" and "j mod 8 < 8" by simp_all
  with True show ?thesis by (simp add: entry_v9_def v9_oreg_def obj_bytes_obj_word read_at_def)
next
  case False
  let ?n = "mSize (v9_vec vm)" and ?left = "ucast (mSize (v9_vec vm) - 48) :: u32"
  have b: "unat ?n < 2 ^ 31" using assms(1) by (auto simp: v9_ok_def intro: vec_size_small)
  have "unat (?n - 48) = unat ?n - 48" using False assms(2) by (simp add: unat_sub_if')
  with b have u: "unat ?left = unat ?n - 48" by (simp add: unsigned_ucast_eq unsigned_take_bit_eq take_bit_nat_eq_self)
  then have "unat ?left < 2 ^ (LENGTH(32) - 1)" using b by simp
  from sle_0_small [OF this] u have "unat ?n \<le> 48 + 8 * v9_stack_slots vm"
    by (auto simp: v9_stack_slots_def Let_def)
  with False assms(2) show ?thesis by (simp add: entry_v9_def stack_copy_def)
qed

lemma v9_read:
  assumes "v9_ok F" and "q + n \<le> unat (mSize (v9_vec F))"
  shows "read_at (r9_mem (entry_v9 caller F)) q n = read_at (mData (v9_vec F)) q n"
  by (rule read_at_cong) (use assms in \<open>simp add: v9_frame\<close>)

lemma v9_push_step:
  assumes "v9_ok s" and "vec_fits (v9_vec s) 8"
  shows "v9_ok (v9_push s x)" and "v9_keeps s (v9_push s x)" and "mVTpointer (v9_push s x) = mVTpointer s"
    and "unat (mSize (v9_vec (v9_push s x))) = unat (mSize (v9_vec s)) + 8" and "mTotal (v9_vec (v9_push s x)) = mTotal (v9_vec s)"
  using assms by (simp_all add: v9_ok_def v9_keeps_def v9_push_def vec_ok_append vec_append_used vec_keeps_append)

lemma v9_pop:
  assumes "v9_ok s" and "vec_fits (v9_vec s) 8" and "v9_keeps (v9_push s (v9_slot pad a)) F"
  shows "dcbArg_v9 (v9_view caller F s) (arg_ty a) = (a, v9_view caller F (v9_push s (v9_slot pad a)))"
proof -
  let ?x = "v9_slot pad a" and ?i = "unat (mSize (v9_vec s)) div 8"
  have k: "vec_keeps (dcVecAppend (v9_vec s) (obj_bytes BE 8 ?x)) (v9_vec F)" and ok: "v9_ok F"
    using assms(3) by (simp_all add: v9_keeps_def v9_push_def)
  have i: "8 * ?i = unat (mSize (v9_vec s))" using assms(1) by (simp add: v9_ok_def)
  have "8 * ?i + 8 \<le> unat (mSize (v9_vec F))" using k assms(2) by (simp add: i vec_keeps_def vec_append_used)
  then have r: "read_at (r9_mem (entry_v9 caller F)) (8 * ?i) 8 = obj_bytes BE 8 ?x"
    using read_appended [OF assms(2) _ k] v9_read [OF ok] by (simp add: i)
  then have w: "(obj_word BE (read_at (r9_mem (entry_v9 caller F)) (8 * ?i) 8) :: u64) = ?x" by (simp add: obj_word_obj_bytes)
  have f: "v9_freg F ?i = ?x" using read_appended_word [OF assms(2) k] by (simp add: v9_freg_def i)
  have h: "obj_word BE (read_at (r9_mem (entry_v9 caller F)) (8 * ?i + 4) 4) = lo_word ?x"
    using read_at_part [of 4 4 8 "r9_mem (entry_v9 caller F)" "8 * ?i"] r by (simp add: obj_bytes_halves obj_word_obj_bytes)
  have n: "unat (mSize (v9_vec (v9_push s ?x))) div 8 = ?i + 1" using v9_push_step(4) [OF assms(1,2), of ?x] by simp
  have d: "r9_dreg (entry_v9 caller F) = v9_freg F" by (simp add: entry_v9_def)
  note simps = v9_view_def dcbArgULongLong_v9_def dcbArgDouble_v9_def dcbArgFloat_v9_def ucast_scast_trunc
  show ?thesis using w f h n d by (cases a) (simp_all add: simps del: mult_div_mod_eq dvd_mult_div_cancel)
qed

definition v9_fits :: "DCCallVM_v9 \<Rightarrow> (u64, u64) dcarg \<Rightarrow> bool" where
  "v9_fits s a \<longleftrightarrow> vec_fits (v9_vec s) 8"

interpretation v9: arg_transport_cap "dcArg (vtab_v9 pad)" v9_fits "v9_inv gVT_v9" v9_keeps "v9_view caller" dcbArg_v9
  arg_ty "\<lambda>a. a" "\<lambda>s. unat (mSize (v9_vec s))" "\<lambda>s. unat (mTotal (v9_vec s))" "\<lambda>_. 8"
  for pad caller
proof unfold_locales
  fix s and a :: "(u64, u64) dcarg" and F
  assume i: "v9_inv gVT_v9 s"
  then have ok: "v9_ok s" and d: "dcArg (vtab_v9 pad) s a = v9_push s (v9_slot pad a)" by (simp_all only: v9_inv_def dcArg_v9)
  show "v9_keeps s s" using ok by (simp add: v9_keeps_def)
  show "unat (mSize (v9_vec s)) + 8 \<le> unat (mTotal (v9_vec s)) \<Longrightarrow> v9_fits s a" by (simp add: v9_fits_def vec_fits_def)
  assume "v9_fits s a"
  then have f: "vec_fits (v9_vec s) 8" by (simp add: v9_fits_def)
  note g = v9_push_step [OF ok f]
  show "v9_inv gVT_v9 (dcArg (vtab_v9 pad) s a)" and "v9_keeps s (dcArg (vtab_v9 pad) s a)"
    and "unat (mSize (v9_vec (dcArg (vtab_v9 pad) s a))) \<le> unat (mSize (v9_vec s)) + 8"
    and "unat (mTotal (v9_vec (dcArg (vtab_v9 pad) s a))) = unat (mTotal (v9_vec s))"
    using g i unfolding d by (simp_all add: v9_inv_def)
  show "v9_keeps (dcArg (vtab_v9 pad) s a) F \<Longrightarrow> dcbArg_v9 (v9_view caller F s) (arg_ty a) = (a, v9_view caller F (dcArg (vtab_v9 pad) s a))"
    unfolding d by (rule v9_pop [OF ok f])
qed (auto simp: v9_keeps_def intro: vec_keeps_trans)

interpretation v9v: arg_transport_cap "dcArg (vtab_v9 pad)" v9_fits "v9_inv gVT_v9_ellipsis" v9_keeps "v9_view caller" dcbArg_v9
  "\<lambda>a. arg_ty (promoted a)" promoted "\<lambda>s. unat (mSize (v9_vec s))" "\<lambda>s. unat (mTotal (v9_vec s))" "\<lambda>_. 8"
  for pad caller
proof unfold_locales
  fix s and a :: "(u64, u64) dcarg" and F
  assume i: "v9_inv gVT_v9_ellipsis s"
  then have ok: "v9_ok s" and d: "dcArg (vtab_v9 pad) s a = v9_push s (v9_slot pad (promoted a))" by (simp_all only: v9_inv_def dcArg_v9)
  show "v9_keeps s s" using ok by (simp add: v9_keeps_def)
  show "unat (mSize (v9_vec s)) + 8 \<le> unat (mTotal (v9_vec s)) \<Longrightarrow> v9_fits s a" by (simp add: v9_fits_def vec_fits_def)
  assume "v9_fits s a"
  then have f: "vec_fits (v9_vec s) 8" by (simp add: v9_fits_def)
  note g = v9_push_step [OF ok f]
  show "v9_inv gVT_v9_ellipsis (dcArg (vtab_v9 pad) s a)" and "v9_keeps s (dcArg (vtab_v9 pad) s a)"
    and "unat (mSize (v9_vec (dcArg (vtab_v9 pad) s a))) \<le> unat (mSize (v9_vec s)) + 8"
    and "unat (mTotal (v9_vec (dcArg (vtab_v9 pad) s a))) = unat (mTotal (v9_vec s))"
    using g i unfolding d by (simp_all add: v9_inv_def)
  show "v9_keeps (dcArg (vtab_v9 pad) s a) F \<Longrightarrow>
      dcbArg_v9 (v9_view caller F s) (arg_ty (promoted a)) = (promoted a, v9_view caller F (dcArg (vtab_v9 pad) s a))"
    unfolding d by (rule v9_pop [OF ok f])
qed (auto simp: v9_keeps_def intro: vec_keeps_trans)

interpretation v9x: variadic_transport "dcArg (vtab_v9 pad)" v9_fits "v9_inv gVT_v9" v9_keeps "v9_view caller" dcbArg_v9
  arg_ty "\<lambda>a. a" "\<lambda>s. unat (mSize (v9_vec s))" "\<lambda>s. unat (mTotal (v9_vec s))" "\<lambda>_. 8"
  "dcArg (vtab_v9 pad)" v9_fits "v9_inv gVT_v9_ellipsis" "\<lambda>a. arg_ty (promoted a)" promoted "\<lambda>_. 8"
  "\<lambda>s. dc_callvm_base_init s gVT_v9_ellipsis"
  for pad caller
  by unfold_locales (simp_all add: v9_inv_def v9_ok_def v9_keeps_def dc_callvm_base_init_def v9_view_def)

text \<open>C28: On 64 bit SPARC every list of scalar arguments that a program passes after \<open>dcReset\<close>, and every list that follows
  in the mode for the variable part of a variadic function, is what the handler of a callback reads, a float of the
  variable part as a double, if the vector holds eight bytes for each; all floats arrive, NaNs included.\<close>

theorem sparc64_arguments_arrive:
  fixes pad
  assumes "unat (mTotal (v9_vec vm)) < 2 ^ 31" and "8 * length (xs @ ys) \<le> unat (mTotal (v9_vec vm))"
    and "mVTpointer vm = gVT_v9"
  defines "A \<equiv> dcArgs (vtab_v9 pad) (dcReset (vtab_v9 pad) vm) xs"
  defines "B \<equiv> dcArgs (vtab_v9 pad) (dcMode (vtab_v9 pad) A DC_CALL_C_ELLIPSIS_VARARGS) ys"
  shows "fst (pop_all dcbArg_v9 (entry_v9 caller (fst (snd (dcCall (vtab_v9 pad) c B target))))
      (map arg_ty (xs @ map promoted ys))) = xs @ map promoted ys"
proof -
  let ?s = "dc_callvm_reset_v9 vm"
  have r: "dcReset (vtab_v9 pad) vm = ?s" using assms(3) by (simp add: dcReset_def vt_v9_def)
  have inv: "v9_inv gVT_v9 ?s" and sz: "mSize (v9_vec ?s) = 0" "mTotal (v9_vec ?s) = mTotal (v9_vec vm)"
    using assms(1,3) by (simp_all add: v9_inv_def v9_ok_def dc_callvm_reset_v9_def dcVecResize_def vec_ok_def)
  have A: "A = push_all (dcArg (vtab_v9 pad)) ?s xs" by (simp add: A_def r push_all_dcArgs)
  have cap: "unat (mSize (v9_vec ?s)) + sum_list (map (\<lambda>_. 8) xs) + sum_list (map (\<lambda>_. 8) ys) \<le> unat (mTotal (v9_vec ?s))"
    using assms(2) sz by (simp add: sum_list_triv mult.commute)
  have "v9_inv gVT_v9 A" unfolding A by (rule v9.inv_push_all_cap [OF inv]) (use cap in simp)
  then have "dcMode (vtab_v9 pad) A DC_CALL_C_ELLIPSIS_VARARGS = dc_callvm_base_init A gVT_v9_ellipsis"
    by (simp add: v9_inv_def dcMode_def vt_v9_def dc_callvm_mode_v9_def)
  then have B: "B = push_all (dcArg (vtab_v9 pad)) (dc_callvm_base_init A gVT_v9_ellipsis) ys" by (simp add: B_def push_all_dcArgs)
  note parts = v9x.two_parts(1) [OF inv cap, of pad, folded A, folded B]
    v9x.two_parts(2) [OF inv cap, where pad = pad and caller = caller, folded A, folded B]
  have "v9_view caller B ?s = entry_v9 caller B" using sz by (simp add: v9_view_def entry_v9_def)
  moreover have "fst (snd (dcCall (vtab_v9 pad) c B target)) = B"
    using parts(1) by (simp add: v9_inv_def dcCall_def vt_v9_ellipsis_def)
  ultimately show ?thesis using parts(2) by (simp add: comp_def)
qed

definition v9_blank :: "u64 \<Rightarrow> DCCallVM_v9" where
  "v9_blank cap = \<lparr>mVTpointer = gVT_v9, mError = 0, v9_vec = \<lparr>mTotal = cap, mSize = 0, mData = (\<lambda>_. 0)\<rparr>\<rparr>"

lemma sparc64_arguments_arrive_witness:
  "fst (pop_all dcbArg_v9
      (entry_v9 (\<lambda>_. 0) (fst (snd (dcCall (vtab_v9 3) callInt
         (dcArgs (vtab_v9 3) (dcMode (vtab_v9 3) (dcArgs (vtab_v9 3) (dcReset (vtab_v9 3) (v9_blank 64)) [APointer 4096, AFloat 7])
            DC_CALL_C_ELLIPSIS_VARARGS) [AFloat 0, AChar 1]) 4096))))
      [TPointer, TFloat, TDouble, TChar]) = [APointer 4096, AFloat 7, ADouble (double_of_float 0), AChar 1]"
  using sparc64_arguments_arrive [of "v9_blank 64" "[APointer 4096, AFloat 7]" "[AFloat 0, AChar 1]" "\<lambda>_. 0" 3 callInt 4096]
  by (simp add: v9_blank_def)

end
