(* ===== verification/Vm_Mips64.thy ===== *)
theory Vm_Mips64
  imports Dyn_Transport Affix_Float
begin

unbundle bit_operations_syntax

section \<open>MIPS 64: call VMs of the ABIs N64 and N32, argument reader of N64\<close>

text \<open>
  \<open>dyncall/dyncall/dyncall_callvm_mips_n64.{h,c}\<close> and \<open>dyncall_callvm_mips_n32.{h,c}\<close> with their kernels
  \<open>dyncall_call_mips_n64.S\<close> and \<open>dyncall_call_mips_n32.S\<close>, the reader \<open>dyncall/dyncallback/dyncall_args_mips64.c\<close> and the entry
  \<open>dyncall_callback_mips_n64.S\<close> (that of N32 is empty in the source). One counter serves the integer and the floating point
  registers: an argument uses up a register of both. \<open>hard\<close> is \<open>DC__ABI_HARDFLOAT\<close>; with soft floats everything is an
  integer. Both byte orders; \<open>cs\<close> says whether a plain \<open>char\<close> is signed.
\<close>

datatype vt_mips64 = gVT_mips_n64 | gVT_mips_n64_ellipsis | gVT_mips_n32 | gVT_mips_n32_ellipsis

text \<open>The structures of both ABIs have the same members (soft float N64 without the last two).\<close>

record DCRegData_mips64 =
  mIntData :: "nat \<Rightarrow> u64"
  mFloatData :: "nat \<Rightarrow> u64"
  mUseDouble :: u64

record 'w DCCallVM_mips64 = "vt_mips64 DCCallVM" +
  m64_count :: nat
  m64_reg :: DCRegData_mips64
  m64_vec :: "'w vec"

record 'w mips64_call =
  m64c_target :: 'w
  m64c_regdata :: DCRegData_mips64
  m64c_size :: 'w
  m64c_data :: mem

text \<open>A store to the member \<open>f\<close> of the union of a float and a double replaces its first four bytes.\<close>

definition union_f :: "endian \<Rightarrow> u64 \<Rightarrow> u32 \<Rightarrow> u64" where
  "union_f e u x = (if e = BE then join_words x (lo_word u) else join_words (hi_word u) x)"

subsection \<open>N64\<close>

definition dc_callvm_reset_mips_n64 :: "bool \<Rightarrow> 'z::len word DCCallVM_mips64 \<Rightarrow> 'z word DCCallVM_mips64" where
  "dc_callvm_reset_mips_n64 hard self =
     (let self = self\<lparr>m64_vec := dcVecReset (m64_vec self), m64_count := 0\<rparr>
      in if hard then self\<lparr>m64_reg := (m64_reg self)\<lparr>mUseDouble := 0\<rparr>\<rparr> else self)"

definition dc_callvm_free_mips_n64 :: "'z::len word DCCallVM_mips64 \<Rightarrow> 'z word DCCallVM_mips64 handle" where
  "dc_callvm_free_mips_n64 self = Freed"

definition dc_callvm_argLongLong_mips_n64 :: "endian \<Rightarrow> 'z::len word DCCallVM_mips64 \<Rightarrow> u64 \<Rightarrow> 'z word DCCallVM_mips64" where
  "dc_callvm_argLongLong_mips_n64 e self x =
     (if m64_count self < 8 then
        self\<lparr>m64_reg := (m64_reg self)\<lparr>mIntData := (mIntData (m64_reg self))(m64_count self := x)\<rparr>,
             m64_count := m64_count self + 1\<rparr>
      else self\<lparr>m64_vec := dcVecAppend (m64_vec self) (obj_bytes e 8 x)\<rparr>)"

definition dc_callvm_argInt_mips_n64 :: "endian \<Rightarrow> 'z::len word DCCallVM_mips64 \<Rightarrow> u32 \<Rightarrow> 'z word DCCallVM_mips64" where
  "dc_callvm_argInt_mips_n64 e self x = dc_callvm_argLongLong_mips_n64 e self (scast x)"

definition dc_callvm_argPointer_mips_n64 :: "endian \<Rightarrow> 'z::len word DCCallVM_mips64 \<Rightarrow> u64 \<Rightarrow> 'z word DCCallVM_mips64" where
  "dc_callvm_argPointer_mips_n64 e self x = dc_callvm_argLongLong_mips_n64 e self x"

definition dc_callvm_argBool_mips_n64 :: "endian \<Rightarrow> 'z::len word DCCallVM_mips64 \<Rightarrow> u32 \<Rightarrow> 'z word DCCallVM_mips64" where
  "dc_callvm_argBool_mips_n64 e self x = dc_callvm_argLongLong_mips_n64 e self (scast x)"

definition dc_callvm_argChar_mips_n64 :: "endian \<Rightarrow> bool \<Rightarrow> 'z::len word DCCallVM_mips64 \<Rightarrow> u8 \<Rightarrow> 'z word DCCallVM_mips64" where
  "dc_callvm_argChar_mips_n64 e cs self x = dc_callvm_argLongLong_mips_n64 e self (if cs then scast x else ucast x)"

definition dc_callvm_argShort_mips_n64 :: "endian \<Rightarrow> 'z::len word DCCallVM_mips64 \<Rightarrow> u16 \<Rightarrow> 'z word DCCallVM_mips64" where
  "dc_callvm_argShort_mips_n64 e self x = dc_callvm_argLongLong_mips_n64 e self (scast x)"

definition dc_callvm_argLong_mips_n64 :: "endian \<Rightarrow> 'z::len word DCCallVM_mips64 \<Rightarrow> u64 \<Rightarrow> 'z word DCCallVM_mips64" where
  "dc_callvm_argLong_mips_n64 e self x = dc_callvm_argLongLong_mips_n64 e self x"

definition dc_callvm_argDouble_mips_n64 :: "endian \<Rightarrow> bool \<Rightarrow> 'z::len word DCCallVM_mips64 \<Rightarrow> u64 \<Rightarrow> 'z word DCCallVM_mips64" where
  "dc_callvm_argDouble_mips_n64 e hard self x =
     (if hard then
        if m64_count self < 8 then
          (let r = m64_reg self;
               r = r\<lparr>mUseDouble := mUseDouble r OR push_bit (m64_count self) 1\<rparr>
           in self\<lparr>m64_reg := r\<lparr>mFloatData := (mFloatData r)(m64_count self := x)\<rparr>, m64_count := m64_count self + 1\<rparr>)
        else self\<lparr>m64_vec := dcVecAppend (m64_vec self) (obj_bytes e 8 x)\<rparr>
      else dc_callvm_argLongLong_mips_n64 e self x)"

text \<open>Without floating point registers the float is the first half of an eight byte object, in a register of a big endian
  machine the second half.\<close>

definition dc_callvm_argFloat_mips_n64 :: "endian \<Rightarrow> bool \<Rightarrow> 'z::len word DCCallVM_mips64 \<Rightarrow> u32 \<Rightarrow> 'z word DCCallVM_mips64" where
  "dc_callvm_argFloat_mips_n64 e hard self x =
     (if hard then
        if m64_count self < 8 then
          (let r = m64_reg self
           in self\<lparr>m64_reg := r\<lparr>mFloatData := (mFloatData r)(m64_count self := union_f e (mFloatData r (m64_count self)) x)\<rparr>,
                   m64_count := m64_count self + 1\<rparr>)
        else self\<lparr>m64_vec := dcVecSkip (dcVecAppend (m64_vec self) (obj_bytes e 4 x)) 4\<rparr>
      else
        (let f = (if e = BE \<and> m64_count self < 8 then (0, x) else (x, 0))
         in dc_callvm_argLongLong_mips_n64 e self (if e = BE then join_words (fst f) (snd f) else join_words (snd f) (fst f))))"

definition dc_callvm_argDouble_mips_n64_ellipsis :: "endian \<Rightarrow> 'z::len word DCCallVM_mips64 \<Rightarrow> u64 \<Rightarrow> 'z word DCCallVM_mips64" where
  "dc_callvm_argDouble_mips_n64_ellipsis e self x = dc_callvm_argLongLong_mips_n64 e self x"

definition dc_callvm_argFloat_mips_n64_ellipsis :: "endian \<Rightarrow> 'z::len word DCCallVM_mips64 \<Rightarrow> u32 \<Rightarrow> 'z word DCCallVM_mips64" where
  "dc_callvm_argFloat_mips_n64_ellipsis e self x = dc_callvm_argDouble_mips_n64_ellipsis e self (double_of_float x)"

text \<open>The size is read as an \<open>unsigned\<close> of 32 bits.\<close>

definition dc_callvm_call_mips_n64 :: "'z::len word DCCallVM_mips64 \<Rightarrow> 'z word \<Rightarrow> 'z word DCCallVM_mips64 \<times> 'z word mips64_call" where
  "dc_callvm_call_mips_n64 self target =
     (self, \<lparr>m64c_target = target, m64c_regdata = m64_reg self,
             m64c_size = max 16 ((ucast (ucast (mSize (m64_vec self)) :: u32) + 7) AND (- 8)),
             m64c_data = mData (m64_vec self)\<rparr>)"

definition dc_callvm_mode_mips_n64 :: "'z::len word DCCallVM_mips64 \<Rightarrow> u32 \<Rightarrow> 'z word DCCallVM_mips64" where
  "dc_callvm_mode_mips_n64 self mode =
     (if mode \<in> {DC_CALL_C_DEFAULT, DC_CALL_C_DEFAULT_THIS, DC_CALL_C_MIPS64_N64, DC_CALL_C_ELLIPSIS}
      then dc_callvm_base_init self gVT_mips_n64
      else if mode = DC_CALL_C_ELLIPSIS_VARARGS then dc_callvm_base_init self gVT_mips_n64_ellipsis
      else self\<lparr>mError := DC_ERROR_UNSUPPORTED_MODE\<rparr>)"

definition vt_mips_n64 :: "endian \<Rightarrow> bool \<Rightarrow> bool \<Rightarrow> (u64 DCCallVM_mips64, u64, u64, u64 mips64_call) DCCallVM_vt" where
  "vt_mips_n64 e hard cs =
     \<lparr>vt_free = dc_callvm_free_mips_n64, vt_reset = dc_callvm_reset_mips_n64 hard, vt_mode = dc_callvm_mode_mips_n64,
      vt_argBool = dc_callvm_argBool_mips_n64 e, vt_argChar = dc_callvm_argChar_mips_n64 e cs,
      vt_argShort = dc_callvm_argShort_mips_n64 e, vt_argInt = dc_callvm_argInt_mips_n64 e,
      vt_argLong = dc_callvm_argLong_mips_n64 e, vt_argLongLong = dc_callvm_argLongLong_mips_n64 e,
      vt_argFloat = dc_callvm_argFloat_mips_n64 e hard, vt_argDouble = dc_callvm_argDouble_mips_n64 e hard,
      vt_argPointer = dc_callvm_argPointer_mips_n64 e, vt_argAggr = None,
      vt_call = (\<lambda>_. dc_callvm_call_mips_n64), vt_callAggr = None, vt_beginAggr = None\<rparr>"

definition vt_mips_n64_ellipsis :: "endian \<Rightarrow> bool \<Rightarrow> bool \<Rightarrow> (u64 DCCallVM_mips64, u64, u64, u64 mips64_call) DCCallVM_vt" where
  "vt_mips_n64_ellipsis e hard cs =
     \<lparr>vt_free = dc_callvm_free_mips_n64, vt_reset = dc_callvm_reset_mips_n64 hard, vt_mode = dc_callvm_mode_mips_n64,
      vt_argBool = dc_callvm_argBool_mips_n64 e, vt_argChar = dc_callvm_argChar_mips_n64 e cs,
      vt_argShort = dc_callvm_argShort_mips_n64 e, vt_argInt = dc_callvm_argInt_mips_n64 e,
      vt_argLong = dc_callvm_argLong_mips_n64 e, vt_argLongLong = dc_callvm_argLongLong_mips_n64 e,
      vt_argFloat = dc_callvm_argFloat_mips_n64_ellipsis e, vt_argDouble = dc_callvm_argDouble_mips_n64_ellipsis e,
      vt_argPointer = dc_callvm_argPointer_mips_n64 e, vt_argAggr = None,
      vt_call = (\<lambda>_. dc_callvm_call_mips_n64), vt_callAggr = None, vt_beginAggr = None\<rparr>"

definition vtab_mips_n64 :: "endian \<Rightarrow> bool \<Rightarrow> bool \<Rightarrow> vt_mips64 \<Rightarrow> (u64 DCCallVM_mips64, u64, u64, u64 mips64_call) DCCallVM_vt" where
  "vtab_mips_n64 e hard cs vt =
     (if vt = gVT_mips_n64_ellipsis then vt_mips_n64_ellipsis e hard cs else vt_mips_n64 e hard cs)"

definition dcNewCallVM_mips_n64 :: "bool \<Rightarrow> 'z::len word DCCallVM_mips64 \<Rightarrow> 'z word \<Rightarrow> 'z word DCCallVM_mips64" where
  "dcNewCallVM_mips_n64 hard p sz =
     (let p = dc_callvm_mode_mips_n64 p DC_CALL_C_DEFAULT
      in dc_callvm_reset_mips_n64 hard (p\<lparr>m64_vec := dcVecInit (m64_vec p) sz\<rparr>))"

subsection \<open>N32\<close>

text \<open>Pointers and \<open>long\<close> have 32 bits, registers 64. There are always floating point registers.\<close>

definition dc_callvm_reset_mips_n32 :: "'z::len word DCCallVM_mips64 \<Rightarrow> 'z word DCCallVM_mips64" where
  "dc_callvm_reset_mips_n32 self =
     self\<lparr>m64_vec := dcVecReset (m64_vec self), m64_count := 0, m64_reg := (m64_reg self)\<lparr>mUseDouble := 0\<rparr>\<rparr>"

definition dc_callvm_free_mips_n32 :: "'z::len word DCCallVM_mips64 \<Rightarrow> 'z word DCCallVM_mips64 handle" where
  "dc_callvm_free_mips_n32 self = Freed"

definition dc_callvm_argLongLong_mips_n32 :: "endian \<Rightarrow> 'z::len word DCCallVM_mips64 \<Rightarrow> u64 \<Rightarrow> 'z word DCCallVM_mips64" where
  "dc_callvm_argLongLong_mips_n32 e self x =
     (if m64_count self < 8 then
        self\<lparr>m64_reg := (m64_reg self)\<lparr>mIntData := (mIntData (m64_reg self))(m64_count self := x)\<rparr>,
             m64_count := m64_count self + 1\<rparr>
      else self\<lparr>m64_vec := dcVecAppend (m64_vec self) (obj_bytes e 8 x)\<rparr>)"

definition dc_callvm_argInt_mips_n32 :: "endian \<Rightarrow> 'z::len word DCCallVM_mips64 \<Rightarrow> u32 \<Rightarrow> 'z word DCCallVM_mips64" where
  "dc_callvm_argInt_mips_n32 e self x = dc_callvm_argLongLong_mips_n32 e self (scast x)"

text \<open>\<open>* (DClonglong*) &x\<close> reads eight bytes from a pointer of four, with the four that follow it in memory, \<open>beside\<close>.\<close>

definition dc_callvm_argPointer_mips_n32 :: "endian \<Rightarrow> u32 \<Rightarrow> 'z::len word DCCallVM_mips64 \<Rightarrow> u32 \<Rightarrow> 'z word DCCallVM_mips64" where
  "dc_callvm_argPointer_mips_n32 e beside self x =
     dc_callvm_argLongLong_mips_n32 e self (obj_word e (obj_bytes e 4 x @ obj_bytes e 4 beside))"

definition dc_callvm_argBool_mips_n32 :: "endian \<Rightarrow> 'z::len word DCCallVM_mips64 \<Rightarrow> u32 \<Rightarrow> 'z word DCCallVM_mips64" where
  "dc_callvm_argBool_mips_n32 e self x = dc_callvm_argLongLong_mips_n32 e self (scast x)"

definition dc_callvm_argChar_mips_n32 :: "endian \<Rightarrow> bool \<Rightarrow> 'z::len word DCCallVM_mips64 \<Rightarrow> u8 \<Rightarrow> 'z word DCCallVM_mips64" where
  "dc_callvm_argChar_mips_n32 e cs self x = dc_callvm_argLongLong_mips_n32 e self (if cs then scast x else ucast x)"

definition dc_callvm_argShort_mips_n32 :: "endian \<Rightarrow> 'z::len word DCCallVM_mips64 \<Rightarrow> u16 \<Rightarrow> 'z word DCCallVM_mips64" where
  "dc_callvm_argShort_mips_n32 e self x = dc_callvm_argLongLong_mips_n32 e self (scast x)"

definition dc_callvm_argLong_mips_n32 :: "endian \<Rightarrow> 'z::len word DCCallVM_mips64 \<Rightarrow> u32 \<Rightarrow> 'z word DCCallVM_mips64" where
  "dc_callvm_argLong_mips_n32 e self x = dc_callvm_argLongLong_mips_n32 e self (scast x)"

definition dc_callvm_argDouble_mips_n32 :: "endian \<Rightarrow> 'z::len word DCCallVM_mips64 \<Rightarrow> u64 \<Rightarrow> 'z word DCCallVM_mips64" where
  "dc_callvm_argDouble_mips_n32 e self x =
     (if m64_count self < 8 then
        (let r = m64_reg self;
             r = r\<lparr>mUseDouble := mUseDouble r OR push_bit (m64_count self) 1\<rparr>
         in self\<lparr>m64_reg := r\<lparr>mFloatData := (mFloatData r)(m64_count self := x)\<rparr>, m64_count := m64_count self + 1\<rparr>)
      else self\<lparr>m64_vec := dcVecAppend (m64_vec self) (obj_bytes e 8 x)\<rparr>)"

definition dc_callvm_argFloat_mips_n32 :: "endian \<Rightarrow> 'z::len word DCCallVM_mips64 \<Rightarrow> u32 \<Rightarrow> 'z word DCCallVM_mips64" where
  "dc_callvm_argFloat_mips_n32 e self x =
     (if m64_count self < 8 then
        (let r = m64_reg self
         in self\<lparr>m64_reg := r\<lparr>mFloatData := (mFloatData r)(m64_count self := union_f e (mFloatData r (m64_count self)) x)\<rparr>,
                 m64_count := m64_count self + 1\<rparr>)
      else self\<lparr>m64_vec := dcVecSkip (dcVecAppend (m64_vec self) (obj_bytes e 4 x)) 4\<rparr>)"

definition dc_callvm_argDouble_mips_n32_ellipsis :: "endian \<Rightarrow> 'z::len word DCCallVM_mips64 \<Rightarrow> u64 \<Rightarrow> 'z word DCCallVM_mips64" where
  "dc_callvm_argDouble_mips_n32_ellipsis e self x = dc_callvm_argLongLong_mips_n32 e self x"

definition dc_callvm_argFloat_mips_n32_ellipsis :: "endian \<Rightarrow> 'z::len word DCCallVM_mips64 \<Rightarrow> u32 \<Rightarrow> 'z word DCCallVM_mips64" where
  "dc_callvm_argFloat_mips_n32_ellipsis e self x = dc_callvm_argDouble_mips_n32_ellipsis e self (double_of_float x)"

text \<open>The size is read as an \<open>unsigned\<close> of 32 bits.\<close>

definition dc_callvm_call_mips_n32 :: "'z::len word DCCallVM_mips64 \<Rightarrow> 'z word \<Rightarrow> 'z word DCCallVM_mips64 \<times> 'z word mips64_call" where
  "dc_callvm_call_mips_n32 self target =
     (self, \<lparr>m64c_target = target, m64c_regdata = m64_reg self,
             m64c_size = max 16 ((ucast (ucast (mSize (m64_vec self)) :: u32) + 7) AND (- 8)),
             m64c_data = mData (m64_vec self)\<rparr>)"

definition dc_callvm_mode_mips_n32 :: "'z::len word DCCallVM_mips64 \<Rightarrow> u32 \<Rightarrow> 'z word DCCallVM_mips64" where
  "dc_callvm_mode_mips_n32 self mode =
     (if mode \<in> {DC_CALL_C_DEFAULT, DC_CALL_C_DEFAULT_THIS, DC_CALL_C_MIPS64_N32, DC_CALL_C_ELLIPSIS}
      then dc_callvm_base_init self gVT_mips_n32
      else if mode = DC_CALL_C_ELLIPSIS_VARARGS then dc_callvm_base_init self gVT_mips_n32_ellipsis
      else self\<lparr>mError := DC_ERROR_UNSUPPORTED_MODE\<rparr>)"

definition vt_mips_n32 :: "endian \<Rightarrow> u32 \<Rightarrow> bool \<Rightarrow> (u32 DCCallVM_mips64, u32, u32, u32 mips64_call) DCCallVM_vt" where
  "vt_mips_n32 e beside cs =
     \<lparr>vt_free = dc_callvm_free_mips_n32, vt_reset = dc_callvm_reset_mips_n32, vt_mode = dc_callvm_mode_mips_n32,
      vt_argBool = dc_callvm_argBool_mips_n32 e, vt_argChar = dc_callvm_argChar_mips_n32 e cs,
      vt_argShort = dc_callvm_argShort_mips_n32 e, vt_argInt = dc_callvm_argInt_mips_n32 e,
      vt_argLong = dc_callvm_argLong_mips_n32 e, vt_argLongLong = dc_callvm_argLongLong_mips_n32 e,
      vt_argFloat = dc_callvm_argFloat_mips_n32 e, vt_argDouble = dc_callvm_argDouble_mips_n32 e,
      vt_argPointer = dc_callvm_argPointer_mips_n32 e beside, vt_argAggr = None,
      vt_call = (\<lambda>_. dc_callvm_call_mips_n32), vt_callAggr = None, vt_beginAggr = None\<rparr>"

definition vt_mips_n32_ellipsis :: "endian \<Rightarrow> u32 \<Rightarrow> bool \<Rightarrow> (u32 DCCallVM_mips64, u32, u32, u32 mips64_call) DCCallVM_vt" where
  "vt_mips_n32_ellipsis e beside cs =
     \<lparr>vt_free = dc_callvm_free_mips_n32, vt_reset = dc_callvm_reset_mips_n32, vt_mode = dc_callvm_mode_mips_n32,
      vt_argBool = dc_callvm_argBool_mips_n32 e, vt_argChar = dc_callvm_argChar_mips_n32 e cs,
      vt_argShort = dc_callvm_argShort_mips_n32 e, vt_argInt = dc_callvm_argInt_mips_n32 e,
      vt_argLong = dc_callvm_argLong_mips_n32 e, vt_argLongLong = dc_callvm_argLongLong_mips_n32 e,
      vt_argFloat = dc_callvm_argFloat_mips_n32_ellipsis e, vt_argDouble = dc_callvm_argDouble_mips_n32_ellipsis e,
      vt_argPointer = dc_callvm_argPointer_mips_n32 e beside, vt_argAggr = None,
      vt_call = (\<lambda>_. dc_callvm_call_mips_n32), vt_callAggr = None, vt_beginAggr = None\<rparr>"

definition vtab_mips_n32 :: "endian \<Rightarrow> u32 \<Rightarrow> bool \<Rightarrow> vt_mips64 \<Rightarrow> (u32 DCCallVM_mips64, u32, u32, u32 mips64_call) DCCallVM_vt" where
  "vtab_mips_n32 e beside cs vt =
     (if vt = gVT_mips_n32_ellipsis then vt_mips_n32_ellipsis e beside cs else vt_mips_n32 e beside cs)"

definition dcNewCallVM_mips_n32 :: "'z::len word DCCallVM_mips64 \<Rightarrow> 'z word \<Rightarrow> 'z word DCCallVM_mips64" where
  "dcNewCallVM_mips_n32 p sz =
     (let p = dc_callvm_mode_mips_n32 p DC_CALL_C_DEFAULT
      in dc_callvm_reset_mips_n32 (p\<lparr>m64_vec := dcVecInit (m64_vec p) sz\<rparr>))"

subsection \<open>The reader\<close>

record DCArgs_mips64 =
  rm64_ireg :: "nat \<Rightarrow> u64"
  rm64_freg :: "nat \<Rightarrow> u64"
  rm64_count :: nat
  rm64_sp :: nat
  rm64_stack :: mem

definition dcbArgLongLong_mips64 :: "endian \<Rightarrow> DCArgs_mips64 \<Rightarrow> u64 \<times> DCArgs_mips64" where
  "dcbArgLongLong_mips64 e p =
     (if rm64_count p < 8 then (rm64_ireg p (rm64_count p), p\<lparr>rm64_count := rm64_count p + 1\<rparr>)
      else (obj_word e (read_at (rm64_stack p) (rm64_sp p) 8), p\<lparr>rm64_sp := rm64_sp p + 8\<rparr>))"

definition dcbArgDouble_mips64 :: "endian \<Rightarrow> DCArgs_mips64 \<Rightarrow> u64 \<times> DCArgs_mips64" where
  "dcbArgDouble_mips64 e p =
     (if rm64_count p < 8 then (rm64_freg p (rm64_count p), p\<lparr>rm64_count := rm64_count p + 1\<rparr>)
      else (obj_word e (read_at (rm64_stack p) (rm64_sp p) 8), p\<lparr>rm64_sp := rm64_sp p + 8\<rparr>))"

text \<open>The half of the double that is the lower one in the byte order.\<close>

definition dcbArgFloat_mips64 :: "endian \<Rightarrow> DCArgs_mips64 \<Rightarrow> u32 \<times> DCArgs_mips64" where
  "dcbArgFloat_mips64 e p =
     (if rm64_count p < 8 then (lo_word (rm64_freg p (rm64_count p)), p\<lparr>rm64_count := rm64_count p + 1\<rparr>)
      else (obj_word e (read_at (rm64_stack p) (rm64_sp p) 4), p\<lparr>rm64_sp := rm64_sp p + 8\<rparr>))"

fun dcbArg_mips64 :: "endian \<Rightarrow> DCArgs_mips64 \<Rightarrow> dcty \<Rightarrow> (u64, u64) dcarg \<times> DCArgs_mips64" where
  "dcbArg_mips64 e p TBool = map_prod (\<lambda>x. ABool (ucast x)) id (dcbArgLongLong_mips64 e p)"
| "dcbArg_mips64 e p TChar = map_prod (\<lambda>x. AChar (ucast x)) id (dcbArgLongLong_mips64 e p)"
| "dcbArg_mips64 e p TShort = map_prod (\<lambda>x. AShort (ucast x)) id (dcbArgLongLong_mips64 e p)"
| "dcbArg_mips64 e p TInt = map_prod (\<lambda>x. AInt (ucast x)) id (dcbArgLongLong_mips64 e p)"
| "dcbArg_mips64 e p TLong = map_prod ALong id (dcbArgLongLong_mips64 e p)"
| "dcbArg_mips64 e p TLongLong = map_prod ALongLong id (dcbArgLongLong_mips64 e p)"
| "dcbArg_mips64 e p TFloat = map_prod AFloat id (dcbArgFloat_mips64 e p)"
| "dcbArg_mips64 e p TDouble = map_prod ADouble id (dcbArgDouble_mips64 e p)"
| "dcbArg_mips64 e p TPointer = map_prod APointer id (dcbArgLongLong_mips64 e p)"

text \<open>The kernel copies the stack data and loads the registers; a float register is loaded as a double if its bit of
  \<open>mUseDouble\<close> is set, otherwise as a float, which leaves its upper half (\<open>junk\<close>) undefined. The entry spills the registers and
  clears the counter; without floating point registers \<open>freg_data\<close> is the same memory as \<open>ireg_data\<close>.\<close>

definition mips64_freg :: "endian \<Rightarrow> (nat \<Rightarrow> u32) \<Rightarrow> DCRegData_mips64 \<Rightarrow> nat \<Rightarrow> u64" where
  "mips64_freg e junk r j =
     (if bit (mUseDouble r) j then mFloatData r j
      else join_words (junk j) (if e = BE then hi_word (mFloatData r j) else lo_word (mFloatData r j)))"

definition entry_mips_n64 :: "endian \<Rightarrow> bool \<Rightarrow> (nat \<Rightarrow> u32) \<Rightarrow> mem \<Rightarrow> u64 mips64_call \<Rightarrow> DCArgs_mips64" where
  "entry_mips_n64 e hard junk caller c =
     \<lparr>rm64_ireg = mIntData (m64c_regdata c),
      rm64_freg = (if hard then mips64_freg e junk (m64c_regdata c) else mIntData (m64c_regdata c)),
      rm64_count = 0, rm64_sp = 0, rm64_stack = stack_copy caller (unat (m64c_size c)) (m64c_data c)\<rparr>"


subsection \<open>The round trip\<close>

definition mips64_inv :: "bool \<Rightarrow> u64 DCCallVM_mips64 \<Rightarrow> bool" where
  "mips64_inv hard s \<longleftrightarrow> mVTpointer s = gVT_mips_n64 \<and> m64_count s \<le> 8 \<and> vec_ok (m64_vec s) \<and>
     unat (mTotal (m64_vec s)) < 2 ^ 31 \<and> (hard \<longrightarrow> (\<forall>j \<ge> m64_count s. \<not> bit (mUseDouble (m64_reg s)) j))"

definition mips64_fits :: "u64 DCCallVM_mips64 \<Rightarrow> (u64, u64) dcarg \<Rightarrow> bool" where
  "mips64_fits s a \<longleftrightarrow> m64_count s < 8 \<or> vec_fits (m64_vec s) 8"

definition mips64_regs_keep :: "nat \<Rightarrow> DCRegData_mips64 \<Rightarrow> DCRegData_mips64 \<Rightarrow> bool" where
  "mips64_regs_keep n r q \<longleftrightarrow> (\<forall>j < n. mIntData q j = mIntData r j \<and> mFloatData q j = mFloatData r j \<and>
     bit (mUseDouble q) j = bit (mUseDouble r) j)"

definition mips64_keeps :: "u64 DCCallVM_mips64 \<Rightarrow> u64 DCCallVM_mips64 \<Rightarrow> bool" where
  "mips64_keeps s t \<longleftrightarrow> m64_count s \<le> m64_count t \<and> mips64_regs_keep (m64_count s) (m64_reg s) (m64_reg t) \<and>
     vec_keeps (m64_vec s) (m64_vec t) \<and> vec_ok (m64_vec t)"

definition mips64_view ::
    "endian \<Rightarrow> bool \<Rightarrow> (nat \<Rightarrow> u32) \<Rightarrow> mem \<Rightarrow> u64 \<Rightarrow> u64 DCCallVM_mips64 \<Rightarrow> u64 DCCallVM_mips64 \<Rightarrow> DCArgs_mips64" where
  "mips64_view e hard junk caller target F s =
     (entry_mips_n64 e hard junk caller (snd (dc_callvm_call_mips_n64 F target)))
     \<lparr>rm64_count := m64_count s, rm64_sp := unat (mSize (m64_vec s))\<rparr>"

lemma mips64_size:
  assumes "unat (n :: u64) < 2 ^ 31"
  shows "unat n \<le> unat (max 16 ((ucast (ucast n :: u32) + 7) AND (- 8)) :: u64)"
proof -
  have "ucast (ucast n :: u32) = n"
    using assms by (simp add: word_unat_eq_iff unsigned_ucast_eq unsigned_take_bit_eq take_bit_nat_eq_self)
  moreover have "(n + 7) AND (- 8) = mask_up n (2 ^ 3)" by (simp add: mask_up_def add.commute)
  moreover have "unat n \<le> unat (mask_up n (2 ^ 3))" using assms by (intro unat_mask_up_ge) simp_all
  ultimately show ?thesis by (simp add: max_def word_le_nat_alt)
qed

lemma mips64_stack_word:
  assumes "mips64_inv hard s" and "vec_fits (m64_vec s) n"
    and "vec_keeps (dcVecAppend (m64_vec s) (obj_bytes e n x)) (m64_vec F)" and "vec_ok (m64_vec F)"
    and "LENGTH('a) \<le> 8 * n"
  shows "obj_word e (read_at (rm64_stack (mips64_view e hard junk caller target F t)) (unat (mSize (m64_vec s))) n)
       = (x :: 'a::len word)"
proof -
  have "unat (mTotal (m64_vec F)) < 2 ^ 31" using assms(1,3) by (simp add: mips64_inv_def vec_keeps_def)
  with assms(4) have "unat (mSize (m64_vec F)) < 2 ^ 31" by (rule vec_size_small)
  from stack_copy_word [OF assms(2,3) mips64_size [OF this] assms(5)] show ?thesis
    by (simp add: mips64_view_def entry_mips_n64_def dc_callvm_call_mips_n64_def)
qed

lemma union_f_first [simp]: "(if e = BE then hi_word (union_f e u x) else lo_word (union_f e u x)) = x"
  by (simp add: union_f_def)

lemmas mips64_pushes = dc_callvm_argLongLong_mips_n64_def dc_callvm_argDouble_mips_n64_def dc_callvm_argFloat_mips_n64_def
lemmas mips64_pops = dcbArgLongLong_mips64_def dcbArgDouble_mips64_def dcbArgFloat_mips64_def
lemmas mips64_views = mips64_view_def entry_mips_n64_def dc_callvm_call_mips_n64_def mips64_freg_def

lemma mips64_pop_int:
  assumes "mips64_inv hard s" and "m64_count s < 8 \<or> vec_fits (m64_vec s) 8"
    and "mips64_keeps (dc_callvm_argLongLong_mips_n64 e s x) F"
  shows "dcbArgLongLong_mips64 e (mips64_view e hard junk caller target F s)
       = (x, mips64_view e hard junk caller target F (dc_callvm_argLongLong_mips_n64 e s x))"
    and "\<not> hard \<Longrightarrow> dcbArgDouble_mips64 e (mips64_view e hard junk caller target F s)
       = (x, mips64_view e hard junk caller target F (dc_callvm_argLongLong_mips_n64 e s x))"
proof -
  have w: "\<not> m64_count s < 8 \<Longrightarrow> obj_word e (read_at (rm64_stack (mips64_view e hard junk caller target F s)) (unat (mSize (m64_vec s))) 8) = x"
    using assms by (intro mips64_stack_word [OF assms(1)]) (auto simp: mips64_keeps_def mips64_pushes)
  show "dcbArgLongLong_mips64 e (mips64_view e hard junk caller target F s)
       = (x, mips64_view e hard junk caller target F (dc_callvm_argLongLong_mips_n64 e s x))"
    and "\<not> hard \<Longrightarrow> dcbArgDouble_mips64 e (mips64_view e hard junk caller target F s)
       = (x, mips64_view e hard junk caller target F (dc_callvm_argLongLong_mips_n64 e s x))"
    using assms(2,3) w
    by (cases "m64_count s < 8"; simp add: mips64_pushes mips64_pops mips64_views mips64_keeps_def mips64_regs_keep_def vec_append_used)+
qed

lemma bit_use_double: "bit (u OR 2 ^ n :: u64) j \<longleftrightarrow> bit u j \<or> (j = n \<and> n < 64)"
  by (auto simp: bit_simps)

lemma mips64_pop_double:
  assumes "mips64_inv hard s" and "m64_count s < 8 \<or> vec_fits (m64_vec s) 8"
    and "mips64_keeps (dc_callvm_argDouble_mips_n64 e hard s x) F"
  shows "dcbArgDouble_mips64 e (mips64_view e hard junk caller target F s)
       = (x, mips64_view e hard junk caller target F (dc_callvm_argDouble_mips_n64 e hard s x))"
proof (cases hard)
  case True
  have w: "\<not> m64_count s < 8 \<Longrightarrow> obj_word e (read_at (rm64_stack (mips64_view e hard junk caller target F s)) (unat (mSize (m64_vec s))) 8) = x"
    using assms True by (intro mips64_stack_word [OF assms(1)]) (auto simp: mips64_keeps_def mips64_pushes)
  show ?thesis
    using assms(2,3) w True
    by (cases "m64_count s < 8"; simp add: mips64_pushes mips64_pops mips64_views mips64_keeps_def mips64_regs_keep_def
        vec_append_used Let_def bit_use_double)
next
  case False
  with mips64_pop_int(2) [OF assms(1,2)] assms(3) show ?thesis by (simp add: dc_callvm_argDouble_mips_n64_def)
qed

lemma mips64_pop_float:
  assumes "mips64_inv hard s" and "m64_count s < 8 \<or> vec_fits (m64_vec s) 8"
    and "mips64_keeps (dc_callvm_argFloat_mips_n64 e hard s x) F"
  shows "dcbArgFloat_mips64 e (mips64_view e hard junk caller target F s)
       = (x, mips64_view e hard junk caller target F (dc_callvm_argFloat_mips_n64 e hard s x))"
proof (cases "m64_count s < 8")
  case True
  have "hard \<Longrightarrow> \<not> bit (mUseDouble (m64_reg s)) (m64_count s)" using assms(1) by (simp add: mips64_inv_def)
  then show ?thesis
    using assms(3) True
    by (cases hard; cases e) (simp_all add: mips64_pushes mips64_pops mips64_views mips64_keeps_def mips64_regs_keep_def
        Let_def union_f_def)
next
  case False
  with assms(2) have f: "vec_fits (m64_vec s) 8" "vec_fits (m64_vec s) 4" by (auto intro: vec_fits_mono)
  note sk = append_skip [OF f(1), of "obj_bytes e 4 x" "4 :: u64", simplified]
  define y where "y = (if e = BE then join_words x 0 else join_words 0 x)"
  have y: "take 4 (obj_bytes e 8 y) = obj_bytes e 4 x" by (cases e) (simp_all add: y_def obj_bytes_halves)
  show ?thesis
  proof (cases hard)
    case True
    with False assms(3) have "vec_keeps (dcVecAppend (m64_vec s) (obj_bytes e 4 x)) (m64_vec F)" "vec_ok (m64_vec F)"
      by (auto simp: mips64_keeps_def mips64_pushes intro: vec_keeps_trans [OF sk(5)])
    from mips64_stack_word [OF assms(1) f(2) this] False True sk(1) show ?thesis
      by (simp add: mips64_pushes mips64_pops mips64_views)
  next
    case soft: False
    then have p: "dc_callvm_argFloat_mips_n64 e hard s x = dc_callvm_argLongLong_mips_n64 e s y"
      using False by (simp add: mips64_pushes y_def)
    let ?v = "mips64_view e hard junk caller target F"
    have "rm64_stack (?v s) = rm64_stack (?v t)" for t by (simp add: mips64_views)
    have "obj_word e (read_at (rm64_stack (?v s)) (unat (mSize (m64_vec s))) 8) = y"
      using assms(3) [unfolded p] f(1) False
      by (intro mips64_stack_word [OF assms(1)]) (auto simp: mips64_keeps_def dc_callvm_argLongLong_mips_n64_def)
    then have "obj_bytes e 8 y = read_at (rm64_stack (?v s)) (unat (mSize (m64_vec s))) 8"
      using obj_bytes_obj_word [where 'a = 64, of "read_at (rm64_stack (?v s)) (unat (mSize (m64_vec s))) 8" 8 e] by simp
    then have "read_at (rm64_stack (?v s)) (unat (mSize (m64_vec s))) 4 = obj_bytes e 4 x"
      using read_at_part [of 0 4 8 "rm64_stack (?v s)" "unat (mSize (m64_vec s))"] y by simp
    then have "obj_word e (read_at (rm64_stack (?v s)) (unat (mSize (m64_vec s))) 4) = x"
      by (simp add: obj_word_obj_bytes)
    then show ?thesis
      unfolding p using False f(1)
      by (simp add: dc_callvm_argLongLong_mips_n64_def dcbArgFloat_mips64_def mips64_views vec_append_used)
  qed
qed

text \<open>What a push does to the state: it fills the next register or takes eight bytes of the vector.\<close>

definition mips64_grows :: "bool \<Rightarrow> u64 DCCallVM_mips64 \<Rightarrow> u64 DCCallVM_mips64 \<Rightarrow> bool" where
  "mips64_grows hard s t \<longleftrightarrow> mVTpointer t = mVTpointer s \<and>
     (if m64_count s < 8 then m64_count t = m64_count s + 1 \<and> m64_vec t = m64_vec s \<and>
        mips64_regs_keep (m64_count s) (m64_reg s) (m64_reg t) \<and>
        (hard \<longrightarrow> (\<forall>j > m64_count s. bit (mUseDouble (m64_reg t)) j = bit (mUseDouble (m64_reg s)) j))
      else m64_count t = m64_count s \<and> m64_reg t = m64_reg s \<and> vec_ok (m64_vec t) \<and> vec_keeps (m64_vec s) (m64_vec t) \<and>
        unat (mSize (m64_vec t)) = unat (mSize (m64_vec s)) + 8)"

lemma mips64_grows:
  assumes "m64_count s < 8 \<or> vec_fits (m64_vec s) 8"
  shows "mips64_grows hard s (dc_callvm_argLongLong_mips_n64 e s x)"
    and "mips64_grows hard s (dc_callvm_argDouble_mips_n64 e hard s x)"
    and "mips64_grows hard s (dc_callvm_argFloat_mips_n64 e hard s y)"
proof -
  have k: "\<not> m64_count s < 8 \<Longrightarrow> vec_fits (m64_vec s) 8" using assms by blast
  have ok: "\<not> m64_count s < 8 \<Longrightarrow> vec_ok (m64_vec s)" using k by (rule vec_fits_ok)
  note sk = append_skip [OF k, of "obj_bytes e 4 y" "4 :: u64", simplified]
  show i: "mips64_grows hard s (dc_callvm_argLongLong_mips_n64 e s x)" for x
    using k ok by (simp add: mips64_grows_def dc_callvm_argLongLong_mips_n64_def mips64_regs_keep_def vec_append_used vec_keeps_append
        vec_ok_append)
  show "mips64_grows hard s (dc_callvm_argDouble_mips_n64 e hard s x)"
    using k ok i by (cases hard) (simp add: Let_def dc_callvm_argDouble_mips_n64_def mips64_grows_def mips64_regs_keep_def bit_use_double
        vec_append_used vec_keeps_append vec_ok_append, simp add: dc_callvm_argDouble_mips_n64_def)
  show "mips64_grows hard s (dc_callvm_argFloat_mips_n64 e hard s y)"
    using sk i by (cases hard) (simp add: Let_def dc_callvm_argFloat_mips_n64_def mips64_grows_def mips64_regs_keep_def,
        cases e, simp_all add: dc_callvm_argFloat_mips_n64_def Let_def)
qed

lemma mips64_push:
  assumes "mips64_inv hard s" and "mips64_grows hard s t"
  shows "mips64_inv hard t" and "mips64_keeps s t" and "mTotal (m64_vec t) = mTotal (m64_vec s)"
    and "unat (mSize (m64_vec t)) \<le> unat (mSize (m64_vec s)) + 8"
  using assms
  by (auto simp: mips64_grows_def mips64_inv_def mips64_keeps_def mips64_regs_keep_def vec_keeps_def split: if_splits)

lemmas mips64_arg_defs = dc_callvm_argBool_mips_n64_def dc_callvm_argChar_mips_n64_def dc_callvm_argShort_mips_n64_def
  dc_callvm_argInt_mips_n64_def dc_callvm_argLong_mips_n64_def dc_callvm_argPointer_mips_n64_def vtab_mips_n64_def vt_mips_n64_def

interpretation mips64: arg_transport_cap "dcArg (vtab_mips_n64 e hard cs)" mips64_fits "mips64_inv hard" mips64_keeps
  "mips64_view e hard junk caller target" "dcbArg_mips64 e" arg_ty "\<lambda>a. a"
  "\<lambda>s. unat (mSize (m64_vec s))" "\<lambda>s. unat (mTotal (m64_vec s))" "\<lambda>_. 8"
  for e hard cs junk caller target
proof unfold_locales
  fix s and a :: "(u64, u64) dcarg" and F
  assume inv: "mips64_inv hard s"
  then have vt: "mVTpointer s = gVT_mips_n64" by (simp add: mips64_inv_def)
  show "mips64_keeps s s" using inv by (simp add: mips64_keeps_def mips64_regs_keep_def mips64_inv_def)
  show "unat (mSize (m64_vec s)) + 8 \<le> unat (mTotal (m64_vec s)) \<Longrightarrow> mips64_fits s a"
    by (simp add: mips64_fits_def vec_fits_def)
  assume fit: "mips64_fits s a"
  then have f: "m64_count s < 8 \<or> vec_fits (m64_vec s) 8" by (simp add: mips64_fits_def)
  have "mips64_grows hard s (dcArg (vtab_mips_n64 e hard cs) s a)"
    using vt mips64_grows [OF f] by (cases a) (simp_all add: mips64_arg_defs)
  note g = mips64_push [OF inv this]
  show "mips64_inv hard (dcArg (vtab_mips_n64 e hard cs) s a)" and "mips64_keeps s (dcArg (vtab_mips_n64 e hard cs) s a)"
    and "unat (mTotal (m64_vec (dcArg (vtab_mips_n64 e hard cs) s a))) = unat (mTotal (m64_vec s))"
    and "unat (mSize (m64_vec (dcArg (vtab_mips_n64 e hard cs) s a))) \<le> unat (mSize (m64_vec s)) + 8"
    using g by simp_all
  assume k: "mips64_keeps (dcArg (vtab_mips_n64 e hard cs) s a) F"
  show "dcbArg_mips64 e (mips64_view e hard junk caller target F s) (arg_ty a)
      = (a, mips64_view e hard junk caller target F (dcArg (vtab_mips_n64 e hard cs) s a))"
    using vt k mips64_pop_int(1) [OF inv f] mips64_pop_double [OF inv f] mips64_pop_float [OF inv f]
    by (cases a) (simp_all add: mips64_arg_defs ucast_scast_trunc ucast_ucast_trunc)
next
  show "mips64_keeps s t \<Longrightarrow> mips64_keeps t u \<Longrightarrow> mips64_keeps s u" for s t u
    by (auto simp: mips64_keeps_def mips64_regs_keep_def intro: vec_keeps_trans)
qed

lemma dcReset_mips_n64: "dcReset (vtab_mips_n64 e hard cs) vm = dc_callvm_reset_mips_n64 hard vm"
  by (simp add: dcReset_def vtab_mips_n64_def vt_mips_n64_def vt_mips_n64_ellipsis_def)

text \<open>C26: On MIPS 64 (N64) every list of scalar arguments that a program passes after \<open>dcReset\<close> is what the handler of
  a callback reads, with hard and soft floats and in both byte orders, whatever the upper halves of registers that
  hold floats contain, if the vector holds eight bytes for each.\<close>

theorem mips64_arguments_arrive:
  assumes "unat (mTotal (m64_vec vm)) < 2 ^ 31" and "8 * length xs \<le> unat (mTotal (m64_vec vm))"
    and "mVTpointer vm = gVT_mips_n64"
  shows "fst (pop_all (dcbArg_mips64 e)
            (entry_mips_n64 e hard junk caller (snd (dcCall (vtab_mips_n64 e hard cs) c
               (dcArgs (vtab_mips_n64 e hard cs) (dcReset (vtab_mips_n64 e hard cs) vm) xs) target)))
            (map arg_ty xs)) = xs"
proof -
  let ?V = "vtab_mips_n64 e hard cs" and ?s = "dc_callvm_reset_mips_n64 hard vm"
  have inv: "mips64_inv hard ?s"
    using assms(1,3) by (simp add: mips64_inv_def dc_callvm_reset_mips_n64_def dcVecReset_def vec_ok_def Let_def)
  have cap: "unat (mSize (m64_vec ?s)) + sum_list (map (\<lambda>_. 8) xs) \<le> unat (mTotal (m64_vec ?s))"
    using assms(2) by (simp add: dc_callvm_reset_mips_n64_def dcVecReset_def Let_def sum_list_triv mult.commute)
  have "mVTpointer (dcArgs ?V ?s xs) = gVT_mips_n64"
    using mips64.inv_push_all_cap [OF inv cap] by (simp add: mips64_inv_def push_all_dcArgs)
  moreover have "entry_mips_n64 e hard junk caller (snd (dc_callvm_call_mips_n64 (dcArgs ?V ?s xs) target))
      = mips64_view e hard junk caller target (push_all (dcArg ?V) ?s xs) ?s"
    by (simp add: mips64_view_def push_all_dcArgs entry_mips_n64_def dc_callvm_reset_mips_n64_def dcVecReset_def Let_def)
  ultimately show ?thesis
    using mips64.call_round_trip [OF inv cap]
    by (simp add: dcCall_def dcReset_mips_n64 vtab_mips_n64_def vt_mips_n64_def)
qed

definition mips64_blank :: "u64 \<Rightarrow> u64 DCCallVM_mips64" where
  "mips64_blank cap =
     \<lparr>mVTpointer = gVT_mips_n64, mError = 0, m64_count = 0,
      m64_reg = \<lparr>mIntData = (\<lambda>_. 0), mFloatData = (\<lambda>_. 0), mUseDouble = 0\<rparr>,
      m64_vec = \<lparr>mTotal = cap, mSize = 0, mData = (\<lambda>_. 0)\<rparr>\<rparr>"

lemma mips64_arguments_arrive_witness:
  "fst (pop_all (dcbArg_mips64 BE)
      (entry_mips_n64 BE True (\<lambda>_. 9) (\<lambda>_. 0) (snd (dcCall (vtab_mips_n64 BE True True) callVoid
         (dcArgs (vtab_mips_n64 BE True True) (dcReset (vtab_mips_n64 BE True True) (mips64_blank 64))
            [AInt 7, AFloat 9, ADouble 5, ABool 2]) 4096)))
      [TInt, TFloat, TDouble, TBool]) = [AInt 7, AFloat 9, ADouble 5, ABool 2]"
  using mips64_arguments_arrive [of "mips64_blank 64" "[AInt 7, AFloat 9, ADouble 5, ABool 2]" BE True "\<lambda>_. 9" "\<lambda>_. 0" True callVoid 4096]
  by (simp add: mips64_blank_def)

subsection \<open>N32 against N64\<close>

text \<open>What is passed through the integer and floating point functions of N32 leaves the VM in the state that hard float N64
  has; only pointers differ.\<close>

lemma mips_n32_as_n64:
  "dc_callvm_reset_mips_n32 s = dc_callvm_reset_mips_n64 True s"
  "dc_callvm_argLongLong_mips_n32 e s x = dc_callvm_argLongLong_mips_n64 e s x"
  "dc_callvm_argDouble_mips_n32 e s x = dc_callvm_argDouble_mips_n64 e True s x"
  "dc_callvm_argFloat_mips_n32 e s y = dc_callvm_argFloat_mips_n64 e True s y"
  "dc_callvm_call_mips_n32 s target = dc_callvm_call_mips_n64 s target"
  by (simp_all add: dc_callvm_reset_mips_n32_def dc_callvm_reset_mips_n64_def dc_callvm_argLongLong_mips_n32_def
      dc_callvm_argLongLong_mips_n64_def dc_callvm_argDouble_mips_n32_def dc_callvm_argDouble_mips_n64_def
      dc_callvm_argFloat_mips_n32_def dc_callvm_argFloat_mips_n64_def dc_callvm_call_mips_n32_def dc_callvm_call_mips_n64_def)

text \<open>A pointer on N32: on a little endian machine the lower half of the register, which the callee uses, is the pointer; on a
  big endian one it is whatever follows the pointer in memory.\<close>

lemma mips_n32_pointer:
  assumes "m64_count s < 8"
  shows "lo_word (mIntData (m64_reg (dc_callvm_argPointer_mips_n32 LE beside s p)) (m64_count s)) = p"
    and "lo_word (mIntData (m64_reg (dc_callvm_argPointer_mips_n32 BE beside s p)) (m64_count s)) = beside"
proof -
  have "obj_bytes LE 4 p @ obj_bytes LE 4 beside = obj_bytes LE 8 (join_words beside p)"
    and "obj_bytes BE 4 p @ obj_bytes BE 4 beside = obj_bytes BE 8 (join_words p beside)"
    using append_take_drop_id [of 4 "obj_bytes LE 8 (join_words beside p)"]
      append_take_drop_id [of 4 "obj_bytes BE 8 (join_words p beside)"] by (simp_all add: obj_bytes_halves)
  then show "lo_word (mIntData (m64_reg (dc_callvm_argPointer_mips_n32 LE beside s p)) (m64_count s)) = p"
    and "lo_word (mIntData (m64_reg (dc_callvm_argPointer_mips_n32 BE beside s p)) (m64_count s)) = beside"
    using assms by (simp_all add: dc_callvm_argPointer_mips_n32_def dc_callvm_argLongLong_mips_n32_def obj_word_obj_bytes)
qed

end
