(* ===== verification/Vm_MipsEabi.thy ===== *)
theory Vm_MipsEabi
  imports Dyn_Flat
begin

section \<open>MIPS EABI: call VM and argument reader\<close>

text \<open>
  \<open>dyncall/dyncall/dyncall_callvm_mips_eabi.{h,c}\<close> with the kernel \<open>dyncall_call_mips_eabi_gas.s\<close>, the reader
  \<open>dyncall/dyncallback/dyncall_args_mips.c\<close> and the entry \<open>dyncall_callback_mips_eabi_gas.s\<close>. Eight integer registers,
  which doubles use as well, in pairs, and eight for single floats. Both byte orders; \<open>cs\<close> says whether a plain
  \<open>char\<close> is signed.
\<close>

datatype vt_mips_eabi_id = gVT_mips_eabi

record DCCallVM_mips_eabi = "vt_mips_eabi_id DCCallVM" +
  me_i :: nat
  me_f :: nat
  me_int :: "nat \<Rightarrow> u32"
  me_single :: "nat \<Rightarrow> u32"
  me_vec :: "u32 vec"

record mips_eabi_call =
  mec_target :: u32
  mec_int :: "nat \<Rightarrow> u32"
  mec_single :: "nat \<Rightarrow> u32"
  mec_size :: u32
  mec_data :: mem

definition dc_callvm_reset_mips_eabi :: "DCCallVM_mips_eabi \<Rightarrow> DCCallVM_mips_eabi" where
  "dc_callvm_reset_mips_eabi self = self\<lparr>me_vec := dcVecReset (me_vec self), me_i := 0, me_f := 0\<rparr>"

definition dc_callvm_free_mips_eabi :: "DCCallVM_mips_eabi \<Rightarrow> DCCallVM_mips_eabi handle" where
  "dc_callvm_free_mips_eabi self = Freed"

definition me_int_reg :: "DCCallVM_mips_eabi \<Rightarrow> u32 \<Rightarrow> DCCallVM_mips_eabi" where
  "me_int_reg self x = self\<lparr>me_int := (me_int self)(me_i self := x), me_i := me_i self + 1\<rparr>"

definition dc_callvm_argInt_mips_eabi :: "endian \<Rightarrow> DCCallVM_mips_eabi \<Rightarrow> u32 \<Rightarrow> DCCallVM_mips_eabi" where
  "dc_callvm_argInt_mips_eabi e self i =
     (if me_i self < 8 then me_int_reg self i
      else self\<lparr>me_vec := dcVecAppend (me_vec self) (obj_bytes e 4 i)\<rparr>)"

definition dc_callvm_argPointer_mips_eabi :: "endian \<Rightarrow> DCCallVM_mips_eabi \<Rightarrow> u32 \<Rightarrow> DCCallVM_mips_eabi" where
  "dc_callvm_argPointer_mips_eabi e self x = dc_callvm_argInt_mips_eabi e self x"

definition dc_callvm_argBool_mips_eabi :: "endian \<Rightarrow> DCCallVM_mips_eabi \<Rightarrow> u32 \<Rightarrow> DCCallVM_mips_eabi" where
  "dc_callvm_argBool_mips_eabi e self x = dc_callvm_argInt_mips_eabi e self x"

definition dc_callvm_argChar_mips_eabi :: "endian \<Rightarrow> bool \<Rightarrow> DCCallVM_mips_eabi \<Rightarrow> u8 \<Rightarrow> DCCallVM_mips_eabi" where
  "dc_callvm_argChar_mips_eabi e cs self x = dc_callvm_argInt_mips_eabi e self (if cs then scast x else ucast x)"

definition dc_callvm_argShort_mips_eabi :: "endian \<Rightarrow> DCCallVM_mips_eabi \<Rightarrow> u16 \<Rightarrow> DCCallVM_mips_eabi" where
  "dc_callvm_argShort_mips_eabi e self x = dc_callvm_argInt_mips_eabi e self (scast x)"

definition dc_callvm_argLong_mips_eabi :: "endian \<Rightarrow> DCCallVM_mips_eabi \<Rightarrow> u32 \<Rightarrow> DCCallVM_mips_eabi" where
  "dc_callvm_argLong_mips_eabi e self x = dc_callvm_argInt_mips_eabi e self x"

text \<open>The two words in memory order go to a pair of registers that starts at an even one, or to an aligned place on the stack.\<close>

definition first_word :: "endian \<Rightarrow> u64 \<Rightarrow> u32" where
  "first_word e L = (if e = BE then hi_word L else lo_word L)"

definition second_word :: "endian \<Rightarrow> u64 \<Rightarrow> u32" where
  "second_word e L = (if e = BE then lo_word L else hi_word L)"

definition dc_callvm_argLongLong_mips_eabi :: "endian \<Rightarrow> DCCallVM_mips_eabi \<Rightarrow> u64 \<Rightarrow> DCCallVM_mips_eabi" where
  "dc_callvm_argLongLong_mips_eabi e self Lv =
     (if me_i self < 7 then
        (let self = self\<lparr>me_i := me_i self + me_i self mod 2\<rparr>
         in me_int_reg (me_int_reg self (first_word e Lv)) (second_word e Lv))
      else
        (let self = self\<lparr>me_i := 8\<rparr>;
             self = self\<lparr>me_vec := dcVecSkip (me_vec self) (mSize (me_vec self) AND 4)\<rparr>
         in self\<lparr>me_vec := dcVecAppend (me_vec self) (obj_bytes e 8 Lv)\<rparr>))"

definition dc_callvm_argFloat_mips_eabi :: "endian \<Rightarrow> DCCallVM_mips_eabi \<Rightarrow> u32 \<Rightarrow> DCCallVM_mips_eabi" where
  "dc_callvm_argFloat_mips_eabi e self x =
     (if me_f self < 8 then self\<lparr>me_single := (me_single self)(me_f self := x), me_f := me_f self + 1\<rparr>
      else self\<lparr>me_vec := dcVecAppend (me_vec self) (obj_bytes e 4 x)\<rparr>)"

definition dc_callvm_argDouble_mips_eabi :: "endian \<Rightarrow> DCCallVM_mips_eabi \<Rightarrow> u64 \<Rightarrow> DCCallVM_mips_eabi" where
  "dc_callvm_argDouble_mips_eabi e self x = dc_callvm_argLongLong_mips_eabi e self x"

definition dc_callvm_call_mips_eabi :: "DCCallVM_mips_eabi \<Rightarrow> u32 \<Rightarrow> DCCallVM_mips_eabi \<times> mips_eabi_call" where
  "dc_callvm_call_mips_eabi self target =
     (self, \<lparr>mec_target = target, mec_int = me_int self, mec_single = me_single self, mec_size = mSize (me_vec self),
             mec_data = mData (me_vec self)\<rparr>)"

definition dc_callvm_mode_mips_eabi :: "DCCallVM_mips_eabi \<Rightarrow> u32 \<Rightarrow> DCCallVM_mips_eabi" where
  "dc_callvm_mode_mips_eabi self mode =
     (if mode \<in> {DC_CALL_C_DEFAULT, DC_CALL_C_DEFAULT_THIS, DC_CALL_C_MIPS32_EABI, DC_CALL_C_ELLIPSIS, DC_CALL_C_ELLIPSIS_VARARGS}
      then dc_callvm_base_init self gVT_mips_eabi
      else self\<lparr>mError := DC_ERROR_UNSUPPORTED_MODE\<rparr>)"

definition vtab_mips_eabi :: "endian \<Rightarrow> bool \<Rightarrow> vt_mips_eabi_id \<Rightarrow> (DCCallVM_mips_eabi, u32, u32, mips_eabi_call) DCCallVM_vt" where
  "vtab_mips_eabi e cs vt =
     \<lparr>vt_free = dc_callvm_free_mips_eabi, vt_reset = dc_callvm_reset_mips_eabi, vt_mode = dc_callvm_mode_mips_eabi,
      vt_argBool = dc_callvm_argBool_mips_eabi e, vt_argChar = dc_callvm_argChar_mips_eabi e cs,
      vt_argShort = dc_callvm_argShort_mips_eabi e, vt_argInt = dc_callvm_argInt_mips_eabi e,
      vt_argLong = dc_callvm_argLong_mips_eabi e, vt_argLongLong = dc_callvm_argLongLong_mips_eabi e,
      vt_argFloat = dc_callvm_argFloat_mips_eabi e, vt_argDouble = dc_callvm_argDouble_mips_eabi e,
      vt_argPointer = dc_callvm_argPointer_mips_eabi e, vt_argAggr = None,
      vt_call = (\<lambda>_. dc_callvm_call_mips_eabi), vt_callAggr = None, vt_beginAggr = None\<rparr>"

definition dcNewCallVM_mips_eabi :: "DCCallVM_mips_eabi \<Rightarrow> u32 \<Rightarrow> DCCallVM_mips_eabi" where
  "dcNewCallVM_mips_eabi p sz =
     (let p = dc_callvm_mode_mips_eabi p DC_CALL_C_DEFAULT
      in dc_callvm_reset_mips_eabi (p\<lparr>me_vec := dcVecInit (me_vec p) sz\<rparr>))"

subsection \<open>The reader\<close>

text \<open>The stack pointer is an offset from the start of the stack arguments, which is aligned to eight bytes.\<close>

record DCArgs_mips_eabi =
  rme_int :: "nat \<Rightarrow> u32"
  rme_single :: "nat \<Rightarrow> u32"
  rme_i :: nat
  rme_f :: nat
  rme_sp :: nat
  rme_stack :: mem

definition dcbArgInt_mips_eabi :: "endian \<Rightarrow> DCArgs_mips_eabi \<Rightarrow> u32 \<times> DCArgs_mips_eabi" where
  "dcbArgInt_mips_eabi e p =
     (if rme_i p < 8 then (rme_int p (rme_i p), p\<lparr>rme_i := rme_i p + 1\<rparr>)
      else (obj_word e (read_at (rme_stack p) (rme_sp p) 4), p\<lparr>rme_sp := rme_sp p + 4\<rparr>))"

text \<open>The reader aligns the stack pointer before it looks whether the value is in registers.\<close>

definition dcbArgULongLong_mips_eabi :: "endian \<Rightarrow> DCArgs_mips_eabi \<Rightarrow> u64 \<times> DCArgs_mips_eabi" where
  "dcbArgULongLong_mips_eabi e p =
     (let p = p\<lparr>rme_i := rme_i p + rme_i p mod 2\<rparr>;
          p = p\<lparr>rme_sp := (if odd (rme_sp p div 4) then rme_sp p + 4 else rme_sp p)\<rparr>;
          (a, p) = dcbArgInt_mips_eabi e p;
          (b, p) = dcbArgInt_mips_eabi e p
      in (if e = LE then join_words b a else join_words a b, p))"

definition dcbArgFloat_mips_eabi :: "endian \<Rightarrow> DCArgs_mips_eabi \<Rightarrow> u32 \<times> DCArgs_mips_eabi" where
  "dcbArgFloat_mips_eabi e p =
     (if rme_f p < 8 then (rme_single p (rme_f p), p\<lparr>rme_f := rme_f p + 1\<rparr>)
      else (obj_word e (read_at (rme_stack p) (rme_sp p) 4), p\<lparr>rme_sp := rme_sp p + 4\<rparr>))"

definition dcbArgDouble_mips_eabi :: "endian \<Rightarrow> DCArgs_mips_eabi \<Rightarrow> u64 \<times> DCArgs_mips_eabi" where
  "dcbArgDouble_mips_eabi e p = dcbArgULongLong_mips_eabi e p"

fun dcbArg_mips_eabi :: "endian \<Rightarrow> DCArgs_mips_eabi \<Rightarrow> dcty \<Rightarrow> (u32, u32) dcarg \<times> DCArgs_mips_eabi" where
  "dcbArg_mips_eabi e p TBool = map_prod ABool id (dcbArgInt_mips_eabi e p)"
| "dcbArg_mips_eabi e p TChar = map_prod (\<lambda>x. AChar (ucast x)) id (dcbArgInt_mips_eabi e p)"
| "dcbArg_mips_eabi e p TShort = map_prod (\<lambda>x. AShort (ucast x)) id (dcbArgInt_mips_eabi e p)"
| "dcbArg_mips_eabi e p TInt = map_prod AInt id (dcbArgInt_mips_eabi e p)"
| "dcbArg_mips_eabi e p TLong = map_prod ALong id (dcbArgInt_mips_eabi e p)"
| "dcbArg_mips_eabi e p TLongLong = map_prod ALongLong id (dcbArgULongLong_mips_eabi e p)"
| "dcbArg_mips_eabi e p TFloat = map_prod AFloat id (dcbArgFloat_mips_eabi e p)"
| "dcbArg_mips_eabi e p TDouble = map_prod ADouble id (dcbArgDouble_mips_eabi e p)"
| "dcbArg_mips_eabi e p TPointer = map_prod APointer id (dcbArgInt_mips_eabi e p)"

text \<open>The kernel copies the vector rounded up to eight bytes and loads the registers; the entry spills them.\<close>

definition entry_mips_eabi :: "mem \<Rightarrow> mips_eabi_call \<Rightarrow> DCArgs_mips_eabi" where
  "entry_mips_eabi caller c =
     \<lparr>rme_int = mec_int c, rme_single = mec_single c, rme_i = 0, rme_f = 0, rme_sp = 0,
      rme_stack = stack_copy caller (unat ((mec_size c + 7) AND (- 8))) (mec_data c)\<rparr>"

subsection \<open>The round trip\<close>

text \<open>As long as the float registers suffice, the stack is used only when the integer registers are full.\<close>

definition eabi_inv :: "DCCallVM_mips_eabi \<Rightarrow> bool" where
  "eabi_inv s \<longleftrightarrow> me_i s \<le> 8 \<and> me_f s \<le> 8 \<and> (me_i s < 8 \<longrightarrow> mSize (me_vec s) = 0) \<and>
     flat_ok (me_vec s) \<and> 4 dvd unat (mSize (me_vec s))"

definition eabi_fits :: "DCCallVM_mips_eabi \<Rightarrow> (u32, u32) dcarg \<Rightarrow> bool" where
  "eabi_fits s a \<longleftrightarrow> vec_fits (me_vec s) (word_cost True a) \<and> (arg_ty a = TFloat \<longrightarrow> me_f s < 8)"

definition eabi_keeps :: "DCCallVM_mips_eabi \<Rightarrow> DCCallVM_mips_eabi \<Rightarrow> bool" where
  "eabi_keeps s t \<longleftrightarrow> me_i s \<le> me_i t \<and> me_f s \<le> me_f t \<and>
     (\<forall>j < me_i s. me_int t j = me_int s j) \<and> (\<forall>j < me_f s. me_single t j = me_single s j) \<and>
     vec_keeps (me_vec s) (me_vec t) \<and> flat_ok (me_vec t)"

definition eabi_view :: "endian \<Rightarrow> mem \<Rightarrow> u32 \<Rightarrow> DCCallVM_mips_eabi \<Rightarrow> DCCallVM_mips_eabi \<Rightarrow> DCArgs_mips_eabi" where
  "eabi_view e caller target F s =
     (entry_mips_eabi caller (snd (dc_callvm_call_mips_eabi F target)))
     \<lparr>rme_i := me_i s, rme_f := me_f s, rme_sp := unat (mSize (me_vec s))\<rparr>"

text \<open>What a push does: \<open>stacked\<close> tells whether it takes a place on the stack.\<close>

definition eabi_stacked :: "DCCallVM_mips_eabi \<Rightarrow> (u32, u32) dcarg \<Rightarrow> bool" where
  "eabi_stacked s a = (if arg_ty a = TFloat then False else if is_wide a then 7 \<le> me_i s else 8 \<le> me_i s)"

definition eabi_grows :: "endian \<Rightarrow> bool \<Rightarrow> (u32, u32) dcarg \<Rightarrow> DCCallVM_mips_eabi \<Rightarrow> DCCallVM_mips_eabi \<Rightarrow> bool" where
  "eabi_grows e cs a s t \<longleftrightarrow> me_i s \<le> me_i t \<and> me_i t \<le> 8 \<and> me_f s \<le> me_f t \<and> me_f t \<le> me_f s + (if arg_ty a = TFloat then 1 else 0) \<and>
     (\<forall>j < me_i s. me_int t j = me_int s j) \<and> (\<forall>j < me_f s. me_single t j = me_single s j) \<and>
     me_vec t = (if eabi_stacked s a then vec_slot (is_wide a) (flat_bytes cs e a) (me_vec s) else me_vec s) \<and>
     (eabi_stacked s a \<longrightarrow> me_i t = 8)"

lemmas eabi_op_defs = dc_callvm_argBool_mips_eabi_def dc_callvm_argChar_mips_eabi_def dc_callvm_argShort_mips_eabi_def
  dc_callvm_argInt_mips_eabi_def dc_callvm_argLong_mips_eabi_def dc_callvm_argPointer_mips_eabi_def
  dc_callvm_argFloat_mips_eabi_def dc_callvm_argDouble_mips_eabi_def dc_callvm_argLongLong_mips_eabi_def vtab_mips_eabi_def

lemma pair_below_7: "(n :: nat) < 7 \<Longrightarrow> n + n mod 2 \<le> 6"
  by presburger

lemma eabi_grows:
  assumes "eabi_inv s" and "eabi_fits s a"
  shows "eabi_grows e cs a s (dcArg (vtab_mips_eabi e cs) s a)"
proof (cases "is_wide a")
  case True
  have "me_i s < 7 \<Longrightarrow> me_i s + me_i s mod 2 \<le> 6" by (rule pair_below_7)
  with True assms show ?thesis
    by (cases a) (auto simp: eabi_inv_def eabi_grows_def eabi_stacked_def eabi_op_defs me_int_reg_def vec_slot_def Let_def)
next
  case False
  with assms show ?thesis
    by (cases a) (auto simp: eabi_inv_def eabi_fits_def eabi_grows_def eabi_stacked_def eabi_op_defs me_int_reg_def vec_slot_def)
qed

lemma eabi_slot:
  fixes e cs
  assumes "eabi_inv s" and "eabi_fits s a"
  defines "bs \<equiv> flat_bytes cs e a"
  shows "flat_ok (vec_slot (is_wide a) bs (me_vec s))" and "4 dvd unat (mSize (vec_slot (is_wide a) bs (me_vec s)))"
    and "vec_keeps (me_vec s) (vec_slot (is_wide a) bs (me_vec s))"
    and "unat (mSize (vec_slot (is_wide a) bs (me_vec s))) = slot_at (is_wide a) (unat (mSize (me_vec s))) + length bs"
    and "vec_keeps (vec_slot (is_wide a) bs (me_vec s)) (me_vec F) \<Longrightarrow> flat_ok (me_vec F) \<Longrightarrow>
      read_at (rme_stack (eabi_view e caller target F s)) (slot_at (is_wide a) (unat (mSize (me_vec s)))) (length bs) = bs"
proof -
  have d: "4 dvd unat (mSize (me_vec s))" and ok: "flat_ok (me_vec s)" using assms(1) by (simp_all add: eabi_inv_def)
  have "vec_fits (me_vec s) (slot_cost (is_wide a) bs)"
    using assms(2) slot_cost_flat [of True a cs e] by (simp add: eabi_fits_def bs_def)
  note slot = vec_slot [OF this d]
  show "flat_ok (vec_slot (is_wide a) bs (me_vec s))" using ok slot(3) by (simp add: flat_ok_def)
  show sz: "unat (mSize (vec_slot (is_wide a) bs (me_vec s))) = slot_at (is_wide a) (unat (mSize (me_vec s))) + length bs"
    by (rule slot(1))
  show "4 dvd unat (mSize (vec_slot (is_wide a) bs (me_vec s)))"
    unfolding sz using slot_at_dvd [OF d] by (simp add: bs_def length_flat_bytes)
  show "vec_keeps (me_vec s) (vec_slot (is_wide a) bs (me_vec s))" by (rule slot(2))
  assume k: "vec_keeps (vec_slot (is_wide a) bs (me_vec s)) (me_vec F)" and F: "flat_ok (me_vec F)"
  let ?n = "mSize (me_vec F)"
  have n: "unat ?n < 2 ^ 31" using F by (simp add: flat_ok_def vec_size_small)
  have "(?n + 7) AND (- 8) = mask_up ?n (2 ^ 3)" by (simp add: mask_up_def add.commute)
  moreover have "unat ?n \<le> unat (mask_up ?n (2 ^ 3))" using n by (intro unat_mask_up_ge) simp_all
  moreover have "slot_at (is_wide a) (unat (mSize (me_vec s))) + length bs \<le> unat ?n" using k sz by (simp add: vec_keeps_def)
  ultimately show "read_at (rme_stack (eabi_view e caller target F s)) (slot_at (is_wide a) (unat (mSize (me_vec s)))) (length bs) = bs"
    using slot(4) [OF k] by (simp add: eabi_view_def entry_mips_eabi_def dc_callvm_call_mips_eabi_def stack_copy_read)
qed

lemma eabi_push:
  assumes "eabi_inv s" and "eabi_fits s a" and "eabi_grows e cs a s t"
  shows "eabi_inv t" and "eabi_keeps s t" and "mTotal (me_vec t) = mTotal (me_vec s)"
    and "unat (mSize (me_vec t)) \<le> unat (mSize (me_vec s)) + word_cost True a"
    and "me_f t \<le> me_f s + (if arg_ty a = TFloat then 1 else 0)"
  using assms eabi_slot(1-4) [OF assms(1,2), of cs e] slot_at_le [of "is_wide a" "unat (mSize (me_vec s))"]
  by (auto simp: eabi_grows_def eabi_inv_def eabi_keeps_def eabi_fits_def length_flat_bytes word_cost_def split: if_splits)

lemma words_of_bytes:
  "take 4 (obj_bytes e 8 x) = obj_bytes e 4 (first_word e x)" "drop 4 (obj_bytes e 8 x) = obj_bytes e 4 (second_word e x)"
  "(if e = LE then join_words (second_word e x) (first_word e x) else join_words (first_word e x) (second_word e x)) = x"
  by (cases e; simp add: obj_bytes_halves first_word_def second_word_def)+

lemma eabi_pop:
  assumes i: "eabi_inv s" and f: "eabi_fits s a" and k: "eabi_keeps (dcArg (vtab_mips_eabi e cs) s a) F"
  shows "dcbArg_mips_eabi e (eabi_view e caller target F s) (arg_ty a)
      = (a, eabi_view e caller target F (dcArg (vtab_mips_eabi e cs) s a))"
proof -
  let ?t = "dcArg (vtab_mips_eabi e cs) s a" and ?v = "eabi_view e caller target F"
  let ?q = "slot_at (is_wide a) (unat (mSize (me_vec s)))"
  have b: "me_i s \<le> 8" "me_f s \<le> 8" "me_i s < 8 \<Longrightarrow> mSize (me_vec s) = 0" using i by (simp_all add: eabi_inv_def)
  have g: "eabi_grows e cs a s ?t" by (rule eabi_grows [OF i f])
  have r: "\<And>j. j < me_i ?t \<Longrightarrow> me_int F j = me_int ?t j" "\<And>j. j < me_f ?t \<Longrightarrow> me_single F j = me_single ?t j"
    using k by (simp_all add: eabi_keeps_def)
  have rd: "eabi_stacked s a \<Longrightarrow> read_at (rme_stack (?v s)) ?q (if is_wide a then 8 else 4) = flat_bytes cs e a"
    using eabi_slot(5) [OF i f, of cs e F caller target] k g
    by (simp add: eabi_keeps_def eabi_grows_def length_flat_bytes)
  have sz: "eabi_stacked s a \<Longrightarrow> unat (mSize (me_vec ?t)) = ?q + (if is_wide a then 8 else 4)"
    using eabi_slot(4) [OF i f, of cs e] g by (simp add: eabi_grows_def length_flat_bytes)
  note defs = eabi_view_def entry_mips_eabi_def dc_callvm_call_mips_eabi_def dcbArgInt_mips_eabi_def dcbArgFloat_mips_eabi_def
    dcbArgULongLong_mips_eabi_def dcbArgDouble_mips_eabi_def
  show ?thesis
  proof (cases "is_wide a")
    case True
    then obtain L where a: "a = ALongLong L \<or> a = ADouble L" by (cases a) auto
    then have bs: "flat_bytes cs e a = obj_bytes e 8 L" by auto
    have halves: "eabi_stacked s a \<Longrightarrow> read_at (rme_stack (?v s)) ?q 4 = obj_bytes e 4 (first_word e L) \<and>
        read_at (rme_stack (?v s)) (?q + 4) 4 = obj_bytes e 4 (second_word e L)"
      using read_at_part [of 0 4 8 "rme_stack (?v s)" ?q] read_at_part [of 4 4 8 "rme_stack (?v s)" ?q] rd True
      by (simp add: bs words_of_bytes)
    have "dcbArgULongLong_mips_eabi e (?v s) = (L, ?v (dc_callvm_argLongLong_mips_eabi e s L))"
    proof (cases "me_i s < 7")
      case reg: True
      then have "me_i s + me_i s mod 2 \<le> 6" by (rule pair_below_7)
      then show ?thesis
        using reg r b(3) a words_of_bytes(3) [of e L]
        by (auto simp: defs eabi_op_defs me_int_reg_def Let_def split: if_splits)
    next
      case False
      then have st: "eabi_stacked s a" using True a by (auto simp: eabi_stacked_def)
      have "me_i s = 7 \<or> me_i s = 8" using False b(1) by linarith
      then show ?thesis
        using halves [OF st] sz [OF st] a words_of_bytes(3) [of e L] False
        by (auto simp: defs eabi_op_defs slot_at_def obj_word_obj_bytes Let_def split: if_splits)
    qed
    then show ?thesis using a by (auto simp: eabi_op_defs dcbArgDouble_mips_eabi_def)
  next
    case narrow: False
    then have st: "eabi_stacked s a \<longleftrightarrow> arg_ty a \<noteq> TFloat \<and> me_i s = 8"
      using b(1) by (auto simp: eabi_stacked_def)
    have fl: "arg_ty a = TFloat \<Longrightarrow> me_f s < 8" using f by (simp add: eabi_fits_def)
    show ?thesis
      using narrow r rd sz b(1) fl unfolding st
      by (cases a; cases "me_i s < 8") (simp_all add: defs eabi_op_defs me_int_reg_def slot_at_def obj_word_obj_bytes
          ucast_scast_trunc ucast_ucast_trunc)
  qed
qed

interpretation eabi: arg_transport "dcArg (vtab_mips_eabi e cs)" eabi_fits eabi_inv eabi_keeps "eabi_view e caller target"
  "dcbArg_mips_eabi e" arg_ty "\<lambda>a. a"
  for e cs caller target
proof unfold_locales
  fix s and a :: "(u32, u32) dcarg" and F
  assume i: "eabi_inv s"
  then show "eabi_keeps s s" by (simp add: eabi_keeps_def eabi_inv_def)
  assume f: "eabi_fits s a"
  show "eabi_inv (dcArg (vtab_mips_eabi e cs) s a)" and "eabi_keeps s (dcArg (vtab_mips_eabi e cs) s a)"
    by (rule eabi_push [OF i f eabi_grows [OF i f]])+
  show "eabi_keeps (dcArg (vtab_mips_eabi e cs) s a) F \<Longrightarrow>
      dcbArg_mips_eabi e (eabi_view e caller target F s) (arg_ty a) = (a, eabi_view e caller target F (dcArg (vtab_mips_eabi e cs) s a))"
    by (rule eabi_pop [OF i f])
qed (auto simp: eabi_keeps_def intro: vec_keeps_trans)

lemma eabi_fits_all:
  "eabi_inv s \<Longrightarrow> unat (mSize (me_vec s)) + sum_list (map (word_cost True) xs) \<le> unat (mTotal (me_vec s)) \<Longrightarrow>
     me_f s + length (filter (\<lambda>a. arg_ty a = TFloat) xs) \<le> 8 \<Longrightarrow> fits_all (dcArg (vtab_mips_eabi e cs)) eabi_fits s xs"
proof (induction xs arbitrary: s)
  case (Cons a xs)
  then have f: "eabi_fits s a" by (auto simp: eabi_fits_def vec_fits_def)
  note p = eabi_push [OF Cons.prems(1) f eabi_grows [OF Cons.prems(1) f, of e cs]]
  have "fits_all (dcArg (vtab_mips_eabi e cs)) eabi_fits (dcArg (vtab_mips_eabi e cs) s a) xs"
  proof (rule Cons.IH [OF p(1)])
    show "unat (mSize (me_vec (dcArg (vtab_mips_eabi e cs) s a))) + sum_list (map (word_cost True) xs)
        \<le> unat (mTotal (me_vec (dcArg (vtab_mips_eabi e cs) s a)))"
      using Cons.prems(2) p(3,4) by simp
    show "me_f (dcArg (vtab_mips_eabi e cs) s a) + length (filter (\<lambda>a. arg_ty a = TFloat) xs) \<le> 8"
      using Cons.prems(3) p(5) by (simp split: if_splits)
  qed
  with f show ?case by simp
qed simp

text \<open>Under the EABI of MIPS every list of scalar arguments with at most eight floats that a program passes after
  \<open>dcReset\<close> is what the handler of a callback reads, in both byte orders; doubles and 64 bit integers take pairs of
  integer registers or aligned places on the stack.\<close>

lemma mips_eabi_arguments_arrive:
  assumes "unat (mTotal (me_vec vm)) < 2 ^ 31" and "sum_list (map (word_cost True) xs) \<le> unat (mTotal (me_vec vm))"
    and "length (filter (\<lambda>a. arg_ty a = TFloat) xs) \<le> 8"
  shows "fst (pop_all (dcbArg_mips_eabi e)
            (entry_mips_eabi caller (snd (dcCall (vtab_mips_eabi e cs) c
               (dcArgs (vtab_mips_eabi e cs) (dcReset (vtab_mips_eabi e cs) vm) xs) target)))
            (map arg_ty xs)) = xs"
proof -
  let ?V = "vtab_mips_eabi e cs" and ?s = "dc_callvm_reset_mips_eabi vm"
  have r: "dcReset ?V vm = ?s" by (simp add: dcReset_def vtab_mips_eabi_def)
  have s: "me_i ?s = 0" "me_f ?s = 0" "mSize (me_vec ?s) = 0" "mTotal (me_vec ?s) = mTotal (me_vec vm)"
    by (simp_all add: dc_callvm_reset_mips_eabi_def dcVecReset_def)
  then have inv: "eabi_inv ?s" using assms(1) by (simp add: eabi_inv_def flat_ok_def vec_ok_def)
  have fits: "fits_all (dcArg ?V) eabi_fits ?s xs" by (rule eabi_fits_all [OF inv]) (use assms s in simp_all)
  have "entry_mips_eabi caller (snd (dcCall ?V c (dcArgs ?V ?s xs) target)) = eabi_view e caller target (push_all (dcArg ?V) ?s xs) ?s"
    using s by (simp add: eabi_view_def push_all_dcArgs dcCall_def vtab_mips_eabi_def entry_mips_eabi_def)
  then show ?thesis using eabi.round_trip [OF inv fits, of caller target] by (simp add: r)
qed

definition eabi_blank :: "u32 \<Rightarrow> DCCallVM_mips_eabi" where
  "eabi_blank cap =
     \<lparr>mVTpointer = gVT_mips_eabi, mError = 0, me_i = 0, me_f = 0, me_int = (\<lambda>_. 0), me_single = (\<lambda>_. 0),
      me_vec = \<lparr>mTotal = cap, mSize = 0, mData = (\<lambda>_. 0)\<rparr>\<rparr>"

lemma mips_eabi_arguments_arrive_witness:
  "fst (pop_all (dcbArg_mips_eabi BE)
      (entry_mips_eabi (\<lambda>_. 0) (snd (dcCall (vtab_mips_eabi BE True) callVoid
         (dcArgs (vtab_mips_eabi BE True) (dcReset (vtab_mips_eabi BE True) (eabi_blank 64))
            [AInt 7, ADouble 9, AFloat 8, AChar 1, ALongLong 11]) 4096)))
      [TInt, TDouble, TFloat, TChar, TLongLong]) = [AInt 7, ADouble 9, AFloat 8, AChar 1, ALongLong 11]"
  using mips_eabi_arguments_arrive [of "eabi_blank 64" "[AInt 7, ADouble 9, AFloat 8, AChar 1, ALongLong 11]" BE "\<lambda>_. 0" True callVoid 4096]
  by (simp add: eabi_blank_def word_cost_def)

text \<open>With more floats the two disagree: when floats have left the stack at an odd word, a 64 bit integer in registers moves the
  pointer of the reader by four bytes but not that of the writer, so the next argument on the stack is read behind its place.\<close>

lemma eabi_reader_moves:
  assumes "me_i s < 7" and "odd (unat (mSize (me_vec s)) div 4)"
  shows "me_vec (dcArg (vtab_mips_eabi e cs) s (ALongLong L)) = me_vec s"
    and "rme_sp (snd (dcbArg_mips_eabi e (eabi_view e caller target F s) TLongLong)) = unat (mSize (me_vec s)) + 4"
proof -
  have p: "me_i s + me_i s mod 2 \<le> 6" using assms(1) by (rule pair_below_7)
  show "me_vec (dcArg (vtab_mips_eabi e cs) s (ALongLong L)) = me_vec s"
    using assms by (simp add: eabi_op_defs me_int_reg_def Let_def)
  show "rme_sp (snd (dcbArg_mips_eabi e (eabi_view e caller target F s) TLongLong)) = unat (mSize (me_vec s)) + 4"
    using assms p by (simp add: eabi_view_def dcbArgULongLong_mips_eabi_def dcbArgInt_mips_eabi_def Let_def)
qed

end
