(* ===== verification/Vm_Session.thy ===== *)
theory Vm_Session
  imports Aggr_X64
begin

unbundle bit_operations_syntax

section \<open>Sessions with a call VM\<close>

text \<open>
  A client uses one call VM for many calls: it sets modes, passes arguments, calls, resets, in any order. The
  first part is the life of a VM under every function of \<open>dyncall_api.c\<close>, as a step relation, with what holds in every
  state of an x64 VM that can be reached. The second is the contract that clients rely on, a machine that collects
  arguments until the next reset, and the proof that the x64 VM refines it.
\<close>

subsection \<open>Everything a client can do\<close>

inductive vm_step ::
  "('id \<Rightarrow> (('id, 'm) DCCallVM_scheme, 'l, 'p, 'k) DCCallVM_vt) \<Rightarrow>
   ('id, 'm) DCCallVM_scheme \<Rightarrow> ('id, 'm) DCCallVM_scheme \<Rightarrow> bool"
  for vtab where
  step_reset: "vm_step vtab vm (dcReset vtab vm)"
| step_mode: "vm_step vtab vm (dcMode vtab vm mode)"
| step_arg: "vm_step vtab vm (dcArg vtab vm a)"
| step_aggr: "dcArgAggr vtab h vm ag x = Some vm' \<Longrightarrow> vm_step vtab vm vm'"
| step_begin: "dcBeginCallAggr vtab vm ag = Some vm' \<Longrightarrow> vm_step vtab vm vm'"
| step_call: "dcCall vtab c vm target = (vm', k) \<Longrightarrow> vm_step vtab vm vm'"
| step_call_aggr: "dcCallAggr vtab h vm target ag ret = Some (vm', h') \<Longrightarrow> vm_step vtab vm vm'"

definition vm_reach ::
  "('id \<Rightarrow> (('id, 'm) DCCallVM_scheme, 'l, 'p, 'k) DCCallVM_vt) \<Rightarrow>
   ('id, 'm) DCCallVM_scheme \<Rightarrow> ('id, 'm) DCCallVM_scheme \<Rightarrow> bool" where
  "vm_reach vtab = (vm_step vtab)\<^sup>*\<^sup>*"

text \<open>What every step of an x64 VM keeps: the counters stay within the register arrays, the number of the
  register for a hidden pointer is one the code sets, and the capacity does not change. (The size of the vector may
  leave the capacity: an aggregate that is dropped is still skipped.)\<close>

definition x64_safe :: "u64 \<Rightarrow> DCCallVM_x64 \<Rightarrow> bool" where
  "x64_safe cap s \<longleftrightarrow> rc_i s \<le> numIntRegs \<and> rc_f s \<le> numFloatRegs \<and> mAggrReturnReg s \<in> {-1, 0} \<and>
     mTotal (mVecHead s) = cap"

lemma x64_safe_int: "x64_safe cap s \<Longrightarrow> x64_safe cap (dc_callvm_argLongLong_x64 s x)"
  by (auto simp: x64_safe_def dc_callvm_argLongLong_x64_def Let_def)

lemma x64_safe_float: "x64_safe cap s \<Longrightarrow> x64_safe cap (dc_callvm_argDouble_x64 s x)"
  by (auto simp: x64_safe_def dc_callvm_argDouble_x64_def)

lemma x64_safe_dcArg: "x64_safe cap s \<Longrightarrow> x64_safe cap (dcArg (vtab_x64 run run_aggr pad) s a)"
  by (cases a) (simp_all add: vtab_x64_args x64_arg_defs x64_safe_int x64_safe_float)

lemma x64_safe_qwords: "x64_safe cap s \<Longrightarrow> x64_safe cap (pass_qwords h x i cs s)"
  by (induction cs arbitrary: i s) (simp_all add: x64_safe_int x64_safe_float)

lemma x64_safe_aggr: "x64_safe cap s \<Longrightarrow> x64_safe cap (dc_callvm_argAggr_x64 h s ag x)"
  using x64_safe_qwords [of cap s h x 0] x64_safe_int [of cap s x]
  by (auto simp: dc_callvm_argAggr_x64_def argPointer_x64_eq split: option.split) (simp add: x64_safe_def)

lemma dcMode_x64: "dcMode (vtab_x64 run run_aggr pad) s m = dc_callvm_mode_x64 s m"
  by (cases "mVTpointer s") (simp_all add: dcMode_def vt_x64_c_def vt_x64_syscall_def)

lemma x64_safe_mode: "x64_safe cap s \<Longrightarrow> x64_safe cap (dc_callvm_mode_x64 s m)"
  by (simp add: x64_safe_def dc_callvm_mode_x64_def dc_callvm_base_init_def)

lemma x64_safe_step: "vm_step (vtab_x64 run run_aggr pad) s t \<Longrightarrow> x64_safe cap s \<Longrightarrow> x64_safe cap t"
proof (induction rule: vm_step.induct)
  case (step_reset vm)
  then show ?case by (simp add: x64_safe_def dc_callvm_reset_x64_def dcVecReset_def)
next
  case (step_aggr h vm ag x vm')
  then show ?case
    by (cases "mVTpointer vm") (auto simp: dcArgAggr_def vt_x64_c_def vt_x64_syscall_def x64_safe_aggr)
next
  case (step_begin vm ag vm')
  then show ?case
    by (cases "mVTpointer vm")
      (auto simp: dcBeginCallAggr_def vt_x64_c_def vt_x64_syscall_def dc_callvm_begin_aggr_x64_def x64_safe_def
        split: if_splits option.splits)
next
  case (step_call c vm target vm' k)
  then show ?case
    by (cases "mVTpointer vm")
      (auto simp: dcCall_def vt_x64_c_def vt_x64_syscall_def dc_callvm_call_x64_def dc_callvm_call_x64_syscall_sysv_def)
next
  case (step_call_aggr h vm target ag ret vm' h')
  then show ?case
    by (cases "mVTpointer vm")
      (auto simp: dcCallAggr_def vt_x64_c_def vt_x64_syscall_def dc_callvm_call_x64_aggr_def Let_def x64_safe_def
        split: if_splits option.splits prod.splits)
qed (simp_all add: dcMode_x64 x64_safe_mode x64_safe_dcArg)

lemma x64_safe_reach: "vm_reach (vtab_x64 run run_aggr pad) s t \<Longrightarrow> x64_safe cap s \<Longrightarrow> x64_safe cap t"
  unfolding vm_reach_def by (induction rule: rtranclp_induct) (auto intro: x64_safe_step)

text \<open>The capacity of a new VM: the size asked for less that of the register data, which is not negative.\<close>

lemma x64_safe_new:
  "x64_safe (if sz - 112 <s 0 then 0 else sz - 112) (dcNewCallVM_x64 p sz)"
  by (simp add: x64_safe_def dcNewCallVM_x64_def dc_callvm_reset_x64_def dcVecReset_def dcVecInit_def Let_def)

text \<open>C11: Whatever functions of the interface a client calls on a new x64 VM, in whatever order and with
  whatever values, aggregates that do not fit included, the counters of the registers stay within the arrays they index, so
  no store leaves the register data, and the capacity stays the one the VM was made with.\<close>

theorem x64_reachable_safe:
  assumes "vm_reach (vtab_x64 run run_aggr pad) (dcNewCallVM_x64 p sz) s"
  shows "rc_i s \<le> numIntRegs \<and> rc_f s \<le> numFloatRegs \<and> mAggrReturnReg s \<in> {-1, 0} \<and>
     mTotal (mVecHead s) = (if sz - 112 <s 0 then 0 else sz - 112)"
  using x64_safe_reach [OF assms x64_safe_new] by (simp add: x64_safe_def)

lemma x64_reachable_safe_witness:
  "rc_i (dcArgs (vtab_x64 (\<lambda>_ h. h) (\<lambda>_ h. (h, \<lambda>_. 0)) 0) (dcNewCallVM_x64 (x64_blank 0) 120)
      (replicate 9 (AInt 1))) \<le> 6"
proof -
  let ?V = "vtab_x64 (\<lambda>_ h. h) (\<lambda>_ h. (h, \<lambda>_. 0)) 0"
  have "vm_reach ?V s (dcArgs ?V s xs)" for s xs
    unfolding vm_reach_def
    by (induction xs arbitrary: s) (auto intro: converse_rtranclp_into_rtranclp step_arg)
  from x64_reachable_safe [OF this] show ?thesis by blast
qed

text \<open>The size of the vector is not bounded by the capacity: an aggregate of twelve bytes that does not fit is dropped, the
  four bytes behind it are skipped all the same, and the kernel copies what lies behind the buffer.\<close>

lemma x64_drop_and_skip:
  assumes "ag_size ag = 12" and "sysv_classes ag ! 0 = SYSVC_MEMORY" and "mVTpointer t = gVT_x64"
    and "mTotal (mVecHead t) = 8" and "mSize (mVecHead t) \<in> {0, 4, 8}"
  defines "t' \<equiv> dc_callvm_argAggr_x64 (\<lambda>_. 0) t (Some ag) 0"
  shows "mVTpointer t' = gVT_x64" and "mTotal (mVecHead t') = 8" and "mSize (mVecHead t') = mSize (mVecHead t) + 4"
    and "vm_step (vtab_x64 run run_aggr pad) t t'"
proof -
  have "aggr_via_stack ag i f" for i f using assms(2) by (simp add: aggr_via_stack_def)
  moreover have "dcVecAppend (mVecHead t) (heap_read (\<lambda>_. 0) (0 :: u64) 12) = mVecHead t"
    using assms(4,5) by (auto simp: dcVecAppend_def)
  ultimately have t': "t' = t\<lparr>mVecHead := dcVecSkip (mVecHead t) 4\<rparr>"
    by (simp add: t'_def dc_callvm_argAggr_x64_def assms(1))
  show "mVTpointer t' = gVT_x64" "mTotal (mVecHead t') = 8" "mSize (mVecHead t') = mSize (mVecHead t) + 4"
    using assms(3,4) by (simp_all add: t' dcVecSkip_def)
  show "vm_step (vtab_x64 run run_aggr pad) t t'"
    by (rule step_aggr [where h = "\<lambda>_. 0" and ag = "Some ag" and x = 0])
      (simp add: dcArgAggr_def assms(3) vt_x64_c_def t'_def)
qed

lemma x64_dropped_aggregate_skips:
  assumes "ag_size ag = 12" and "sysv_classes ag ! 0 = SYSVC_MEMORY"
  shows "\<exists>s. vm_reach (vtab_x64 run run_aggr pad) (dcNewCallVM_x64 p 120) s \<and> mTotal (mVecHead s) < mSize (mVecHead s)"
proof -
  let ?V = "vtab_x64 run run_aggr pad"
  define s g where "s = dcNewCallVM_x64 p 120" and "g = (\<lambda>s. dc_callvm_argAggr_x64 (\<lambda>_. 0) s (Some ag) 0)"
  have step: "mVTpointer (g t) = gVT_x64 \<and> mTotal (mVecHead (g t)) = 8 \<and> mSize (mVecHead (g t)) = n + 4 \<and> vm_reach ?V s (g t)"
    if "mVTpointer t = gVT_x64 \<and> mTotal (mVecHead t) = 8 \<and> mSize (mVecHead t) = n \<and> vm_reach ?V s t" and "n \<in> {0, 4, 8}" for t n
    using that x64_drop_and_skip [OF assms, of t] unfolding vm_reach_def g_def by (auto intro: rtranclp.rtrancl_into_rtrancl)
  have "mVTpointer s = gVT_x64 \<and> mTotal (mVecHead s) = 8 \<and> mSize (mVecHead s) = 0 \<and> vm_reach ?V s s"
    by (simp add: s_def dcNewCallVM_x64_def Let_def dc_callvm_mode_x64_def dc_callvm_base_init_def
        dc_callvm_reset_x64_def dcVecReset_def dcVecInit_def word_sless_alt vm_reach_def)
  from step [OF step [OF step [OF this]]] have "\<exists>t. vm_reach ?V s t \<and> mTotal (mVecHead t) = 8 \<and> mSize (mVecHead t) = 12"
    by auto
  then show ?thesis unfolding s_def by auto
qed

subsection \<open>The abstract machine\<close>

text \<open>The scalar part of the interface as operations, and running them: the final VM and what each call handed to
  its kernel.\<close>

datatype ('l, 'p) vm_op = OpReset | OpMode u32 | OpArg "('l, 'p) dcarg" | OpCall dccall 'p

fun vm_run ::
  "('id \<Rightarrow> (('id, 'm) DCCallVM_scheme, 'l, 'p, 'k) DCCallVM_vt) \<Rightarrow>
   ('id, 'm) DCCallVM_scheme \<Rightarrow> ('l, 'p) vm_op list \<Rightarrow> ('id, 'm) DCCallVM_scheme \<times> 'k list" where
  "vm_run vtab vm [] = (vm, [])"
| "vm_run vtab vm (OpReset # ops) = vm_run vtab (dcReset vtab vm) ops"
| "vm_run vtab vm (OpMode m # ops) = vm_run vtab (dcMode vtab vm m) ops"
| "vm_run vtab vm (OpArg a # ops) = vm_run vtab (dcArg vtab vm a) ops"
| "vm_run vtab vm (OpCall c target # ops) =
     (case dcCall vtab c vm target of (vm, k) \<Rightarrow> (case vm_run vtab vm ops of (vm, ks) \<Rightarrow> (vm, k # ks)))"

text \<open>The specification keeps the arguments since the last reset, whether calls go to the system, and the
  error. Modes and calls leave the arguments: a second call passes them again.\<close>

record ('l, 'p) queue =
  q_args :: "('l, 'p) dcarg list"
  q_system :: bool
  q_error :: u32

definition x64_c_modes :: "u32 set" where
  "x64_c_modes = {DC_CALL_C_DEFAULT, DC_CALL_C_DEFAULT_THIS, DC_CALL_C_X64_SYSV, DC_CALL_C_ELLIPSIS, DC_CALL_C_ELLIPSIS_VARARGS}"

definition x64_system_modes :: "u32 set" where
  "x64_system_modes = {DC_CALL_SYS_DEFAULT, DC_CALL_SYS_X64_SYSCALL_SYSV}"

definition q_mode :: "u32 \<Rightarrow> ('l, 'p) queue \<Rightarrow> ('l, 'p) queue" where
  "q_mode m q =
     (if m \<in> x64_c_modes then q\<lparr>q_system := False, q_error := DC_ERROR_NONE\<rparr>
      else if m \<in> x64_system_modes then q\<lparr>q_system := True, q_error := DC_ERROR_NONE\<rparr>
      else q\<lparr>q_error := DC_ERROR_UNSUPPORTED_MODE\<rparr>)"

fun q_run :: "('l, 'p) queue \<Rightarrow> ('l, 'p) vm_op list \<Rightarrow> ('l, 'p) queue \<times> (bool \<times> 'p \<times> ('l, 'p) dcarg list) list" where
  "q_run q [] = (q, [])"
| "q_run q (OpReset # ops) = q_run (q\<lparr>q_args := []\<rparr>) ops"
| "q_run q (OpMode m # ops) = q_run (q_mode m q) ops"
| "q_run q (OpArg a # ops) = q_run (q\<lparr>q_args := q_args q @ [a]\<rparr>) ops"
| "q_run q (OpCall c target # ops) =
     (case q_run q ops of (q', outs) \<Rightarrow> (q', (q_system q, target, q_args q) # outs))"

text \<open>The longest list of arguments that the operations collect, \<open>n\<close> being there already.\<close>

fun peak :: "nat \<Rightarrow> ('l, 'p) vm_op list \<Rightarrow> nat" where
  "peak n [] = n"
| "peak n (OpReset # ops) = max n (peak 0 ops)"
| "peak n (OpArg a # ops) = peak (Suc n) ops"
| "peak n (OpMode m # ops) = peak n ops"
| "peak n (OpCall c target # ops) = peak n ops"

lemma peak_ge: "n \<le> peak n ops"
  by (induction n ops rule: peak.induct) simp_all


subsection \<open>The x64 VM refines it\<close>

text \<open>What an integer argument is in a register: extended by its sign.\<close>

fun int_word :: "(u64, u64) dcarg \<Rightarrow> u64 option" where
  "int_word (ABool x) = Some (scast x)"
| "int_word (AChar x) = Some (scast x)"
| "int_word (AShort x) = Some (scast x)"
| "int_word (AInt x) = Some (scast x)"
| "int_word (ALong x) = Some x"
| "int_word (ALongLong x) = Some x"
| "int_word (APointer x) = Some x"
| "int_word _ = None"

definition int_words :: "(u64, u64) dcarg list \<Rightarrow> u64 list" where
  "int_words xs = List.map_filter int_word xs"

text \<open>A call of the VM meets the call of the specification: the callback at the target reads the arguments that were
  collected; a system call gets the target as its number and the integer arguments in the registers.\<close>

definition x64_call_meets :: "x64_kernel \<Rightarrow> bool \<times> u64 \<times> (u64, u64) dcarg list \<Rightarrow> bool" where
  "x64_call_meets k out =
     (case out of (sys, target, xs) \<Rightarrow>
        (case k of
           dcCall_x64_sysv a \<Rightarrow>
             \<not> sys \<and> sa_target a = target \<and>
             (\<forall>ar ags caller. ar < 0 \<longrightarrow>
                fst (pop_all dcbArg_x64 (dcCallback_x64_sysv ar ags (sysv_frame caller a)) (map arg_ty xs)) = map x64_val xs)
         | dcCall_x64_syscall_sysv regs t \<Rightarrow>
             sys \<and> t = target \<and> (\<forall>j < min numIntRegs (length (int_words xs)). regs j = int_words xs ! j)))"

text \<open>The simulation: a reader that starts over any later state passes the arguments collected so far and stands where the VM
  stands; the integer registers hold the integer arguments.\<close>

definition x64_start :: "mem \<Rightarrow> u64 \<Rightarrow> nat \<Rightarrow> DCaggr option list \<Rightarrow> DCCallVM_x64 \<Rightarrow> DCArgs_x64" where
  "x64_start caller target neg ags F =
     dcCallback_x64_sysv (if mAggrReturnReg F = -1 then - int (Suc neg) else mAggrReturnReg F) ags
       (sysv_frame caller (sysv_args_of F target))"

definition x64_collected :: "(u64, u64) dcarg list \<Rightarrow> DCCallVM_x64 \<Rightarrow> bool" where
  "x64_collected xs s \<longleftrightarrow> x64_inv s \<and> mAggrReturnReg s = -1 \<and> x64_used s \<le> 8 * length xs \<and>
     (\<forall>F caller target neg ags. x64_keeps s F \<longrightarrow>
        pop_all dcbArg_x64 (x64_start caller target neg ags F) (map arg_ty xs)
          = (map x64_val xs, x64_view caller target neg ags F s)) \<and>
     rc_i s = min numIntRegs (length (int_words xs)) \<and> (\<forall>j < rc_i s. rd_i s j = int_words xs ! j)"

definition x64_implements :: "u64 \<Rightarrow> (u64, u64) queue \<Rightarrow> DCCallVM_x64 \<Rightarrow> bool" where
  "x64_implements cap q s \<longleftrightarrow> x64_collected (q_args q) s \<and> mTotal (mVecHead s) = cap \<and>
     mVTpointer s = (if q_system q then gVT_x64_syscall_sysv else gVT_x64) \<and> mError s = q_error q"

lemma int_words_append: "int_words (xs @ [a]) = int_words xs @ (case int_word a of None \<Rightarrow> [] | Some w \<Rightarrow> [w])"
  by (simp add: int_words_def map_filter_def split: option.split)

lemma x64_collected_reset:
  "unat (mTotal (mVecHead s)) < 2 ^ 63 \<Longrightarrow> x64_collected [] (dc_callvm_reset_x64 s)"
  by (auto simp: x64_collected_def x64_inv_def vec_ok_def x64_start_def x64_view_def x64_keeps_def int_words_def map_filter_def
      dc_callvm_reset_x64_def x64_used_def dcVecReset_def dcCallback_x64_sysv_def)

text \<open>An argument reaches the integer registers when it is an integer and one of them is left.\<close>

lemma x64_push_int_word:
  "dcArg (vtab_x64 run run_aggr pad) s a =
     (case int_word a of
        Some w \<Rightarrow> dc_callvm_argLongLong_x64 s w
      | None \<Rightarrow> dc_callvm_argDouble_x64 s (case a of AFloat x \<Rightarrow> word_cat pad x | ADouble x \<Rightarrow> x | _ \<Rightarrow> 0))"
  by (cases a) (simp_all add: vtab_x64_args x64_arg_defs)

lemma x64_push_registers:
  fixes run run_aggr pad a
  assumes "mAggrReturnReg s = -1"
  defines "t \<equiv> dcArg (vtab_x64 run run_aggr pad) s a"
  shows "rc_i t = (if int_word a \<noteq> None \<and> rc_i s < numIntRegs then Suc (rc_i s) else rc_i s)"
    and "rd_i t = (if int_word a \<noteq> None \<and> rc_i s < numIntRegs then (rd_i s)(rc_i s := the (int_word a)) else rd_i s)"
    and "mAggrReturnReg t = -1" and "mVTpointer t = mVTpointer s" and "mError t = mError s"
    and "mTotal (mVecHead t) = mTotal (mVecHead s)"
  using assms(1)
  by (simp_all add: t_def x64_push_int_word dc_callvm_argLongLong_x64_def dc_callvm_argDouble_x64_def Let_def split: option.split)

lemma x64_collected_push:
  assumes "x64_collected xs s" and "8 * Suc (length xs) \<le> x64_cap s"
  shows "x64_collected (xs @ [a]) (dcArg (vtab_x64 run run_aggr pad) s a)"
proof -
  let ?t = "dcArg (vtab_x64 run run_aggr pad) s a"
  from assms(1) have inv: "x64_inv s" and used: "x64_used s \<le> 8 * length xs" and ar: "mAggrReturnReg s = -1"
    and r: "rc_i s = min numIntRegs (length (int_words xs))" "\<forall>j < rc_i s. rd_i s j = int_words xs ! j"
    by (simp_all add: x64_collected_def)
  note reg = x64_push_registers [OF ar, of run run_aggr pad a]
  have fit: "x64_fits s a" using used assms(2) by (intro x64_fits_if) simp
  have "pop_all dcbArg_x64 (x64_start caller target neg ags F) (map arg_ty (xs @ [a]))
      = (map x64_val (xs @ [a]), x64_view caller target neg ags F ?t)" if k: "x64_keeps ?t F" for F caller target neg ags
  proof -
    have "x64_keeps s F" using x64_keeps_dcArg [OF inv fit] k by (rule x64_keeps_trans)
    then have "pop_all dcbArg_x64 (x64_start caller target neg ags F) (map arg_ty xs)
        = (map x64_val xs, x64_view caller target neg ags F s)"
      using assms(1) by (simp add: x64_collected_def)
    then show ?thesis using x64_pop_dcArg [OF inv fit k] by (simp add: pop_all_append)
  qed
  moreover have "x64_used ?t \<le> 8 * length (xs @ [a])"
    using x64_used_dcArg [OF fit, of run run_aggr pad] used by simp
  moreover have "rc_i ?t = min numIntRegs (length (int_words (xs @ [a])))"
    using r(1) reg(1) by (auto simp: int_words_append split: option.split)
  moreover have "\<forall>j < rc_i ?t. rd_i ?t j = int_words (xs @ [a]) ! j"
    using r reg(1,2) by (auto simp: int_words_append nth_append less_Suc_eq split: option.split)
  ultimately show ?thesis using x64_inv_dcArg [OF inv] reg(3) by (simp add: x64_collected_def)
qed

lemma x64_collected_mode: "x64_collected xs s \<Longrightarrow> x64_collected xs (s\<lparr>mVTpointer := i, mError := e\<rparr>)"
  by (simp add: x64_collected_def x64_inv_def x64_keeps_def x64_used_def x64_view_def)

lemma x64_collected_error: "x64_collected xs s \<Longrightarrow> x64_collected xs (s\<lparr>mError := e\<rparr>)"
  by (simp add: x64_collected_def x64_inv_def x64_keeps_def x64_used_def x64_view_def)

lemma x64_implements_mode:
  assumes "x64_implements cap q s"
  shows "x64_implements cap (q_mode m q) (dc_callvm_mode_x64 s m)"
  using assms
  by (auto simp: x64_collected_mode x64_collected_error x64_implements_def q_mode_def dc_callvm_mode_x64_def dc_callvm_base_init_def
      x64_c_modes_def x64_system_modes_def)

lemma x64_call_collected:
  assumes "x64_implements cap q s"
  shows "\<exists>k. dcCall (vtab_x64 run run_aggr pad) c s target = (s, k) \<and> x64_call_meets k (q_system q, target, q_args q)"
proof -
  from assms have c: "x64_collected (q_args q) s" and v: "mVTpointer s = (if q_system q then gVT_x64_syscall_sysv else gVT_x64)"
    by (simp_all add: x64_implements_def)
  then have ar: "mAggrReturnReg s = -1" and k: "x64_keeps s s" by (simp_all add: x64_collected_def x64_keeps_refl)
  have "pop_all dcbArg_x64 (dcCallback_x64_sysv r ags (sysv_frame caller (sysv_args_of s target))) (map arg_ty (q_args q))
      = (map x64_val (q_args q), x64_view caller target (nat (- r - 1)) ags s s)" if "r < 0" for r ags caller
  proof -
    from c k have "pop_all dcbArg_x64 (x64_start caller target (nat (- r - 1)) ags s) (map arg_ty (q_args q))
        = (map x64_val (q_args q), x64_view caller target (nat (- r - 1)) ags s s)"
      by (simp add: x64_collected_def)
    then show ?thesis using neg_reg [OF that] ar by (simp add: x64_start_def)
  qed
  then show ?thesis
    using c v by (auto simp: dcCall_def vt_x64_c_def vt_x64_syscall_def dc_callvm_call_x64_def
        dc_callvm_call_x64_syscall_sysv_def x64_call_meets_def x64_collected_def sysv_args_of_def)
qed

lemma x64_run_implements:
  assumes "x64_implements cap q s" and "8 * peak (length (q_args q)) ops \<le> unat cap" and "unat cap < 2 ^ 63"
  shows "case vm_run (vtab_x64 run run_aggr pad) s ops of (s', ks) \<Rightarrow>
      (case q_run q ops of (q', outs) \<Rightarrow> list_all2 x64_call_meets ks outs \<and> x64_implements cap q' s')"
  using assms(1,2)
proof (induction ops arbitrary: q s)
  case Nil
  then show ?case by simp
next
  case (Cons op ops)
  let ?V = "vtab_x64 run run_aggr pad"
  show ?case
  proof (cases op)
    case OpReset
    have "x64_implements cap (q\<lparr>q_args := []\<rparr>) (dc_callvm_reset_x64 s)"
      using Cons.prems(1) assms(3) x64_collected_reset [of s]
      by (simp add: x64_implements_def) (simp add: dc_callvm_reset_x64_def dcVecReset_def)
    with Cons OpReset show ?thesis by simp
  next
    case (OpMode m)
    from x64_implements_mode [OF Cons.prems(1), of m] Cons.IH [of "q_mode m q"] Cons.prems(2) OpMode show ?thesis
      by (simp add: dcMode_x64 q_mode_def)
  next
    case (OpArg a)
    have "8 * Suc (length (q_args q)) \<le> x64_cap s"
      using Cons.prems peak_ge [of "Suc (length (q_args q))" ops] OpArg by (simp add: x64_cap_def x64_implements_def)
    then have "x64_implements cap (q\<lparr>q_args := q_args q @ [a]\<rparr>) (dcArg ?V s a)"
      using Cons.prems(1) x64_collected_push x64_push_registers(4,5,6) [of s run run_aggr pad a]
      by (simp add: x64_implements_def) (simp add: x64_collected_def)
    with Cons OpArg show ?thesis by simp
  next
    case (OpCall c target)
    from x64_call_collected [OF Cons.prems(1), of run run_aggr pad c target] Cons.IH [OF Cons.prems(1)] Cons.prems(2) OpCall
    show ?thesis by (auto split: prod.splits)
  qed
qed


text \<open>A new VM implements the empty queue in the default mode.\<close>

definition q_new :: "('l, 'p) queue" where
  "q_new = \<lparr>q_args = [], q_system = False, q_error = DC_ERROR_NONE\<rparr>"

lemma capacity_sub:
  assumes "112 + n \<le> unat (sz :: u64)" and "unat sz < 2 ^ 63"
  shows "\<not> sz - 112 <s 0" and "unat (sz - 112) = unat sz - 112" and "n \<le> unat (sz - 112)" and "unat (sz - 112) < 2 ^ 63"
proof -
  show u: "unat (sz - 112) = unat sz - 112"
    using assms(1) by (simp add: unat_sub_if' word_le_nat_alt)
  with assms show "n \<le> unat (sz - 112)" and l: "unat (sz - 112) < 2 ^ 63" by simp_all
  show "\<not> sz - 112 <s 0"
    using l by (simp add: word_sless_alt sint_small)
qed

lemma x64_implements_new:
  assumes "112 + n \<le> unat sz" and "unat sz < 2 ^ 63"
  shows "x64_implements (sz - 112) q_new (dcNewCallVM_x64 p sz)"
  using capacity_sub(1,4) [OF assms] x64_collected_reset [of "_ \<lparr>mVecHead := dcVecInit (mVecHead _) (sz - 112)\<rparr>"]
  by (auto simp: x64_implements_def q_new_def dcNewCallVM_x64_def Let_def dc_callvm_mode_x64_def dc_callvm_base_init_def
      dcVecInit_def) (simp_all add: dc_callvm_reset_x64_def dcVecReset_def)

text \<open>C2: The x64 call VM refines the queue of arguments: for every sequence of resets, changes of the mode, supported or
  not, arguments and calls on a new VM, every call runs a callback that reads exactly the arguments passed since the
  last reset, also those of earlier calls and modes, or, in a system mode, hands the number and the integer
  arguments to the system, and the error is that of the last mode; if the VM was made with room for the
  longest list of arguments.\<close>

theorem x64_session_refines:
  assumes "112 + 8 * peak 0 ops \<le> unat sz" and "unat sz < 2 ^ 63"
  shows "case vm_run (vtab_x64 run run_aggr pad) (dcNewCallVM_x64 p sz) ops of (s, ks) \<Rightarrow>
      (case q_run q_new ops of (q, outs) \<Rightarrow> list_all2 x64_call_meets ks outs \<and> dcGetError s = q_error q)"
  using x64_run_implements [OF x64_implements_new [OF assms, of p], of ops run run_aggr pad] capacity_sub(3,4) [OF assms]
  by (auto simp: q_new_def x64_implements_def dcGetError_def split: prod.splits)

text \<open>A call, a call in an unsupported mode that passes one more argument, and after a reset a system call.\<close>

lemma x64_session_refines_witness:
  "\<exists>s k1 k2 k3. vm_run (vtab_x64 (\<lambda>_ h. h) (\<lambda>_ h. (h, \<lambda>_. 0)) 0) (dcNewCallVM_x64 (x64_blank 0) 256)
       [OpArg (AInt 7), OpCall callInt 64, OpMode 999, OpArg (ADouble 8), OpCall callVoid 64, OpReset, OpMode DC_CALL_SYS_DEFAULT,
        OpArg (ALong 5), OpCall callLong 60] = (s, [k1, k2, k3]) \<and>
     x64_call_meets k1 (False, 64, [AInt 7]) \<and> x64_call_meets k2 (False, 64, [AInt 7, ADouble 8]) \<and>
     x64_call_meets k3 (True, 60, [ALong 5]) \<and> dcGetError s = DC_ERROR_NONE"
proof -
  let ?ops = "[OpArg (AInt 7), OpCall callInt 64, OpMode 999, OpArg (ADouble 8), OpCall callVoid 64, OpReset,
     OpMode DC_CALL_SYS_DEFAULT, OpArg (ALong 5), OpCall callLong 60] :: (u64, u64) vm_op list"
  obtain s ks where r: "vm_run (vtab_x64 (\<lambda>_ h. h) (\<lambda>_ h. (h, \<lambda>_. 0)) 0) (dcNewCallVM_x64 (x64_blank 0) 256) ?ops = (s, ks)"
    by fastforce
  have q: "q_run q_new ?ops = (\<lparr>q_args = [ALong 5], q_system = True, q_error = DC_ERROR_NONE\<rparr>,
      [(False, 64, [AInt 7]), (False, 64, [AInt 7, ADouble 8]), (True, 60, [ALong 5])])"
    by (simp add: q_new_def q_mode_def x64_c_modes_def x64_system_modes_def)
  from x64_session_refines [of ?ops 256 "\<lambda>_ h. h" "\<lambda>_ h. (h, \<lambda>_. 0)" 0 "x64_blank 0"]
  have "list_all2 x64_call_meets ks [(False, 64, [AInt 7]), (False, 64, [AInt 7, ADouble 8]), (True, 60, [ALong 5])] \<and>
      dcGetError s = DC_ERROR_NONE"
    unfolding r q by simp
  with r show ?thesis by (auto simp: list_all2_Cons2 simp del: vm_run.simps)
qed

subsection \<open>Every state can be used again\<close>

text \<open>C10: Whatever a client did to an x64 VM, calls for aggregates, arguments dropped for want of room and unsupported
  modes included, selecting the default mode and resetting makes the next call deliver its arguments.\<close>

theorem x64_session_recovers:
  assumes "vm_reach (vtab_x64 run run_aggr pad) (dcNewCallVM_x64 p sz) s"
    and "112 + 8 * length xs \<le> unat sz" and "unat sz < 2 ^ 63"
  shows "\<exists>t k. vm_run (vtab_x64 run run_aggr pad) s
        (OpMode DC_CALL_C_DEFAULT # OpReset # map OpArg xs @ [OpCall c target]) = (t, [k]) \<and>
      x64_call_meets k (False, target, xs) \<and> dcGetError t = DC_ERROR_NONE"
proof -
  let ?V = "vtab_x64 run run_aggr pad"
  note cap = capacity_sub [OF assms(2,3)]
  have tot: "mTotal (mVecHead s) = sz - 112"
    using x64_safe_reach [OF assms(1) x64_safe_new] cap(1) by (simp add: x64_safe_def)
  let ?s = "dcReset ?V (dcMode ?V s DC_CALL_C_DEFAULT)"
  have m: "?s = dc_callvm_reset_x64 (s\<lparr>mVTpointer := gVT_x64, mError := DC_ERROR_NONE\<rparr>)"
    by (simp add: dcMode_x64 dc_callvm_mode_x64_def dc_callvm_base_init_def)
  have i: "x64_implements (sz - 112) q_new ?s"
    using tot cap(4) x64_collected_reset [of "s\<lparr>mVTpointer := gVT_x64, mError := DC_ERROR_NONE\<rparr>"] unfolding m
    by (simp add: x64_implements_def q_new_def) (simp add: dc_callvm_reset_x64_def dcVecReset_def)
  have p: "peak n (map OpArg ys @ [OpCall c target]) = n + length ys" for n and ys :: "(u64, u64) dcarg list"
    by (induction ys arbitrary: n) simp_all
  have q: "q_run q (map OpArg ys @ [OpCall c target]) = (q\<lparr>q_args := q_args q @ ys\<rparr>, [(q_system q, target, q_args q @ ys)])"
    for q and ys :: "(u64, u64) dcarg list"
    by (induction ys arbitrary: q) simp_all
  obtain t ks where r: "vm_run ?V ?s (map OpArg xs @ [OpCall c target]) = (t, ks)" by fastforce
  with x64_run_implements [OF i _ cap(4), of "map OpArg xs @ [OpCall c target]" run run_aggr pad] cap(3)
  have "list_all2 x64_call_meets ks [(False, target, xs)] \<and> x64_implements (sz - 112) (q_new\<lparr>q_args := xs\<rparr>) t"
    by (simp add: p q) (simp add: q_new_def)
  with r show ?thesis by (auto simp: list_all2_Cons2 x64_implements_def q_new_def dcGetError_def)
qed

lemma x64_session_recovers_witness:
  "\<exists>t k. vm_run (vtab_x64 (\<lambda>_ h. h) (\<lambda>_ h. (h, \<lambda>_. 0)) 0)
        (dcArgs (vtab_x64 (\<lambda>_ h. h) (\<lambda>_ h. (h, \<lambda>_. 0)) 0) (dcNewCallVM_x64 (x64_blank 0) 120) (replicate 9 (AInt 1)))
        [OpMode DC_CALL_C_DEFAULT, OpReset, OpArg (AInt 3), OpCall callInt 64] = (t, [k]) \<and>
      x64_call_meets k (False, 64, [AInt 3]) \<and> dcGetError t = DC_ERROR_NONE"
proof -
  let ?V = "vtab_x64 (\<lambda>_ h. h) (\<lambda>_ h. (h, \<lambda>_. 0)) 0"
  have "vm_reach ?V s (dcArgs ?V s xs)" for s xs
    unfolding vm_reach_def
    by (induction xs arbitrary: s) (auto intro: converse_rtranclp_into_rtranclp step_arg)
  from x64_session_recovers [OF this, where sz = 120 and p = "x64_blank 0" and xs = "[AInt 3]"]
  show ?thesis by simp
qed

end
