(* ===== verification/Affix_Types.thy ===== *)
theory Affix_Types
  imports Aggr_Classes
begin

unbundle bit_operations_syntax

section \<open>Affix: type objects, struct layout and aggregate descriptions\<close>

text \<open>
  The type objects that Perl code builds (\<open>lib/Affix/Type.pm\<close>, \<open>Type/Struct.pm\<close>, \<open>Type/Union.pm\<close>),
  the slots through which the C++ code reads them (\<open>lib/Affix.h\<close>), and the description of a
  struct or union for the call VM that \<open>_aggregate\<close> of \<open>lib/Affix/Aggregate.cxx\<close> makes of one. Sizes
  are those of a 64 bit Linux: an \<open>int\<close> of 4 bytes, \<open>long\<close> and pointers of 8, a \<open>wchar_t\<close> of 4.
\<close>

subsection \<open>Flags and slots\<close>

abbreviation VOID_FLAG :: char where "VOID_FLAG \<equiv> CHR ''v''"
abbreviation BOOL_FLAG :: char where "BOOL_FLAG \<equiv> CHR ''b''"
abbreviation SCHAR_FLAG :: char where "SCHAR_FLAG \<equiv> CHR ''a''"
abbreviation CHAR_FLAG :: char where "CHAR_FLAG \<equiv> CHR ''c''"
abbreviation UCHAR_FLAG :: char where "UCHAR_FLAG \<equiv> CHR ''h''"
abbreviation WCHAR_FLAG :: char where "WCHAR_FLAG \<equiv> CHR ''w''"
abbreviation SHORT_FLAG :: char where "SHORT_FLAG \<equiv> CHR ''s''"
abbreviation USHORT_FLAG :: char where "USHORT_FLAG \<equiv> CHR ''t''"
abbreviation INT_FLAG :: char where "INT_FLAG \<equiv> CHR ''i''"
abbreviation UINT_FLAG :: char where "UINT_FLAG \<equiv> CHR ''j''"
abbreviation LONG_FLAG :: char where "LONG_FLAG \<equiv> CHR ''l''"
abbreviation ULONG_FLAG :: char where "ULONG_FLAG \<equiv> CHR ''m''"
abbreviation LONGLONG_FLAG :: char where "LONGLONG_FLAG \<equiv> CHR ''x''"
abbreviation ULONGLONG_FLAG :: char where "ULONGLONG_FLAG \<equiv> CHR ''y''"
abbreviation FLOAT_FLAG :: char where "FLOAT_FLAG \<equiv> CHR ''f''"
abbreviation DOUBLE_FLAG :: char where "DOUBLE_FLAG \<equiv> CHR ''d''"
abbreviation WSTRING_FLAG :: char where "WSTRING_FLAG \<equiv> CHR ''<''"
abbreviation STDSTRING_FLAG :: char where "STDSTRING_FLAG \<equiv> CHR ''Y''"
abbreviation STRUCT_FLAG :: char where "STRUCT_FLAG \<equiv> CHR ''A''"
abbreviation CPPSTRUCT_FLAG :: char where "CPPSTRUCT_FLAG \<equiv> CHR ''B''"
abbreviation UNION_FLAG :: char where "UNION_FLAG \<equiv> CHR ''u''"
abbreviation AFFIX_FLAG :: char where "AFFIX_FLAG \<equiv> CHR ''@''"
abbreviation CODEREF_FLAG :: char where "CODEREF_FLAG \<equiv> CHR ''&''"
abbreviation POINTER_FLAG :: char where "POINTER_FLAG \<equiv> CHR ''P''"
abbreviation SV_FLAG :: char where "SV_FLAG \<equiv> CHR ''?''"

text \<open>
  A type object is a Perl array; a value of \<open>atype\<close> holds the slots the code uses. Slot 12 is the
  field name of a member and, for a \<open>CodeRef\<close>, the list of its argument types: one slot, as in the
  code. The class of the object follows from the flag (\<open>Pointer\<close> and \<open>Array\<close> both
  make an \<open>Affix::Type::Pointer\<close>).
\<close>

datatype atype =
  AType (at_numeric: char) (at_sizeof: nat) (at_align: nat) (at_offset: "nat option")
    (at_subtype: at_sub) (at_arraylen: nat) (at_aggregate: at_aggr) (at_slot12: at_field)
    (at_sig: "char list option")
and at_sub = NoSub | Subtype atype | Fields "atype list"
and at_field = NoField | FieldName string | CodeArgs "atype list"
and at_aggr = NoAggr | Cached DCaggr | NotAnAggr

text \<open>\<open>SvIV\<close> of an undefined offset is 0.\<close>

definition AXT_TYPE_OFFSET :: "atype \<Rightarrow> nat" where
  "AXT_TYPE_OFFSET t = (case at_offset t of None \<Rightarrow> 0 | Some n \<Rightarrow> n)"

fun at_fields :: "atype \<Rightarrow> atype list" where
  "at_fields (AType _ _ _ _ (Fields fs) _ _ _ _) = fs"
| "at_fields _ = []"

definition is_Pointer :: "atype \<Rightarrow> bool" where
  "is_Pointer t \<longleftrightarrow> at_numeric t = POINTER_FLAG"

subsection \<open>Constructors of the Perl interface\<close>

definition Type_new :: "char \<Rightarrow> nat \<Rightarrow> nat \<Rightarrow> atype" where
  "Type_new flag sizeof align = AType flag sizeof align None NoSub 1 NoAggr NoField None"

abbreviation T_Void :: atype where "T_Void \<equiv> Type_new VOID_FLAG 0 0"
abbreviation T_Bool :: atype where "T_Bool \<equiv> Type_new BOOL_FLAG 1 1"
abbreviation T_Char :: atype where "T_Char \<equiv> Type_new CHAR_FLAG 1 1"
abbreviation T_SChar :: atype where "T_SChar \<equiv> Type_new SCHAR_FLAG 1 1"
abbreviation T_UChar :: atype where "T_UChar \<equiv> Type_new UCHAR_FLAG 1 1"
abbreviation T_WChar :: atype where "T_WChar \<equiv> Type_new WCHAR_FLAG 4 4"
abbreviation T_Short :: atype where "T_Short \<equiv> Type_new SHORT_FLAG 2 2"
abbreviation T_UShort :: atype where "T_UShort \<equiv> Type_new USHORT_FLAG 2 2"
abbreviation T_Int :: atype where "T_Int \<equiv> Type_new INT_FLAG 4 4"
abbreviation T_UInt :: atype where "T_UInt \<equiv> Type_new UINT_FLAG 4 4"
abbreviation T_Long :: atype where "T_Long \<equiv> Type_new LONG_FLAG 8 8"
abbreviation T_ULong :: atype where "T_ULong \<equiv> Type_new ULONG_FLAG 8 8"
abbreviation T_LongLong :: atype where "T_LongLong \<equiv> Type_new LONGLONG_FLAG 8 8"
abbreviation T_ULongLong :: atype where "T_ULongLong \<equiv> Type_new ULONGLONG_FLAG 8 8"
abbreviation T_Float :: atype where "T_Float \<equiv> Type_new FLOAT_FLAG 4 4"
abbreviation T_Double :: atype where "T_Double \<equiv> Type_new DOUBLE_FLAG 8 8"
abbreviation T_SV :: atype where "T_SV \<equiv> Type_new SV_FLAG 0 0"

definition T_Pointer :: "atype \<Rightarrow> atype" where
  "T_Pointer subtype = AType POINTER_FLAG 8 8 None (Subtype subtype) 1 NoAggr NoField None"

definition T_Array :: "atype \<Rightarrow> nat \<Rightarrow> atype" where
  "T_Array subtype n = AType POINTER_FLAG 8 8 None (Subtype subtype) n NoAggr NoField None"

definition T_CodeRef :: "atype list \<Rightarrow> atype \<Rightarrow> atype" where
  "T_CodeRef args ret =
     AType CODEREF_FLAG 8 8 None (Subtype ret) 1 NoAggr (CodeArgs args) (Some (map at_numeric args))"

text \<open>\<open>Affix::Platform::padding_needed_for\<close> (Perl) and \<open>padding_needed_for\<close> (\<open>lib/Affix/Utils.cxx\<close>,
  on \<open>size_t\<close>). They differ at offset 0.\<close>

definition perl_padding_needed_for :: "nat \<Rightarrow> nat \<Rightarrow> nat" where
  "perl_padding_needed_for off al =
     (if off = 0 then al else if al = 0 then 0 else if off mod al \<noteq> 0 then al - off mod al else 0)"

definition padding_needed_for :: "u64 \<Rightarrow> u64 \<Rightarrow> u64" where
  "padding_needed_for off al =
     (if al = 0 then 0
      else (let misalignment = off mod al in if misalignment \<noteq> 0 then al - misalignment else 0))"

text \<open>
  The loop of \<open>Struct\<close>. It stores offset and field name in the slots 4 and 12 of the member's type and
  keeps a clone. A member without alignment (\<open>Void\<close>, \<open>SV\<close>) is a division by zero: \<open>None\<close>.
\<close>

definition place :: "string \<Rightarrow> nat \<Rightarrow> atype \<Rightarrow> atype" where
  "place name off t =
     AType (at_numeric t) (at_sizeof t) (at_align t) (Some off) (at_subtype t) (at_arraylen t)
       (at_aggregate t) (FieldName name) (at_sig t)"

fun struct_layout :: "nat \<Rightarrow> (string \<times> atype) list \<Rightarrow> (atype list \<times> nat) option" where
  "struct_layout sizeof [] = Some ([], sizeof)"
| "struct_layout sizeof ((name, t) # types) =
     (if at_align t = 0 then None
      else
        (let off = (sizeof + at_align t - 1) div at_align t * at_align t in
         map_option (\<lambda>(store, size). (place name off t # store, size))
           (struct_layout (off + at_sizeof t) types)))"

definition T_Struct :: "(string \<times> atype) list \<Rightarrow> atype option" where
  "T_Struct types =
     map_option (\<lambda>(store, size).
         AType STRUCT_FLAG (size + perl_padding_needed_for size 8) 8 None (Fields store) 1 NoAggr NoField None)
       (struct_layout 0 types)"

fun union_layout :: "nat \<Rightarrow> nat \<Rightarrow> (string \<times> atype) list \<Rightarrow> atype list \<times> nat \<times> nat" where
  "union_layout sizeof alignment [] = ([], sizeof, alignment)"
| "union_layout sizeof alignment ((name, t) # types) =
     (let (store, s, a) =
        (if sizeof < at_sizeof t then union_layout (at_sizeof t) (at_align t) types
         else union_layout sizeof alignment types)
      in (place name 0 t # store, s, a))"

definition T_Union :: "(string \<times> atype) list \<Rightarrow> atype" where
  "T_Union types =
     (let (store, size, alignment) = union_layout 0 0 types in
      AType UNION_FLAG (size + perl_padding_needed_for size 8) alignment None (Fields store) 1 NoAggr NoField None)"

subsection \<open>What the layout guarantees\<close>

definition member_end :: "atype \<Rightarrow> nat" where
  "member_end f = AXT_TYPE_OFFSET f + at_sizeof f"

lemma place_simps [simp]:
  "at_numeric (place n k t) = at_numeric t" "at_sizeof (place n k t) = at_sizeof t"
  "at_align (place n k t) = at_align t" "AXT_TYPE_OFFSET (place n k t) = k"
  "at_slot12 (place n k t) = FieldName n" "at_fields (place n k t) = at_fields t"
  "at_aggregate (place n k t) = at_aggregate t" "at_subtype (place n k t) = at_subtype t"
  "at_arraylen (place n k t) = at_arraylen t" "is_Pointer (place n k t) = is_Pointer t"
  "at_offset (place n k t) = Some k" "at_sig (place n k t) = at_sig t"
  by (cases t rule: at_fields.cases; simp add: place_def AXT_TYPE_OFFSET_def is_Pointer_def)+

text \<open>The members of a laid out struct behind \<open>n\<close> bytes: in order, aligned, without overlap.\<close>

fun members_from :: "nat \<Rightarrow> atype list \<Rightarrow> bool" where
  "members_from n [] \<longleftrightarrow> True"
| "members_from n (f # fs) \<longleftrightarrow>
     n \<le> AXT_TYPE_OFFSET f \<and> at_align f dvd AXT_TYPE_OFFSET f \<and> members_from (member_end f) fs"

lemma struct_layout_members:
  "struct_layout n types = Some (store, sz) \<Longrightarrow>
     members_from n store \<and> n \<le> sz \<and> (\<forall>f \<in> set store. member_end f \<le> sz) \<and>
     length store = length types \<and>
     map at_slot12 store = map (\<lambda>(name, _). FieldName name) types"
proof (induction n types arbitrary: store sz rule: struct_layout.induct)
  case (2 n name t types)
  let ?off = "round_up (at_align t) n"
  from "2.prems" have a: "0 < at_align t" by (simp split: if_splits)
  with "2.prems" obtain store' where s: "store = place name ?off t # store'"
    and r: "struct_layout (?off + at_sizeof t) types = Some (store', sz)"
    by (auto simp: round_up_def Let_def)
  from "2.IH" a r have "members_from (?off + at_sizeof t) store' \<and> ?off + at_sizeof t \<le> sz \<and>
      (\<forall>f \<in> set store'. member_end f \<le> sz) \<and> length store' = length types \<and>
      map at_slot12 store' = map (\<lambda>(name, _). FieldName name) types"
    by (simp add: round_up_def)
  moreover have "n \<le> ?off" using a by (rule round_up_ge)
  ultimately show ?case by (auto simp: s member_end_def)
qed simp

lemma struct_layout_total:
  "(\<exists>store sz. struct_layout n types = Some (store, sz)) \<longleftrightarrow> (\<forall>(_, t) \<in> set types. at_align t \<noteq> 0)"
  by (induction n types rule: struct_layout.induct) (auto simp: Let_def split: if_splits)

lemma members_from_disjoint:
  "members_from n fs \<Longrightarrow> sorted_wrt (\<lambda>f g. member_end f \<le> AXT_TYPE_OFFSET g) fs \<and>
     (\<forall>f \<in> set fs. n \<le> AXT_TYPE_OFFSET f \<and> at_align f dvd AXT_TYPE_OFFSET f)"
proof (induction n fs rule: members_from.induct)
  case (2 n f fs)
  then have "n \<le> AXT_TYPE_OFFSET f" "AXT_TYPE_OFFSET f \<le> member_end f" by (simp_all add: member_end_def)
  with 2 show ?case by (auto intro: order_trans)
qed simp

lemma padded_size: "0 < n + perl_padding_needed_for n 8 \<and> 8 dvd n + perl_padding_needed_for n 8"
  by (auto simp: perl_padding_needed_for_def) presburger+

text \<open>C12: The members of a \<open>Struct\<close> are aligned, do not overlap, lie inside the struct in the order
  in which they were declared and under their names, and the size of the struct is a positive multiple of 8.\<close>

theorem struct_members_disjoint:
  assumes "T_Struct types = Some s"
  shows "sorted_wrt (\<lambda>f g. member_end f \<le> AXT_TYPE_OFFSET g) (at_fields s)
    \<and> (\<forall>f \<in> set (at_fields s). at_align f dvd AXT_TYPE_OFFSET f \<and> member_end f \<le> at_sizeof s)
    \<and> map at_slot12 (at_fields s) = map (\<lambda>(name, _). FieldName name) types
    \<and> 0 < at_sizeof s \<and> 8 dvd at_sizeof s"
proof -
  from assms obtain store sz where l: "struct_layout 0 types = Some (store, sz)"
    and s: "at_fields s = store" "at_sizeof s = sz + perl_padding_needed_for sz 8"
    by (auto simp: T_Struct_def)
  from struct_layout_members [OF l] members_from_disjoint [of 0 store] padded_size [of sz] s
  show ?thesis by (auto intro: le_trans)
qed

lemma struct_members_disjoint_witness:
  "\<exists>s. T_Struct [(''c'', T_Char), (''d'', T_Double), (''s'', T_Short)] = Some s \<and>
     map AXT_TYPE_OFFSET (at_fields s) = [0, 8, 16] \<and>
     sorted_wrt (\<lambda>f g. member_end f \<le> AXT_TYPE_OFFSET g) (at_fields s) \<and> 8 dvd at_sizeof s"
proof -
  obtain s where s: "T_Struct [(''c'', T_Char), (''d'', T_Double), (''s'', T_Short)] = Some s"
    "map AXT_TYPE_OFFSET (at_fields s) = [0, 8, 16]"
    by (simp add: T_Struct_def Type_new_def perl_padding_needed_for_def)
  with struct_members_disjoint [OF s(1)] show ?thesis by (intro exI [of _ s]) simp
qed

subsection \<open>\<open>offsetof\<close>\<close>

text \<open>
  The method \<open>offsetof\<close> of a \<open>Struct\<close> type, on a path of field names joined by dots: the path is
  split at its first dot, and when something follows and the member is a struct, the rest is looked
  up in the member. \<open>split\<close> with limit 2 drops nothing but the separator.
\<close>

definition split_dot :: "string \<Rightarrow> string \<times> string" where
  "split_dot path = (takeWhile (\<lambda>c. c \<noteq> CHR ''.'') path, drop 1 (dropWhile (\<lambda>c. c \<noteq> CHR ''.'') path))"

lemma split_dot_shorter: "split_dot path = (field, tail) \<Longrightarrow> tail \<noteq> [] \<Longrightarrow> length tail < length path"
proof -
  assume "split_dot path = (field, tail)" and "tail \<noteq> []"
  then have "length tail = length (dropWhile (\<lambda>c. c \<noteq> CHR ''.'') path) - 1" and "0 < length tail"
    by (auto simp: split_dot_def)
  moreover have "length (dropWhile (\<lambda>c. c \<noteq> CHR ''.'') path) \<le> length path" by (rule length_dropWhile_le)
  ultimately show ?thesis by linarith
qed

function offsetof :: "atype \<Rightarrow> string \<Rightarrow> nat option" where
  "offsetof s path =
     (let (field, tail) = split_dot path in
      case find (\<lambda>e. at_slot12 e = FieldName field) (at_fields s) of
        None \<Rightarrow> None
      | Some now \<Rightarrow>
          if tail \<noteq> [] \<and> at_numeric now = STRUCT_FLAG then offsetof now tail
          else Some (AXT_TYPE_OFFSET now + AXT_TYPE_OFFSET s))"
  by pat_completeness auto
termination
  by (relation "measure (\<lambda>(_, path). length path)") (auto dest: split_dot_shorter [OF sym])

declare offsetof.simps [simp del]

subsection \<open>Descriptions for the call VM\<close>

text \<open>
  \<open>_aggregate\<close> with its loop over the members; \<open>junk\<close> is what the memory for the classes of a new
  description holds. An exception of Perl is \<open>Croak\<close> with its message, undefined behaviour of C is \<open>Crash\<close>;
  \<open>OutOfMemory\<close> is for the allocations of the next theories.
\<close>

datatype affix_error = Croak string | Crash string | OutOfMemory

definition field_sigchar :: "char \<Rightarrow> char option" where
  "field_sigchar t =
     (if t = BOOL_FLAG then Some DC_SIGCHAR_BOOL
      else if t = CHAR_FLAG then Some DC_SIGCHAR_CHAR
      else if t = UCHAR_FLAG then Some DC_SIGCHAR_UCHAR
      else if t = SHORT_FLAG then Some DC_SIGCHAR_SHORT
      else if t = USHORT_FLAG then Some DC_SIGCHAR_USHORT
      else if t = INT_FLAG then Some DC_SIGCHAR_INT
      else if t = UINT_FLAG then Some DC_SIGCHAR_UINT
      else if t = LONG_FLAG then Some DC_SIGCHAR_LONG
      else if t = ULONG_FLAG then Some DC_SIGCHAR_ULONG
      else if t = LONGLONG_FLAG then Some DC_SIGCHAR_LONGLONG
      else if t = ULONGLONG_FLAG then Some DC_SIGCHAR_ULONGLONG
      else if t = FLOAT_FLAG then Some DC_SIGCHAR_FLOAT
      else if t = DOUBLE_FLAG then Some DC_SIGCHAR_DOUBLE
      else if t \<in> {POINTER_FLAG, CODEREF_FLAG, WSTRING_FLAG} then Some DC_SIGCHAR_POINTER
      else if t \<in> {STRUCT_FLAG, UNION_FLAG, CPPSTRUCT_FLAG} then Some DC_SIGCHAR_AGGREGATE
      else if t = WCHAR_FLAG then Some DC_SIGCHAR_LONGLONG
      else None)"

definition add_field ::
  "aggr_builder \<Rightarrow> char \<Rightarrow> nat \<Rightarrow> DCaggr option \<Rightarrow> affix_error + aggr_builder" where
  "add_field b ty off sub =
     (case dcAggrField 8 b ty (of_nat off) 1 sub of
        Inl _ \<Rightarrow> Inl (Crash ''dcAggrField'') | Inr b' \<Rightarrow> Inr b')"

fun affix_aggregate :: "u8 list \<Rightarrow> atype \<Rightarrow> affix_error + DCaggr"
and aggregate_fields :: "u8 list \<Rightarrow> atype list \<Rightarrow> aggr_builder \<Rightarrow> affix_error + aggr_builder" where
  "affix_aggregate junk (AType n sz al off sub len ag slot12 sig) =
     (if n \<in> {STRUCT_FLAG, CPPSTRUCT_FLAG, UNION_FLAG} then
        (case ag of
           Cached a \<Rightarrow> Inr a
         | NotAnAggr \<Rightarrow> Inl (Croak ''Oh, no...'')
         | NoAggr \<Rightarrow>
             (case sub of
                Fields fs \<Rightarrow>
                  (case aggregate_fields junk fs (dcNewAggr junk (of_nat (length fs)) (of_nat sz)) of
                     Inl e \<Rightarrow> Inl e
                   | Inr b \<Rightarrow> Inr (dcCloseAggr b))
              | _ \<Rightarrow> Inl (Crash ''not an array of fields'')))
      else Inl (Croak ''Unsupported aggregate''))"
| "aggregate_fields junk [] b = Inr b"
| "aggregate_fields junk (f # fs) b =
     (case field_sigchar (at_numeric f) of
        None \<Rightarrow> Inl (Croak ''Unhandled type in aggregate'')
      | Some ty \<Rightarrow>
          (case (if ty = DC_SIGCHAR_AGGREGATE
                 then (case affix_aggregate junk f of Inl e \<Rightarrow> Inl e | Inr a \<Rightarrow> Inr (Some a))
                 else Inr None) of
             Inl e \<Rightarrow> Inl e
           | Inr sub \<Rightarrow>
               (case add_field b ty (AXT_TYPE_OFFSET f) sub of
                  Inl e \<Rightarrow> Inl e
                | Inr b' \<Rightarrow> aggregate_fields junk fs b')))"

subsection \<open>What a description has\<close>

definition agg_flags :: "char set" where
  "agg_flags = {STRUCT_FLAG, CPPSTRUCT_FLAG, UNION_FLAG}"

text \<open>A type whose members, at any depth, have flags the description knows; offsets fit the \<open>int\<close> that
  \<open>dcAggrField\<close> takes.\<close>

fun describable :: "atype \<Rightarrow> bool" where
  "describable (AType n sz al off sub len ag slot12 sig) \<longleftrightarrow>
     n \<in> agg_flags \<and> ag = NoAggr \<and> sz < 2 ^ 64 \<and>
     (case sub of
        Fields fs \<Rightarrow> length fs < 2 ^ 64 \<and>
          (\<forall>f \<in> set fs. field_sigchar (at_numeric f) \<noteq> None \<and> AXT_TYPE_OFFSET f < 2 ^ 31 \<and>
             (at_numeric f \<in> agg_flags \<longrightarrow> describable f))
      | _ \<Rightarrow> False)"

text \<open>A field of a description stands for a member.\<close>

definition describes :: "atype \<Rightarrow> DCfield \<Rightarrow> bool" where
  "describes f d \<longleftrightarrow>
     unat (f_offset d) = AXT_TYPE_OFFSET f \<and> f_array_len d = 1 \<and>
     Some (f_type d) = field_sigchar (at_numeric f) \<and>
     (if at_numeric f \<in> agg_flags then \<exists>a. f_sub d = Some a \<and> unat (ag_size a) = at_sizeof f
      else f_sub d = None)"

lemma field_sigchar_agg: "field_sigchar n = Some DC_SIGCHAR_AGGREGATE \<longleftrightarrow> n \<in> agg_flags"
  by (auto simp: field_sigchar_def agg_flags_def)

lemma field_sigchar_size:
  "field_sigchar n = Some ty \<Longrightarrow> ty \<noteq> DC_SIGCHAR_AGGREGATE \<Longrightarrow> \<exists>k. sizeof_sigchar 8 ty = Some k"
  by (auto simp: field_sigchar_def sizeof_sigchar_def split: if_splits)

lemma offset_scast: "k < 2 ^ 31 \<Longrightarrow> unat (scast (of_nat k :: u32) :: u64) = k"
proof -
  assume k: "k < 2 ^ 31"
  then have u: "unat (of_nat k :: u32) = k" by (simp add: unat_of_nat)
  with k have "sint (of_nat k :: u32) = int k" using sint_small [of "of_nat k :: u32"] by simp
  then have "(scast (of_nat k :: u32) :: u64) = of_nat k" by (simp add: scast_eq)
  with k show ?thesis by (simp add: unat_of_nat)
qed

lemma add_field_ok:
  assumes "builder_wf b" and "length (ag_fields (ab_aggr b)) < unat (ab_cap b)"
    and "field_sigchar (at_numeric f) = Some ty" and "AXT_TYPE_OFFSET f < 2 ^ 31"
    and "if ty = DC_SIGCHAR_AGGREGATE then \<exists>a. sub = Some a \<and> aggr_wf a \<and> unat (ag_size a) = at_sizeof f
         else sub = None"
  obtains b' d where "add_field b ty (AXT_TYPE_OFFSET f) sub = Inr b'" and "builder_wf b'"
    and "ag_fields (ab_aggr b') = ag_fields (ab_aggr b) @ [d]" and "describes f d"
    and "ab_cap b' = ab_cap b" and "ag_size (ab_aggr b') = ag_size (ab_aggr b)"
    and "sysv_classes (ab_aggr b') = sysv_classes (ab_aggr b)"
proof (cases "ty = DC_SIGCHAR_AGGREGATE")
  case True
  with assms(5) obtain a where a: "sub = Some a" "aggr_wf a" "unat (ag_size a) = at_sizeof f" by auto
  let ?d = "DCfield (scast (of_nat (AXT_TYPE_OFFSET f) :: u32)) (ag_size a) (ag_alignment a) 1 DC_SIGCHAR_AGGREGATE (Some a)"
  have "describes f ?d"
    using assms(3,4) True a by (simp add: describes_def offset_scast field_sigchar_agg [symmetric])
  with that [of _ ?d] builder_wf_with_field [OF assms(1) field_wf_aggregate [OF a(2)] assms(2)] show thesis
    by (simp add: add_field_def True a(1) dcAggrField_aggregate [OF assms(2)])
next
  case False
  then obtain k where k: "sizeof_sigchar 8 ty = Some k" using field_sigchar_size [OF assms(3)] by auto
  let ?d = "DCfield (scast (of_nat (AXT_TYPE_OFFSET f) :: u32)) k k 1 ty None"
  have "describes f ?d"
    using assms(3,4) False by (simp add: describes_def offset_scast field_sigchar_agg [symmetric])
  with that [of _ ?d] builder_wf_with_field [OF assms(1) field_wf_scalar [OF False k] assms(2)] show thesis
    by (simp add: add_field_def dcAggrField_scalar [OF assms(2) False k])
qed

text \<open>One traversal of the members: it succeeds and appends a field for each.\<close>

lemma aggregate_describes:
  "describable t \<Longrightarrow> \<exists>a. affix_aggregate junk t = Inr a \<and> aggr_wf a \<and> unat (ag_size a) = at_sizeof t \<and>
     list_all2 describes (at_fields t) (ag_fields a) \<and> length (sysv_classes a) = length junk"
  and fields_describe:
  "\<lbrakk>\<forall>f \<in> set fs. field_sigchar (at_numeric f) \<noteq> None \<and> AXT_TYPE_OFFSET f < 2 ^ 31 \<and>
       (at_numeric f \<in> agg_flags \<longrightarrow> describable f);
    builder_wf b; length (ag_fields (ab_aggr b)) + length fs \<le> unat (ab_cap b)\<rbrakk> \<Longrightarrow>
   \<exists>b' ds. aggregate_fields junk fs b = Inr b' \<and> builder_wf b' \<and>
     ag_fields (ab_aggr b') = ag_fields (ab_aggr b) @ ds \<and> list_all2 describes fs ds \<and>
     ag_size (ab_aggr b') = ag_size (ab_aggr b) \<and> sysv_classes (ab_aggr b') = sysv_classes (ab_aggr b)"
proof (induction junk t and junk fs b rule: affix_aggregate_aggregate_fields.induct)
  case (1 junk n sz al off sub len ag slot12 sig)
  then obtain fs where fs: "sub = Fields fs" "n \<in> agg_flags" "ag = NoAggr" by (auto split: at_sub.splits)
  let ?b = "dcNewAggr junk (of_nat (length fs)) (of_nat sz)"
  have "length fs < 2 ^ 64" "sz < 2 ^ 64" using 1(2) fs by simp_all
  then have c: "unat (ab_cap ?b) = length fs" "unat (ag_size (ab_aggr ?b)) = sz"
    by (simp_all add: dcNewAggr_def unat_of_nat)
  have "\<exists>b' ds. aggregate_fields junk fs ?b = Inr b' \<and> builder_wf b' \<and>
     ag_fields (ab_aggr b') = ag_fields (ab_aggr ?b) @ ds \<and> list_all2 describes fs ds \<and>
     ag_size (ab_aggr b') = ag_size (ab_aggr ?b) \<and> sysv_classes (ab_aggr b') = sysv_classes (ab_aggr ?b)"
    using 1(2) fs c by (intro 1(1)) (simp_all add: agg_flags_def builder_wf_new, simp_all add: dcNewAggr_def)
  then obtain b' ds where b': "aggregate_fields junk fs ?b = Inr b'" "builder_wf b'"
     "ag_fields (ab_aggr b') = ds" "list_all2 describes fs ds"
     "unat (ag_size (ab_aggr b')) = sz" "sysv_classes (ab_aggr b') = junk"
    using c by (auto simp: dcNewAggr_def)
  have "aggr_wf (dcCloseAggr b')"
    using b'(2) by (cases "ab_aggr b'") (simp add: builder_wf_def dcCloseAggr_def dcFinishAggr_def)
  with b' fs show ?case
    by (simp add: agg_flags_def dcCloseAggr_def dcFinishAggr_def dc_get_sysv_classes_for_aggr_def Let_def)
next
  case (3 junk f fs b)
  from 3(3) obtain ty where ty: "field_sigchar (at_numeric f) = Some ty" by auto
  have "\<exists>sub. (if ty = DC_SIGCHAR_AGGREGATE
               then (case affix_aggregate junk f of Inl e \<Rightarrow> Inl e | Inr a \<Rightarrow> Inr (Some a))
               else Inr None) = Inr sub \<and>
         (if ty = DC_SIGCHAR_AGGREGATE then \<exists>a. sub = Some a \<and> aggr_wf a \<and> unat (ag_size a) = at_sizeof f
          else sub = None)"
    using 3(1) [OF ty] 3(3) ty by (auto simp: field_sigchar_agg [symmetric])
  then obtain sub where sub: "(if ty = DC_SIGCHAR_AGGREGATE
               then (case affix_aggregate junk f of Inl e \<Rightarrow> Inl e | Inr a \<Rightarrow> Inr (Some a))
               else Inr None) = Inr sub"
    "if ty = DC_SIGCHAR_AGGREGATE then \<exists>a. sub = Some a \<and> aggr_wf a \<and> unat (ag_size a) = at_sizeof f
          else sub = None" by blast
  have room: "length (ag_fields (ab_aggr b)) < unat (ab_cap b)" using 3(5) by simp
  obtain b1 d where b1: "add_field b ty (AXT_TYPE_OFFSET f) sub = Inr b1" "builder_wf b1"
    "ag_fields (ab_aggr b1) = ag_fields (ab_aggr b) @ [d]" "describes f d" "ab_cap b1 = ab_cap b"
    "ag_size (ab_aggr b1) = ag_size (ab_aggr b)" "sysv_classes (ab_aggr b1) = sysv_classes (ab_aggr b)"
    using add_field_ok [OF 3(4) room ty _ sub(2)] 3(3) by auto
  from 3(2) [OF ty sub(1) b1(1)] 3(3,5) b1 obtain b' ds where
    "aggregate_fields junk fs b1 = Inr b'" "builder_wf b'"
    "ag_fields (ab_aggr b') = ag_fields (ab_aggr b) @ d # ds" "list_all2 describes fs ds"
    "ag_size (ab_aggr b') = ag_size (ab_aggr b)" "sysv_classes (ab_aggr b') = sysv_classes (ab_aggr b)"
    by auto
  with ty sub(1) b1 show ?case by simp
qed simp

lemma aggregate_fields_append:
  "aggregate_fields junk (fs @ gs) b =
     (case aggregate_fields junk fs b of Inl e \<Rightarrow> Inl e | Inr b' \<Rightarrow> aggregate_fields junk gs b')"
  by (induction fs arbitrary: b) (auto split: option.split sum.split)

lemma aggregate_unknown_member:
  "field_sigchar (at_numeric f) = None \<Longrightarrow>
     aggregate_fields junk (f # fs) b = Inl (Croak ''Unhandled type in aggregate'')"
  by simp

lemma T_Struct_SomeE:
  assumes "T_Struct types = Some s"
  obtains store sz where "struct_layout 0 types = Some (store, sz)"
    and "s = AType STRUCT_FLAG (sz + perl_padding_needed_for sz 8) 8 None (Fields store) 1 NoAggr NoField None"
  using assms by (auto simp: T_Struct_def)

lemma list_all2_image:
  "list_all2 P xs ys \<Longrightarrow> \<forall>x \<in> set xs. Q x \<Longrightarrow> (\<And>x y. P x y \<Longrightarrow> Q x \<Longrightarrow> R y) \<Longrightarrow> \<forall>y \<in> set ys. R y"
  by (induction rule: list_all2_induct) auto

lemma struct_layout_types:
  "struct_layout n types = Some (store, sz) \<Longrightarrow>
     list_all2 (\<lambda>(name, t) f. \<exists>off \<le> sz. f = place name off t) types store"
proof (induction n types arbitrary: store sz rule: struct_layout.induct)
  case (2 n name t types)
  let ?off = "(n + at_align t - 1) div at_align t * at_align t"
  from "2.prems" have a: "at_align t \<noteq> 0" by (simp split: if_splits)
  with "2.prems" obtain store' where s: "store = place name ?off t # store'"
    and r: "struct_layout (?off + at_sizeof t) types = Some (store', sz)"
    by (auto simp: Let_def)
  have "?off \<le> sz" using struct_layout_members [OF r] by simp
  with "2.IH" [OF a refl r] s show ?case by auto
qed simp

lemma describable_place [simp]: "describable (place name off t) = describable t"
  by (cases t) (simp add: place_def)

lemma T_Struct_members:
  assumes "T_Struct types = Some s" and "at_sizeof s < 2 ^ 31"
  shows "list_all2 (\<lambda>(name, t) f. \<exists>off < 2 ^ 31. f = place name off t) types (at_fields s)"
proof -
  from assms(1) obtain store sz where l: "struct_layout 0 types = Some (store, sz)"
    and s: "s = AType STRUCT_FLAG (sz + perl_padding_needed_for sz 8) 8 None (Fields store) 1 NoAggr NoField None"
    by (rule T_Struct_SomeE)
  from s assms(2) have "sz < 2 ^ 31" by simp
  with struct_layout_types [OF l] show ?thesis
    unfolding s by (auto elim!: list_all2_mono intro: le_less_trans exI)
qed

definition supported :: "atype \<Rightarrow> bool" where
  "supported t \<longleftrightarrow> field_sigchar (at_numeric t) \<noteq> None \<and> (at_numeric t \<in> agg_flags \<longrightarrow> describable t)"

text \<open>C22: \<open>_aggregate\<close> succeeds on every \<open>Struct\<close> whose members have flags it knows, at any depth of nesting, and
  the description is faithful: it has the size of the struct and, in order, one field for each member with the
  offset and the type character of that member (for a nested struct or union its own description).\<close>

theorem struct_described:
  assumes "T_Struct types = Some s" and "at_sizeof s < 2 ^ 31" and "length types < 2 ^ 31"
    and "\<forall>(_, t) \<in> set types. supported t"
  shows "\<exists>a. affix_aggregate junk s = Inr a \<and> aggr_wf a \<and> unat (ag_size a) = at_sizeof s \<and>
     list_all2 describes (at_fields s) (ag_fields a)"
proof -
  have len: "length (at_fields s) = length types"
    using T_Struct_members [OF assms(1,2)] by (simp add: list_all2_lengthD)
  have "\<forall>f \<in> set (at_fields s). supported f \<and> AXT_TYPE_OFFSET f < 2 ^ 31"
    by (rule list_all2_image [OF T_Struct_members [OF assms(1,2)] assms(4)]) (auto simp: supported_def)
  then have "describable s"
    using assms(1-3) len by (auto simp: T_Struct_def agg_flags_def supported_def)
  from aggregate_describes [OF this] show ?thesis by blast
qed

lemma struct_described_witness:
  "\<exists>s a. T_Struct [(''x'', T_Char), (''y'', T_Double)] = Some s \<and> affix_aggregate [] s = Inr a \<and>
     unat (ag_size a) = 16 \<and> length (ag_fields a) = 2"
proof -
  obtain s where s: "T_Struct [(''x'', T_Char), (''y'', T_Double)] = Some s" "at_sizeof s = 16"
    "length (at_fields s) = 2"
    by (simp add: T_Struct_def Type_new_def perl_padding_needed_for_def)
  have "supported T_Char" "supported T_Double"
    by (simp_all add: supported_def field_sigchar_def agg_flags_def Type_new_def)
  then obtain a where "affix_aggregate [] s = Inr a" "unat (ag_size a) = at_sizeof s"
    "list_all2 describes (at_fields s) (ag_fields a)"
    using struct_described [OF s(1), of "[]"] s(2) by auto
  with s show ?thesis by (metis list_all2_lengthD)
qed

text \<open>A member of a type that a description cannot hold (\<open>SChar\<close>, \<open>Void\<close>, \<open>StdString\<close>, ...) makes \<open>_aggregate\<close>
  throw its exception, whatever follows and with no description left half built.\<close>

lemma struct_unsupported_member:
  assumes "T_Struct (pre @ (name, t) # post) = Some s" and "at_sizeof s < 2 ^ 31"
    and "length pre + Suc (length post) < 2 ^ 31"
    and "\<forall>(_, t) \<in> set pre. supported t" and "field_sigchar (at_numeric t) = None"
  shows "affix_aggregate junk s = Inl (Croak ''Unhandled type in aggregate'')"
proof -
  from T_Struct_members [OF assms(1,2)] obtain fpre f fpost where
    fs: "at_fields s = fpre @ f # fpost"
    and pre: "list_all2 (\<lambda>(name, t) f. \<exists>off < 2 ^ 31. f = place name off t) pre fpre"
    and f: "at_numeric f = at_numeric t" and post: "length fpost = length post"
    by (force simp: list_all2_append1 list_all2_Cons1 dest: list_all2_lengthD)
  have ok: "\<forall>f \<in> set fpre. field_sigchar (at_numeric f) \<noteq> None \<and> AXT_TYPE_OFFSET f < 2 ^ 31 \<and>
       (at_numeric f \<in> agg_flags \<longrightarrow> describable f)"
    by (rule list_all2_image [OF pre assms(4)]) (auto simp: supported_def)
  let ?b = "dcNewAggr junk (of_nat (length (at_fields s))) (of_nat (at_sizeof s))"
  have "length (at_fields s) < 2 ^ 31" using fs post pre assms(3) by (simp add: list_all2_lengthD)
  then have "unat (ab_cap ?b) = length (at_fields s)" by (simp add: dcNewAggr_def unat_of_nat)
  then have "length (ag_fields (ab_aggr ?b)) + length fpre \<le> unat (ab_cap ?b)"
    by (simp add: dcNewAggr_def fs)
  from fields_describe [OF ok builder_wf_new this] obtain b' where
    "aggregate_fields junk fpre ?b = Inr b'" by blast
  with fs f assms(5) have "aggregate_fields junk (at_fields s) ?b = Inl (Croak ''Unhandled type in aggregate'')"
    by (simp add: aggregate_fields_append)
  with assms(1) show ?thesis by (auto simp: T_Struct_def)
qed

lemma struct_unsupported_member_witness:
  "\<exists>s. T_Struct [(''i'', T_Int), (''c'', T_SChar)] = Some s \<and>
     affix_aggregate [] s = Inl (Croak ''Unhandled type in aggregate'')"
proof -
  obtain s where s: "T_Struct [(''i'', T_Int), (''c'', T_SChar)] = Some s" "at_sizeof s = 8"
    by (simp add: T_Struct_def Type_new_def perl_padding_needed_for_def)
  have "supported T_Int" and "field_sigchar (at_numeric T_SChar) = None"
    by (simp_all add: supported_def field_sigchar_def agg_flags_def Type_new_def)
  then have "affix_aggregate [] s = Inl (Croak ''Unhandled type in aggregate'')"
    using s by (intro struct_unsupported_member [of "[(''i'', T_Int)]" "''c''" T_SChar "[]" s]) simp_all
  with s(1) show ?thesis by blast
qed

subsection \<open>Members that the description misplaces\<close>

text \<open>The C type \<open>bool\<close> has one byte, a \<open>wchar_t\<close> four; their fields in a description have the four bytes of a
  \<open>DCbool\<close> and the eight of a \<open>DClonglong\<close>, and are to be aligned to as much.\<close>

definition scalar_member :: "atype \<Rightarrow> bool" where
  "scalar_member f \<longleftrightarrow>
     (case Option.bind (field_sigchar (at_numeric f)) (sizeof_sigchar 8) of
        None \<Rightarrow> False
      | Some k \<Rightarrow> AXT_TYPE_OFFSET f + unat k \<le> 16)"

definition misdescribed :: "atype \<Rightarrow> bool" where
  "misdescribed f \<longleftrightarrow>
     at_numeric f = BOOL_FLAG \<and> \<not> 4 dvd AXT_TYPE_OFFSET f \<or> at_numeric f = WCHAR_FLAG \<and> \<not> 8 dvd AXT_TYPE_OFFSET f"

lemma describes_flat:
  assumes "describes f d" and "field_wf d" and "scalar_member f"
  shows "flat_field d" and "misdescribed f \<Longrightarrow> \<not> aligned_field d"
proof -
  obtain fo fsize fal alen ty sub where d: "d = DCfield fo fsize fal alen ty sub" by (cases d)
  from assms(3) obtain ty' k where k: "field_sigchar (at_numeric f) = Some ty'" "sizeof_sigchar 8 ty' = Some k"
    "AXT_TYPE_OFFSET f + unat k \<le> 16"
    by (auto simp: scalar_member_def split: option.splits bind_splits)
  then have ty: "ty = ty'" "ty \<noteq> DC_SIGCHAR_AGGREGATE"
    using assms(1) by (auto simp: d describes_def sizeof_sigchar_def)
  with assms(1,2) k show "flat_field d"
    by (simp add: d describes_def flat_field_def)
  from assms(1,2) k ty show "\<not> aligned_field d" if "misdescribed f"
    using that by (auto simp: d describes_def aligned_field_def misdescribed_def field_sigchar_def sizeof_sigchar_def)
qed

lemma finish_memory:
  assumes "\<forall>f \<in> set (ag_fields ag). flat_field f" and "unat (ag_size ag) \<le> 16" and "length (sysv_classes ag) = 8"
    and "flat_class (ag_fields ag) 0 = SYSVC_MEMORY \<or> flat_class (ag_fields ag) 1 = SYSVC_MEMORY"
  shows "sysv_classes (dcFinishAggr ag) ! 0 = SYSVC_MEMORY"
proof -
  have "\<not> 2 * 8 < ag_size ag" using assms(2) by (simp add: word_less_nat_alt not_less)
  with assms(3,4) class_8byte_flat [OF assms(1), of 0] class_8byte_flat [OF assms(1), of 1] show ?thesis
    by (auto simp: dcFinishAggr_def dc_get_sysv_classes_for_aggr_def Let_def)
qed

lemma aggregate_finished:
  assumes "affix_aggregate junk s = Inr a" and "T_Struct types = Some s"
  shows "\<exists>ag. a = dcFinishAggr ag"
  using assms by (auto simp: T_Struct_def dcCloseAggr_def split: sum.splits)

lemma finish_simps [simp]:
  "ag_fields (dcFinishAggr ag) = ag_fields ag" "ag_size (dcFinishAggr ag) = ag_size ag"
  "length (sysv_classes (dcFinishAggr ag)) = length (sysv_classes ag)"
  "aggr_wf (dcFinishAggr ag) = aggr_wf ag"
  by (simp_all add: dcFinishAggr_def dc_get_sysv_classes_for_aggr_def Let_def, cases ag, simp)

text \<open>A struct of scalars of at most 16 bytes that has a \<open>Bool\<close> at an offset that is no multiple of 4, or a \<open>WChar\<close> at
  one that is no multiple of 8, gets a description of class MEMORY and is passed on the stack, although its C type has
  both members aligned (and the ABI passes it in registers).\<close>

lemma misdescribed_member_in_memory:
  assumes "T_Struct types = Some s" and "at_sizeof s \<le> 16" and "length types < 2 ^ 31"
    and "\<forall>f \<in> set (at_fields s). scalar_member f" and "f \<in> set (at_fields s)" and "misdescribed f"
    and "length junk = 8"
  shows "\<exists>a. affix_aggregate junk s = Inr a \<and> sysv_classes a ! 0 = SYSVC_MEMORY"
proof -
  have len: "length (at_fields s) = length types"
    using T_Struct_members [OF assms(1)] assms(2) by (simp add: list_all2_lengthD)
  have "describable s"
  proof -
    have "field_sigchar (at_numeric g) \<noteq> None \<and> AXT_TYPE_OFFSET g < 2 ^ 31 \<and> at_numeric g \<notin> agg_flags"
      if "g \<in> set (at_fields s)" for g
      using assms(4) that field_sigchar_agg [of "at_numeric g"]
      by (force simp: scalar_member_def sizeof_sigchar_def split: option.splits bind_splits)
    with assms(1-3) len show ?thesis by (auto simp: T_Struct_def agg_flags_def)
  qed
  from aggregate_describes [OF this, of junk] obtain a where a: "affix_aggregate junk s = Inr a" "aggr_wf a"
    "unat (ag_size a) = at_sizeof s" "list_all2 describes (at_fields s) (ag_fields a)"
    "length (sysv_classes a) = length junk" by blast
  from aggregate_finished [OF a(1) assms(1)] obtain ag where ag: "a = dcFinishAggr ag" ..
  have wf: "\<forall>d \<in> set (ag_fields ag). field_wf d" using a(2) ag by (cases ag) simp
  have flat: "\<forall>d \<in> set (ag_fields ag). flat_field d"
    using a(4) assms(4) wf describes_flat(1) by (auto simp: ag list_all2_conv_all_nth in_set_conv_nth) (metis nth_mem)
  from a(4) assms(5) obtain d where d: "d \<in> set (ag_fields ag)" "describes f d"
    unfolding ag finish_simps by (metis list_all2_conv_all_nth in_set_conv_nth)
  let ?q = "AXT_TYPE_OFFSET f div 8"
  have "scalar_member f" using assms(4,5) by simp
  with d wf assms(6) have "\<not> aligned_field d" and fd: "flat_field d"
    using describes_flat [OF d(2)] by auto
  moreover have "overlaps d ?q" and "?q \<in> {0, 1}"
  proof -
    have "0 < unat (f_size d)" using fd sizeof_sigchar_range [of "f_type d" "f_size d"] by (auto simp: flat_field_def)
    with d(2) fd show "overlaps d ?q" "?q \<in> {0, 1}"
      by (auto simp: overlaps_def describes_def flat_field_def)
  qed
  ultimately have "flat_class (ag_fields ag) ?q = SYSVC_MEMORY"
    using d(1) by (auto simp: flat_class_def Let_def)
  with \<open>?q \<in> {0, 1}\<close> have "sysv_classes (dcFinishAggr ag) ! 0 = SYSVC_MEMORY"
    using a(3,5) ag assms(2,7) by (intro finish_memory [OF flat]) auto
  with a(1) ag show ?thesis by auto
qed

text \<open>\<open>struct { char c; bool b; }\<close>: with an \<open>unsigned char\<close> in place of the \<open>bool\<close> the struct has the class that
  the ABI gives to both.\<close>

lemma misdescribed_member_in_memory_witness:
  "\<exists>s a s' a'. T_Struct [(''c'', T_Char), (''b'', T_Bool)] = Some s \<and>
     affix_aggregate (replicate 8 0) s = Inr a \<and> sysv_classes a ! 0 = SYSVC_MEMORY \<and>
     T_Struct [(''c'', T_Char), (''b'', T_UChar)] = Some s' \<and>
     affix_aggregate (replicate 8 0) s' = Inr a' \<and> live_classes a' = [SYSVC_INTEGER]"
proof -
  let ?f = "place ''b'' 1 T_Bool" and ?f' = "place ''b'' 1 T_UChar"
  let ?s = "AType STRUCT_FLAG 8 8 None (Fields [place ''c'' 0 T_Char, ?f]) 1 NoAggr NoField None"
  let ?s' = "AType STRUCT_FLAG 8 8 None (Fields [place ''c'' 0 T_Char, ?f']) 1 NoAggr NoField None"
  have s: "T_Struct [(''c'', T_Char), (''b'', T_Bool)] = Some ?s"
    and s': "T_Struct [(''c'', T_Char), (''b'', T_UChar)] = Some ?s'"
    by (simp_all add: T_Struct_def perl_padding_needed_for_def Type_new_def Let_def place_def)
  have "\<exists>a. affix_aggregate (replicate 8 0) ?s = Inr a \<and> sysv_classes a ! 0 = SYSVC_MEMORY"
    using s by (rule misdescribed_member_in_memory [where f = ?f])
      (auto simp: scalar_member_def misdescribed_def field_sigchar_def sizeof_sigchar_def Type_new_def)
  moreover have "case affix_aggregate (replicate 8 0) ?s' of Inl _ \<Rightarrow> False | Inr a \<Rightarrow> live_classes a = [SYSVC_INTEGER]"
    by code_simp
  then have "\<exists>a. affix_aggregate (replicate 8 0) ?s' = Inr a \<and> live_classes a = [SYSVC_INTEGER]"
    by (simp split: sum.splits)
  ultimately show ?thesis using s s' by blast
qed

subsection \<open>Paths of \<open>offsetof\<close>\<close>

lemma split_dot_field: "CHR ''.'' \<notin> set a \<Longrightarrow> split_dot a = (a, [])"
  by (induction a) (auto simp: split_dot_def)

lemma split_dot_path: "CHR ''.'' \<notin> set a \<Longrightarrow> split_dot (a @ CHR ''.'' # rest) = (a, rest)"
  by (induction a) (auto simp: split_dot_def)

definition member_named :: "string \<Rightarrow> atype \<Rightarrow> atype option" where
  "member_named a s = find (\<lambda>e. at_slot12 e = FieldName a) (at_fields s)"

lemma offsetof_field:
  "CHR ''.'' \<notin> set a \<Longrightarrow> member_named a s = Some x \<Longrightarrow> offsetof s a = Some (AXT_TYPE_OFFSET x + AXT_TYPE_OFFSET s)"
  by (subst offsetof.simps) (simp add: split_dot_field member_named_def)

lemma offsetof_path:
  "CHR ''.'' \<notin> set a \<Longrightarrow> rest \<noteq> [] \<Longrightarrow> member_named a s = Some x \<Longrightarrow> at_numeric x = STRUCT_FLAG \<Longrightarrow>
     offsetof s (a @ CHR ''.'' # rest) = offsetof x rest"
  by (subst offsetof.simps) (simp add: split_dot_path member_named_def)

text \<open>The method \<open>offsetof\<close> gives the right offset for a member of a member of a struct; one level deeper it
  loses the offset of the outermost member.\<close>

lemma offsetof_two_levels:
  assumes "member_named a s = Some x" and "at_numeric x = STRUCT_FLAG"
    and "member_named b x = Some y" and "b \<noteq> []"
    and "CHR ''.'' \<notin> set a" and "CHR ''.'' \<notin> set b"
  shows "offsetof s (a @ CHR ''.'' # b) = Some (AXT_TYPE_OFFSET x + AXT_TYPE_OFFSET y)
    \<and> (at_numeric y = STRUCT_FLAG \<and> member_named c y = Some z \<and> c \<noteq> [] \<and> CHR ''.'' \<notin> set c \<longrightarrow>
         offsetof s (a @ CHR ''.'' # b @ CHR ''.'' # c) = Some (AXT_TYPE_OFFSET y + AXT_TYPE_OFFSET z))"
  using assms by (simp add: offsetof_path offsetof_field)

lemma offsetof_two_levels_witness:
  "\<exists>s. T_Struct [(''i'', T_LongLong),
          (''p'', the (T_Struct [(''j'', T_LongLong), (''q'', the (T_Struct [(''k'', T_LongLong), (''l'', T_Int)]))]))]
        = Some s \<and>
     offsetof s ''p.q'' = Some 16 \<and> offsetof s ''p.q.l'' = Some 16"
proof -
  let ?l = "place ''l'' 8 T_Int"
  let ?q = "place ''q'' 8 (AType STRUCT_FLAG 16 8 None (Fields [place ''k'' 0 T_LongLong, ?l]) 1 NoAggr NoField None)"
  let ?p = "place ''p'' 8 (AType STRUCT_FLAG 24 8 None (Fields [place ''j'' 0 T_LongLong, ?q]) 1 NoAggr NoField None)"
  let ?s = "AType STRUCT_FLAG 32 8 None (Fields [place ''i'' 0 T_LongLong, ?p]) 1 NoAggr NoField None"
  have s: "T_Struct [(''i'', T_LongLong),
          (''p'', the (T_Struct [(''j'', T_LongLong), (''q'', the (T_Struct [(''k'', T_LongLong), (''l'', T_Int)]))]))]
        = Some ?s"
    by (simp add: T_Struct_def perl_padding_needed_for_def Type_new_def Let_def place_def)
  have m: "member_named ''p'' ?s = Some ?p" "member_named ''q'' ?p = Some ?q" "member_named ''l'' ?q = Some ?l"
    by (simp_all add: member_named_def place_def)
  have "offsetof ?s (''p'' @ CHR ''.'' # ''q'') = Some (AXT_TYPE_OFFSET ?p + AXT_TYPE_OFFSET ?q)
    \<and> (at_numeric ?q = STRUCT_FLAG \<and> member_named ''l'' ?q = Some ?l \<and> ''l'' \<noteq> [] \<and> CHR ''.'' \<notin> set ''l'' \<longrightarrow>
         offsetof ?s (''p'' @ CHR ''.'' # ''q'' @ CHR ''.'' # ''l'') = Some (AXT_TYPE_OFFSET ?q + AXT_TYPE_OFFSET ?l))"
    by (rule offsetof_two_levels [OF m(1) _ m(2)]) simp_all
  with m(3) s show ?thesis by simp
qed

end
