(* ===== verification/Affix_Marshal.thy ===== *)
theory Affix_Marshal
  imports Affix_Types Affix_Float "HOL-Library.AList"
begin

unbundle bit_operations_syntax

section \<open>Affix: Perl values to C memory and back\<close>

text \<open>
  \<open>sv2ptr\<close> and \<open>ptr2sv\<close> of \<open>lib/Affix/marshal.cxx\<close> with the helpers of \<open>lib/Affix/wchar_t.cxx\<close>, and the
  pinned variables of \<open>lib/Affix/pin.cxx\<close>, on a little endian 64 bit Linux.
\<close>

subsection \<open>Perl values\<close>

text \<open>
  A Perl scalar by what its flags say: undefined (\<open>True\<close>: read only, an explicit \<open>undef\<close>), a truth value, an
  integer (\<open>True\<close>: unsigned), a number, a string of bytes (\<open>True\<close>: flagged as UTF-8), both a string and an
  integer, a reference to an array, to a hash, to an address, a type object, code, and the scalars that
  Affix makes: an \<open>Affix::Pointer\<close> (an array of address, type, count and position), a sub that
  calls C code, a variable bound to an address.
\<close>

datatype sv =
    SvUndef bool
  | SvBool bool
  | SvInt u64 bool
  | SvNum u64
  | SvStr "byte list" bool
  | SvDual "byte list" bool u64
  | SvArray "sv list"
  | SvHash "(string \<times> sv) list"
  | SvRef u64
  | SvType atype
  | SvCode nat
  | SvPtr "u64 option" atype nat nat
  | SvXSub u64 "char list" atype
  | SvPin atype u64

text \<open>
  The functions of Perl, of the C library and of the callback library that the code relies on:
  coercions of scalars, \<open>is_utf8_string\<close>, the code points of a string (\<open>mbstowcs\<close> on its UTF-8 form), the UTF-8
  form of a code point, the address of a scalar and back, the allocator (blocks in use, size; \<open>None\<close>
  when there is no memory) and \<open>dcbNewCallback\<close> with the handler of Affix.
\<close>

record host =
  SvIV :: "sv \<Rightarrow> u64"
  SvUV :: "sv \<Rightarrow> u64"
  SvNV :: "sv \<Rightarrow> u64"
  SvTRUE :: "sv \<Rightarrow> bool"
  SvPV :: "sv \<Rightarrow> byte list"
  SvPVbyte :: "sv \<Rightarrow> byte list"
  is_utf8_string :: "byte list \<Rightarrow> bool"
  h_mbstowcs :: "byte list \<Rightarrow> u32 list"
  uvchr_to_utf8 :: "u64 \<Rightarrow> byte list"
  sv_addr :: "sv \<Rightarrow> u64"
  sv_at :: "u64 \<Rightarrow> sv"
  h_malloc :: "(u64 \<times> nat) list \<Rightarrow> nat \<Rightarrow> u64 option"
  h_callback :: "char list \<Rightarrow> atype \<Rightarrow> sv \<Rightarrow> u64"

fun SvOK :: "sv \<Rightarrow> bool" where
  "SvOK (SvUndef _) = False"
| "SvOK (SvPin _ _) = False"
| "SvOK _ = True"

fun SvIOK :: "sv \<Rightarrow> bool" where
  "SvIOK (SvInt _ _) = True"
| "SvIOK (SvDual _ _ _) = True"
| "SvIOK (SvBool _) = True"
| "SvIOK _ = False"

fun SvNOK :: "sv \<Rightarrow> bool" where
  "SvNOK (SvNum _) = True"
| "SvNOK (SvBool _) = True"
| "SvNOK _ = False"

fun SvUOK :: "sv \<Rightarrow> bool" where
  "SvUOK (SvInt _ u) = u"
| "SvUOK _ = False"

fun SvPOK :: "sv \<Rightarrow> bool" where
  "SvPOK (SvStr _ _) = True"
| "SvPOK (SvDual _ _ _) = True"
| "SvPOK (SvBool _) = True"
| "SvPOK _ = False"

fun SvUTF8 :: "sv \<Rightarrow> bool" where
  "SvUTF8 (SvStr _ u) = u"
| "SvUTF8 (SvDual _ u _) = u"
| "SvUTF8 _ = False"

text \<open>\<open>SvROK(sv) && SvTYPE(SvRV(sv)) == SVt_PVAV\<close> with the elements of the array.\<close>

fun av_elems :: "sv \<Rightarrow> sv list option" where
  "av_elems (SvArray xs) = Some xs"
| "av_elems (SvPtr a t c p) =
     Some [case a of None \<Rightarrow> SvUndef False | Some x \<Rightarrow> SvRef x, SvType t, SvInt (of_nat c) False, SvInt (of_nat p) False]"
| "av_elems _ = None"

text \<open>\<open>newSVuv\<close> makes a signed integer of what fits one.\<close>

definition newSViv :: "u64 \<Rightarrow> sv" where "newSViv x = SvInt x False"
definition newSVuv :: "u64 \<Rightarrow> sv" where "newSVuv x = SvInt x (sint x < 0)"

subsection \<open>Memory\<close>

record store =
  st_mem :: "u64 heap"
  st_blocks :: "(u64 \<times> nat) list"

definition put :: "u64 \<Rightarrow> byte list \<Rightarrow> store \<Rightarrow> store" where
  "put a bs st = st\<lparr>st_mem := heap_write (st_mem st) a bs\<rparr>"

text \<open>\<open>Newxz\<close> and \<open>safecalloc\<close>; \<open>ensure\<close> is the idiom \<open>if (ret == NULL) Newxz(ret, ...)\<close>.\<close>

definition Newxz :: "host \<Rightarrow> nat \<Rightarrow> store \<Rightarrow> affix_error + u64 \<times> store" where
  "Newxz host n st =
     (case h_malloc host (st_blocks st) n of
        None \<Rightarrow> Inl OutOfMemory
      | Some a \<Rightarrow> Inr (a, put a (replicate n 0) st\<lparr>st_blocks := (a, n) # st_blocks st\<rparr>))"

definition ensure :: "host \<Rightarrow> u64 \<Rightarrow> nat \<Rightarrow> store \<Rightarrow> affix_error + u64 \<times> store" where
  "ensure host ret n st = (if ret = 0 then Newxz host n st else Inr (ret, st))"

fun put_elems :: "(sv \<Rightarrow> byte list) \<Rightarrow> sv list \<Rightarrow> u64 \<Rightarrow> store \<Rightarrow> store" where
  "put_elems f [] a st = st"
| "put_elems f (x # xs) a st = put_elems f xs (a + of_nat (length (f x))) (put a (f x) st)"

fun put_words :: "u64 list \<Rightarrow> u64 \<Rightarrow> store \<Rightarrow> store" where
  "put_words [] a st = st"
| "put_words (x # xs) a st = put_words xs (a + 8) (put a (le_bytes 8 x) st)"

text \<open>Strings in memory end at a zero; memory without one is read for ever (\<open>None\<close>).\<close>

partial_function (option) c_string :: "u64 heap \<Rightarrow> u64 \<Rightarrow> byte list option" where
  "c_string m a = (if m a = 0 then Some [] else Option.bind (c_string m (a + 1)) (\<lambda>bs. Some (m a # bs)))"

partial_function (option) c_wstring :: "u64 heap \<Rightarrow> u64 \<Rightarrow> u32 list option" where
  "c_wstring m a =
     (if (le_word (heap_read m a 4) :: u32) = 0 then Some []
      else Option.bind (c_wstring m (a + 4)) (\<lambda>ws. Some (le_word (heap_read m a 4) # ws)))"

text \<open>An array of pointers up to and with the first that is \<open>NULL\<close>.\<close>

partial_function (option) c_pointers :: "u64 heap \<Rightarrow> u64 \<Rightarrow> u64 list option" where
  "c_pointers m a =
     (if (le_word (heap_read m a 8) :: u64) = 0 then Some [0]
      else Option.bind (c_pointers m (a + 8)) (\<lambda>ps. Some (le_word (heap_read m a 8) # ps)))"

subsection \<open>\<open>sv2ptr\<close>\<close>

text \<open>The cases of the \<open>switch\<close> in order. The bytes that one value is converted to, and the cases for numbers,
  which differ in them and in the flag that is asked for a single value.\<close>

definition num_bytes :: "host \<Rightarrow> char \<Rightarrow> sv \<Rightarrow> byte list" where
  "num_bytes host n v =
     (if n = SHORT_FLAG then le_bytes 2 (SvIV host v)
      else if n = USHORT_FLAG then le_bytes 2 (SvUV host v)
      else if n = INT_FLAG then le_bytes 4 (SvIV host v)
      else if n = UINT_FLAG then le_bytes 4 (SvUV host v)
      else if n \<in> {LONG_FLAG, ULONG_FLAG, LONGLONG_FLAG, ULONGLONG_FLAG} then le_bytes 8 (SvIV host v)
      else if n = FLOAT_FLAG then le_bytes 4 (float_of_double (SvNV host v))
      else le_bytes 8 (SvNV host v))"

definition num_size :: "char \<Rightarrow> nat" where
  "num_size n =
     (if n \<in> {SHORT_FLAG, USHORT_FLAG} then 2 else if n \<in> {INT_FLAG, UINT_FLAG, FLOAT_FLAG} then 4 else 8)"

definition num_flags :: "char list" where
  "num_flags = [SHORT_FLAG, USHORT_FLAG, INT_FLAG, UINT_FLAG, LONG_FLAG, ULONG_FLAG, LONGLONG_FLAG,
     ULONGLONG_FLAG, FLOAT_FLAG, DOUBLE_FLAG]"

definition num_ok :: "char \<Rightarrow> sv \<Rightarrow> bool" where
  "num_ok n v = (if n \<in> {FLOAT_FLAG, DOUBLE_FLAG} then SvNOK v \<or> SvIOK v else SvIOK v)"

definition sv2ptr_num :: "host \<Rightarrow> char \<Rightarrow> sv \<Rightarrow> u64 \<Rightarrow> store \<Rightarrow> affix_error + u64 \<times> store" where
  "sv2ptr_num host n data ret st =
     (if \<not> SvOK data then Inr (ret, st)
      else if num_ok n data then
        (case ensure host ret (num_size n) st of
           Inl e \<Rightarrow> Inl e
         | Inr (ret, st) \<Rightarrow> Inr (ret, put ret (num_bytes host n data) st))
      else
        (case av_elems data of
           None \<Rightarrow> Inl (Croak ''Data type mismatch'')
         | Some xs \<Rightarrow>
             (case ensure host ret (length xs * num_size n) st of
                Inl e \<Rightarrow> Inl e
              | Inr (ret, st) \<Rightarrow> Inr (ret, put_elems (num_bytes host n) xs ret st))))"

definition sv2ptr_void :: "host \<Rightarrow> sv \<Rightarrow> u64 \<Rightarrow> store \<Rightarrow> affix_error + u64 \<times> store" where
  "sv2ptr_void host data ret st =
     (if \<not> SvOK data then Inr (ret, st)
      else
        (case data of
           SvPtr a t c p \<Rightarrow> Inr (case a of None \<Rightarrow> ret | Some x \<Rightarrow> x, st)
         | _ \<Rightarrow>
             (let bs = SvPVbyte host data in
              case ensure host ret (length bs) st of
                Inl e \<Rightarrow> Inl e
              | Inr (ret, st) \<Rightarrow> Inr (ret, put ret bs st))))"

definition bool_bytes :: "host \<Rightarrow> sv \<Rightarrow> byte list" where
  "bool_bytes host v = [if SvTRUE host v then 1 else 0]"

definition sv2ptr_bool :: "host \<Rightarrow> sv \<Rightarrow> u64 \<Rightarrow> store \<Rightarrow> affix_error + u64 \<times> store" where
  "sv2ptr_bool host data ret st =
     (case av_elems data of
        Some xs \<Rightarrow>
          (case ensure host ret (length xs) st of
             Inl e \<Rightarrow> Inl e
           | Inr (ret, st) \<Rightarrow> Inr (ret, put_elems (bool_bytes host) xs ret st))
      | None \<Rightarrow>
          (case ensure host ret 1 st of
             Inl e \<Rightarrow> Inl e
           | Inr (ret, st) \<Rightarrow> Inr (ret, put ret (bool_bytes host data) st)))"

text \<open>\<open>CHAR_FLAG\<close> and \<open>SCHAR_FLAG\<close> (an array of \<open>len\<close> \<open>int\<close>s is allocated for \<open>len\<close> characters) and
  \<open>UCHAR_FLAG\<close> (\<open>len + 1\<close>). The string is copied without its NUL; in new memory a zero follows.\<close>

definition sv2ptr_char :: "host \<Rightarrow> (sv \<Rightarrow> u64) \<Rightarrow> nat \<Rightarrow> sv \<Rightarrow> u64 \<Rightarrow> store \<Rightarrow> affix_error + u64 \<times> store" where
  "sv2ptr_char host conv extra data ret st =
     (if \<not> SvOK data then Inr (ret, st)
      else
        (case av_elems data of
           Some xs \<Rightarrow>
             (case ensure host ret ((length xs + extra) * 4) st of
                Inl e \<Rightarrow> Inl e
              | Inr (ret, st) \<Rightarrow> Inr (ret, put_elems (\<lambda>v. [ucast (conv v)]) xs ret st))
         | None \<Rightarrow>
             (let bs = SvPV host data in
              case ensure host ret (length bs + 1) st of
                Inl e \<Rightarrow> Inl e
              | Inr (ret, st) \<Rightarrow> Inr (ret, put ret bs st))))"

text \<open>
  \<open>utf2wchar\<close>: the buffer has room for \<open>len + 1\<close> wide characters and is filled only for a scalar that is
  flagged as UTF-8 (\<open>None\<close>: it is not filled); \<open>mbstowcs\<close> is not told its size.
\<close>

definition utf2wchar :: "host \<Rightarrow> sv \<Rightarrow> nat \<Rightarrow> affix_error + u32 list option" where
  "utf2wchar host src len =
     (if SvUTF8 src then
        (let ws = h_mbstowcs host (SvPV host src) in
         if length ws + 1 \<le> len + 1 then Inr (Some ws) else Inl (Crash ''heap overflow in mbstowcs''))
      else Inr None)"

text \<open>\<open>WCHAR_FLAG\<close>, whose calls of \<open>DumpHex(ret, 16)\<close> read from \<open>ret\<close>.\<close>

definition sv2ptr_wchar :: "host \<Rightarrow> sv \<Rightarrow> u64 \<Rightarrow> store \<Rightarrow> affix_error + u64 \<times> store" where
  "sv2ptr_wchar host data ret st =
     (case utf2wchar host data (length (SvPV host data) + 1) of
        Inl e \<Rightarrow> Inl e
      | Inr None \<Rightarrow> Inl (Crash ''uninitialised wide string'')
      | Inr (Some ws) \<Rightarrow>
          (if ret = 0 then Inl (Crash ''DumpHex of NULL'')
           else Inr (ret, put ret (concat (map (le_bytes 4) (takeWhile (\<lambda>w. w \<noteq> 0) ws))) st)))"

text \<open>\<open>CODEREF_FLAG\<close>: the second allocation is overwritten by the callback.\<close>

definition sv2ptr_coderef :: "host \<Rightarrow> atype \<Rightarrow> sv \<Rightarrow> store \<Rightarrow> affix_error + u64 \<times> store" where
  "sv2ptr_coderef host t data st =
     (if SvOK data then
        (case (at_slot12 t, at_sig t, at_subtype t) of
           (CodeArgs args, Some s, Subtype r) \<Rightarrow>
             map_sum id (\<lambda>(_, st). (h_callback host s r data, st)) (Newxz host 8 st)
         | _ \<Rightarrow> Inl (Crash ''argument types of a CodeRef''))
      else Newxz host 8 st)"

text \<open>The cases that do not call \<open>sv2ptr\<close> again.\<close>

definition sv2ptr_flat :: "host \<Rightarrow> atype \<Rightarrow> sv \<Rightarrow> u64 \<Rightarrow> store \<Rightarrow> affix_error + u64 \<times> store" where
  "sv2ptr_flat host t data ret st =
     (let n = at_numeric t in
      if n = VOID_FLAG then sv2ptr_void host data ret st
      else if n = BOOL_FLAG then sv2ptr_bool host data ret st
      else if n \<in> {CHAR_FLAG, SCHAR_FLAG} then sv2ptr_char host (SvIV host) 0 data ret st
      else if n = UCHAR_FLAG then sv2ptr_char host (SvUV host) 1 data ret st
      else if n \<in> set num_flags then sv2ptr_num host n data ret st
      else if n = SV_FLAG then Inr (sv_addr host data, st)
      else if n = CODEREF_FLAG then sv2ptr_coderef host t data st
      else if n = WCHAR_FLAG then sv2ptr_wchar host data ret st
      else Inl (Croak ''Attempt to marshal unknown/unhandled type in sv2ptr''))"

text \<open>The loop over an array of pointers; \<open>f\<close> makes the pointer of an element.\<close>

fun put_pointers :: "(sv \<Rightarrow> store \<Rightarrow> affix_error + u64 \<times> store) \<Rightarrow> sv list \<Rightarrow> u64 \<Rightarrow> store \<Rightarrow> affix_error + store" where
  "put_pointers f [] a st = Inr st"
| "put_pointers f (x # xs) a st =
     (case f x st of
        Inl e \<Rightarrow> Inl e
      | Inr (p, st) \<Rightarrow> put_pointers f xs (a + 8) (put a (le_bytes 8 p) st))"

lemma put_pointers_cong [fundef_cong]:
  "xs = ys \<Longrightarrow> a = b \<Longrightarrow> st = st' \<Longrightarrow> (\<And>x s. x \<in> set ys \<Longrightarrow> f x s = g x s) \<Longrightarrow>
     put_pointers f xs a st = put_pointers g ys b st'"
proof -
  assume "xs = ys" "a = b" "st = st'" and "\<And>x s. x \<in> set ys \<Longrightarrow> f x s = g x s"
  then have "put_pointers f ys b st' = put_pointers g ys b st'"
    by (induction ys arbitrary: b st' xs a st) (auto split: sum.split)
  with \<open>xs = ys\<close> \<open>a = b\<close> \<open>st = st'\<close> show ?thesis by simp
qed

fun as_hash :: "sv \<Rightarrow> (string \<times> sv) list option" where
  "as_hash (SvHash h) = Some h"
| "as_hash _ = None"

text \<open>An \<open>Affix::Pointer\<close> gives its address, and none when that is undefined.\<close>

fun pointer_object :: "sv \<Rightarrow> u64 option option" where
  "pointer_object (SvPtr a _ _ _) = Some a"
| "pointer_object _ = None"

function (sequential) sv2ptr :: "host \<Rightarrow> atype \<Rightarrow> sv \<Rightarrow> u64 \<Rightarrow> store \<Rightarrow> affix_error + u64 \<times> store"
and sv2ptr_pointer :: "host \<Rightarrow> at_sub \<Rightarrow> sv \<Rightarrow> u64 \<Rightarrow> store \<Rightarrow> affix_error + u64 \<times> store"
and sv2ptr_struct :: "host \<Rightarrow> at_sub \<Rightarrow> (string \<times> sv) list \<Rightarrow> u64 \<Rightarrow> store \<Rightarrow> affix_error + store"
and sv2ptr_union :: "host \<Rightarrow> at_sub \<Rightarrow> (string \<times> sv) list \<Rightarrow> u64 \<Rightarrow> bool \<Rightarrow> store \<Rightarrow> affix_error + bool \<times> store"
where
  "sv2ptr host (AType n sz al off sub len ag slot12 sig) data ret st =
     (if data = SvUndef True then Inr (0, st)
      else if n = POINTER_FLAG then sv2ptr_pointer host sub data ret st
      else if n = STRUCT_FLAG then
        (case as_hash data of
           None \<Rightarrow> Inr (0, st)
         | Some h \<Rightarrow>
             (case ensure host ret sz st of
                Inl e \<Rightarrow> Inl e
              | Inr (ret, st) \<Rightarrow> map_sum id (Pair ret) (sv2ptr_struct host sub h ret st)))
      else if n = UNION_FLAG then
        (case as_hash data of
           None \<Rightarrow> Inr (0, st)
         | Some h \<Rightarrow>
             (case ensure host ret sz st of
                Inl e \<Rightarrow> Inl e
              | Inr (ret, st) \<Rightarrow>
                  (case sv2ptr_union host sub h ret False st of
                     Inl e \<Rightarrow> Inl e
                   | Inr (okay, st) \<Rightarrow>
                       if okay then Inr (ret, st)
                       else Inl (Croak ''Malformed Union[...] field; missing defined field''))))
      else sv2ptr_flat host (AType n sz al off sub len ag slot12 sig) data ret st)"
| "sv2ptr_pointer host (Subtype t) data ret st =
     (if is_Pointer t then
        (if \<not> SvOK data then Inr (ret, st)
         else
           (let xs = (case av_elems data of None \<Rightarrow> [data] | Some xs \<Rightarrow> xs) in
            case ensure host ret (length xs * 8) st of
              Inl e \<Rightarrow> Inl e
            | Inr (ret, st) \<Rightarrow>
                map_sum id (Pair ret) (put_pointers (\<lambda>v. sv2ptr host t v 0) xs ret st)))
      else
        (case pointer_object data of
           Some a \<Rightarrow> Inr (case a of None \<Rightarrow> ret | Some x \<Rightarrow> x, st)
         | None \<Rightarrow> sv2ptr host t data 0 st))"
| "sv2ptr_pointer host _ data ret st = Inl (Croak ''subtype is not of type Affix::Type'')"
| "sv2ptr_struct host (Fields []) h ret st = Inr st"
| "sv2ptr_struct host (Fields (f # fs)) h ret st =
     (case at_slot12 f of
        FieldName name \<Rightarrow>
          (case map_of h name of
             None \<Rightarrow> Inl (Croak ''Malformed Struct[...]; missing field'')
           | Some v \<Rightarrow>
               (case sv2ptr host f v (if is_Pointer f then 0 else ret + of_nat (AXT_TYPE_OFFSET f)) st of
                  Inl e \<Rightarrow> Inl e
                | Inr (p, st) \<Rightarrow>
                    sv2ptr_struct host (Fields fs) h ret
                      (if is_Pointer f then put (ret + of_nat (AXT_TYPE_OFFSET f)) (le_bytes 8 p) st else st)))
      | _ \<Rightarrow> Inl (Croak ''Malformed Struct[...] field; missing field name''))"
| "sv2ptr_struct host _ h ret st = Inl (Crash ''not an array of fields'')"
| "sv2ptr_union host (Fields []) h ret okay st = Inr (okay, st)"
| "sv2ptr_union host (Fields (f # fs)) h ret okay st =
     (case at_slot12 f of
        FieldName name \<Rightarrow>
          (case map_of h name of
             None \<Rightarrow> sv2ptr_union host (Fields fs) h ret okay st
           | Some v \<Rightarrow>
               (case sv2ptr host f v (if is_Pointer f then 0 else ret + of_nat (AXT_TYPE_OFFSET f)) st of
                  Inl e \<Rightarrow> Inl e
                | Inr (p, st) \<Rightarrow>
                    sv2ptr_union host (Fields fs) h ret True
                      (if is_Pointer f then put (ret + of_nat (AXT_TYPE_OFFSET f)) (le_bytes 8 p) st else st)))
      | _ \<Rightarrow> Inl (Croak ''Malformed Struct[...] field; missing field name''))"
| "sv2ptr_union host _ h ret okay st = Inl (Crash ''not an array of fields'')"

  by pat_completeness auto

termination
  by (relation "measure (\<lambda>x. case x of
        Inl (Inl (_, t, _)) \<Rightarrow> size t | Inl (Inr (_, s, _)) \<Rightarrow> size s
      | Inr (Inl (_, s, _)) \<Rightarrow> size s | Inr (Inr (_, s, _)) \<Rightarrow> size s)") auto


subsection \<open>\<open>ptr2sv\<close>\<close>

definition ptr2obj :: "atype \<Rightarrow> u64 \<Rightarrow> sv" where
  "ptr2obj t ptr = SvPtr (if ptr = 0 then None else Some ptr) t 1 0"

abbreviation load :: "u64 heap \<Rightarrow> u64 \<Rightarrow> nat \<Rightarrow> 'a::len word" where
  "load h a n \<equiv> le_word (heap_read h a n)"

text \<open>The cases for numbers. A \<open>short\<close>, \<open>int\<close> is extended as \<open>newSViv\<close> and \<open>newSVuv\<close> get it.\<close>

definition ptr2sv_num :: "u64 heap \<Rightarrow> char \<Rightarrow> u64 \<Rightarrow> sv" where
  "ptr2sv_num h n ptr =
     (if n = SHORT_FLAG then newSViv (scast (load h ptr 2 :: u16))
      else if n = USHORT_FLAG then newSVuv (ucast (load h ptr 2 :: u16))
      else if n = INT_FLAG then newSViv (scast (load h ptr 4 :: u32))
      else if n = UINT_FLAG then newSViv (ucast (load h ptr 4 :: u32))
      else if n = FLOAT_FLAG then SvNum (double_of_float (load h ptr 4))
      else if n = DOUBLE_FLAG then SvNum (load h ptr 8)
      else newSViv (load h ptr 8))"

definition ptr2sv_string :: "host \<Rightarrow> u64 heap \<Rightarrow> u64 \<Rightarrow> affix_error + sv" where
  "ptr2sv_string host h ptr =
     (case c_string h ptr of
        None \<Rightarrow> Inl (Crash ''string without end'')
      | Some bs \<Rightarrow> Inr (SvStr bs (is_utf8_string host bs)))"

text \<open>\<open>wchar2utf\<close>: ASCII as it is, other characters as Perl writes them. The result is decoded: flagged as UTF-8
  when it has a byte above 127. For the empty string \<open>ret\<close> is never assigned.\<close>

definition wchar2utf :: "host \<Rightarrow> u32 list \<Rightarrow> sv" where
  "wchar2utf host ws =
     (let bs = takeWhile (\<lambda>b. b \<noteq> 0)
        (concat (map (\<lambda>w. if w < 128 then [ucast w] else uvchr_to_utf8 host (scast w)) ws)) in
      SvStr bs (\<exists>b \<in> set bs. 128 \<le> b))"

definition ptr2sv_wstring :: "host \<Rightarrow> u64 heap \<Rightarrow> u64 \<Rightarrow> affix_error + sv" where
  "ptr2sv_wstring host h ptr =
     (case c_wstring h ptr of
        None \<Rightarrow> Inl (Crash ''string without end'')
      | Some ws \<Rightarrow> if ws = [] then Inl (Crash ''result not assigned'') else Inr (wchar2utf host ws))"

text \<open>A sub that calls the code at \<open>ptr\<close>.\<close>

definition ptr2sv_coderef :: "atype \<Rightarrow> u64 \<Rightarrow> affix_error + sv" where
  "ptr2sv_coderef t ptr =
     (case (at_slot12 t, at_subtype t) of
        (CodeArgs args, Subtype r) \<Rightarrow> Inr (SvXSub ptr (map at_numeric args) r)
      | _ \<Rightarrow> Inl (Crash ''argument types of a CodeRef''))"

definition ptr2sv_flat :: "host \<Rightarrow> u64 heap \<Rightarrow> atype \<Rightarrow> u64 \<Rightarrow> affix_error + sv" where
  "ptr2sv_flat host h t ptr =
     (let n = at_numeric t in
      if n = VOID_FLAG then Inr (ptr2obj t ptr)
      else if n = BOOL_FLAG then Inr (SvBool (h ptr \<noteq> 0))
      else if n \<in> {CHAR_FLAG, SCHAR_FLAG, UCHAR_FLAG} then ptr2sv_string host h ptr
      else if n \<in> set num_flags then Inr (ptr2sv_num h n ptr)
      else if n = SV_FLAG then Inr (sv_at host ptr)
      else if n = WCHAR_FLAG then ptr2sv_wstring host h ptr
      else if n = CODEREF_FLAG then ptr2sv_coderef t ptr
      else Inl (Croak ''Attempt to marshal unknown/unhandled type in ptr2sv''))"

text \<open>The loops that push one element after the other; \<open>hv_store_ent\<close> replaces the value of a key it has.\<close>

fun collect :: "('a \<Rightarrow> affix_error + 'b) \<Rightarrow> 'a list \<Rightarrow> affix_error + 'b list" where
  "collect f [] = Inr []"
| "collect f (x # xs) =
     (case f x of Inl e \<Rightarrow> Inl e | Inr y \<Rightarrow> (case collect f xs of Inl e \<Rightarrow> Inl e | Inr ys \<Rightarrow> Inr (y # ys)))"

lemma collect_cong [fundef_cong]:
  "xs = ys \<Longrightarrow> (\<And>x. x \<in> set ys \<Longrightarrow> f x = g x) \<Longrightarrow> collect f xs = collect g ys"
  by (induction ys arbitrary: xs) (auto split: sum.split)

definition hv_store_all :: "(string \<times> sv) list \<Rightarrow> (string \<times> sv) list" where
  "hv_store_all kvs = foldl (\<lambda>h (k, v). AList.update k v h) [] kvs"

text \<open>The members of a union are bound to their addresses.\<close>

definition ptr2sv_union :: "u64 heap \<Rightarrow> at_sub \<Rightarrow> u64 \<Rightarrow> affix_error + sv" where
  "ptr2sv_union h sub ptr =
     (case sub of
        Fields fs \<Rightarrow>
          map_sum id (\<lambda>kvs. SvHash (hv_store_all kvs))
            (collect (\<lambda>f. let p = ptr + of_nat (AXT_TYPE_OFFSET f) in
                case at_slot12 f of
                  FieldName name \<Rightarrow> Inr (name, SvPin f (if is_Pointer f then load h p 8 else p))
                | _ \<Rightarrow> Inl (Crash ''name of a field'')) fs)
      | _ \<Rightarrow> Inl (Crash ''not an array of fields''))"

lemma size_at_subtype [termination_simp]: "size (at_subtype f) < Suc (Suc (size f + k))"
  by (cases f) simp

function (sequential) ptr2sv :: "host \<Rightarrow> u64 heap \<Rightarrow> atype \<Rightarrow> u64 \<Rightarrow> affix_error + sv"
and ptr2sv_pointer :: "host \<Rightarrow> u64 heap \<Rightarrow> at_sub \<Rightarrow> nat \<Rightarrow> u64 \<Rightarrow> affix_error + sv"
and ptr2sv_struct :: "host \<Rightarrow> u64 heap \<Rightarrow> at_sub \<Rightarrow> u64 \<Rightarrow> affix_error + (string \<times> sv) list"
and ptr2sv_member :: "host \<Rightarrow> u64 heap \<Rightarrow> at_sub \<Rightarrow> u64 \<Rightarrow> affix_error + sv"
where
  "ptr2sv host h (AType n sz al off sub len ag slot12 sig) ptr =
     (if ptr = 0 then Inr (SvUndef False)
      else if n = POINTER_FLAG then ptr2sv_pointer host h sub len ptr
      else if n = STRUCT_FLAG then map_sum id (\<lambda>kvs. SvHash (hv_store_all kvs)) (ptr2sv_struct host h sub ptr)
      else if n = UNION_FLAG then ptr2sv_union h sub ptr
      else ptr2sv_flat host h (AType n sz al off sub len ag slot12 sig) ptr)"
| "ptr2sv_pointer host h (Subtype t) len ptr =
     (if at_numeric t = POINTER_FLAG then
        (case c_pointers h ptr of
           None \<Rightarrow> Inl (Crash ''array of pointers without end'')
         | Some ps \<Rightarrow> map_sum id SvArray (collect (\<lambda>p. ptr2sv host h t p) ps))
      else if at_numeric t \<in> {CHAR_FLAG, UCHAR_FLAG, SCHAR_FLAG} then ptr2sv host h t ptr
      else if at_numeric t = WCHAR_FLAG then ptr2sv_wstring host h ptr
      else if len = 1 then ptr2sv host h t ptr
      else map_sum id SvArray (collect (\<lambda>x. ptr2sv host h t (ptr + of_nat (x * at_sizeof t))) [0..<len]))"
| "ptr2sv_pointer host h _ len ptr = Inl (Crash ''subtype of a Pointer'')"
| "ptr2sv_struct host h (Fields []) ptr = Inr []"
| "ptr2sv_struct host h (Fields (f # fs)) ptr =
     (let p = ptr + of_nat (AXT_TYPE_OFFSET f) in
      case (if is_Pointer f then ptr2sv_member host h (at_subtype f) (load h p 8)
            else if at_numeric f \<in> {CHAR_FLAG, SCHAR_FLAG, UCHAR_FLAG} then Inr (SvStr [h p] (is_utf8_string host [h p]))
            else ptr2sv host h f p) of
        Inl e \<Rightarrow> Inl e
      | Inr v \<Rightarrow>
          (case at_slot12 f of
             FieldName name \<Rightarrow> map_sum id (Cons (name, v)) (ptr2sv_struct host h (Fields fs) ptr)
           | _ \<Rightarrow> Inl (Crash ''name of a field'')))"
| "ptr2sv_struct host h _ ptr = Inl (Crash ''not an array of fields'')"
| "ptr2sv_member host h (Subtype t) p =
     (if p = 0 then Inr (SvUndef False)
      else if at_numeric t = CHAR_FLAG then ptr2sv host h t p
      else Inr (SvUndef False))"
| "ptr2sv_member host h _ p = (if p = 0 then Inr (SvUndef False) else Inl (Crash ''subtype of a Pointer''))"
  by pat_completeness auto

termination
  by (relation "measure (\<lambda>x. case x of
        Inl (Inl (_, _, t, _)) \<Rightarrow> size t | Inl (Inr (_, _, s, _)) \<Rightarrow> size s
      | Inr (Inl (_, _, s, _)) \<Rightarrow> size s | Inr (Inr (_, _, s, _)) \<Rightarrow> size s)") (auto simp: size_at_subtype)

subsection \<open>Variables bound to an address\<close>

text \<open>
  \<open>get_pin\<close> and \<open>set_pin\<close> of \<open>lib/Affix/pin.cxx\<close>. \<open>set_pin\<close> marshals into a new block, copies the
  size of the type from it and frees it; reading from the address 0 (\<open>sv2ptr\<close> made no block) is a crash, and so is
  freeing what the allocator does not know.
\<close>

definition get_pin :: "host \<Rightarrow> store \<Rightarrow> atype \<Rightarrow> u64 \<Rightarrow> affix_error + sv" where
  "get_pin host st t ptr = ptr2sv host (st_mem st) t ptr"

definition safefree :: "u64 \<Rightarrow> store \<Rightarrow> affix_error + store" where
  "safefree a st =
     (if a = 0 then Inr st
      else if a \<in> fst ` set (st_blocks st) then Inr (st\<lparr>st_blocks := filter (\<lambda>b. fst b \<noteq> a) (st_blocks st)\<rparr>)
      else Inl (Crash ''free of an unknown block''))"

definition set_pin :: "host \<Rightarrow> store \<Rightarrow> atype \<Rightarrow> u64 \<Rightarrow> sv \<Rightarrow> affix_error + store" where
  "set_pin host st t ptr v =
     (if SvOK v then
        (case sv2ptr host t v 0 st of
           Inl e \<Rightarrow> Inl e
         | Inr (block, st) \<Rightarrow>
             if block = 0 then Inl (Crash ''copy from NULL'')
             else safefree block (put ptr (heap_read (st_mem st) block (at_sizeof t)) st))
      else Inr st)"

end
