(* ===== verification/Affix_Strings.thy ===== *)
theory Affix_Strings
  imports Affix_Marshal
begin

section \<open>Affix: reading what has no length\<close>

text \<open>
  Strings, wide strings and arrays of pointers carry no length: \<open>ptr2sv\<close> reads until it finds a zero. These loops
  of \<open>lib/Affix/marshal.cxx\<close> end exactly when there is one, and then give what lies before it.
\<close>

text \<open>What the three loops have in common: reading from \<open>a\<close> in steps of \<open>k\<close>, with the result \<open>r m a n\<close> when
  the first stop is \<open>n\<close> steps away.\<close>

lemma scan_result:
  fixes scan :: "'a::ring_1 \<Rightarrow> 'b option"
  assumes step: "\<And>a. scan a = (if stop a then Some (r a 0) else Option.bind (scan (a + k)) (\<lambda>y. Some (f a y)))"
    and sound: "\<And>a y. scan a = Some y \<Longrightarrow> \<exists>n. stop (a + of_nat n * k)"
    and r: "\<And>a n. r a (Suc n) = f a (r (a + k) n)"
  shows "scan a = (if \<exists>n. stop (a + of_nat n * k) then Some (r a (LEAST n. stop (a + of_nat n * k))) else None)"
proof (cases "\<exists>n. stop (a + of_nat n * k)")
  case True
  have "scan a = Some (r a n)" if "stop (a + of_nat n * k)" "\<And>j. j < n \<Longrightarrow> \<not> stop (a + of_nat j * k)" for n a
    using that
  proof (induction n arbitrary: a)
    case 0
    then show ?case by (subst step) simp
  next
    case (Suc n)
    have "\<not> stop a" using Suc.prems(2) [of 0] by simp
    moreover have "scan (a + k) = Some (r (a + k) n)"
    proof (rule Suc.IH)
      show "stop (a + k + of_nat n * k)" using Suc.prems(1) by (simp add: algebra_simps)
      show "\<not> stop (a + k + of_nat j * k)" if "j < n" for j
        using Suc.prems(2) [of "Suc j"] that by (simp add: algebra_simps)
    qed
    ultimately show ?case by (subst step) (simp add: r)
  qed
  with True show ?thesis using LeastI_ex [OF True] not_less_Least by (metis (mono_tags, lifting))
next
  case False
  with sound [of a] show ?thesis by (cases "scan a") auto
qed

lemma c_string_stops: "c_string m a = Some bs \<Longrightarrow> \<exists>n. m (a + of_nat n * 1) = 0"
proof (rule c_string.raw_induct [where P = "\<lambda>m a _. \<exists>n. m (a + of_nat n * 1) = 0"], goal_cases)
  case (1 self m a bs)
  show ?case
  proof (cases "m a = 0")
    case True
    then show ?thesis by (intro exI [of _ 0]) simp
  next
    case False
    with 1(3) obtain bs' where "self m (a + 1) = Some bs'" by (auto simp: Option.bind_eq_Some_conv)
    from 1(2) [OF this] obtain n where "m (a + 1 + of_nat n * 1) = 0" by blast
    then show ?thesis by (intro exI [of _ "Suc n"]) (simp add: algebra_simps)
  qed
qed

lemma c_wstring_stops: "c_wstring m a = Some ws \<Longrightarrow> \<exists>n. (load m (a + of_nat n * 4) 4 :: u32) = 0"
proof (rule c_wstring.raw_induct [where P = "\<lambda>m a _. \<exists>n. (load m (a + of_nat n * 4) 4 :: u32) = 0"], goal_cases)
  case (1 self m a ws)
  show ?case
  proof (cases "(load m a 4 :: u32) = 0")
    case True
    then show ?thesis by (intro exI [of _ 0]) simp
  next
    case False
    with 1(3) obtain ws' where "self m (a + 4) = Some ws'" by (auto simp: Option.bind_eq_Some_conv)
    from 1(2) [OF this] obtain n where "(load m (a + 4 + of_nat n * 4) 4 :: u32) = 0" by blast
    then show ?thesis by (intro exI [of _ "Suc n"]) (simp add: algebra_simps)
  qed
qed

lemma c_pointers_stops: "c_pointers m a = Some ps \<Longrightarrow> \<exists>n. (load m (a + of_nat n * 8) 8 :: u64) = 0"
proof (rule c_pointers.raw_induct [where P = "\<lambda>m a _. \<exists>n. (load m (a + of_nat n * 8) 8 :: u64) = 0"], goal_cases)
  case (1 self m a ps)
  show ?case
  proof (cases "(load m a 8 :: u64) = 0")
    case True
    then show ?thesis by (intro exI [of _ 0]) simp
  next
    case False
    with 1(3) obtain ps' where "self m (a + 8) = Some ps'" by (auto simp: Option.bind_eq_Some_conv)
    from 1(2) [OF this] obtain n where "(load m (a + 8 + of_nat n * 8) 8 :: u64) = 0" by blast
    then show ?thesis by (intro exI [of _ "Suc n"]) (simp add: algebra_simps)
  qed
qed

text \<open>The elements of size \<open>k\<close> from \<open>a\<close> on.\<close>

definition elements :: "nat \<Rightarrow> u64 heap \<Rightarrow> u64 \<Rightarrow> nat \<Rightarrow> 'a::len word list" where
  "elements k m a n = map (\<lambda>i. load m (a + of_nat i * of_nat k) k) [0..<n]"

lemma elements_Suc: "elements k m a (Suc n) = load m a k # elements k m (a + of_nat k) n"
  unfolding elements_def upt_conv_Cons [OF zero_less_Suc] map_Suc_upt [symmetric]
  by (simp add: algebra_simps del: upt_Suc)

lemma heap_read_Cons: "heap_read m a (Suc n) = m a # heap_read m (a + 1) n"
  unfolding heap_read_def upt_conv_Cons [OF zero_less_Suc] map_Suc_upt [symmetric]
  by (simp add: algebra_simps del: upt_Suc)

lemma c_string_scan:
  "c_string m a = (if \<exists>n. m (a + of_nat n * 1) = 0 then Some (heap_read m a (LEAST n. m (a + of_nat n * 1) = 0)) else None)"
proof (rule scan_result [where stop = "\<lambda>a. m a = 0" and f = "\<lambda>a y. m a # y"])
  show "c_string m a = (if m a = 0 then Some (heap_read m a 0) else Option.bind (c_string m (a + 1)) (\<lambda>y. Some (m a # y)))" for a
    by (subst c_string.simps) simp
qed (use c_string_stops heap_read_Cons [of m] in simp_all)

lemma c_wstring_scan:
  "c_wstring m a =
     (if \<exists>n. (load m (a + of_nat n * 4) 4 :: u32) = 0
      then Some (elements 4 m a (LEAST n. (load m (a + of_nat n * 4) 4 :: u32) = 0)) else None)"
proof (rule scan_result [where stop = "\<lambda>a. (load m a 4 :: u32) = 0" and f = "\<lambda>a y. load m a 4 # y"])
  show "c_wstring m a = (if (load m a 4 :: u32) = 0 then Some (elements 4 m a 0)
      else Option.bind (c_wstring m (a + 4)) (\<lambda>y. Some (load m a 4 # y)))" for a
    by (subst c_wstring.simps) (simp add: elements_def)
qed (use c_wstring_stops elements_Suc [of 4 m] in simp_all)

lemma c_pointers_scan:
  "c_pointers m a =
     (if \<exists>n. (load m (a + of_nat n * 8) 8 :: u64) = 0
      then Some (elements 8 m a (LEAST n. (load m (a + of_nat n * 8) 8 :: u64) = 0) @ [0]) else None)"
proof (rule scan_result [where stop = "\<lambda>a. (load m a 8 :: u64) = 0" and f = "\<lambda>a y. load m a 8 # y"
    and r = "\<lambda>a n. elements 8 m a n @ [0]"])
  show "c_pointers m a = (if (load m a 8 :: u64) = 0 then Some (elements 8 m a 0 @ [0])
      else Option.bind (c_pointers m (a + 8)) (\<lambda>y. Some (load m a 8 # y)))" for a
    by (subst c_pointers.simps) (simp add: elements_def)
qed (use c_pointers_stops elements_Suc [of 8 m] in simp_all)

text \<open>C24: Reading a string, a wide string or an array of pointers ends if and only if memory has a zero of the
  size of an element at some element behind the start; the result is made of the elements before the first of them, for an
  array of pointers with the zero itself, for a wide string only if there are any.\<close>

theorem unsized_reads_end:
  "ptr2sv_string host m a =
     (if \<exists>n. m (a + of_nat n) = 0
      then (let bs = heap_read m a (LEAST n. m (a + of_nat n) = 0) in Inr (SvStr bs (is_utf8_string host bs)))
      else Inl (Crash ''string without end''))
   \<and> ptr2sv_wstring host m a =
     (if \<exists>n. (load m (a + of_nat n * 4) 4 :: u32) = 0
      then (let n = LEAST n. (load m (a + of_nat n * 4) 4 :: u32) = 0 in
            if n = 0 then Inl (Crash ''result not assigned'') else Inr (wchar2utf host (elements 4 m a n)))
      else Inl (Crash ''string without end''))
   \<and> c_pointers m a =
     (if \<exists>n. (load m (a + of_nat n * 8) 8 :: u64) = 0
      then Some (elements 8 m a (LEAST n. (load m (a + of_nat n * 8) 8 :: u64) = 0) @ [0]) else None)"
proof (intro conjI)
  show "ptr2sv_string host m a =
     (if \<exists>n. m (a + of_nat n) = 0
      then (let bs = heap_read m a (LEAST n. m (a + of_nat n) = 0) in Inr (SvStr bs (is_utf8_string host bs)))
      else Inl (Crash ''string without end''))"
    using c_string_scan [of m a] by (simp add: ptr2sv_string_def Let_def)
  show "ptr2sv_wstring host m a =
     (if \<exists>n. (load m (a + of_nat n * 4) 4 :: u32) = 0
      then (let n = LEAST n. (load m (a + of_nat n * 4) 4 :: u32) = 0 in
            if n = 0 then Inl (Crash ''result not assigned'') else Inr (wchar2utf host (elements 4 m a n)))
      else Inl (Crash ''string without end''))"
    using c_wstring_scan [of m a] by (simp add: ptr2sv_wstring_def Let_def elements_def)
qed (rule c_pointers_scan)

end
