(* ===== verification/Affix_Roundtrip.thy ===== *)
theory Affix_Roundtrip
  imports Affix_Marshal
begin

section \<open>Affix: marshalled values read back\<close>

text \<open>
  What \<open>sv2ptr\<close> writes, \<open>ptr2sv\<close> reads back: for truth values, numbers and structs of them with characters and strings
  as members, nested to any depth, with the memory it may touch.
\<close>

subsection \<open>Regions of memory\<close>

definition region :: "u64 \<Rightarrow> nat \<Rightarrow> u64 set" where
  "region a n = {x. unat (x - a) < n}"

definition used :: "store \<Rightarrow> u64 set" where
  "used st = (\<Union>(a, n) \<in> set (st_blocks st). region a n)"

lemma region_start [simp]: "0 < n \<Longrightarrow> a \<in> region a n"
  by (simp add: region_def)

lemma region_offset: "i < n \<Longrightarrow> n < 2 ^ 64 \<Longrightarrow> a + of_nat i \<in> region a n"
  by (simp add: region_def unat_of_nat)

lemma heap_write_outside: "x \<notin> region a (length bs) \<Longrightarrow> heap_write h a bs x = h x"
  by (simp add: region_def heap_write_def)

lemma heap_read_cong:
  "n < 2 ^ 64 \<Longrightarrow> (\<And>x. x \<in> region a n \<Longrightarrow> h x = h' x) \<Longrightarrow> heap_read h (a :: u64) n = heap_read h' a n"
  by (simp add: heap_read_def region_offset)

lemma region_part:
  assumes "k + n \<le> m" and "m < 2 ^ 64"
  shows "region (a + of_nat k) n \<subseteq> region a m"
proof
  fix x assume "x \<in> region (a + of_nat k) n"
  then have x: "unat (x - a - of_nat k) < n" by (simp add: region_def diff_diff_eq)
  have "x - a = (x - a - of_nat k) + of_nat k" by simp
  then have "unat (x - a) \<le> unat (x - a - of_nat k) + unat (of_nat k :: u64)"
    by (metis unat_word_ariths(1) mod_less_eq_dividend)
  with x assms show "x \<in> region a m" by (simp add: region_def unat_of_nat)
qed

lemma unat_add_of_nat: "unat (d :: u64) + k < 2 ^ 64 \<Longrightarrow> unat (d + of_nat k) = unat d + k"
  by (simp add: unat_word_ariths(1) unat_of_nat mod_add_right_eq)

lemma region_apart:
  assumes "k + n \<le> k'" and "k' + n' \<le> m" and "m < 2 ^ 64"
  shows "region (a + of_nat k) n \<inter> region (a + of_nat k') n' = {}"
proof (rule equals0I)
  fix x assume "x \<in> region (a + of_nat k) n \<inter> region (a + of_nat k') n'"
  then have x: "unat (x - a - of_nat k) < n" "unat (x - a - of_nat k') < n'"
    by (simp_all add: region_def diff_diff_eq)
  define d where "d = x - a - of_nat k'"
  have e: "x - a - of_nat k = d + of_nat (k' - k)" using assms(1) by (simp add: d_def of_nat_diff)
  have u: "unat (d + of_nat (k' - k)) = unat d + (k' - k)"
    using x(2) assms by (intro unat_add_of_nat) (simp add: d_def)
  from x(1) have "unat d + (k' - k) < n" unfolding e u .
  with assms(1) show False by simp
qed

subsection \<open>The host\<close>

text \<open>
  What the code relies on: the coercions give back a value of their own type, and the allocator gives memory that is
  not in use and does not hold the address 0.
\<close>

definition perl_host :: "host \<Rightarrow> bool" where
  "perl_host host \<longleftrightarrow>
     (\<forall>x u. SvIV host (SvInt x u) = x \<and> SvUV host (SvInt x u) = x) \<and>
     (\<forall>x. SvNV host (SvNum x) = x) \<and> (\<forall>b. SvTRUE host (SvBool b) = b) \<and>
     (\<forall>bs u. SvPV host (SvStr bs u) = bs) \<and>
     (\<forall>blocks n a. h_malloc host blocks n = Some a \<longrightarrow>
        0 \<notin> region a n \<and> n < 2 ^ 63 \<and> region a n \<inter> (\<Union>(b, k) \<in> set blocks. region b k) = {} \<and> a \<noteq> 0)"

lemma perl_hostD [simp]:
  assumes "perl_host host"
  shows "SvIV host (SvInt x u) = x" "SvUV host (SvInt x u) = x" "SvNV host (SvNum y) = y"
    "SvTRUE host (SvBool b) = b" "SvPV host (SvStr bs v) = bs"
  using assms by (simp_all add: perl_host_def)

text \<open>A new block: zeroed, outside of what was in use.\<close>

lemma NewxzD:
  assumes "perl_host host" and "Newxz host n st = Inr (a, st')"
  shows "a \<noteq> 0" "n < 2 ^ 63" "0 \<notin> region a n" "region a n \<inter> used st = {}" "used st' = used st \<union> region a n"
    "st_mem st' = heap_write (st_mem st) a (replicate n 0)" "st_blocks st' = (a, n) # st_blocks st"
proof -
  from assms(2) have m: "h_malloc host (st_blocks st) n = Some a"
    and st': "st' = put a (replicate n 0) st\<lparr>st_blocks := (a, n) # st_blocks st\<rparr>"
    by (simp_all add: Newxz_def split: option.splits)
  from assms(1) m have "0 \<notin> region a n \<and> n < 2 ^ 63 \<and> region a n \<inter> used st = {} \<and> a \<noteq> 0"
    unfolding perl_host_def used_def by blast
  then show "a \<noteq> 0" "n < 2 ^ 63" "0 \<notin> region a n" "region a n \<inter> used st = {}" by blast+
  show "used st' = used st \<union> region a n" "st_mem st' = heap_write (st_mem st) a (replicate n 0)"
    "st_blocks st' = (a, n) # st_blocks st"
    by (auto simp: st' used_def put_def)
qed

lemma Newxz_fails: "Newxz host n st = Inl e \<Longrightarrow> e = OutOfMemory"
  by (auto simp: Newxz_def split: option.splits)

lemma used_put [simp]: "used (put a bs st) = used st"
  by (simp add: used_def put_def)

lemma st_blocks_put [simp]: "st_blocks (put a bs st) = st_blocks st"
  by (simp add: put_def)

lemma st_mem_put [simp]: "st_mem (put a bs st) = heap_write (st_mem st) a bs"
  by (simp add: put_def)

text \<open>An allocator that takes the memory behind all blocks, and a host that has it.\<close>

definition bump_malloc :: "(u64 \<times> nat) list \<Rightarrow> nat \<Rightarrow> u64 option" where
  "bump_malloc blocks n =
     (let a = foldr (\<lambda>(b, k) m. max (unat b + k) m) blocks 4096 in
      if n < 2 ^ 63 \<and> a + n < 2 ^ 64 then Some (of_nat a) else None)"

definition demo_host :: host where
  "demo_host = \<lparr>
     SvIV = (\<lambda>v. case v of SvInt x _ \<Rightarrow> x | _ \<Rightarrow> 0), SvUV = (\<lambda>v. case v of SvInt x _ \<Rightarrow> x | _ \<Rightarrow> 0),
     SvNV = (\<lambda>v. case v of SvNum x \<Rightarrow> x | _ \<Rightarrow> 0), SvTRUE = (\<lambda>v. case v of SvBool b \<Rightarrow> b | _ \<Rightarrow> SvOK v),
     SvPV = (\<lambda>v. case v of SvStr bs _ \<Rightarrow> bs | _ \<Rightarrow> []), SvPVbyte = (\<lambda>v. case v of SvStr bs _ \<Rightarrow> bs | _ \<Rightarrow> []),
     is_utf8_string = list_all (\<lambda>b. b < 128), h_mbstowcs = map ucast, uvchr_to_utf8 = (\<lambda>x. [ucast x]),
     sv_addr = (\<lambda>_. 0), sv_at = (\<lambda>_. SvUndef False), h_malloc = bump_malloc, h_callback = (\<lambda>_ _ _. 0)\<rparr>"

lemma bump_malloc_fresh:
  assumes "bump_malloc blocks n = Some a"
  shows "0 \<notin> region a n \<and> n < 2 ^ 63 \<and> region a n \<inter> (\<Union>(b, k) \<in> set blocks. region b k) = {} \<and> a \<noteq> 0"
proof -
  let ?e = "foldr (\<lambda>(b, k) m. max (unat b + k) m) blocks 4096 :: nat"
  from assms have a: "a = of_nat ?e" "n < 2 ^ 63" "?e + n < 2 ^ 64" by (auto simp: bump_malloc_def Let_def split: if_splits)
  then have u: "unat a = ?e" by (simp add: unat_of_nat)
  have ge: "4096 \<le> ?e" by (induction blocks) auto
  have above: "(b, k) \<in> set blocks \<Longrightarrow> unat b + k \<le> ?e" for b k by (induction blocks) auto
  have low: "unat a \<le> unat x" if "x \<in> region a n" for x
  proof -
    have "unat (a + of_nat (unat (x - a))) = unat a + unat (x - a)"
      using that a(3) u by (intro unat_add_of_nat) (simp add: region_def)
    then show ?thesis by simp
  qed
  have high: "unat x < unat b + k" if "x \<in> region b k" "unat b + k < 2 ^ 64" for x b k
  proof -
    have "unat (b + of_nat (unat (x - b))) = unat b + unat (x - b)"
      using that by (intro unat_add_of_nat) (simp add: region_def)
    with that(1) show ?thesis by (simp add: region_def)
  qed
  have "region a n \<inter> (\<Union>(b, k) \<in> set blocks. region b k) = {}"
    using low high above u a(3) by fastforce
  moreover have "0 \<notin> region a n" using low [of 0] u ge by auto
  ultimately show ?thesis using a(2) u ge by auto
qed

lemma demo_malloc: "h_malloc demo_host = bump_malloc"
  by (simp add: demo_host_def)

lemma perl_host_demo: "perl_host demo_host"
  using bump_malloc_fresh by (simp add: perl_host_def demo_host_def)

subsection \<open>Types and values that read back\<close>

definition char_flags :: "char list" where
  "char_flags = [CHAR_FLAG, SCHAR_FLAG, UCHAR_FLAG]"

definition is_string :: "atype \<Rightarrow> bool" where
  "is_string f \<longleftrightarrow> is_Pointer f \<and> at_sizeof f = 8 \<and>
     (case at_subtype f of Subtype s \<Rightarrow> at_numeric s = CHAR_FLAG | _ \<Rightarrow> False)"

definition is_char :: "atype \<Rightarrow> bool" where
  "is_char f \<longleftrightarrow> at_numeric f \<in> set char_flags \<and> at_sizeof f = 1"

definition field_name :: "atype \<Rightarrow> string option" where
  "field_name f = (case at_slot12 f of FieldName name \<Rightarrow> Some name | _ \<Rightarrow> None)"

text \<open>Truth values, numbers, and structs whose members are those, characters, strings or such structs, laid out as
  \<open>Struct\<close> does.\<close>

fun laid_out :: "atype \<Rightarrow> bool" where
  "laid_out (AType n sz al off sub len ag slot12 sig) \<longleftrightarrow>
     (if n = BOOL_FLAG then sz = 1
      else if n \<in> set num_flags then sz = num_size n
      else n = STRUCT_FLAG \<and> 0 < sz \<and> sz < 2 ^ 63 \<and>
        (case sub of
           Fields fs \<Rightarrow> members_from 0 fs \<and> distinct (map field_name fs) \<and>
             (\<forall>f \<in> set fs. member_end f \<le> sz \<and> field_name f \<noteq> None \<and> (is_char f \<or> is_string f \<or> laid_out f))
         | _ \<Rightarrow> False))"

fun fits_num :: "char \<Rightarrow> sv \<Rightarrow> bool" where
  "fits_num n (SvInt x u) \<longleftrightarrow> \<not> u \<and>
     (if n = SHORT_FLAG then scast (ucast x :: u16) = x
      else if n = USHORT_FLAG then ucast (ucast x :: u16) = x
      else if n = INT_FLAG then scast (ucast x :: u32) = x
      else if n = UINT_FLAG then ucast (ucast x :: u32) = x
      else n \<notin> {FLOAT_FLAG, DOUBLE_FLAG})"
| "fits_num n (SvNum x) \<longleftrightarrow>
     (if n = FLOAT_FLAG then double_of_float (float_of_double x) = x else n = DOUBLE_FLAG)"
| "fits_num n _ \<longleftrightarrow> False"

fun fits_char :: "host \<Rightarrow> sv \<Rightarrow> bool" where
  "fits_char host (SvStr bs u) \<longleftrightarrow> length bs = 1 \<and> u = is_utf8_string host bs"
| "fits_char host _ \<longleftrightarrow> False"

fun fits_string :: "host \<Rightarrow> sv \<Rightarrow> bool" where
  "fits_string host (SvStr bs u) \<longleftrightarrow> 0 \<notin> set bs \<and> u = is_utf8_string host bs"
| "fits_string host (SvUndef r) \<longleftrightarrow> \<not> r"
| "fits_string host _ \<longleftrightarrow> False"

fun fits_bool :: "sv \<Rightarrow> bool" where
  "fits_bool (SvBool b) \<longleftrightarrow> True"
| "fits_bool _ \<longleftrightarrow> False"

function (sequential) fits :: "host \<Rightarrow> atype \<Rightarrow> sv \<Rightarrow> bool"
and fits_members :: "host \<Rightarrow> at_sub \<Rightarrow> (string \<times> sv) list \<Rightarrow> bool" where
  "fits host (AType n sz al off sub len ag slot12 sig) v \<longleftrightarrow>
     (if n = BOOL_FLAG then fits_bool v
      else if n \<in> set num_flags then fits_num n v
      else (case as_hash v of None \<Rightarrow> False | Some h \<Rightarrow> fits_members host sub h))"
| "fits_members host (Fields []) h \<longleftrightarrow> h = []"
| "fits_members host (Fields (f # fs)) ((k, v) # h) \<longleftrightarrow>
     field_name f = Some k \<and>
     (if is_char f then fits_char host v else if is_string f then fits_string host v else fits host f v) \<and>
     fits_members host (Fields fs) h"
| "fits_members host _ _ \<longleftrightarrow> False"
  by pat_completeness auto

termination
  by (relation "measure (\<lambda>x. case x of Inl (_, t, _) \<Rightarrow> size t | Inr (_, s, _) \<Rightarrow> size s)") auto

lemma fits_float: "\<not> is_nan32 y \<Longrightarrow> fits_num FLOAT_FLAG (SvNum (double_of_float y))"
  by (simp add: float_of_double_of_float)


subsection \<open>What a step may write, and where it can be read back\<close>

text \<open>A step writes only to \<open>R\<close> and to new blocks.\<close>

definition writes_only :: "u64 set \<Rightarrow> store \<Rightarrow> store \<Rightarrow> bool" where
  "writes_only R st st' \<longleftrightarrow>
     set (st_blocks st) \<subseteq> set (st_blocks st') \<and> used st \<subseteq> used st' \<and> (0 \<notin> used st \<longrightarrow> 0 \<notin> used st') \<and> (\<forall>x \<in> used st - R. st_mem st' x = st_mem st x)"

text \<open>\<open>Q\<close> holds of every memory with the contents of \<open>R\<close> and of the new blocks.\<close>

definition stable :: "u64 set \<Rightarrow> store \<Rightarrow> store \<Rightarrow> (u64 heap \<Rightarrow> bool) \<Rightarrow> bool" where
  "stable R st st' Q \<longleftrightarrow> (\<forall>h. (\<forall>x \<in> (used st' - used st) \<union> R. h x = st_mem st' x) \<longrightarrow> Q h)"

lemma writes_only_refl [simp]: "writes_only R st st"
  by (simp add: writes_only_def)

lemma writes_only_mono: "writes_only R st st' \<Longrightarrow> R \<subseteq> S \<Longrightarrow> writes_only S st st'"
  by (auto simp: writes_only_def)

lemma stable_mono: "stable R st st' Q \<Longrightarrow> R \<subseteq> S \<Longrightarrow> (\<And>h. Q h \<Longrightarrow> Q' h) \<Longrightarrow> stable S st st' Q'"
  by (auto simp: stable_def)

lemma steps_compose:
  assumes "writes_only R1 st st1" and "writes_only R2 st1 st2" and "R1 \<inter> R2 = {}"
    and "R1 \<union> R2 \<subseteq> R" and "R \<subseteq> used st"
  shows "writes_only R st st2"
    and "stable R1 st st1 Q1 \<Longrightarrow> stable R2 st1 st2 Q2 \<Longrightarrow> stable R st st2 (\<lambda>h. Q1 h \<and> Q2 h)"
proof -
  show "writes_only R st st2"
    unfolding writes_only_def
  proof (intro conjI ballI impI)
    fix x assume "x \<in> used st - R"
    with assms have "x \<in> used st - R1" "x \<in> used st1 - R2" by (auto simp: writes_only_def)
    with assms show "st_mem st2 x = st_mem st x" by (simp add: writes_only_def)
  qed (use assms in \<open>auto simp: writes_only_def\<close>)
  assume Q: "stable R1 st st1 Q1" "stable R2 st1 st2 Q2"
  show "stable R st st2 (\<lambda>h. Q1 h \<and> Q2 h)"
    unfolding stable_def
  proof (intro allI impI conjI)
    fix h assume h: "\<forall>x \<in> (used st2 - used st) \<union> R. h x = st_mem st2 x"
    have "h x = st_mem st1 x" if "x \<in> (used st1 - used st) \<union> R1" for x
    proof -
      from that assms have "x \<in> used st1 - R2" "x \<in> (used st2 - used st) \<union> R"
        by (auto simp: writes_only_def)
      with h assms(2) show ?thesis by (simp add: writes_only_def)
    qed
    with Q(1) show "Q1 h" by (simp add: stable_def)
    have "h x = st_mem st2 x" if "x \<in> (used st2 - used st1) \<union> R2" for x
      using that assms h by (auto simp: writes_only_def)
    with Q(2) show "Q2 h" by (simp add: stable_def)
  qed
qed

lemma put_step:
  assumes "length bs < 2 ^ 64" and "R = region a (length bs)"
  shows "writes_only R st (put a bs st)" "stable R st (put a bs st) (\<lambda>h. heap_read h a (length bs) = bs)"
proof -
  show "writes_only R st (put a bs st)" using assms(2) by (simp add: writes_only_def heap_write_outside)
  show "stable R st (put a bs st) (\<lambda>h. heap_read h a (length bs) = bs)"
    unfolding stable_def
  proof (intro allI impI)
    fix h assume "\<forall>x \<in> (used (put a bs st) - used st) \<union> R. h x = st_mem (put a bs st) x"
    with assms have "heap_read h a (length bs) = heap_read (st_mem (put a bs st)) a (length bs)"
      by (intro heap_read_cong) simp_all
    with assms(1) show "heap_read h a (length bs) = bs" by (simp add: heap_read_write)
  qed
qed

lemma Newxz_step:
  assumes "perl_host host" and "Newxz host n st = Inr (a, st')"
  shows "writes_only {} st st'"
proof -
  note n = NewxzD [OF assms]
  have "st_mem st' x = st_mem st x" if "x \<in> used st" for x
    using that n(4) unfolding n(6) by (intro heap_write_outside) auto
  with n(3,5,7) show ?thesis by (auto simp: writes_only_def)
qed

subsection \<open>Scalars\<close>

lemma num_flags_distinct:
  "n \<in> set num_flags \<Longrightarrow> n \<noteq> BOOL_FLAG \<and> n \<noteq> POINTER_FLAG \<and> n \<noteq> STRUCT_FLAG \<and> n \<noteq> UNION_FLAG \<and> n \<noteq> VOID_FLAG \<and>
     n \<notin> set char_flags"
  by (auto simp: num_flags_def char_flags_def)

lemma le_word_of_le_bytes:
  "8 * n = LENGTH('b) \<Longrightarrow> (le_word (le_bytes n (w :: 'a::len word)) :: 'b::len word) = ucast w"
  by (metis le_bytes_ucast le_word_le_bytes order_refl)

lemma num_flags_cases:
  assumes "n \<in> set num_flags"
  obtains "n = SHORT_FLAG" | "n = USHORT_FLAG" | "n = INT_FLAG" | "n = UINT_FLAG"
    | "n \<in> {LONG_FLAG, ULONG_FLAG, LONGLONG_FLAG, ULONGLONG_FLAG}" | "n = FLOAT_FLAG" | "n = DOUBLE_FLAG"
  using assms by (auto simp: num_flags_def)

lemma num_long:
  assumes "n \<in> {LONG_FLAG, ULONG_FLAG, LONGLONG_FLAG, ULONGLONG_FLAG}"
  shows "num_size n = 8" "num_bytes host n v = le_bytes 8 (SvIV host v)" "ptr2sv_num h n a = newSViv (load h a 8)"
  using assms by (auto simp: num_size_def num_bytes_def ptr2sv_num_def)

lemma fits_num_cases:
  assumes "fits_num n v"
  obtains x where "v = SvInt x False" | x where "v = SvNum x" "n \<in> {FLOAT_FLAG, DOUBLE_FLAG}"
  using assms by (cases "(n, v)" rule: fits_num.cases) (auto split: if_splits)

lemma fits_num_ok:
  assumes "fits_num n v"
  shows "SvOK v" and "num_ok n v" and "v \<noteq> SvUndef True"
  using assms by (cases rule: fits_num_cases; simp add: num_ok_def)+

lemma length_num_bytes: "n \<in> set num_flags \<Longrightarrow> length (num_bytes host n v) = num_size n"
  by (cases rule: num_flags_cases) (auto simp: num_bytes_def num_size_def)

lemma sint_of_u16: "\<not> sint (ucast (y :: u16) :: u64) < 0"
  by (simp add: sint_uint unsigned_ucast_eq bit_take_bit_iff bit_uint_iff)

lemma num_roundtrip:
  assumes "perl_host host" and "n \<in> set num_flags" and "fits_num n v"
    and "heap_read h a (num_size n) = num_bytes host n v"
  shows "ptr2sv_num h n a = v"
  using assms(2)
proof (cases rule: num_flags_cases)
  case 1
  then obtain x where "v = SvInt x False" "scast (ucast x :: u16) = x" using assms(3) by (cases v) auto
  with 1 assms show ?thesis by (simp add: ptr2sv_num_def num_bytes_def num_size_def newSViv_def le_word_of_le_bytes)
next
  case 2
  then obtain x where "v = SvInt x False" "ucast (ucast x :: u16) = x" using assms(3) by (cases v) auto
  moreover from this have "\<not> sint x < 0" using sint_of_u16 [of "ucast x"] by simp
  ultimately show ?thesis using 2 assms
    by (simp add: ptr2sv_num_def num_bytes_def num_size_def newSVuv_def le_word_of_le_bytes)
next
  case 3
  then obtain x where "v = SvInt x False" "scast (ucast x :: u32) = x" using assms(3) by (cases v) auto
  with 3 assms show ?thesis by (simp add: ptr2sv_num_def num_bytes_def num_size_def newSViv_def le_word_of_le_bytes)
next
  case 4
  then obtain x where "v = SvInt x False" "ucast (ucast x :: u32) = x" using assms(3) by (cases v) auto
  with 4 assms show ?thesis by (simp add: ptr2sv_num_def num_bytes_def num_size_def newSViv_def le_word_of_le_bytes)
next
  case 5
  then obtain x where "v = SvInt x False" using assms(3) by (cases v) auto
  moreover note num_long [OF 5]
  ultimately show ?thesis using assms(1,4) by (simp add: newSViv_def le_word_le_bytes)
next
  case 6
  then obtain x where "v = SvNum x" "double_of_float (float_of_double x) = x"
    using assms(3) by (cases v) auto
  with 6 assms show ?thesis by (simp add: ptr2sv_num_def num_bytes_def num_size_def le_word_of_le_bytes)
next
  case 7
  then obtain x where "v = SvNum x" using assms(3) by (cases v) auto
  with 7 assms show ?thesis by (simp add: ptr2sv_num_def num_bytes_def num_size_def le_word_of_le_bytes)
qed


subsection \<open>Members of a struct\<close>

definition write_member :: "host \<Rightarrow> atype \<Rightarrow> sv \<Rightarrow> u64 \<Rightarrow> store \<Rightarrow> affix_error + store" where
  "write_member host f v a st =
     (case sv2ptr host f v (if is_Pointer f then 0 else a) st of
        Inl e \<Rightarrow> Inl e
      | Inr (p, st) \<Rightarrow> Inr (if is_Pointer f then put a (le_bytes 8 p) st else st))"

definition read_member :: "host \<Rightarrow> u64 heap \<Rightarrow> atype \<Rightarrow> u64 \<Rightarrow> affix_error + sv" where
  "read_member host h f p =
     (if is_Pointer f then ptr2sv_member host h (at_subtype f) (load h p 8)
      else if at_numeric f \<in> {CHAR_FLAG, SCHAR_FLAG, UCHAR_FLAG} then Inr (SvStr [h p] (is_utf8_string host [h p]))
      else ptr2sv host h f p)"

lemma sv2ptr_struct_Cons:
  "field_name f = Some name \<Longrightarrow> map_of H name = Some v \<Longrightarrow>
     sv2ptr_struct host (Fields (f # fs)) H ret st =
       (case write_member host f v (ret + of_nat (AXT_TYPE_OFFSET f)) st of
          Inl e \<Rightarrow> Inl e | Inr st \<Rightarrow> sv2ptr_struct host (Fields fs) H ret st)"
  by (auto simp: field_name_def write_member_def split: at_field.splits sum.splits)

lemma ptr2sv_struct_Cons:
  "field_name f = Some name \<Longrightarrow>
     ptr2sv_struct host h (Fields (f # fs)) ptr =
       (case read_member host h f (ptr + of_nat (AXT_TYPE_OFFSET f)) of
          Inl e \<Rightarrow> Inl e | Inr v \<Rightarrow> map_sum id (Cons (name, v)) (ptr2sv_struct host h (Fields fs) ptr))"
  by (auto simp: field_name_def read_member_def Let_def split: at_field.splits sum.splits)

lemma sv2ptr_flat_case:
  "at_numeric t \<notin> {POINTER_FLAG, STRUCT_FLAG, UNION_FLAG} \<Longrightarrow> v \<noteq> SvUndef True \<Longrightarrow>
     sv2ptr host t v ret st = sv2ptr_flat host t v ret st"
  by (cases t) simp

lemma ptr2sv_flat_case:
  "at_numeric t \<notin> {POINTER_FLAG, STRUCT_FLAG, UNION_FLAG} \<Longrightarrow> ptr \<noteq> 0 \<Longrightarrow>
     ptr2sv host h t ptr = ptr2sv_flat host h t ptr"
  by (cases t) simp

text \<open>What all members have in common: the step ends for want of memory, or writes where it may and reads back.\<close>

definition done_right :: "u64 set \<Rightarrow> store \<Rightarrow> (u64 heap \<Rightarrow> bool) \<Rightarrow> affix_error + store \<Rightarrow> bool" where
  "done_right R st Q r \<longleftrightarrow>
     (case r of Inl e \<Rightarrow> e = OutOfMemory | Inr st' \<Rightarrow> writes_only R st st' \<and> stable R st st' Q)"

lemma done_right_put:
  assumes "length bs < 2 ^ 64" and "R = region a (length bs)" and "\<And>h. heap_read h a (length bs) = bs \<Longrightarrow> Q h"
  shows "done_right R st Q (Inr (put a bs st))"
  using put_step [OF assms(1,2)] assms(3) by (auto simp: done_right_def intro: stable_mono)

lemma num_size_range: "num_size n \<in> {2, 4, 8}"
  by (simp add: num_size_def)

lemma sv2ptr_flat_num:
  assumes "at_numeric t \<in> set num_flags" and "fits_num (at_numeric t) v" and "ret \<noteq> 0"
  shows "sv2ptr_flat host t v ret st = Inr (ret, put ret (num_bytes host (at_numeric t) v) st)"
proof -
  have "sv2ptr_flat host t v ret st = sv2ptr_num host (at_numeric t) v ret st"
    using assms(1) num_flags_distinct [OF assms(1)] by (auto simp: sv2ptr_flat_def Let_def char_flags_def)
  with fits_num_ok [OF assms(2)] assms(3) show ?thesis by (simp add: sv2ptr_num_def ensure_def)
qed

lemma ptr2sv_flat_num:
  assumes "at_numeric t \<in> set num_flags"
  shows "ptr2sv_flat host h t ptr = Inr (ptr2sv_num h (at_numeric t) ptr)"
  using assms num_flags_distinct [OF assms] by (auto simp: ptr2sv_flat_def Let_def char_flags_def)

lemma scalar_number:
  assumes "perl_host host" and "at_numeric t \<in> set num_flags" and "fits_num (at_numeric t) v"
    and "at_sizeof t = num_size (at_numeric t)" and "ret \<noteq> 0"
  shows "\<exists>st'. sv2ptr host t v ret st = Inr (ret, st') \<and>
    done_right (region ret (at_sizeof t)) st (\<lambda>h. ptr2sv host h t ret = Inr v) (Inr st')"
proof -
  note d = num_flags_distinct [OF assms(2)] and l = length_num_bytes [OF assms(2), of host v]
  have "sv2ptr host t v ret st = Inr (ret, put ret (num_bytes host (at_numeric t) v) st)"
    using d fits_num_ok [OF assms(3)] by (simp add: sv2ptr_flat_case sv2ptr_flat_num [OF assms(2,3,5)])
  moreover have "done_right (region ret (at_sizeof t)) st (\<lambda>h. ptr2sv host h t ret = Inr v)
     (Inr (put ret (num_bytes host (at_numeric t) v) st))"
  proof (rule done_right_put)
    show "length (num_bytes host (at_numeric t) v) < 2 ^ 64" using l num_size_range [of "at_numeric t"] by auto
    show "region ret (at_sizeof t) = region ret (length (num_bytes host (at_numeric t) v))"
      using l assms(4) by simp
    show "ptr2sv host h t ret = Inr v"
      if "heap_read h ret (length (num_bytes host (at_numeric t) v)) = num_bytes host (at_numeric t) v" for h
      using that d assms(5) num_roundtrip [OF assms(1-3), of h ret] l
      by (simp add: ptr2sv_flat_case ptr2sv_flat_num [OF assms(2)])
  qed
  ultimately show ?thesis by blast
qed

lemma scalar_bool:
  assumes "perl_host host" and "at_numeric t = BOOL_FLAG" and "fits_bool v" and "at_sizeof t = 1" and "ret \<noteq> 0"
  shows "\<exists>st'. sv2ptr host t v ret st = Inr (ret, st') \<and>
    done_right (region ret (at_sizeof t)) st (\<lambda>h. ptr2sv host h t ret = Inr v) (Inr st')"
proof -
  from assms(3) obtain b where v: "v = SvBool b" by (cases v) auto
  have "sv2ptr host t v ret st = Inr (ret, put ret [if b then 1 else 0] st)"
    using assms by (simp add: v sv2ptr_flat_case sv2ptr_flat_def sv2ptr_bool_def ensure_def bool_bytes_def)
  moreover have "done_right (region ret (at_sizeof t)) st (\<lambda>h. ptr2sv host h t ret = Inr v)
     (Inr (put ret [if b then 1 else 0] st))"
    by (rule done_right_put)
      (use assms in \<open>auto simp: v ptr2sv_flat_case ptr2sv_flat_def heap_read_def split: if_splits\<close>)
  ultimately show ?thesis by blast
qed


lemma heap_read_Suc: "heap_read h a (Suc n) = h a # heap_read h (a + 1) n"
  using heap_read_append [of h a 1 n] by (simp add: heap_read_def)

lemma c_string_read:
  "heap_read h p (Suc (length bs)) = bs @ [0] \<Longrightarrow> 0 \<notin> set bs \<Longrightarrow> c_string h p = Some bs"
  by (induction bs arbitrary: p) (subst c_string.simps, auto simp: heap_read_Suc)+

lemma heap_write_over:
  "length bs \<le> length xs \<Longrightarrow>
     heap_write (heap_write m p xs) p bs = heap_write m p (bs @ drop (length bs) xs)"
  by (auto simp: heap_write_def fun_eq_iff nth_append)

lemma string_block:
  assumes "perl_host host" and "at_numeric s = CHAR_FLAG" and "0 \<notin> set bs"
  shows "sv2ptr host s (SvStr bs u) 0 st = Inl OutOfMemory \<or>
    (\<exists>p st'. sv2ptr host s (SvStr bs u) 0 st = Inr (p, st') \<and> p \<noteq> 0 \<and> writes_only {} st st' \<and>
       stable {} st st' (\<lambda>h. c_string h p = Some bs))"
proof -
  have "sv2ptr host s (SvStr bs u) 0 st =
      (case Newxz host (length bs + 1) st of Inl e \<Rightarrow> Inl e | Inr (p, st) \<Rightarrow> Inr (p, put p bs st))"
    using assms(1,2) by (simp add: sv2ptr_flat_case sv2ptr_flat_def sv2ptr_char_def ensure_def)
  moreover have "writes_only {} st (put p bs st') \<and> stable {} st (put p bs st') (\<lambda>h. c_string h p = Some bs) \<and> p \<noteq> 0"
    if n: "Newxz host (length bs + 1) st = Inr (p, st')" for p st'
  proof (intro conjI)
    note d = NewxzD [OF assms(1) n]
    have m: "st_mem (put p bs st') = heap_write (st_mem st) p (bs @ [0])"
      using heap_write_over [of bs "replicate (length bs + 1) 0" "st_mem st" p]
      unfolding st_mem_put d(6) by (simp add: drop_replicate del: replicate_Suc) simp
    have "st_mem (put p bs st') x = st_mem st x" if "x \<in> used st" for x
      using that d(4) unfolding m by (intro heap_write_outside) auto
    with d(3,5,7) show "writes_only {} st (put p bs st')" by (auto simp: writes_only_def)
    show "stable {} st (put p bs st') (\<lambda>h. c_string h p = Some bs)"
      unfolding stable_def
    proof (intro allI impI)
      fix h assume h: "\<forall>x \<in> (used (put p bs st') - used st) \<union> {}. h x = st_mem (put p bs st') x"
      have "region p (length bs + 1) \<subseteq> used (put p bs st') - used st" using d(4,5) by auto
      with h have "heap_read h p (length bs + 1) = heap_read (st_mem (put p bs st')) p (length bs + 1)"
        using d(2) by (intro heap_read_cong) auto
      also have "\<dots> = bs @ [0]" using d(2) unfolding m by (intro heap_read_write) simp_all
      finally show "c_string h p = Some bs" using assms(3) by (simp add: c_string_read)
    qed
    show "p \<noteq> 0" by (rule d(1))
  qed
  ultimately show ?thesis by (auto split: sum.splits dest: Newxz_fails)
qed

lemma member_char:
  assumes "perl_host host" and "is_char f" and "fits_char host v" and "a \<noteq> 0"
  shows "done_right (region a (at_sizeof f)) st (\<lambda>h. read_member host h f a = Inr v) (write_member host f v a st)"
proof -
  from assms(3) obtain b u where v: "v = SvStr [b] u" "u = is_utf8_string host [b]"
    by (cases "(host, v)" rule: fits_char.cases) (auto simp: length_Suc_conv)
  from assms(2) have f: "at_numeric f \<in> {CHAR_FLAG, SCHAR_FLAG, UCHAR_FLAG}" "at_sizeof f = 1" "\<not> is_Pointer f"
    by (auto simp: is_char_def char_flags_def is_Pointer_def)
  have "write_member host f v a st = Inr (put a [b] st)"
    using f assms(1,4)
    by (auto simp: write_member_def v sv2ptr_flat_case sv2ptr_flat_def sv2ptr_char_def ensure_def num_flags_def)
  moreover have "done_right (region a (at_sizeof f)) st (\<lambda>h. read_member host h f a = Inr v) (Inr (put a [b] st))"
    by (rule done_right_put) (use f in \<open>auto simp: read_member_def v heap_read_def\<close>)
  ultimately show ?thesis by simp
qed

lemma member_string:
  assumes "perl_host host" and "is_string f" and "fits_string host v" and "region a 8 \<subseteq> used st" and "0 \<notin> used st"
  shows "done_right (region a 8) st (\<lambda>h. read_member host h f a = Inr v) (write_member host f v a st)"
proof -
  from assms(2) obtain s where f: "is_Pointer f" "at_subtype f = Subtype s" "at_numeric s = CHAR_FLAG"
    by (auto simp: is_string_def split: at_sub.splits)
  have np: "\<not> is_Pointer s" using f(3) by (simp add: is_Pointer_def)
  have w: "write_member host f v a st =
      (case sv2ptr host s v 0 st of Inl e \<Rightarrow> Inl e | Inr (p, st) \<Rightarrow> Inr (put a (le_bytes 8 p) st))"
    if "v \<noteq> SvUndef True" "pointer_object v = None"
    using f np that by (cases f) (auto simp: write_member_def is_Pointer_def split: sum.split)
  have r: "read_member host h f a = (if load h a 8 = (0 :: u64) then Inr (SvUndef False) else
      ptr2sv_string host h (load h a 8))" for h
    using f by (simp add: read_member_def ptr2sv_flat_case ptr2sv_flat_def)
  have load: "load h a 8 = p" if "heap_read h a (length (le_bytes 8 (p :: u64))) = le_bytes 8 p" for h p
    using that by (simp add: le_word_le_bytes)
  from assms(3) consider "v = SvUndef False" | bs where "v = SvStr bs (is_utf8_string host bs)" "0 \<notin> set bs"
    by (cases "(host, v)" rule: fits_string.cases) auto
  then show ?thesis
  proof cases
    case 1
    have "sv2ptr host s v 0 st = Inr (0, st)"
      using f(3) by (simp add: 1 sv2ptr_flat_case sv2ptr_flat_def sv2ptr_char_def)
    then have "write_member host f v a st = Inr (put a (le_bytes 8 (0 :: u64)) st)" using w by (simp add: 1)
    moreover have "done_right (region a 8) st (\<lambda>h. read_member host h f a = Inr v) (Inr (put a (le_bytes 8 (0 :: u64)) st))"
      by (rule done_right_put) (use load in \<open>auto simp: r 1\<close>)
    ultimately show ?thesis by simp
  next
    case 2
    note b = string_block [OF assms(1) f(3) 2(2), of "is_utf8_string host bs" st, folded 2(1)]
    show ?thesis
    proof (cases "sv2ptr host s v 0 st = Inl OutOfMemory")
      case True
      then show ?thesis using w by (simp add: 2 done_right_def)
    next
      case False
      with b obtain p st' where p: "sv2ptr host s v 0 st = Inr (p, st')" "p \<noteq> 0" "writes_only {} st st'"
        "stable {} st st' (\<lambda>h. c_string h p = Some bs)" by blast
      let ?bs = "le_bytes 8 p"
      have q: "writes_only (region a 8) st' (put a ?bs st')"
        "stable (region a 8) st' (put a ?bs st') (\<lambda>h. heap_read h a (length ?bs) = ?bs)"
        by (rule put_step; simp)+
      note c = steps_compose [OF p(3) q(1) _ _ assms(4), simplified]
      have "stable (region a 8) st (put a ?bs st') (\<lambda>h. read_member host h f a = Inr v)"
        by (rule stable_mono [OF c(2) [OF p(4) q(2)] order_refl])
          (use p(2) 2(1) in \<open>auto simp: r ptr2sv_string_def le_word_le_bytes\<close>)
      with c(1) show ?thesis using w p(1) 2(1) by (simp add: done_right_def)
    qed
  qed
qed


subsection \<open>Structs\<close>

text \<open>The part of a struct from the offset \<open>k\<close> to its end \<open>m\<close>.\<close>

abbreviation part :: "u64 \<Rightarrow> nat \<Rightarrow> nat \<Rightarrow> u64 set" where
  "part ret k m \<equiv> region (ret + of_nat k) (m - k)"

lemma part_member:
  assumes "k \<le> off" and "off + n \<le> m" and "m < 2 ^ 63"
  shows "region (ret + of_nat off) n \<subseteq> part ret k m" "part ret (off + n) m \<subseteq> part ret k m"
    "region (ret + of_nat off) n \<inter> part ret (off + n) m = {}"
proof -
  have off: "ret + of_nat off = (ret + of_nat k) + of_nat (off - k)"
    "ret + of_nat (off + n) = (ret + of_nat k) + of_nat (off + n - k)"
    using assms(1) by (simp_all add: of_nat_diff)
  show "region (ret + of_nat off) n \<subseteq> part ret k m" "part ret (off + n) m \<subseteq> part ret k m"
    unfolding off by (rule region_part; use assms in simp)+
  show "region (ret + of_nat off) n \<inter> part ret (off + n) m = {}"
    by (rule region_apart [where m = m]) (use assms in simp_all)
qed

lemma done_right_seq:
  assumes "done_right R1 st Q1 r" and "\<And>st'. r = Inr st' \<Longrightarrow> writes_only R1 st st' \<Longrightarrow> done_right R2 st' Q2 (g st')"
    and "R1 \<inter> R2 = {}" and "R1 \<union> R2 \<subseteq> R" and "R \<subseteq> used st" and "\<And>h. Q1 h \<Longrightarrow> Q2 h \<Longrightarrow> Q h"
  shows "done_right R st Q (case r of Inl e \<Rightarrow> Inl e | Inr st' \<Rightarrow> g st')"
proof (cases r)
  case (Inr st')
  with assms(1) have 1: "writes_only R1 st st'" "stable R1 st st' Q1" by (simp_all add: done_right_def)
  from assms(2) [OF Inr 1(1)] show ?thesis
  proof (cases "g st'")
    case (Inr st2)
    with assms(2) [OF \<open>r = Inr st'\<close> 1(1)] have 2: "writes_only R2 st' st2" "stable R2 st' st2 Q2"
      by (simp_all add: done_right_def)
    note c = steps_compose [OF 1(1) 2(1) assms(3-5)]
    have "stable R st st2 Q" by (rule stable_mono [OF c(2) [OF 1(2) 2(2)] order_refl]) (use assms(6) in auto)
    with c(1) \<open>r = Inr st'\<close> Inr show ?thesis by (simp add: done_right_def)
  qed (simp add: done_right_def \<open>r = Inr st'\<close>)
qed (use assms(1) in \<open>simp add: done_right_def\<close>)

lemma done_right_cong: "done_right R st Q r \<Longrightarrow> (\<And>h. Q h \<Longrightarrow> Q' h) \<Longrightarrow> done_right R st Q' r"
  by (auto simp: done_right_def intro: stable_mono split: sum.splits)

definition good_member :: "atype \<Rightarrow> bool" where
  "good_member f \<longleftrightarrow> field_name f \<noteq> None \<and> (is_char f \<or> is_string f \<or> laid_out f)"

lemma update_new: "k \<notin> fst ` set h \<Longrightarrow> AList.update k v h = h @ [(k, v)]"
  by (induction h) auto

lemma hv_store_all_distinct: "distinct (map fst kvs) \<Longrightarrow> hv_store_all kvs = kvs"
proof -
  have "distinct (map fst (acc @ kvs)) \<Longrightarrow> foldl (\<lambda>h (k, v). AList.update k v h) acc kvs = acc @ kvs" for acc
    by (induction kvs arbitrary: acc) (auto simp: update_new)
  from this [of "[]"] show "distinct (map fst kvs) \<Longrightarrow> hv_store_all kvs = kvs" by (simp add: hv_store_all_def)
qed


lemma laid_out_numeric: "laid_out t \<Longrightarrow> at_numeric t = BOOL_FLAG \<or> at_numeric t = STRUCT_FLAG \<or> at_numeric t \<in> set num_flags"
  by (cases t) (simp split: if_splits)

lemma member_step:
  assumes "perl_host host" and "good_member f" and "region a (at_sizeof f) \<subseteq> used st" and "0 \<notin> used st" and "a \<noteq> 0"
    and "if is_char f then fits_char host v else if is_string f then fits_string host v else fits host f v"
    and "\<not> is_char f \<Longrightarrow> \<not> is_string f \<Longrightarrow> \<exists>r. sv2ptr host f v a st = map_sum id (Pair a) r \<and>
           done_right (region a (at_sizeof f)) st (\<lambda>h. ptr2sv host h f a = Inr v) r"
  shows "done_right (region a (at_sizeof f)) st (\<lambda>h. read_member host h f a = Inr v) (write_member host f v a st)"
proof -
  consider "is_char f" | "\<not> is_char f" "is_string f" | "\<not> is_char f" "\<not> is_string f" "laid_out f"
    using assms(2) by (auto simp: good_member_def)
  then show ?thesis
  proof cases
    case 1
    then show ?thesis using assms(6) by (simp add: member_char assms(1,5))
  next
    case 2
    then have "at_sizeof f = 8" by (simp add: is_string_def)
    with 2 show ?thesis using member_string [OF assms(1) 2(2), of v a st] assms(3,4,6) by simp
  next
    case 3
    then have nf: "\<not> is_Pointer f" "at_numeric f \<notin> {CHAR_FLAG, SCHAR_FLAG, UCHAR_FLAG}"
      using laid_out_numeric [of f] by (auto simp: is_Pointer_def num_flags_def)
    from assms(7) 3 obtain r where r: "sv2ptr host f v a st = map_sum id (Pair a) r"
      "done_right (region a (at_sizeof f)) st (\<lambda>h. ptr2sv host h f a = Inr v) r" by blast
    have "write_member host f v a st = r" using nf r(1) by (cases r) (simp_all add: write_member_def)
    with r(2) nf show ?thesis by (simp add: read_member_def)
  qed
qed

lemma laid_out_struct:
  "laid_out t \<Longrightarrow> at_numeric t \<noteq> BOOL_FLAG \<Longrightarrow> at_numeric t \<notin> set num_flags \<Longrightarrow>
     \<exists>fs. at_numeric t = STRUCT_FLAG \<and> at_subtype t = Fields fs \<and> 0 < at_sizeof t \<and> at_sizeof t < 2 ^ 63 \<and>
       members_from 0 fs \<and> distinct (map field_name fs) \<and> (\<forall>f \<in> set fs. member_end f \<le> at_sizeof t \<and> good_member f)"
  by (cases t) (auto simp: good_member_def split: at_sub.splits)

lemma laid_out_size: "laid_out t \<Longrightarrow> 0 < at_sizeof t \<and> at_sizeof t < 2 ^ 63"
  by (cases t) (auto simp: num_size_def split: if_splits)

lemma fits_members_keys:
  "fits_members host sub h \<Longrightarrow> sub = Fields fs \<Longrightarrow> distinct (map field_name fs) \<Longrightarrow> distinct (map fst h)"
proof -
  have "fits_members host sub h \<Longrightarrow> sub = Fields fs \<Longrightarrow> map field_name fs = map Some (map fst h)" for sub fs
    by (induction fs arbitrary: sub h) (auto elim: fits_members.elims)
  moreover assume "fits_members host sub h" "sub = Fields fs" "distinct (map field_name fs)"
  ultimately show ?thesis by (metis distinct_map)
qed

text \<open>The traversal of a value and its type: it is written where it may be, and reads back.\<close>

lemma value_step:
  "\<lbrakk>fits host t v; perl_host host; laid_out t; region ret (at_sizeof t) \<subseteq> used st; 0 \<notin> used st\<rbrakk> \<Longrightarrow>
   \<exists>r. sv2ptr host t v ret st = map_sum id (Pair ret) r \<and>
     done_right (region ret (at_sizeof t)) st (\<lambda>h. ptr2sv host h t ret = Inr v) r"
  and fields_step:
  "\<lbrakk>fits_members host sub h; perl_host host; sub = Fields fs; members_from k fs; k \<le> m; m < 2 ^ 63;
    \<forall>f \<in> set fs. member_end f \<le> m \<and> good_member f; \<forall>(name, v) \<in> set h. map_of H name = Some v;
    part ret k m \<subseteq> used st; 0 \<notin> used st\<rbrakk> \<Longrightarrow>
   done_right (part ret k m) st (\<lambda>h'. ptr2sv_struct host h' (Fields fs) ret = Inr h)
     (sv2ptr_struct host (Fields fs) H ret st)"
proof (induction host t v and host sub h arbitrary: ret st and fs k m H ret st rule: fits_fits_members.induct)
  case (1 host n sz al off sub len ag slot12 sig v)
  let ?t = "AType n sz al off sub len ag slot12 sig"
  have "ret \<in> region ret (at_sizeof ?t)" using laid_out_size [OF 1(4)] by simp
  with 1(5,6) have ret: "ret \<noteq> 0" by blast
  consider "n = BOOL_FLAG" | "n \<noteq> BOOL_FLAG" "n \<in> set num_flags" | "n \<noteq> BOOL_FLAG" "n \<notin> set num_flags" by blast
  then show ?case
  proof cases
    case a: 1
    then show ?thesis using scalar_bool [of host ?t v ret st] 1 ret by (fastforce intro: exI [of _ "Inr _"])
  next
    case a: 2
    then show ?thesis using scalar_number [of host ?t v ret st] 1 ret by (fastforce intro: exI [of _ "Inr _"])
  next
    case a: 3
    from laid_out_struct [OF 1(4)] a obtain fs where fs: "n = STRUCT_FLAG" "sub = Fields fs" "0 < sz" "sz < 2 ^ 63"
      "members_from 0 fs" "distinct (map field_name fs)" "\<forall>f \<in> set fs. member_end f \<le> sz \<and> good_member f" by auto
    from 1(2) a obtain h where h: "as_hash v = Some h" "fits_members host sub h" by (auto split: option.splits)
    then have v: "v = SvHash h" by (cases v) auto
    have keys: "distinct (map fst h)" using fits_members_keys [OF h(2) fs(2)] fs(6) by simp
    let ?r = "sv2ptr_struct host (Fields fs) h ret st"
    have "done_right (region ret sz) st (\<lambda>h'. ptr2sv_struct host h' (Fields fs) ret = Inr h) ?r"
      using 1(1) [OF a h(1) h(2) 1(3) fs(2,5) _ fs(4,7), of h ret st] 1(5,6) keys by simp
    then have "done_right (region ret (at_sizeof ?t)) st (\<lambda>h'. ptr2sv host h' ?t ret = Inr v) ?r"
      unfolding atype.sel by (rule done_right_cong) (use fs ret keys in \<open>simp add: v hv_store_all_distinct\<close>)
    moreover have "sv2ptr host ?t v ret st = map_sum id (Pair ret) ?r"
      using fs ret by (simp add: v ensure_def)
    ultimately show ?thesis by blast
  qed
next
  case (2 host h)
  then show ?case by (auto simp: done_right_def stable_def)
next
  case (3 host f fs0 name v h)
  from 3(5) have fs: "fs = f # fs0" by simp
  have n: "field_name f = Some name" "map_of H name = Some v" using 3(3,10) by simp_all
  let ?off = "AXT_TYPE_OFFSET f" and ?n = "at_sizeof f"
  have f: "k \<le> ?off" "?off + ?n \<le> m" "good_member f" "members_from (?off + ?n) fs0"
    using 3(6,9) by (simp_all add: fs member_end_def)
  note R = part_member [OF f(1,2) 3(8), of ret]
  let ?a = "ret + of_nat ?off"
  have sub: "region ?a ?n \<subseteq> used st" using R(1) 3(11) by blast
  have "0 < ?n" using f(3) laid_out_size [of f] by (auto simp: good_member_def is_char_def is_string_def)
  then have a: "?a \<noteq> 0" using sub 3(12) by (metis region_start subsetD)
  have step: "done_right (region ?a ?n) st (\<lambda>h'. read_member host h' f ?a = Inr v) (write_member host f v ?a st)"
  proof (rule member_step [OF 3(4) f(3) sub 3(12) a])
    show "if is_char f then fits_char host v else if is_string f then fits_string host v else fits host f v"
      using 3(3) by simp
    assume c: "\<not> is_char f" "\<not> is_string f"
    then have w: "fits host f v" "laid_out f" using 3(3) f(3) by (auto simp: good_member_def)
    show "\<exists>r. sv2ptr host f v ?a st = map_sum id (Pair ?a) r \<and>
        done_right (region ?a ?n) st (\<lambda>h. ptr2sv host h f ?a = Inr v) r"
      by (rule 3(1) [OF c w(1) 3(4) w(2) sub 3(12)])
  qed
  show ?case
    unfolding fs sv2ptr_struct_Cons [of f name H v, OF n]
  proof (rule done_right_seq [where ?R2.0 = "part ret (?off + ?n) m", OF step])
    show "region ?a ?n \<inter> part ret (?off + ?n) m = {}" by (rule R)
    show "region ?a ?n \<union> part ret (?off + ?n) m \<subseteq> part ret k m" using R by blast
    show "part ret k m \<subseteq> used st" by (rule 3(11))
    fix st' assume "writes_only (region ?a ?n) st st'"
    then have "used st \<subseteq> used st'" "0 \<notin> used st'" using 3(12) by (simp_all add: writes_only_def)
    then show "done_right (part ret (?off + ?n) m) st' (\<lambda>h'. ptr2sv_struct host h' (Fields fs0) ret = Inr h)
        (sv2ptr_struct host (Fields fs0) H ret st')"
      using 3(3,8-11) fs f(2,4) R(2) by (intro 3(2) [OF _ 3(4) refl]) auto
  next
    fix h' assume "read_member host h' f ?a = Inr v" "ptr2sv_struct host h' (Fields fs0) ret = Inr h"
    then show "ptr2sv_struct host h' (Fields (f # fs0)) ret = Inr ((name, v) # h)"
      unfolding ptr2sv_struct_Cons [of f name, OF n(1)] by simp
  qed
qed auto


text \<open>Without a target, \<open>sv2ptr\<close> allocates the size of the type first.\<close>

lemma sv2ptr_new:
  assumes "perl_host host" and "laid_out t" and "fits host t v"
  shows "sv2ptr host t v 0 st =
    (case Newxz host (at_sizeof t) st of Inl e \<Rightarrow> Inl e | Inr (a, st) \<Rightarrow> sv2ptr host t v a st)"
proof -
  obtain n sz al off sub len ag slot12 sig where t: "t = AType n sz al off sub len ag slot12 sig" by (cases t)
  have a: "Newxz host k st = Inr (a, st') \<Longrightarrow> ensure host a k' st' = Inr (a, st')" for k k' a st'
    using NewxzD(1) [OF assms(1)] by (simp add: ensure_def)
  have e: "ensure host 0 k st = Newxz host k st" for k st by (simp add: ensure_def)
  consider "n = BOOL_FLAG" | "n \<noteq> BOOL_FLAG" "n \<in> set num_flags" | "n \<noteq> BOOL_FLAG" "n \<notin> set num_flags" by blast
  then show ?thesis
  proof cases
    case 1
    with assms(3) obtain b where "v = SvBool b" by (cases v) (simp_all add: t)
    with 1 assms(2) show ?thesis
      by (auto simp: t sv2ptr_flat_def sv2ptr_bool_def e a split: sum.split)
  next
    case 2
    note d = num_flags_distinct [OF 2(2)]
    have v: "fits_num n v" using assms(3) 2 by (simp add: t)
    have f: "sv2ptr host t v ret st = sv2ptr_num host n v ret st" for ret st
      using d fits_num_ok [OF v] 2 by (auto simp: t sv2ptr_flat_def Let_def char_flags_def)
    from 2 assms(2) have "sz = num_size n" by (simp add: t)
    with fits_num_ok [OF v] show ?thesis
      unfolding f by (auto simp: t sv2ptr_num_def e a split: sum.split)
  next
    case 3
    from laid_out_struct [OF assms(2)] 3 have "n = STRUCT_FLAG" by (auto simp: t)
    moreover from assms(3) 3 obtain h where "as_hash v = Some h" by (auto simp: t split: option.splits)
    ultimately show ?thesis by (auto simp: t e a split: sum.split)
  qed
qed

lemma new_value:
  assumes "perl_host host" and "laid_out t" and "fits host t v" and "0 \<notin> used st"
  shows "sv2ptr host t v 0 st = Inl OutOfMemory \<or>
    (\<exists>p st'. sv2ptr host t v 0 st = Inr (p, st') \<and> p \<noteq> 0 \<and> (p, at_sizeof t) \<in> set (st_blocks st') \<and>
       region p (at_sizeof t) \<inter> used st = {} \<and> 0 \<notin> region p (at_sizeof t) \<and>
       writes_only {} st st' \<and> stable {} st st' (\<lambda>h. ptr2sv host h t p = Inr v))"
proof (cases "Newxz host (at_sizeof t) st")
  case (Inl e)
  then show ?thesis using sv2ptr_new [OF assms(1-3)] Newxz_fails [OF Inl] by simp
next
  case (Inr r)
  then obtain a st1 where n: "Newxz host (at_sizeof t) st = Inr (a, st1)" by (cases r) auto
  note d = NewxzD [OF assms(1) n]
  let ?R = "region a (at_sizeof t)"
  have "?R \<subseteq> used st1" "0 \<notin> used st1" using d(3,5) assms(4) by auto
  from value_step [OF assms(3,1,2) this] obtain r where
    r: "sv2ptr host t v 0 st = map_sum id (Pair a) r" "done_right ?R st1 (\<lambda>h. ptr2sv host h t a = Inr v) r"
    using sv2ptr_new [OF assms(1-3)] n by auto
  show ?thesis
  proof (cases r)
    case (Inl e)
    with r show ?thesis by (simp add: done_right_def)
  next
    case (Inr st2)
    with r(2) have w: "writes_only ?R st1 st2" "stable ?R st1 st2 (\<lambda>h. ptr2sv host h t a = Inr v)"
      by (simp_all add: done_right_def)
    note w1 = Newxz_step [OF assms(1) n]
    have "used st - {} \<subseteq> used st1 - ?R" using d(4,5) by auto
    with w(1) w1 have "writes_only {} st st2" by (auto simp: writes_only_def)
    moreover have "stable {} st st2 (\<lambda>h. ptr2sv host h t a = Inr v)"
    proof -
      have "(used st2 - used st1) \<union> ?R \<subseteq> used st2 - used st" using w(1) w1 d(4,5) by (auto simp: writes_only_def)
      with w(2) show ?thesis by (auto simp: stable_def)
    qed
    moreover have "(a, at_sizeof t) \<in> set (st_blocks st2)" using d(7) w(1) by (auto simp: writes_only_def)
    ultimately show ?thesis using Inr r(1) d by simp
  qed
qed

text \<open>C4: What \<open>sv2ptr\<close> writes, \<open>ptr2sv\<close> reads: for every type laid out by \<open>Struct\<close> of truth values, numbers, characters,
  strings and such structs (no arrays, and no characters or strings outside of a struct), and every value that fits it,
  marshalling either fails for want of memory or gives the address of a block that was not in use, from which \<open>ptr2sv\<close>
  reads back the value. It leaves all memory that was in use in use and as it was; and the value depends on the memory
  that it took only: \<open>ptr2sv\<close> reads it from every memory that agrees there, whatever is overwritten elsewhere.\<close>

theorem sv2ptr_ptr2sv:
  assumes "perl_host host" and "laid_out t" and "fits host t v" and "0 \<notin> used st"
  shows "case sv2ptr host t v 0 st of
      Inl e \<Rightarrow> e = OutOfMemory
    | Inr (p, st') \<Rightarrow> ptr2sv host (st_mem st') t p = Inr v \<and> p \<noteq> 0 \<and>
        (\<forall>x \<in> used st. st_mem st' x = st_mem st x) \<and> used st \<subseteq> used st' \<and>
        region p (at_sizeof t) \<subseteq> used st' - used st \<and>
        (\<forall>h. (\<forall>x \<in> used st' - used st. h x = st_mem st' x) \<longrightarrow> ptr2sv host h t p = Inr v)"
proof (cases "sv2ptr host t v 0 st = Inl OutOfMemory")
  case False
  with new_value [OF assms] obtain p st' where p: "sv2ptr host t v 0 st = Inr (p, st')" "p \<noteq> 0"
    "(p, at_sizeof t) \<in> set (st_blocks st')" "region p (at_sizeof t) \<inter> used st = {}"
    "writes_only {} st st'" "stable {} st st' (\<lambda>h. ptr2sv host h t p = Inr v)" by blast
  from p(3) have "region p (at_sizeof t) \<subseteq> used st'" by (auto simp: used_def)
  with p show ?thesis by (auto simp: writes_only_def stable_def)
qed simp

lemma laid_out_place [simp]: "laid_out (place name off t) = laid_out t"
  by (cases t) (simp add: place_def)

lemma member_place [simp]:
  "is_char (place name off t) = is_char t" "is_string (place name off t) = is_string t"
  "field_name (place name off t) = Some name"
  by (simp_all add: is_char_def is_string_def field_name_def)

text \<open>\<open>Struct\<close> makes such types.\<close>

lemma T_Struct_laid_out:
  assumes "T_Struct types = Some s" and "at_sizeof s < 2 ^ 63" and "distinct (map fst types)"
    and "\<forall>(_, t) \<in> set types. is_char t \<or> is_string t \<or> laid_out t"
  shows "laid_out s"
proof -
  from assms(1) obtain store sz where l: "struct_layout 0 types = Some (store, sz)"
    and s: "s = AType STRUCT_FLAG (sz + perl_padding_needed_for sz 8) 8 None (Fields store) 1 NoAggr NoField None"
    by (rule T_Struct_SomeE)
  from struct_layout_members [OF l] have m: "members_from 0 store" "\<forall>f \<in> set store. member_end f \<le> sz" by auto
  from struct_layout_types [OF l] have ts: "list_all2 (\<lambda>(name, t) f. \<exists>off \<le> sz. f = place name off t) types store" .
  have "map field_name store = map (Some \<circ> fst) types"
    using ts by (induction rule: list_all2_induct) auto
  with assms(3) have "distinct (map field_name store)" by (simp add: distinct_map comp_inj_on)
  moreover have "\<forall>f \<in> set store. field_name f \<noteq> None \<and> (is_char f \<or> is_string f \<or> laid_out f)"
    by (rule list_all2_image [OF ts assms(4)]) auto
  ultimately show ?thesis
    using m padded_size [of sz] assms(2) by (auto simp: s num_flags_def)
qed

lemma sv2ptr_ptr2sv_witness:
  "\<exists>t p st'. T_Struct [(''id'', T_Short), (''name'', T_Pointer T_Char), (''grade'', T_Char)] = Some t \<and>
     sv2ptr demo_host t (SvHash [(''id'', SvInt (- 3) False), (''name'', SvStr [72, 105] True), (''grade'', SvStr [65] True)]) 0
       \<lparr>st_mem = (\<lambda>_. 0), st_blocks = []\<rparr> = Inr (p, st') \<and>
     ptr2sv demo_host (st_mem st') t p
       = Inr (SvHash [(''id'', SvInt (- 3) False), (''name'', SvStr [72, 105] True), (''grade'', SvStr [65] True)])"
proof -
  let ?v = "SvHash [(''id'', SvInt (- 3) False), (''name'', SvStr [72, 105] True), (''grade'', SvStr [65] True)]"
  let ?st = "\<lparr>st_mem = (\<lambda>_. 0), st_blocks = []\<rparr> :: store"
  let ?types = "[(''id'', T_Short), (''name'', T_Pointer T_Char), (''grade'', T_Char)]"
  let ?t = "AType STRUCT_FLAG 24 8 None
     (Fields [place ''id'' 0 T_Short, place ''name'' 8 (T_Pointer T_Char), place ''grade'' 16 T_Char]) 1 NoAggr NoField None"
  have t: "T_Struct ?types = Some ?t"
    by (simp add: T_Struct_def perl_padding_needed_for_def Type_new_def T_Pointer_def Let_def)
  have lo: "laid_out ?t"
    by (rule T_Struct_laid_out [OF t])
      (simp_all add: is_char_def is_string_def T_Pointer_def Type_new_def char_flags_def is_Pointer_def num_flags_def num_size_def)
  have fi: "fits demo_host ?t ?v" by code_simp
  have us: "0 \<notin> used ?st" by (simp add: used_def)
  have "case sv2ptr demo_host ?t ?v 0 ?st of Inl e \<Rightarrow> False | Inr _ \<Rightarrow> True"
    by (simp add: sv2ptr_flat_def sv2ptr_num_def sv2ptr_char_def ensure_def Newxz_def put_def demo_malloc bump_malloc_def
        perl_hostD [OF perl_host_demo] AXT_TYPE_OFFSET_def Let_def
        num_flags_def num_ok_def num_size_def place_def T_Pointer_def Type_new_def is_Pointer_def)
  then obtain p st' where r: "sv2ptr demo_host ?t ?v 0 ?st = Inr (p, st')"
    by (cases "sv2ptr demo_host ?t ?v 0 ?st") (simp_all only: sum.case split_paired_all)
  from sv2ptr_ptr2sv [OF perl_host_demo lo fi us] have "ptr2sv demo_host (st_mem st') ?t p = Inr ?v"
    unfolding r sum.case prod.case by (elim conjE)
  with t r show ?thesis by blast
qed


subsection \<open>Variables bound to an address\<close>

lemma heap_read_part: "k + n \<le> m \<Longrightarrow> heap_read h (a + of_nat k) n = take n (drop k (heap_read h a m))"
  by (rule nth_equalityI) (simp_all add: heap_read_def add.assoc)

text \<open>A value can be read wherever its bytes are.\<close>

lemma num_size_read:
  assumes "n \<in> set num_flags" and "heap_read h p (num_size n) = heap_read h q (num_size n)"
  shows "ptr2sv_num h n p = ptr2sv_num h n q"
  using assms(1)
proof (cases rule: num_flags_cases)
  case 5
  with assms(2) show ?thesis by (simp only: num_long)
qed (use assms(2) in \<open>simp_all add: num_size_def ptr2sv_num_def\<close>)

lemma read_member_moved:
  assumes "good_member f" and "heap_read h p (at_sizeof f) = heap_read h q (at_sizeof f)"
    and "laid_out f \<Longrightarrow> ptr2sv host h f p = ptr2sv host h f q"
  shows "read_member host h f p = read_member host h f q"
proof -
  consider "is_char f" | "is_string f" | "laid_out f" using assms(1) by (auto simp: good_member_def)
  then show ?thesis
  proof cases
    case 1
    with assms(2) have "h p = h q" by (simp add: is_char_def heap_read_def)
    with 1 show ?thesis by (auto simp: is_char_def read_member_def is_Pointer_def char_flags_def)
  next
    case 2
    with assms(2) show ?thesis by (simp add: is_string_def read_member_def)
  next
    case 3
    then have "\<not> is_Pointer f" "at_numeric f \<notin> {CHAR_FLAG, SCHAR_FLAG, UCHAR_FLAG}"
      using laid_out_numeric [of f] by (auto simp: is_Pointer_def num_flags_def)
    with assms(3) [OF 3] show ?thesis by (simp add: read_member_def)
  qed
qed

lemma ptr2sv_moved:
  "laid_out t \<Longrightarrow> heap_read h p (at_sizeof t) = heap_read h q (at_sizeof t) \<Longrightarrow>
     0 \<notin> region p (at_sizeof t) \<Longrightarrow> 0 \<notin> region q (at_sizeof t) \<Longrightarrow> ptr2sv host h t p = ptr2sv host h t q"
proof (induction t arbitrary: p q rule: laid_out.induct)
  case (1 n sz al off sub len ag slot12 sig)
  let ?t = "AType n sz al off sub len ag slot12 sig"
  have "p \<in> region p (at_sizeof ?t)" "q \<in> region q (at_sizeof ?t)" using laid_out_size [OF 1(2)] by simp_all
  with 1(4,5) have nz: "p \<noteq> 0" "q \<noteq> 0" by metis+
  consider "n = BOOL_FLAG" | "n \<noteq> BOOL_FLAG" "n \<in> set num_flags" | "n \<noteq> BOOL_FLAG" "n \<notin> set num_flags" by blast
  then show ?case
  proof cases
    case a: 1
    with 1(2,3) have "h p = h q" by (simp add: heap_read_def)
    with a nz show ?thesis by (simp add: ptr2sv_flat_def)
  next
    case a: 2
    with 1(2) have "sz = num_size n" by simp
    with 1(3) a have "ptr2sv_num h n p = ptr2sv_num h n q" by (intro num_size_read) simp_all
    with a nz num_flags_distinct [OF a(2)] show ?thesis by (simp add: ptr2sv_flat_num)
  next
    case a: 3
    from laid_out_struct [OF 1(2)] a obtain fs where fs: "n = STRUCT_FLAG" "sub = Fields fs" "sz < 2 ^ 63"
      "\<forall>f \<in> set fs. member_end f \<le> sz \<and> good_member f" by auto
    have m: "read_member host h f (p + of_nat (AXT_TYPE_OFFSET f)) = read_member host h f (q + of_nat (AXT_TYPE_OFFSET f))"
      if f: "f \<in> set fs" for f
    proof (rule read_member_moved)
      let ?o = "AXT_TYPE_OFFSET f"
      have e: "?o + at_sizeof f \<le> sz" using f fs(4) by (auto simp: member_end_def)
      show "good_member f" using f fs(4) by simp
      show r: "heap_read h (p + of_nat ?o) (at_sizeof f) = heap_read h (q + of_nat ?o) (at_sizeof f)"
        using 1(3) by (simp add: heap_read_part [OF e])
      assume "laid_out f"
      moreover have "region (p + of_nat ?o) (at_sizeof f) \<subseteq> region p sz" "region (q + of_nat ?o) (at_sizeof f) \<subseteq> region q sz"
        by (rule region_part [OF e], use fs(3) in simp)+
      ultimately show "ptr2sv host h f (p + of_nat ?o) = ptr2sv host h f (q + of_nat ?o)"
        using 1(1) [OF a fs(2) f] 1(4,5) r by auto
    qed
    have "set gs \<subseteq> set fs \<Longrightarrow> ptr2sv_struct host h (Fields gs) p = ptr2sv_struct host h (Fields gs) q" for gs
    proof (induction gs)
      case (Cons g gs)
      then have g: "g \<in> set fs" by simp
      with fs(4) obtain name where n: "field_name g = Some name" by (auto simp: good_member_def)
      show ?case unfolding ptr2sv_struct_Cons [of g name, OF n] m [OF g] using Cons by (simp split: sum.split)
    qed simp
    with fs nz show ?thesis by simp
  qed
qed


lemma safefree_block:
  assumes "(a, n) \<in> set (st_blocks st)"
  shows "\<exists>st'. safefree a st = (if a = 0 then Inr st else Inr st') \<and> st_mem st' = st_mem st \<and>
    set (st_blocks st') = {b \<in> set (st_blocks st). fst b \<noteq> a}"
  using assms by (auto simp: safefree_def image_iff intro!: exI [of _ "st\<lparr>st_blocks := filter (\<lambda>b. fst b \<noteq> a) (st_blocks st)\<rparr>"])

lemma fits_SvOK: "laid_out t \<Longrightarrow> fits host t v \<Longrightarrow> SvOK v"
  by (cases t; cases v) (auto split: if_splits)

text \<open>C15: Assigning to a pinned variable and reading it gives the value back: for the types and values of the round trip,
  \<open>set_pin\<close> either fails for want of memory or leaves memory in which \<open>get_pin\<close> reads the value, with every other
  byte in use unchanged and no block in use lost. The temporary block that \<open>sv2ptr\<close> took for the value is freed: the blocks
  that are left are those \<open>sv2ptr\<close> left, without it.\<close>

theorem pin_roundtrip:
  assumes "perl_host host" and "laid_out t" and "fits host t v" and "0 \<notin> used st"
    and "region ptr (at_sizeof t) \<subseteq> used st"
  shows "case set_pin host st t ptr v of
      Inl e \<Rightarrow> e = OutOfMemory
    | Inr st' \<Rightarrow> get_pin host st' t ptr = Inr v \<and>
        (\<forall>x \<in> used st - region ptr (at_sizeof t). st_mem st' x = st_mem st x) \<and> used st \<subseteq> used st' \<and>
        (\<exists>block st1. sv2ptr host t v 0 st = Inr (block, st1) \<and> (block, at_sizeof t) \<in> set (st_blocks st1) \<and>
           region block (at_sizeof t) \<inter> used st = {} \<and>
           set (st_blocks st') = {b \<in> set (st_blocks st1). fst b \<noteq> block})"
proof (cases "sv2ptr host t v 0 st = Inl OutOfMemory")
  case True
  then show ?thesis using fits_SvOK [OF assms(2,3)] by (simp add: set_pin_def)
next
  case False
  let ?n = "at_sizeof t"
  from False new_value [OF assms(1-4)] obtain p st1 where p: "sv2ptr host t v 0 st = Inr (p, st1)" "p \<noteq> 0"
    "(p, ?n) \<in> set (st_blocks st1)" "region p ?n \<inter> used st = {}" "0 \<notin> region p ?n"
    "writes_only {} st st1" "stable {} st st1 (\<lambda>h. ptr2sv host h t p = Inr v)" by blast
  let ?st2 = "put ptr (heap_read (st_mem st1) p ?n) st1"
  have n: "0 < ?n" "?n < 2 ^ 63" using laid_out_size [OF assms(2)] by auto
  have outside: "st_mem ?st2 x = st_mem st1 x" if "x \<notin> region ptr ?n" for x
    using that by (simp add: heap_write_outside)
  have "ptr2sv host (st_mem ?st2) t ptr = ptr2sv host (st_mem ?st2) t p"
  proof (rule ptr2sv_moved [OF assms(2)])
    have "heap_read (st_mem ?st2) ptr ?n = heap_read (st_mem st1) p ?n"
      using n(2) by (simp add: heap_read_write)
    also have "\<dots> = heap_read (st_mem ?st2) p ?n"
    proof (rule heap_read_cong)
      fix x assume "x \<in> region p ?n"
      with p(4) assms(5) have "x \<notin> region ptr ?n" by blast
      then show "st_mem st1 x = st_mem ?st2 x" by (rule outside [symmetric])
    qed (use n(2) in simp)
    finally show "heap_read (st_mem ?st2) ptr ?n = heap_read (st_mem ?st2) p ?n" .
    show "0 \<notin> region ptr ?n" "0 \<notin> region p ?n" using assms(4,5) p(5) by auto
  qed
  moreover have "ptr2sv host (st_mem ?st2) t p = Inr v"
    using p(7) assms(5) outside unfolding stable_def by (metis DiffD2 Un_empty_right subsetD)
  ultimately have v: "ptr2sv host (st_mem ?st2) t ptr = Inr v" by simp
  have kept: "st_mem ?st2 x = st_mem st x" if "x \<in> used st - region ptr ?n" for x
    using that outside [of x] p(6) by (simp add: writes_only_def)
  from safefree_block [of p ?n ?st2] p(2,3) obtain st3 where f: "safefree p ?st2 = Inr st3" "st_mem st3 = st_mem ?st2"
    "set (st_blocks st3) = {b \<in> set (st_blocks st1). fst b \<noteq> p}" by auto
  have "used st \<subseteq> used st3"
  proof
    fix x assume "x \<in> used st"
    then obtain a k where a: "(a, k) \<in> set (st_blocks st)" "x \<in> region a k" by (auto simp: used_def)
    have "a \<noteq> p"
    proof
      assume "a = p"
      moreover have "0 < k" using a(2) by (simp add: region_def)
      ultimately have "p \<in> used st" using a(1) region_start [of k p] unfolding used_def by blast
      moreover have "p \<in> region p ?n" using n(1) by simp
      ultimately show False using p(4) by blast
    qed
    moreover have "(a, k) \<in> set (st_blocks st1)" using a(1) p(6) by (auto simp: writes_only_def)
    ultimately have "(a, k) \<in> set (st_blocks st3)" by (simp add: f(3))
    with a(2) show "x \<in> used st3" unfolding used_def by blast
  qed
  with v kept f p(1-4) fits_SvOK [OF assms(2,3)] show ?thesis by (simp add: set_pin_def get_pin_def)
qed


text \<open>A C variable \<open>struct { short x; short y; }\<close> at the address 4096.\<close>

lemma pin_roundtrip_witness:
  "\<exists>t st'. T_Struct [(''x'', T_Short), (''y'', T_Short)] = Some t \<and>
     set_pin demo_host \<lparr>st_mem = (\<lambda>_. 0), st_blocks = [(4096, 8)]\<rparr> t 4096
       (SvHash [(''x'', SvInt 5 False), (''y'', SvInt (- 7) False)]) = Inr st' \<and>
     get_pin demo_host st' t 4096 = Inr (SvHash [(''x'', SvInt 5 False), (''y'', SvInt (- 7) False)])"
proof -
  let ?v = "SvHash [(''x'', SvInt 5 False), (''y'', SvInt (- 7) False)]"
  let ?st = "\<lparr>st_mem = (\<lambda>_. 0), st_blocks = [(4096, 8)]\<rparr> :: store"
  let ?t = "AType STRUCT_FLAG 8 8 None (Fields [place ''x'' 0 T_Short, place ''y'' 2 T_Short]) 1 NoAggr NoField None"
  have t: "T_Struct [(''x'', T_Short), (''y'', T_Short)] = Some ?t"
    by (simp add: T_Struct_def perl_padding_needed_for_def Type_new_def Let_def flip: numeral_2_eq_2)
  have lo: "laid_out ?t"
    by (rule T_Struct_laid_out [OF t]) (simp_all add: Type_new_def num_flags_def num_size_def)
  have fi: "fits demo_host ?t ?v" by code_simp
  have us: "0 \<notin> used ?st" "region 4096 (at_sizeof ?t) \<subseteq> used ?st" by (simp_all add: used_def region_def)
  have "case set_pin demo_host ?st ?t 4096 ?v of Inl e \<Rightarrow> False | Inr _ \<Rightarrow> True"
    by (simp add: set_pin_def safefree_def sv2ptr_flat_def sv2ptr_num_def ensure_def Newxz_def put_def demo_malloc bump_malloc_def
        perl_hostD [OF perl_host_demo] AXT_TYPE_OFFSET_def Let_def
        num_flags_def num_ok_def num_size_def place_def Type_new_def is_Pointer_def)
  then obtain st' where r: "set_pin demo_host ?st ?t 4096 ?v = Inr st'"
    by (cases "set_pin demo_host ?st ?t 4096 ?v") (simp_all only: sum.case)
  from pin_roundtrip [OF perl_host_demo lo fi us] have "get_pin demo_host st' ?t 4096 = Inr ?v"
    unfolding r sum.case by (elim conjE)
  with t r show ?thesis by blast
qed

end
