(* ===== verification/Affix_Dump.thy ===== *)
theory Affix_Dump
  imports Dyn_Prelude
begin

unbundle bit_operations_syntax

section \<open>Affix: the dump of memory\<close>

text \<open>
  \<open>_DumpHex\<close> of \<open>lib/Affix/Utils.cxx\<close>: what it prints for \<open>len\<close> bytes, with the loop and its buffer as in the code, and
  the lines of 16 bytes that it is meant to print. How \<open>%p\<close> writes the address is a parameter. The buffer, which the code never frees,
  is the list \<open>buff\<close>; its allocation is not part of the model.
\<close>

subsection \<open>The formats\<close>

fun fmt_u :: "nat \<Rightarrow> string" where
  "fmt_u n = (if n < 10 then [char_of (48 + n)] else fmt_u (n div 10) @ [char_of (48 + n mod 10)])"

declare fmt_u.simps [simp del]

definition fmt_03zu :: "nat \<Rightarrow> string" where
  "fmt_03zu n = replicate (3 - length (fmt_u n)) CHR ''0'' @ fmt_u n"

definition hex_digit :: "nat \<Rightarrow> char" where
  "hex_digit n = char_of (if n < 10 then 48 + n else 87 + n)"

definition fmt_02x :: "byte \<Rightarrow> string" where
  "fmt_02x b = [hex_digit (unat b div 16), hex_digit (unat b mod 16)]"

definition printable :: "byte \<Rightarrow> char" where
  "printable b = (if b < 0x20 \<or> 0x7e < b then CHR ''.'' else char_of (unat b))"

subsection \<open>The loop\<close>

text \<open>What was printed so far and the buffer \<open>buff\<close> of 17 characters, a C string.\<close>

type_synonym dump = "string \<times> string"

definition puts_buff :: "dump \<Rightarrow> dump" where
  "puts_buff s = (fst s @ '' | '' @ takeWhile (\<lambda>c. c \<noteq> CHR 0x00) (snd s) @ [CHR 0x0A], snd s)"

definition dump_byte :: "byte list \<Rightarrow> nat \<Rightarrow> dump \<Rightarrow> dump" where
  "dump_byte pc i s =
     (let s = (if i mod 16 = 0
               then (let s = (if i \<noteq> 0 then puts_buff s else s) in (fst s @ ''#  '' @ fmt_03zu i @ '' '', snd s))
               else s)
      in (fst s @ '' '' @ fmt_02x (pc ! i), (snd s)[i mod 16 := printable (pc ! i), i mod 16 + 1 := CHR 0x00]))"

fun dump_loop :: "byte list \<Rightarrow> nat \<Rightarrow> dump" where
  "dump_loop pc 0 = ([], replicate 17 CHR 0x00)"
| "dump_loop pc (Suc i) = dump_byte pc i (dump_loop pc i)"

text \<open>The padding of the last line, up to the next multiple of 16.\<close>

function dump_pad :: "nat \<Rightarrow> string" where
  "dump_pad i = (if i mod 16 \<noteq> 0 then ''   '' @ dump_pad (i + 1) else [])"
  by pat_completeness auto

termination
proof (relation "measure (\<lambda>i. (16 - i mod 16) mod 16)")
  fix i :: nat assume "i mod 16 \<noteq> 0"
  then show "(i + 1, i) \<in> measure (\<lambda>i. (16 - i mod 16) mod 16)"
    by (cases "i mod 16 = 15") (auto simp: mod_Suc)
qed simp

declare dump_pad.simps [simp del]

text \<open>\<open>Inl\<close>: the text printed before \<open>croak("ZERO LENGTH")\<close>.\<close>

definition DumpHex :: "(u64 \<Rightarrow> string) \<Rightarrow> u64 \<Rightarrow> byte list \<Rightarrow> string \<Rightarrow> nat \<Rightarrow> string + string" where
  "DumpHex fmt_p addr bytes file line =
     (let head = ''Dumping '' @ fmt_u (length bytes) @ '' bytes from '' @ fmt_p addr @ '' at '' @ file @
        '' line '' @ fmt_u line @ [CHR 0x0A] in
      if bytes = [] then Inl head
      else
        (let s = dump_loop bytes (length bytes) in
         Inr (head @ fst (puts_buff (fst s @ dump_pad (length bytes), snd s)))))"

subsection \<open>The lines\<close>

definition hex_cells :: "byte list \<Rightarrow> string" where
  "hex_cells bs = concat (map (\<lambda>b. '' '' @ fmt_02x b) bs)"

definition hex_start :: "byte list \<Rightarrow> nat \<Rightarrow> string" where
  "hex_start bs k = ''#  '' @ fmt_03zu (16 * k) @ '' '' @ hex_cells bs"

definition hex_line :: "byte list \<Rightarrow> nat \<Rightarrow> string" where
  "hex_line bs k = hex_start bs k @ replicate (3 * (16 - length bs)) CHR '' '' @ '' | '' @ map printable bs @ [CHR 0x0A]"

fun hex_lines :: "nat \<Rightarrow> byte list \<Rightarrow> string" where
  "hex_lines k [] = []"
| "hex_lines k (b # bs) = hex_line (take 16 (b # bs)) k @ hex_lines (Suc k) (drop 16 (b # bs))"

lemma printable_not_0: "printable b \<noteq> CHR 0x00"
proof
  assume "printable b = CHR 0x00"
  then have b: "\<not> b < 0x20" "char_of (unat b) = CHR 0x00" by (auto simp: printable_def split: if_splits)
  from b(2) have "of_char (char_of (unat b) :: char) = (0 :: nat)" by simp
  then have "unat b mod 256 = 0" by simp
  moreover have "unat b < 256" using unsigned_less [of b] by simp
  ultimately have "unat b = 0" by simp
  with b(1) show False by (simp add: unat_eq_zero)
qed

lemma dump_pad_eq: "r \<le> 16 \<Longrightarrow> 0 < r \<Longrightarrow> dump_pad (16 * q + r) = replicate (3 * (16 - r)) CHR '' ''"
proof (induction "16 - r" arbitrary: r)
  case 0
  then have "r = 16" by simp
  then show ?case by (simp add: dump_pad.simps)
next
  case (Suc n)
  then have r: "r < 16" "16 - r = Suc (16 - Suc r)" by simp_all
  with Suc.hyps(1) [of "Suc r"] Suc.hyps(2) have "dump_pad (16 * q + Suc r) = replicate (3 * (16 - Suc r)) CHR '' ''" by simp
  moreover have "(16 * q + r) mod 16 = r" using r by simp
  ultimately show ?case using r Suc.prems(2) by (subst dump_pad.simps) (simp add: numeral_3_eq_3)
qed

text \<open>After \<open>16 * q + r\<close> bytes the full lines are out and \<open>buff\<close> holds the current one.\<close>

definition at_line :: "byte list \<Rightarrow> nat \<Rightarrow> nat \<Rightarrow> dump \<Rightarrow> bool" where
  "at_line bs q r s \<longleftrightarrow>
     (let c = take r (drop (16 * q) bs) in
      fst s = concat (map (\<lambda>k. hex_line (take 16 (drop (16 * k) bs)) k) [0..<q]) @ hex_start c q \<and>
      length (snd s) = 17 \<and> take (Suc r) (snd s) = map printable c @ [CHR 0x00])"

lemma at_line_puts:
  assumes "at_line bs q r s" and "r \<le> 16" and "16 * q + r \<le> length bs"
  shows "takeWhile (\<lambda>c. c \<noteq> CHR 0x00) (snd s) = map printable (take r (drop (16 * q) bs))"
proof -
  let ?c = "map printable (take r (drop (16 * q) bs))"
  have "snd s = ?c @ CHR 0x00 # drop (Suc r) (snd s)"
    using assms(1) append_take_drop_id [of "Suc r" "snd s"] by (simp add: at_line_def Let_def)
  moreover have "takeWhile (\<lambda>c. c \<noteq> CHR 0x00) (?c @ CHR 0x00 # ys) = ?c" for ys
    by (subst takeWhile_append2) (use printable_not_0 in auto)
  ultimately show ?thesis by metis
qed

lemma hex_start_snoc: "hex_start (c @ [b]) q = hex_start c q @ '' '' @ fmt_02x b"
  by (simp add: hex_start_def hex_cells_def)

lemma chunk_snoc:
  "16 * q + r < length bs \<Longrightarrow> take (Suc r) (drop (16 * q) bs) = take r (drop (16 * q) bs) @ [bs ! (16 * q + r)]"
  by (simp add: take_Suc_conv_app_nth add.commute)

text \<open>The character of one byte goes behind those of the line, and its zero behind it.\<close>

lemma buff_snoc:
  assumes "length s = 17" and "r < 16" and "take r s = cs" and "length cs = r"
  shows "take (Suc (Suc r)) (s[r := a, Suc r := z]) = cs @ [a, z] \<and> length (s[r := a, Suc r := z]) = 17"
proof -
  have "take (Suc (Suc r)) (s[r := a, Suc r := z]) = take r s @ [a, z]"
    using assms(1,2) by (simp add: take_Suc_conv_app_nth)
  with assms show ?thesis by simp
qed

lemma dump_loop_line:
  "16 * q + r \<le> length bs \<Longrightarrow> 0 < r \<Longrightarrow> r \<le> 16 \<Longrightarrow> at_line bs q r (dump_loop bs (16 * q + r))"
proof (induction "16 * q + r" arbitrary: q r)
  case (Suc i)
  then obtain r' where r: "r = Suc r'" "i = 16 * q + r'" "r' < 16" by (cases r) auto
  let ?b = "bs ! i" and ?s = "dump_loop bs i" and ?c = "\<lambda>r. take r (drop (16 * q) bs)"
  have c: "?c r = ?c r' @ [?b]" using Suc.prems(1) chunk_snoc [of q r' bs] by (simp add: r)
  have l: "length (?c r') = r'" using Suc.prems(1) by (simp add: r)
  have m: "i mod 16 = r'" using r by simp
  have step: "dump_loop bs (16 * q + r) = dump_byte bs i ?s" by (simp add: r)
  show ?case
  proof (cases "r' = 0")
    case False
    with Suc.hyps(1) [of q r'] Suc.prems r have h: "at_line bs q r' ?s" by simp
    then have t: "take r' (snd ?s) = map printable (?c r')" "length (snd ?s) = 17"
      using l take_take [of r' "Suc r'" "snd ?s"] by (simp_all add: at_line_def Let_def)
    from buff_snoc [OF t(2) r(3) t(1)] l h False
    show ?thesis unfolding step at_line_def Let_def c hex_start_snoc
      by (simp add: dump_byte_def m r(1) Let_def)
  next
    case True
    then have i: "i = 16 * q" by (simp add: r)
    let ?start = "\<lambda>q. concat (map (\<lambda>k. hex_line (take 16 (drop (16 * k) bs)) k) [0..<q])"
    have p: "fst (if i \<noteq> 0 then puts_buff ?s else ?s) = ?start q \<and>
        snd (if i \<noteq> 0 then puts_buff ?s else ?s) = snd ?s \<and> length (snd ?s) = 17"
    proof (cases q)
      case (Suc k)
      with i have e: "i = 16 * k + 16" by simp
      with Suc.hyps(1) [of k 16] Suc.prems r True have h: "at_line bs k 16 ?s" by simp
      have l: "length (take 16 (drop (16 * k) bs)) = 16" using e Suc.prems(1) r by simp
      from at_line_puts [OF h] e Suc.prems(1) r True
      have b: "takeWhile (\<lambda>c. c \<noteq> CHR 0x00) (snd ?s) = map printable (take 16 (drop (16 * k) bs))" by simp
      from h have "fst ?s = ?start k @ hex_start (take 16 (drop (16 * k) bs)) k" "length (snd ?s) = 17"
        by (simp_all only: at_line_def Let_def)
      with b l have "fst (puts_buff ?s) = ?start (Suc k)" "length (snd ?s) = 17"
        by (simp_all add: puts_buff_def hex_line_def)
      with Suc i show ?thesis by (simp add: puts_buff_def)
    qed (simp add: i)
    have "take (Suc (Suc 0)) ((snd ?s)[0 := printable ?b, Suc 0 := CHR 0x00]) = [] @ [printable ?b, CHR 0x00]
        \<and> length ((snd ?s)[0 := printable ?b, Suc 0 := CHR 0x00]) = 17"
      by (rule buff_snoc) (use p in simp_all)
    moreover have "fst (dump_byte bs i ?s) = fst (if i \<noteq> 0 then puts_buff ?s else ?s) @ hex_start [?b] q"
      "snd (dump_byte bs i ?s) = (snd (if i \<noteq> 0 then puts_buff ?s else ?s))[0 := printable ?b, Suc 0 := CHR 0x00]"
      using m True by (simp_all add: dump_byte_def Let_def hex_start_def hex_cells_def i)
    moreover have "?c r = [?b]" using c True by simp
    ultimately show ?thesis using p unfolding step at_line_def Let_def by (simp add: r(1) True del: not_gr_zero neq0_conv)
  qed
qed simp

lemma hex_lines_map:
  "hex_lines n bs = concat (map (\<lambda>k. hex_line (take 16 (drop (16 * k) bs)) (n + k)) [0..<(length bs + 15) div 16])"
proof (induction n bs rule: hex_lines.induct)
  case (2 n b bs)
  let ?bs = "b # bs" and ?l = "\<lambda>bs n k. hex_line (take 16 (drop (16 * k) bs)) (n + k)"
  have l: "(length ?bs + 15) div 16 = Suc ((length (drop 16 ?bs) + 15) div 16)"
    by (cases "15 \<le> length bs") simp_all
  have d: "drop (16 + 16 * x) ?bs = drop (15 + 16 * x) bs" for x by (simp add: drop_Cons')
  have m: "map (?l ?bs n) [0..<Suc m] = ?l ?bs n 0 # map (?l (drop 16 ?bs) (Suc n)) [0..<m]" for m
    unfolding upt_conv_Cons [OF zero_less_Suc] map_Suc_upt [symmetric]
    by (simp add: comp_def d add.commute del: drop_Suc_Cons)
  show ?case unfolding l hex_lines.simps 2 m by simp
qed simp

lemma DumpHex_output:
  assumes "bytes \<noteq> []"
  shows "DumpHex fmt_p addr bytes file line =
    Inr (''Dumping '' @ fmt_u (length bytes) @ '' bytes from '' @ fmt_p addr @ '' at '' @ file @ '' line '' @
      fmt_u line @ [CHR 0x0A] @ hex_lines 0 bytes)"
proof -
  define q r where "q = (length bytes - 1) div 16" and "r = Suc ((length bytes - 1) mod 16)"
  with assms have n: "length bytes = 16 * q + r" "0 < r" "r \<le> 16" by (cases bytes, simp_all)+
  let ?s = "dump_loop bytes (length bytes)" and ?c = "take r (drop (16 * q) bytes)"
  have s: "at_line bytes q r ?s" unfolding n(1) by (rule dump_loop_line) (use n in simp_all)
  have c: "take 16 (drop (16 * q) bytes) = ?c" using n by simp
  have len: "(length bytes + 15) div 16 = Suc q" "length ?c = r" using n by simp_all
  from s have "fst ?s = concat (map (\<lambda>k. hex_line (take 16 (drop (16 * k) bytes)) k) [0..<q]) @ hex_start ?c q"
    by (simp only: at_line_def Let_def)
  moreover have "takeWhile (\<lambda>c. c \<noteq> CHR 0x00) (snd ?s) = map printable ?c"
    by (rule at_line_puts [OF s]) (use n in simp_all)
  moreover have "dump_pad (length bytes) = replicate (3 * (16 - r)) CHR '' ''"
    unfolding n(1) by (rule dump_pad_eq) (use n in simp_all)
  ultimately have "fst (puts_buff (fst ?s @ dump_pad (length bytes), snd ?s))
      = concat (map (\<lambda>k. hex_line (take 16 (drop (16 * k) bytes)) k) [0..<q]) @ hex_line ?c q"
    using len(2) by (simp add: puts_buff_def hex_line_def)
  also have "\<dots> = hex_lines 0 bytes" unfolding hex_lines_map len(1) by (simp add: c)
  finally show ?thesis using assms by (simp add: DumpHex_def Let_def)
qed

text \<open>C31: For memory of any positive length, \<open>DumpHex\<close> prints its header and the bytes in lines of 16: the offset, the
  bytes in hexadecimal, the padding of the last line and the characters, a dot for each that cannot be printed.\<close>

theorem DumpHex_lines:
  assumes "bytes \<noteq> []"
  shows "DumpHex fmt_p addr bytes file line =
    Inr (''Dumping '' @ fmt_u (length bytes) @ '' bytes from '' @ fmt_p addr @ '' at '' @ file @ '' line '' @
      fmt_u line @ [CHR 0x0A] @ hex_lines 0 bytes)"
  using assms by (rule DumpHex_output)

lemma DumpHex_lines_witness:
  "DumpHex (\<lambda>_. ''0x1000'') 0x1000 [72, 105, 0] ''t.pl'' 7 =
     Inr (''Dumping 3 bytes from 0x1000 at t.pl line 7'' @ [CHR 0x0A] @ ''#  000  48 69 00'' @
       replicate 39 CHR '' '' @ '' | Hi.'' @ [CHR 0x0A])"
  by (subst DumpHex_lines) code_simp+

end
