(* ===== verification/Affix_Pointer.thy ===== *)
theory Affix_Pointer
  imports Affix_Roundtrip Affix_Dump
begin

section \<open>Affix: pointer objects and the memory functions\<close>

text \<open>
  \<open>lib/Affix/Type/Pointer.cxx\<close>. Two kinds of objects are in use: the arrays of address, type, count and position
  (\<open>SvPtr\<close>), and references to a scalar that holds the address, which the functions after the comment \<open>Nothing below this
  has been updated to the new array based ::Pointer objects\<close> make and read.
\<close>

subsection \<open>Arguments and results\<close>

text \<open>
  A plain scalar or array object; a reference to an address blessed into \<open>Affix::Pointer::Unmanaged\<close>; one blessed into
  \<open>Affix::Pointer:Unmanaged\<close>, a class of its own that nothing declares a pointer.
\<close>

datatype arg = Val sv | AddrRef u64 | StrayRef u64

text \<open>
  The C library and Perl beyond \<open>host\<close>: \<open>realloc\<close> (blocks in use, block, new size), \<open>memcmp\<close> on the bytes it compares, what
  \<open>SvIV\<close> makes of the array behind a reference (not of the reference), and the address as \<open>%p\<close> writes it.
\<close>

record libc =
  h_realloc :: "(u64 \<times> nat) list \<Rightarrow> u64 \<Rightarrow> nat \<Rightarrow> u64 option"
  h_memcmp :: "byte list \<Rightarrow> byte list \<Rightarrow> u32"
  SvIV_array :: "sv \<Rightarrow> u64"
  h_fmt_p :: "u64 \<Rightarrow> string"

text \<open>\<open>sv_setref_pv\<close> makes no reference of \<open>NULL\<close> but an undefined scalar.\<close>

definition setref :: "(u64 \<Rightarrow> arg) \<Rightarrow> u64 \<Rightarrow> arg" where
  "setref f ptr = (if ptr = 0 then Val (SvUndef False) else f ptr)"

definition not_pointer :: "string \<Rightarrow> affix_error" where
  "not_pointer what = Croak (what @ '' is not of type Affix::Pointer'')"

abbreviation not_a_pointer :: "affix_error" where
  "not_a_pointer \<equiv> not_pointer ''ptr''"

text \<open>
  \<open>sv_derived_from(sv, "Affix::Pointer")\<close> with the address that \<open>SvIV(SvRV(sv))\<close> gives (\<open>None\<close>: not derived). A string that
  names the class is derived from it, and is no reference.
\<close>

definition pointer_classes :: "byte list list" where
  "pointer_classes = map (map of_char) [''Affix::Pointer'', ''Affix::Pointer::Unmanaged'', ''Affix::Ref'']"

definition scalar_address :: "libc \<Rightarrow> arg \<Rightarrow> (affix_error + u64) option" where
  "scalar_address c x =
     (case x of
        AddrRef a \<Rightarrow> Some (Inr a)
      | StrayRef a \<Rightarrow> None
      | Val (SvPtr a t n p) \<Rightarrow> Some (Inr (SvIV_array c (SvPtr a t n p)))
      | Val (SvStr bs u) \<Rightarrow> if bs \<in> set pointer_classes then Some (Inl (Crash ''SvRV of a string'')) else None
      | Val _ \<Rightarrow> None)"

text \<open>An argument that must be a pointer; one that may also be an integer; one that may also be a string. \<open>what\<close> is the
  argument as the message names it.\<close>

definition pointer_arg :: "libc \<Rightarrow> string \<Rightarrow> arg \<Rightarrow> affix_error + u64" where
  "pointer_arg c what x = (case scalar_address c x of None \<Rightarrow> Inl (not_pointer what) | Some r \<Rightarrow> r)"

definition address_arg :: "host \<Rightarrow> libc \<Rightarrow> string \<Rightarrow> arg \<Rightarrow> affix_error + u64" where
  "address_arg host c what x =
     (case scalar_address c x of
        Some r \<Rightarrow> r
      | None \<Rightarrow> (case x of Val v \<Rightarrow> if SvIOK v then Inr (SvIV host v) else Inl (not_pointer what) | _ \<Rightarrow> Inl (not_pointer what)))"

datatype memory = At u64 | Buffer "byte list"

definition source_arg :: "host \<Rightarrow> libc \<Rightarrow> string \<Rightarrow> arg \<Rightarrow> affix_error + memory" where
  "source_arg host c what x =
     (case scalar_address c x of
        Some r \<Rightarrow> map_sum id At r
      | None \<Rightarrow>
          (case x of
             Val v \<Rightarrow>
               if SvIOK v then Inr (At (SvIV host v))
               else if SvPOK v then Inr (Buffer (SvPV host v)) else Inl (not_pointer what)
           | _ \<Rightarrow> Inl (not_pointer what)))"

text \<open>Reading and writing a number of bytes; the buffer of a string ends with a zero.\<close>

fun mem_read :: "store \<Rightarrow> memory \<Rightarrow> nat \<Rightarrow> affix_error + byte list" where
  "mem_read st (At a) n = (if a = 0 \<and> 0 < n then Inl (Crash ''read from NULL'') else Inr (heap_read (st_mem st) a n))"
| "mem_read st (Buffer bs) n =
     (if n \<le> length bs + 1 then Inr (take n (bs @ [0])) else Inl (Crash ''read past a string''))"

definition mem_write :: "u64 \<Rightarrow> byte list \<Rightarrow> store \<Rightarrow> affix_error + store" where
  "mem_write a bs st = (if a = 0 \<and> bs \<noteq> [] then Inl (Crash ''write to NULL'') else Inr (put a bs st))"

definition first_char :: "host \<Rightarrow> sv \<Rightarrow> byte" where
  "first_char host v = (case SvPV host v of [] \<Rightarrow> 0 | b # _ \<Rightarrow> b)"

subsection \<open>Array objects\<close>

fun set_sizeof :: "nat \<Rightarrow> atype \<Rightarrow> atype" where
  "set_sizeof n (AType f sz al off sub len ag slot12 sig) = AType f n al off sub len ag slot12 sig"

definition Void_obj :: "u64 \<Rightarrow> nat \<Rightarrow> sv" where
  "Void_obj ptr sz = ptr2obj (set_sizeof sz (T_Pointer T_Void)) ptr"

definition Affix_malloc :: "host \<Rightarrow> sv \<Rightarrow> store \<Rightarrow> affix_error + arg \<times> store" where
  "Affix_malloc host sz st =
     (let n = unat (SvUV host sz) in
      case h_malloc host (st_blocks st) n of
        None \<Rightarrow> Inl OutOfMemory
      | Some a \<Rightarrow> Inr (Val (Void_obj a n), st\<lparr>st_blocks := (a, n) # st_blocks st\<rparr>))"

definition Affix_sv2ptr :: "host \<Rightarrow> sv \<Rightarrow> sv \<Rightarrow> store \<Rightarrow> affix_error + arg \<times> store" where
  "Affix_sv2ptr host type data st =
     (case type of
        SvType t \<Rightarrow>
          if is_Pointer t then map_sum id (\<lambda>(ptr, st). (Val (ptr2obj t ptr), st)) (sv2ptr host t data 0 st)
          else Inl (Croak ''type is not of type Affix::Type::Pointer'')
      | _ \<Rightarrow> Inl (Croak ''type is not of type Affix::Type::Pointer''))"

text \<open>\<open>AXT_POINTER_ADDR(array)\<close> takes for a reference what is the array already.\<close>

definition Affix_ptr2sv :: "sv \<Rightarrow> arg \<Rightarrow> affix_error + arg" where
  "Affix_ptr2sv type ptr =
     (case type of
        SvType t \<Rightarrow>
          (case ptr of
             Val (SvPtr a s c p) \<Rightarrow> Inl (Crash ''array taken for a reference'')
           | _ \<Rightarrow> Inl not_a_pointer)
      | _ \<Rightarrow> Inl (Croak ''type is not of type Affix::Type''))"

text \<open>The check of \<open>sv\<close>, \<open>raw\<close>, \<open>dump\<close> and \<open>free\<close> with the slots of the object.\<close>

definition array_object :: "arg \<Rightarrow> affix_error + u64 option \<times> atype \<times> nat" where
  "array_object x = (case x of Val (SvPtr a t c p) \<Rightarrow> Inr (a, t, p) | _ \<Rightarrow> Inl not_a_pointer)"

definition Affix_Pointer_sv :: "host \<Rightarrow> arg \<Rightarrow> store \<Rightarrow> affix_error + arg" where
  "Affix_Pointer_sv host x st =
     (case array_object x of
        Inl e \<Rightarrow> Inl e
      | Inr (None, t, p) \<Rightarrow> Inr (Val (SvUndef False))
      | Inr (Some a, t, p) \<Rightarrow> map_sum id Val (ptr2sv host (st_mem st) t (a + of_nat (at_sizeof t * p))))"

definition Affix_Pointer_raw :: "host \<Rightarrow> arg \<Rightarrow> sv \<Rightarrow> sv option \<Rightarrow> store \<Rightarrow> affix_error + arg" where
  "Affix_Pointer_raw host x sz utf8 st =
     (case array_object x of
        Inl e \<Rightarrow> Inl e
      | Inr (None, t, p) \<Rightarrow> Inr (Val (SvUndef False))
      | Inr (Some a, t, p) \<Rightarrow>
          map_sum id (\<lambda>bs. Val (SvStr bs (case utf8 of None \<Rightarrow> False | Some u \<Rightarrow> SvTRUE host u)))
            (mem_read st (At a) (unat (SvUV host sz))))"

text \<open>What \<open>dump\<close> prints, for the file and line of the Perl code.\<close>

definition Affix_Pointer_DumpHex :: "host \<Rightarrow> libc \<Rightarrow> arg \<Rightarrow> sv \<Rightarrow> string \<Rightarrow> nat \<Rightarrow> store \<Rightarrow> affix_error + string" where
  "Affix_Pointer_DumpHex host c x sz file line st =
     (case array_object x of
        Inl e \<Rightarrow> Inl e
      | Inr (None, t, p) \<Rightarrow> Inr []
      | Inr (Some a, t, p) \<Rightarrow>
          (case mem_read st (At a) (unat (SvUV host sz)) of
             Inl e \<Rightarrow> Inl e
           | Inr bs \<Rightarrow> map_sum (\<lambda>_. Croak ''ZERO LENGTH'') id (DumpHex (h_fmt_p c) a bs file line)))"

text \<open>\<open>free\<close> also sets its argument, the caller's scalar, to undef; the object is untouched. \<open>DESTROY\<close> only checks.\<close>

definition Affix_free :: "arg \<Rightarrow> store \<Rightarrow> affix_error + arg \<times> store" where
  "Affix_free x st =
     (case array_object x of
        Inl e \<Rightarrow> Inl e
      | Inr (a, t, p) \<Rightarrow>
          map_sum id (Pair (Val (SvUndef False))) (case a of None \<Rightarrow> Inr st | Some ptr \<Rightarrow> safefree ptr st))"

definition Affix_Pointer_DESTROY :: "arg \<Rightarrow> affix_error + unit" where
  "Affix_Pointer_DESTROY x =
     (case x of Val (SvPtr _ _ _ _) \<Rightarrow> Inr () | AddrRef _ \<Rightarrow> Inr () | _ \<Rightarrow> Inl not_a_pointer)"

text \<open>\<open>cast\<close>, a method of pointers, asks for a type object in the place of the pointer.\<close>

definition Affix_cast :: "host \<Rightarrow> libc \<Rightarrow> arg \<Rightarrow> atype \<Rightarrow> store \<Rightarrow> affix_error + arg \<times> string \<times> store" where
  "Affix_cast host c x type st =
     (case x of
        Val (SvType t) \<Rightarrow>
          (case sv2ptr host t (SvType t) 0 st of
             Inl e \<Rightarrow> Inl e
           | Inr (ptr, st) \<Rightarrow>
               (if ptr = 0 then Inr (Val (ptr2obj type 0), [], st)
                else
                  (case DumpHex (h_fmt_p c) ptr (heap_read (st_mem st) ptr 16) ''lib/Affix/Type/Pointer.cxx'' 39 of
                     Inl out \<Rightarrow> Inl (Croak ''ZERO LENGTH'')
                   | Inr out \<Rightarrow> Inr (Val (ptr2obj type ptr), out, st))))
      | _ \<Rightarrow> Inl (Croak ''type is not of type Affix::Type::Pointer''))"

subsection \<open>References to an address\<close>

text \<open>\<open>+\<close> and \<open>-\<close> are not registered; they take no notice of \<open>swap\<close>.\<close>

definition Affix_Pointer_plus :: "host \<Rightarrow> libc \<Rightarrow> arg \<Rightarrow> sv \<Rightarrow> affix_error + arg" where
  "Affix_Pointer_plus host c x other = map_sum id (\<lambda>a. setref AddrRef (a + SvIV host other)) (pointer_arg c ''ptr'' x)"

definition Affix_Pointer_minus :: "host \<Rightarrow> libc \<Rightarrow> arg \<Rightarrow> sv \<Rightarrow> affix_error + arg" where
  "Affix_Pointer_minus host c x other = map_sum id (\<lambda>a. setref AddrRef (a - SvIV host other)) (pointer_arg c ''ptr'' x)"

definition safecalloc :: "host \<Rightarrow> u64 \<Rightarrow> u64 \<Rightarrow> store \<Rightarrow> affix_error + u64 \<times> store" where
  "safecalloc host num sz st =
     (if sz = 0 \<or> 2 ^ 64 \<le> unat num * unat sz then Inl (Croak ''panic: memory wrap'')
      else Newxz host (unat num * unat sz) st)"

definition Affix_calloc :: "host \<Rightarrow> sv \<Rightarrow> sv \<Rightarrow> store \<Rightarrow> affix_error + arg \<times> store" where
  "Affix_calloc host num sz st =
     map_sum id (\<lambda>(a, st). (setref AddrRef a, st)) (safecalloc host (SvUV host num) (SvUV host sz) st)"

text \<open>\<open>saferealloc\<close>: size 0 frees, \<open>NULL\<close> allocates, otherwise the bytes that fit move along.\<close>

definition saferealloc :: "host \<Rightarrow> libc \<Rightarrow> u64 \<Rightarrow> nat \<Rightarrow> store \<Rightarrow> affix_error + u64 \<times> store" where
  "saferealloc host c ptr n st =
     (if n = 0 then map_sum id (Pair 0) (safefree ptr st)
      else if ptr = 0 then
        (case h_malloc host (st_blocks st) n of
           None \<Rightarrow> Inl OutOfMemory
         | Some a \<Rightarrow> Inr (a, st\<lparr>st_blocks := (a, n) # st_blocks st\<rparr>))
      else
        (case map_of (st_blocks st) ptr of
           None \<Rightarrow> Inl (Crash ''realloc of an unknown block'')
         | Some k \<Rightarrow>
             (case h_realloc c (st_blocks st) ptr n of
                None \<Rightarrow> Inl OutOfMemory
              | Some a \<Rightarrow>
                  Inr (a, put a (take n (heap_read (st_mem st) ptr k))
                    st\<lparr>st_blocks := (a, n) # filter (\<lambda>b. fst b \<noteq> ptr) (st_blocks st)\<rparr>))))"

text \<open>The result and what the caller's scalar becomes.\<close>

definition Affix_realloc :: "host \<Rightarrow> libc \<Rightarrow> arg \<Rightarrow> sv \<Rightarrow> store \<Rightarrow> affix_error + arg \<times> arg \<times> store" where
  "Affix_realloc host c x sz st =
     (case pointer_arg c ''ptr'' x of
        Inl e \<Rightarrow> Inl e
      | Inr ptr \<Rightarrow>
          map_sum id (\<lambda>(a, st). (setref AddrRef a, setref StrayRef a, st))
            (saferealloc host c ptr (unat (SvUV host sz)) st))"

definition Affix_memchr :: "host \<Rightarrow> libc \<Rightarrow> arg \<Rightarrow> sv \<Rightarrow> sv \<Rightarrow> store \<Rightarrow> affix_error + arg" where
  "Affix_memchr host c x ch count st =
     (case pointer_arg c ''ptr'' x of
        Inl e \<Rightarrow> Inl e
      | Inr ptr \<Rightarrow>
          (let n = unat (SvUV host count) in
           if ptr = 0 \<and> 0 < n then Inl (Crash ''read from NULL'')
           else
             (case find (\<lambda>i. st_mem st (ptr + of_nat i) = first_char host ch) [0..<n] of
                None \<Rightarrow> Inr (setref AddrRef 0)
              | Some i \<Rightarrow> Inr (setref AddrRef (ptr + of_nat i)))))"

definition Affix_memcmp :: "host \<Rightarrow> libc \<Rightarrow> arg \<Rightarrow> arg \<Rightarrow> sv \<Rightarrow> store \<Rightarrow> affix_error + arg" where
  "Affix_memcmp host c lhs rhs count st =
     (case address_arg host c ''ptr'' lhs of
        Inl e \<Rightarrow> Inl e
      | Inr l \<Rightarrow>
          (case source_arg host c ''dest'' rhs of
             Inl e \<Rightarrow> Inl e
           | Inr r \<Rightarrow>
               (let n = unat (SvUV host count) in
                case (mem_read st (At l) n, mem_read st r n) of
                  (Inr xs, Inr ys) \<Rightarrow> Inr (Val (newSViv (scast (h_memcmp c xs ys))))
                | (Inl e, _) \<Rightarrow> Inl e
                | (_, Inl e) \<Rightarrow> Inl e)))"

definition Affix_memset :: "host \<Rightarrow> libc \<Rightarrow> arg \<Rightarrow> sv \<Rightarrow> sv \<Rightarrow> store \<Rightarrow> affix_error + arg \<times> store" where
  "Affix_memset host c x ch count st =
     (case pointer_arg c ''dest'' x of
        Inl e \<Rightarrow> Inl e
      | Inr dest \<Rightarrow>
          map_sum id (Pair (setref AddrRef dest))
            (mem_write dest (replicate (unat (SvUV host count)) (first_char host ch)) st))"

text \<open>\<open>memcpy\<close> is undefined when the ranges overlap.\<close>

fun overlap :: "u64 \<Rightarrow> memory \<Rightarrow> nat \<Rightarrow> bool" where
  "overlap d (At s) n \<longleftrightarrow> unat (d - s) < n \<or> unat (s - d) < n"
| "overlap d (Buffer bs) n \<longleftrightarrow> False"

definition move_bytes :: "u64 \<Rightarrow> memory \<Rightarrow> nat \<Rightarrow> store \<Rightarrow> affix_error + arg \<times> store" where
  "move_bytes d s n st =
     (case mem_read st s n of Inl e \<Rightarrow> Inl e | Inr bs \<Rightarrow> map_sum id (Pair (setref AddrRef d)) (mem_write d bs st))"

definition Affix_memcpy :: "host \<Rightarrow> libc \<Rightarrow> arg \<Rightarrow> arg \<Rightarrow> sv \<Rightarrow> store \<Rightarrow> affix_error + arg \<times> store" where
  "Affix_memcpy host c dest src nitems st =
     (case address_arg host c ''dest'' dest of
        Inl e \<Rightarrow> Inl e
      | Inr d \<Rightarrow>
          (case source_arg host c ''dest'' src of
             Inl e \<Rightarrow> Inl e
           | Inr s \<Rightarrow>
               (let n = unat (SvUV host nitems) in
                if overlap d s n then Inl (Crash ''overlap in memcpy'') else move_bytes d s n st)))"

definition Affix_memmove :: "host \<Rightarrow> libc \<Rightarrow> arg \<Rightarrow> arg \<Rightarrow> sv \<Rightarrow> store \<Rightarrow> affix_error + arg \<times> store" where
  "Affix_memmove host c dest src nitems st =
     (case address_arg host c ''dest'' dest of
        Inl e \<Rightarrow> Inl e
      | Inr d \<Rightarrow>
          (case source_arg host c ''dest'' src of
             Inl e \<Rightarrow> Inl e
           | Inr s \<Rightarrow> move_bytes d s (unat (SvUV host nitems)) st))"

text \<open>\<open>strdup\<close> of the C string that the scalar is.\<close>

definition Affix_strdup :: "host \<Rightarrow> sv \<Rightarrow> store \<Rightarrow> arg \<times> store" where
  "Affix_strdup host v st =
     (let bs = takeWhile (\<lambda>b. b \<noteq> 0) (SvPV host v) @ [0] in
      case h_malloc host (st_blocks st) (length bs) of
        None \<Rightarrow> (setref AddrRef 0, st)
      | Some a \<Rightarrow> (setref AddrRef a, put a bs st\<lparr>st_blocks := (a, length bs) # st_blocks st\<rparr>))"

subsection \<open>Array objects from \<open>sv2ptr\<close> to \<open>free\<close>\<close>

lemma sv2ptr_T_Pointer:
  assumes "laid_out t" and "fits host t v"
  shows "sv2ptr host (T_Pointer t) v 0 st = sv2ptr host t v 0 st"
proof -
  have "SvOK v" by (rule fits_SvOK [OF assms])
  moreover have "pointer_object v = None"
    using assms by (cases t; cases v) (auto split: if_splits)
  moreover have "\<not> is_Pointer t"
    using laid_out_numeric [OF assms(1)] by (auto simp: is_Pointer_def num_flags_def)
  ultimately show ?thesis by (auto simp: T_Pointer_def)
qed

lemma is_Pointer_T_Pointer [simp]: "is_Pointer (T_Pointer t)"
  by (simp add: is_Pointer_def T_Pointer_def)

lemma Affix_sv2ptr_value:
  assumes "laid_out t" and "fits host t v"
  shows "Affix_sv2ptr host (SvType (T_Pointer t)) v st
    = map_sum id (\<lambda>(p, st). (Val (ptr2obj (T_Pointer t) p), st)) (sv2ptr host t v 0 st)"
  by (simp add: Affix_sv2ptr_def sv2ptr_T_Pointer [OF assms])

lemma ptr2sv_T_Pointer:
  assumes "laid_out t" and "p \<noteq> 0"
  shows "ptr2sv host h (T_Pointer t) p = ptr2sv host h t p"
  using laid_out_numeric [OF assms(1)] assms(2) by (auto simp: T_Pointer_def num_flags_def)

lemma safefree_twice:
  assumes "safefree a st = Inr st'" and "a \<noteq> 0"
  shows "safefree a st' = Inl (Crash ''free of an unknown block'')"
  using assms by (auto simp: safefree_def split: if_splits)

text \<open>C30: The life of a pointer object, for the types and values of the round trip: \<open>sv2ptr\<close> fails only for want of memory or
  makes an object whose \<open>sv\<close> is the value and whose \<open>raw\<close> bytes are those of the value; \<open>free\<close> of it undefines the
  variable, leaves memory as it was and gives back the block of the value and no other; through a copy of the object, \<open>free\<close>
  frees the block a second time.\<close>

theorem pointer_object_life:
  assumes "perl_host host" and "laid_out t" and "fits host t v" and "0 \<notin> used st"
  shows "case Affix_sv2ptr host (SvType (T_Pointer t)) v st of
      Inl e \<Rightarrow> e = OutOfMemory
    | Inr (x, st1) \<Rightarrow> Affix_Pointer_sv host x st1 = Inr (Val v) \<and>
        (\<exists>p st2. x = Val (SvPtr (Some p) (T_Pointer t) 1 0) \<and>
           Affix_Pointer_raw host x (SvInt (of_nat (at_sizeof t)) False) None st1
             = Inr (Val (SvStr (heap_read (st_mem st1) p (at_sizeof t)) False)) \<and>
           Affix_free x st1 = Inr (Val (SvUndef False), st2) \<and> st_mem st2 = st_mem st1 \<and>
           set (st_blocks st2) = {b \<in> set (st_blocks st1). fst b \<noteq> p} \<and> (p, at_sizeof t) \<in> set (st_blocks st1) \<and>
           Affix_free x st2 = Inl (Crash ''free of an unknown block''))"
proof (cases "sv2ptr host t v 0 st")
  case (Inl e)
  with new_value [OF assms] show ?thesis
    by (simp add: Affix_sv2ptr_value [OF assms(2,3)])
next
  case (Inr r)
  with new_value [OF assms] obtain p st1 where p: "sv2ptr host t v 0 st = Inr (p, st1)" "p \<noteq> 0"
    "(p, at_sizeof t) \<in> set (st_blocks st1)" "stable {} st st1 (\<lambda>h. ptr2sv host h t p = Inr v)" by auto
  have n: "unat (of_nat (at_sizeof t) :: u64) = at_sizeof t"
    using laid_out_size [OF assms(2)] by (simp add: unat_of_nat)
  let ?x = "Val (SvPtr (Some p) (T_Pointer t) 1 0)"
  have x: "Affix_sv2ptr host (SvType (T_Pointer t)) v st = Inr (?x, st1)"
    using p(1,2) by (simp add: Affix_sv2ptr_value [OF assms(2,3)] ptr2obj_def)
  have v: "Affix_Pointer_sv host ?x st1 = Inr (Val v)"
    using p(4) ptr2sv_T_Pointer [OF assms(2) p(2)] by (simp add: Affix_Pointer_sv_def array_object_def stable_def)
  from safefree_block [OF p(3)] p(2) obtain st2 where f: "safefree p st1 = Inr st2" "st_mem st2 = st_mem st1"
    "set (st_blocks st2) = {b \<in> set (st_blocks st1). fst b \<noteq> p}" by auto
  have "Affix_Pointer_raw host ?x (SvInt (of_nat (at_sizeof t)) False) None st1
      = Inr (Val (SvStr (heap_read (st_mem st1) p (at_sizeof t)) False))"
    using p(2) n by (simp add: Affix_Pointer_raw_def array_object_def perl_hostD [OF assms(1)])
  with v f p(3) safefree_twice [OF f(1) p(2)] show ?thesis
    by (simp add: x Affix_free_def array_object_def)
qed

text \<open>A \<open>Pointer[Short]\<close> from 7 at the first free address.\<close>

lemma pointer_object_life_witness:
  "\<exists>x st1. Affix_sv2ptr demo_host (SvType (T_Pointer T_Short)) (SvInt 7 False) \<lparr>st_mem = (\<lambda>_. 0), st_blocks = []\<rparr> = Inr (x, st1) \<and>
     Affix_Pointer_sv demo_host x st1 = Inr (Val (SvInt 7 False)) \<and>
     (\<exists>st2. Affix_free x st1 = Inr (Val (SvUndef False), st2) \<and> Affix_free x st2 = Inl (Crash ''free of an unknown block''))"
proof -
  let ?st = "\<lparr>st_mem = (\<lambda>_. 0), st_blocks = []\<rparr> :: store"
  have lo: "laid_out T_Short" by (simp add: Type_new_def num_flags_def num_size_def)
  have fi: "fits demo_host T_Short (SvInt 7 False)" by code_simp
  have us: "0 \<notin> used ?st" by (simp add: used_def)
  have "case Affix_sv2ptr demo_host (SvType (T_Pointer T_Short)) (SvInt 7 False) ?st of Inl e \<Rightarrow> False | Inr _ \<Rightarrow> True"
    unfolding Affix_sv2ptr_value [OF lo fi]
    by (simp add: sv2ptr_flat_def sv2ptr_num_def ensure_def Newxz_def put_def demo_malloc bump_malloc_def Let_def
        num_flags_def num_ok_def num_size_def Type_new_def is_Pointer_def)
  then obtain x st1 where r: "Affix_sv2ptr demo_host (SvType (T_Pointer T_Short)) (SvInt 7 False) ?st = Inr (x, st1)"
    by (cases "Affix_sv2ptr demo_host (SvType (T_Pointer T_Short)) (SvInt 7 False) ?st") (simp_all only: sum.case split_paired_all)
  from pointer_object_life [OF perl_host_demo lo fi us] r show ?thesis unfolding r sum.case prod.case by blast
qed

subsection \<open>References to an address\<close>

lemma overlap_region: "overlap d (At a) n \<longleftrightarrow> region d n \<inter> region a n \<noteq> {}"
proof
  assume "overlap d (At a) n"
  then have "(d \<in> region a n \<or> a \<in> region d n) \<and> 0 < n" by (auto simp: region_def)
  then show "region d n \<inter> region a n \<noteq> {}" by (auto intro: region_start)
next
  assume "region d n \<inter> region a n \<noteq> {}"
  then obtain x where x: "unat (x - d) < n" "unat (x - a) < n" by (auto simp: region_def)
  have near: "unat (p - q) < n" if "unat (x - p) \<le> unat (x - q)" "unat (x - q) < n" for p q
  proof -
    have "p - q = (x - q) - (x - p)" by simp
    then have "unat (p - q) = unat (x - q) - unat (x - p)" using that(1) by (metis unat_sub word_le_nat_alt)
    with that(2) show ?thesis by simp
  qed
  from near [of d a] near [of a d] x show "overlap d (At a) n" by (cases "unat (x - d) \<le> unat (x - a)") auto
qed

lemma mem_write_ok: "a \<noteq> 0 \<Longrightarrow> mem_write a bs st = Inr (put a bs st)"
  by (simp add: mem_write_def)

lemma memmove_at:
  assumes "address_arg host c ''dest'' dest = Inr d" and "source_arg host c ''dest'' src = Inr (At a)"
    and "d \<noteq> 0" and "a \<noteq> 0" and "n = unat (SvUV host nitems)"
  shows "Affix_memmove host c dest src nitems st = Inr (AddrRef d, put d (heap_read (st_mem st) a n) st)"
    and "Affix_memcpy host c dest src nitems st =
      (if region d n \<inter> region a n = {} then Affix_memmove host c dest src nitems st else Inl (Crash ''overlap in memcpy''))"
  using assms by (simp_all add: Affix_memmove_def Affix_memcpy_def move_bytes_def mem_write_ok setref_def Let_def
      overlap_region del: overlap.simps)

text \<open>Between two addresses, given as references or integers, \<open>memmove\<close> makes the destination the bytes that the source had,
  also when they overlap, and changes nothing else; \<open>memcpy\<close> does the same on ranges that do not overlap, after which
  \<open>memcmp\<close> finds them equal.\<close>

lemma memory_copies:
  assumes "address_arg host c ''dest'' dest = Inr d" and "source_arg host c ''dest'' src = Inr (At a)"
    and "d \<noteq> 0" and "a \<noteq> 0" and "n = unat (SvUV host nitems)" and "\<And>bs. h_memcmp c bs bs = 0"
  shows "\<exists>st'. Affix_memmove host c dest src nitems st = Inr (AddrRef d, st') \<and>
      heap_read (st_mem st') d n = heap_read (st_mem st) a n \<and>
      (\<forall>x. x \<notin> region d n \<longrightarrow> st_mem st' x = st_mem st x) \<and> st_blocks st' = st_blocks st \<and>
      (if region d n \<inter> region a n = {}
       then Affix_memcpy host c dest src nitems st = Inr (AddrRef d, st') \<and>
         Affix_memcmp host c (AddrRef d) (AddrRef a) nitems st' = Inr (Val (SvInt 0 False))
       else Affix_memcpy host c dest src nitems st = Inl (Crash ''overlap in memcpy''))"
proof -
  let ?bs = "heap_read (st_mem st) a n" and ?st = "put d (heap_read (st_mem st) a n) st"
  have n: "n < 2 ^ 64" using assms(5) unsigned_less [of "SvUV host nitems"] by simp
  have d: "heap_read (st_mem ?st) d n = ?bs" using n by (simp add: heap_read_write)
  have o: "st_mem ?st x = st_mem st x" if "x \<notin> region d n" for x
    using that by (simp add: heap_write_outside)
  have "Affix_memcmp host c (AddrRef d) (AddrRef a) nitems ?st = Inr (Val (SvInt 0 False))"
    if "region d n \<inter> region a n = {}"
  proof -
    have "heap_read (st_mem ?st) a n = ?bs"
      by (rule heap_read_cong [OF n]) (use o that in blast)
    with d assms(3-6) show ?thesis
      by (simp add: Affix_memcmp_def address_arg_def source_arg_def scalar_address_def newSViv_def)
  qed
  with d o memmove_at [OF assms(1-5)] show ?thesis by (intro exI [of _ ?st]) simp
qed

definition demo_libc :: libc where
  "demo_libc = \<lparr>h_realloc = \<lambda>blocks p n. bump_malloc blocks n, h_memcmp = \<lambda>xs ys. if xs = ys then 0 else 1,
     SvIV_array = \<lambda>_. 0x7000, h_fmt_p = \<lambda>_. []\<rparr>"

lemma memory_copies_witness:
  "\<exists>st'. Affix_memcpy demo_host demo_libc (AddrRef 0x2000) (Val (SvInt 0x1000 False)) (SvInt 4 False)
       \<lparr>st_mem = (\<lambda>a. ucast a + 1), st_blocks = []\<rparr> = Inr (AddrRef 0x2000, st') \<and>
     heap_read (st_mem st') 0x2000 4 = [1, 2, 3, 4]"
proof -
  let ?st = "\<lparr>st_mem = (\<lambda>a. ucast a + 1), st_blocks = []\<rparr> :: store"
  have a: "address_arg demo_host demo_libc ''dest'' (AddrRef 0x2000) = Inr 0x2000"
    "source_arg demo_host demo_libc ''dest'' (Val (SvInt 0x1000 False)) = Inr (At 0x1000)"
    by (simp_all add: address_arg_def source_arg_def scalar_address_def perl_hostD [OF perl_host_demo])
  have n: "4 = unat (SvUV demo_host (SvInt 4 False))" by (simp add: perl_hostD [OF perl_host_demo])
  have "\<not> overlap 0x2000 (At 0x1000) 4" by simp
  then have "region 0x2000 4 \<inter> region (0x1000 :: u64) 4 = {}" unfolding overlap_region by blast
  moreover have "heap_read (st_mem ?st) 0x1000 4 = [1, 2, 3, 4]"
    by (simp add: heap_read_def upt_rec)
  ultimately show ?thesis
    using memory_copies [OF a _ _ n, of ?st] by (auto simp: demo_libc_def)
qed

text \<open>\<open>memset\<close> fills the memory and \<open>memchr\<close> finds the first byte that is the character.\<close>

lemma memset_at:
  assumes "pointer_arg c ''dest'' x = Inr d" and "d \<noteq> 0" and "n = unat (SvUV host count)"
  shows "\<exists>st'. Affix_memset host c x ch count st = Inr (AddrRef d, st') \<and>
    heap_read (st_mem st') d n = replicate n (first_char host ch) \<and>
    (\<forall>y. y \<notin> region d n \<longrightarrow> st_mem st' y = st_mem st y) \<and> st_blocks st' = st_blocks st"
proof -
  have "n < 2 ^ 64" using assms(3) unsigned_less [of "SvUV host count"] by simp
  with assms show ?thesis
    by (simp add: Affix_memset_def mem_write_ok setref_def heap_read_write heap_write_outside)
qed

lemma memchr_at:
  assumes "pointer_arg c ''ptr'' x = Inr a" and "0 \<notin> region a n" and "n = unat (SvUV host count)"
  shows "\<forall>i < n. st_mem st (a + of_nat i) \<noteq> first_char host ch \<Longrightarrow>
      Affix_memchr host c x ch count st = Inr (Val (SvUndef False))"
    and "i < n \<Longrightarrow> st_mem st (a + of_nat i) = first_char host ch \<Longrightarrow>
      \<forall>j < i. st_mem st (a + of_nat j) \<noteq> first_char host ch \<Longrightarrow>
      Affix_memchr host c x ch count st = Inr (AddrRef (a + of_nat i))"
proof -
  let ?f = "find (\<lambda>i. st_mem st (a + of_nat i) = first_char host ch) [0..<n]"
  have n: "n < 2 ^ 64" using assms(3) unsigned_less [of "SvUV host count"] by simp
  have nz: "a + of_nat i \<noteq> 0" if "i < n" for i
    using assms(2) region_offset [OF that n, of a] by metis
  have a: "\<not> (a = 0 \<and> 0 < n)" using nz [of 0] by auto
  {
    assume "\<forall>i < n. st_mem st (a + of_nat i) \<noteq> first_char host ch"
    then have "?f = None" by (simp add: find_None_iff)
    with a assms show "Affix_memchr host c x ch count st = Inr (Val (SvUndef False))"
      by (simp add: Affix_memchr_def setref_def Let_def del: not_gr_zero neq0_conv)
  next
    assume i: "i < n" "st_mem st (a + of_nat i) = first_char host ch" "\<forall>j < i. st_mem st (a + of_nat j) \<noteq> first_char host ch"
    then have "?f = Some i" by (auto simp: find_Some_iff intro!: exI [of _ i])
    with a assms nz [OF i(1)] show "Affix_memchr host c x ch count st = Inr (AddrRef (a + of_nat i))"
      by (simp add: Affix_memchr_def setref_def Let_def del: not_gr_zero neq0_conv)
  }
qed

subsection \<open>The two kinds do not mix\<close>

lemma only_arrays [simp]:
  "array_object (AddrRef a) = Inl not_a_pointer" "array_object (StrayRef a) = Inl not_a_pointer"
  by (simp_all add: array_object_def)

lemma pointer_arg_simps [simp]:
  "pointer_arg c what (AddrRef a) = Inr a" "pointer_arg c what (StrayRef a) = Inl (not_pointer what)"
  by (simp_all add: pointer_arg_def scalar_address_def)

text \<open>\<open>calloc\<close> gives zeroed memory behind a reference that \<open>free\<close> rejects, so that no function of Affix gives it back but
  \<open>realloc\<close> with size 0. \<open>realloc\<close> to another size keeps the bytes that fit and returns a reference to the new block, but
  what it stores in the caller's variable is not a pointer to any function that asks for one.\<close>

lemma calloc_realloc:
  assumes "perl_host host" and "\<And>blocks p k b. h_realloc c blocks p k = Some b \<Longrightarrow> b \<noteq> 0"
    and "Affix_calloc host num sz st = Inr (x, st1)"
    and "m = unat (SvUV host num) * unat (SvUV host sz)" and "n = unat (SvUV host new)" and "0 < n"
  shows "\<exists>a. x = AddrRef a \<and> (a, m) \<in> set (st_blocks st1) \<and> heap_read (st_mem st1) a m = replicate m 0 \<and>
      Affix_free x st1 = Inl not_a_pointer \<and>
      (case Affix_realloc host c x new st1 of
         Inl e \<Rightarrow> e = OutOfMemory
       | Inr (y, x', st2) \<Rightarrow>
           \<exists>b. y = AddrRef b \<and> heap_read (st_mem st2) b (min n m) = replicate (min n m) 0 \<and>
             Affix_realloc host c x' new st2 = Inl not_a_pointer \<and> Affix_free x' st2 = Inl not_a_pointer \<and>
             Affix_Pointer_sv host x' st2 = Inl not_a_pointer)"
proof -
  from assms(3,4) obtain a where x: "x = setref AddrRef a" and a: "Newxz host m st = Inr (a, st1)"
    by (cases "Newxz host m st") (auto simp: Affix_calloc_def safecalloc_def split: if_splits)
  note d = NewxzD [OF assms(1) a]
  have r: "heap_read (st_mem st1) a m = replicate m 0" unfolding d(6) using d(2) by (simp add: heap_read_write)
  have "case Affix_realloc host c x new st1 of
         Inl e \<Rightarrow> e = OutOfMemory
       | Inr (y, x', st2) \<Rightarrow> \<exists>b. y = AddrRef b \<and> x' = StrayRef b \<and> heap_read (st_mem st2) b (min n m) = replicate (min n m) 0"
  proof (cases "h_realloc c (st_blocks st1) a n")
    case None
    with x d(1,7) assms(5,6) show ?thesis by (simp add: setref_def Affix_realloc_def saferealloc_def)
  next
    case (Some b)
    have "heap_read (heap_write (st_mem st1) b (replicate (min n m) 0)) b (min n m) = replicate (min n m) 0"
      by (rule heap_read_write) (use d(2) in simp_all)
    with Some x d(1,7) assms(2) [OF Some] assms(5,6) r show ?thesis
      by (simp add: setref_def Affix_realloc_def saferealloc_def)
  qed
  then show ?thesis using x d(1,7) r
    by (auto simp: setref_def Affix_free_def Affix_realloc_def Affix_Pointer_sv_def split: sum.splits)
qed

lemma calloc_realloc_witness:
  "\<exists>x st1. Affix_calloc demo_host (SvInt 4 False) (SvInt 8 False) \<lparr>st_mem = (\<lambda>_. 9), st_blocks = []\<rparr> = Inr (x, st1) \<and>
     heap_read (st_mem st1) 4096 32 = replicate 32 0 \<and> Affix_free x st1 = Inl not_a_pointer"
proof -
  let ?st = "\<lparr>st_mem = (\<lambda>_. 9), st_blocks = []\<rparr> :: store" and ?n = "SvInt 4 False" and ?s = "SvInt 8 False"
  have "\<exists>st1. Affix_calloc demo_host ?n ?s ?st = Inr (AddrRef 4096, st1)"
    by (simp add: Affix_calloc_def safecalloc_def perl_hostD [OF perl_host_demo] Newxz_def demo_malloc bump_malloc_def setref_def)
  then obtain st1 where c: "Affix_calloc demo_host ?n ?s ?st = Inr (AddrRef 4096, st1)" by blast
  have m: "32 = unat (SvUV demo_host ?n) * unat (SvUV demo_host ?s)" "64 = unat (SvUV demo_host (SvInt 64 False))"
    by (simp_all add: perl_hostD [OF perl_host_demo])
  have z: "b \<noteq> 0" if "h_realloc demo_libc blocks p k = Some b" for blocks p k b
    using that bump_malloc_fresh [of blocks k b] by (simp add: demo_libc_def)
  from calloc_realloc [OF perl_host_demo z c m] c show ?thesis by auto
qed

text \<open>A pointer object that \<open>malloc\<close> made is misread by the functions for references: \<open>memset\<close> on it fills memory at what
  \<open>SvIV\<close> makes of the array behind the object, and where that is none of the blocks, the allocated memory keeps its
  bytes; \<open>realloc\<close> of it asks for a block that the allocator does not know.\<close>

lemma malloc_memset_misses:
  assumes "Affix_malloc host sz st = Inr (Val obj, st1)" and "SvIV_array c obj = q" and "q \<noteq> 0"
    and "k = unat (SvUV host count)" and "region q k \<inter> used st1 = {}" and "q \<notin> fst ` set (st_blocks st1)"
  shows "\<exists>st2. Affix_memset host c (Val obj) ch count st1 = Inr (AddrRef q, st2) \<and>
      heap_read (st_mem st2) q k = replicate k (first_char host ch) \<and>
      (\<forall>x \<in> used st1. st_mem st2 x = st_mem st1 x) \<and>
      (SvUV host new \<noteq> 0 \<longrightarrow>
         Affix_realloc host c (Val obj) new st1 = Inl (Crash ''realloc of an unknown block''))"
proof -
  from assms(1) obtain a where "obj = Void_obj a (unat (SvUV host sz))"
    by (auto simp: Affix_malloc_def Let_def split: option.splits)
  then have p: "pointer_arg c what (Val obj) = Inr q" for what
    using assms(2) by (simp add: pointer_arg_def scalar_address_def Void_obj_def ptr2obj_def)
  have "map_of (st_blocks st1) q = None" using assms(6) by (simp add: map_of_eq_None_iff)
  then have "SvUV host new \<noteq> 0 \<longrightarrow> Affix_realloc host c (Val obj) new st1 = Inl (Crash ''realloc of an unknown block'')"
    using assms(3) by (simp add: Affix_realloc_def p saferealloc_def unat_eq_zero)
  moreover from memset_at [OF p assms(3,4)] assms(5)
  obtain st2 where "Affix_memset host c (Val obj) ch count st1 = Inr (AddrRef q, st2)"
    "heap_read (st_mem st2) q k = replicate k (first_char host ch)" "\<forall>x \<in> used st1. st_mem st2 x = st_mem st1 x"
    by blast
  ultimately show ?thesis by blast
qed

lemma malloc_memset_misses_witness:
  "\<exists>obj st1 st2. Affix_malloc demo_host (SvInt 8 False) \<lparr>st_mem = (\<lambda>_. 9), st_blocks = []\<rparr> = Inr (Val obj, st1) \<and>
     Affix_memset demo_host demo_libc (Val obj) (SvStr [65] False) (SvInt 8 False) st1 = Inr (AddrRef 0x7000, st2) \<and>
     heap_read (st_mem st2) 0x7000 8 = replicate 8 65"
proof -
  let ?st = "\<lparr>st_mem = (\<lambda>_. 9), st_blocks = []\<rparr> :: store"
  let ?st1 = "\<lparr>st_mem = (\<lambda>_. 9), st_blocks = [(4096, 8)]\<rparr> :: store" and ?o = "Void_obj 4096 8"
  have m: "Affix_malloc demo_host (SvInt 8 False) ?st = Inr (Val ?o, ?st1)"
    by (simp add: Affix_malloc_def perl_hostD [OF perl_host_demo] demo_malloc bump_malloc_def)
  have q: "SvIV_array demo_libc ?o = 0x7000" by (simp add: demo_libc_def)
  have k: "8 = unat (SvUV demo_host (SvInt 8 False))" by (simp add: perl_hostD [OF perl_host_demo])
  have "\<not> overlap 0x7000 (At 4096) 8" by simp
  then have r: "region 0x7000 8 \<inter> used ?st1 = {}" unfolding overlap_region by (simp add: used_def)
  have c: "first_char demo_host (SvStr [65] False) = 65" by (simp add: first_char_def perl_hostD [OF perl_host_demo])
  have "q = 0x7000 \<Longrightarrow> q \<noteq> 0" "q = 0x7000 \<Longrightarrow> q \<notin> fst ` set (st_blocks ?st1)" for q :: u64 by simp_all
  from malloc_memset_misses [OF m q this(1) k r this(2), of "SvStr [65] False"] m c show ?thesis by auto
qed

text \<open>\<open>cast\<close> rejects every pointer, \<open>ptr2sv\<close> reads a buffer as an array object.\<close>

lemma cast_of_pointer: "Affix_cast host c (Val (SvPtr a t n p)) type st = Inl (Croak ''type is not of type Affix::Type::Pointer'')"
  by (simp add: Affix_cast_def)

lemma ptr2sv_of_pointer: "Affix_ptr2sv (SvType s) (Val (SvPtr a t n p)) = Inl (Crash ''array taken for a reference'')"
  by (simp add: Affix_ptr2sv_def)

text \<open>What \<open>dump\<close> prints of an object.\<close>

lemma dump_of_pointer:
  assumes "a \<noteq> 0" and "n = unat (SvUV host sz)" and "0 < n"
  shows "Affix_Pointer_DumpHex host c (Val (SvPtr (Some a) t k p)) sz file line st =
    Inr (''Dumping '' @ fmt_u n @ '' bytes from '' @ h_fmt_p c a @ '' at '' @ file @ '' line '' @ fmt_u line @ [CHR 0x0A] @
      hex_lines 0 (heap_read (st_mem st) a n))"
proof -
  have "heap_read (st_mem st) a n \<noteq> []" using assms(3) by (simp add: heap_read_def)
  with assms(1,2) show ?thesis
    by (simp add: Affix_Pointer_DumpHex_def array_object_def DumpHex_output)
qed

end
