(* ===== verification/Affix_Call.thy ===== *)
theory Affix_Call
  imports Affix_Roundtrip Args_X64
begin

unbundle bit_operations_syntax

section \<open>Affix: calls of C functions from Perl\<close>

text \<open>
  \<open>Affix_fiction\<close>, the implementation of \<open>affix\<close> and \<open>wrap\<close>, and \<open>Fiction_trigger\<close>, the code behind every sub that they
  make (\<open>lib/Affix.cxx\<close>), on any call VM of the library.
\<close>

subsection \<open>Functions and how they are made\<close>

text \<open>The structure \<open>fiction\<close>; a \<open>NULL\<close> is \<open>None\<close>, \<open>fi_res\<close> the scalar that all calls return.\<close>

record fiction =
  fi_lib :: u64
  fi_symbol :: "byte list"
  fi_entry :: u64
  fi_signature :: "char list option"
  fi_argtypes :: "atype list"
  fi_restype :: "atype option"
  fi_restype_c :: char
  fi_aggr_restype :: bool
  fi_res :: "sv option"

text \<open>The loader: libraries and symbols by address (0: not found), whether a file exists, and the search of
  \<open>Affix::find_library\<close>.\<close>

record loader =
  ld_load :: "byte list option \<Rightarrow> u64"
  ld_exists :: "byte list \<Rightarrow> bool"
  ld_find_library :: "byte list \<Rightarrow> byte list"
  ld_find_symbol :: "u64 \<Rightarrow> byte list \<Rightarrow> u64"

text \<open>The first argument: an explicit \<open>undef\<close>, an \<open>Affix::Lib\<close> (a reference to an address), or a name, which is searched
  for only when no file of that name exists.\<close>

definition fiction_library :: "host \<Rightarrow> loader \<Rightarrow> sv \<Rightarrow> u64" where
  "fiction_library host ld lib =
     (case lib of
        SvUndef True \<Rightarrow> ld_load ld None
      | SvRef a \<Rightarrow> a
      | _ \<Rightarrow>
          (let name = SvPV host lib; l = ld_load ld (Some name) in
           if l \<noteq> 0 then l
           else if ld_exists ld name then 0
           else ld_load ld (Some (ld_find_library ld name))))"

text \<open>The second argument: a name, or a symbol and the name to give it. Anything else leaves the symbol \<open>NULL\<close>, which is
  handed to the loader.\<close>

definition fiction_symbol :: "host \<Rightarrow> sv \<Rightarrow> affix_error + byte list \<times> byte list" where
  "fiction_symbol host v =
     (case av_elems v of
        Some [symbol, name] \<Rightarrow>
          if SvPOK symbol then Inr (SvPV host symbol, SvPV host name) else Inl (Croak ''Undefined symbol name'')
      | Some _ \<Rightarrow> Inl (Croak ''Expected a symbol and name'')
      | None \<Rightarrow> if SvPOK v then Inr (SvPV host v, SvPV host v) else Inl (Crash ''symbol not set''))"

fun type_list :: "sv list \<Rightarrow> atype list option" where
  "type_list [] = Some []"
| "type_list (SvType t # vs) = map_option (Cons t) (type_list vs)"
| "type_list _ = None"

text \<open>The third argument: an explicit \<open>undef\<close> and what is no array make a function without a signature. Reading the flag of
  what is no type is a crash.\<close>

definition fiction_argtypes :: "sv option \<Rightarrow> affix_error + char list option \<times> atype list" where
  "fiction_argtypes v =
     (case Option.bind v av_elems of
        None \<Rightarrow> Inr (None, [])
      | Some xs \<Rightarrow>
          (case type_list xs of
             None \<Rightarrow> Inl (Crash ''not a type'')
           | Some ts \<Rightarrow> Inr (Some (map at_numeric ts), ts)))"

definition fiction_restype :: "sv option \<Rightarrow> affix_error + atype option \<times> char \<times> bool \<times> sv option" where
  "fiction_restype v =
     (case v of
        None \<Rightarrow> Inr (None, VOID_FLAG, False, None)
      | Some (SvType t) \<Rightarrow>
          (let c = at_numeric t in
           Inr (Some t, c, c = STRUCT_FLAG,
             if c = STRUCT_FLAG then None
             else if c \<in> {WCHAR_FLAG, WSTRING_FLAG, STDSTRING_FLAG} then Some (SvStr [] False)
             else Some (SvUndef False)))
      | _ \<Rightarrow> Inl (Crash ''not a type''))"

text \<open>\<open>Affix_fiction\<close>: the function, the name it is installed under (\<open>affix\<close>, not \<open>wrap\<close>) and its prototype.\<close>

definition Affix_fiction ::
  "host \<Rightarrow> loader \<Rightarrow> bool \<Rightarrow> sv list \<Rightarrow> affix_error + fiction \<times> byte list option \<times> string option" where
  "Affix_fiction host ld wrap items =
     (if length items < 2 \<or> 4 < length items then Inl (Croak ''Usage: $lib, $symbol, [$argtypes, $rettype]'')
      else
        (let lib = fiction_library host ld (items ! 0) in
         if lib = 0 then Inl (Croak ''Failed to load library'')
         else
           (case fiction_symbol host (items ! 1) of
              Inl e \<Rightarrow> Inl e
            | Inr (symbol, name) \<Rightarrow>
                (let entry = ld_find_symbol ld lib symbol in
                 if entry = 0 then Inl (Croak ''Failed to locate entry point'')
                 else
                   (case fiction_restype (if length items = 4 then Some (items ! 3) else None) of
                      Inl e \<Rightarrow> Inl e
                    | Inr (restype, c, aggr, res) \<Rightarrow>
                        (case fiction_argtypes (if 3 \<le> length items then Some (items ! 2) else None) of
                           Inl e \<Rightarrow> Inl e
                         | Inr (sig, ts) \<Rightarrow>
                             Inr (\<lparr>fi_lib = lib, fi_symbol = symbol, fi_entry = entry, fi_signature = sig, fi_argtypes = ts,
                                    fi_restype = restype, fi_restype_c = c, fi_aggr_restype = aggr, fi_res = res\<rparr>,
                               if wrap then None else Some name,
                               map_option (\<lambda>s. replicate (length s) CHR ''$'') sig)))))))"

subsection \<open>Arguments\<close>

text \<open>The first byte of a string; Perl ends it with a NUL.\<close>

definition first_byte :: "byte list \<Rightarrow> byte" where
  "first_byte bs = (case bs of [] \<Rightarrow> 0 | b # _ \<Rightarrow> b)"

text \<open>The flags whose argument is a conversion of the scalar alone.\<close>

definition c_arg :: "host \<Rightarrow> char \<Rightarrow> sv \<Rightarrow> (u64, u64) dcarg option" where
  "c_arg host c v =
     (if c = BOOL_FLAG then Some (ABool (if SvTRUE host v then 1 else 0))
      else if c \<in> {CHAR_FLAG, SCHAR_FLAG, UCHAR_FLAG} then
        Some (AChar (if SvIOK v then ucast (SvIV host v) else first_byte (SvPVbyte host v)))
      else if c = SHORT_FLAG then Some (AShort (ucast (SvIV host v)))
      else if c = USHORT_FLAG then Some (AShort (ucast (SvUV host v)))
      else if c = INT_FLAG then Some (AInt (ucast (SvIV host v)))
      else if c = UINT_FLAG then Some (AInt (ucast (SvUV host v)))
      else if c = LONG_FLAG then Some (ALong (SvIV host v))
      else if c = ULONG_FLAG then Some (ALong (SvUV host v))
      else if c = LONGLONG_FLAG then Some (ALongLong (SvIV host v))
      else if c = ULONGLONG_FLAG then Some (ALongLong (SvUV host v))
      else if c = FLOAT_FLAG then Some (AFloat (float_of_double (SvNV host v)))
      else if c = DOUBLE_FLAG then Some (ADouble (SvNV host v))
      else None)"

definition first_wchar :: "u32 list \<Rightarrow> u64" where
  "first_wchar ws = (case ws of [] \<Rightarrow> 0 | w # _ \<Rightarrow> scast w)"

text \<open>A wide character: the first of the string, 0 for an undefined one.\<close>

definition wchar_arg :: "host \<Rightarrow> sv \<Rightarrow> affix_error + u64" where
  "wchar_arg host v =
     (if SvOK v then
        (case utf2wchar host v 1 of
           Inl e \<Rightarrow> Inl e
         | Inr None \<Rightarrow> Inl (Crash ''uninitialised wide string'')
         | Inr (Some ws) \<Rightarrow> Inr (first_wchar ws))
      else Inr 0)"

text \<open>
  The \<open>switch\<close> on one character of the signature. A \<open>std::string\<close> is handed over by the address of a temporary that is gone
  before the call, and made of \<open>NULL\<close> for an undefined scalar.
\<close>

definition trigger_arg ::
  "('id \<Rightarrow> (('id, 'm) DCCallVM_scheme, u64, u64, 'k) DCCallVM_vt) \<Rightarrow> host \<Rightarrow> u8 list \<Rightarrow> atype \<Rightarrow> char \<Rightarrow> sv \<Rightarrow>
   ('id, 'm) DCCallVM_scheme \<Rightarrow> store \<Rightarrow> affix_error + ('id, 'm) DCCallVM_scheme \<times> store" where
  "trigger_arg vtab host junk t c v vm st =
     (case c_arg host c v of
        Some a \<Rightarrow> Inr (dcArg vtab vm a, st)
      | None \<Rightarrow>
          if c \<in> {VOID_FLAG, WSTRING_FLAG} then Inr (vm, st)
          else if c = WCHAR_FLAG then
            map_sum id (\<lambda>x. (dcArg vtab vm (ALongLong x), st)) (wchar_arg host v)
          else if c = STDSTRING_FLAG then Inl (Crash (if SvOK v then ''string out of scope'' else ''string of NULL''))
          else if c = CODEREF_FLAG then
            map_sum id (\<lambda>(p, st). (dcArg vtab vm (APointer p), st)) (sv2ptr host t v 0 st)
          else if c = POINTER_FLAG then
            (case at_subtype t of
               Subtype s \<Rightarrow> map_sum id (\<lambda>(p, st). (dcArg vtab vm (APointer p), st)) (sv2ptr host s v 0 st)
             | _ \<Rightarrow> Inl (Crash ''subtype of a Pointer''))
          else if c = STRUCT_FLAG then
            (case affix_aggregate junk t of
               Inl e \<Rightarrow> Inl e
             | Inr ag \<Rightarrow>
                 (case sv2ptr host t v 0 st of
                    Inl e \<Rightarrow> Inl e
                  | Inr (p, st) \<Rightarrow>
                      if p = 0 then Inl (Crash ''copy from NULL'')
                      else
                        (case dcArgAggr vtab (st_mem st) vm (Some ag) p of
                           None \<Rightarrow> Inl (Crash ''argAggr is NULL'')
                         | Some vm \<Rightarrow> Inr (vm, st))))
          else Inl (Croak ''Unhandled argument type''))"

fun trigger_args ::
  "('id \<Rightarrow> (('id, 'm) DCCallVM_scheme, u64, u64, 'k) DCCallVM_vt) \<Rightarrow> host \<Rightarrow> u8 list \<Rightarrow> atype list \<Rightarrow> char list \<Rightarrow> sv list \<Rightarrow>
   ('id, 'm) DCCallVM_scheme \<Rightarrow> store \<Rightarrow> affix_error + ('id, 'm) DCCallVM_scheme \<times> store" where
  "trigger_args vtab host junk (t # ts) (c # cs) (v # vs) vm st =
     (case trigger_arg vtab host junk t c v vm st of
        Inl e \<Rightarrow> Inl e
      | Inr (vm, st) \<Rightarrow> trigger_args vtab host junk ts cs vs vm st)"
| "trigger_args vtab host junk _ _ _ vm st = Inr (vm, st)"

text \<open>Without a signature the flags of the scalars decide; other scalars are left out.\<close>

definition raw_arg :: "host \<Rightarrow> sv \<Rightarrow> (u64, u64) dcarg option" where
  "raw_arg host v =
     (if SvNOK v then Some (ADouble (SvNV host v))
      else if SvUOK v then Some (AInt (ucast (SvUV host v)))
      else if SvIOK v then Some (AInt (ucast (SvIV host v)))
      else None)"

subsection \<open>Results\<close>

text \<open>The \<open>dcCall\<close> function of a result type, and the scalar made of the register that it reads, \<open>r\<close>. A \<open>char\<close> is signed;
  \<open>sv_setuv\<close> gets the \<open>int\<close> of \<open>dcCallInt\<close>, \<open>SvIV_set\<close> the \<open>char\<close>.\<close>

definition res_call :: "char \<Rightarrow> dccall option" where
  "res_call c =
     (if c = VOID_FLAG then Some callVoid else if c = BOOL_FLAG then Some callBool
      else if c \<in> {CHAR_FLAG, SCHAR_FLAG, UCHAR_FLAG} then Some callChar
      else if c \<in> {SHORT_FLAG, USHORT_FLAG} then Some callShort
      else if c \<in> {INT_FLAG, UINT_FLAG} then Some callInt
      else if c \<in> {LONG_FLAG, ULONG_FLAG} then Some callLong
      else if c \<in> {WCHAR_FLAG, LONGLONG_FLAG, ULONGLONG_FLAG} then Some callLongLong
      else if c = FLOAT_FLAG then Some callFloat else if c = DOUBLE_FLAG then Some callDouble
      else if c \<in> {POINTER_FLAG, CODEREF_FLAG} then Some callPointer
      else None)"

definition scalar_result :: "char \<Rightarrow> u64 \<Rightarrow> sv option" where
  "scalar_result c r =
     (if c = BOOL_FLAG then Some (SvBool ((ucast r :: u32) \<noteq> 0))
      else if c \<in> {CHAR_FLAG, SCHAR_FLAG, UCHAR_FLAG} then Some (SvDual [ucast r] False (scast (ucast r :: u8)))
      else if c = SHORT_FLAG then Some (newSViv (scast (ucast r :: u16)))
      else if c = USHORT_FLAG then Some (newSVuv (ucast (ucast r :: u16)))
      else if c = INT_FLAG then Some (newSViv (scast (ucast r :: u32)))
      else if c = UINT_FLAG then Some (newSVuv (scast (ucast r :: u32)))
      else if c \<in> {LONG_FLAG, LONGLONG_FLAG} then Some (newSViv r)
      else if c \<in> {ULONG_FLAG, ULONGLONG_FLAG} then Some (newSVuv r)
      else if c = FLOAT_FLAG then Some (SvNum (double_of_float (ucast r)))
      else if c = DOUBLE_FLAG then Some (SvNum r)
      else None)"

definition pointer_result :: "host \<Rightarrow> u64 heap \<Rightarrow> atype \<Rightarrow> u64 \<Rightarrow> affix_error + sv" where
  "pointer_result host h t r =
     (if r = 0 then Inr (SvUndef False)
      else
        (case at_subtype t of
           Subtype s \<Rightarrow>
             if at_numeric s \<in> {CHAR_FLAG, UCHAR_FLAG, SCHAR_FLAG, WCHAR_FLAG, SV_FLAG} then ptr2sv host h t r
             else Inr (ptr2obj t r)
         | _ \<Rightarrow> Inl (Crash ''subtype of a Pointer'')))"

text \<open>What the result types other than STRUCT put into the scalar of the function; \<open>VOID\<close> leaves it.\<close>

definition trigger_result :: "host \<Rightarrow> u64 heap \<Rightarrow> atype option \<Rightarrow> char \<Rightarrow> u64 \<Rightarrow> sv option \<Rightarrow> affix_error + sv option" where
  "trigger_result host h restype c r res =
     (if c = VOID_FLAG then Inr res
      else
        (case scalar_result c r of
           Some v \<Rightarrow> Inr (Some v)
         | None \<Rightarrow>
             if c = WCHAR_FLAG then Inr (Some (wchar2utf host [ucast r]))
             else
               (case restype of
                  None \<Rightarrow> Inl (Crash ''result type'')
                | Some t \<Rightarrow>
                    map_sum id Some (if c = POINTER_FLAG then pointer_result host h t r else ptr2sv host h t r))))"

subsection \<open>\<open>Fiction_trigger\<close>\<close>

text \<open>
  \<open>exec\<close> is the kernel with the C function it runs: from what it is called with and the memory to the register
  with the result and the memory after. The result is the function with its scalar and what is left on the
  stack of Perl: the scalar or, when there is none, what lay there, the first argument.
\<close>

definition Fiction_trigger ::
  "('id \<Rightarrow> (('id, 'm) DCCallVM_scheme, u64, u64, 'k) DCCallVM_vt) \<Rightarrow> host \<Rightarrow> ('k \<Rightarrow> store \<Rightarrow> u64 \<times> store) \<Rightarrow> u8 list \<Rightarrow>
   fiction \<Rightarrow> sv list \<Rightarrow> ('id, 'm) DCCallVM_scheme \<Rightarrow> store \<Rightarrow>
   affix_error + fiction \<times> sv option \<times> ('id, 'm) DCCallVM_scheme \<times> store" where
  "Fiction_trigger vtab host exec junk a items vm st =
     (let vm = dcReset vtab vm in
      case
        (if fi_aggr_restype a then
           (case fi_restype a of
              None \<Rightarrow> Inl (Crash ''result type'')
            | Some t \<Rightarrow>
                (case affix_aggregate junk t of
                   Inl e \<Rightarrow> Inl e
                 | Inr ag \<Rightarrow>
                     (case dcBeginCallAggr vtab vm (Some ag) of
                        None \<Rightarrow> Inl (Crash ''assertion of dcBeginCallAggr'')
                      | Some vm \<Rightarrow> Inr (Some ag, vm))))
         else Inr (None, vm)) of
        Inl e \<Rightarrow> Inl e
      | Inr (ret_aggr, vm) \<Rightarrow>
          (case
             (case fi_signature a of
                Some sig \<Rightarrow>
                  if length items \<noteq> length sig then
                    Inl (Croak (if length sig < length items then ''Too many arguments'' else ''Not enough arguments''))
                  else trigger_args vtab host junk (fi_argtypes a) sig items vm st
              | None \<Rightarrow> Inr (dcArgs vtab vm (List.map_filter (raw_arg host) items), st)) of
             Inl e \<Rightarrow> Inl e
           | Inr (vm, st) \<Rightarrow>
               (case res_call (fi_restype_c a) of
                  Some call \<Rightarrow>
                    (case dcCall vtab call vm (fi_entry a) of
                       (vm, k) \<Rightarrow>
                         (case exec k st of
                            (r, st) \<Rightarrow>
                              (case trigger_result host (st_mem st) (fi_restype a) (fi_restype_c a) r (fi_res a) of
                                 Inl e \<Rightarrow> Inl e
                               | Inr res \<Rightarrow>
                                   Inr (a\<lparr>fi_res := res\<rparr>,
                                        case res of Some v \<Rightarrow> Some v | None \<Rightarrow> (case items of v # _ \<Rightarrow> Some v | [] \<Rightarrow> None),
                                        vm, st))))
                | None \<Rightarrow>
                    if fi_restype_c a = STRUCT_FLAG then
                      (case fi_restype a of
                         None \<Rightarrow> Inl (Crash ''result type'')
                       | Some t \<Rightarrow>
                           (case Newxz host (at_sizeof t) st of
                              Inl e \<Rightarrow> Inl e
                            | Inr (ret, st) \<Rightarrow>
                                (case dcCallAggr vtab (st_mem st) vm (fi_entry a) ret_aggr ret of
                                   None \<Rightarrow> Inl (Crash ''callAggr'')
                                 | Some (vm, h) \<Rightarrow>
                                     (case ptr2sv host h t ret of
                                        Inl e \<Rightarrow> Inl e
                                      | Inr v \<Rightarrow> Inr (a\<lparr>fi_res := Some v\<rparr>, Some v, vm, st\<lparr>st_mem := h\<rparr>)))))
                    else Inl (Croak ''Unknown or unhandled return type''))))"

end
