(* ===== verification/Affix_Callback.thy ===== *)
theory Affix_Callback
  imports Affix_Call Dyn_Callf
begin

unbundle bit_operations_syntax

section \<open>Affix: Perl subs called from C\<close>

text \<open>
  \<open>cbHandlerXXXXX\<close> of \<open>lib/Affix/Callback.cxx\<close>: it reads the arguments of the C caller with the functions of the
  callback library, calls the Perl sub and stores its result. The reader is a parameter, one function for all types.
\<close>

subsection \<open>Arguments\<close>

definition cb_ty :: "char \<Rightarrow> dcty option" where
  "cb_ty c =
     (if c = BOOL_FLAG then Some TBool
      else if c \<in> {CHAR_FLAG, SCHAR_FLAG, UCHAR_FLAG} then Some TChar
      else if c \<in> {SHORT_FLAG, USHORT_FLAG} then Some TShort
      else if c \<in> {INT_FLAG, UINT_FLAG} then Some TInt
      else if c \<in> {LONG_FLAG, ULONG_FLAG, WCHAR_FLAG} then Some TLong
      else if c \<in> {LONGLONG_FLAG, ULONGLONG_FLAG} then Some TLongLong
      else if c = FLOAT_FLAG then Some TFloat else if c = DOUBLE_FLAG then Some TDouble
      else if c = POINTER_FLAG then Some TPointer
      else None)"

text \<open>The scalar made of an argument: \<open>newSViv\<close> and \<open>newSVuv\<close> get a \<open>DCshort\<close>, \<open>DCint\<close>, \<open>DClong\<close>, which are signed; so is
  a \<open>char\<close>.\<close>

fun cb_scalar :: "host \<Rightarrow> char \<Rightarrow> (u64, u64) dcarg \<Rightarrow> sv" where
  "cb_scalar host c (ABool x) = SvBool (x \<noteq> 0)"
| "cb_scalar host c (AChar x) = SvDual [x] False (scast x)"
| "cb_scalar host c (AShort x) = (if c = SHORT_FLAG then newSViv (scast x) else newSVuv (scast x))"
| "cb_scalar host c (AInt x) = (if c = INT_FLAG then newSViv (scast x) else newSVuv (scast x))"
| "cb_scalar host c (ALong x) =
     (if c = WCHAR_FLAG then
        (case wchar2utf host [ucast x] of SvStr bs u \<Rightarrow> SvDual bs u (scast (ucast x :: u32)) | v \<Rightarrow> v)
      else if c = LONG_FLAG then newSViv x else newSVuv x)"
| "cb_scalar host c (ALongLong x) = (if c = LONGLONG_FLAG then newSViv x else newSVuv x)"
| "cb_scalar host c (AFloat x) = SvNum (double_of_float x)"
| "cb_scalar host c (ADouble x) = SvNum x"
| "cb_scalar host c (APointer x) = SvRef x"

definition cb_arg :: "host \<Rightarrow> u64 heap \<Rightarrow> atype \<Rightarrow> char \<Rightarrow> (u64, u64) dcarg \<Rightarrow> affix_error + sv" where
  "cb_arg host h t c a =
     (case a of APointer p \<Rightarrow> ptr2sv host h t p | _ \<Rightarrow> Inr (cb_scalar host c a))"

fun cb_args ::
  "('r \<Rightarrow> dcty \<Rightarrow> (u64, u64) dcarg \<times> 'r) \<Rightarrow> host \<Rightarrow> u64 heap \<Rightarrow> atype list \<Rightarrow> char list \<Rightarrow> 'r \<Rightarrow> affix_error + sv list" where
  "cb_args pop host h (t # ts) (c # cs) args =
     (if c = VOID_FLAG then cb_args pop host h ts cs args
      else
        (case cb_ty c of
           None \<Rightarrow> Inl (Croak ''Attempt to pass unknown or unhandled type to CodeRef'')
         | Some ty \<Rightarrow>
             (case pop args ty of
                (a, args) \<Rightarrow>
                  (case cb_arg host h t c a of
                     Inl e \<Rightarrow> Inl e
                   | Inr v \<Rightarrow> map_sum id (Cons v) (cb_args pop host h ts cs args)))))"
| "cb_args pop host h _ _ args = Inr []"

subsection \<open>Results\<close>

text \<open>The bytes stored in the union \<open>DCValue\<close> and the character returned for them. \<open>POPi\<close> and \<open>POPl\<close> are \<open>SvIV\<close> of the scalar,
  \<open>POPn\<close> its \<open>SvNV\<close>. A wide character comes from a buffer that is filled only for a string flagged as UTF-8.\<close>

definition cb_result :: "host \<Rightarrow> atype \<Rightarrow> char \<Rightarrow> sv \<Rightarrow> store \<Rightarrow> affix_error + (char \<times> byte list) \<times> store" where
  "cb_result host t c v st =
     (if c = BOOL_FLAG then Inr ((CHR ''B'', le_bytes 4 (if SvTRUE host v then 1 else 0 :: u32)), st)
      else if c \<in> {CHAR_FLAG, SCHAR_FLAG} then
        Inr ((CHR ''c'', [if SvIOK v then ucast (SvIV host v) else first_byte (SvPV host v)]), st)
      else if c = UCHAR_FLAG then
        Inr ((CHR ''C'', [if SvIOK v then ucast (SvUV host v) else first_byte (SvPV host v)]), st)
      else if c = WCHAR_FLAG then
        (if SvPOK v then
           (case utf2wchar host v (length (SvPV host v)) of
              Inl e \<Rightarrow> Inl e
            | Inr None \<Rightarrow> Inl (Crash ''uninitialised wide string'')
            | Inr (Some ws) \<Rightarrow>
                Inr ((CHR ''j'', le_bytes 8 (first_wchar ws)), st))
         else Inr ((CHR ''j'', le_bytes 8 (0 :: u64)), st))
      else if c = SHORT_FLAG then Inr ((CHR ''s'', le_bytes 2 (SvIV host v)), st)
      else if c = USHORT_FLAG then Inr ((CHR ''S'', le_bytes 2 (SvIV host v)), st)
      else if c = INT_FLAG then Inr ((CHR ''i'', le_bytes 4 (SvIV host v)), st)
      else if c = UINT_FLAG then Inr ((CHR ''I'', le_bytes 4 (SvIV host v)), st)
      else if c = LONG_FLAG then Inr ((CHR ''j'', le_bytes 8 (SvIV host v)), st)
      else if c = ULONG_FLAG then Inr ((CHR ''J'', le_bytes 8 (SvIV host v)), st)
      else if c = LONGLONG_FLAG then Inr ((CHR ''l'', le_bytes 8 (SvIV host v)), st)
      else if c = ULONGLONG_FLAG then Inr ((CHR ''L'', le_bytes 8 (SvIV host v)), st)
      else if c = FLOAT_FLAG then Inr ((CHR ''f'', le_bytes 4 (float_of_double (SvNV host v))), st)
      else if c = DOUBLE_FLAG then Inr ((CHR ''d'', le_bytes 8 (SvNV host v)), st)
      else if c = POINTER_FLAG then
        (case at_subtype t of
           Subtype s \<Rightarrow> map_sum id (\<lambda>(p, st). ((CHR ''p'', le_bytes 8 p), st)) (sv2ptr host s v 0 st)
         | _ \<Rightarrow> Inl (Crash ''subtype of a Pointer''))
      else Inl (Croak ''Attempt to return unknown or unhandled type from CodeRef''))"

text \<open>The structure \<open>CodeRef\<close> and the handler; \<open>call_sv\<close> runs the Perl sub.\<close>

record CodeRef =
  cr_signature :: "char list"
  cr_argtypes :: "atype list"
  cr_restype :: atype
  cr_cv :: sv

definition cbHandlerXXXXX ::
  "('r \<Rightarrow> dcty \<Rightarrow> (u64, u64) dcarg \<times> 'r) \<Rightarrow> host \<Rightarrow> (sv \<Rightarrow> sv list \<Rightarrow> store \<Rightarrow> affix_error + sv \<times> store) \<Rightarrow>
   CodeRef \<Rightarrow> 'r \<Rightarrow> store \<Rightarrow> affix_error + (char \<times> byte list) \<times> store" where
  "cbHandlerXXXXX pop host call_sv cr args st =
     (case cb_args pop host (st_mem st) (cr_argtypes cr) (cr_signature cr) args of
        Inl e \<Rightarrow> Inl e
      | Inr vs \<Rightarrow>
          (case call_sv (cr_cv cr) vs st of
             Inl e \<Rightarrow> Inl e
           | Inr (v, st) \<Rightarrow>
               (let c = at_numeric (cr_restype cr) in
                if c = VOID_FLAG then Inr ((VOID_FLAG, []), st)
                else cb_result host (cr_restype cr) c v st)))"

subsection \<open>Arguments of a call\<close>

definition scalar_flags :: "char list" where
  "scalar_flags = BOOL_FLAG # char_flags @ num_flags"

text \<open>The C arguments of a call with scalar types.\<close>

definition c_args :: "host \<Rightarrow> char list \<Rightarrow> sv list \<Rightarrow> (u64, u64) dcarg list" where
  "c_args host cs vs = map (\<lambda>(c, v). the (c_arg host c v)) (zip cs vs)"

lemma scalar_flags_cases:
  assumes "c \<in> set scalar_flags"
  obtains "c = BOOL_FLAG" | "c = CHAR_FLAG" | "c = SCHAR_FLAG" | "c = UCHAR_FLAG" | "c = SHORT_FLAG" | "c = USHORT_FLAG"
    | "c = INT_FLAG" | "c = UINT_FLAG" | "c = LONG_FLAG" | "c = ULONG_FLAG" | "c = LONGLONG_FLAG" | "c = ULONGLONG_FLAG"
    | "c = FLOAT_FLAG" | "c = DOUBLE_FLAG"
  using assms unfolding scalar_flags_def char_flags_def num_flags_def append.simps set_simps insert_iff empty_iff simp_thms
  by (elim disjE) (rule that; assumption)+

lemma c_arg_scalar:
  assumes "c \<in> set scalar_flags"
  shows "\<exists>a. c_arg host c v = Some a \<and> cb_ty c = Some (arg_ty a) \<and> x64_val a = a \<and> (\<forall>p. a \<noteq> APointer p)"
  using assms by (cases rule: scalar_flags_cases) (simp_all add: c_arg_def cb_ty_def)

lemma c_arg_None: "c \<notin> set scalar_flags \<Longrightarrow> c_arg host c v = None"
  by (simp add: c_arg_def scalar_flags_def char_flags_def num_flags_def)

lemma trigger_args_scalar:
  "set cs \<subseteq> set scalar_flags \<Longrightarrow> length ts = length cs \<Longrightarrow> length vs = length cs \<Longrightarrow>
     trigger_args vtab host junk ts cs vs vm st = Inr (dcArgs vtab vm (c_args host cs vs), st)"
proof (induction cs arbitrary: ts vs vm)
  case (Cons c cs)
  then obtain t ts' v vs' where s: "ts = t # ts'" "vs = v # vs'" by (metis length_Suc_conv)
  from Cons.prems(1) obtain a where a: "c_arg host c v = Some a" using c_arg_scalar [of c] by fastforce
  with Cons s show ?case by (simp add: trigger_arg_def c_args_def)
qed (simp add: c_args_def)

lemma cb_args_scalar:
  assumes "set cs \<subseteq> set scalar_flags" and "length ts = length cs" and "length vs = length cs"
    and "fst (pop_all pop r (map arg_ty (c_args host cs vs))) = c_args host cs vs"
  shows "cb_args pop host h ts cs r = Inr (map2 (cb_scalar host) cs (c_args host cs vs))"
  using assms
proof (induction cs arbitrary: ts vs r)
  case (Cons c cs)
  then obtain t ts' v vs' where s: "ts = t # ts'" "vs = v # vs'" by (metis length_Suc_conv)
  from Cons.prems(1) obtain a where a: "c_arg host c v = Some a" "cb_ty c = Some (arg_ty a)" "\<forall>p. a \<noteq> APointer p"
    using c_arg_scalar [of c] by fastforce
  then have "c \<noteq> VOID_FLAG" by (auto simp: cb_ty_def)
  moreover obtain b r' where b: "pop r (arg_ty a) = (b, r')" by (cases "pop r (arg_ty a)")
  from Cons.prems(4) a b have ba: "b = a" and r: "fst (pop_all pop r' (map arg_ty (c_args host cs vs'))) = c_args host cs vs'"
    by (auto simp: s c_args_def case_prod_beta)
  moreover have "cb_arg host h t c a = Inr (cb_scalar host c a)" using a(3) by (cases a) (auto simp: cb_arg_def)
  ultimately show ?case
    using Cons.IH [OF _ _ _ r, of ts'] Cons.prems a b by (simp add: s c_args_def)
qed (simp add: c_args_def)


subsection \<open>From Perl to C\<close>

text \<open>A function whose signature has only scalar types, as \<open>Affix_fiction\<close> makes it, with a scalar or no result.\<close>

definition scalar_fiction :: "fiction \<Rightarrow> char list \<Rightarrow> bool" where
  "scalar_fiction a cs \<longleftrightarrow>
     fi_signature a = Some cs \<and> cs = map at_numeric (fi_argtypes a) \<and> set cs \<subseteq> set scalar_flags \<and>
     \<not> fi_aggr_restype a \<and> fi_restype_c a \<in> set (VOID_FLAG # scalar_flags)"

lemma Affix_fiction_scalar:
  assumes "Affix_fiction host ld wrap [lib, symbol, SvArray (map SvType ts), SvType t] = Inr (a, name, proto)"
    and "set (map at_numeric ts) \<subseteq> set scalar_flags" and "at_numeric t \<in> set (VOID_FLAG # scalar_flags)"
  shows "scalar_fiction a (map at_numeric ts)" and "proto = Some (replicate (length ts) CHR ''$'')"
proof -
  have tl: "type_list (map SvType ts) = Some ts" by (induction ts) simp_all
  have "at_numeric t \<noteq> STRUCT_FLAG"
    using assms(3) by (auto simp: scalar_flags_def char_flags_def num_flags_def)
  with assms tl show "scalar_fiction a (map at_numeric ts)" "proto = Some (replicate (length ts) CHR ''$'')"
    by (auto simp: Affix_fiction_def fiction_argtypes_def fiction_restype_def scalar_fiction_def Let_def numeral_2_eq_2 numeral_3_eq_3
        split: if_splits sum.splits prod.splits)
qed

lemma res_call_scalar: "c \<in> set (VOID_FLAG # scalar_flags) \<Longrightarrow> \<exists>call. res_call c = Some call"
  by (auto simp: res_call_def elim!: scalar_flags_cases)

lemma trigger_result_scalar:
  assumes "c \<in> set (VOID_FLAG # scalar_flags)"
  shows "\<exists>v. trigger_result host h t c r res = Inr v \<and> (c = VOID_FLAG \<longrightarrow> v = res) \<and> (c \<noteq> VOID_FLAG \<longrightarrow> v = scalar_result c r)"
proof (cases "c = VOID_FLAG")
  case False
  then have "\<exists>v. scalar_result c r = Some v" using assms by (auto simp: scalar_result_def elim!: scalar_flags_cases)
  with False show ?thesis by (auto simp: trigger_result_def)
qed (simp add: trigger_result_def)

text \<open>The C arguments reach the kernel, and a reader finds them.\<close>

lemma trigger_x64:
  assumes "unat (mTotal (mVecHead vm)) < 2 ^ 63" and "8 * length vs \<le> unat (mTotal (mVecHead vm))"
    and "mVTpointer vm = gVT_x64" and "ar < 0" and "scalar_fiction a cs" and "length vs = length cs"
  shows "\<exists>vm' k res. fst (pop_all dcbArg_x64 (dcCallback_x64_sysv ar ags (sysv_frame caller k)) (map arg_ty (c_args host cs vs)))
        = c_args host cs vs
    \<and> Fiction_trigger (vtab_x64 run run_aggr pad) host exec junk a vs vm st
        = Inr (a\<lparr>fi_res := res\<rparr>, (case res of Some v \<Rightarrow> Some v | None \<Rightarrow> (case vs of v # _ \<Rightarrow> Some v | [] \<Rightarrow> None)),
            vm', snd (exec (dcCall_x64_sysv k) st))
    \<and> res = (if fi_restype_c a = VOID_FLAG then fi_res a
             else scalar_result (fi_restype_c a) (fst (exec (dcCall_x64_sysv k) st)))"
proof -
  let ?V = "vtab_x64 run run_aggr pad"
  from assms(5) have f: "fi_signature a = Some cs" "length (fi_argtypes a) = length cs" "set cs \<subseteq> set scalar_flags"
    "\<not> fi_aggr_restype a" "fi_restype_c a \<in> set (VOID_FLAG # scalar_flags)"
    by (auto simp: scalar_fiction_def)
  let ?xs = "c_args host cs vs"
  have len: "length ?xs = length vs" using assms(6) by (simp add: c_args_def)
  have val: "map x64_val ?xs = ?xs"
  proof (rule map_idI)
    fix x assume "x \<in> set ?xs"
    then obtain c v where "c \<in> set cs" "x = the (c_arg host c v)" by (auto simp: c_args_def dest: set_zip_leftD)
    moreover from this f(3) obtain a where "c_arg host c v = Some a" "x64_val a = a"
      using c_arg_scalar [of c host v] by blast
    ultimately show "x64_val x = x" by simp
  qed
  from res_call_scalar [OF f(5)] obtain call where call: "res_call (fi_restype_c a) = Some call" ..
  from x64_call_read_back [of vm ?xs ar run run_aggr pad call "fi_entry a" ags caller] assms(1-4) len val obtain k where
    k: "snd (dcCall ?V call (dcArgs ?V (dcReset ?V vm) ?xs) (fi_entry a)) = dcCall_x64_sysv k"
    "fst (pop_all dcbArg_x64 (dcCallback_x64_sysv ar ags (sysv_frame caller k)) (map arg_ty ?xs)) = ?xs" by auto
  obtain vm' where vm': "dcCall ?V call (dcArgs ?V (dcReset ?V vm) ?xs) (fi_entry a) = (vm', dcCall_x64_sysv k)"
    using k(1) by (metis prod.collapse)
  obtain r st' where e: "exec (dcCall_x64_sysv k) st = (r, st')" by fastforce
  from trigger_result_scalar [OF f(5), of host "st_mem st'" "fi_restype a" r "fi_res a"] obtain res where
    res: "trigger_result host (st_mem st') (fi_restype a) (fi_restype_c a) r (fi_res a) = Inr res"
    "fi_restype_c a = VOID_FLAG \<longrightarrow> res = fi_res a" "fi_restype_c a \<noteq> VOID_FLAG \<longrightarrow> res = scalar_result (fi_restype_c a) r"
    by blast
  have "trigger_args ?V host junk (fi_argtypes a) cs vs (dcReset ?V vm) st = Inr (dcArgs ?V (dcReset ?V vm) ?xs, st)"
    using f(2,3) assms(6) by (intro trigger_args_scalar) simp_all
  then have "Fiction_trigger ?V host exec junk a vs vm st
      = Inr (a\<lparr>fi_res := res\<rparr>, (case res of Some v \<Rightarrow> Some v | None \<Rightarrow> (case vs of v # _ \<Rightarrow> Some v | [] \<Rightarrow> None)), vm', st')"
    using f(1,4) assms(6) call vm' e res(1) by (simp add: Fiction_trigger_def)
  with k(2) e res(2,3) show ?thesis by auto
qed


subsection \<open>Round trips\<close>

text \<open>The values that survive: those that fit the C type, the unsigned ones only without their sign bit.\<close>

definition fits_cb :: "char \<Rightarrow> sv \<Rightarrow> bool" where
  "fits_cb c v \<longleftrightarrow>
     (if c = BOOL_FLAG then fits_bool v
      else c \<in> set num_flags \<and> fits_num c v \<and>
        (case v of
           SvInt x _ \<Rightarrow>
             if c = USHORT_FLAG then x < 2 ^ 15 else if c = UINT_FLAG then x < 2 ^ 31
             else c \<in> {ULONG_FLAG, ULONGLONG_FLAG} \<longrightarrow> 0 \<le>s x
         | _ \<Rightarrow> True))"

lemma scast_small:
  fixes x :: "'b::len word"
  assumes "LENGTH('a) \<le> LENGTH('b)" and "unat x < 2 ^ (LENGTH('a) - 1)"
  shows "scast (ucast x :: 'a::len word) = x"
proof -
  have "unat (ucast x :: 'a word) = unat x"
    using assms(2) by (simp add: unsigned_ucast_eq take_bit_nat_eq_self order_less_le_trans)
  then have "sint (ucast x :: 'a word) = int (unat x)" using assms(2) by (simp add: sint_small)
  then show ?thesis by (simp add: scast_eq)
qed

lemma newSVuv_nonneg: "0 \<le>s x \<Longrightarrow> newSVuv x = SvInt x False"
  by (simp add: newSVuv_def word_sle_eq)

lemma newSVuv_small: "unat x < 2 ^ 63 \<Longrightarrow> newSVuv x = SvInt x False"
  by (simp add: newSVuv_def sint_small)

lemma fits_cb_flag: "fits_cb c v \<Longrightarrow> c \<in> set scalar_flags"
  by (auto simp: fits_cb_def scalar_flags_def split: if_splits)

lemma fits_cb_cases:
  assumes "fits_cb c v"
  obtains b where "c = BOOL_FLAG" "v = SvBool b"
    | x where "c = SHORT_FLAG" "v = SvInt x False" "scast (ucast x :: u16) = x"
    | x where "c = USHORT_FLAG" "v = SvInt x False" "scast (ucast x :: u16) = x" "ucast (ucast x :: u16) = x" "newSVuv x = SvInt x False"
    | x where "c = INT_FLAG" "v = SvInt x False" "scast (ucast x :: u32) = x"
    | x where "c = UINT_FLAG" "v = SvInt x False" "scast (ucast x :: u32) = x" "newSVuv x = SvInt x False"
    | x where "c \<in> {LONG_FLAG, LONGLONG_FLAG}" "v = SvInt x False"
    | x where "c \<in> {ULONG_FLAG, ULONGLONG_FLAG}" "v = SvInt x False" "newSVuv x = SvInt x False"
    | x where "c = FLOAT_FLAG" "v = SvNum x" "double_of_float (float_of_double x) = x"
    | x where "c = DOUBLE_FLAG" "v = SvNum x"
  using fits_cb_flag [OF assms]
proof (cases rule: scalar_flags_cases)
  case 1
  with assms that(1) show ?thesis by (cases v) (simp_all add: fits_cb_def)
next
  case 5
  with assms that(2) show ?thesis by (cases v) (simp_all add: fits_cb_def)
next
  case 6
  with assms obtain x where x: "v = SvInt x False" "ucast (ucast x :: u16) = x" "x < 2 ^ 15"
    by (cases v) (simp_all add: fits_cb_def)
  then have "unat x < 2 ^ 15" by (simp add: word_less_nat_alt)
  with 6 x that(3) show ?thesis by (simp add: scast_small newSVuv_small)
next
  case 7
  with assms that(4) show ?thesis by (cases v) (simp_all add: fits_cb_def)
next
  case 8
  with assms obtain x where x: "v = SvInt x False" "x < 2 ^ 31" by (cases v) (simp_all add: fits_cb_def)
  then have "unat x < 2 ^ 31" by (simp add: word_less_nat_alt)
  with 8 x that(5) show ?thesis by (simp add: scast_small newSVuv_small)
next
  case 9
  with assms that(6) show ?thesis by (cases v) (simp_all add: fits_cb_def)
next
  case 10
  with assms that(7) show ?thesis by (cases v) (simp_all add: fits_cb_def newSVuv_nonneg)
next
  case 11
  with assms that(6) show ?thesis by (cases v) (simp_all add: fits_cb_def)
next
  case 12
  with assms that(7) show ?thesis by (cases v) (simp_all add: fits_cb_def newSVuv_nonneg)
next
  case 13
  with assms that(8) show ?thesis by (cases v) (simp_all add: fits_cb_def)
next
  case 14
  with assms that(9) show ?thesis by (cases v) (simp_all add: fits_cb_def)
qed (use assms in \<open>auto simp: fits_cb_def num_flags_def\<close>)

lemma fits_cb_scalar:
  assumes "perl_host host" and "fits_cb c v" and "c_arg host c v = Some a"
  shows "cb_scalar host c a = v"
  using assms(2)
proof (cases rule: fits_cb_cases)
  case (6 x)
  then show ?thesis using assms(1,3) by (auto simp: c_arg_def newSViv_def)
next
  case (7 x)
  then show ?thesis using assms(1,3) by (auto simp: c_arg_def)
qed (use assms(1,3) in \<open>auto simp: c_arg_def newSViv_def\<close>)

text \<open>C5: A Perl sub called from Perl through C gets its arguments: on System V x64, when a function made by \<open>affix\<close> with
  scalar types is a callback that was made of a Perl sub with the same signature, the handler of the callback hands that sub
  exactly the scalars of the call, for truth values, integers and numbers that their C types can hold (unsigned ones below
  the sign bit), and the call ends with the scalar made of the register that the kernel leaves.\<close>

theorem perl_calls_perl:
  assumes "unat (mTotal (mVecHead vm)) < 2 ^ 63" and "8 * length vs \<le> unat (mTotal (mVecHead vm))"
    and "mVTpointer vm = gVT_x64" and "ar < 0"
    and "perl_host host" and "scalar_fiction a cs" and "list_all2 fits_cb cs vs" and "length ts = length cs"
    and "fi_restype_c a \<noteq> VOID_FLAG"
  shows "\<exists>vm' k r st' v.
      cb_args dcbArg_x64 host h ts cs (dcCallback_x64_sysv ar ags (sysv_frame caller k)) = Inr vs
    \<and> exec (dcCall_x64_sysv k) st = (r, st') \<and> scalar_result (fi_restype_c a) r = Some v
    \<and> Fiction_trigger (vtab_x64 run run_aggr pad) host exec junk a vs vm st = Inr (a\<lparr>fi_res := Some v\<rparr>, Some v, vm', st')"
proof -
  have len: "length vs = length cs" using assms(7) by (simp add: list_all2_lengthD)
  from trigger_x64 [OF assms(1-4,6) len, where ags = ags and caller = caller and run = run and run_aggr = run_aggr and pad = pad
      and host = host and exec = exec and junk = junk and st = st] obtain vm' k res where t:
    "fst (pop_all dcbArg_x64 (dcCallback_x64_sysv ar ags (sysv_frame caller k)) (map arg_ty (c_args host cs vs))) = c_args host cs vs"
    "Fiction_trigger (vtab_x64 run run_aggr pad) host exec junk a vs vm st
        = Inr (a\<lparr>fi_res := res\<rparr>, (case res of Some v \<Rightarrow> Some v | None \<Rightarrow> (case vs of v # _ \<Rightarrow> Some v | [] \<Rightarrow> None)),
            vm', snd (exec (dcCall_x64_sysv k) st))"
    "res = (if fi_restype_c a = VOID_FLAG then fi_res a else scalar_result (fi_restype_c a) (fst (exec (dcCall_x64_sysv k) st)))"
    by blast
  have cs: "set cs \<subseteq> set scalar_flags" and c: "fi_restype_c a \<in> set (VOID_FLAG # scalar_flags)"
    using assms(6) unfolding scalar_fiction_def by blast+
  have "map2 (cb_scalar host) cs (c_args host cs vs) = vs"
    using assms(7) cs
  proof (induction rule: list_all2_induct)
    case (Cons c cs v vs)
    then obtain x where "c_arg host c v = Some x" using c_arg_scalar [of c host v] by auto
    with Cons fits_cb_scalar [OF assms(5) Cons(1)] show ?case by (simp add: c_args_def)
  qed (simp add: c_args_def)
  then have args: "cb_args dcbArg_x64 host h ts cs (dcCallback_x64_sysv ar ags (sysv_frame caller k)) = Inr vs"
    using cb_args_scalar [OF cs assms(8) len t(1)] by simp
  obtain v where v: "scalar_result (fi_restype_c a) (fst (exec (dcCall_x64_sysv k) st)) = Some v"
    using trigger_result_scalar [OF c] assms(9) c by (auto simp: scalar_result_def elim!: scalar_flags_cases)
  obtain r st' where e: "exec (dcCall_x64_sysv k) st = (r, st')" by fastforce
  have "res = Some v" using t(3) v assms(9) by simp
  with t(2) e have "Fiction_trigger (vtab_x64 run run_aggr pad) host exec junk a vs vm st
      = Inr (a\<lparr>fi_res := Some v\<rparr>, Some v, vm', st')" by simp
  with args v e show ?thesis by (metis fst_conv)
qed


text \<open>\<open>affix('libm.so', 'f', [Int, Double, Bool], Int)\<close> on a loader that finds everything.\<close>

definition demo_loader :: loader where
  "demo_loader = \<lparr>ld_load = (\<lambda>_. 16), ld_exists = (\<lambda>_. True), ld_find_library = id, ld_find_symbol = (\<lambda>_ _. 4096)\<rparr>"

definition demo_fiction :: fiction where
  "demo_fiction =
     (case Affix_fiction demo_host demo_loader False
         [SvStr [108] False, SvStr [102] False, SvArray (map SvType [T_Int, T_Double, T_Bool]), SvType T_Int] of
        Inr (a, _, _) \<Rightarrow> a)"

lemma demo_fiction:
  "scalar_fiction demo_fiction [INT_FLAG, DOUBLE_FLAG, BOOL_FLAG]" "fi_restype_c demo_fiction = INT_FLAG"
  by (simp_all add: demo_fiction_def Affix_fiction_def fiction_library_def fiction_symbol_def fiction_argtypes_def
      fiction_restype_def demo_loader_def scalar_fiction_def Type_new_def scalar_flags_def char_flags_def num_flags_def
      demo_host_def Let_def)

lemma perl_calls_perl_witness:
  "\<exists>vm' k.
      cb_args dcbArg_x64 demo_host (\<lambda>_. 0) [T_Int, T_Double, T_Bool] [INT_FLAG, DOUBLE_FLAG, BOOL_FLAG]
        (dcCallback_x64_sysv (- 1) [] (sysv_frame (\<lambda>_. 0) k))
      = Inr [SvInt (- 7) False, SvNum 4611686018427387904, SvBool True]
    \<and> Fiction_trigger (vtab_x64 (\<lambda>_ h. h) (\<lambda>_ h. (h, \<lambda>_. 0)) 0) demo_host (\<lambda>_ st. (42, st)) [] demo_fiction
        [SvInt (- 7) False, SvNum 4611686018427387904, SvBool True] (x64_blank 64) \<lparr>st_mem = \<lambda>_. 0, st_blocks = []\<rparr>
      = Inr (demo_fiction\<lparr>fi_res := Some (SvInt 42 False)\<rparr>, Some (SvInt 42 False), vm', \<lparr>st_mem = \<lambda>_. 0, st_blocks = []\<rparr>)"
proof -
  let ?vs = "[SvInt (- 7) False, SvNum 4611686018427387904, SvBool True]"
  let ?st = "\<lparr>st_mem = \<lambda>_. 0, st_blocks = []\<rparr> :: store"
  have "list_all2 fits_cb [INT_FLAG, DOUBLE_FLAG, BOOL_FLAG] ?vs" by (simp add: fits_cb_def num_flags_def)
  with perl_calls_perl [of "x64_blank 64" ?vs "- 1" demo_host demo_fiction "[INT_FLAG, DOUBLE_FLAG, BOOL_FLAG]"
      "[T_Int, T_Double, T_Bool]" "\<lambda>_. 0" "[]" "\<lambda>_. 0" "\<lambda>_ st. (42, st)" ?st "\<lambda>_ h. h" "\<lambda>_ h. (h, \<lambda>_. 0)" 0 "[]"]
  obtain vm' k v where
    "cb_args dcbArg_x64 demo_host (\<lambda>_. 0) [T_Int, T_Double, T_Bool] [INT_FLAG, DOUBLE_FLAG, BOOL_FLAG]
        (dcCallback_x64_sysv (- 1) [] (sysv_frame (\<lambda>_. 0) k)) = Inr ?vs"
    "scalar_result INT_FLAG 42 = Some v"
    "Fiction_trigger (vtab_x64 (\<lambda>_ h. h) (\<lambda>_ h. (h, \<lambda>_. 0)) 0) demo_host (\<lambda>_ st. (42, st)) [] demo_fiction ?vs (x64_blank 64) ?st
      = Inr (demo_fiction\<lparr>fi_res := Some v\<rparr>, Some v, vm', ?st)"
    using perl_host_demo demo_fiction by (auto simp: x64_blank_def)
  moreover from this(2) have "v = SvInt 42 False" by (simp add: scalar_result_def newSViv_def)
  ultimately show ?thesis by blast
qed


subsection \<open>Results of Perl subs\<close>

lemma low_bytes:
  assumes "take n (le_bytes 8 (r :: u64)) = le_bytes n (x :: 'a::len word)" and "8 * n = LENGTH('b::len)" and "n \<le> 8"
  shows "(ucast r :: 'b word) = ucast x"
proof -
  have "le_bytes n r = le_bytes n x" using assms(1,3) by (simp add: take_le_bytes)
  then have "(le_word (le_bytes n r) :: 'b word) = le_word (le_bytes n x)" by simp
  then show ?thesis by (simp only: le_word_of_le_bytes [OF assms(2)])
qed

text \<open>The scalar of a word that was extended by its sign, against the one extended by zeros.\<close>

lemma unsigned_scast:
  assumes "LENGTH('a::len) < 64"
  shows "newSVuv (scast (x :: 'a word)) = SvInt (ucast x) False \<longleftrightarrow> \<not> bit x (LENGTH('a) - 1)"
proof (cases "bit x (LENGTH('a) - 1)")
  case True
  then have "bit (scast x :: u64) 63" and "\<not> bit (ucast x :: u64) 63"
    using assms by (auto simp: bit_simps dest: bit_imp_le_length)
  then have "(scast x :: u64) \<noteq> ucast x" by metis
  with True show ?thesis by (simp add: newSVuv_def)
next
  case False
  then have "\<not> bit x n" if "LENGTH('a) - 1 \<le> n" for n
    using that bit_imp_le_length [of x n] by (cases "n = LENGTH('a) - 1") auto
  then have "(scast x :: u64) = ucast x" using assms by (intro bit_word_eqI) (auto simp: bit_simps min_def)
  moreover have "\<not> bit (ucast x :: u64) 63" using assms by (auto simp: bit_simps dest: bit_imp_le_length)
  then have "\<not> sint (ucast x :: u64) < 0" by (simp add: sint_uint bit_uint_iff)
  ultimately show ?thesis using False by (simp add: newSVuv_def)
qed

text \<open>The character of \<open>dyncall\<close> for the member of the union \<open>DCValue\<close> that has the C type of a scalar: a reference for
  the one that the handler returns, which tells the kernel of the callback what to hand to the C caller.\<close>

definition result_sigchar :: "char \<Rightarrow> char option" where
  "result_sigchar = map_of [
     (BOOL_FLAG, DC_SIGCHAR_BOOL), (SHORT_FLAG, DC_SIGCHAR_SHORT), (USHORT_FLAG, DC_SIGCHAR_USHORT),
     (INT_FLAG, DC_SIGCHAR_INT), (UINT_FLAG, DC_SIGCHAR_UINT), (LONG_FLAG, DC_SIGCHAR_LONG),
     (ULONG_FLAG, DC_SIGCHAR_ULONG), (LONGLONG_FLAG, DC_SIGCHAR_LONGLONG), (ULONGLONG_FLAG, DC_SIGCHAR_ULONGLONG),
     (FLOAT_FLAG, DC_SIGCHAR_FLOAT), (DOUBLE_FLAG, DC_SIGCHAR_DOUBLE)]"

lemmas result_facts = cb_result_def scalar_result_def result_sigchar_def res_call_def call_of_sigchar_def num_size_def

text \<open>C23: The result of a Perl sub comes back to a Perl caller through C: for a truth value, an integer or a number that its
  C type holds (as in the arguments: no characters, unsigned values only below the sign bit) the handler stores exactly the
  bytes of the C type (four for a truth value, a \<open>DCbool\<close>), from which \<open>Fiction_trigger\<close> makes the same scalar, whatever the
  rest of the result register is. It leaves memory alone, and the character it returns is that of the C type, the one
  with which \<open>dyncall\<close> would make the same call as \<open>Fiction_trigger\<close> does for the type.\<close>

theorem perl_result_returns:
  assumes "perl_host host" and "fits_cb c v"
  shows "\<exists>ch bs. cb_result host t c v st = Inr ((ch, bs), st) \<and>
     result_sigchar c = Some ch \<and> res_call c = call_of_sigchar ch \<and>
     length bs = (if c = BOOL_FLAG then 4 else num_size c) \<and>
     (\<forall>r. take (length bs) (le_bytes 8 (r :: u64)) = bs \<longrightarrow> scalar_result c r = Some v)"
  using assms(2)
proof (cases rule: fits_cb_cases)
  case (1 b)
  then show ?thesis using assms(1) low_bytes [where n = 4 and x = "if b then 1 else 0 :: u32" and 'b = 32]
    by (auto simp: result_facts)
next
  case (2 x)
  then show ?thesis using assms(1) low_bytes [where n = 2 and x = x and 'b = 16]
    by (auto simp: result_facts newSViv_def)
next
  case (3 x)
  then show ?thesis using assms(1) low_bytes [where n = 2 and x = x and 'b = 16]
    by (auto simp: result_facts)
next
  case (4 x)
  then show ?thesis using assms(1) low_bytes [where n = 4 and x = x and 'b = 32]
    by (auto simp: result_facts newSViv_def)
next
  case (5 x)
  then show ?thesis using assms(1) low_bytes [where n = 4 and x = x and 'b = 32]
    by (auto simp: result_facts)
next
  case (6 x)
  then show ?thesis using assms(1) low_bytes [where n = 8 and x = x and 'b = 64]
    by (auto simp: result_facts newSViv_def)
next
  case (7 x)
  then show ?thesis using assms(1) low_bytes [where n = 8 and x = x and 'b = 64]
    by (auto simp: result_facts)
next
  case (8 x)
  then show ?thesis using assms(1) low_bytes [where n = 4 and x = "float_of_double x" and 'b = 32]
    by (auto simp: result_facts)
next
  case (9 x)
  then show ?thesis using assms(1) low_bytes [where n = 8 and x = x and 'b = 64]
    by (auto simp: result_facts)
qed

lemma perl_result_returns_witness:
  "\<exists>bs. cb_result demo_host T_Short SHORT_FLAG (SvInt (- 2) False) \<lparr>st_mem = \<lambda>_. 0, st_blocks = []\<rparr>
       = Inr ((DC_SIGCHAR_SHORT, bs), \<lparr>st_mem = \<lambda>_. 0, st_blocks = []\<rparr>) \<and> length bs = 2 \<and>
     (\<forall>r. take (length bs) (le_bytes 8 (r :: u64)) = bs \<longrightarrow> scalar_result SHORT_FLAG r = Some (SvInt (- 2) False))"
proof -
  have "fits_cb SHORT_FLAG (SvInt (- 2) False)" by (simp add: fits_cb_def num_flags_def)
  from perl_result_returns [OF perl_host_demo this, of T_Short "\<lparr>st_mem = \<lambda>_. 0, st_blocks = []\<rparr>"]
  obtain ch bs where r: "cb_result demo_host T_Short SHORT_FLAG (SvInt (- 2) False) \<lparr>st_mem = \<lambda>_. 0, st_blocks = []\<rparr>
       = Inr ((ch, bs), \<lparr>st_mem = \<lambda>_. 0, st_blocks = []\<rparr>)" "result_sigchar SHORT_FLAG = Some ch"
    "length bs = (if SHORT_FLAG = BOOL_FLAG then 4 else num_size SHORT_FLAG)"
    "\<forall>r. take (length bs) (le_bytes 8 (r :: u64)) = bs \<longrightarrow> scalar_result SHORT_FLAG r = Some (SvInt (- 2) False)" by blast
  from r(2) have "ch = DC_SIGCHAR_SHORT" by (simp add: result_sigchar_def)
  moreover from r(3) have "length bs = 2" by (simp add: num_size_def)
  ultimately show ?thesis using r(1,4) by blast
qed

text \<open>Unsigned 16 and 32 bit values are extended by their sign on the way to Perl: the argument that a callback gets for a
  \<open>UShort\<close> or \<open>UInt\<close>, and the result of a function that returns a \<open>UInt\<close>, is the C value exactly when its top bit is clear;
  the result for a \<open>UShort\<close> always is.\<close>

lemma unsigned_to_perl:
  "(cb_scalar host USHORT_FLAG (AShort y) = SvInt (ucast y) False \<longleftrightarrow> \<not> bit y 15)
   \<and> (cb_scalar host UINT_FLAG (AInt z) = SvInt (ucast z) False \<longleftrightarrow> \<not> bit z 31)
   \<and> (scalar_result UINT_FLAG r = Some (SvInt (ucast (ucast r :: u32)) False) \<longleftrightarrow> \<not> bit r 31)
   \<and> scalar_result USHORT_FLAG r = Some (SvInt (ucast (ucast r :: u16)) False)"
  using sint_of_u16 [of "ucast r"] unsigned_scast [of y] unsigned_scast [of z] unsigned_scast [of "ucast r :: u32"]
  by (simp add: scalar_result_def newSVuv_def bit_simps)

text \<open>A call with the wrong number of arguments throws before any argument is converted, without a change of memory and
  without running the C function.\<close>

lemma wrong_arity_throws:
  assumes "scalar_fiction a cs" and "length vs \<noteq> length cs"
  shows "Fiction_trigger vtab host exec junk a vs vm st
     = Inl (Croak (if length cs < length vs then ''Too many arguments'' else ''Not enough arguments''))"
  using assms by (simp add: Fiction_trigger_def scalar_fiction_def)

lemma wrong_arity_throws_witness:
  "Fiction_trigger (vtab_x64 (\<lambda>_ h. h) (\<lambda>_ h. (h, \<lambda>_. 0)) 0) demo_host (\<lambda>_ st. (42, st)) [] demo_fiction [SvInt 1 False] (x64_blank 64) \<lparr>st_mem = \<lambda>_. 0, st_blocks = []\<rparr>
     = Inl (Croak ''Not enough arguments'')"
  using wrong_arity_throws [OF demo_fiction(1), of "[SvInt 1 False]"] by simp

text \<open>A function that was made without a result type has no scalar for the result, so a call returns what lies on the
  stack of Perl: its first argument.\<close>

lemma undeclared_result:
  assumes "Affix_fiction host ld wrap [lib, symbol, SvArray (map SvType ts)] = Inr (a, name, proto)"
    and "set (map at_numeric ts) \<subseteq> set scalar_flags" and "length vs = length ts" and "vs = v # vs'"
  shows "\<exists>vm' st'. Fiction_trigger vtab host exec junk a vs vm st = Inr (a, Some v, vm', st')"
proof -
  have tl: "type_list (map SvType ts) = Some ts" by (induction ts) simp_all
  with assms(1) have a: "fi_signature a = Some (map at_numeric ts)" "fi_argtypes a = ts" "\<not> fi_aggr_restype a"
    "fi_restype_c a = VOID_FLAG" "fi_res a = None"
    by (auto simp: Affix_fiction_def fiction_argtypes_def fiction_restype_def Let_def split: if_splits sum.splits prod.splits)
  let ?vm = "dcArgs vtab (dcReset vtab vm) (c_args host (map at_numeric ts) vs)"
  obtain vm' k where k: "dcCall vtab callVoid ?vm (fi_entry a) = (vm', k)" by fastforce
  obtain r st' where e: "exec k st = (r, st')" by fastforce
  have "trigger_args vtab host junk ts (map at_numeric ts) vs (dcReset vtab vm) st = Inr (?vm, st)"
    using assms(2,3) by (intro trigger_args_scalar) simp_all
  moreover have "res_call VOID_FLAG = Some callVoid" by (simp add: res_call_def)
  ultimately have "Fiction_trigger vtab host exec junk a vs vm st = Inr (a\<lparr>fi_res := None\<rparr>, Some v, vm', st')"
    using a assms(3,4) k e by (simp add: Fiction_trigger_def trigger_result_def)
  then show ?thesis using a(5) by (metis fiction.surjective fiction.update_convs(9))
qed

lemma undeclared_result_witness:
  "\<exists>a name proto vm' st'.
     Affix_fiction demo_host demo_loader True [SvStr [108] False, SvStr [102] False, SvArray [SvType T_Int]] = Inr (a, name, proto) \<and>
     Fiction_trigger (vtab_x64 (\<lambda>_ h. h) (\<lambda>_ h. (h, \<lambda>_. 0)) 0) demo_host (\<lambda>_ st. (42, st)) [] a [SvInt 5 False] (x64_blank 64) \<lparr>st_mem = \<lambda>_. 0, st_blocks = []\<rparr>
       = Inr (a, Some (SvInt 5 False), vm', st')"
proof -
  obtain a name proto where a:
    "Affix_fiction demo_host demo_loader True [SvStr [108] False, SvStr [102] False, SvArray (map SvType [T_Int])] = Inr (a, name, proto)"
    by (simp add: Affix_fiction_def fiction_library_def fiction_symbol_def fiction_argtypes_def
        fiction_restype_def demo_loader_def demo_host_def Let_def)
  from undeclared_result [OF a, of "[SvInt 5 False]" "SvInt 5 False" "[]" "vtab_x64 (\<lambda>_ h. h) (\<lambda>_ h. (h, \<lambda>_. 0)) 0" "\<lambda>_ st. (42, st)" "[]" "x64_blank 64"
      "\<lparr>st_mem = \<lambda>_. 0, st_blocks = []\<rparr>"] have
    "\<exists>vm' st'. Fiction_trigger (vtab_x64 (\<lambda>_ h. h) (\<lambda>_ h. (h, \<lambda>_. 0)) 0) demo_host (\<lambda>_ st. (42, st)) [] a [SvInt 5 False] (x64_blank 64) \<lparr>st_mem = \<lambda>_. 0, st_blocks = []\<rparr>
       = Inr (a, Some (SvInt 5 False), vm', st')"
    by (simp add: Type_new_def scalar_flags_def num_flags_def)
  with a show ?thesis by simp
qed

text \<open>An \<open>Affix::Pointer\<close> does not reach a function that takes a pointer to numbers: the object is an array for \<open>sv2ptr\<close>, and the
  function gets the address of new memory with the slots of the object in place of the address.\<close>

lemma pointer_object_lost:
  assumes "perl_host host" and "at_numeric t = POINTER_FLAG" and "at_subtype t = Subtype s"
    and "at_numeric s \<in> set num_flags" and "x \<in> used st"
  shows "case trigger_arg vtab host junk t POINTER_FLAG (SvPtr (Some x) ty n pos) vm st of
      Inl e \<Rightarrow> e = OutOfMemory
    | Inr (vm', st') \<Rightarrow> \<exists>p. vm' = dcArg vtab vm (APointer p) \<and> p \<noteq> x \<and> p \<notin> used st"
proof -
  let ?v = "SvPtr (Some x) ty n pos" and ?k = "4 * num_size (at_numeric s)"
  obtain xs where xs: "av_elems ?v = Some xs" "length xs = 4" by simp
  note d = num_flags_distinct [OF assms(4)]
  have "sv2ptr host s ?v 0 st = sv2ptr_num host (at_numeric s) ?v 0 st"
    using assms(4) d by (auto simp: sv2ptr_flat_case sv2ptr_flat_def Let_def char_flags_def)
  also have "\<dots> = map_sum id (\<lambda>(p, st). (p, put_elems (num_bytes host (at_numeric s)) xs p st)) (Newxz host ?k st)"
    using xs by (simp add: sv2ptr_num_def num_ok_def ensure_def del: av_elems.simps split: sum.split)
  finally have v: "sv2ptr host s ?v 0 st
      = map_sum id (\<lambda>(p, st). (p, put_elems (num_bytes host (at_numeric s)) xs p st)) (Newxz host ?k st)" .
  have t: "trigger_arg vtab host junk t POINTER_FLAG ?v vm st
      = map_sum id (\<lambda>(p, st). (dcArg vtab vm (APointer p), st)) (sv2ptr host s ?v 0 st)"
    using assms(3) by (simp add: trigger_arg_def c_arg_def)
  show ?thesis
  proof (cases "Newxz host ?k st")
    case (Inl e)
    then show ?thesis using v t Newxz_fails [OF Inl] by simp
  next
    case (Inr r)
    then obtain p st1 where n: "Newxz host ?k st = Inr (p, st1)" by (cases r) auto
    have "p \<in> region p ?k" using num_size_range [of "at_numeric s"] by auto
    then have "p \<notin> used st" using NewxzD(4) [OF assms(1) n] by blast
    with assms(5) v t n show ?thesis by auto
  qed
qed


text \<open>The C variable at 4096 is not what the function gets.\<close>

lemma pointer_object_lost_witness:
  "\<exists>p st'. trigger_arg (vtab_x64 (\<lambda>_ h. h) (\<lambda>_ h. (h, \<lambda>_. 0)) 0) demo_host [] (T_Pointer T_Int) POINTER_FLAG (SvPtr (Some 4096) T_Int 1 0) (x64_blank 64)
       \<lparr>st_mem = \<lambda>_. 0, st_blocks = [(4096, 4)]\<rparr>
     = Inr (dcArg (vtab_x64 (\<lambda>_ h. h) (\<lambda>_ h. (h, \<lambda>_. 0)) 0) (x64_blank 64) (APointer p), st') \<and> p \<noteq> 4096"
proof -
  let ?st = "\<lparr>st_mem = \<lambda>_. 0, st_blocks = [(4096, 4)]\<rparr> :: store"
  let ?r = "trigger_arg (vtab_x64 (\<lambda>_ h. h) (\<lambda>_ h. (h, \<lambda>_. 0)) 0) demo_host [] (T_Pointer T_Int) POINTER_FLAG (SvPtr (Some 4096) T_Int 1 0) (x64_blank 64) ?st"
  have "4096 \<in> used ?st" by (simp add: used_def region_def)
  from pointer_object_lost [OF perl_host_demo _ _ _ this, where t = "T_Pointer T_Int" and s = T_Int and vtab = "vtab_x64 (\<lambda>_ h. h) (\<lambda>_ h. (h, \<lambda>_. 0)) 0"
      and junk = "[]" and ty = T_Int and n = 1 and pos = 0 and vm = "x64_blank 64"]
  have "case ?r of Inl e \<Rightarrow> e = OutOfMemory
    | Inr (vm', st') \<Rightarrow> \<exists>p. vm' = dcArg (vtab_x64 (\<lambda>_ h. h) (\<lambda>_ h. (h, \<lambda>_. 0)) 0) (x64_blank 64) (APointer p) \<and> p \<noteq> 4096 \<and> p \<notin> used ?st"
    by (simp add: T_Pointer_def Type_new_def num_flags_def)
  moreover have "case ?r of Inl e \<Rightarrow> False | Inr _ \<Rightarrow> True"
    by (simp add: trigger_arg_def c_arg_def T_Pointer_def Type_new_def sv2ptr_flat_def sv2ptr_num_def num_flags_def num_ok_def
        num_size_def ensure_def Newxz_def demo_malloc bump_malloc_def Let_def)
  ultimately show ?thesis by (auto split: sum.splits)
qed

end
