(* ===== verification/Spec2Isabelle.thy ===== *)
theory Spec2Isabelle
  imports Affix_Lib Aggr_Classes Dyn_Callback Dyn_Callf Vm_Arm64 Vm_Arm64Apple Vm_Armhf Vm_Sparc32 Vm_MipsO32 Vm_Ppc32 Vm_Ppc64 Vm_Sparc64 Vm_Mips64 Vm_MipsEabi Cb_X86 Vm_Session Affix_Strings Affix_Pointer Affix_Callback
begin

text \<open>
  This library verifies the core of Affix, a foreign function interface for Perl, and of dyncall, the C library
  that it builds on (directories \<open>src/lib\<close> and \<open>src/dyncall\<close>).

  \<^bold>\<open>The program.\<close> dyncall calls C functions whose signature is known at run time only. A \<^emph>\<open>call VM\<close>
  (\<open>dyncall/dyncall/dyncall_callvm_*.c\<close>) is a table of functions; a client selects a mode, pushes arguments of C types one
  by one and calls. Pushing sorts the values into registers and a byte vector the way the calling convention of the
  platform wants, and a kernel in assembly loads them and jumps. The other way round, a \<^emph>\<open>callback\<close>
  (\<open>dyncall/dyncallback\<close>) is a piece of memory that C code can call; its entry saves registers and stack and a handler
  reads the arguments with an \<^emph>\<open>argument reader\<close> (\<open>dyncall_args_*.c\<close>). Affix (\<open>lib/Affix.cxx\<close>, \<open>lib/Affix/*.cxx\<close> and the
  Perl modules beside them) describes C types by Perl objects, converts scalars to C data and back, calls C functions
  through the call VM and lets C code call Perl subs through callbacks.

  \<^bold>\<open>Foundations.\<close>
  \<^item> \<open>Dyn_Prelude\<close>: C integers as words at their width, floats and doubles as bit patterns, memory as bytes, the byte
    representation of words in both orders and the rounding of sizes.
  \<^item> \<open>Dyn_Vector\<close> (\<open>dyncall_vector.{h,c}\<close>): the record \<open>DCVecHead\<close> is the C structure with the memory behind it. \<open>dcVecAppend_bounds\<close>
    says what an append may touch.
  \<^item> \<open>Dyn_Signature\<close> (\<open>dyncall_signature.h\<close>, modes of \<open>dyncall.h\<close>), \<open>Dyn_Aggregate\<close> (\<open>dyncall_aggregate.{h,c}\<close>,
    \<open>dyncall_aggregate_x64.c\<close>): descriptions of structs and their classes for x64.
  \<^item> \<open>Dyn_Callvm\<close> (\<open>dyncall_callvm.h\<close>, \<open>dyncall_api.c\<close>): the record \<open>DCCallVM\<close>, which the back ends extend, tables of functions as the
    record \<open>DCCallVM_vt\<close>, and the dispatching API. A \<open>NULL\<close> entry of a table is \<open>None\<close>, and so is calling it.
  \<^item> \<open>Dyn_Callf\<close> (\<open>dyncall_callf.c\<close>): calls driven by a signature string, shown to be the calls of the API that
    the string stands for, over any table; a float arrives as the narrowing of its promotion (\<open>promoted\<close>), which
    is itself unless it is a NaN.

  \<^bold>\<open>Call VMs and readers.\<close> Each platform has a theory with the writer, the reader and what kernel and entry pass between
  them: \<open>Vm_X64\<close>, \<open>Args_X64\<close>, \<open>Aggr_X64\<close> and \<open>Aggr_Classes\<close> (System V x64, with structs by value),
  \<open>Vm_X64Win\<close> (Windows x64, with structs by value or by a copy), \<open>Vm_Arm64\<close>, \<open>Vm_Arm64Apple\<close>, \<open>Vm_Arm32\<close> (ARM and
  Thumb), \<open>Vm_Armhf\<close>, \<open>Vm_X86\<close> and \<open>Cb_X86\<close> (all conventions, with the bytes the callee removes), \<open>Vm_Sparc32\<close>, \<open>Vm_Sparc64\<close>,
  \<open>Vm_MipsO32\<close>, \<open>Vm_MipsEabi\<close>, \<open>Vm_Mips64\<close>, \<open>Vm_Ppc32\<close> and \<open>Vm_Ppc64\<close>. The file names of a platform are in the text of its theory; a C function keeps its name, with the
  name of the platform where the C code has a static function of the same name in each file. What makes a pair of
  writer and reader right is one contract, \<open>arg_transport\<close> (\<open>Dyn_Transport\<close>): a push
  appends, later pushes keep what was pushed, the reader finds it. From it follows once, by induction over
  the arguments, that an argument list of any length and mix of types is read back unchanged. \<open>arg_transport_rel\<close> is the
  same for readers that are only related to the state of the writer (registers counted differently), \<open>variadic_transport\<close>
  (\<open>Dyn_Variadic\<close>) joins the contracts of the fixed and the variable part of a variadic call, and
  \<open>flat_transport\<close> (\<open>Dyn_Flat\<close>) for platforms whose arguments are one row of words; every platform
  interprets one of them with its definitions, and its property \<open>*_arguments_arrive\<close> rests on that.
  Where the code does not have the property, the limits are hypotheses and theorems of their own show what happens
  beyond them (\<open>armhf_ninth_double_lost\<close>, \<open>x86_null_this_lost\<close>, \<open>nested_start_misclassified\<close>).

  \<^bold>\<open>Callbacks in memory.\<close>
  \<^item> \<open>Dyn_Thunk\<close> (\<open>dyncall_thunk_*.{h,c}\<close>): the instructions at the start of a callback, as the bytes that \<open>dcbInitThunk\<close> writes. The
    processors are decoders for the encodings that occur and one step function over a small set of operations
    (\<open>insn\<close>); each \<open>thunk_*_enters\<close> runs them from memory.
  \<^item> \<open>Dyn_Callback\<close> (\<open>dyncall_alloc_wx_*.c\<close>, \<open>dyncall_callback*.c\<close>): executable memory as mappings with protections, the making of a
    callback on every platform, \<open>callbacks32_enter\<close> and \<open>callbacks64_enter\<close> from the constructor to the entry in
    assembly (\<open>entry32\<close>, \<open>entry64\<close>: what that reads), the life of the memory, through all states that the making of a callback passes (\<open>callback_states\<close>), and the agreement with the call VM about struct results.

  \<open>Vm_Session\<close> is about the whole life of an x64 VM. \<open>vm_step\<close> is any call of the interface (\<open>dyncall_api.c\<close>), an invariant of the reachable
  states bounds the register counters, and \<open>vm_run\<close> of a sequence of operations refines \<open>q_run\<close>, a machine that collects
  arguments until the next reset (\<open>x64_session_refines\<close>); after any misuse a mode and a reset make the VM usable again
  (\<open>x64_session_recovers\<close>).

  \<^bold>\<open>Affix.\<close>
  \<^item> \<open>Affix_Types\<close> (\<open>lib/Affix/Type.pm\<close>, \<open>Type/Struct.pm\<close>, \<open>Type/Union.pm\<close>, \<open>Aggregate.cxx\<close>): the datatype \<open>atype\<close> has the slots of the
    array behind a type object; layout of structs and unions, the description made for the call VM.
  \<^item> \<open>Affix_Float\<close>: the conversions between float and double that C performs.
  \<^item> \<open>Affix_Marshal\<close> (\<open>marshal.cxx\<close>, \<open>wchar_t.cxx\<close>, \<open>pin.cxx\<close>): \<open>sv2ptr\<close> and \<open>ptr2sv\<close> case by case, over the datatype \<open>sv\<close> of Perl
    scalars and the record \<open>store\<close>, memory with the blocks in use. \<open>croak\<close> and undefined behaviour (an access to
    \<open>NULL\<close>, a read without end) are values of the error side of a sum.
  \<^item> \<open>Affix_Roundtrip\<close>: \<open>sv2ptr_ptr2sv\<close> and \<open>pin_roundtrip\<close>, with the memory that a conversion may touch and that its result depends on (\<open>writes_only\<close>, \<open>stable\<close>)
    and the block that an assignment frees.
  \<^item> \<open>Affix_Strings\<close>: when the loops of \<open>ptr2sv\<close> over strings and arrays of pointers end, and with what.
  \<^item> \<open>Affix_Pointer\<close> (\<open>Type/Pointer.cxx\<close>): pointer objects and the memory functions, each over \<open>store\<close> with the two kinds of objects as
    the datatype \<open>arg\<close>; the life of an object from \<open>sv2ptr\<close> to \<open>free\<close>, what the copying functions do, and what happens
    when a function gets the other kind. \<open>Affix_Dump\<close>: \<open>_DumpHex\<close> of \<open>Utils.cxx\<close> prints the lines it should.
  \<^item> \<open>Affix_Call\<close> (\<open>Affix_fiction\<close>, \<open>Fiction_trigger\<close> of \<open>Affix.cxx\<close>) and \<open>Affix_Callback\<close> (\<open>cbHandlerXXXXX\<close> of \<open>Callback.cxx\<close>): a call from
    Perl through any call VM, a Perl sub called from C, and the two together over the x64 VM and reader
    (\<open>perl_calls_perl\<close>), which rests on \<open>x64_arguments_arrive\<close>'s lemmas.

  \<^bold>\<open>Libraries.\<close> \<open>Dyn_Load\<close> (\<open>dynload_unix.c\<close>, \<open>dynload_windows.c\<close>): loading, and the five implementations of \<open>dlGetLibraryPath\<close>, which
  are instances of one contract (\<open>library_path\<close>). \<open>Dyn_Elf\<close> (\<open>dynload_syms_elf.c\<close>): the reader of symbols on the bytes of a mapped file, an
  instance of \<open>symbol_reader\<close>. \<open>Dyn_Modules\<close> (\<open>dynload_syms_pe.c\<close>, \<open>dynload_syms_mach-o.c\<close>): the readers on the memory of loaded modules; PE is an instance
  of the same contract, Mach-O is not, since it returns \<open>NULL\<close> for some of the symbols that it counts. \<open>Affix_Lib\<close> (\<open>Affix.cxx\<close>, \<open>Lib.cxx\<close>): the functions of Perl on top of both; the state counts references, descriptors,
  mappings and blocks, and the properties say what of them is left behind.

  \<^bold>\<open>Parameters and their laws.\<close> \<open>run\<close> and \<open>exec\<close> stand for the called function, \<open>pad\<close> and \<open>junk\<close> for memory that the code leaves uninitialised, the
  record \<open>host\<close> for the functions of Perl and the C library; \<open>perl_host\<close> collects the documented laws of the latter
  that properties assume (what \<open>SvIV\<close> gives for an integer, that \<open>malloc\<close> returns unused memory) and \<open>demo_host\<close>, with a bump
  allocator, satisfies them.

  \<^bold>\<open>Bounds.\<close> Sizes of vectors are words that wrap as \<open>size_t\<close>; the properties assume that the arguments fit the capacity
  of the vector (what does not fit is dropped by \<open>dcVecAppend\<close>). Loops are structural recursion or have a termination
  proof; reading a C string, which need not end, is a \<open>partial_function\<close> whose \<open>None\<close> is a crash of the
  caller. No fuel is used.

  \<^bold>\<open>Not modelled.\<close> Assembly beyond the frames that it passes on; instruction caches (the thunks are run from memory as it is); what the loader of a system does (a parameter, \<open>dl_os\<close>); configuration headers; the functions of
  Affix that only call the Perl API or that nothing calls (\<open>Affix_affix\<close>, \<open>Affix_trigger\<close>, \<open>ptr2svx\<close>, \<open>sv2ptrx\<close>). 
\<close>

end
